(* ===== verification/Prelude.thy ===== *)
theory Prelude
  imports Main "HOL-Library.Word" "HOL-Library.Monad_Syntax"
begin

text \<open>
  Shared vocabulary of the development: machine integer types, the checked
  evaluation monad, byte memories and the generic lemmas on lists and options.

  A computation of the C program is a value of type \<open>'a option\<close>. \<open>None\<close> means that the
  program has no defined continuation at that point: an assertion
  (\<open>ZEPTO_DEBUG_ASSERT\<close>) fails, or a byte outside an object is read or written.
  Everything the program itself reports (a \<open>NULL\<close> result, \<open>false\<close>, a return code) is an
  ordinary value under \<open>Some\<close>. A theorem that an operation is \<open>Some\<close> of something therefore
  says that no assertion fires and no access leaves its object, in a debug build as in a
  release build.
\<close>

unbundle bit_operations_syntax

type_synonym u8 = "8 word"
type_synonym u16 = "16 word"
type_synonym u32 = "32 word"

named_theorems layout "facts on the order and extent of memory blocks"
named_theorems content_simps "effect of an operation on the bytes of every handle"

section \<open>Checked evaluation\<close>

definition assert :: "bool \<Rightarrow> unit option" where
  "assert b = (if b then Some () else None)"

lemma assert_True [simp]: "assert True = Some ()"
  by (simp add: assert_def)

lemma assert_bind_eq_Some [simp]:
  "(assert b \<bind> f = Some r) \<longleftrightarrow> b \<and> f () = Some r"
  by (simp add: assert_def)

lemma assert_eq_Some [simp]: "assert b = Some u \<longleftrightarrow> b"
  by (simp add: assert_def)

lemma assert_bind [simp]: "b \<Longrightarrow> assert b \<bind> f = f ()"
  by (simp add: assert_def)

text \<open>Assignment to a \<open>uint16_t\<close> variable: the value modulo 2 to the 16.\<close>

definition to_u16 :: "int \<Rightarrow> int" where
  "to_u16 x = x mod 65536"

lemma to_u16_id [simp]: "0 \<le> x \<Longrightarrow> x < 65536 \<Longrightarrow> to_u16 x = x"
  by (simp add: to_u16_def)

lemma to_u16_bounds [simp]: "0 \<le> to_u16 x" "to_u16 x < 65536"
  by (simp_all add: to_u16_def)

text \<open>Passing an integer expression to a \<open>uint16_t\<close> parameter.\<close>

definition u16_of :: "int \<Rightarrow> u16" where
  "u16_of x = word_of_int x"

lemma uint_u16_of: "uint (u16_of x) = to_u16 x"
  by (simp add: u16_of_def to_u16_def uint_word_of_int)

lemma uint_u16_of_id [simp]: "0 \<le> x \<Longrightarrow> x < 65536 \<Longrightarrow> uint (u16_of x) = x"
  by (simp add: uint_u16_of)

text \<open>Storing an integer expression into a \<open>uint8_t\<close>.\<close>

definition u8_of :: "int \<Rightarrow> u8" where
  "u8_of x = word_of_int x"

lemma uint_u8_of: "uint (u8_of x) = x mod 256"
  by (simp add: u8_of_def uint_word_of_int)

lemma uint_u8_of_id [simp]: "0 \<le> x \<Longrightarrow> x < 256 \<Longrightarrow> uint (u8_of x) = x"
  by (simp add: uint_u8_of)

section \<open>Lists\<close>

lemma list_update_append_mid [simp]:
  "length xs = h \<Longrightarrow> (xs @ y # ys)[h := z] = xs @ z # ys"
  by (metis list_update_length)

lemma nth_append_mid [simp]: "length xs = h \<Longrightarrow> (xs @ y # ys) ! h = y"
  by (metis nth_append_length)

lemma split_at_index:
  assumes "h < length l"
  obtains xs ys where "l = xs @ (l ! h) # ys" "length xs = h"
  using assms by (metis id_take_nth_drop length_take min.absorb4)

text \<open>The first index at which a loop over a vector finds what it looks for.\<close>

fun first_index :: "('a \<Rightarrow> bool) \<Rightarrow> 'a list \<Rightarrow> nat option" where
  "first_index P [] = None"
| "first_index P (x # xs) = (if P x then Some 0 else map_option Suc (first_index P xs))"

lemma first_index_None: "first_index P xs = None \<longleftrightarrow> (\<forall>x \<in> set xs. \<not> P x)"
  by (induction xs) auto

lemma first_index_Some: "first_index P xs = Some i \<longleftrightarrow> i < length xs \<and> P (xs ! i) \<and> (\<forall>j < i. \<not> P (xs ! j))"
proof (induction xs arbitrary: i)
  case (Cons x xs)
  then show ?case by (cases i) (auto simp: less_Suc_eq_0_disj)
qed simp

lemma first_index_append:
  "first_index P (xs @ ys) = (case first_index P xs of Some i \<Rightarrow> Some i
     | None \<Rightarrow> map_option ((+) (length xs)) (first_index P ys))"
proof (induction xs)
  case Nil
  show ?case by (cases "first_index P ys") simp_all
next
  case (Cons x xs)
  then show ?case by (cases "first_index P ys") (auto split: option.splits)
qed

section \<open>Byte memories\<close>

text \<open>
  A fixed array of \<open>n\<close> bytes, addressed by offset. Reads and writes outside
  \<open>0 .. n - 1\<close> have no defined result.
\<close>

type_synonym bytes = "int \<Rightarrow> u8"

definition peek :: "int \<Rightarrow> bytes \<Rightarrow> int \<Rightarrow> u8 option" where
  "peek n B a = (if 0 \<le> a \<and> a < n then Some (B a) else None)"

definition poke :: "int \<Rightarrow> bytes \<Rightarrow> int \<Rightarrow> u8 \<Rightarrow> bytes option" where
  "poke n B a v = (if 0 \<le> a \<and> a < n then Some (B(a := v)) else None)"

lemma peek_ok [simp]: "0 \<le> a \<Longrightarrow> a < n \<Longrightarrow> peek n B a = Some (B a)"
  by (simp add: peek_def)

lemma poke_ok [simp]: "0 \<le> a \<Longrightarrow> a < n \<Longrightarrow> poke n B a v = Some (B(a := v))"
  by (simp add: poke_def)

text \<open>\<open>memmove\<close>, \<open>memcpy\<close> from a private buffer, and reading a range into a buffer.\<close>

definition in_range :: "int \<Rightarrow> int \<Rightarrow> int \<Rightarrow> bool" where
  "in_range n a sz \<longleftrightarrow> sz = 0 \<or> (0 \<le> a \<and> 0 \<le> sz \<and> a + sz \<le> n)"

definition moved :: "bytes \<Rightarrow> int \<Rightarrow> int \<Rightarrow> int \<Rightarrow> bytes" where
  "moved B dst src sz = (\<lambda>i. if dst \<le> i \<and> i < dst + sz then B (src + (i - dst)) else B i)"

definition mem_move :: "int \<Rightarrow> bytes \<Rightarrow> int \<Rightarrow> int \<Rightarrow> int \<Rightarrow> bytes option" where
  "mem_move n B dst src sz =
     (if in_range n dst sz \<and> in_range n src sz then Some (moved B dst src sz) else None)"

definition stored :: "bytes \<Rightarrow> int \<Rightarrow> u8 list \<Rightarrow> bytes" where
  "stored B p bs = (\<lambda>i. if p \<le> i \<and> i < p + int (length bs) then bs ! nat (i - p) else B i)"

definition mem_store :: "int \<Rightarrow> bytes \<Rightarrow> int \<Rightarrow> u8 list \<Rightarrow> bytes option" where
  "mem_store n B p bs =
     (if in_range n p (int (length bs)) then Some (stored B p bs) else None)"

definition bytes_at :: "bytes \<Rightarrow> int \<Rightarrow> int \<Rightarrow> u8 list" where
  "bytes_at B p sz = map (\<lambda>i. B (p + int i)) [0..<nat sz]"

definition mem_load :: "int \<Rightarrow> bytes \<Rightarrow> int \<Rightarrow> int \<Rightarrow> u8 list option" where
  "mem_load n B p sz = (if in_range n p sz then Some (bytes_at B p sz) else None)"

lemma length_bytes_at [simp]: "length (bytes_at B p sz) = nat sz"
  by (simp add: bytes_at_def)

lemma nth_bytes_at [simp]: "i < nat sz \<Longrightarrow> bytes_at B p sz ! i = B (p + int i)"
  by (simp add: bytes_at_def)

lemma bytes_at_0 [simp]: "bytes_at B p 0 = []"
  by (simp add: bytes_at_def)

lemma bytes_at_cong:
  assumes "\<And>i. p \<le> i \<Longrightarrow> i < p + sz \<Longrightarrow> B' i = B i"
  shows "bytes_at B' p sz = bytes_at B p sz"
  using assms by (auto simp: bytes_at_def)

lemma bytes_at_shift:
  assumes "\<And>i. 0 \<le> i \<Longrightarrow> i < sz \<Longrightarrow> B' (q + i) = B (p + i)"
  shows "bytes_at B' q sz = bytes_at B p sz"
  using assms by (auto simp: bytes_at_def)

lemma bytes_at_append:
  assumes "0 \<le> a" "0 \<le> b"
  shows "bytes_at B p (a + b) = bytes_at B p a @ bytes_at B (p + a) b"
  by (rule nth_equalityI) (use assms in \<open>auto simp: nth_append nat_add_distrib algebra_simps\<close>)

lemma bytes_at_stored [simp]:
  "bytes_at (stored B p bs) p (int (length bs)) = bs"
  by (rule nth_equalityI) (auto simp: stored_def)

lemma take_bytes_at:
  "0 \<le> a \<Longrightarrow> a \<le> b \<Longrightarrow> take (nat a) (bytes_at B p b) = bytes_at B p a"
  by (rule nth_equalityI) auto

lemma drop_bytes_at:
  "0 \<le> a \<Longrightarrow> a \<le> b \<Longrightarrow> drop (nat a) (bytes_at B p b) = bytes_at B (p + a) (b - a)"
  by (rule nth_equalityI) (auto simp: algebra_simps)

end
