(* ===== verification/Encoded_Size.thy ===== *)
theory Encoded_Size
  imports Prelude
begin

text \<open>
  The boundary tags of \<open>zepto_mem_mngmt.c\<close>: a 16-bit size written into the memory block in
  one, two or three bytes, either forward from the left end of a free range or backward from
  its right end, and the two matching parsers. \<open>enc16\<close> is the reference encoding; both
  writers store it and both parsers invert it.
\<close>

text \<open>The size of the memory block in the \<open>USED_AS_MASTER\<close> build (\<open>platformio.ini\<close>).\<close>

definition BASE_MEM_BLOCK_SIZE :: int where
  "BASE_MEM_BLOCK_SIZE = 0x1000"

abbreviation "peek_block \<equiv> peek BASE_MEM_BLOCK_SIZE"
abbreviation "poke_block \<equiv> poke BASE_MEM_BLOCK_SIZE"

section \<open>Writers and parsers\<close>

definition zepto_mem_man_write_encoded_uint16_no_size_checks_forward ::
  "bytes \<Rightarrow> int \<Rightarrow> u16 \<Rightarrow> bytes option" where
  "zepto_mem_man_write_encoded_uint16_no_size_checks_forward B buff num =
     (if num < 128 then poke_block B buff (ucast num)
      else if num < 16512 then do {
        B \<leftarrow> poke_block B buff ((ucast num AND 0x7F) + 128);
        poke_block B (buff + 1) (ucast (drop_bit 7 (num - 128)))
      }
      else do {
        B \<leftarrow> poke_block B buff ((ucast num AND 0x7F) + 128);
        B \<leftarrow> poke_block B (buff + 1) (ucast ((drop_bit 7 (num - 128) AND 0x7F) + 128));
        poke_block B (buff + 2) (ucast (drop_bit 14 (num - 16512)))
      })"

definition zepto_mem_man_write_encoded_uint16_no_size_checks_backward ::
  "bytes \<Rightarrow> int \<Rightarrow> u16 \<Rightarrow> bytes option" where
  "zepto_mem_man_write_encoded_uint16_no_size_checks_backward B buff num =
     (if num < 128 then poke_block B buff (ucast num)
      else if num < 16512 then do {
        B \<leftarrow> poke_block B buff ((ucast num AND 0x7F) + 128);
        poke_block B (buff - 1) (ucast (drop_bit 7 (num - 128)))
      }
      else do {
        B \<leftarrow> poke_block B buff ((ucast num AND 0x7F) + 128);
        B \<leftarrow> poke_block B (buff - 1) (ucast ((drop_bit 7 (num - 128) AND 0x7F) + 128));
        poke_block B (buff - 2) (ucast (drop_bit 14 (num - 16512)))
      })"

definition zepto_mem_man_parse_encoded_uint16_no_size_checks_forward ::
  "bytes \<Rightarrow> int \<Rightarrow> u16 option" where
  "zepto_mem_man_parse_encoded_uint16_no_size_checks_forward B buff = do {
     b0 \<leftarrow> peek_block B buff;
     if b0 AND 128 = 0 then Some (ucast b0)
     else do {
       b1 \<leftarrow> peek_block B (buff + 1);
       if b1 AND 128 = 0
       then Some (128 + ((ucast (b0 AND 0x7F)) OR push_bit 7 (ucast b1)))
       else do {
         b2 \<leftarrow> peek_block B (buff + 2);
         assert (b2 AND 0x80 = 0);
         assert (b2 < 4);
         Some (16512 + ((ucast (b0 AND 0x7F)) OR push_bit 7 (ucast b1 AND 0x7F)
                        OR push_bit 14 (ucast b2)))
       }
     }
   }"

definition zepto_mem_man_parse_encoded_uint16_no_size_checks_backward ::
  "bytes \<Rightarrow> int \<Rightarrow> u16 option" where
  "zepto_mem_man_parse_encoded_uint16_no_size_checks_backward B buff = do {
     b0 \<leftarrow> peek_block B buff;
     if b0 AND 128 = 0 then Some (ucast b0)
     else do {
       b1 \<leftarrow> peek_block B (buff - 1);
       if b1 AND 128 = 0
       then Some (128 + ((ucast (b0 AND 0x7F)) OR push_bit 7 (ucast b1)))
       else do {
         b2 \<leftarrow> peek_block B (buff - 2);
         assert (b2 AND 0x80 = 0);
         assert (b2 < 4);
         Some (16512 + ((ucast (b0 AND 0x7F)) OR push_bit 7 (ucast b1 AND 0x7F)
                        OR push_bit 14 (ucast b2)))
       }
     }
   }"

abbreviation "write_fwd \<equiv> zepto_mem_man_write_encoded_uint16_no_size_checks_forward"
abbreviation "write_bwd \<equiv> zepto_mem_man_write_encoded_uint16_no_size_checks_backward"
abbreviation "parse_fwd \<equiv> zepto_mem_man_parse_encoded_uint16_no_size_checks_forward"
abbreviation "parse_bwd \<equiv> zepto_mem_man_parse_encoded_uint16_no_size_checks_backward"

lemmas write_defs =
  zepto_mem_man_write_encoded_uint16_no_size_checks_forward_def
  zepto_mem_man_write_encoded_uint16_no_size_checks_backward_def

lemmas parse_defs =
  zepto_mem_man_parse_encoded_uint16_no_size_checks_forward_def
  zepto_mem_man_parse_encoded_uint16_no_size_checks_backward_def

section \<open>The reference encoding\<close>

definition enc16 :: "int \<Rightarrow> u8 list" where
  "enc16 n =
     (if n < 128 then [u8_of n]
      else if n < 16512 then [u8_of (n mod 128 + 128), u8_of ((n - 128) div 128)]
      else [u8_of (n mod 128 + 128), u8_of ((n - 128) div 128 mod 128 + 128),
            u8_of ((n - 16512) div 16384)])"

lemma length_enc16: "length (enc16 n) = (if n < 128 then 1 else if n < 16512 then 2 else 3)"
  by (simp add: enc16_def)

lemma length_enc16_le: "1 \<le> n \<Longrightarrow> int (length (enc16 n)) \<le> n"
  by (simp add: enc16_def)

lemma and_127_uint: "uint (w AND 0x7F :: 'a::len word) = uint w mod 128"
proof -
  have "w AND 0x7F = take_bit 7 w"
    by (simp add: take_bit_eq_mask mask_eq_exp_minus_1)
  then have "uint (w AND 0x7F) = take_bit 7 (uint w)"
    by (simp add: unsigned_take_bit_eq)
  then show ?thesis by (simp add: take_bit_eq_mod)
qed

lemma and_128_eq_0: "(b AND 128 = 0) \<longleftrightarrow> uint (b :: u8) < 128"
proof -
  have "(b AND 128 = 0) \<longleftrightarrow> \<not> bit b 7"
    using and_exp_eq_0_iff_not_bit [of b 7] by simp
  also have "\<dots> \<longleftrightarrow> \<not> bit (uint b) 7"
    by (simp add: bit_uint_iff)
  also have "\<dots> \<longleftrightarrow> even (uint b div 128)"
    by (simp add: bit_iff_odd)
  also have "\<dots> \<longleftrightarrow> uint b < 128"
  proof -
    have "0 \<le> uint b" "uint b < 256" using uint_lt2p [of b] by simp_all
    then show ?thesis by presburger
  qed
  finally show ?thesis .
qed

lemma or_push_add:
  fixes a b :: u16
  assumes "uint a < 2 ^ n"
  shows "a OR push_bit n b = a + push_bit n b"
proof -
  have "a = take_bit n a"
    using assms by (simp add: word_uint_eq_iff unsigned_take_bit_eq take_bit_int_eq_self)
  then have "a AND push_bit n b = 0"
    by (intro bit_eqI) (metis bit_and_iff bit_push_bit_iff bit_take_bit_iff bit_0_eq bot_apply bot_bool_def not_less)
  then show ?thesis by (simp add: disjunctive_add_eq_or)
qed

lemma uint_drop_bit: "uint (drop_bit n w) = uint (w :: 'a::len word) div 2 ^ n"
  by (simp add: unsigned_drop_bit_eq drop_bit_eq_div take_bit_int_eq_self uint_lt2p [simplified] flip: drop_bit_eq_div)

lemma u16_of_numeral: "u16_of (numeral k) = numeral k"
  by (simp add: u16_of_def)

lemma uint_sub_u16: "a \<le> uint w \<Longrightarrow> 0 \<le> a \<Longrightarrow> uint (w - u16_of a) = uint w - a"
proof -
  assume "a \<le> uint w" "0 \<le> a"
  moreover have "uint w < 65536" using uint_lt2p [of w] by simp
  ultimately show ?thesis by (simp add: uint_word_ariths uint_u16_of to_u16_def)
qed

lemma uint_ucast_u8_u16: "uint (ucast (b :: u8) :: u16) = uint b"
  using uint_lt2p [of b] by (simp add: unsigned_ucast_eq take_bit_int_eq_self)

lemma parse_value2:
  assumes "uint (b0 :: u8) = l + 128" "0 \<le> l" "l < 128" "uint (b1 :: u8) = h" "h < 128"
  shows "uint (128 + ((ucast (b0 AND 0x7F)) OR push_bit 7 (ucast b1)) :: u16) = 128 + l + 128 * h"
proof -
  have l: "uint (ucast (b0 AND 0x7F) :: u16) = l"
    using assms by (simp add: uint_ucast_u8_u16 and_127_uint)
  have h: "uint (push_bit 7 (ucast b1 :: u16)) = 128 * h"
    using assms uint_ge_0 [of b1] by (simp add: push_bit_eq_mult uint_word_ariths uint_ucast_u8_u16)
  show ?thesis
    using l h assms uint_ge_0 [of b1] by (simp add: or_push_add uint_word_ariths)
qed


lemma parse_value3:
  assumes "uint (b0 :: u8) = l + 128" "0 \<le> l" "l < 128"
    and "uint (b1 :: u8) = h + 128" "0 \<le> h" "h < 128"
    and "uint (b2 :: u8) = t" "t < 4"
  shows "uint (16512 + ((ucast (b0 AND 0x7F)) OR push_bit 7 (ucast b1 AND 0x7F)
                 OR push_bit 14 (ucast b2)) :: u16) = to_u16 (16512 + l + 128 * h + 16384 * t)"
proof -
  have t0: "0 \<le> t" using assms uint_ge_0 [of b2] by simp
  have l: "uint (ucast (b0 AND 0x7F) :: u16) = l"
    using assms by (simp add: uint_ucast_u8_u16 and_127_uint)
  have h: "uint (push_bit 7 (ucast b1 AND 0x7F :: u16)) = 128 * h"
    using assms by (simp add: push_bit_eq_mult uint_word_ariths uint_ucast_u8_u16 and_127_uint)
  have t: "uint (push_bit 14 (ucast b2 :: u16)) = 16384 * t"
    using assms t0 by (simp add: push_bit_eq_mult uint_word_ariths uint_ucast_u8_u16)
  define x y z where "x = (ucast (b0 AND 0x7F) :: u16)" and "y = (ucast b1 AND 0x7F :: u16)"
    and "z = (ucast b2 :: u16)"
  have xy: "uint (x OR push_bit 7 y) = l + 128 * h"
    using l h assms unfolding x_def [symmetric] y_def [symmetric]
    by (simp add: or_push_add uint_word_ariths)
  have "uint ((x OR push_bit 7 y) OR push_bit 14 z) = l + 128 * h + 16384 * t"
    using xy t assms t0 unfolding z_def [symmetric]
    by (simp add: or_push_add [of "x OR push_bit 7 y"] uint_word_ariths)
  moreover have "uint (16512 + w) = to_u16 (16512 + uint w)" for w :: u16
    by (simp add: uint_word_ariths to_u16_def)
  ultimately have "uint (16512 + (x OR push_bit 7 y OR push_bit 14 z)) = to_u16 (16512 + l + 128 * h + 16384 * t)"
    by (simp add: or.assoc add.assoc)
  then show ?thesis unfolding x_def y_def z_def .
qed

lemma uint_ucast_u16_u8: "uint (ucast (w :: u16) :: u8) = uint w mod 256"
  by (simp add: unsigned_ucast_eq take_bit_eq_mod)

text \<open>The three bytes the writers compute, as residues of the number.\<close>

lemma write_byte0_small:
  assumes n: "0 \<le> n" "n < 65536"
  shows "ucast (u16_of n) = u8_of n"
  using n by (simp add: word_uint_eq_iff uint_ucast_u16_u8 uint_u8_of)

lemma write_byte0:
  assumes n: "0 \<le> n" "n < 65536"
  shows "(ucast (u16_of n) AND 0x7F) + 128 = u8_of (n mod 128 + 128)"
  using n
  by (simp add: word_uint_eq_iff uint_word_ariths uint_u8_of and_127_uint uint_ucast_u16_u8
        mod_mod_cancel)

lemma and_127_of_int:
  assumes n: "0 \<le> n" "n < 65536"
  shows "u8_of n AND 0x7F = u8_of (n mod 128)"
  using n by (simp add: word_uint_eq_iff uint_u8_of and_127_uint mod_mod_cancel)

lemma u8_of_add_128: "u8_of x + 128 = u8_of (x + 128)"
  by (simp add: u8_of_def)

lemma uint_minus_128:
  assumes n: "0 \<le> n" "n < 65536"
  shows "128 \<le> n \<Longrightarrow> uint (u16_of n - 128) = n - 128"
  using n uint_sub_u16 [of 128 "u16_of n"] by (simp add: u16_of_numeral)

lemma write_byte1:
  assumes n: "0 \<le> n" "n < 65536"
  shows "128 \<le> n \<Longrightarrow>
    ucast (drop_bit 7 (u16_of n - 128)) = (u8_of ((n - 128) div 128) :: u8)"
  using n
  by (simp add: word_uint_eq_iff uint_u8_of uint_ucast_u16_u8 uint_drop_bit uint_minus_128 [OF n])

lemma write_byte1_more:
  assumes n: "0 \<le> n" "n < 65536"
  shows "128 \<le> n \<Longrightarrow>
    ucast ((drop_bit 7 (u16_of n - 128) AND 0x7F) + 128)
      = (u8_of ((n - 128) div 128 mod 128 + 128) :: u8)"
  using n
  by (simp add: word_uint_eq_iff uint_u8_of uint_ucast_u16_u8 uint_drop_bit uint_minus_128 [OF n]
        uint_word_ariths and_127_uint)

lemma write_byte2:
  assumes n: "0 \<le> n" "n < 65536"
  shows "16512 \<le> n \<Longrightarrow>
    ucast (drop_bit 14 (u16_of n - 16512)) = (u8_of ((n - 16512) div 16384) :: u8)"
  using n uint_sub_u16 [of 16512 "u16_of n"]
  by (simp add: u16_of_numeral word_uint_eq_iff uint_u8_of uint_ucast_u16_u8 uint_drop_bit)

lemma u16_of_less_iff:
  assumes n: "0 \<le> n" "n < 65536"
  shows "0 \<le> k \<Longrightarrow> k < 65536 \<Longrightarrow> u16_of n < u16_of k \<longleftrightarrow> n < k"
  using n by (simp add: word_less_def)

section \<open>What the writers store, and what the parsers read\<close>

definition stored_back :: "bytes \<Rightarrow> int \<Rightarrow> u8 list \<Rightarrow> bytes" where
  "stored_back B p bs = (\<lambda>i. if p - int (length bs) < i \<and> i \<le> p then bs ! nat (p - i) else B i)"

definition has_fwd :: "bytes \<Rightarrow> int \<Rightarrow> u8 list \<Rightarrow> bool" where
  "has_fwd B p bs \<longleftrightarrow> (\<forall>i < length bs. B (p + int i) = bs ! i)"

definition has_bwd :: "bytes \<Rightarrow> int \<Rightarrow> u8 list \<Rightarrow> bool" where
  "has_bwd B p bs \<longleftrightarrow> (\<forall>i < length bs. B (p - int i) = bs ! i)"

lemma has_fwd_cong:
  assumes "has_fwd B p bs" "\<And>i. p \<le> i \<Longrightarrow> i < p + int (length bs) \<Longrightarrow> B' i = B i"
  shows "has_fwd B' p bs"
  using assms by (auto simp: has_fwd_def)

lemma has_bwd_cong:
  assumes "has_bwd B p bs" "\<And>i. p - int (length bs) < i \<Longrightarrow> i \<le> p \<Longrightarrow> B' i = B i"
  shows "has_bwd B' p bs"
  using assms by (auto simp: has_bwd_def)

lemma has_fwd_stored: "has_fwd (stored B p bs) p bs"
  by (auto simp: has_fwd_def stored_def)

lemma has_bwd_stored_back: "has_bwd (stored_back B p bs) p bs"
  by (auto simp: has_bwd_def stored_back_def)

lemma write_fwd_stored:
  assumes "0 \<le> n" "n < 65536" "0 \<le> p" "p + int (length (enc16 n)) \<le> BASE_MEM_BLOCK_SIZE"
  shows "write_fwd B p (u16_of n) = Some (stored B p (enc16 n))"
proof -
  note w = u16_of_less_iff [OF assms(1,2), of 128, simplified u16_of_numeral]
    u16_of_less_iff [OF assms(1,2), of 16512, simplified u16_of_numeral]
  note b = u8_of_add_128 and_127_of_int [OF assms(1,2)] write_byte0_small [OF assms(1,2)] write_byte0 [OF assms(1,2)]
    write_byte1 [OF assms(1,2)] write_byte1_more [OF assms(1,2)] write_byte2 [OF assms(1,2)]
  show ?thesis
    using assms
    by (auto simp: write_defs w b enc16_def stored_def fun_eq_iff nth_Cons' split: if_splits)
qed

lemma write_bwd_stored:
  assumes "0 \<le> n" "n < 65536" "int (length (enc16 n)) \<le> p + 1" "p < BASE_MEM_BLOCK_SIZE"
  shows "write_bwd B p (u16_of n) = Some (stored_back B p (enc16 n))"
proof -
  note w = u16_of_less_iff [OF assms(1,2), of 128, simplified u16_of_numeral]
    u16_of_less_iff [OF assms(1,2), of 16512, simplified u16_of_numeral]
  note b = u8_of_add_128 and_127_of_int [OF assms(1,2)] write_byte0_small [OF assms(1,2)] write_byte0 [OF assms(1,2)]
    write_byte1 [OF assms(1,2)] write_byte1_more [OF assms(1,2)] write_byte2 [OF assms(1,2)]
  show ?thesis
    using assms
    by (auto simp: write_defs w b enc16_def stored_back_def fun_eq_iff nth_Cons' split: if_splits)
qed




text \<open>What a parser computes from the one, two or three bytes of an encoded number.\<close>

lemma enc_one:
  assumes "0 \<le> n" "n < 128" "b0 = u8_of n"
  shows "b0 AND 128 = 0 \<and> ucast b0 = u16_of n"
proof -
  have b: "uint b0 = n" using assms by (simp add: uint_u8_of_id)
  have "ucast b0 = u16_of n"
    by (rule word_uint_eqI) (use assms b in \<open>simp add: uint_ucast_u8_u16\<close>)
  then show ?thesis using assms b by (simp add: and_128_eq_0)
qed

lemma recompose2: "128 + n mod 128 + 128 * ((n - 128) div 128) = (n :: int)"
proof -
  have "(n - 128) div 128 = n div 128 - 1" by simp
  then show ?thesis using div_mult_mod_eq [of n 128] by linarith
qed

lemma recompose3:
  "16512 + n mod 128 + 128 * ((n - 128) div 128 mod 128) + 16384 * ((n - 16512) div 16384) = (n :: int)"
proof -
  define m where "m = n div 128 - 1"
  have m: "(n - 128) div 128 = m" unfolding m_def by simp
  have "(n - 16512) div 16384 = ((n - 16512) div 128) div 128"
    by (simp add: div_mult2_eq [of _ 128 128, simplified])
  also have "(n - 16512) div 128 = m - 128"
    using div_mult_self1 [of 128 "n" "- 129"] unfolding m_def by simp
  also have "(m - 128) div 128 = m div 128 - 1" by simp
  finally have "(n - 16512) div 16384 = m div 128 - 1" .
  moreover have "n = n mod 128 + 128 * (m + 1)"
    unfolding m_def by simp
  moreover have "16512 + r + 128 * b + 16384 * (a - 1) = r + 128 * (a * 128 + b + 1)" for a b r :: int
    by simp
  from this [of "n mod 128" "m mod 128" "m div 128"]
  have "16512 + n mod 128 + 128 * (m mod 128) + 16384 * (m div 128 - 1) = n mod 128 + 128 * (m + 1)"
    by (simp only: div_mult_mod_eq)
  ultimately show ?thesis unfolding m by metis
qed

lemma enc_two:
  assumes "128 \<le> n" "n < 16512"
    and "b0 = u8_of (n mod 128 + 128)" "b1 = (u8_of ((n - 128) div 128) :: u8)"
  shows "b0 AND 128 \<noteq> 0 \<and> b1 AND 128 = 0 \<and>
    128 + ((ucast (b0 AND 0x7F)) OR push_bit 7 (ucast b1)) = u16_of n"
proof -
  have b: "uint b0 = n mod 128 + 128" "uint b1 = (n - 128) div 128"
  proof -
    have "(n - 128) div 128 < 128" "0 \<le> (n - 128) div 128" using assms(1,2) by simp_all
    then show "uint b0 = n mod 128 + 128" "uint b1 = (n - 128) div 128"
      by (simp_all add: assms(3,4))
  qed
  have "uint (128 + ((ucast (b0 AND 0x7F)) OR push_bit 7 (ucast b1)) :: u16)
        = 128 + n mod 128 + 128 * ((n - 128) div 128)"
    by (rule parse_value2) (use assms b in auto)
  also have "\<dots> = n" by (rule recompose2)
  finally have "128 + ((ucast (b0 AND 0x7F)) OR push_bit 7 (ucast b1)) = u16_of n"
    by (intro word_uint_eqI) (use assms in simp)
  moreover have "\<not> uint b0 < 128" "uint b1 < 128" using assms b by auto
  ultimately show ?thesis by (simp only: and_128_eq_0) simp
qed

lemma enc_three:
  assumes "16512 \<le> n" "n < 65536"
    and "b0 = u8_of (n mod 128 + 128)"
    and "b1 = (u8_of ((n - 128) div 128 mod 128 + 128) :: u8)"
    and "b2 = (u8_of ((n - 16512) div 16384) :: u8)"
  shows "b0 AND 128 \<noteq> 0 \<and> b1 AND 128 \<noteq> 0 \<and> b2 AND 128 = 0 \<and> b2 < 4 \<and>
    16512 + ((ucast (b0 AND 0x7F)) OR push_bit 7 (ucast b1 AND 0x7F) OR push_bit 14 (ucast b2))
      = u16_of n"
proof -
  have t: "0 \<le> (n - 16512) div 16384" "(n - 16512) div 16384 < 3" using assms(1,2) by simp_all
  have b: "uint b0 = n mod 128 + 128" "uint b1 = (n - 128) div 128 mod 128 + 128"
    "uint b2 = (n - 16512) div 16384"
    using t by (simp_all add: assms(3-5))
  have "uint (16512 + ((ucast (b0 AND 0x7F)) OR push_bit 7 (ucast b1 AND 0x7F)
               OR push_bit 14 (ucast b2)) :: u16)
        = to_u16 (16512 + n mod 128 + 128 * ((n - 128) div 128 mod 128) + 16384 * ((n - 16512) div 16384))"
    by (rule parse_value3) (use assms t b in auto)
  also have "16512 + n mod 128 + 128 * ((n - 128) div 128 mod 128) + 16384 * ((n - 16512) div 16384) = n"
    by (rule recompose3)
  finally have "16512 + ((ucast (b0 AND 0x7F)) OR push_bit 7 (ucast b1 AND 0x7F)
      OR push_bit 14 (ucast b2)) = u16_of n"
    by (intro word_uint_eqI) (use assms in simp)
  moreover have "\<not> uint b0 < 128" "\<not> uint b1 < 128" "uint b2 < 128" "b2 < 4"
    using b t by (auto simp: word_less_def)
  ultimately show ?thesis by (simp only: and_128_eq_0) simp
qed

lemma parse_fwd_enc16:
  assumes n: "0 \<le> n" "n < 65536" and B: "has_fwd B p (enc16 n)"
    and p: "0 \<le> p" "p + int (length (enc16 n)) \<le> BASE_MEM_BLOCK_SIZE"
  shows "parse_fwd B p = Some (u16_of n)"
proof -
  consider "n < 128" | "128 \<le> n" "n < 16512" | "16512 \<le> n" by linarith
  then show ?thesis
  proof cases
    case 1
    with B have "B p = u8_of n" by (simp add: has_fwd_def enc16_def)
    from enc_one [OF n(1) 1 this] show ?thesis using 1 p
      by (simp add: parse_defs enc16_def)
  next
    case 2
    then have "B p = u8_of (n mod 128 + 128)" "B (p + 1) = u8_of ((n - 128) div 128)"
      using B by (auto simp: has_fwd_def enc16_def nth_Cons')
    from enc_two [OF 2 this] show ?thesis using 2 p
      by (simp add: parse_defs enc16_def)
  next
    case 3
    then have "B p = u8_of (n mod 128 + 128)"
      "B (p + 1) = u8_of ((n - 128) div 128 mod 128 + 128)"
      "B (p + 2) = u8_of ((n - 16512) div 16384)"
      using B by (auto simp: has_fwd_def enc16_def nth_Cons' eval_nat_numeral)
    from enc_three [OF 3 n(2) this] show ?thesis using 3 p
      by (simp add: parse_defs enc16_def)
  qed
qed

lemma parse_bwd_enc16:
  assumes n: "0 \<le> n" "n < 65536" and B: "has_bwd B p (enc16 n)"
    and p: "int (length (enc16 n)) \<le> p + 1" "p < BASE_MEM_BLOCK_SIZE"
  shows "parse_bwd B p = Some (u16_of n)"
proof -
  consider "n < 128" | "128 \<le> n" "n < 16512" | "16512 \<le> n" by linarith
  then show ?thesis
  proof cases
    case 1
    with B have "B p = u8_of n" by (simp add: has_bwd_def enc16_def)
    from enc_one [OF n(1) 1 this] show ?thesis using 1 p
      by (simp add: parse_defs enc16_def)
  next
    case 2
    then have "B p = u8_of (n mod 128 + 128)" "B (p - 1) = u8_of ((n - 128) div 128)"
      using B by (auto simp: has_bwd_def enc16_def nth_Cons')
    from enc_two [OF 2 this] show ?thesis using 2 p
      by (simp add: parse_defs enc16_def)
  next
    case 3
    then have "B p = u8_of (n mod 128 + 128)"
      "B (p - 1) = u8_of ((n - 128) div 128 mod 128 + 128)"
      "B (p - 2) = u8_of ((n - 16512) div 16384)"
      using B by (auto simp: has_bwd_def enc16_def nth_Cons' eval_nat_numeral)
    from enc_three [OF 3 n(2) this] show ?thesis using 3 p
      by (simp add: parse_defs enc16_def)
  qed
qed

section \<open>Tagged gaps\<close>

text \<open>
  A free range \<open>a .. b - 1\<close> of the block: at least one byte, its size written at both ends.
\<close>

definition gap :: "bytes \<Rightarrow> int \<Rightarrow> int \<Rightarrow> bool" where
  "gap B a b \<longleftrightarrow> 0 \<le> a \<and> a < b \<and> b \<le> BASE_MEM_BLOCK_SIZE \<and>
     has_fwd B a (enc16 (b - a)) \<and> has_bwd B (b - 1) (enc16 (b - a))"

definition put_gap :: "bytes \<Rightarrow> int \<Rightarrow> int \<Rightarrow> bytes" where
  "put_gap B a b = stored_back (stored B a (enc16 (b - a))) (b - 1) (enc16 (b - a))"

definition put_gap_bwd :: "bytes \<Rightarrow> int \<Rightarrow> int \<Rightarrow> bytes" where
  "put_gap_bwd B a b = stored (stored_back B (b - 1) (enc16 (b - a))) a (enc16 (b - a))"

lemma gapD [layout]:
  assumes "gap B a b"
  shows "0 \<le> a" "a < b" "b \<le> BASE_MEM_BLOCK_SIZE"
  using assms by (auto simp: gap_def)

lemma block_size_value: "BASE_MEM_BLOCK_SIZE = 4096"
  by (simp add: BASE_MEM_BLOCK_SIZE_def)

lemma gap_parse_fwd [simp]: "gap B a b \<Longrightarrow> parse_fwd B a = Some (u16_of (b - a))"
  using length_enc16_le [of "b - a"] by (auto simp: gap_def block_size_value intro!: parse_fwd_enc16)

lemma gap_parse_bwd [simp]: "gap B a b \<Longrightarrow> parse_bwd B (b - 1) = Some (u16_of (b - a))"
  using length_enc16_le [of "b - a"] by (auto simp: gap_def block_size_value intro!: parse_bwd_enc16)

lemma gap_cong:
  assumes "gap B a b" "\<And>i. a \<le> i \<Longrightarrow> i < b \<Longrightarrow> B' i = B i"
  shows "gap B' a b"
  using assms length_enc16_le [of "b - a"] unfolding gap_def
  by (auto elim!: has_fwd_cong has_bwd_cong)

lemma gap_put_gap:
  assumes "0 \<le> a" "a < b" "b \<le> BASE_MEM_BLOCK_SIZE"
  shows "gap (put_gap B a b) a b"
proof -
  define e where "e = enc16 (b - a)"
  have e: "int (length e) \<le> b - a" "length e = 1 \<or> 2 * int (length e) \<le> b - a"
    using assms unfolding e_def by (auto simp: length_enc16)
  have "has_fwd (stored_back (stored B a e) (b - 1) e) a e"
    using e by (auto simp: has_fwd_def stored_back_def stored_def)
  moreover have "has_bwd (stored_back (stored B a e) (b - 1) e) (b - 1) e"
    by (rule has_bwd_stored_back)
  ultimately show ?thesis
    using assms by (simp add: gap_def put_gap_def flip: e_def)
qed

lemma put_gap_other:
  assumes "a < b" "i < a \<or> b \<le> i"
  shows "put_gap B a b i = B i"
  using assms length_enc16_le [of "b - a"] by (auto simp: put_gap_def stored_def stored_back_def)

text \<open>The two writes that install a gap, in the order the allocator makes them.\<close>

lemma write_gap:
  assumes "0 \<le> a" "a \<le> p" "p < BASE_MEM_BLOCK_SIZE" "n = p + 1 - a"
  shows "(write_fwd B a (u16_of n) \<bind> (\<lambda>B. write_bwd B p (u16_of n) \<bind> f))
         = f (put_gap B a (p + 1))"
  using assms length_enc16_le [of "p + 1 - a"]
  by (simp add: write_fwd_stored write_bwd_stored put_gap_def block_size_value)

text \<open>The same writes in the other order.\<close>

lemma write_gap_bwd:
  assumes "0 \<le> a" "a \<le> p" "p < BASE_MEM_BLOCK_SIZE" "n = p + 1 - a"
  shows "(write_bwd B p (u16_of n) \<bind> (\<lambda>B. write_fwd B a (u16_of n) \<bind> f))
         = f (put_gap_bwd B a (p + 1))"
  using assms length_enc16_le [of "p + 1 - a"]
  by (simp add: write_fwd_stored write_bwd_stored put_gap_bwd_def block_size_value)

lemma gap_put_gap_bwd:
  assumes "0 \<le> a" "a < b" "b \<le> BASE_MEM_BLOCK_SIZE"
  shows "gap (put_gap_bwd B a b) a b"
proof -
  define e where "e = enc16 (b - a)"
  have e: "int (length e) \<le> b - a" "length e = 1 \<or> 2 * int (length e) \<le> b - a"
    using assms unfolding e_def by (auto simp: length_enc16)
  have "has_bwd (stored (stored_back B (b - 1) e) a e) (b - 1) e"
    using e by (auto simp: has_bwd_def stored_back_def stored_def)
  moreover have "has_fwd (stored (stored_back B (b - 1) e) a e) a e"
    by (rule has_fwd_stored)
  ultimately show ?thesis
    using assms by (simp add: gap_def put_gap_bwd_def flip: e_def)
qed

lemma put_gap_bwd_other:
  assumes "a < b" "i < a \<or> b \<le> i"
  shows "put_gap_bwd B a b i = B i"
  using assms length_enc16_le [of "b - a"] by (auto simp: put_gap_bwd_def stored_def stored_back_def)

end
