(* ===== verification/Heap_Layout.thy ===== *)
theory Heap_Layout
  imports Encoded_Size
begin

text \<open>
  The layout of the memory block of \<open>zepto_mem_mngmt.c\<close>: objects at increasing addresses with
  a tagged gap before, between and after them. \<open>chain\<close> states the layout for a list of
  objects; \<open>links\<close> and \<open>tail\<close> are its parts left and right of one position, so that an
  operation on one object only has to rebuild the two gaps next to it.
\<close>

section \<open>Objects\<close>

text \<open>
  \<open>ptr\<close> is the offset from \<open>BASE_MEM_BLOCK\<close>. Offset 0 stands for \<open>NULL\<close>: every object is
  preceded by a gap of at least one byte, so no object starts at \<open>BASE_MEM_BLOCK\<close> itself.
\<close>

record request_reply_mem_obj =
  ptr :: int
  rq_size :: int
  rsp_size :: int

type_synonym mem_obj = request_reply_mem_obj

definition NULL :: int where "NULL = 0"

definition obj_size :: "mem_obj \<Rightarrow> int" where
  "obj_size ob = rq_size ob + rsp_size ob"

definition obj_end :: "mem_obj \<Rightarrow> int" where
  "obj_end ob = ptr ob + rq_size ob + rsp_size ob"

definition sizes_ok :: "mem_obj list \<Rightarrow> bool" where
  "sizes_ok obs \<longleftrightarrow> (\<forall>ob \<in> set obs. 0 \<le> rq_size ob \<and> 0 \<le> rsp_size ob \<and>
     (ptr ob = NULL \<longrightarrow> rq_size ob = 0 \<and> rsp_size ob = 0))"

lemma sizes_ok_simps [simp]:
  "sizes_ok []"
  "sizes_ok (ob # obs) \<longleftrightarrow> (0 \<le> rq_size ob \<and> 0 \<le> rsp_size ob \<and>
     (ptr ob = NULL \<longrightarrow> rq_size ob = 0 \<and> rsp_size ob = 0)) \<and> sizes_ok obs"
  "sizes_ok (xs @ ys) \<longleftrightarrow> sizes_ok xs \<and> sizes_ok ys"
  by (auto simp: sizes_ok_def)

section \<open>Chains of gaps and objects\<close>

fun chain :: "bytes \<Rightarrow> int \<Rightarrow> mem_obj list \<Rightarrow> int \<Rightarrow> bool" where
  "chain B p [] e = gap B p e"
| "chain B p (ob # obs) e =
     (if ptr ob = NULL then chain B p obs e else gap B p (ptr ob) \<and> chain B (obj_end ob) obs e)"

text \<open>The end of the last allocated object, and the start of the first one.\<close>

fun left_end :: "int \<Rightarrow> mem_obj list \<Rightarrow> int" where
  "left_end p [] = p"
| "left_end p (ob # obs) = left_end (if ptr ob = NULL then p else obj_end ob) obs"

fun right_start :: "mem_obj list \<Rightarrow> int \<Rightarrow> int" where
  "right_start [] e = e"
| "right_start (ob # obs) e = (if ptr ob = NULL then right_start obs e else ptr ob)"

text \<open>A chain without its last gap, and a chain without its first gap.\<close>

fun links :: "bytes \<Rightarrow> int \<Rightarrow> mem_obj list \<Rightarrow> bool" where
  "links B p [] = True"
| "links B p (ob # obs) =
     (if ptr ob = NULL then links B p obs else gap B p (ptr ob) \<and> links B (obj_end ob) obs)"

fun tail :: "bytes \<Rightarrow> mem_obj list \<Rightarrow> int \<Rightarrow> bool" where
  "tail B [] e = True"
| "tail B (ob # obs) e = (if ptr ob = NULL then tail B obs e else chain B (obj_end ob) obs e)"

lemma left_end_append [simp]: "left_end p (xs @ ys) = left_end (left_end p xs) ys"
  by (induction xs arbitrary: p) auto

lemma right_start_append [simp]: "right_start (xs @ ys) e = right_start xs (right_start ys e)"
  by (induction xs) auto

lemma chain_iff_tail: "chain B p obs e \<longleftrightarrow> gap B p (right_start obs e) \<and> tail B obs e"
  by (induction obs) auto

lemma chain_append:
  "chain B p (xs @ ys) e \<longleftrightarrow>
     links B p xs \<and> gap B (left_end p xs) (right_start ys e) \<and> tail B ys e"
  by (induction xs arbitrary: p) (auto simp: chain_iff_tail)

lemma chain_live:
  assumes "ptr ob \<noteq> NULL"
  shows "chain B p (xs @ ob # ys) e \<longleftrightarrow>
    links B p xs \<and> gap B (left_end p xs) (ptr ob) \<and>
    gap B (obj_end ob) (right_start ys e) \<and> tail B ys e"
  using assms by (auto simp: chain_append chain_iff_tail [of B "obj_end ob"])

lemma chain_null:
  assumes "ptr ob = NULL"
  shows "chain B p (xs @ ob # ys) e \<longleftrightarrow>
    links B p xs \<and> gap B (left_end p xs) (right_start ys e) \<and> tail B ys e"
  using assms by (auto simp: chain_append)

lemma links_append:
  "links B p (xs @ ys) \<longleftrightarrow> links B p xs \<and> links B (left_end p xs) ys"
  by (induction xs arbitrary: p) auto

section \<open>Extents\<close>

lemma left_end_ge: "links B p xs \<Longrightarrow> sizes_ok xs \<Longrightarrow> p \<le> left_end p xs"
proof (induction xs arbitrary: p)
  case (Cons ob xs)
  then show ?case
    by (cases "ptr ob = NULL") (fastforce simp: obj_end_def dest: gapD)+
qed simp

lemma right_start_le: "tail B ys e \<Longrightarrow> sizes_ok ys \<Longrightarrow> right_start ys e \<le> e"
proof (induction ys)
  case (Cons ob ys)
  show ?case
  proof (cases "ptr ob = NULL")
    case True
    with Cons show ?thesis by simp
  next
    case False
    with Cons.prems have "gap B (obj_end ob) (right_start ys e)" "tail B ys e"
      by (simp_all add: chain_iff_tail)
    with Cons False have "obj_end ob < e" by (fastforce dest: gapD)
    with Cons.prems False show ?thesis by (simp add: obj_end_def)
  qed
qed simp

lemma links_extent:
  assumes "links B p xs" "sizes_ok xs" "ob \<in> set xs" "ptr ob \<noteq> NULL"
  shows "p < ptr ob \<and> obj_end ob \<le> left_end p xs"
  using assms
proof (induction xs arbitrary: p)
  case (Cons a xs)
  show ?case
  proof (cases "a = ob")
    case True
    with Cons.prems show ?thesis by (auto dest: gapD left_end_ge)
  next
    case False
    with Cons.prems have "ob \<in> set xs" by simp
    show ?thesis
    proof (cases "ptr a = NULL")
      case True
      with Cons \<open>ob \<in> set xs\<close> show ?thesis by auto
    next
      case False
      with Cons \<open>ob \<in> set xs\<close> have "obj_end a < ptr ob \<and> obj_end ob \<le> left_end (obj_end a) xs"
        by auto
      with False Cons.prems show ?thesis by (auto simp: obj_end_def dest: gapD)
    qed
  qed
qed simp

lemma tail_extent:
  assumes "tail B ys e" "sizes_ok ys" "ob \<in> set ys" "ptr ob \<noteq> NULL"
  shows "right_start ys e \<le> ptr ob \<and> obj_end ob < e"
  using assms
proof (induction ys)
  case (Cons a ys)
  show ?case
  proof (cases "ptr a = NULL")
    case True
    with Cons show ?thesis by auto
  next
    case False
    with Cons.prems have g: "gap B (obj_end a) (right_start ys e)" and t: "tail B ys e"
      by (simp_all add: chain_iff_tail)
    have "right_start ys e \<le> e" using t Cons.prems by (auto intro: right_start_le)
    with g Cons t False show ?thesis by (fastforce simp: obj_end_def dest: gapD)
  qed
qed simp

section \<open>Locality\<close>

lemma links_cong:
  assumes "links B p xs" "sizes_ok xs" "\<And>i. p \<le> i \<Longrightarrow> i < left_end p xs \<Longrightarrow> B' i = B i"
  shows "links B' p xs"
  using assms
proof (induction xs arbitrary: p)
  case (Cons ob xs)
  show ?case
  proof (cases "ptr ob = NULL")
    case False
    with Cons.prems have l: "links B (obj_end ob) xs" and g: "gap B p (ptr ob)" by simp_all
    have le: "obj_end ob \<le> left_end (obj_end ob) xs"
      using l Cons.prems by (auto intro: left_end_ge)
    have "p \<le> obj_end ob" using g Cons.prems by (auto simp: obj_end_def dest: gapD)
    then have "links B' (obj_end ob) xs" using Cons False l by auto
    moreover have "gap B' p (ptr ob)"
      using g le Cons.prems False by (auto intro!: gap_cong [OF g] simp: obj_end_def)
    ultimately show ?thesis using False by simp
  qed (use Cons in simp)
qed simp

lemma chain_cong:
  assumes "chain B p xs e" "sizes_ok xs" "\<And>i. p \<le> i \<Longrightarrow> i < e \<Longrightarrow> B' i = B i"
  shows "chain B' p xs e"
proof -
  have l: "links B p xs" and g: "gap B (left_end p xs) e"
    using assms(1) chain_append [of B p xs "[]" e] by simp_all
  have "p \<le> left_end p xs" using l assms(2) by (rule left_end_ge)
  then have "links B' p xs" "gap B' (left_end p xs) e"
    using assms l g by (auto intro!: links_cong [OF l] gap_cong [OF g] dest: gapD)
  then show ?thesis using chain_append [of B' p xs "[]" e] by simp
qed

lemma tail_cong:
  assumes "tail B ys e" "sizes_ok ys" "\<And>i. right_start ys e \<le> i \<Longrightarrow> i < e \<Longrightarrow> B' i = B i"
  shows "tail B' ys e"
  using assms
proof (induction ys)
  case (Cons ob ys)
  then show ?case
    by (cases "ptr ob = NULL") (auto intro!: chain_cong [of B] simp: obj_end_def)
qed simp

end
