(* ===== verification/Heap_Core.thy ===== *)
theory Heap_Core
  imports Heap_Layout
begin

text \<open>
  The state of the memory manager of \<open>zepto_mem_mngmt.c\<close>, its invariant, the abstract view
  (the request and response bytes of every handle), and the operations that work on one
  object and the two gaps next to it: initialisation, moving an object to either side,
  growing it into a neighbouring gap, and trimming it.
\<close>

section \<open>State\<close>

text \<open>
  \<open>memory_objects\<close> lists the objects by handle. The first \<open>MEMORY_HANDLE_MAX\<close> are the C array
  \<open>memory_objects[]\<close>; the rest are the structs the C code keeps inside the data block of the
  handle \<open>MEMORY_HANDLE_ACQUIRABLE_HANDLE_STORAGE\<close>. They are kept here as a typed list instead of
  as raw bytes of that block, so \<open>MEMORY_OBJECT_PTR\<close> is the lookup by handle in both cases.
  The constants of the (external) handle header are fixed the way the code uses them:
  \<open>MEMORY_HANDLE_ACQUIRABLE_START = MEMORY_HANDLE_MAX\<close> and the storage handle is the last
  fixed one.
\<close>

record mem =
  BASE_MEM_BLOCK :: bytes
  memory_objects :: "mem_obj list"
  MEMORY_HANDLE_MAX :: nat

definition MEMORY_HANDLE_ACQUIRABLE_START :: "mem \<Rightarrow> nat" where
  "MEMORY_HANDLE_ACQUIRABLE_START m = MEMORY_HANDLE_MAX m"

definition MEMORY_HANDLE_ACQUIRABLE_HANDLE_STORAGE :: "mem \<Rightarrow> nat" where
  "MEMORY_HANDLE_ACQUIRABLE_HANDLE_STORAGE m = MEMORY_HANDLE_MAX m - 1"

definition MEMORY_OBJECT_PTR :: "mem \<Rightarrow> nat \<Rightarrow> mem_obj option" where
  "MEMORY_OBJECT_PTR m i =
     (if i < length (memory_objects m) then Some (memory_objects m ! i) else None)"

abbreviation set_object :: "mem \<Rightarrow> bytes \<Rightarrow> nat \<Rightarrow> mem_obj \<Rightarrow> mem" where
  "set_object m B h ob \<equiv> m\<lparr>BASE_MEM_BLOCK := B, memory_objects := (memory_objects m)[h := ob]\<rparr>"

text \<open>A parsed boundary tag as the value of a \<open>uint16_t\<close> variable.\<close>

definition size_fwd :: "bytes \<Rightarrow> int \<Rightarrow> int option" where
  "size_fwd B a = map_option uint (parse_fwd B a)"

definition size_bwd :: "bytes \<Rightarrow> int \<Rightarrow> int option" where
  "size_bwd B a = map_option uint (parse_bwd B a)"

section \<open>Operations on one object\<close>

fun init_objects :: "nat \<Rightarrow> bytes \<Rightarrow> (bytes \<times> mem_obj list) option" where
  "init_objects 0 B = Some (B, [])"
| "init_objects (Suc i) B = do {
     (B, obs) \<leftarrow> init_objects i B;
     B \<leftarrow> poke_block B (int i) 1;
     Some (B, obs @ [\<lparr>ptr = 1 + int i, rq_size = 0, rsp_size = 0\<rparr>])
   }"

definition zepto_mem_man_init_memory_management :: "nat \<Rightarrow> bytes \<Rightarrow> mem option" where
  "zepto_mem_man_init_memory_management handle_max B = do {
     (B, obs) \<leftarrow> init_objects handle_max B;
     let remains_at_right = to_u16 (BASE_MEM_BLOCK_SIZE - int handle_max);
     B \<leftarrow> write_fwd B (int handle_max) (u16_of remains_at_right);
     B \<leftarrow> write_bwd B (BASE_MEM_BLOCK_SIZE - 1) (u16_of remains_at_right);
     Some \<lparr>BASE_MEM_BLOCK = B, memory_objects = obs, MEMORY_HANDLE_MAX = handle_max\<rparr>
   }"

definition zepto_mem_man_move_obj_max_right :: "mem \<Rightarrow> nat \<Rightarrow> mem option" where
  "zepto_mem_man_move_obj_max_right m mem_h = do {
     obj \<leftarrow> MEMORY_OBJECT_PTR m mem_h;
     if ptr obj = NULL then do {
       assert (MEMORY_HANDLE_ACQUIRABLE_START m \<le> mem_h);
       Some m
     } else do {
       let B = BASE_MEM_BLOCK m;
       let left_end_of_free_space_at_right = ptr obj + rq_size obj + rsp_size obj;
       free_at_right \<leftarrow> size_fwd B left_end_of_free_space_at_right;
       assert (1 \<le> free_at_right);
       if free_at_right = 1 then Some m
       else do {
         let move_sz = to_u16 (free_at_right - 1);
         let right_end_of_free_space_at_right = left_end_of_free_space_at_right + free_at_right - 1;
         let right_end_of_free_space_at_left = ptr obj - 1;
         free_at_left \<leftarrow> size_bwd B right_end_of_free_space_at_left;
         let left_end_of_free_space_at_left = right_end_of_free_space_at_left - free_at_left + 1;
         B \<leftarrow> mem_move BASE_MEM_BLOCK_SIZE B (ptr obj + move_sz) (ptr obj) (rq_size obj + rsp_size obj);
         let obj = obj\<lparr>ptr := ptr obj + move_sz\<rparr>;
         B \<leftarrow> poke_block B right_end_of_free_space_at_right 1;
         B \<leftarrow> write_fwd B left_end_of_free_space_at_left (u16_of (free_at_left + move_sz));
         B \<leftarrow> write_bwd B (ptr obj - 1) (u16_of (free_at_left + move_sz));
         Some (set_object m B mem_h obj)
       }
     }
   }"

definition zepto_mem_man_move_obj_max_left :: "mem \<Rightarrow> nat \<Rightarrow> mem option" where
  "zepto_mem_man_move_obj_max_left m mem_h = do {
     obj \<leftarrow> MEMORY_OBJECT_PTR m mem_h;
     if ptr obj = NULL then do {
       assert (MEMORY_HANDLE_ACQUIRABLE_START m \<le> mem_h);
       Some m
     } else do {
       let B = BASE_MEM_BLOCK m;
       let right_end_of_free_space_at_left = ptr obj - 1;
       free_at_left \<leftarrow> size_bwd B right_end_of_free_space_at_left;
       assert (1 \<le> free_at_left);
       if free_at_left = 1 then Some m
       else do {
         let move_sz = to_u16 (free_at_left - 1);
         let left_end_of_free_space_at_left = right_end_of_free_space_at_left - free_at_left + 1;
         let left_end_of_free_space_at_right = ptr obj + rq_size obj + rsp_size obj;
         free_at_right \<leftarrow> size_fwd B left_end_of_free_space_at_right;
         let right_end_of_free_space_at_right = left_end_of_free_space_at_right + free_at_right - 1;
         B \<leftarrow> mem_move BASE_MEM_BLOCK_SIZE B (ptr obj - move_sz) (ptr obj) (rq_size obj + rsp_size obj);
         let obj = obj\<lparr>ptr := ptr obj - move_sz\<rparr>;
         B \<leftarrow> poke_block B left_end_of_free_space_at_left 1;
         B \<leftarrow> write_bwd B right_end_of_free_space_at_right (u16_of (free_at_right + move_sz));
         B \<leftarrow> write_fwd B (ptr obj + rq_size obj + rsp_size obj) (u16_of (free_at_right + move_sz));
         Some (set_object m B mem_h obj)
       }
     }
   }"

definition zepto_mem_man_get_freeable_size_at_right :: "mem \<Rightarrow> nat \<Rightarrow> int option" where
  "zepto_mem_man_get_freeable_size_at_right m mem_h = do {
     obj \<leftarrow> MEMORY_OBJECT_PTR m mem_h;
     if ptr obj = NULL then do {
       assert (MEMORY_HANDLE_ACQUIRABLE_START m \<le> mem_h);
       Some 0
     } else do {
       let left_end_of_free_space_at_right = ptr obj + rq_size obj + rsp_size obj;
       free_at_right \<leftarrow> size_fwd (BASE_MEM_BLOCK m) left_end_of_free_space_at_right;
       assert (1 \<le> free_at_right);
       Some (to_u16 (free_at_right - 1))
     }
   }"

definition zepto_mem_man_get_freeable_size_at_left :: "mem \<Rightarrow> nat \<Rightarrow> int option" where
  "zepto_mem_man_get_freeable_size_at_left m mem_h = do {
     obj \<leftarrow> MEMORY_OBJECT_PTR m mem_h;
     if ptr obj = NULL then do {
       assert (MEMORY_HANDLE_ACQUIRABLE_START m \<le> mem_h);
       Some 0
     } else do {
       let right_end_of_free_space_at_left = ptr obj - 1;
       free_at_left \<leftarrow> size_bwd (BASE_MEM_BLOCK m) right_end_of_free_space_at_left;
       assert (1 \<le> free_at_left);
       Some (to_u16 (free_at_left - 1))
     }
   }"

text \<open>The result is the address of the added part; the inner \<open>None\<close> is \<open>NULL\<close> (no room).\<close>

definition zepto_mem_man_try_expand_right ::
  "mem \<Rightarrow> nat \<Rightarrow> int \<Rightarrow> (int option \<times> mem) option" where
  "zepto_mem_man_try_expand_right m mem_h sz = do {
     obj \<leftarrow> MEMORY_OBJECT_PTR m mem_h;
     let B = BASE_MEM_BLOCK m;
     let left_end_of_free_space_at_right = ptr obj + rq_size obj + rsp_size obj;
     free_at_right \<leftarrow> size_fwd B left_end_of_free_space_at_right;
     if free_at_right \<le> sz then Some (None, m)
     else do {
       let right_end_of_free_space_at_right = left_end_of_free_space_at_right + free_at_right - 1;
       let left_end_of_free_space_at_right = left_end_of_free_space_at_right + sz;
       let free_at_right = to_u16 (free_at_right - sz);
       assert (1 \<le> free_at_right);
       B \<leftarrow> write_fwd B left_end_of_free_space_at_right (u16_of free_at_right);
       B \<leftarrow> write_bwd B right_end_of_free_space_at_right (u16_of free_at_right);
       let ret = ptr obj + rq_size obj + rsp_size obj;
       Some (Some ret, set_object m B mem_h (obj\<lparr>rsp_size := to_u16 (rsp_size obj + sz)\<rparr>))
     }
   }"

definition zepto_mem_man_try_expand_left :: "mem \<Rightarrow> nat \<Rightarrow> int \<Rightarrow> (bool \<times> mem) option" where
  "zepto_mem_man_try_expand_left m mem_h sz = do {
     obj \<leftarrow> MEMORY_OBJECT_PTR m mem_h;
     assert (rq_size obj = 0);
     let B = BASE_MEM_BLOCK m;
     let right_end_of_free_space_at_left = ptr obj - 1;
     free_at_left \<leftarrow> size_bwd B right_end_of_free_space_at_left;
     if free_at_left \<le> sz then Some (False, m)
     else do {
       let left_end_of_free_space_at_left = right_end_of_free_space_at_left - free_at_left + 1;
       let right_end_of_free_space_at_left = right_end_of_free_space_at_left - sz;
       let free_at_left = to_u16 (free_at_left - sz);
       assert (1 \<le> free_at_left);
       B \<leftarrow> write_fwd B left_end_of_free_space_at_left (u16_of free_at_left);
       B \<leftarrow> write_bwd B right_end_of_free_space_at_left (u16_of free_at_left);
       Some (True, set_object m B mem_h
               (obj\<lparr>ptr := ptr obj - sz, rsp_size := to_u16 (rsp_size obj + sz)\<rparr>))
     }
   }"

definition zepto_mem_man_try_move_left_expand_right ::
  "mem \<Rightarrow> nat \<Rightarrow> int \<Rightarrow> (int option \<times> mem) option" where
  "zepto_mem_man_try_move_left_expand_right m mem_h sz = do {
     freeable_right \<leftarrow> zepto_mem_man_get_freeable_size_at_right m mem_h;
     freeable_left \<leftarrow> zepto_mem_man_get_freeable_size_at_left m mem_h;
     let freeable = to_u16 (freeable_right + freeable_left);
     if freeable < sz then Some (None, m)
     else do {
       m \<leftarrow> zepto_mem_man_move_obj_max_left m mem_h;
       now_free \<leftarrow> zepto_mem_man_get_freeable_size_at_right m mem_h;
       assert (sz \<le> now_free);
       (ret, m) \<leftarrow> zepto_mem_man_try_expand_right m mem_h sz;
       assert (ret \<noteq> None);
       Some (ret, m)
     }
   }"

definition zepto_mem_man_try_move_right_expand_left ::
  "mem \<Rightarrow> nat \<Rightarrow> int \<Rightarrow> (bool \<times> mem) option" where
  "zepto_mem_man_try_move_right_expand_left m mem_h sz = do {
     freeable_right \<leftarrow> zepto_mem_man_get_freeable_size_at_right m mem_h;
     freeable_left \<leftarrow> zepto_mem_man_get_freeable_size_at_left m mem_h;
     let freeable = to_u16 (freeable_right + freeable_left);
     if freeable < sz then Some (False, m)
     else do {
       m \<leftarrow> zepto_mem_man_move_obj_max_right m mem_h;
       now_free \<leftarrow> zepto_mem_man_get_freeable_size_at_left m mem_h;
       assert (sz \<le> now_free);
       (ret, m) \<leftarrow> zepto_mem_man_try_expand_left m mem_h sz;
       assert ret;
       Some (ret, m)
     }
   }"

section \<open>Trimming\<close>

definition memory_block_trim_at_right :: "bytes \<Rightarrow> int \<Rightarrow> int \<Rightarrow> int \<Rightarrow> bytes option" where
  "memory_block_trim_at_right B block ini_sz size_to_trim = do {
     let left_end_of_free_space = block + ini_sz;
     sz_at_right \<leftarrow> size_fwd B left_end_of_free_space;
     let right_end_of_free_space = left_end_of_free_space + sz_at_right - 1;
     sz_at_right_copy \<leftarrow> size_bwd B right_end_of_free_space;
     assert (sz_at_right = sz_at_right_copy);
     B \<leftarrow> write_fwd B (left_end_of_free_space - size_to_trim) (u16_of (sz_at_right + size_to_trim));
     write_bwd B right_end_of_free_space (u16_of (sz_at_right + size_to_trim))
   }"

definition memory_block_trim_at_left :: "bytes \<Rightarrow> int \<Rightarrow> int \<Rightarrow> int \<Rightarrow> bytes option" where
  "memory_block_trim_at_left B block ini_sz size_to_trim = do {
     sz_at_left \<leftarrow> size_bwd B (block - 1);
     let left_end_of_free_space = block - sz_at_left;
     sz_at_left_copy \<leftarrow> size_fwd B left_end_of_free_space;
     assert (sz_at_left = sz_at_left_copy);
     B \<leftarrow> write_fwd B left_end_of_free_space (u16_of (sz_at_left + size_to_trim));
     write_bwd B (block + size_to_trim - 1) (u16_of (sz_at_left + size_to_trim))
   }"

definition memory_object_cut_and_make_response :: "mem \<Rightarrow> nat \<Rightarrow> int \<Rightarrow> int \<Rightarrow> mem option" where
  "memory_object_cut_and_make_response m mem_h offset sz = do {
     obj \<leftarrow> MEMORY_OBJECT_PTR m mem_h;
     assert (offset \<le> rq_size obj);
     assert (offset + sz \<le> rq_size obj);
     let ini_block = ptr obj;
     let ini_sz = to_u16 (rq_size obj + rsp_size obj);
     let obj = \<lparr>ptr = ptr obj + offset, rq_size = 0, rsp_size = sz\<rparr>;
     B \<leftarrow> memory_block_trim_at_left (BASE_MEM_BLOCK m) ini_block ini_sz offset;
     B \<leftarrow> memory_block_trim_at_right B (ini_block + offset) (to_u16 (ini_sz - offset))
            (to_u16 (ini_sz - offset - sz));
     Some (set_object m B mem_h obj)
   }"

definition memory_object_request_to_response :: "mem \<Rightarrow> nat \<Rightarrow> mem option" where
  "memory_object_request_to_response m mem_h = do {
     obj \<leftarrow> MEMORY_OBJECT_PTR m mem_h;
     memory_object_cut_and_make_response m mem_h 0 (rq_size obj)
   }"

definition memory_object_response_to_request :: "mem \<Rightarrow> nat \<Rightarrow> mem option" where
  "memory_object_response_to_request m mem_h = do {
     obj \<leftarrow> MEMORY_OBJECT_PTR m mem_h;
     let ini_block = ptr obj;
     let ini_sz = to_u16 (rq_size obj + rsp_size obj);
     let trimmed_sz = rq_size obj;
     let obj = \<lparr>ptr = ptr obj + trimmed_sz, rq_size = rsp_size obj, rsp_size = 0\<rparr>;
     B \<leftarrow> memory_block_trim_at_left (BASE_MEM_BLOCK m) ini_block ini_sz trimmed_sz;
     Some (set_object m B mem_h obj)
   }"

definition memory_object_free :: "mem \<Rightarrow> nat \<Rightarrow> mem option" where
  "memory_object_free m mem_h = do {
     obj \<leftarrow> MEMORY_OBJECT_PTR m mem_h;
     let ini_block = ptr obj;
     let ini_sz = to_u16 (rq_size obj + rsp_size obj);
     B \<leftarrow> memory_block_trim_at_right (BASE_MEM_BLOCK m) ini_block ini_sz ini_sz;
     Some (set_object m B mem_h (obj\<lparr>rq_size := 0, rsp_size := 0\<rparr>))
   }"

definition memory_object_free_response :: "mem \<Rightarrow> nat \<Rightarrow> mem option" where
  "memory_object_free_response m mem_h = do {
     obj \<leftarrow> MEMORY_OBJECT_PTR m mem_h;
     let ini_block = ptr obj;
     let ini_sz = to_u16 (rq_size obj + rsp_size obj);
     let trimmed_sz = rsp_size obj;
     B \<leftarrow> memory_block_trim_at_right (BASE_MEM_BLOCK m) ini_block ini_sz trimmed_sz;
     Some (set_object m B mem_h (obj\<lparr>rsp_size := 0\<rparr>))
   }"

definition memory_object_strip_beginning_of_request :: "mem \<Rightarrow> nat \<Rightarrow> int \<Rightarrow> mem option" where
  "memory_object_strip_beginning_of_request m mem_h freeing_at_left = do {
     obj \<leftarrow> MEMORY_OBJECT_PTR m mem_h;
     assert (freeing_at_left \<le> rq_size obj);
     let ini_block = ptr obj;
     let ini_sz = to_u16 (rq_size obj + rsp_size obj);
     B \<leftarrow> memory_block_trim_at_left (BASE_MEM_BLOCK m) ini_block ini_sz freeing_at_left;
     Some (set_object m B mem_h
       (obj\<lparr>ptr := ptr obj + freeing_at_left, rq_size := to_u16 (rq_size obj - freeing_at_left)\<rparr>))
   }"


section \<open>Invariant and abstract view\<close>

definition heap_inv :: "mem \<Rightarrow> bool" where
  "heap_inv m \<longleftrightarrow> sizes_ok (memory_objects m) \<and>
     chain (BASE_MEM_BLOCK m) 0 (memory_objects m) BASE_MEM_BLOCK_SIZE \<and>
     0 < MEMORY_HANDLE_MAX m \<and> MEMORY_HANDLE_MAX m \<le> length (memory_objects m) \<and>
     (\<forall>h < MEMORY_HANDLE_MAX m. ptr (memory_objects m ! h) \<noteq> NULL)"

definition request_bytes :: "bytes \<Rightarrow> mem_obj \<Rightarrow> u8 list" where
  "request_bytes B ob = bytes_at B (ptr ob) (rq_size ob)"

definition response_bytes :: "bytes \<Rightarrow> mem_obj \<Rightarrow> u8 list" where
  "response_bytes B ob = bytes_at B (ptr ob + rq_size ob) (rsp_size ob)"

text \<open>
  What the memory manager promises its clients: a map from the allocated handles to the bytes
  of their request and of their response. Addresses, gaps and boundary tags do not show.
\<close>

definition content :: "mem \<Rightarrow> nat \<rightharpoonup> (u8 list \<times> u8 list)" where
  "content m h =
     (if h < length (memory_objects m) \<and> ptr (memory_objects m ! h) \<noteq> NULL
      then Some (request_bytes (BASE_MEM_BLOCK m) (memory_objects m ! h),
                 response_bytes (BASE_MEM_BLOCK m) (memory_objects m ! h))
      else None)"

lemma bytes_cong_obj:
  assumes "0 \<le> rq_size ob" "0 \<le> rsp_size ob"
    and "\<And>i. ptr ob \<le> i \<Longrightarrow> i < obj_end ob \<Longrightarrow> B' i = B i"
  shows "request_bytes B' ob = request_bytes B ob" "response_bytes B' ob = response_bytes B ob"
  using assms by (auto simp: request_bytes_def response_bytes_def obj_end_def intro!: bytes_at_cong)

text \<open>
  The one lemma behind every operation on a single object: bytes change only between the
  object on its left and the object on its right, and the gaps around the new object are
  rebuilt. The old or the new object may be unallocated (\<open>acquire\<close>, \<open>release\<close>).
\<close>

definition local_change ::
  "mem \<Rightarrow> mem_obj list \<Rightarrow> mem_obj \<Rightarrow> mem_obj list \<Rightarrow> mem_obj \<Rightarrow> bytes \<Rightarrow> bool" where
  "local_change m xs ob ys ob' B' \<longleftrightarrow> heap_inv m \<and> memory_objects m = xs @ ob # ys \<and>
     (\<forall>i. i < left_end 0 xs \<or> right_start ys BASE_MEM_BLOCK_SIZE \<le> i \<longrightarrow> B' i = BASE_MEM_BLOCK m i) \<and>
     sizes_ok [ob']"

lemma heap_inv_parts:
  assumes "heap_inv m" "memory_objects m = xs @ ob # ys"
  shows "links (BASE_MEM_BLOCK m) 0 xs" "tail (BASE_MEM_BLOCK m) ys BASE_MEM_BLOCK_SIZE"
    "sizes_ok xs" "sizes_ok ys" "sizes_ok [ob]"
proof -
  have c: "chain (BASE_MEM_BLOCK m) 0 (xs @ ob # ys) BASE_MEM_BLOCK_SIZE"
    using assms by (simp add: heap_inv_def)
  show "links (BASE_MEM_BLOCK m) 0 xs" "tail (BASE_MEM_BLOCK m) ys BASE_MEM_BLOCK_SIZE"
    using chain_live [THEN iffD1, OF _ c] chain_null [THEN iffD1, OF _ c] by blast+
  show "sizes_ok xs" "sizes_ok ys" "sizes_ok [ob]"
    using assms by (simp_all add: heap_inv_def)
qed

lemma local_change_parts:
  assumes "local_change m xs ob ys ob' B'"
  shows "links B' 0 xs" "tail B' ys BASE_MEM_BLOCK_SIZE"
proof -
  have m: "heap_inv m" "memory_objects m = xs @ ob # ys"
    and out: "\<And>i. i < left_end 0 xs \<or> right_start ys BASE_MEM_BLOCK_SIZE \<le> i \<Longrightarrow> B' i = BASE_MEM_BLOCK m i"
    using assms by (auto simp: local_change_def)
  note p = heap_inv_parts [OF m]
  show "links B' 0 xs"
    by (rule links_cong [OF p(1,3)]) (simp add: out)
  show "tail B' ys BASE_MEM_BLOCK_SIZE"
    by (rule tail_cong [OF p(2,4)]) (simp add: out)
qed

lemma local_change_object:
  assumes "local_change m xs ob ys ob' B'" "x \<in> set xs \<or> x \<in> set ys" "ptr x \<noteq> NULL"
  shows "request_bytes B' x = request_bytes (BASE_MEM_BLOCK m) x"
    and "response_bytes B' x = response_bytes (BASE_MEM_BLOCK m) x"
proof -
  have m: "heap_inv m" "memory_objects m = xs @ ob # ys"
    and out: "\<And>i. i < left_end 0 xs \<or> right_start ys BASE_MEM_BLOCK_SIZE \<le> i \<Longrightarrow> B' i = BASE_MEM_BLOCK m i"
    using assms by (auto simp: local_change_def)
  note p = heap_inv_parts [OF m]
  have "(0 < ptr x \<and> obj_end x \<le> left_end 0 xs) \<or>
        (right_start ys BASE_MEM_BLOCK_SIZE \<le> ptr x \<and> obj_end x < BASE_MEM_BLOCK_SIZE)"
    using assms(2,3) links_extent [OF p(1,3)] tail_extent [OF p(2,4)] by blast
  then have "\<And>i. ptr x \<le> i \<Longrightarrow> i < obj_end x \<Longrightarrow> B' i = BASE_MEM_BLOCK m i"
    by (auto intro!: out)
  moreover have "0 \<le> rq_size x" "0 \<le> rsp_size x"
    using assms(2) p(3,4) by (auto simp: sizes_ok_def)
  ultimately show "request_bytes B' x = request_bytes (BASE_MEM_BLOCK m) x"
    "response_bytes B' x = response_bytes (BASE_MEM_BLOCK m) x"
    by (auto intro!: bytes_cong_obj)
qed

lemma local_change_others:
  assumes lc: "local_change m xs ob ys ob' B'" and h: "h \<noteq> length xs"
  shows "content (m\<lparr>BASE_MEM_BLOCK := B', memory_objects := xs @ ob' # ys\<rparr>) h = content m h"
proof -
  have objs: "memory_objects m = xs @ ob # ys" using lc by (simp add: local_change_def)
  have same: "(xs @ ob' # ys) ! h = (xs @ ob # ys) ! h"
    using h by (auto simp: nth_append nth_Cons')
  have "(xs @ ob # ys) ! h \<in> set xs \<or> (xs @ ob # ys) ! h \<in> set ys" if "h < length (xs @ ob # ys)"
    using h that by (auto simp: nth_append nth_Cons' not_less)
  then show ?thesis
    by (auto simp: content_def objs same local_change_object [OF lc])
qed

lemma put_object:
  assumes lc: "local_change m xs ob ys ob' B'" and "ptr ob' \<noteq> NULL"
    and "gap B' (left_end 0 xs) (ptr ob')"
    and "gap B' (obj_end ob') (right_start ys BASE_MEM_BLOCK_SIZE)"
  defines "m' \<equiv> m\<lparr>BASE_MEM_BLOCK := B', memory_objects := xs @ ob' # ys\<rparr>"
  shows "heap_inv m' \<and>
    content m' = (content m)(length xs \<mapsto> (request_bytes B' ob', response_bytes B' ob'))"
proof -
  have "chain B' 0 (xs @ ob' # ys) BASE_MEM_BLOCK_SIZE"
    using assms(2-4) local_change_parts [OF lc] by (simp add: chain_live)
  then have "heap_inv m'"
    using lc assms(2) by (auto simp: m'_def heap_inv_def local_change_def nth_append nth_Cons')
  moreover have "content m' h = ((content m)(length xs \<mapsto> (request_bytes B' ob', response_bytes B' ob'))) h" for h
    using local_change_others [OF lc, of h] assms(2) by (auto simp: m'_def content_def)
  ultimately show ?thesis by auto
qed

lemma drop_object:
  assumes lc: "local_change m xs ob ys ob' B'" and "ptr ob' = NULL"
    and "MEMORY_HANDLE_MAX m \<le> length xs"
    and "gap B' (left_end 0 xs) (right_start ys BASE_MEM_BLOCK_SIZE)"
  defines "m' \<equiv> m\<lparr>BASE_MEM_BLOCK := B', memory_objects := xs @ ob' # ys\<rparr>"
  shows "heap_inv m' \<and> content m' = (content m)(length xs := None)"
proof -
  have "chain B' 0 (xs @ ob' # ys) BASE_MEM_BLOCK_SIZE"
    using assms(2-4) local_change_parts [OF lc] by (simp add: chain_null)
  then have "heap_inv m'"
    using lc assms(2,3) by (auto simp: m'_def heap_inv_def local_change_def nth_append nth_Cons')
  moreover have "content m' h = ((content m)(length xs := None)) h" for h
    using local_change_others [OF lc, of h] assms(2) by (auto simp: m'_def content_def)
  ultimately show ?thesis by auto
qed

end
