(* ===== verification/Heap_Ops.thy ===== *)
theory Heap_Ops
  imports Heap_Core
begin

text \<open>
  The effect of every single-object operation of the memory manager: under the invariant it
  returns, keeps the invariant, leaves the bytes of all other handles as they are, and puts
  the stated object, with the stated request and response bytes, at the handle.
\<close>

section \<open>A live handle and its two gaps\<close>

definition live_at :: "mem \<Rightarrow> mem_obj list \<Rightarrow> mem_obj \<Rightarrow> mem_obj list \<Rightarrow> bool" where
  "live_at m xs ob ys \<longleftrightarrow> heap_inv m \<and> memory_objects m = xs @ ob # ys \<and> ptr ob \<noteq> NULL"

definition put_at ::
  "mem \<Rightarrow> mem_obj list \<Rightarrow> mem_obj \<Rightarrow> mem_obj list \<Rightarrow> u8 list \<times> u8 list \<Rightarrow> mem \<Rightarrow> bool" where
  "put_at m xs ob' ys c m' \<longleftrightarrow> memory_objects m' = xs @ ob' # ys \<and>
     MEMORY_HANDLE_MAX m' = MEMORY_HANDLE_MAX m \<and> heap_inv m' \<and>
     content m' = (content m)(length xs \<mapsto> c)"

lemma MEMORY_OBJECT_PTR_mid:
  "memory_objects m = xs @ ob # ys \<Longrightarrow> MEMORY_OBJECT_PTR m (length xs) = Some ob"
  by (simp add: MEMORY_OBJECT_PTR_def)

lemma live_at_object [simp]: "live_at m xs ob ys \<Longrightarrow> MEMORY_OBJECT_PTR m (length xs) = Some ob"
  by (simp add: live_at_def MEMORY_OBJECT_PTR_mid)

lemma put_at_live: "put_at m xs ob ys c m' \<Longrightarrow> ptr ob \<noteq> NULL \<Longrightarrow> live_at m' xs ob ys"
  by (simp add: put_at_def live_at_def)

lemma put_at_trans:
  "put_at m xs ob1 ys c1 m1 \<Longrightarrow> put_at m1 xs ob2 ys c2 m2 \<Longrightarrow> put_at m xs ob2 ys c2 m2"
  by (simp add: put_at_def)

lemma live_at_content:
  "live_at m xs ob ys \<Longrightarrow> content m (length xs) =
     Some (request_bytes (BASE_MEM_BLOCK m) ob, response_bytes (BASE_MEM_BLOCK m) ob)"
  by (simp add: live_at_def content_def)

lemma live_at_objs: "live_at m xs ob ys \<Longrightarrow> memory_objects m = xs @ ob # ys"
  by (simp add: live_at_def)

lemma live_at_ptr: "live_at m xs ob ys \<Longrightarrow> ptr ob \<noteq> NULL"
  by (simp add: live_at_def)

lemma live_at_inv: "live_at m xs ob ys \<Longrightarrow> heap_inv m"
  by (simp add: live_at_def)

lemma live_at_handle: "live_at m xs ob ys \<Longrightarrow> length xs < length (memory_objects m)"
  by (simp add: live_at_def)

lemma put_at_self:
  assumes "live_at m xs ob ys"
  shows "put_at m xs ob ys (request_bytes (BASE_MEM_BLOCK m) ob, response_bytes (BASE_MEM_BLOCK m) ob) m"
proof -
  have "content m = (content m)(length xs \<mapsto>
      (request_bytes (BASE_MEM_BLOCK m) ob, response_bytes (BASE_MEM_BLOCK m) ob))"
    using live_at_content [OF assms] by (metis fun_upd_triv)
  then show ?thesis using assms by (simp add: put_at_def live_at_def)
qed

lemma live_at_I:
  assumes "heap_inv m" "h < length (memory_objects m)" "ptr (memory_objects m ! h) \<noteq> NULL"
  obtains xs ob ys where "live_at m xs ob ys" "h = length xs" "ob = memory_objects m ! h"
  using assms by (metis live_at_def split_at_index)

lemma live_at_gaps:
  assumes "live_at m xs ob ys"
  shows "gap (BASE_MEM_BLOCK m) (left_end 0 xs) (ptr ob)"
    "gap (BASE_MEM_BLOCK m) (obj_end ob) (right_start ys BASE_MEM_BLOCK_SIZE)"
    "0 \<le> rq_size ob" "0 \<le> rsp_size ob"
  using assms by (auto simp: live_at_def heap_inv_def chain_live)

text \<open>The order of the addresses around a live object, all inside the block.\<close>

lemma live_at_order:
  assumes "live_at m xs ob ys"
  shows "0 \<le> left_end 0 xs" "left_end 0 xs < ptr ob" "0 \<le> rq_size ob" "0 \<le> rsp_size ob"
    "ptr ob + rq_size ob + rsp_size ob < right_start ys BASE_MEM_BLOCK_SIZE"
    "right_start ys BASE_MEM_BLOCK_SIZE \<le> 4096" "BASE_MEM_BLOCK_SIZE = 4096"
  using gapD [OF live_at_gaps(1) [OF assms]] gapD [OF live_at_gaps(2) [OF assms]]
    live_at_gaps(3,4) [OF assms] by (simp_all add: obj_end_def block_size_value)

lemma gap_one: "B a = 1 \<Longrightarrow> 0 \<le> a \<Longrightarrow> a < BASE_MEM_BLOCK_SIZE \<Longrightarrow> b = a + 1 \<Longrightarrow> gap B a b"
  by (simp add: gap_def has_fwd_def has_bwd_def enc16_def u8_of_def)

lemma put_atI:
  assumes "live_at m xs ob ys" "ptr ob' \<noteq> NULL" "0 \<le> rq_size ob'" "0 \<le> rsp_size ob'"
    and "\<And>i. i < left_end 0 xs \<or> right_start ys BASE_MEM_BLOCK_SIZE \<le> i \<Longrightarrow> B' i = BASE_MEM_BLOCK m i"
    and "gap B' (left_end 0 xs) (ptr ob')"
    and "gap B' (obj_end ob') (right_start ys BASE_MEM_BLOCK_SIZE)"
    and "c = (request_bytes B' ob', response_bytes B' ob')"
    and "m' = m\<lparr>BASE_MEM_BLOCK := B', memory_objects := xs @ ob' # ys\<rparr>"
  shows "put_at m xs ob' ys c m'"
proof -
  have "local_change m xs ob ys ob' B'"
    using assms(1-5) by (auto simp: local_change_def live_at_def)
  from put_object [OF this assms(2,6,7)] show ?thesis
    by (simp add: put_at_def assms(8,9))
qed

lemma size_at_right [simp]:
  assumes "live_at m xs ob ys"
  shows "size_fwd (BASE_MEM_BLOCK m) (ptr ob + rq_size ob + rsp_size ob) =
    Some (right_start ys BASE_MEM_BLOCK_SIZE - obj_end ob)"
  using live_at_gaps(2) [OF assms] live_at_order [OF assms]
  by (simp add: size_fwd_def obj_end_def)

lemma size_at_left [simp]:
  assumes "live_at m xs ob ys"
  shows "size_bwd (BASE_MEM_BLOCK m) (ptr ob - 1) = Some (ptr ob - left_end 0 xs)"
  using live_at_gaps(1) [OF assms] live_at_order [OF assms] by (simp add: size_bwd_def)

lemma bytes_moved:
  "0 \<le> rq_size ob \<Longrightarrow> 0 \<le> rsp_size ob \<Longrightarrow>
    (\<And>i. p \<le> i \<Longrightarrow> i < p + rq_size ob + rsp_size ob \<Longrightarrow> B' i = B (ptr ob + (i - p))) \<Longrightarrow>
    request_bytes B' (ob\<lparr>ptr := p\<rparr>) = request_bytes B ob \<and>
    response_bytes B' (ob\<lparr>ptr := p\<rparr>) = response_bytes B ob"
  by (auto simp: request_bytes_def response_bytes_def add.assoc intro!: bytes_at_shift)

section \<open>Moving\<close>

lemma move_right:
  assumes "live_at m xs ob ys"
  defines "b \<equiv> right_start ys BASE_MEM_BLOCK_SIZE"
  shows "\<exists>m'. zepto_mem_man_move_obj_max_right m (length xs) = Some m' \<and>
    put_at m xs (ob\<lparr>ptr := b - 1 - obj_size ob\<rparr>) ys
      (request_bytes (BASE_MEM_BLOCK m) ob, response_bytes (BASE_MEM_BLOCK m) ob) m'"
proof -
  note live = live_at_order [OF assms(1)] assms(1) [THEN live_at_objs]
  note NN = live_at_ptr [OF assms(1)]
  show ?thesis
  proof (cases "b - obj_end ob = 1")
    case True
    then have "ob\<lparr>ptr := b - 1 - obj_size ob\<rparr> = ob"
      by (cases ob) (simp add: obj_size_def obj_end_def)
    moreover have "zepto_mem_man_move_obj_max_right m (length xs) = Some m"
      using True assms(1) NN by (simp add: zepto_mem_man_move_obj_max_right_def b_def)
    ultimately show ?thesis using put_at_self [OF assms(1)] by simp
  next
    case False
    define mv where "mv = b - obj_end ob - 1"
    define B' where "B' = put_gap ((moved (BASE_MEM_BLOCK m) (ptr ob + mv) (ptr ob) (rq_size ob + rsp_size ob))
        (b - 1 := 1)) (left_end 0 xs) (ptr ob + mv)"
    have mv: "0 < mv" "mv < 65536" "ptr ob + mv + rq_size ob + rsp_size ob = b - 1"
      using False live by (auto simp: mv_def obj_end_def b_def)
    have at_b: "right_start ys BASE_MEM_BLOCK_SIZE = ptr ob + rq_size ob + rsp_size ob + mv + 1"
      using mv by (simp add: b_def)
    have run: "zepto_mem_man_move_obj_max_right m (length xs) =
        Some (m\<lparr>BASE_MEM_BLOCK := B', memory_objects := xs @ (ob\<lparr>ptr := ptr ob + mv\<rparr>) # ys\<rparr>)"
      using assms(1) NN mv(1,2) live at_b
      by (simp add: zepto_mem_man_move_obj_max_right_def Let_def mem_move_def in_range_def
          write_gap B'_def obj_end_def b_def, simp add: add.assoc)
    have p: "b - 1 - obj_size ob = ptr ob + mv"
      using mv by (simp add: obj_size_def)
    have "put_at m xs (ob\<lparr>ptr := ptr ob + mv\<rparr>) ys
      (request_bytes (BASE_MEM_BLOCK m) ob, response_bytes (BASE_MEM_BLOCK m) ob)
      (m\<lparr>BASE_MEM_BLOCK := B', memory_objects := xs @ (ob\<lparr>ptr := ptr ob + mv\<rparr>) # ys\<rparr>)"
    proof (rule put_atI [OF assms(1), where B' = B'])
      show "gap B' (obj_end (ob\<lparr>ptr := ptr ob + mv\<rparr>)) (right_start ys BASE_MEM_BLOCK_SIZE)"
        using mv live by (intro gap_one) (auto simp: obj_end_def B'_def put_gap_other simp flip: b_def)
      show "gap B' (left_end 0 xs) (ptr (ob\<lparr>ptr := ptr ob + mv\<rparr>))"
        using mv live by (auto simp: B'_def b_def intro!: gap_put_gap)
      show "B' i = BASE_MEM_BLOCK m i" if "i < left_end 0 xs \<or> right_start ys BASE_MEM_BLOCK_SIZE \<le> i" for i
        using that mv live by (auto simp: B'_def put_gap_other moved_def b_def)
      have "B' i = BASE_MEM_BLOCK m (ptr ob + (i - (ptr ob + mv)))"
        if "ptr ob + mv \<le> i" "i < ptr ob + mv + rq_size ob + rsp_size ob" for i
        using that mv live by (auto simp: B'_def put_gap_other moved_def)
      then show "(request_bytes (BASE_MEM_BLOCK m) ob, response_bytes (BASE_MEM_BLOCK m) ob) =
          (request_bytes B' (ob\<lparr>ptr := ptr ob + mv\<rparr>), response_bytes B' (ob\<lparr>ptr := ptr ob + mv\<rparr>))"
        using bytes_moved [of ob "ptr ob + mv" B' "BASE_MEM_BLOCK m"] live by simp
    qed (use mv live in \<open>auto simp: NULL_def\<close>)
    with run show ?thesis by (auto simp: p)
  qed
qed

lemma move_left:
  assumes "live_at m xs ob ys"
  defines "a \<equiv> left_end 0 xs"
  shows "\<exists>m'. zepto_mem_man_move_obj_max_left m (length xs) = Some m' \<and>
    put_at m xs (ob\<lparr>ptr := a + 1\<rparr>) ys
      (request_bytes (BASE_MEM_BLOCK m) ob, response_bytes (BASE_MEM_BLOCK m) ob) m'"
proof -
  note live = live_at_order [OF assms(1)] assms(1) [THEN live_at_objs]
  note NN = live_at_ptr [OF assms(1)]
  show ?thesis
  proof (cases "ptr ob - a = 1")
    case True
    then have "ob\<lparr>ptr := a + 1\<rparr> = ob"
      by (cases ob) simp
    moreover have "zepto_mem_man_move_obj_max_left m (length xs) = Some m"
      using True assms(1) NN by (simp add: zepto_mem_man_move_obj_max_left_def a_def)
    ultimately show ?thesis using put_at_self [OF assms(1)] by simp
  next
    case False
    define mv where "mv = ptr ob - a - 1"
    define b where "b = right_start ys BASE_MEM_BLOCK_SIZE"
    define B' where "B' = put_gap_bwd ((moved (BASE_MEM_BLOCK m) (a + 1) (ptr ob) (rq_size ob + rsp_size ob))
        (a := 1)) (a + 1 + rq_size ob + rsp_size ob) b"
    have mv: "0 < mv" "mv < 65536"
      using False live by (auto simp: mv_def a_def)
    have a: "left_end 0 xs = ptr ob - mv - 1" "a = ptr ob - mv - 1"
      by (simp_all add: mv_def a_def)
    have ord: "0 \<le> a" "b \<le> 4096" "a + 1 + mv + rq_size ob + rsp_size ob < b"
      using live mv by (auto simp: a_def b_def mv_def)
    have run: "zepto_mem_man_move_obj_max_left m (length xs) =
        Some (m\<lparr>BASE_MEM_BLOCK := B', memory_objects := xs @ (ob\<lparr>ptr := a + 1\<rparr>) # ys\<rparr>)"
      using assms(1) NN mv live ord(3) ord(1) a
      by (simp add: zepto_mem_man_move_obj_max_left_def Let_def mem_move_def in_range_def
          write_gap_bwd B'_def obj_end_def b_def)
    have "put_at m xs (ob\<lparr>ptr := a + 1\<rparr>) ys
      (request_bytes (BASE_MEM_BLOCK m) ob, response_bytes (BASE_MEM_BLOCK m) ob)
      (m\<lparr>BASE_MEM_BLOCK := B', memory_objects := xs @ (ob\<lparr>ptr := a + 1\<rparr>) # ys\<rparr>)"
    proof (rule put_atI [OF assms(1), where B' = B'])
      show "gap B' (obj_end (ob\<lparr>ptr := a + 1\<rparr>)) (right_start ys BASE_MEM_BLOCK_SIZE)"
        using mv live ord by (auto simp: obj_end_def B'_def simp flip: b_def intro!: gap_put_gap_bwd)
      show "gap B' (left_end 0 xs) (ptr (ob\<lparr>ptr := a + 1\<rparr>))"
        using mv live ord by (intro gap_one) (auto simp: B'_def put_gap_bwd_other simp flip: a_def)
      show "B' i = BASE_MEM_BLOCK m i" if "i < left_end 0 xs \<or> right_start ys BASE_MEM_BLOCK_SIZE \<le> i" for i
        using that mv live ord by (auto simp: B'_def put_gap_bwd_other moved_def simp flip: a_def b_def)
      have "B' i = BASE_MEM_BLOCK m (ptr ob + (i - (a + 1)))"
        if "a + 1 \<le> i" "i < a + 1 + rq_size ob + rsp_size ob" for i
        using that mv live ord by (auto simp: B'_def put_gap_bwd_other moved_def)
      then show "(request_bytes (BASE_MEM_BLOCK m) ob, response_bytes (BASE_MEM_BLOCK m) ob) =
          (request_bytes B' (ob\<lparr>ptr := a + 1\<rparr>), response_bytes B' (ob\<lparr>ptr := a + 1\<rparr>))"
        using bytes_moved [of ob "a + 1" B' "BASE_MEM_BLOCK m"] live by simp
    qed (use mv live ord in \<open>auto simp: NULL_def\<close>)
    with run show ?thesis by auto
  qed
qed

section \<open>Growing into a neighbouring gap\<close>

lemma freeable_right:
  assumes "live_at m xs ob ys"
  shows "zepto_mem_man_get_freeable_size_at_right m (length xs) =
    Some (right_start ys BASE_MEM_BLOCK_SIZE - obj_end ob - 1)"
  using assms live_at_order [OF assms] live_at_ptr [OF assms]
  by (simp add: zepto_mem_man_get_freeable_size_at_right_def obj_end_def)

lemma freeable_left:
  assumes "live_at m xs ob ys"
  shows "zepto_mem_man_get_freeable_size_at_left m (length xs) = Some (ptr ob - left_end 0 xs - 1)"
  using assms live_at_order [OF assms] live_at_ptr [OF assms]
  by (simp add: zepto_mem_man_get_freeable_size_at_left_def)

lemma expand_right_fails:
  assumes "live_at m xs ob ys" "right_start ys BASE_MEM_BLOCK_SIZE - obj_end ob \<le> sz"
  shows "zepto_mem_man_try_expand_right m (length xs) sz = Some (None, m)"
  using assms by (simp add: zepto_mem_man_try_expand_right_def)

lemma expand_right:
  assumes "live_at m xs ob ys" "0 \<le> sz" "sz < right_start ys BASE_MEM_BLOCK_SIZE - obj_end ob"
  shows "\<exists>m' new. zepto_mem_man_try_expand_right m (length xs) sz = Some (Some (obj_end ob), m') \<and>
    put_at m xs (ob\<lparr>rsp_size := rsp_size ob + sz\<rparr>) ys
      (request_bytes (BASE_MEM_BLOCK m) ob, response_bytes (BASE_MEM_BLOCK m) ob @ new) m' \<and>
    length new = nat sz"
proof -
  note live = live_at_order [OF assms(1)] assms(1) [THEN live_at_objs]
  define b where "b = right_start ys BASE_MEM_BLOCK_SIZE"
  define B' where "B' = put_gap (BASE_MEM_BLOCK m) (obj_end ob + sz) b"
  let ?ob = "ob\<lparr>rsp_size := rsp_size ob + sz\<rparr>"
  have ord: "ptr ob + rq_size ob + rsp_size ob + sz < b" "b \<le> 4096"
    using assms live by (auto simp: b_def obj_end_def)
  have run: "zepto_mem_man_try_expand_right m (length xs) sz =
      Some (Some (obj_end ob), m\<lparr>BASE_MEM_BLOCK := B', memory_objects := xs @ ?ob # ys\<rparr>)"
    using assms live ord
    by (simp add: zepto_mem_man_try_expand_right_def Let_def write_gap B'_def obj_end_def flip: b_def)
  have same: "B' i = BASE_MEM_BLOCK m i" if "i < obj_end ob + sz \<or> b \<le> i" for i
    using that ord by (simp add: B'_def put_gap_other obj_end_def)
  have "put_at m xs ?ob ys
      (request_bytes (BASE_MEM_BLOCK m) ob,
       response_bytes (BASE_MEM_BLOCK m) ob @ bytes_at B' (obj_end ob) sz)
      (m\<lparr>BASE_MEM_BLOCK := B', memory_objects := xs @ ?ob # ys\<rparr>)"
  proof (rule put_atI [OF assms(1), where B' = B'])
    show "gap B' (obj_end ?ob) (right_start ys BASE_MEM_BLOCK_SIZE)"
      using live ord assms(2) by (auto simp: obj_end_def B'_def add.assoc simp flip: b_def intro!: gap_put_gap)
    show "gap B' (left_end 0 xs) (ptr ?ob)"
      using live ord assms(2)
      by (auto intro!: gap_cong [OF live_at_gaps(1) [OF assms(1)]] same simp: obj_end_def)
    have r: "request_bytes B' ?ob = request_bytes (BASE_MEM_BLOCK m) ob"
      using live assms(2) by (auto simp: request_bytes_def obj_end_def intro!: bytes_at_cong same)
    have "bytes_at B' (ptr ob + rq_size ob) (rsp_size ob) = bytes_at (BASE_MEM_BLOCK m) (ptr ob + rq_size ob) (rsp_size ob)"
      using live assms(2) by (auto simp: obj_end_def intro!: bytes_at_cong same)
    then have "response_bytes B' ?ob = response_bytes (BASE_MEM_BLOCK m) ob @ bytes_at B' (obj_end ob) sz"
      using live assms(2) by (simp add: response_bytes_def bytes_at_append obj_end_def)
    with r show "(request_bytes (BASE_MEM_BLOCK m) ob,
       response_bytes (BASE_MEM_BLOCK m) ob @ bytes_at B' (obj_end ob) sz) =
       (request_bytes B' ?ob, response_bytes B' ?ob)" by simp
  qed (use live ord assms(1,2) in \<open>auto intro!: same simp: obj_end_def live_at_def simp flip: b_def\<close>)
  with run show ?thesis by auto
qed

lemma expand_left_fails:
  assumes "live_at m xs ob ys" "rq_size ob = 0" "ptr ob - left_end 0 xs \<le> sz"
  shows "zepto_mem_man_try_expand_left m (length xs) sz = Some (False, m)"
  using assms by (simp add: zepto_mem_man_try_expand_left_def)

lemma expand_left:
  assumes "live_at m xs ob ys" "rq_size ob = 0" "0 \<le> sz" "sz < ptr ob - left_end 0 xs"
  shows "\<exists>m' new. zepto_mem_man_try_expand_left m (length xs) sz = Some (True, m') \<and>
    put_at m xs (ob\<lparr>ptr := ptr ob - sz, rsp_size := rsp_size ob + sz\<rparr>) ys
      ([], new @ response_bytes (BASE_MEM_BLOCK m) ob) m' \<and> length new = nat sz"
proof -
  note live = live_at_order [OF assms(1)] assms(1) [THEN live_at_objs]
  define a where "a = left_end 0 xs"
  define B' where "B' = put_gap (BASE_MEM_BLOCK m) a (ptr ob - sz)"
  let ?ob = "ob\<lparr>ptr := ptr ob - sz, rsp_size := rsp_size ob + sz\<rparr>"
  have ord: "0 \<le> a" "a < ptr ob - sz" "ptr ob + rsp_size ob < 4096"
    using assms live by (auto simp: a_def)
  have run: "zepto_mem_man_try_expand_left m (length xs) sz =
      Some (True, m\<lparr>BASE_MEM_BLOCK := B', memory_objects := xs @ ?ob # ys\<rparr>)"
    using assms live ord
    by (simp add: zepto_mem_man_try_expand_left_def Let_def write_gap B'_def flip: a_def)
  have same: "B' i = BASE_MEM_BLOCK m i" if "i < a \<or> ptr ob - sz \<le> i" for i
    using that ord by (simp add: B'_def put_gap_other)
  have "put_at m xs ?ob ys ([], bytes_at B' (ptr ob - sz) sz @ response_bytes (BASE_MEM_BLOCK m) ob)
      (m\<lparr>BASE_MEM_BLOCK := B', memory_objects := xs @ ?ob # ys\<rparr>)"
  proof (rule put_atI [OF assms(1), where B' = B'])
    show "gap B' (left_end 0 xs) (ptr ?ob)"
      using live ord assms(3) by (auto simp: B'_def simp flip: a_def intro!: gap_put_gap)
    have "gap B' (obj_end ob) (right_start ys BASE_MEM_BLOCK_SIZE)"
      using live ord assms(3)
      by (intro gap_cong [OF live_at_gaps(2) [OF assms(1)]] same) (simp add: obj_end_def)
    then show "gap B' (obj_end ?ob) (right_start ys BASE_MEM_BLOCK_SIZE)"
      by (simp add: obj_end_def add.assoc)
    have "bytes_at B' (ptr ob) (rsp_size ob) = response_bytes (BASE_MEM_BLOCK m) ob"
      using live assms(2,3) by (auto simp: response_bytes_def intro!: bytes_at_cong same)
    then show "([], bytes_at B' (ptr ob - sz) sz @ response_bytes (BASE_MEM_BLOCK m) ob) =
       (request_bytes B' ?ob, response_bytes B' ?ob)"
      using live assms(2,3) bytes_at_append [of sz "rsp_size ob" B' "ptr ob - sz"]
      by (simp add: request_bytes_def response_bytes_def add.commute)
  qed (use live ord assms(1-3) in \<open>auto intro!: same simp: NULL_def simp flip: a_def\<close>)
  with run show ?thesis using assms(3) by auto
qed

lemma move_left_expand_right_fails:
  assumes "live_at m xs ob ys"
    "right_start ys BASE_MEM_BLOCK_SIZE - left_end 0 xs - obj_size ob - 2 < sz"
  shows "zepto_mem_man_try_move_left_expand_right m (length xs) sz = Some (None, m)"
  using assms live_at_order [OF assms(1)]
  by (simp add: zepto_mem_man_try_move_left_expand_right_def freeable_right freeable_left
      obj_end_def obj_size_def)

lemma move_left_expand_right:
  assumes "live_at m xs ob ys" "0 \<le> sz"
    "sz \<le> right_start ys BASE_MEM_BLOCK_SIZE - left_end 0 xs - obj_size ob - 2"
  defines "p \<equiv> left_end 0 xs + 1"
  shows "\<exists>m' new. zepto_mem_man_try_move_left_expand_right m (length xs) sz =
      Some (Some (p + obj_size ob), m') \<and>
    put_at m xs (ob\<lparr>ptr := p, rsp_size := rsp_size ob + sz\<rparr>) ys
      (request_bytes (BASE_MEM_BLOCK m) ob, response_bytes (BASE_MEM_BLOCK m) ob @ new) m' \<and>
    length new = nat sz"
proof -
  note live = live_at_order [OF assms(1)]
  obtain m1 where m1: "zepto_mem_man_move_obj_max_left m (length xs) = Some m1"
    and put1: "put_at m xs (ob\<lparr>ptr := p\<rparr>) ys
      (request_bytes (BASE_MEM_BLOCK m) ob, response_bytes (BASE_MEM_BLOCK m) ob) m1"
    using move_left [OF assms(1)] unfolding p_def by blast
  have live1: "live_at m1 xs (ob\<lparr>ptr := p\<rparr>) ys"
    using put1 live by (auto intro!: put_at_live simp: NULL_def p_def)
  have c1: "request_bytes (BASE_MEM_BLOCK m1) (ob\<lparr>ptr := p\<rparr>) = request_bytes (BASE_MEM_BLOCK m) ob"
    "response_bytes (BASE_MEM_BLOCK m1) (ob\<lparr>ptr := p\<rparr>) = response_bytes (BASE_MEM_BLOCK m) ob"
    using live_at_content [OF live1] put1 by (simp_all add: put_at_def)
  have room: "sz < right_start ys BASE_MEM_BLOCK_SIZE - obj_end (ob\<lparr>ptr := p\<rparr>)"
    using assms by (simp add: obj_end_def obj_size_def)
  from expand_right [OF live1 assms(2) room] obtain m' new
    where e: "zepto_mem_man_try_expand_right m1 (length xs) sz = Some (Some (obj_end (ob\<lparr>ptr := p\<rparr>)), m')"
    and put2: "put_at m1 xs (ob\<lparr>ptr := p, rsp_size := rsp_size ob + sz\<rparr>) ys
      (request_bytes (BASE_MEM_BLOCK m) ob, response_bytes (BASE_MEM_BLOCK m) ob @ new) m'"
    and len: "length new = nat sz"
    unfolding c1 by auto
  have "zepto_mem_man_try_move_left_expand_right m (length xs) sz = Some (Some (p + obj_size ob), m')"
    using assms(1,3) live room
    by (simp add: zepto_mem_man_try_move_left_expand_right_def freeable_right freeable_left m1 e
        freeable_right [OF live1] obj_end_def obj_size_def add.assoc)
  with put_at_trans [OF put1 put2] len show ?thesis by blast
qed

lemma move_right_expand_left_fails:
  assumes "live_at m xs ob ys"
    "right_start ys BASE_MEM_BLOCK_SIZE - left_end 0 xs - obj_size ob - 2 < sz"
  shows "zepto_mem_man_try_move_right_expand_left m (length xs) sz = Some (False, m)"
  using assms live_at_order [OF assms(1)]
  by (simp add: zepto_mem_man_try_move_right_expand_left_def freeable_right freeable_left
      obj_end_def obj_size_def)

lemma move_right_expand_left:
  assumes "live_at m xs ob ys" "rq_size ob = 0" "0 \<le> sz"
    "sz \<le> right_start ys BASE_MEM_BLOCK_SIZE - left_end 0 xs - obj_size ob - 2"
  defines "p \<equiv> right_start ys BASE_MEM_BLOCK_SIZE - 1 - obj_size ob"
  shows "\<exists>m' new. zepto_mem_man_try_move_right_expand_left m (length xs) sz = Some (True, m') \<and>
    put_at m xs (ob\<lparr>ptr := p - sz, rsp_size := rsp_size ob + sz\<rparr>) ys
      ([], new @ response_bytes (BASE_MEM_BLOCK m) ob) m' \<and>
    length new = nat sz"
proof -
  note live = live_at_order [OF assms(1)]
  obtain m1 where m1: "zepto_mem_man_move_obj_max_right m (length xs) = Some m1"
    and put1: "put_at m xs (ob\<lparr>ptr := p\<rparr>) ys
      (request_bytes (BASE_MEM_BLOCK m) ob, response_bytes (BASE_MEM_BLOCK m) ob) m1"
    using move_right [OF assms(1)] unfolding p_def by blast
  have live1: "live_at m1 xs (ob\<lparr>ptr := p\<rparr>) ys"
    using put1 live by (auto intro!: put_at_live simp: NULL_def p_def obj_size_def)
  have c1: "response_bytes (BASE_MEM_BLOCK m1) (ob\<lparr>ptr := p\<rparr>) = response_bytes (BASE_MEM_BLOCK m) ob"
    using live_at_content [OF live1] put1 by (simp add: put_at_def)
  have room: "sz < ptr (ob\<lparr>ptr := p\<rparr>) - left_end 0 xs"
    using assms(4) by (simp add: p_def)
  have "rq_size (ob\<lparr>ptr := p\<rparr>) = 0" using assms(2) by simp
  from expand_left [OF live1 this assms(3) room] obtain m' new
    where e: "zepto_mem_man_try_expand_left m1 (length xs) sz = Some (True, m')"
    and put2: "put_at m1 xs (ob\<lparr>ptr := p - sz, rsp_size := rsp_size ob + sz\<rparr>) ys
      ([], new @ response_bytes (BASE_MEM_BLOCK m) ob) m'"
    and len: "length new = nat sz"
    unfolding c1 by auto
  have "zepto_mem_man_try_move_right_expand_left m (length xs) sz = Some (True, m')"
    using assms(1,4) live room
    by (simp add: zepto_mem_man_try_move_right_expand_left_def freeable_right freeable_left m1 e
        freeable_left [OF live1] obj_end_def obj_size_def)
  with put_at_trans [OF put1 put2] len show ?thesis by blast
qed

section \<open>Trimming\<close>

lemma trim_right:
  assumes "gap B (block + n) b" "0 \<le> t" "0 \<le> block + n - t"
  shows "memory_block_trim_at_right B block n t = Some (put_gap B (block + n - t) b)"
proof -
  note g = gapD [OF assms(1)]
  have "size_fwd B (block + n) = Some (b - (block + n))" "size_bwd B (b - 1) = Some (b - (block + n))"
    using assms(1) g by (simp_all add: size_fwd_def size_bwd_def block_size_value)
  moreover have "(write_fwd B (block + n - t) (u16_of (b - (block + n) + t)) \<bind>
      (\<lambda>B. write_bwd B (b - 1) (u16_of (b - (block + n) + t)) \<bind> Some)) =
      Some (put_gap B (block + n - t) (b - 1 + 1))"
    using g assms(2,3) by (intro write_gap) auto
  ultimately show ?thesis
    by (simp add: memory_block_trim_at_right_def algebra_simps)
qed

lemma trim_left:
  assumes "gap B a block" "0 \<le> t" "block + t \<le> BASE_MEM_BLOCK_SIZE"
  shows "memory_block_trim_at_left B block n t = Some (put_gap B a (block + t))"
proof -
  note g = gapD [OF assms(1)]
  have "size_fwd B a = Some (block - a)" "size_bwd B (block - 1) = Some (block - a)"
    using assms(1) g by (simp_all add: size_fwd_def size_bwd_def block_size_value)
  moreover have "(write_fwd B a (u16_of (block - a + t)) \<bind>
      (\<lambda>B. write_bwd B (block + t - 1) (u16_of (block - a + t)) \<bind> Some)) =
      Some (put_gap B a (block + t - 1 + 1))"
    using g assms by (intro write_gap) auto
  ultimately show ?thesis
    by (simp add: memory_block_trim_at_left_def)
qed

text \<open>Shrinking an object to a part of its bytes, once the two gaps have been rebuilt.\<close>

lemma shrink:
  assumes "live_at m xs ob ys" "ptr ob \<le> ptr ob'" "0 \<le> rq_size ob'" "0 \<le> rsp_size ob'"
    and "\<And>i. i < left_end 0 xs \<or> right_start ys BASE_MEM_BLOCK_SIZE \<le> i \<or>
      ptr ob' \<le> i \<and> i < obj_end ob' \<Longrightarrow> B' i = BASE_MEM_BLOCK m i"
    and "gap B' (left_end 0 xs) (ptr ob')"
    and "gap B' (obj_end ob') (right_start ys BASE_MEM_BLOCK_SIZE)"
  shows "put_at m xs ob' ys (request_bytes (BASE_MEM_BLOCK m) ob', response_bytes (BASE_MEM_BLOCK m) ob')
    (m\<lparr>BASE_MEM_BLOCK := B', memory_objects := xs @ ob' # ys\<rparr>)"
proof (rule put_atI [OF assms(1) _ assms(3,4) _ assms(6,7)])
  show "ptr ob' \<noteq> NULL" using live_at_order [OF assms(1)] assms(2) by (simp add: NULL_def)
  show "(request_bytes (BASE_MEM_BLOCK m) ob', response_bytes (BASE_MEM_BLOCK m) ob') =
      (request_bytes B' ob', response_bytes B' ob')"
    using bytes_cong_obj [OF assms(3,4), of B' "BASE_MEM_BLOCK m"] assms(5) by simp
qed (use assms(5) in auto)

lemma cut_and_make_response:
  assumes "live_at m xs ob ys" "0 \<le> off" "0 \<le> sz" "off + sz \<le> rq_size ob"
  shows "\<exists>m'. memory_object_cut_and_make_response m (length xs) off sz = Some m' \<and>
    put_at m xs \<lparr>ptr = ptr ob + off, rq_size = 0, rsp_size = sz\<rparr> ys
      ([], take (nat sz) (drop (nat off) (request_bytes (BASE_MEM_BLOCK m) ob))) m'"
proof -
  note live = live_at_order [OF assms(1)] assms(1) [THEN live_at_objs]
  define b where "b = right_start ys BASE_MEM_BLOCK_SIZE"
  define e where "e = obj_end ob"
  define B1 where "B1 = put_gap (BASE_MEM_BLOCK m) (left_end 0 xs) (ptr ob + off)"
  define B' where "B' = put_gap B1 (ptr ob + off + sz) b"
  have ord: "ptr ob + off + sz \<le> e" "e < b" "b \<le> 4096" "e = ptr ob + rq_size ob + rsp_size ob"
    using assms live by (auto simp: b_def e_def obj_end_def)
  have same1: "B1 i = BASE_MEM_BLOCK m i" if "i < left_end 0 xs \<or> ptr ob + off \<le> i" for i
    using that live assms(2) by (simp add: B1_def put_gap_other)
  have same: "B' i = B1 i" if "i < ptr ob + off + sz \<or> b \<le> i" for i
    using that ord by (simp add: B'_def put_gap_other)
  have g: "gap B1 e b"
    using ord assms(2,3) gap_cong [OF live_at_gaps(2) [OF assms(1)], of B1]
    by (simp add: b_def e_def same1)
  have t1: "memory_block_trim_at_left (BASE_MEM_BLOCK m) (ptr ob) n off = Some B1" for n
    unfolding B1_def using assms live ord by (intro trim_left live_at_gaps) auto
  have t2: "memory_block_trim_at_right B1 (ptr ob + off) (rq_size ob + rsp_size ob - off)
      (rq_size ob + rsp_size ob - off - sz) = Some B'"
    unfolding B'_def
    using trim_right [of B1 "ptr ob + off" "rq_size ob + rsp_size ob - off" b "rq_size ob + rsp_size ob - off - sz"]
      g ord live assms by (simp add: algebra_simps)
  have run: "memory_object_cut_and_make_response m (length xs) off sz = Some
     (m\<lparr>BASE_MEM_BLOCK := B', memory_objects := xs @ \<lparr>ptr = ptr ob + off, rq_size = 0, rsp_size = sz\<rparr> # ys\<rparr>)"
    using assms live ord t1 t2 by (simp add: memory_object_cut_and_make_response_def)
  let ?ob = "\<lparr>ptr = ptr ob + off, rq_size = 0, rsp_size = sz\<rparr>"
  have "put_at m xs ?ob ys (request_bytes (BASE_MEM_BLOCK m) ?ob, response_bytes (BASE_MEM_BLOCK m) ?ob)
     (m\<lparr>BASE_MEM_BLOCK := B', memory_objects := xs @ ?ob # ys\<rparr>)"
  proof (rule shrink [OF assms(1)])
    have "gap B1 (left_end 0 xs) (ptr ob + off)"
      unfolding B1_def using assms live ord by (intro gap_put_gap) auto
    then have "gap B' (left_end 0 xs) (ptr ob + off)"
      by (rule gap_cong) (use same ord assms in auto)
    then show "gap B' (left_end 0 xs) (ptr ?ob)" by simp
    show "gap B' (obj_end ?ob) (right_start ys BASE_MEM_BLOCK_SIZE)"
      using ord live assms by (auto simp: B'_def obj_end_def simp flip: b_def intro!: gap_put_gap)
  qed (use same same1 live assms ord in \<open>auto simp: obj_end_def b_def\<close>)
  moreover have "response_bytes (BASE_MEM_BLOCK m) ?ob = take (nat sz) (drop (nat off) (request_bytes (BASE_MEM_BLOCK m) ob))"
    using assms live by (simp add: response_bytes_def request_bytes_def drop_bytes_at take_bytes_at)
  ultimately show ?thesis using run by (simp add: request_bytes_def)
qed

lemma request_to_response:
  assumes "live_at m xs ob ys"
  shows "\<exists>m'. memory_object_request_to_response m (length xs) = Some m' \<and>
    put_at m xs \<lparr>ptr = ptr ob, rq_size = 0, rsp_size = rq_size ob\<rparr> ys
      ([], request_bytes (BASE_MEM_BLOCK m) ob) m'"
  using cut_and_make_response [OF assms, of 0 "rq_size ob"] assms live_at_order [OF assms]
  by (simp add: memory_object_request_to_response_def request_bytes_def)

lemma free_right_part:
  assumes "live_at m xs ob ys" "0 \<le> rq_size ob'" "0 \<le> rsp_size ob'"
    "ptr ob' = ptr ob" "t = obj_end ob - obj_end ob'" "0 \<le> t"
  shows "\<exists>B'. memory_block_trim_at_right (BASE_MEM_BLOCK m) (ptr ob) (rq_size ob + rsp_size ob) t = Some B' \<and>
    put_at m xs ob' ys (request_bytes (BASE_MEM_BLOCK m) ob', response_bytes (BASE_MEM_BLOCK m) ob')
      (m\<lparr>BASE_MEM_BLOCK := B', memory_objects := xs @ ob' # ys\<rparr>)"
proof -
  note live = live_at_order [OF assms(1)]
  define b where "b = right_start ys BASE_MEM_BLOCK_SIZE"
  define B' where "B' = put_gap (BASE_MEM_BLOCK m) (obj_end ob') b"
  have ord: "obj_end ob' < b" "b \<le> 4096" "0 \<le> obj_end ob'" "ptr ob \<le> obj_end ob'"
    using assms live by (auto simp: b_def obj_end_def)
  have same: "B' i = BASE_MEM_BLOCK m i" if "i < obj_end ob' \<or> b \<le> i" for i
    using that ord by (simp add: B'_def put_gap_other)
  have e: "ptr ob + (rq_size ob + rsp_size ob) = obj_end ob" by (simp add: obj_end_def)
  have "gap (BASE_MEM_BLOCK m) (ptr ob + (rq_size ob + rsp_size ob)) b"
    using live_at_gaps(2) [OF assms(1)] by (simp add: e b_def)
  then have "memory_block_trim_at_right (BASE_MEM_BLOCK m) (ptr ob) (rq_size ob + rsp_size ob) t = Some B'"
    unfolding B'_def using trim_right [of "BASE_MEM_BLOCK m" "ptr ob" "rq_size ob + rsp_size ob" b t] assms(5,6) ord
    by (simp add: e)
  moreover have "put_at m xs ob' ys (request_bytes (BASE_MEM_BLOCK m) ob', response_bytes (BASE_MEM_BLOCK m) ob')
      (m\<lparr>BASE_MEM_BLOCK := B', memory_objects := xs @ ob' # ys\<rparr>)"
  proof (rule shrink [OF assms(1)])
    show "gap B' (left_end 0 xs) (ptr ob')"
      unfolding assms(4) by (rule gap_cong [OF live_at_gaps(1) [OF assms(1)]]) (use same ord in auto)
    show "gap B' (obj_end ob') (right_start ys BASE_MEM_BLOCK_SIZE)"
      using ord live by (auto simp: B'_def simp flip: b_def intro!: gap_put_gap)
    show "B' i = BASE_MEM_BLOCK m i"
      if "i < left_end 0 xs \<or> right_start ys BASE_MEM_BLOCK_SIZE \<le> i \<or> ptr ob' \<le> i \<and> i < obj_end ob'" for i
      using that live ord by (auto intro!: same simp: b_def)
  qed (use assms in auto)
  ultimately show ?thesis by blast
qed

lemma object_free:
  assumes "live_at m xs ob ys"
  shows "\<exists>m'. memory_object_free m (length xs) = Some m' \<and>
    put_at m xs (ob\<lparr>rq_size := 0, rsp_size := 0\<rparr>) ys ([], []) m'"
  using free_right_part [OF assms, of "ob\<lparr>rq_size := 0, rsp_size := 0\<rparr>" "rq_size ob + rsp_size ob"]
    live_at_order [OF assms] assms live_at_objs [OF assms]
  by (auto simp: memory_object_free_def obj_end_def request_bytes_def response_bytes_def)

lemma object_free_response:
  assumes "live_at m xs ob ys"
  shows "\<exists>m'. memory_object_free_response m (length xs) = Some m' \<and>
    put_at m xs (ob\<lparr>rsp_size := 0\<rparr>) ys (request_bytes (BASE_MEM_BLOCK m) ob, []) m'"
  using free_right_part [OF assms, of "ob\<lparr>rsp_size := 0\<rparr>" "rsp_size ob"]
    live_at_order [OF assms] assms live_at_objs [OF assms]
  by (auto simp: memory_object_free_response_def obj_end_def request_bytes_def response_bytes_def)

lemma free_left_part:
  assumes "live_at m xs ob ys" "0 \<le> rq_size ob'" "0 \<le> rsp_size ob'"
    "ptr ob' = ptr ob + t" "obj_end ob' = obj_end ob" "0 \<le> t"
  shows "\<exists>B'. memory_block_trim_at_left (BASE_MEM_BLOCK m) (ptr ob) n t = Some B' \<and>
    put_at m xs ob' ys (request_bytes (BASE_MEM_BLOCK m) ob', response_bytes (BASE_MEM_BLOCK m) ob')
      (m\<lparr>BASE_MEM_BLOCK := B', memory_objects := xs @ ob' # ys\<rparr>)"
proof -
  note live = live_at_order [OF assms(1)]
  define B' where "B' = put_gap (BASE_MEM_BLOCK m) (left_end 0 xs) (ptr ob + t)"
  have ord: "ptr ob + t \<le> obj_end ob"
    using assms live by (auto simp: obj_end_def)
  have same: "B' i = BASE_MEM_BLOCK m i" if "i < left_end 0 xs \<or> ptr ob + t \<le> i" for i
    using that live assms(6) by (simp add: B'_def put_gap_other)
  have "memory_block_trim_at_left (BASE_MEM_BLOCK m) (ptr ob) n t = Some B'"
    unfolding B'_def using assms live ord by (intro trim_left live_at_gaps) (auto simp: obj_end_def)
  moreover have "put_at m xs ob' ys (request_bytes (BASE_MEM_BLOCK m) ob', response_bytes (BASE_MEM_BLOCK m) ob')
      (m\<lparr>BASE_MEM_BLOCK := B', memory_objects := xs @ ob' # ys\<rparr>)"
  proof (rule shrink [OF assms(1)])
    show "gap B' (left_end 0 xs) (ptr ob')"
      unfolding assms(4) B'_def using live assms ord by (intro gap_put_gap) (auto simp: obj_end_def)
    show "gap B' (obj_end ob') (right_start ys BASE_MEM_BLOCK_SIZE)"
      unfolding assms(5) by (rule gap_cong [OF live_at_gaps(2) [OF assms(1)]]) (use same ord in auto)
    show "B' i = BASE_MEM_BLOCK m i"
      if "i < left_end 0 xs \<or> right_start ys BASE_MEM_BLOCK_SIZE \<le> i \<or> ptr ob' \<le> i \<and> i < obj_end ob'" for i
      using that live ord assms(4) by (auto intro!: same simp: obj_end_def)
  qed (use assms in auto)
  ultimately show ?thesis by blast
qed

lemma response_to_request:
  assumes "live_at m xs ob ys"
  shows "\<exists>m'. memory_object_response_to_request m (length xs) = Some m' \<and>
    put_at m xs \<lparr>ptr = ptr ob + rq_size ob, rq_size = rsp_size ob, rsp_size = 0\<rparr> ys
      (response_bytes (BASE_MEM_BLOCK m) ob, []) m'"
  using free_left_part [OF assms, where ob' = "\<lparr>ptr = ptr ob + rq_size ob, rq_size = rsp_size ob, rsp_size = 0\<rparr>"
      and t = "rq_size ob" and n = "rq_size ob + rsp_size ob"]
    live_at_order [OF assms] assms live_at_objs [OF assms]
  by (auto simp: memory_object_response_to_request_def obj_end_def request_bytes_def response_bytes_def)

lemma strip_beginning_of_request:
  assumes "live_at m xs ob ys" "0 \<le> n" "n \<le> rq_size ob"
  shows "\<exists>m'. memory_object_strip_beginning_of_request m (length xs) n = Some m' \<and>
    put_at m xs (ob\<lparr>ptr := ptr ob + n, rq_size := rq_size ob - n\<rparr>) ys
      (drop (nat n) (request_bytes (BASE_MEM_BLOCK m) ob), response_bytes (BASE_MEM_BLOCK m) ob) m'"
  using free_left_part [OF assms(1), where ob' = "ob\<lparr>ptr := ptr ob + n, rq_size := rq_size ob - n\<rparr>"
      and t = n and n = "rq_size ob + rsp_size ob"]
    live_at_order [OF assms(1)] assms live_at_objs [OF assms(1)]
  by (auto simp: memory_object_strip_beginning_of_request_def obj_end_def request_bytes_def
      response_bytes_def drop_bytes_at)

section \<open>Writing into an object\<close>

lemma store_in_object:
  assumes "live_at m xs ob ys" "ptr ob \<le> p" "p + int (length bs) \<le> obj_end ob"
  defines "B' \<equiv> stored (BASE_MEM_BLOCK m) p bs"
  shows "mem_store BASE_MEM_BLOCK_SIZE (BASE_MEM_BLOCK m) p bs = Some B' \<and>
    put_at m xs ob ys (request_bytes B' ob, response_bytes B' ob) (m\<lparr>BASE_MEM_BLOCK := B'\<rparr>)"
proof -
  note live = live_at_order [OF assms(1)]
  have "m\<lparr>BASE_MEM_BLOCK := B'\<rparr> = m\<lparr>BASE_MEM_BLOCK := B', memory_objects := xs @ ob # ys\<rparr>"
    using live_at_objs [OF assms(1)] by simp
  moreover have "put_at m xs ob ys (request_bytes B' ob, response_bytes B' ob)
      (m\<lparr>BASE_MEM_BLOCK := B', memory_objects := xs @ ob # ys\<rparr>)"
  proof (rule put_atI [OF assms(1) live_at_ptr [OF assms(1)]])
    show "gap B' (left_end 0 xs) (ptr ob)"
      by (rule gap_cong [OF live_at_gaps(1) [OF assms(1)]]) (use assms in \<open>auto simp: stored_def\<close>)
    show "gap B' (obj_end ob) (right_start ys BASE_MEM_BLOCK_SIZE)"
      by (rule gap_cong [OF live_at_gaps(2) [OF assms(1)]]) (use assms in \<open>auto simp: stored_def\<close>)
  qed (use live assms in \<open>auto simp: stored_def obj_end_def\<close>)
  moreover have "mem_store BASE_MEM_BLOCK_SIZE (BASE_MEM_BLOCK m) p bs = Some B'"
    using live assms(2,3) by (simp add: mem_store_def in_range_def B'_def obj_end_def)
  ultimately show ?thesis by simp
qed

end
