(* ===== verification/Heap_Compaction.thy ===== *)
theory Heap_Compaction
  imports Heap_Ops
begin

text \<open>
  Compaction of the memory block of \<open>zepto_mem_mngmt.c\<close>: scanning the gaps on one side of an
  object, sliding all objects of one side together, and the two allocating operations
  \<open>memory_object_append\<close> and \<open>memory_object_prepend\<close> built on them. The handles are ordered
  by address (\<open>MEM_MNGMT_ORDERED_HANDLES\<close>).
\<close>

section \<open>Sliding\<close>

text \<open>\<open>for ( h_iter = h_right; h_iter > h_left; h_iter-- )\<close>, with the number of rounds as argument.\<close>

fun move_right_loop :: "nat \<Rightarrow> nat \<Rightarrow> mem \<Rightarrow> mem option" where
  "move_right_loop h_left 0 m = Some m"
| "move_right_loop h_left (Suc n) m = do {
     m \<leftarrow> zepto_mem_man_move_obj_max_right m (h_left + Suc n);
     move_right_loop h_left n m
   }"

definition zepto_mem_man_move_all_right :: "mem \<Rightarrow> nat \<Rightarrow> nat \<Rightarrow> mem option" where
  "zepto_mem_man_move_all_right m h_right h_left = move_right_loop h_left (h_right - h_left) m"

text \<open>\<open>for ( h_iter = h_left; h_iter < h_right; h_iter++ )\<close>, likewise.\<close>

fun move_left_loop :: "nat \<Rightarrow> nat \<Rightarrow> mem \<Rightarrow> mem option" where
  "move_left_loop h_iter 0 m = Some m"
| "move_left_loop h_iter (Suc n) m = do {
     m \<leftarrow> zepto_mem_man_move_obj_max_left m h_iter;
     move_left_loop (Suc h_iter) n m
   }"

definition zepto_mem_man_move_all_left :: "mem \<Rightarrow> nat \<Rightarrow> nat \<Rightarrow> mem option" where
  "zepto_mem_man_move_all_left m h_left h_right = do {
     LEFT_OBJ \<leftarrow> MEMORY_OBJECT_PTR m h_left;
     RIGHT_OBJ \<leftarrow> MEMORY_OBJECT_PTR m h_right;
     assert (ptr LEFT_OBJ \<le> ptr RIGHT_OBJ);
     move_left_loop h_left (h_right - h_left) m
   }"

section \<open>Scanning the gaps of one side\<close>

text \<open>
  The loops carry the space found so far and \<open>h_very_right\<close> (\<open>h_very_left\<close>), the last handle
  that was counted; \<open>None\<close> is the uninitialised out-parameter. The first argument counts the
  handles left.
\<close>

fun scan_right_fixed ::
  "nat \<Rightarrow> mem \<Rightarrow> int \<Rightarrow> nat \<Rightarrow> int \<times> nat option \<Rightarrow> (int \<times> nat option) option" where
  "scan_right_fixed 0 m desired_size h_iter (free_at_right, very) = Some (free_at_right, very)"
| "scan_right_fixed (Suc n) m desired_size h_iter (free_at_right, very) =
     (if free_at_right < desired_size then do {
        f \<leftarrow> zepto_mem_man_get_freeable_size_at_right m h_iter;
        scan_right_fixed n m desired_size (Suc h_iter) (to_u16 (free_at_right + f), Some h_iter)
      } else Some (free_at_right, very))"

fun scan_right_acquirable ::
  "nat \<Rightarrow> mem \<Rightarrow> int \<Rightarrow> nat \<Rightarrow> int \<times> nat option \<Rightarrow> (int \<times> nat option) option" where
  "scan_right_acquirable 0 m desired_size h (free_at_right, very) = Some (free_at_right, very)"
| "scan_right_acquirable (Suc n) m desired_size h (free_at_right, very) =
     (if free_at_right < desired_size then do {
        obj \<leftarrow> MEMORY_OBJECT_PTR m h;
        if ptr obj \<noteq> NULL then do {
          f \<leftarrow> zepto_mem_man_get_freeable_size_at_right m h;
          scan_right_acquirable n m desired_size (Suc h) (to_u16 (free_at_right + f), Some h)
        } else scan_right_acquirable n m desired_size (Suc h) (free_at_right, very)
      } else Some (free_at_right, very))"

definition zepto_mem_man_get_total_freeable_space_at_right ::
  "mem \<Rightarrow> nat \<Rightarrow> int \<Rightarrow> (int \<times> nat option) option" where
  "zepto_mem_man_get_total_freeable_space_at_right m mem_h desired_size =
     (if mem_h < MEMORY_HANDLE_MAX m then do {
        (free_at_right, very) \<leftarrow>
          scan_right_fixed (MEMORY_HANDLE_MAX m - mem_h) m desired_size mem_h (0, None);
        if desired_size \<le> free_at_right then Some (free_at_right, very)
        else scan_right_acquirable (length (memory_objects m) - MEMORY_HANDLE_ACQUIRABLE_START m) m
               desired_size (MEMORY_HANDLE_ACQUIRABLE_START m) (free_at_right, very)
      } else scan_right_acquirable (length (memory_objects m) - mem_h) m desired_size mem_h (0, None))"

text \<open>\<open>do ... while\<close> over the acquirable handles; the first argument is the index in the storage.\<close>

fun scan_left_acquirable ::
  "nat \<Rightarrow> mem \<Rightarrow> int \<Rightarrow> int \<times> nat option \<Rightarrow> (int \<times> nat option) option" where
  "scan_left_acquirable inner m desired_size (free_at_left, very) = do {
     let h_iter = MEMORY_HANDLE_ACQUIRABLE_START m + inner;
     obj \<leftarrow> MEMORY_OBJECT_PTR m h_iter;
     (free_at_left, very) \<leftarrow>
       (if ptr obj \<noteq> NULL then do {
          f \<leftarrow> zepto_mem_man_get_freeable_size_at_left m h_iter;
          Some (to_u16 (free_at_left + f), Some h_iter)
        } else Some (free_at_left, very));
     (case inner of
        0 \<Rightarrow> Some (free_at_left, very)
      | Suc inner \<Rightarrow>
          if free_at_left < desired_size then scan_left_acquirable inner m desired_size (free_at_left, very)
          else Some (free_at_left, very))
   }"

fun scan_left_fixed ::
  "nat \<Rightarrow> mem \<Rightarrow> int \<Rightarrow> int \<times> nat option \<Rightarrow> (int \<times> nat option) option" where
  "scan_left_fixed h_iter m desired_size (free_at_left, very) =
     (if free_at_left < desired_size then do {
        f \<leftarrow> zepto_mem_man_get_freeable_size_at_left m h_iter;
        let free_at_left = to_u16 (free_at_left + f);
        (case h_iter of
           0 \<Rightarrow> Some (free_at_left, Some h_iter)
         | Suc h \<Rightarrow> scan_left_fixed h m desired_size (free_at_left, Some h_iter))
      } else Some (free_at_left, very))"

declare scan_left_acquirable.simps [simp del] scan_left_fixed.simps [simp del]

definition zepto_mem_man_get_total_freeable_space_at_left ::
  "mem \<Rightarrow> nat \<Rightarrow> int \<Rightarrow> (int \<times> nat option) option" where
  "zepto_mem_man_get_total_freeable_space_at_left m mem_h desired_size =
     (if MEMORY_HANDLE_ACQUIRABLE_START m \<le> mem_h then do {
        (free_at_left, very) \<leftarrow>
          scan_left_acquirable (mem_h - MEMORY_HANDLE_ACQUIRABLE_START m) m desired_size (0, None);
        if desired_size \<le> free_at_left then Some (free_at_left, very)
        else scan_left_fixed (MEMORY_HANDLE_MAX m - 1) m desired_size (free_at_left, very)
      } else scan_left_fixed mem_h m desired_size (0, None))"

section \<open>Append and prepend\<close>

text \<open>The result is the address of the added part of the response.\<close>

definition memory_object_append :: "mem \<Rightarrow> nat \<Rightarrow> int \<Rightarrow> (int \<times> mem) option" where
  "memory_object_append m mem_h sz = do {
     (ret, m) \<leftarrow> zepto_mem_man_try_expand_right m mem_h sz;
     case ret of Some p \<Rightarrow> Some (p, m) | None \<Rightarrow> do {
       (ret, m) \<leftarrow> zepto_mem_man_try_move_left_expand_right m mem_h sz;
       case ret of Some p \<Rightarrow> Some (p, m) | None \<Rightarrow> do {
         (freeable_at_right, last_at_right) \<leftarrow> zepto_mem_man_get_total_freeable_space_at_right m mem_h sz;
         last_at_right \<leftarrow> last_at_right;
         m \<leftarrow> zepto_mem_man_move_all_right m last_at_right mem_h;
         if sz \<le> freeable_at_right then do {
           (ret, m) \<leftarrow> zepto_mem_man_try_expand_right m mem_h sz;
           p \<leftarrow> ret;
           Some (p, m)
         } else do {
           (freeable_at_left, last_at_left) \<leftarrow> zepto_mem_man_get_total_freeable_space_at_left m mem_h sz;
           last_at_left \<leftarrow> last_at_left;
           m \<leftarrow> zepto_mem_man_move_all_left m last_at_left mem_h;
           if sz \<le> freeable_at_left + freeable_at_right then do {
             (ret, m) \<leftarrow> zepto_mem_man_try_move_left_expand_right m mem_h sz;
             p \<leftarrow> ret;
             Some (p, m)
           } else do {
             assert False;
             Some (NULL, m)
           }
         }
       }
     }
   }"

text \<open>
  \<open>obj\<close> is fetched once, at the start. For an acquirable handle it points into the block of the
  storage handle, so it may only be read at the end if that block has not moved.
\<close>

definition obj_ptr_again :: "mem \<Rightarrow> mem \<Rightarrow> nat \<Rightarrow> int option" where
  "obj_ptr_again m_start m mem_h = do {
     earlier \<leftarrow> MEMORY_OBJECT_PTR m_start (MEMORY_HANDLE_ACQUIRABLE_HANDLE_STORAGE m_start);
     after \<leftarrow> MEMORY_OBJECT_PTR m (MEMORY_HANDLE_ACQUIRABLE_HANDLE_STORAGE m);
     assert (mem_h < MEMORY_HANDLE_MAX m \<or> ptr earlier = ptr after);
     obj \<leftarrow> MEMORY_OBJECT_PTR m mem_h;
     Some (ptr obj)
   }"

definition discard_request :: "mem \<Rightarrow> nat \<Rightarrow> mem option" where
  "discard_request m mem_h = do {
     obj \<leftarrow> MEMORY_OBJECT_PTR m mem_h;
     if rq_size obj \<noteq> 0 then do {
       let B = BASE_MEM_BLOCK m;
       let right_end_of_free_space_at_left = ptr obj - 1;
       free_at_left \<leftarrow> size_bwd B right_end_of_free_space_at_left;
       let left_end_of_free_space_at_left = right_end_of_free_space_at_left - free_at_left + 1;
       let right_end_of_free_space_at_left = right_end_of_free_space_at_left + rq_size obj;
       let free_at_left = to_u16 (free_at_left + rq_size obj);
       B \<leftarrow> write_fwd B left_end_of_free_space_at_left (u16_of free_at_left);
       B \<leftarrow> write_bwd B right_end_of_free_space_at_left (u16_of free_at_left);
       Some (set_object m B mem_h (obj\<lparr>ptr := ptr obj + rq_size obj, rq_size := 0\<rparr>))
     } else Some m
   }"

definition memory_object_prepend :: "mem \<Rightarrow> nat \<Rightarrow> int \<Rightarrow> (int \<times> mem) option" where
  "memory_object_prepend m0 mem_h sz = do {
     m \<leftarrow> discard_request m0 mem_h;
     (ret, m) \<leftarrow> zepto_mem_man_try_expand_left m mem_h sz;
     if ret then do { p \<leftarrow> obj_ptr_again m0 m mem_h; Some (p, m) }
     else do {
       (ret, m) \<leftarrow> zepto_mem_man_try_move_right_expand_left m mem_h sz;
       if ret then do { p \<leftarrow> obj_ptr_again m0 m mem_h; Some (p, m) }
       else do {
         (freeable_at_right, last_at_right) \<leftarrow> zepto_mem_man_get_total_freeable_space_at_right m mem_h sz;
         last_at_right \<leftarrow> last_at_right;
         m \<leftarrow> zepto_mem_man_move_all_right m last_at_right mem_h;
         if sz \<le> freeable_at_right then do {
           (ret, m) \<leftarrow> zepto_mem_man_try_move_right_expand_left m mem_h sz;
           assert ret;
           p \<leftarrow> obj_ptr_again m0 m mem_h;
           Some (p, m)
         } else do {
           (freeable_at_left, last_at_left) \<leftarrow> zepto_mem_man_get_total_freeable_space_at_left m mem_h sz;
           last_at_left \<leftarrow> last_at_left;
           m \<leftarrow> zepto_mem_man_move_all_left m last_at_left mem_h;
           if sz \<le> freeable_at_left + freeable_at_right then do {
             (ret, m) \<leftarrow> zepto_mem_man_try_move_right_expand_left m mem_h sz;
             assert ret;
             p \<leftarrow> obj_ptr_again m0 m mem_h;
             Some (p, m)
           } else do {
             assert False;
             Some (NULL, m)
           }
         }
       }
     }
   }"

section \<open>Shape and packed size\<close>

text \<open>Everything about an object except where it is; what sliding keeps.\<close>

definition shape :: "mem_obj \<Rightarrow> int \<times> int \<times> bool" where
  "shape ob = (rq_size ob, rsp_size ob, ptr ob = NULL)"

text \<open>The bytes the allocated objects of a list take when packed, each with the one byte of gap.\<close>

definition packed :: "mem_obj list \<Rightarrow> int" where
  "packed obs = (\<Sum>ob\<leftarrow>obs. if ptr ob = NULL then 0 else obj_size ob + 1)"

lemma packed_simps [simp]:
  "packed [] = 0"
  "packed (ob # obs) = (if ptr ob = NULL then 0 else obj_size ob + 1) + packed obs"
  "packed (xs @ ys) = packed xs + packed ys"
  by (simp_all add: packed_def)

lemma packed_shape: "map shape xs = map shape ys \<Longrightarrow> packed xs = packed ys"
proof (induction xs arbitrary: ys)
  case (Cons x xs)
  then obtain y ys' where ys: "ys = y # ys'" "shape x = shape y" and "map shape xs = map shape ys'"
    by (cases ys) auto
  from Cons.IH [OF this(3)] ys show ?case by (auto simp: shape_def obj_size_def)
qed simp

lemma packed_nonneg: "sizes_ok obs \<Longrightarrow> 0 \<le> packed obs"
  by (induction obs) (auto simp: obj_size_def)

lemma packed_null: "\<forall>ob \<in> set obs. ptr ob = NULL \<Longrightarrow> packed obs = 0"
  by (induction obs) auto

lemma right_start_null: "\<forall>ob \<in> set obs. ptr ob = NULL \<Longrightarrow> right_start obs e = e"
  by (induction obs) auto

lemma left_end_null: "\<forall>ob \<in> set obs. ptr ob = NULL \<Longrightarrow> left_end p obs = p"
  by (induction obs arbitrary: p) auto

lemma chain_packed: "chain B p obs e \<Longrightarrow> p + packed obs < e"
proof (induction obs arbitrary: p)
  case Nil
  then show ?case by (auto dest: gapD)
next
  case (Cons ob obs)
  show ?case
  proof (cases "ptr ob = NULL")
    case True
    with Cons show ?thesis by simp
  next
    case False
    with Cons.prems have "gap B p (ptr ob)" "chain B (obj_end ob) obs e" by simp_all
    with gapD(2) [OF this(1)] Cons.IH [OF this(2)] False show ?thesis
      by (simp add: obj_end_def obj_size_def)
  qed
qed

text \<open>The bytes that can still be allocated, in one piece, after sliding everything together.\<close>

definition free_space :: "mem \<Rightarrow> int" where
  "free_space m = BASE_MEM_BLOCK_SIZE - 1 - packed (memory_objects m)"

lemma free_space_nonneg: "heap_inv m \<Longrightarrow> 0 \<le> free_space m"
  using chain_packed [of "BASE_MEM_BLOCK m" 0 "memory_objects m" BASE_MEM_BLOCK_SIZE]
  by (simp add: heap_inv_def free_space_def)

definition slid :: "mem \<Rightarrow> mem \<Rightarrow> bool" where
  "slid m m' \<longleftrightarrow> heap_inv m' \<and> content m' = content m \<and>
     MEMORY_HANDLE_MAX m' = MEMORY_HANDLE_MAX m \<and>
     map shape (memory_objects m') = map shape (memory_objects m)"

lemma slid_refl: "heap_inv m \<Longrightarrow> slid m m"
  by (simp add: slid_def)

lemma slid_trans: "slid m1 m2 \<Longrightarrow> slid m2 m3 \<Longrightarrow> slid m1 m3"
  by (simp add: slid_def)

lemma put_at_slid:
  assumes "live_at m xs ob ys" "ptr ob' \<noteq> NULL" "shape ob' = shape ob"
    "put_at m xs ob' ys (request_bytes (BASE_MEM_BLOCK m) ob, response_bytes (BASE_MEM_BLOCK m) ob) m'"
  shows "slid m m'"
proof -
  have "content m' = content m"
    using assms(4) live_at_content [OF assms(1)] by (simp add: put_at_def fun_upd_idem)
  then show ?thesis
    using assms live_at_objs [OF assms(1)] by (simp add: slid_def put_at_def)
qed

section \<open>Correctness of sliding\<close>

lemma null_handle:
  assumes "heap_inv m" "memory_objects m = xs @ ob # ys" "ptr ob = NULL"
  shows "MEMORY_HANDLE_ACQUIRABLE_START m \<le> length xs"
proof (rule ccontr)
  assume "\<not> ?thesis"
  then have "ptr (memory_objects m ! length xs) \<noteq> NULL"
    using assms(1) by (simp add: heap_inv_def MEMORY_HANDLE_ACQUIRABLE_START_def)
  with assms show False by simp
qed

lemma move_right_loop_effect:
  assumes "heap_inv m" "memory_objects m = xs @ ys @ zs" "length xs = Suc l"
  shows "\<exists>m' ys'. move_right_loop l (length ys) m = Some m' \<and> slid m m' \<and>
    memory_objects m' = xs @ ys' @ zs \<and> map shape ys' = map shape ys \<and>
    right_start (ys' @ zs) BASE_MEM_BLOCK_SIZE = right_start zs BASE_MEM_BLOCK_SIZE - packed ys"
  using assms
proof (induction ys arbitrary: m zs rule: rev_induct)
  case Nil
  then show ?case by (auto intro: slid_refl)
next
  case (snoc y ys)
  let ?e = BASE_MEM_BLOCK_SIZE
  have h: "l + Suc (length ys) = length (xs @ ys)" using snoc.prems(3) by simp
  have objs: "memory_objects m = (xs @ ys) @ y # zs" using snoc.prems(2) by simp
  show ?case
  proof (cases "ptr y = NULL")
    case True
    have "zepto_mem_man_move_obj_max_right m (l + Suc (length ys)) = Some m"
      unfolding h zepto_mem_man_move_obj_max_right_def MEMORY_OBJECT_PTR_mid [OF objs]
      using True null_handle [OF snoc.prems(1) objs True] by simp
    moreover obtain m' ys' where "move_right_loop l (length ys) m = Some m'" "slid m m'"
      "memory_objects m' = xs @ ys' @ y # zs" "map shape ys' = map shape ys"
      "right_start (ys' @ y # zs) ?e = right_start (y # zs) ?e - packed ys"
      using snoc.IH [OF snoc.prems(1) _ snoc.prems(3), of "y # zs"] snoc.prems(2) by auto
    ultimately show ?thesis
      using True by (intro exI [of _ m'] exI [of _ "ys' @ [y]"]) simp
  next
    case False
    define y1 where "y1 = y\<lparr>ptr := right_start zs ?e - 1 - obj_size y\<rparr>"
    have live: "live_at m (xs @ ys) y zs" using snoc.prems objs False by (simp add: live_at_def)
    have y1: "ptr y1 \<noteq> NULL" "shape y1 = shape y"
      using live_at_order [OF live] False by (auto simp: y1_def NULL_def shape_def obj_size_def)
    obtain m1 where m1: "zepto_mem_man_move_obj_max_right m (l + Suc (length ys)) = Some m1"
      and put1: "put_at m (xs @ ys) y1 zs (request_bytes (BASE_MEM_BLOCK m) y, response_bytes (BASE_MEM_BLOCK m) y) m1"
      using move_right [OF live] unfolding y1_def h by blast
    have s1: "slid m m1" using put_at_slid [OF live y1 put1] .
    obtain m' ys' where "move_right_loop l (length ys) m1 = Some m'" "slid m1 m'"
      "memory_objects m' = xs @ ys' @ y1 # zs" "map shape ys' = map shape ys"
      "right_start (ys' @ y1 # zs) ?e = right_start (y1 # zs) ?e - packed ys"
      using snoc.IH [of m1 "y1 # zs"] snoc.prems(3) s1 put1 by (auto simp: slid_def put_at_def)
    then show ?thesis
      using m1 y1 False slid_trans [OF s1]
      by (intro exI [of _ m'] exI [of _ "ys' @ [y1]"]) (simp add: y1_def)
  qed
qed

lemma move_left_loop_effect:
  assumes "heap_inv m" "memory_objects m = xs @ ys @ zs"
  shows "\<exists>m' ys'. move_left_loop (length xs) (length ys) m = Some m' \<and> slid m m' \<and>
    memory_objects m' = xs @ ys' @ zs \<and> map shape ys' = map shape ys \<and>
    left_end 0 (xs @ ys') = left_end 0 xs + packed ys"
  using assms
proof (induction ys arbitrary: m xs)
  case Nil
  then show ?case by (auto intro: slid_refl)
next
  case (Cons y ys)
  have objs: "memory_objects m = xs @ y # ys @ zs" using Cons.prems(2) by simp
  show ?case
  proof (cases "ptr y = NULL")
    case True
    have "zepto_mem_man_move_obj_max_left m (length xs) = Some m"
      unfolding zepto_mem_man_move_obj_max_left_def MEMORY_OBJECT_PTR_mid [OF objs]
      using True null_handle [OF Cons.prems(1) objs True] by simp
    moreover obtain m' ys' where "move_left_loop (length (xs @ [y])) (length ys) m = Some m'" "slid m m'"
      "memory_objects m' = (xs @ [y]) @ ys' @ zs" "map shape ys' = map shape ys"
      "left_end 0 ((xs @ [y]) @ ys') = left_end 0 (xs @ [y]) + packed ys"
      using Cons.IH [OF Cons.prems(1), of "xs @ [y]"] Cons.prems(2) by auto
    ultimately show ?thesis
      using True by (intro exI [of _ m'] exI [of _ "y # ys'"]) simp
  next
    case False
    define y1 where "y1 = y\<lparr>ptr := left_end 0 xs + 1\<rparr>"
    have live: "live_at m xs y (ys @ zs)" using Cons.prems objs False by (simp add: live_at_def)
    have y1: "ptr y1 \<noteq> NULL" "shape y1 = shape y"
      using live_at_order [OF live] False by (auto simp: y1_def NULL_def shape_def)
    obtain m1 where m1: "zepto_mem_man_move_obj_max_left m (length xs) = Some m1"
      and put1: "put_at m xs y1 (ys @ zs) (request_bytes (BASE_MEM_BLOCK m) y, response_bytes (BASE_MEM_BLOCK m) y) m1"
      using move_left [OF live] unfolding y1_def by blast
    have s1: "slid m m1" using put_at_slid [OF live y1 put1] .
    obtain m' ys' where "move_left_loop (length (xs @ [y1])) (length ys) m1 = Some m'" "slid m1 m'"
      "memory_objects m' = (xs @ [y1]) @ ys' @ zs" "map shape ys' = map shape ys"
      "left_end 0 ((xs @ [y1]) @ ys') = left_end 0 (xs @ [y1]) + packed ys"
      using Cons.IH [of m1 "xs @ [y1]"] s1 put1 by (auto simp: slid_def put_at_def)
    then show ?thesis
      using m1 y1 False slid_trans [OF s1]
      by (intro exI [of _ m'] exI [of _ "y1 # ys'"]) (simp add: y1_def obj_end_def obj_size_def)
  qed
qed

section \<open>Correctness of the scans\<close>

lemma scan_right_stop:
  "desired \<le> free \<Longrightarrow> scan_right_acquirable n m desired h (free, very) = Some (free, very)"
  by (cases n) auto

lemma scan_right_append:
  "scan_right_acquirable (a + b) m desired h fv =
     scan_right_acquirable a m desired h fv \<bind> scan_right_acquirable b m desired (h + a)"
proof (induction a arbitrary: h fv)
  case 0
  then show ?case by (cases fv) simp
next
  case (Suc a)
  obtain free very where fv: "fv = (free, very)" by fastforce
  show ?case
  proof (cases "free < desired")
    case True
    show ?thesis
    proof (cases "MEMORY_OBJECT_PTR m h")
      case (Some ob)
      then show ?thesis
        using True by (cases "zepto_mem_man_get_freeable_size_at_right m h") (simp_all add: fv Suc.IH)
    qed (use True in \<open>simp add: fv\<close>)
  next
    case False
    then show ?thesis by (simp add: fv scan_right_stop)
  qed
qed

lemma scan_right_fixed_eq:
  assumes "heap_inv m"
  shows "h + n \<le> MEMORY_HANDLE_MAX m \<Longrightarrow>
    scan_right_fixed n m desired h fv = scan_right_acquirable n m desired h fv"
proof (induction n arbitrary: h fv)
  case 0
  then show ?case by (cases fv) simp
next
  case (Suc n)
  obtain free very where fv: "fv = (free, very)" by fastforce
  have "MEMORY_OBJECT_PTR m h = Some (memory_objects m ! h)" "ptr (memory_objects m ! h) \<noteq> NULL"
    using assms Suc.prems by (auto simp: heap_inv_def MEMORY_OBJECT_PTR_def)
  then show ?case using Suc by (simp add: fv)
qed

lemma total_right_scan:
  assumes "heap_inv m" "h < length (memory_objects m)"
  shows "zepto_mem_man_get_total_freeable_space_at_right m h desired =
    scan_right_acquirable (length (memory_objects m) - h) m desired h (0, None)"
proof (cases "h < MEMORY_HANDLE_MAX m")
  case True
  let ?a = "MEMORY_HANDLE_MAX m - h" and ?b = "length (memory_objects m) - MEMORY_HANDLE_MAX m"
  have len: "length (memory_objects m) - h = ?a + ?b" "h + ?a = MEMORY_HANDLE_MAX m"
    using assms True by (auto simp: heap_inv_def)
  have "scan_right_acquirable (length (memory_objects m) - h) m desired h (0, None) =
      scan_right_acquirable ?a m desired h (0, None) \<bind>
      scan_right_acquirable ?b m desired (MEMORY_HANDLE_MAX m)"
    unfolding len(1) scan_right_append len(2) ..
  moreover have "scan_right_fixed ?a m desired h (0, None) = scan_right_acquirable ?a m desired h (0, None)"
    using len by (intro scan_right_fixed_eq [OF assms(1)]) simp
  ultimately show ?thesis
    unfolding zepto_mem_man_get_total_freeable_space_at_right_def MEMORY_HANDLE_ACQUIRABLE_START_def
    using True by (cases "scan_right_acquirable ?a m desired h (0, None)") (simp_all add: scan_right_stop split: prod.split)
qed (simp add: zepto_mem_man_get_total_freeable_space_at_right_def)

lemma scan_right_effect:
  assumes "heap_inv m" "ptr ob \<noteq> NULL"
  shows "memory_objects m = xs @ ob # ys @ ns @ zs \<Longrightarrow> \<forall>x \<in> set ns. ptr x = NULL \<Longrightarrow>
    free = right_start zs BASE_MEM_BLOCK_SIZE - obj_end ob - 1 - packed ys \<Longrightarrow> 0 \<le> free \<Longrightarrow>
    \<exists>ys' zs' free'. scan_right_acquirable (length zs) m desired (length (xs @ ob # ys @ ns)) (free, Some (length xs + length ys)) =
        Some (free', Some (length xs + length ys')) \<and>
      memory_objects m = xs @ ob # ys' @ zs' \<and> 0 \<le> free' \<and>
      free' = right_start zs' BASE_MEM_BLOCK_SIZE - obj_end ob - 1 - packed ys' \<and>
      (desired \<le> free' \<or> (\<forall>x \<in> set zs'. ptr x = NULL))"
proof (induction zs arbitrary: ys ns free)
  case Nil
  then show ?case
    by (intro exI [of _ ys] exI [of _ ns]) (auto simp: right_start_null)
next
  case (Cons z zs)
  let ?h = "length (xs @ ob # ys @ ns)"
  have objs: "memory_objects m = (xs @ ob # ys @ ns) @ z # zs" using Cons.prems(1) by simp
  note obj = MEMORY_OBJECT_PTR_mid [OF objs]
  show ?case
  proof (cases "desired \<le> free")
    case True
    then show ?thesis
      using Cons.prems by (intro exI [of _ ys] exI [of _ "ns @ z # zs"])
        (auto simp: scan_right_stop right_start_null)
  next
    case less: False
    show ?thesis
    proof (cases "ptr z = NULL")
      case True
      have "scan_right_acquirable (length (z # zs)) m desired ?h (free, Some (length xs + length ys)) =
          scan_right_acquirable (length zs) m desired (length (xs @ ob # ys @ ns @ [z]))
            (free, Some (length xs + length ys))"
        using less True obj by simp
      with Cons.IH [of ys "ns @ [z]" free] Cons.prems True show ?thesis by simp
    next
      case False
      have live: "live_at m (xs @ ob # ys @ ns) z zs"
        using assms(1) objs False by (simp add: live_at_def)
      define f where "f = right_start zs BASE_MEM_BLOCK_SIZE - obj_end z - 1"
      have live_ob: "live_at m xs ob (ys @ ns @ z # zs)"
        using assms objs by (simp add: live_at_def)
      have "sizes_ok ys" using assms(1) objs by (simp add: heap_inv_def)
      note bounds = live_at_order [OF live] live_at_order [OF live_ob] packed_nonneg [OF this]
      have f: "zepto_mem_man_get_freeable_size_at_right m ?h = Some f"
        unfolding f_def by (rule freeable_right [OF live])
      have f': "0 \<le> f" "f < 4096" using bounds by (simp_all add: f_def obj_end_def)
      have f'': "free < 4096" using bounds False Cons.prems(3) by (simp add: obj_end_def)
      have "scan_right_acquirable (length (z # zs)) m desired ?h (free, Some (length xs + length ys)) =
          scan_right_acquirable (length zs) m desired (length (xs @ ob # (ys @ ns @ [z]) @ []))
            (free + f, Some (length xs + length (ys @ ns)  + 1))"
        using less False obj f f' f'' Cons.prems(4) by simp
      moreover have "free + f = right_start zs BASE_MEM_BLOCK_SIZE - obj_end ob - 1 - packed (ys @ ns @ [z])"
        using Cons.prems(2,3) False by (simp add: f_def packed_null obj_end_def obj_size_def)
      ultimately show ?thesis
        using Cons.IH [of "ys @ ns @ [z]" "[]" "free + f"] Cons.prems(1,4) f' by simp
    qed
  qed
qed

text \<open>
  The space found at the right of a live object, up to and including \<open>last_at_right\<close>: enough, or
  all there is.
\<close>

lemma total_right:
  assumes live: "live_at m xs ob ys" and "0 < desired"
  obtains ys1 ys2 free where "ys = ys1 @ ys2"
    "zepto_mem_man_get_total_freeable_space_at_right m (length xs) desired =
       Some (free, Some (length xs + length ys1))"
    "free = right_start ys2 BASE_MEM_BLOCK_SIZE - obj_end ob - 1 - packed ys1" "0 \<le> free"
    "desired \<le> free \<or> (\<forall>x \<in> set ys2. ptr x = NULL)"
proof -
  have objs: "memory_objects m = xs @ ob # ys" and inv: "heap_inv m" and nn: "ptr ob \<noteq> NULL"
    using live by (auto simp: live_at_def)
  define f where "f = right_start ys BASE_MEM_BLOCK_SIZE - obj_end ob - 1"
  have f: "zepto_mem_man_get_freeable_size_at_right m (length xs) = Some f" "0 \<le> f" "f < 4096"
    using freeable_right [OF live] live_at_order [OF live] by (auto simp: f_def obj_end_def)
  have "zepto_mem_man_get_total_freeable_space_at_right m (length xs) desired =
      scan_right_acquirable (length ys) m desired (length (xs @ ob # [] @ [])) (f, Some (length xs + length ([] :: mem_obj list)))"
    using assms total_right_scan [OF inv, of "length xs"] objs nn f
    by (simp add: MEMORY_OBJECT_PTR_mid)
  with scan_right_effect [OF inv nn, of xs "[]" "[]" ys f desired] objs f f_def that
  show ?thesis by auto
qed

text \<open>The scan to the left, with the test of the loop before every handle.\<close>

fun scan_left :: "nat \<Rightarrow> mem \<Rightarrow> int \<Rightarrow> int \<times> nat option \<Rightarrow> (int \<times> nat option) option" where
  "scan_left 0 m desired (free, very) = Some (free, very)"
| "scan_left (Suc h) m desired (free, very) =
     (if free < desired then do {
        obj \<leftarrow> MEMORY_OBJECT_PTR m h;
        if ptr obj \<noteq> NULL then do {
          f \<leftarrow> zepto_mem_man_get_freeable_size_at_left m h;
          scan_left h m desired (to_u16 (free + f), Some h)
        } else scan_left h m desired (free, very)
      } else Some (free, very))"

lemma scan_left_stop: "desired \<le> free \<Longrightarrow> scan_left n m desired (free, very) = Some (free, very)"
  by (cases n) auto

lemma scan_left_fixed_eq:
  assumes "heap_inv m"
  shows "h < MEMORY_HANDLE_MAX m \<Longrightarrow> scan_left_fixed h m desired fv = scan_left (Suc h) m desired fv"
proof (induction h arbitrary: fv)
  case 0
  obtain free very where fv: "fv = (free, very)" by fastforce
  have "MEMORY_OBJECT_PTR m 0 = Some (memory_objects m ! 0)" "ptr (memory_objects m ! 0) \<noteq> NULL"
    using assms 0 by (auto simp: heap_inv_def MEMORY_OBJECT_PTR_def)
  then show ?case
    by (cases "zepto_mem_man_get_freeable_size_at_left m 0") (simp_all add: fv scan_left_fixed.simps [of 0])
next
  case (Suc h)
  obtain free very where fv: "fv = (free, very)" by fastforce
  have "MEMORY_OBJECT_PTR m (Suc h) = Some (memory_objects m ! Suc h)" "ptr (memory_objects m ! Suc h) \<noteq> NULL"
    using assms Suc.prems by (auto simp: heap_inv_def MEMORY_OBJECT_PTR_def)
  then show ?case
    using Suc by (simp add: fv scan_left_fixed.simps [of "Suc h"] del: scan_left.simps)
      (simp add: Let_def)
qed

lemma scan_left_acquirable_eq:
  assumes "heap_inv m"
  shows "free < desired \<Longrightarrow>
    (scan_left_acquirable inner m desired (free, very) \<bind> (\<lambda>(free, very).
       if desired \<le> free then Some (free, very)
       else scan_left_fixed (MEMORY_HANDLE_MAX m - 1) m desired (free, very))) =
    scan_left (Suc (MEMORY_HANDLE_ACQUIRABLE_START m + inner)) m desired (free, very)"
proof (induction inner arbitrary: free very)
  have top: "Suc (MEMORY_HANDLE_MAX m - 1) = MEMORY_HANDLE_ACQUIRABLE_START m"
    using assms by (simp add: heap_inv_def MEMORY_HANDLE_ACQUIRABLE_START_def)
  have rest: "(if desired \<le> fr then Some (fr, ve) else scan_left_fixed (MEMORY_HANDLE_MAX m - 1) m desired (fr, ve)) =
      scan_left (MEMORY_HANDLE_ACQUIRABLE_START m) m desired (fr, ve)" for fr ve
    using scan_left_fixed_eq [OF assms, of "MEMORY_HANDLE_MAX m - 1" desired "(fr, ve)"] top assms
    by (simp add: scan_left_stop heap_inv_def)
  {
    case 0
    let ?h = "MEMORY_HANDLE_ACQUIRABLE_START m"
    show ?case
    proof (cases "MEMORY_OBJECT_PTR m ?h")
      case (Some ob)
      then show ?thesis
        using 0 rest by (cases "zepto_mem_man_get_freeable_size_at_left m ?h")
          (simp_all add: scan_left_acquirable.simps [of 0])
    qed (use 0 in \<open>simp add: scan_left_acquirable.simps [of 0]\<close>)
  next
    case (Suc inner)
    let ?h = "MEMORY_HANDLE_ACQUIRABLE_START m + Suc inner"
    have step: "((if fr < desired then scan_left_acquirable inner m desired (fr, ve) else Some (fr, ve)) \<bind>
        (\<lambda>(free, very). if desired \<le> free then Some (free, very)
          else scan_left_fixed (MEMORY_HANDLE_MAX m - 1) m desired (free, very))) =
        scan_left ?h m desired (fr, ve)" for fr ve
      using Suc.IH [of fr ve] by (simp add: scan_left_stop)
    show ?case
    proof (cases "MEMORY_OBJECT_PTR m ?h")
      case (Some ob)
      then show ?thesis
        using Suc.prems step step [of free very] by (cases "zepto_mem_man_get_freeable_size_at_left m ?h")
          (simp_all add: scan_left_acquirable.simps [of "Suc inner"] del: scan_left.simps
            add: scan_left.simps(2) [of "Suc (MEMORY_HANDLE_ACQUIRABLE_START m + inner)"])
    qed (use Suc.prems in \<open>simp add: scan_left_acquirable.simps [of "Suc inner"]\<close>)
  }
qed

lemma total_left_scan:
  assumes "heap_inv m" "0 < desired"
  shows "zepto_mem_man_get_total_freeable_space_at_left m h desired = scan_left (Suc h) m desired (0, None)"
proof (cases "MEMORY_HANDLE_ACQUIRABLE_START m \<le> h")
  case True
  then show ?thesis
    using scan_left_acquirable_eq [OF assms, of "h - MEMORY_HANDLE_ACQUIRABLE_START m" None]
    by (simp add: zepto_mem_man_get_total_freeable_space_at_left_def)
next
  case False
  then show ?thesis
    using scan_left_fixed_eq [OF assms(1), of h desired "(0, None)"]
    by (simp add: zepto_mem_man_get_total_freeable_space_at_left_def MEMORY_HANDLE_ACQUIRABLE_START_def)
qed

lemma scan_left_effect:
  assumes "heap_inv m" "ptr ob \<noteq> NULL"
  shows "memory_objects m = zs @ ns @ ys @ ob # rest \<Longrightarrow> \<forall>x \<in> set ns. ptr x = NULL \<Longrightarrow>
    free = ptr ob - left_end 0 zs - 1 - packed ys \<Longrightarrow> 0 \<le> free \<Longrightarrow>
    ptr (hd (ys @ [ob])) \<noteq> NULL \<Longrightarrow>
    \<exists>zs' ys' free'. scan_left (length zs) m desired (free, Some (length (zs @ ns))) =
        Some (free', Some (length zs')) \<and>
      memory_objects m = zs' @ ys' @ ob # rest \<and> 0 \<le> free' \<and>
      free' = ptr ob - left_end 0 zs' - 1 - packed ys' \<and> ptr (hd (ys' @ [ob])) \<noteq> NULL \<and>
      (desired \<le> free' \<or> (\<forall>x \<in> set zs'. ptr x = NULL))"
proof (induction zs arbitrary: ys ns free rule: rev_induct)
  case Nil
  then show ?case
    by (intro exI [of _ ns] exI [of _ ys]) (auto simp: left_end_null)
next
  case (snoc z zs)
  have objs: "memory_objects m = zs @ z # ns @ ys @ ob # rest" using snoc.prems(1) by simp
  note obj = MEMORY_OBJECT_PTR_mid [OF objs]
  show ?case
  proof (cases "desired \<le> free")
    case True
    then show ?thesis
      using snoc.prems by (intro exI [of _ "zs @ z # ns"] exI [of _ ys])
        (auto simp: scan_left_stop left_end_null)
  next
    case less: False
    show ?thesis
    proof (cases "ptr z = NULL")
      case True
      have "scan_left (length (zs @ [z])) m desired (free, Some (length ((zs @ [z]) @ ns))) =
          scan_left (length zs) m desired (free, Some (length (zs @ z # ns)))"
        using less True obj by simp
      with snoc.IH [of "z # ns" ys free] snoc.prems True show ?thesis by simp
    next
      case False
      have live: "live_at m zs z (ns @ ys @ ob # rest)"
        using assms(1) objs False by (simp add: live_at_def)
      have live_ob: "live_at m (zs @ z # ns @ ys) ob rest"
        using assms objs by (simp add: live_at_def)
      have "sizes_ok ys" using assms(1) objs by (simp add: heap_inv_def)
      note bounds = live_at_order [OF live] live_at_order [OF live_ob] packed_nonneg [OF this]
      define f where "f = ptr z - left_end 0 zs - 1"
      have f: "zepto_mem_man_get_freeable_size_at_left m (length zs) = Some f"
        unfolding f_def by (rule freeable_left [OF live])
      have f': "0 \<le> f" "f < 4096" "free < 4096"
        using bounds False snoc.prems(3) right_start_le [of "BASE_MEM_BLOCK m" "ns @ ys @ ob # rest" BASE_MEM_BLOCK_SIZE]
          heap_inv_parts(2,4) [OF assms(1) objs]
        by (simp_all add: f_def obj_end_def)
      have "scan_left (length (zs @ [z])) m desired (free, Some (length ((zs @ [z]) @ ns))) =
          scan_left (length zs) m desired (free + f, Some (length (zs @ [])))"
        using less False obj f f' snoc.prems(4) by simp
      moreover have "free + f = ptr ob - left_end 0 zs - 1 - packed (z # ns @ ys)"
        using snoc.prems(2,3) False by (simp add: f_def packed_null obj_end_def obj_size_def)
      ultimately show ?thesis
        using snoc.IH [of "[]" "z # ns @ ys" "free + f"] snoc.prems(1,4,5) f' False by simp
    qed
  qed
qed

lemma total_left:
  assumes live: "live_at m xs ob ys" and "0 < desired"
  obtains xs1 xs2 free where "xs = xs1 @ xs2"
    "zepto_mem_man_get_total_freeable_space_at_left m (length xs) desired = Some (free, Some (length xs1))"
    "free = ptr ob - left_end 0 xs1 - 1 - packed xs2" "0 \<le> free" "ptr (hd (xs2 @ [ob])) \<noteq> NULL"
    "desired \<le> free \<or> (\<forall>x \<in> set xs1. ptr x = NULL)"
proof -
  have objs: "memory_objects m = xs @ ob # ys" and inv: "heap_inv m" and nn: "ptr ob \<noteq> NULL"
    using live by (auto simp: live_at_def)
  define f where "f = ptr ob - left_end 0 xs - 1"
  have f: "zepto_mem_man_get_freeable_size_at_left m (length xs) = Some f" "0 \<le> f" "f < 65536"
    using freeable_left [OF live] live_at_order [OF live] by (auto simp: f_def)
  have "zepto_mem_man_get_total_freeable_space_at_left m (length xs) desired =
      scan_left (length xs) m desired (f, Some (length (xs @ [])))"
    using assms total_left_scan [OF inv] objs nn f by (simp add: MEMORY_OBJECT_PTR_mid)
  with scan_left_effect [OF inv nn, of xs "[]" "[]" ys f desired] objs nn f f_def that
  show ?thesis by auto
qed

section \<open>Correctness of append and prepend\<close>

lemma links_packed: "links B p xs \<Longrightarrow> p + packed xs \<le> left_end p xs"
proof (induction xs arbitrary: p)
  case (Cons x xs)
  show ?case
  proof (cases "ptr x = NULL")
    case True
    with Cons show ?thesis by simp
  next
    case False
    with Cons.prems have "gap B p (ptr x)" "links B (obj_end x) xs" by simp_all
    with gapD(2) [OF this(1)] Cons.IH [OF this(2)] False show ?thesis
      by (simp add: obj_end_def obj_size_def)
  qed
qed simp

lemma tail_packed: "tail B ys e \<Longrightarrow> right_start ys e + packed ys \<le> e"
proof (induction ys)
  case (Cons y ys)
  show ?case
  proof (cases "ptr y = NULL")
    case True
    with Cons show ?thesis by simp
  next
    case False
    with Cons.prems have "chain B (obj_end y) ys e" by simp
    from chain_packed [OF this] False show ?thesis
      by (simp add: obj_end_def obj_size_def)
  qed
qed simp

lemma slid_free_space: "slid m m' \<Longrightarrow> free_space m' = free_space m"
  by (simp add: slid_def free_space_def packed_shape [of "memory_objects m'"])

text \<open>The room around one object never exceeds what compaction can give.\<close>

lemma room_le_free_space:
  assumes "live_at m xs ob ys"
  shows "right_start ys BASE_MEM_BLOCK_SIZE - left_end 0 xs - obj_size ob - 2 \<le> free_space m"
proof -
  have inv: "heap_inv m" and objs: "memory_objects m = xs @ ob # ys" and nn: "ptr ob \<noteq> NULL"
    using assms by (auto simp: live_at_def)
  from links_packed [OF heap_inv_parts(1) [OF inv objs]] tail_packed [OF heap_inv_parts(2) [OF inv objs]]
  show ?thesis using objs nn by (simp add: free_space_def)
qed

lemma compact_right:
  assumes live: "live_at m xs ob ys" and "0 < desired"
  obtains free r m1 ys' where
    "zepto_mem_man_get_total_freeable_space_at_right m (length xs) desired = Some (free, Some r)"
    "zepto_mem_man_move_all_right m r (length xs) = Some m1" "slid m m1" "live_at m1 xs ob ys'"
    "right_start ys' BASE_MEM_BLOCK_SIZE = obj_end ob + 1 + free" "0 \<le> free"
    "desired \<le> free \<or> free = BASE_MEM_BLOCK_SIZE - 1 - obj_end ob - packed ys"
    "packed ys' = packed ys"
proof -
  have objs: "memory_objects m = xs @ ob # ys" and inv: "heap_inv m" and nn: "ptr ob \<noteq> NULL"
    using live by (auto simp: live_at_def)
  from total_right [OF live assms(2)] obtain ys1 ys2 free where ys: "ys = ys1 @ ys2"
    and t: "zepto_mem_man_get_total_freeable_space_at_right m (length xs) desired =
       Some (free, Some (length xs + length ys1))"
    and free: "free = right_start ys2 BASE_MEM_BLOCK_SIZE - obj_end ob - 1 - packed ys1" "0 \<le> free"
    and enough: "desired \<le> free \<or> (\<forall>x \<in> set ys2. ptr x = NULL)" .
  have objs': "memory_objects m = (xs @ [ob]) @ ys1 @ ys2" using objs ys by simp
  from move_right_loop_effect [OF inv objs'] obtain m1 ys1' where
    m1: "move_right_loop (length xs) (length ys1) m = Some m1" "slid m m1"
      "memory_objects m1 = (xs @ [ob]) @ ys1' @ ys2" "map shape ys1' = map shape ys1"
      "right_start (ys1' @ ys2) BASE_MEM_BLOCK_SIZE = right_start ys2 BASE_MEM_BLOCK_SIZE - packed ys1"
    by auto
  show thesis
  proof (rule that [OF t])
    show "zepto_mem_man_move_all_right m (length xs + length ys1) (length xs) = Some m1"
      using m1(1) by (simp add: zepto_mem_man_move_all_right_def)
    show "live_at m1 xs ob (ys1' @ ys2)" using m1(2,3) nn by (simp add: live_at_def slid_def)
    show "right_start (ys1' @ ys2) BASE_MEM_BLOCK_SIZE = obj_end ob + 1 + free"
      using m1(5) free by simp
    show "desired \<le> free \<or> free = BASE_MEM_BLOCK_SIZE - 1 - obj_end ob - packed ys"
      using enough free ys by (auto simp: right_start_null packed_null)
    show "packed (ys1' @ ys2) = packed ys" using packed_shape [OF m1(4)] ys by simp
  qed (use m1 free in auto)
qed

lemma compact_left:
  assumes live: "live_at m xs ob ys" and "0 < desired"
  obtains free l m1 xs' where
    "zepto_mem_man_get_total_freeable_space_at_left m (length xs) desired = Some (free, Some l)"
    "zepto_mem_man_move_all_left m l (length xs) = Some m1" "slid m m1" "live_at m1 xs' ob ys"
    "length xs' = length xs" "left_end 0 xs' = ptr ob - 1 - free" "0 \<le> free"
    "desired \<le> free \<or> free = ptr ob - 1 - packed xs"
proof -
  have objs: "memory_objects m = xs @ ob # ys" and inv: "heap_inv m" and nn: "ptr ob \<noteq> NULL"
    using live by (auto simp: live_at_def)
  from total_left [OF live assms(2)] obtain xs1 xs2 free where xs: "xs = xs1 @ xs2"
    and t: "zepto_mem_man_get_total_freeable_space_at_left m (length xs) desired = Some (free, Some (length xs1))"
    and free: "free = ptr ob - left_end 0 xs1 - 1 - packed xs2" "0 \<le> free"
    and first: "ptr (hd (xs2 @ [ob])) \<noteq> NULL"
    and enough: "desired \<le> free \<or> (\<forall>x \<in> set xs1. ptr x = NULL)" .
  have objs': "memory_objects m = xs1 @ xs2 @ ob # ys" using objs xs by simp
  from move_left_loop_effect [OF inv objs'] obtain m1 xs2' where
    m1: "move_left_loop (length xs1) (length xs2) m = Some m1" "slid m m1"
      "memory_objects m1 = xs1 @ xs2' @ ob # ys" "map shape xs2' = map shape xs2"
      "left_end 0 (xs1 @ xs2') = left_end 0 xs1 + packed xs2"
    by auto
  have left: "MEMORY_OBJECT_PTR m (length xs1) = Some (hd (xs2 @ [ob]))"
    using objs' by (cases xs2) (simp_all add: MEMORY_OBJECT_PTR_mid)
  have order: "ptr (hd (xs2 @ [ob])) \<le> ptr ob"
  proof (cases xs2)
    case (Cons x xs3)
    then have "x \<in> set xs" "ptr x \<noteq> NULL" using xs first by simp_all
    with links_extent [OF heap_inv_parts(1,3) [OF inv objs]] heap_inv_parts(3) [OF inv objs]
    have "obj_end x \<le> left_end 0 xs" "0 \<le> rq_size x" "0 \<le> rsp_size x"
      by (auto simp: sizes_ok_def)
    with live_at_order [OF live] Cons show ?thesis by (simp add: obj_end_def)
  qed simp
  show thesis
  proof (rule that [OF t])
    show "zepto_mem_man_move_all_left m (length xs1) (length xs) = Some m1"
      using m1(1) left order live_at_object [OF live] xs by (simp add: zepto_mem_man_move_all_left_def)
    show "live_at m1 (xs1 @ xs2') ob ys" using m1(2,3) nn by (simp add: live_at_def slid_def)
    show "length (xs1 @ xs2') = length xs"
      using xs map_eq_imp_length_eq [OF m1(4)] by simp
    show "left_end 0 (xs1 @ xs2') = ptr ob - 1 - free" using m1(5) free by simp
    show "desired \<le> free \<or> free = ptr ob - 1 - packed xs"
      using enough free xs by (auto simp: left_end_null packed_null)
  qed (use m1 free in auto)
qed

text \<open>
  The effect of a successful allocation: the contents of one handle change to \<open>c\<close>, everything
  else stays.
\<close>

definition grown :: "mem \<Rightarrow> nat \<Rightarrow> u8 list \<times> u8 list \<Rightarrow> mem \<Rightarrow> bool" where
  "grown m h c m' \<longleftrightarrow> heap_inv m' \<and> content m' = (content m)(h \<mapsto> c) \<and>
     MEMORY_HANDLE_MAX m' = MEMORY_HANDLE_MAX m \<and>
     length (memory_objects m') = length (memory_objects m)"

lemma slid_put_grown:
  assumes "slid m m1" "put_at m1 xs ob ys c m2" "length (memory_objects m1) = Suc (length xs + length ys)"
  shows "grown m (length xs) c m2"
  using assms map_eq_imp_length_eq [of shape "memory_objects m1" shape "memory_objects m"]
  by (simp add: grown_def slid_def put_at_def)

lemma slid_view:
  assumes "slid m m1" "live_at m xs ob ys" "live_at m1 xs' ob' ys'" "length xs' = length xs"
  shows "request_bytes (BASE_MEM_BLOCK m1) ob' = request_bytes (BASE_MEM_BLOCK m) ob"
    "response_bytes (BASE_MEM_BLOCK m1) ob' = response_bytes (BASE_MEM_BLOCK m) ob"
  using assms live_at_content [OF assms(2)] live_at_content [OF assms(3)] by (simp_all add: slid_def)

lemma live_at_length: "live_at m xs ob ys \<Longrightarrow> length (memory_objects m) = Suc (length xs + length ys)"
  by (simp add: live_at_def)

text \<open>
  The two final steps of \<open>memory_object_append\<close>, in a state reached by sliding.
\<close>

definition appended :: "mem \<Rightarrow> nat \<Rightarrow> mem_obj \<Rightarrow> int \<Rightarrow> int \<Rightarrow> mem \<Rightarrow> bool" where
  "appended m h ob sz p m' \<longleftrightarrow> (\<exists>new ob'. length new = nat sz \<and>
     grown m h (request_bytes (BASE_MEM_BLOCK m) ob, response_bytes (BASE_MEM_BLOCK m) ob @ new) m' \<and>
     MEMORY_OBJECT_PTR m' h = Some ob' \<and> p = obj_end ob' - sz \<and>
     rq_size ob' = rq_size ob \<and> rsp_size ob' = rsp_size ob + sz)"

lemma appended_step:
  assumes "slid m m1" "live_at m xs ob ys" "live_at m1 xs' ob1 ys'" "length xs' = length xs"
    "rq_size ob1 = rq_size ob" "rsp_size ob1 = rsp_size ob"
    "put_at m1 xs' ob2 ys' (request_bytes (BASE_MEM_BLOCK m1) ob1, response_bytes (BASE_MEM_BLOCK m1) ob1 @ new) m2"
    "ob2 = ob1\<lparr>ptr := q, rsp_size := rsp_size ob1 + sz\<rparr>" "length new = nat sz"
    "p = q + obj_size ob1"
  shows "appended m (length xs) ob sz p m2"
proof -
  have "grown m (length xs) (request_bytes (BASE_MEM_BLOCK m) ob, response_bytes (BASE_MEM_BLOCK m) ob @ new) m2"
    using slid_put_grown [OF assms(1,7) live_at_length [OF assms(3)]] assms(4)
      slid_view [OF assms(1-4)] by simp
  moreover have "MEMORY_OBJECT_PTR m2 (length xs) = Some ob2"
    using assms(4) [symmetric] assms(7) by (simp add: put_at_def MEMORY_OBJECT_PTR_def)
  ultimately show ?thesis
    using assms(5,6,8,9,10) unfolding appended_def
    by (intro exI [of _ new] exI [of _ ob2]) (simp add: obj_end_def obj_size_def)
qed

lemma append_expand:
  assumes "slid m m1" "live_at m xs ob ys" "live_at m1 xs' ob1 ys'" "length xs' = length xs"
    "rq_size ob1 = rq_size ob" "rsp_size ob1 = rsp_size ob"
    "0 \<le> sz" "sz < right_start ys' BASE_MEM_BLOCK_SIZE - obj_end ob1"
  shows "\<exists>p m2. zepto_mem_man_try_expand_right m1 (length xs) sz = Some (Some p, m2) \<and>
    appended m (length xs) ob sz p m2"
proof -
  from expand_right [OF assms(3,7,8)] obtain m2 new where
    e: "zepto_mem_man_try_expand_right m1 (length xs) sz = Some (Some (obj_end ob1), m2)"
    and p: "put_at m1 xs' (ob1\<lparr>rsp_size := rsp_size ob1 + sz\<rparr>) ys'
      (request_bytes (BASE_MEM_BLOCK m1) ob1, response_bytes (BASE_MEM_BLOCK m1) ob1 @ new) m2"
    and len: "length new = nat sz" using assms(4) by auto
  have same: "ob1\<lparr>rsp_size := rsp_size ob1 + sz\<rparr> = ob1\<lparr>ptr := ptr ob1, rsp_size := rsp_size ob1 + sz\<rparr>"
    by simp
  have "obj_end ob1 = ptr ob1 + obj_size ob1" by (simp add: obj_end_def obj_size_def)
  from appended_step [OF assms(1-6) p same len this] e show ?thesis by blast
qed

lemma append_move_expand:
  assumes "slid m m1" "live_at m xs ob ys" "live_at m1 xs' ob1 ys'" "length xs' = length xs"
    "rq_size ob1 = rq_size ob" "rsp_size ob1 = rsp_size ob"
    "0 \<le> sz" "sz \<le> right_start ys' BASE_MEM_BLOCK_SIZE - left_end 0 xs' - obj_size ob1 - 2"
  shows "\<exists>p m2. zepto_mem_man_try_move_left_expand_right m1 (length xs) sz = Some (Some p, m2) \<and>
    appended m (length xs) ob sz p m2"
proof -
  from move_left_expand_right [OF assms(3,7,8)] obtain m2 new where
    e: "zepto_mem_man_try_move_left_expand_right m1 (length xs) sz = Some (Some (left_end 0 xs' + 1 + obj_size ob1), m2)"
    and p: "put_at m1 xs' (ob1\<lparr>ptr := left_end 0 xs' + 1, rsp_size := rsp_size ob1 + sz\<rparr>) ys'
      (request_bytes (BASE_MEM_BLOCK m1) ob1, response_bytes (BASE_MEM_BLOCK m1) ob1 @ new) m2"
    and len: "length new = nat sz" using assms(4) by auto
  from appended_step [OF assms(1-6) p refl len refl] e show ?thesis by auto
qed

text \<open>
  \<open>memory_object_append\<close> succeeds exactly when the requested size fits in the free space of the
  whole block.
\<close>

lemma append_effect:
  assumes live: "live_at m xs ob ys" and "0 \<le> sz"
  shows "if sz \<le> free_space m
    then \<exists>p m'. memory_object_append m (length xs) sz = Some (p, m') \<and> appended m (length xs) ob sz p m'
    else memory_object_append m (length xs) sz = None"
proof -
  let ?S = BASE_MEM_BLOCK_SIZE and ?h = "length xs"
  note bound = room_le_free_space [OF live] and ord = live_at_order [OF live]
  have s0: "slid m m" using live by (simp add: live_at_def slid_refl)
  show ?thesis
  proof (cases "sz < right_start ys ?S - obj_end ob")
    case True
    with append_expand [OF s0 live live refl refl refl assms(2)] obtain p m2
      where "zepto_mem_man_try_expand_right m ?h sz = Some (Some p, m2)" "appended m ?h ob sz p m2" by auto
    moreover have "sz \<le> free_space m" using True bound ord by (simp add: obj_end_def obj_size_def)
    ultimately show ?thesis by (simp add: memory_object_append_def)
  next
    case no1: False
    then have f1: "zepto_mem_man_try_expand_right m ?h sz = Some (None, m)"
      using expand_right_fails [OF live] by simp
    show ?thesis
    proof (cases "sz \<le> right_start ys ?S - left_end 0 xs - obj_size ob - 2")
      case True
      with append_move_expand [OF s0 live live refl refl refl assms(2)] obtain p m2
        where "zepto_mem_man_try_move_left_expand_right m ?h sz = Some (Some p, m2)" "appended m ?h ob sz p m2"
        by auto
      then show ?thesis using f1 True bound by (simp add: memory_object_append_def)
    next
      case no2: False
      then have f2: "zepto_mem_man_try_move_left_expand_right m ?h sz = Some (None, m)"
        using move_left_expand_right_fails [OF live] by simp
      have pos: "0 < sz" using no1 ord by (simp add: obj_end_def)
      from compact_right [OF live pos] obtain fr r m1 ys' where
        r: "zepto_mem_man_get_total_freeable_space_at_right m ?h sz = Some (fr, Some r)"
          "zepto_mem_man_move_all_right m r ?h = Some m1" and s1: "slid m m1"
        and live1: "live_at m1 xs ob ys'" and rs: "right_start ys' ?S = obj_end ob + 1 + fr" "0 \<le> fr"
        and all_r: "sz \<le> fr \<or> fr = ?S - 1 - obj_end ob - packed ys" .
      note bound1 = room_le_free_space [OF live1] and ord1 = live_at_order [OF live1]
      show ?thesis
      proof (cases "sz \<le> fr")
        case True
        with append_expand [OF s1 live live1 refl refl refl assms(2)] rs obtain p m2
          where "zepto_mem_man_try_expand_right m1 ?h sz = Some (Some p, m2)" "appended m ?h ob sz p m2" by auto
        moreover have "sz \<le> free_space m"
          using True bound1 ord1 rs slid_free_space [OF s1] by (simp add: obj_end_def obj_size_def)
        ultimately show ?thesis using f1 f2 r True by (simp add: memory_object_append_def)
      next
        case no3: False
        from compact_left [OF live1 pos] obtain fl l m2 xs' where
          l: "zepto_mem_man_get_total_freeable_space_at_left m1 ?h sz = Some (fl, Some l)"
            "zepto_mem_man_move_all_left m1 l ?h = Some m2" and s2: "slid m1 m2"
          and live2: "live_at m2 xs' ob ys'" and len: "length xs' = ?h"
          and le: "left_end 0 xs' = ptr ob - 1 - fl" "0 \<le> fl"
          and all_l: "sz \<le> fl \<or> fl = ptr ob - 1 - packed xs" .
        have room: "right_start ys' ?S - left_end 0 xs' - obj_size ob - 2 = fl + fr"
          using rs le by (simp add: obj_end_def obj_size_def)
        have fs: "free_space m2 = free_space m"
          using slid_free_space [OF s1] slid_free_space [OF s2] by simp
        show ?thesis
        proof (cases "sz \<le> fl + fr")
          case True
          with append_move_expand [OF slid_trans [OF s1 s2] live live2 len refl refl assms(2)] room obtain p m3
            where "zepto_mem_man_try_move_left_expand_right m2 ?h sz = Some (Some p, m3)" "appended m ?h ob sz p m3"
            by auto
          moreover have "sz \<le> free_space m"
            using True room_le_free_space [OF live2] room fs by simp
          ultimately show ?thesis using f1 f2 r l no3 True by (simp add: memory_object_append_def)
        next
          case False
          then have "fl + fr = free_space m"
            using all_r all_l no3 rs(2) live_at_objs [OF live] live_at_ptr [OF live]
            by (simp add: free_space_def obj_end_def obj_size_def)
          then show ?thesis using f1 f2 r l no3 False by (simp add: memory_object_append_def assert_def)
        qed
      qed
    qed
  qed
qed

text \<open>Prepending first gives up the request part.\<close>

lemma discard_request_effect:
  assumes live: "live_at m xs ob ys"
  shows "\<exists>m'. discard_request m (length xs) = Some m' \<and>
    put_at m xs (ob\<lparr>ptr := ptr ob + rq_size ob, rq_size := 0\<rparr>) ys
      ([], response_bytes (BASE_MEM_BLOCK m) ob) m'"
proof (cases "rq_size ob = 0")
  case True
  then have same: "ob\<lparr>ptr := ptr ob + rq_size ob, rq_size := 0\<rparr> = ob" by (cases ob) simp
  have "put_at m xs ob ys ([], response_bytes (BASE_MEM_BLOCK m) ob) m"
    using put_at_self [OF live] True by (simp add: request_bytes_def)
  then show ?thesis unfolding same using live True by (simp add: discard_request_def)
next
  case False
  let ?ob = "ob\<lparr>ptr := ptr ob + rq_size ob, rq_size := 0\<rparr>"
  note ord = live_at_order [OF live]
  let ?B = "put_gap (BASE_MEM_BLOCK m) (left_end 0 xs) (ptr ob + rq_size ob)"
  have t: "memory_block_trim_at_left (BASE_MEM_BLOCK m) (ptr ob) 0 (rq_size ob) = Some ?B"
    using live_at_gaps(1) [OF live] ord by (intro trim_left) auto
  have e: "obj_end ?ob = obj_end ob" by (simp add: obj_end_def)
  from free_left_part [OF live _ _ _ e, of "rq_size ob" 0] ord t
  have "put_at m xs ?ob ys (request_bytes (BASE_MEM_BLOCK m) ?ob, response_bytes (BASE_MEM_BLOCK m) ?ob)
      (m\<lparr>BASE_MEM_BLOCK := ?B, memory_objects := xs @ ?ob # ys\<rparr>)" by auto
  moreover have "discard_request m (length xs) =
      Some (m\<lparr>BASE_MEM_BLOCK := ?B, memory_objects := xs @ ?ob # ys\<rparr>)"
    using live False ord live_at_objs [OF live] by (simp add: discard_request_def Let_def write_gap)
  ultimately show ?thesis by (simp add: request_bytes_def response_bytes_def)
qed

definition prepended :: "mem \<Rightarrow> nat \<Rightarrow> mem_obj \<Rightarrow> int \<Rightarrow> int \<Rightarrow> mem \<Rightarrow> bool" where
  "prepended m h ob sz p m' \<longleftrightarrow> (\<exists>new ob'. length new = nat sz \<and>
     grown m h ([], new @ response_bytes (BASE_MEM_BLOCK m) ob) m' \<and>
     MEMORY_OBJECT_PTR m' h = Some ob' \<and> p = ptr ob' \<and> rq_size ob' = 0 \<and>
     rsp_size ob' = rsp_size ob + sz)"

lemma obj_ptr_again_fixed:
  assumes "0 < MEMORY_HANDLE_MAX m0" "MEMORY_HANDLE_MAX m0 \<le> length (memory_objects m0)"
    "MEMORY_HANDLE_MAX m = MEMORY_HANDLE_MAX m0" "length (memory_objects m) = length (memory_objects m0)"
    "h < MEMORY_HANDLE_MAX m0"
  shows "obj_ptr_again m0 m h = map_option ptr (MEMORY_OBJECT_PTR m h)"
  using assms by (simp add: obj_ptr_again_def MEMORY_HANDLE_ACQUIRABLE_HANDLE_STORAGE_def MEMORY_OBJECT_PTR_def)

lemma prepended_step:
  assumes "slid m m1" "live_at m xs ob ys" "live_at m1 xs' ob1 ys'" "length xs' = length xs"
    "rsp_size ob1 = rsp_size ob"
    "put_at m1 xs' ob2 ys' ([], new @ response_bytes (BASE_MEM_BLOCK m1) ob1) m2"
    "rq_size ob2 = 0" "rsp_size ob2 = rsp_size ob1 + sz" "length new = nat sz"
  shows "prepended m (length xs) ob sz (ptr ob2) m2"
proof -
  have "grown m (length xs) ([], new @ response_bytes (BASE_MEM_BLOCK m) ob) m2"
    using slid_put_grown [OF assms(1,6) live_at_length [OF assms(3)]] assms(4)
      slid_view [OF assms(1-4)] by simp
  moreover have "MEMORY_OBJECT_PTR m2 (length xs) = Some ob2"
    using assms(4) [symmetric] assms(6) by (simp add: put_at_def MEMORY_OBJECT_PTR_def)
  ultimately show ?thesis
    using assms(5,7,8,9) unfolding prepended_def by (intro exI [of _ new] exI [of _ ob2]) simp
qed

lemma prepend_expand:
  assumes "slid m m1" "live_at m xs ob ys" "live_at m1 xs' ob1 ys'" "length xs' = length xs"
    "rq_size ob1 = 0" "rsp_size ob1 = rsp_size ob" "0 \<le> sz" "sz < ptr ob1 - left_end 0 xs'"
  shows "\<exists>p m2. zepto_mem_man_try_expand_left m1 (length xs) sz = Some (True, m2) \<and>
    prepended m (length xs) ob sz p m2"
proof -
  from expand_left [OF assms(3,5,7,8)] obtain m2 new where
    e: "zepto_mem_man_try_expand_left m1 (length xs) sz = Some (True, m2)"
    and p: "put_at m1 xs' (ob1\<lparr>ptr := ptr ob1 - sz, rsp_size := rsp_size ob1 + sz\<rparr>) ys'
      ([], new @ response_bytes (BASE_MEM_BLOCK m1) ob1) m2"
    and len: "length new = nat sz" using assms(4) by auto
  from prepended_step [OF assms(1-4,6) p _ _ len] assms(5) e show ?thesis by auto
qed

lemma prepend_move_expand:
  assumes "slid m m1" "live_at m xs ob ys" "live_at m1 xs' ob1 ys'" "length xs' = length xs"
    "rq_size ob1 = 0" "rsp_size ob1 = rsp_size ob" "0 \<le> sz"
    "sz \<le> right_start ys' BASE_MEM_BLOCK_SIZE - left_end 0 xs' - obj_size ob1 - 2"
  shows "\<exists>p m2. zepto_mem_man_try_move_right_expand_left m1 (length xs) sz = Some (True, m2) \<and>
    prepended m (length xs) ob sz p m2"
proof -
  from move_right_expand_left [OF assms(3,5,7,8)] obtain m2 new q where
    e: "zepto_mem_man_try_move_right_expand_left m1 (length xs) sz = Some (True, m2)"
    and p: "put_at m1 xs' (ob1\<lparr>ptr := q, rsp_size := rsp_size ob1 + sz\<rparr>) ys'
      ([], new @ response_bytes (BASE_MEM_BLOCK m1) ob1) m2"
    and len: "length new = nat sz" using assms(4) by auto
  from prepended_step [OF assms(1-4,6) p _ _ len] assms(5) e show ?thesis by auto
qed

lemma prepended_again:
  assumes "prepended m h ob sz p m2" "heap_inv m" "h < MEMORY_HANDLE_MAX m"
    "MEMORY_HANDLE_MAX m0 = MEMORY_HANDLE_MAX m" "length (memory_objects m0) = length (memory_objects m)"
  shows "obj_ptr_again m0 m2 h = Some p"
proof -
  have "obj_ptr_again m0 m2 h = map_option ptr (MEMORY_OBJECT_PTR m2 h)"
    using assms by (intro obj_ptr_again_fixed) (auto simp: prepended_def grown_def heap_inv_def)
  then show ?thesis using assms(1) by (auto simp: prepended_def)
qed

lemma prepend_effect:
  assumes live0: "live_at m0 xs ob0 ys" and "0 \<le> sz" and fixed_handle: "length xs < MEMORY_HANDLE_MAX m0"
  shows "if sz \<le> free_space m0 + rq_size ob0
    then \<exists>p m'. memory_object_prepend m0 (length xs) sz = Some (p, m') \<and> prepended m0 (length xs) ob0 sz p m'
    else memory_object_prepend m0 (length xs) sz = None"
proof -
  let ?S = BASE_MEM_BLOCK_SIZE and ?h = "length xs"
  define ob where "ob = ob0\<lparr>ptr := ptr ob0 + rq_size ob0, rq_size := 0\<rparr>"
  from discard_request_effect [OF live0] obtain m where d: "discard_request m0 ?h = Some m"
    and put: "put_at m0 xs ob ys ([], response_bytes (BASE_MEM_BLOCK m0) ob0) m"
    unfolding ob_def by blast
  have nn: "ptr ob \<noteq> NULL" using live_at_order [OF live0] by (simp add: ob_def NULL_def)
  note live = put_at_live [OF put nn]
  have rq: "rq_size ob = 0" and rsp: "rsp_size ob = rsp_size ob0" by (simp_all add: ob_def)
  have view: "response_bytes (BASE_MEM_BLOCK m) ob = response_bytes (BASE_MEM_BLOCK m0) ob0"
    using live_at_content [OF live] put by (simp add: put_at_def)
  have meta: "MEMORY_HANDLE_MAX m0 = MEMORY_HANDLE_MAX m" "length (memory_objects m0) = length (memory_objects m)"
    "?h < MEMORY_HANDLE_MAX m" "heap_inv m"
    using put live_at_objs [OF live0] fixed_handle by (auto simp: put_at_def)
  have fs0: "free_space m = free_space m0 + rq_size ob0"
    using live_at_objs [OF live] live_at_objs [OF live0] nn live_at_ptr [OF live0]
    by (simp add: free_space_def obj_size_def) (simp add: ob_def)
  have to_start: "prepended m0 ?h ob0 sz p m'" if "prepended m ?h ob sz p m'" for p m'
    using that put live_at_objs [OF live0] rsp by (simp add: prepended_def grown_def put_at_def view)
  have again: "obj_ptr_again m0 m' ?h = Some p" if "prepended m ?h ob sz p m'" for p m'
    using prepended_again [OF that meta(4,3,1,2)] .
  note bound = room_le_free_space [OF live] and ord = live_at_order [OF live]
  have s0: "slid m m" using live by (simp add: live_at_def slid_refl)
  show ?thesis unfolding fs0 [symmetric]
  proof (cases "sz < ptr ob - left_end 0 xs")
    case True
    with prepend_expand [OF s0 live live refl rq refl assms(2)] obtain p m2
      where "zepto_mem_man_try_expand_left m ?h sz = Some (True, m2)" and p: "prepended m ?h ob sz p m2" by auto
    moreover have "sz \<le> free_space m" using True bound ord by (simp add: obj_size_def)
    ultimately show "if sz \<le> free_space m
      then \<exists>p m'. memory_object_prepend m0 ?h sz = Some (p, m') \<and> prepended m0 ?h ob0 sz p m'
      else memory_object_prepend m0 ?h sz = None"
      using d again [OF p] to_start [OF p] by (simp add: memory_object_prepend_def)
  next
    case no1: False
    then have f1: "zepto_mem_man_try_expand_left m ?h sz = Some (False, m)"
      using expand_left_fails [OF live rq] by simp
    show "if sz \<le> free_space m
      then \<exists>p m'. memory_object_prepend m0 ?h sz = Some (p, m') \<and> prepended m0 ?h ob0 sz p m'
      else memory_object_prepend m0 ?h sz = None"
    proof (cases "sz \<le> right_start ys ?S - left_end 0 xs - obj_size ob - 2")
      case True
      with prepend_move_expand [OF s0 live live refl rq refl assms(2)] obtain p m2
        where "zepto_mem_man_try_move_right_expand_left m ?h sz = Some (True, m2)"
          and p: "prepended m ?h ob sz p m2" by auto
      then show ?thesis using d f1 True bound again [OF p] to_start [OF p] by (simp add: memory_object_prepend_def)
    next
      case no2: False
      then have f2: "zepto_mem_man_try_move_right_expand_left m ?h sz = Some (False, m)"
        using move_right_expand_left_fails [OF live] by simp
      have pos: "0 < sz" using no1 ord by simp
      from compact_right [OF live pos] obtain fr r m1 ys' where
        r: "zepto_mem_man_get_total_freeable_space_at_right m ?h sz = Some (fr, Some r)"
          "zepto_mem_man_move_all_right m r ?h = Some m1" and s1: "slid m m1"
        and live1: "live_at m1 xs ob ys'" and rs: "right_start ys' ?S = obj_end ob + 1 + fr" "0 \<le> fr"
        and all_r: "sz \<le> fr \<or> fr = ?S - 1 - obj_end ob - packed ys" .
      note bound1 = room_le_free_space [OF live1] and ord1 = live_at_order [OF live1]
      show ?thesis
      proof (cases "sz \<le> fr")
        case True
        with prepend_move_expand [OF s1 live live1 refl rq refl assms(2)] rs ord1 obtain p m2
          where "zepto_mem_man_try_move_right_expand_left m1 ?h sz = Some (True, m2)"
            and p: "prepended m ?h ob sz p m2" by (auto simp: obj_end_def obj_size_def)
        moreover have "sz \<le> free_space m"
          using True bound1 ord1 rs slid_free_space [OF s1] by (simp add: obj_end_def obj_size_def)
        ultimately show ?thesis using d f1 f2 r True again [OF p] to_start [OF p] by (simp add: memory_object_prepend_def)
      next
        case no3: False
        from compact_left [OF live1 pos] obtain fl l m2 xs' where
          l: "zepto_mem_man_get_total_freeable_space_at_left m1 ?h sz = Some (fl, Some l)"
            "zepto_mem_man_move_all_left m1 l ?h = Some m2" and s2: "slid m1 m2"
          and live2: "live_at m2 xs' ob ys'" and len: "length xs' = ?h"
          and le: "left_end 0 xs' = ptr ob - 1 - fl" "0 \<le> fl"
          and all_l: "sz \<le> fl \<or> fl = ptr ob - 1 - packed xs" .
        have room: "right_start ys' ?S - left_end 0 xs' - obj_size ob - 2 = fl + fr"
          using rs le by (simp add: obj_end_def obj_size_def)
        have fs: "free_space m2 = free_space m"
          using slid_free_space [OF s1] slid_free_space [OF s2] by simp
        show ?thesis
        proof (cases "sz \<le> fl + fr")
          case True
          with prepend_move_expand [OF slid_trans [OF s1 s2] live live2 len rq refl assms(2)] room obtain p m3
            where "zepto_mem_man_try_move_right_expand_left m2 ?h sz = Some (True, m3)"
              and p: "prepended m ?h ob sz p m3" by auto
          moreover have "sz \<le> free_space m"
            using True room_le_free_space [OF live2] room fs by simp
          ultimately show ?thesis
            using d f1 f2 r l no3 True again [OF p] to_start [OF p] by (simp add: memory_object_prepend_def)
        next
          case False
          then have "fl + fr = free_space m"
            using all_r all_l no3 rs(2) live_at_objs [OF live] live_at_ptr [OF live]
            by (simp add: free_space_def obj_end_def obj_size_def)
          then show ?thesis
            using d f1 f2 r l no3 False by (simp add: memory_object_prepend_def assert_def)
        qed
      qed
    qed
  qed
qed

section \<open>Prepending between the neighbours\<close>

text \<open>
  The bytes an object can have without any other object moving: those between its neighbours, less
  the two that stay gaps.
\<close>

definition span :: "mem \<Rightarrow> nat \<Rightarrow> int" where
  "span m h = right_start (drop (Suc h) (memory_objects m)) BASE_MEM_BLOCK_SIZE - left_end 0 (take h (memory_objects m)) - 2"

lemma span_live: "memory_objects m = xs @ ob # ys \<Longrightarrow> span m (length xs) = right_start ys BASE_MEM_BLOCK_SIZE - left_end 0 xs - 2"
  by (simp add: span_def)

lemma span_put_at: "memory_objects m = xs @ ob # ys \<Longrightarrow> put_at m xs ob' ys c m' \<Longrightarrow> span m' (length xs) = span m (length xs)"
  by (simp add: span_def put_at_def)

text \<open>Without other objects moving, the storage of the slots has not moved either.\<close>

lemma obj_ptr_again_in_place:
  assumes "memory_objects m0 = xs @ ob # ys" "memory_objects m = xs @ ob' # ys" "MEMORY_HANDLE_MAX m = MEMORY_HANDLE_MAX m0"
    "0 < MEMORY_HANDLE_MAX m0" "MEMORY_HANDLE_MAX m0 \<le> length (memory_objects m0)"
  shows "obj_ptr_again m0 m (length xs) = Some (ptr ob')"
proof (cases "length xs < MEMORY_HANDLE_MAX m0")
  case True
  then show ?thesis using assms by (subst obj_ptr_again_fixed) (simp_all add: MEMORY_OBJECT_PTR_def)
next
  case False
  then have "MEMORY_HANDLE_MAX m0 - 1 < length xs" using assms(4) by simp
  then have "MEMORY_OBJECT_PTR m (MEMORY_HANDLE_MAX m0 - 1) = Some (xs ! (MEMORY_HANDLE_MAX m0 - 1))"
    "MEMORY_OBJECT_PTR m0 (MEMORY_HANDLE_MAX m0 - 1) = Some (xs ! (MEMORY_HANDLE_MAX m0 - 1))"
    using assms(1,2) by (simp_all add: MEMORY_OBJECT_PTR_def nth_append)
  then show ?thesis using assms(2,3)
    by (simp add: obj_ptr_again_def MEMORY_HANDLE_ACQUIRABLE_HANDLE_STORAGE_def assert_def) (simp add: MEMORY_OBJECT_PTR_def)
qed

lemma prepend_in_span:
  assumes live0: "live_at m0 xs ob0 ys" and "0 \<le> sz" "sz + rsp_size ob0 \<le> span m0 (length xs)"
  shows "\<exists>p m'. memory_object_prepend m0 (length xs) sz = Some (p, m') \<and> prepended m0 (length xs) ob0 sz p m' \<and>
    span m' (length xs) = span m0 (length xs)"
proof -
  let ?S = BASE_MEM_BLOCK_SIZE and ?h = "length xs"
  define ob where "ob = ob0\<lparr>ptr := ptr ob0 + rq_size ob0, rq_size := 0\<rparr>"
  from discard_request_effect [OF live0] obtain m where d: "discard_request m0 ?h = Some m"
    and put: "put_at m0 xs ob ys ([], response_bytes (BASE_MEM_BLOCK m0) ob0) m"
    unfolding ob_def by blast
  have nn: "ptr ob \<noteq> NULL" using live_at_order [OF live0] by (simp add: ob_def NULL_def)
  note live = put_at_live [OF put nn] and objs0 = live_at_objs [OF live0]
  have rq: "rq_size ob = 0" and rsp: "rsp_size ob = rsp_size ob0" by (simp_all add: ob_def)
  have view: "response_bytes (BASE_MEM_BLOCK m) ob = response_bytes (BASE_MEM_BLOCK m0) ob0"
    using live_at_content [OF live] put by (simp add: put_at_def)
  have max: "MEMORY_HANDLE_MAX m = MEMORY_HANDLE_MAX m0" "0 < MEMORY_HANDLE_MAX m0" "MEMORY_HANDLE_MAX m0 \<le> length (memory_objects m0)"
    using put live0 by (auto simp: put_at_def live_at_def heap_inv_def)
  have room: "sz \<le> right_start ys ?S - left_end 0 xs - obj_size ob - 2"
    using assms(3) span_live [OF objs0] rq rsp by (simp add: obj_size_def)
  have fin: "memory_object_prepend m0 ?h sz = Some (ptr ob2, m2) \<and> prepended m0 ?h ob0 sz (ptr ob2) m2 \<and> span m2 ?h = span m0 ?h"
    if p: "put_at m xs ob2 ys ([], new @ response_bytes (BASE_MEM_BLOCK m) ob) m2" "rq_size ob2 = 0"
      "rsp_size ob2 = rsp_size ob0 + sz" "length new = nat sz"
    and run: "zepto_mem_man_try_expand_left m ?h sz = Some (True, m2) \<or> zepto_mem_man_try_expand_left m ?h sz = Some (False, m) \<and>
      zepto_mem_man_try_move_right_expand_left m ?h sz = Some (True, m2)" for ob2 new m2
  proof -
    have objs2: "memory_objects m2 = xs @ ob2 # ys" and max2: "MEMORY_HANDLE_MAX m2 = MEMORY_HANDLE_MAX m0"
      using p(1) max by (simp_all add: put_at_def)
    have again: "obj_ptr_again m0 m2 ?h = Some (ptr ob2)"
      by (rule obj_ptr_again_in_place [OF objs0 objs2 max2 max(2,3)])
    have s0: "slid m m" using live by (simp add: live_at_def slid_refl)
    have "prepended m ?h ob sz (ptr ob2) m2"
      by (rule prepended_step [OF s0 live live refl refl p(1)]) (use p(2-4) rsp in simp_all)
    then have "prepended m0 ?h ob0 sz (ptr ob2) m2"
      using put live_at_objs [OF live] objs0 rsp by (simp add: prepended_def grown_def put_at_def view)
    then show ?thesis using run d again objs0 objs2 by (auto simp: memory_object_prepend_def span_def)
  qed
  show ?thesis
  proof (cases "sz < ptr ob - left_end 0 xs")
    case True
    obtain m2 new where "zepto_mem_man_try_expand_left m ?h sz = Some (True, m2)"
      "put_at m xs (ob\<lparr>ptr := ptr ob - sz, rsp_size := rsp_size ob + sz\<rparr>) ys ([], new @ response_bytes (BASE_MEM_BLOCK m) ob) m2"
      "length new = nat sz" using expand_left [OF live rq assms(2) True] by blast
    then show ?thesis using fin rq rsp by fastforce
  next
    case False
    then have f: "zepto_mem_man_try_expand_left m ?h sz = Some (False, m)" using expand_left_fails [OF live rq] by simp
    obtain m2 new q where "zepto_mem_man_try_move_right_expand_left m ?h sz = Some (True, m2)"
      "put_at m xs (ob\<lparr>ptr := q, rsp_size := rsp_size ob + sz\<rparr>) ys ([], new @ response_bytes (BASE_MEM_BLOCK m) ob) m2"
      "length new = nat sz" using move_right_expand_left [OF live rq assms(2) room] by blast
    then show ?thesis using fin f rq rsp by fastforce
  qed
qed

end
