(* ===== verification/Heap_Handles.thy ===== *)
theory Heap_Handles
  imports Heap_Compaction
begin

text \<open>
  The handles of the memory manager: acquiring and releasing handles at run time, the getters,
  the neighbour functions and the sanity check of \<open>zepto_mem_mngmt.c\<close>.
\<close>

section \<open>Validity and getters\<close>

text \<open>\<open>sizeof(request_reply_mem_obj)\<close>: a pointer and two \<open>uint16_t\<close>, padded (64-bit build).\<close>

definition sizeof_request_reply_mem_obj :: int where
  "sizeof_request_reply_mem_obj = 16"

definition ASSERT_MEMORY_HANDLE_VALID :: "mem \<Rightarrow> nat \<Rightarrow> unit option" where
  "ASSERT_MEMORY_HANDLE_VALID m h = do {
     obj \<leftarrow> MEMORY_OBJECT_PTR m h;
     if h < MEMORY_HANDLE_MAX m then assert (0 < ptr obj \<and> ptr obj < BASE_MEM_BLOCK_SIZE)
     else do {
       assert (ptr obj \<noteq> NULL);
       assert (ptr obj + rq_size obj + rsp_size obj < BASE_MEM_BLOCK_SIZE)
     }
   }"

definition get_object :: "mem \<Rightarrow> nat \<Rightarrow> mem_obj option" where
  "get_object m mem_h = do {
     obj \<leftarrow> MEMORY_OBJECT_PTR m mem_h;
     if mem_h < MEMORY_HANDLE_MAX m then Some obj
     else do { assert (ptr obj \<noteq> NULL); Some obj }
   }"

definition memory_object_get_request_ptr :: "mem \<Rightarrow> nat \<Rightarrow> int option" where
  "memory_object_get_request_ptr m mem_h = do { obj \<leftarrow> get_object m mem_h; Some (ptr obj) }"

definition memory_object_get_request_size :: "mem \<Rightarrow> nat \<Rightarrow> int option" where
  "memory_object_get_request_size m mem_h = do { obj \<leftarrow> get_object m mem_h; Some (rq_size obj) }"

definition memory_object_get_response_ptr :: "mem \<Rightarrow> nat \<Rightarrow> int option" where
  "memory_object_get_response_ptr m mem_h =
     do { obj \<leftarrow> get_object m mem_h; Some (ptr obj + rq_size obj) }"

definition memory_object_get_response_size :: "mem \<Rightarrow> nat \<Rightarrow> int option" where
  "memory_object_get_response_size m mem_h = do { obj \<leftarrow> get_object m mem_h; Some (rsp_size obj) }"

definition memory_object_read_response_byte :: "mem \<Rightarrow> nat \<Rightarrow> int \<Rightarrow> u8 option" where
  "memory_object_read_response_byte m mem_h offset = do {
     obj \<leftarrow> get_object m mem_h;
     assert (offset < rsp_size obj);
     peek_block (BASE_MEM_BLOCK m) (ptr obj + rq_size obj + offset)
   }"

section \<open>Acquiring and releasing a handle\<close>

definition slots :: "mem \<Rightarrow> mem_obj list" where
  "slots m = drop (MEMORY_HANDLE_ACQUIRABLE_START m) (memory_objects m)"

definition no_object :: mem_obj where
  "no_object = \<lparr>ptr = NULL, rq_size = 0, rsp_size = 0\<rparr>"

text \<open>The loop \<open>while ( obj < base_buff + base_buff_sz && obj->ptr != NULL ) obj++\<close>.\<close>

fun next_free_slot :: "mem_obj list \<Rightarrow> nat \<Rightarrow> nat" where
  "next_free_slot [] i = i"
| "next_free_slot (ob # obs) i = (if ptr ob \<noteq> NULL then next_free_slot obs (Suc i) else i)"

text \<open>Part 1: the index of an empty slot, made at the end of the storage if there is none.\<close>

definition append_slot :: "mem \<Rightarrow> mem option" where
  "append_slot m = do {
     (p, m) \<leftarrow> memory_object_append m (MEMORY_HANDLE_ACQUIRABLE_HANDLE_STORAGE m) sizeof_request_reply_mem_obj;
     assert (p \<noteq> NULL);
     Some (m\<lparr>memory_objects := memory_objects m @ [no_object]\<rparr>)
   }"

definition acquire_slot :: "mem \<Rightarrow> (nat \<times> mem) option" where
  "acquire_slot m = do {
     storage \<leftarrow> MEMORY_OBJECT_PTR m (MEMORY_HANDLE_ACQUIRABLE_HANDLE_STORAGE m);
     let base_buff_sz = to_u16 (rq_size storage + rsp_size storage);
     if base_buff_sz = 0 then do {
       m \<leftarrow> append_slot m;
       Some (0, m)
     } else do {
       obj \<leftarrow> MEMORY_OBJECT_PTR m (MEMORY_HANDLE_ACQUIRABLE_START m);
       if ptr obj = NULL then Some (0, m)
       else do {
         let k = next_free_slot (drop 1 (slots m)) 1;
         if base_buff_sz \<le> int k * sizeof_request_reply_mem_obj then do {
           assert (int k * sizeof_request_reply_mem_obj = base_buff_sz);
           m \<leftarrow> append_slot m;
           Some (k, m)
         } else Some (k, m)
       }
     }
   }"

text \<open>
  Part 2: an empty object after the previous one. In the second case the previous object moves;
  if that is the storage itself, \<open>obj\<close> (which points into it) is stale and the store through it
  has no defined effect on the slot.
\<close>

definition place_slot :: "mem \<Rightarrow> nat \<Rightarrow> (nat option \<times> mem) option" where
  "place_slot m k = do {
     let h = MEMORY_HANDLE_ACQUIRABLE_START m + k;
     let prev = h - 1;
     obj \<leftarrow> MEMORY_OBJECT_PTR m h;
     prev_obj \<leftarrow> MEMORY_OBJECT_PTR m prev;
     let obj = obj\<lparr>ptr := NULL, rq_size := 0, rsp_size := 0\<rparr>;
     let B = BASE_MEM_BLOCK m;
     let left_end_of_free_space_at_right = ptr prev_obj + rq_size prev_obj + rsp_size prev_obj;
     free_at_right \<leftarrow> size_fwd B left_end_of_free_space_at_right;
     assert (1 \<le> free_at_right);
     if 1 < free_at_right then do {
       let right_end_of_free_space_at_right = left_end_of_free_space_at_right + free_at_right - 1;
       free_at_right_copy \<leftarrow> size_bwd B right_end_of_free_space_at_right;
       assert (free_at_right = free_at_right_copy);
       B \<leftarrow> poke_block B left_end_of_free_space_at_right 1;
       B \<leftarrow> write_fwd B (left_end_of_free_space_at_right + 1) (u16_of (free_at_right - 1));
       B \<leftarrow> write_bwd B right_end_of_free_space_at_right (u16_of (free_at_right - 1));
       Some (Some h, set_object m B h (obj\<lparr>ptr := left_end_of_free_space_at_right + 1\<rparr>))
     } else do {
       let right_end_of_free_space_at_left = ptr prev_obj - 1;
       free_at_left \<leftarrow> size_bwd B right_end_of_free_space_at_left;
       if 1 < free_at_left then do {
         let left_end_of_free_space_at_left = right_end_of_free_space_at_left - free_at_left + 1;
         assert (prev \<noteq> MEMORY_HANDLE_ACQUIRABLE_HANDLE_STORAGE m);
         let prev_obj = prev_obj\<lparr>ptr := ptr prev_obj - 1\<rparr>;
         B \<leftarrow> mem_move BASE_MEM_BLOCK_SIZE B (ptr prev_obj) (ptr prev_obj + 1) (rq_size prev_obj + rsp_size prev_obj);
         B \<leftarrow> write_fwd B left_end_of_free_space_at_left (u16_of (free_at_left - 1));
         B \<leftarrow> write_bwd B (right_end_of_free_space_at_left - 1) (u16_of (free_at_left - 1));
         B \<leftarrow> poke_block B (left_end_of_free_space_at_right - 1) 1;
         let m = set_object m B prev prev_obj;
         Some (Some h, set_object m B h (obj\<lparr>ptr := left_end_of_free_space_at_right\<rparr>))
       } else do {
         (prev_obj_buff, m) \<leftarrow> memory_object_append m prev 1;
         if prev_obj_buff = NULL then Some (None, m)
         else do {
           prev_new \<leftarrow> MEMORY_OBJECT_PTR m prev;
           assert (rsp_size prev_obj + 1 = rsp_size prev_new);
           let prev_new = prev_new\<lparr>rsp_size := to_u16 (rsp_size prev_new - 1)\<rparr>;
           let left_end_of_free_space_at_right = ptr prev_new + rq_size prev_new + rsp_size prev_new;
           B \<leftarrow> poke_block (BASE_MEM_BLOCK m) left_end_of_free_space_at_right 1;
           let m = set_object m B prev prev_new;
           Some (Some h, set_object m B h (obj\<lparr>ptr := left_end_of_free_space_at_right + 1\<rparr>))
         }
       }
     }
   }"

definition memory_object_acquire :: "mem \<Rightarrow> (nat option \<times> mem) option" where
  "memory_object_acquire m = do {
     (k, m) \<leftarrow> acquire_slot m;
     place_slot m k
   }"

text \<open>Part 3 of \<open>memory_object_release\<close>: back over the slots that are empty as well.\<close>

fun first_of_trailing :: "mem_obj list \<Rightarrow> nat \<Rightarrow> nat" where
  "first_of_trailing s 0 = 0"
| "first_of_trailing s (Suc k) = (if ptr (s ! k) \<noteq> NULL then Suc k else first_of_trailing s k)"

definition memory_object_release :: "mem \<Rightarrow> nat \<Rightarrow> mem option" where
  "memory_object_release m mem_h = do {
     ASSERT_MEMORY_HANDLE_VALID m mem_h;
     assert (MEMORY_HANDLE_ACQUIRABLE_START m \<le> mem_h);
     storage \<leftarrow> MEMORY_OBJECT_PTR m (MEMORY_HANDLE_ACQUIRABLE_HANDLE_STORAGE m);
     let base_buff_sz = to_u16 (rq_size storage + rsp_size storage);
     let inner = mem_h - MEMORY_HANDLE_ACQUIRABLE_START m;
     assert (int (inner + 1) * sizeof_request_reply_mem_obj \<le> base_buff_sz);
     obj \<leftarrow> MEMORY_OBJECT_PTR m mem_h;
     assert (ptr obj \<noteq> NULL);
     let B = BASE_MEM_BLOCK m;
     let right_end_of_free_space_at_left = ptr obj - 1;
     free_at_left \<leftarrow> size_bwd B right_end_of_free_space_at_left;
     let left_end_of_free_space_at_left = right_end_of_free_space_at_left - free_at_left + 1;
     free_at_left_copy \<leftarrow> size_fwd B left_end_of_free_space_at_left;
     assert (free_at_left = free_at_left_copy);
     assert (1 \<le> free_at_left);
     let left_end_of_free_space_at_right = ptr obj + rq_size obj + rsp_size obj;
     free_at_right \<leftarrow> size_fwd B left_end_of_free_space_at_right;
     let right_end_of_free_space_at_right = left_end_of_free_space_at_right + free_at_right - 1;
     free_at_right_copy \<leftarrow> size_bwd B right_end_of_free_space_at_right;
     assert (free_at_right = free_at_right_copy);
     assert (1 \<le> free_at_right);
     let free_sz_after_release = to_u16 (free_at_left + rq_size obj + rsp_size obj + free_at_right);
     B \<leftarrow> write_fwd B left_end_of_free_space_at_left (u16_of free_sz_after_release);
     B \<leftarrow> write_bwd B right_end_of_free_space_at_right (u16_of free_sz_after_release);
     let m = set_object m B mem_h (obj\<lparr>ptr := NULL, rq_size := 0, rsp_size := 0\<rparr>);
     if int (inner + 1) * sizeof_request_reply_mem_obj = base_buff_sz then do {
       let k = first_of_trailing (slots m) inner;
       let sz_to_drop = to_u16 (base_buff_sz - int k * sizeof_request_reply_mem_obj);
       B \<leftarrow> memory_block_trim_at_right (BASE_MEM_BLOCK m) (ptr storage) base_buff_sz sz_to_drop;
       let m = set_object m B (MEMORY_HANDLE_ACQUIRABLE_HANDLE_STORAGE m)
                 (storage\<lparr>rsp_size := to_u16 (rsp_size storage - sz_to_drop)\<rparr>);
       Some (m\<lparr>memory_objects := take (MEMORY_HANDLE_ACQUIRABLE_START m + k) (memory_objects m)\<rparr>)
     } else Some m
   }"

section \<open>Inserting and removing empty slots\<close>

lemma chain_append_null:
  "\<forall>x \<in> set ns. ptr x = NULL \<Longrightarrow> chain B p (obs @ ns) e = chain B p obs e"
proof (induction obs arbitrary: p)
  case Nil
  then show ?case by (induction ns) auto
qed simp

lemma null_no_object [simp]: "ptr no_object = NULL" "rq_size no_object = 0" "rsp_size no_object = 0"
  by (simp_all add: no_object_def)

lemma add_slot:
  assumes "heap_inv m"
  shows "heap_inv (m\<lparr>memory_objects := memory_objects m @ [no_object]\<rparr>)"
    "content (m\<lparr>memory_objects := memory_objects m @ [no_object]\<rparr>) = content m"
  using assms
  by (auto simp: heap_inv_def chain_append_null nth_append content_def fun_eq_iff less_Suc_eq)

lemma drop_slots:
  assumes "heap_inv m" "memory_objects m = obs @ ns" "MEMORY_HANDLE_MAX m \<le> length obs"
    "\<forall>x \<in> set ns. ptr x = NULL"
  shows "heap_inv (m\<lparr>memory_objects := obs\<rparr>)" "content (m\<lparr>memory_objects := obs\<rparr>) = content m"
proof -
  show "heap_inv (m\<lparr>memory_objects := obs\<rparr>)"
    using assms by (auto simp: heap_inv_def chain_append_null nth_append)
  have "ptr ((obs @ ns) ! h) = NULL" if "\<not> h < length obs" "h < length (obs @ ns)" for h
    using assms(4) that by (auto simp: nth_append)
  then have "content (m\<lparr>memory_objects := obs\<rparr>) h = content m h" for h
    using assms(2) by (cases "h < length obs") (auto simp: content_def nth_append)
  then show "content (m\<lparr>memory_objects := obs\<rparr>) = content m" by blast
qed

text \<open>A new empty object in the gap after a live one.\<close>

lemma insert_object:
  assumes live: "live_at m xs prev (nul # ys)" and "ptr nul = NULL"
    and "\<And>i. i < obj_end prev \<or> right_start ys BASE_MEM_BLOCK_SIZE \<le> i \<Longrightarrow> B' i = BASE_MEM_BLOCK m i"
    and "gap B' (obj_end prev) p" "gap B' p (right_start ys BASE_MEM_BLOCK_SIZE)"
  defines "m' \<equiv> m\<lparr>BASE_MEM_BLOCK := B', memory_objects := xs @ prev # \<lparr>ptr = p, rq_size = 0, rsp_size = 0\<rparr> # ys\<rparr>"
  shows "heap_inv m' \<and> content m' = (content m)(Suc (length xs) \<mapsto> ([], []))"
proof -
  let ?ob = "\<lparr>ptr = p, rq_size = 0, rsp_size = 0\<rparr>"
  have "local_change m (xs @ [prev]) nul ys ?ob B'"
    using assms(1,3) by (simp add: local_change_def live_at_def)
  moreover have "ptr ?ob \<noteq> NULL"
    using gapD(1,2) [OF assms(4)] by (simp add: NULL_def)
  ultimately have "heap_inv (m\<lparr>BASE_MEM_BLOCK := B', memory_objects := (xs @ [prev]) @ ?ob # ys\<rparr>) \<and>
    content (m\<lparr>BASE_MEM_BLOCK := B', memory_objects := (xs @ [prev]) @ ?ob # ys\<rparr>) =
      (content m)(length (xs @ [prev]) \<mapsto> (request_bytes B' ?ob, response_bytes B' ?ob))"
    using assms(4,5) live_at_ptr [OF live] by (intro put_object) (simp_all add: obj_end_def)
  then show ?thesis by (simp add: m'_def request_bytes_def response_bytes_def)
qed

section \<open>Correctness of acquire\<close>

definition placed :: "mem \<Rightarrow> nat \<Rightarrow> mem \<Rightarrow> bool" where
  "placed m h m' \<longleftrightarrow> heap_inv m' \<and> content m' = (content m)(h \<mapsto> ([], [])) \<and>
     MEMORY_HANDLE_MAX m' = MEMORY_HANDLE_MAX m \<and>
     length (memory_objects m') = length (memory_objects m)"

lemma MEMORY_OBJECT_PTR_next:
  "memory_objects m = xs @ a # b # ys \<Longrightarrow> MEMORY_OBJECT_PTR m (Suc (length xs)) = Some b"
  using MEMORY_OBJECT_PTR_mid [of m "xs @ [a]" b ys] by simp

lemma null_object_eq: "sizes_ok [ob] \<Longrightarrow> ptr ob = NULL \<Longrightarrow> ob = no_object"
  by (cases ob) (simp add: no_object_def)

text \<open>First case: there is room in the gap after the previous object.\<close>

lemma place_slot_gap:
  assumes live: "live_at m xs prev (no_object # ys)"
    and h: "Suc (length xs) = MEMORY_HANDLE_ACQUIRABLE_START m + k"
    and room: "1 < right_start ys BASE_MEM_BLOCK_SIZE - obj_end prev"
  shows "\<exists>m'. place_slot m k = Some (Some (Suc (length xs)), m') \<and> placed m (Suc (length xs)) m'"
proof -
  define e where "e = ptr prev + rq_size prev + rsp_size prev"
  define b where "b = right_start ys BASE_MEM_BLOCK_SIZE"
  define B' where "B' = put_gap ((BASE_MEM_BLOCK m)(e := 1)) (e + 1) b"
  note ord = live_at_order [OF live]
  have ord': "0 < e" "e + 1 < b" "b \<le> 4096"
    using ord room by (auto simp: e_def b_def obj_end_def)
  have sizes: "size_fwd (BASE_MEM_BLOCK m) e = Some (b - e)" "size_bwd (BASE_MEM_BLOCK m) (b - 1) = Some (b - e)"
    using live_at_gaps(2) [OF live] ord' by (simp_all add: size_fwd_def size_bwd_def e_def b_def obj_end_def)
  let ?ob = "\<lparr>ptr = e + 1, rq_size = 0, rsp_size = 0\<rparr>"
  have upd: "(memory_objects m)[Suc (length xs) := ?ob] = xs @ prev # ?ob # ys"
    using live_at_objs [OF live] by (simp add: list_update_append)
  have "place_slot m k = Some (Some (Suc (length xs)),
      m\<lparr>BASE_MEM_BLOCK := B', memory_objects := xs @ prev # ?ob # ys\<rparr>)"
    using live_at_object [OF live] MEMORY_OBJECT_PTR_next [OF live_at_objs [OF live]] sizes ord ord' upd
    by (simp add: place_slot_def Let_def write_gap B'_def NULL_def no_object_def flip: h e_def)
  moreover have "heap_inv (m\<lparr>BASE_MEM_BLOCK := B', memory_objects := xs @ prev # ?ob # ys\<rparr>) \<and>
      content (m\<lparr>BASE_MEM_BLOCK := B', memory_objects := xs @ prev # ?ob # ys\<rparr>) =
        (content m)(Suc (length xs) \<mapsto> ([], []))"
  proof (rule insert_object [OF live])
    show "gap B' (obj_end prev) (e + 1)"
      using ord ord' by (intro gap_one) (auto simp: B'_def put_gap_other e_def obj_end_def)
    show "gap B' (e + 1) (right_start ys BASE_MEM_BLOCK_SIZE)"
      using ord ord' by (auto simp: B'_def simp flip: b_def intro!: gap_put_gap)
  qed (use ord' in \<open>auto simp: B'_def put_gap_other e_def b_def obj_end_def\<close>)
  ultimately show ?thesis
    using live_at_objs [OF live] by (simp add: placed_def)
qed

lemma gap_single: "gap B a b \<Longrightarrow> b = a + 1 \<Longrightarrow> B a = 1"
  by (simp add: gap_def has_fwd_def enc16_def u8_of_def)

text \<open>Second case: the previous object is moved one byte to the left.\<close>

lemma place_slot_move:
  assumes live: "live_at m xs prev (no_object # ys)"
    and h: "Suc (length xs) = MEMORY_HANDLE_ACQUIRABLE_START m + k"
    and tight: "right_start ys BASE_MEM_BLOCK_SIZE - obj_end prev = 1"
    and room: "1 < ptr prev - left_end 0 xs"
    and not_storage: "length xs \<noteq> MEMORY_HANDLE_ACQUIRABLE_HANDLE_STORAGE m"
  shows "\<exists>m'. place_slot m k = Some (Some (Suc (length xs)), m') \<and> placed m (Suc (length xs)) m'"
proof -
  define e where "e = ptr prev + rq_size prev + rsp_size prev"
  define a where "a = left_end 0 xs"
  define B1 where "B1 = put_gap (moved (BASE_MEM_BLOCK m) (ptr prev - 1) (ptr prev) (rq_size prev + rsp_size prev))
    a (ptr prev - 1)"
  define B2 where "B2 = put_gap B1 (e - 1) (e + 1)"
  define B' where "B' = B1(e - 1 := 1)"
  note ord = live_at_order [OF live]
  have b: "right_start ys BASE_MEM_BLOCK_SIZE = e + 1"
    using tight by (simp add: e_def obj_end_def)
  have ord': "0 \<le> a" "a < ptr prev - 1" "e + 1 \<le> 4096" "e = ptr prev + rq_size prev + rsp_size prev"
    "ptr prev \<le> e" "ptr prev + (rq_size prev + rsp_size prev) \<le> 4095"
    using ord room b by (auto simp: e_def a_def)
  have sizes: "size_fwd (BASE_MEM_BLOCK m) e = Some 1" "size_bwd (BASE_MEM_BLOCK m) (ptr prev - 1) = Some (ptr prev - a)"
    using size_at_right [OF live] size_at_left [OF live] b by (simp_all add: e_def a_def obj_end_def)
  let ?prev = "prev\<lparr>ptr := ptr prev - 1\<rparr>" and ?ob = "\<lparr>ptr = e, rq_size = 0, rsp_size = 0\<rparr>"
  have upd: "(memory_objects m)[length xs := ?prev, Suc (length xs) := ?ob] = xs @ ?prev # ?ob # ys"
    using live_at_objs [OF live] by (simp add: list_update_append)
  have run: "place_slot m k = Some (Some (Suc (length xs)),
      m\<lparr>BASE_MEM_BLOCK := B', memory_objects := xs @ ?prev # ?ob # ys\<rparr>)"
    using live_at_object [OF live] MEMORY_OBJECT_PTR_next [OF live_at_objs [OF live]] sizes ord(3,4,7) ord'(1,2,3,5,6) upd not_storage
    by (simp add: place_slot_def Let_def write_gap B'_def B1_def no_object_def mem_move_def in_range_def flip: h e_def)
  let ?m2 = "m\<lparr>BASE_MEM_BLOCK := B2, memory_objects := xs @ ?prev # no_object # ys\<rparr>"
  have put: "put_at m xs ?prev (no_object # ys)
      (request_bytes (BASE_MEM_BLOCK m) prev, response_bytes (BASE_MEM_BLOCK m) prev) ?m2"
  proof (rule put_atI [OF live, where B' = B2])
    have "gap B1 a (ptr prev - 1)" using ord ord' by (auto simp: B1_def intro!: gap_put_gap)
    then have "gap B2 a (ptr prev - 1)" using ord ord' by (rule_tac gap_cong) (auto simp: B2_def put_gap_other)
    then show "gap B2 (left_end 0 xs) (ptr ?prev)" by (simp add: a_def)
    have end1: "obj_end ?prev = e - 1" using ord' by (simp add: obj_end_def)
    show "gap B2 (obj_end ?prev) (right_start (no_object # ys) BASE_MEM_BLOCK_SIZE)"
      unfolding end1 using ord'(1,2,3,5) b ord(7) by (simp add: B2_def gap_put_gap)
    show "B2 i = BASE_MEM_BLOCK m i" if "i < left_end 0 xs \<or> right_start (no_object # ys) BASE_MEM_BLOCK_SIZE \<le> i" for i
      using that ord ord' b by (auto simp: B2_def B1_def put_gap_other moved_def simp flip: a_def)
    have "B2 i = BASE_MEM_BLOCK m (ptr prev + (i - (ptr prev - 1)))"
      if "ptr prev - 1 \<le> i" "i < ptr prev - 1 + rq_size prev + rsp_size prev" for i
      using that ord ord' by (auto simp: B2_def B1_def put_gap_other moved_def)
    then show "(request_bytes (BASE_MEM_BLOCK m) prev, response_bytes (BASE_MEM_BLOCK m) prev) =
        (request_bytes B2 ?prev, response_bytes B2 ?prev)"
      using bytes_moved [of prev "ptr prev - 1" B2 "BASE_MEM_BLOCK m"] ord by simp
  qed (use ord ord' in \<open>auto simp: NULL_def\<close>)
  have live2: "live_at ?m2 xs ?prev (no_object # ys)"
    using put_at_live [OF put] ord ord' by (simp add: NULL_def)
  have view: "content ?m2 = content m"
    using put live_at_content [OF live] by (simp add: put_at_def fun_upd_idem)
  let ?m' = "m\<lparr>BASE_MEM_BLOCK := B', memory_objects := xs @ ?prev # ?ob # ys\<rparr>"
  have "heap_inv (?m2\<lparr>BASE_MEM_BLOCK := B', memory_objects := xs @ ?prev # ?ob # ys\<rparr>) \<and>
      content (?m2\<lparr>BASE_MEM_BLOCK := B', memory_objects := xs @ ?prev # ?ob # ys\<rparr>) =
        (content ?m2)(Suc (length xs) \<mapsto> ([], []))"
  proof (rule insert_object [OF live2])
    have end1: "obj_end ?prev = e - 1" using ord' by (simp add: obj_end_def)
    show "gap B' (obj_end ?prev) e"
      unfolding end1 using ord ord' by (intro gap_one) (auto simp: B'_def)
    have one: "BASE_MEM_BLOCK m e = 1"
      using live_at_gaps(2) [OF live] b by (intro gap_single [of _ e "e + 1"]) (simp_all add: e_def obj_end_def)
    have "B' e = 1" using one ord ord' by (auto simp: B'_def B1_def put_gap_other moved_def)
    then show "gap B' e (right_start ys BASE_MEM_BLOCK_SIZE)"
      unfolding b using ord ord' by (intro gap_one) auto
    show "B' i = BASE_MEM_BLOCK ?m2 i"
      if "i < obj_end ?prev \<or> right_start ys BASE_MEM_BLOCK_SIZE \<le> i" for i
      using that ord' unfolding end1 b by (auto simp: B'_def B2_def put_gap_other)
  qed simp_all
  then have "placed m (Suc (length xs)) ?m'"
    using view live_at_objs [OF live] by (simp add: placed_def)
  with run show ?thesis by blast
qed

text \<open>Third case: one byte is made by an append to the previous object, and taken back.\<close>

lemma place_slot_append:
  assumes live: "live_at m xs prev (no_object # ys)"
    and h: "Suc (length xs) = MEMORY_HANDLE_ACQUIRABLE_START m + k"
    and tight: "right_start ys BASE_MEM_BLOCK_SIZE - obj_end prev = 1" "ptr prev - left_end 0 xs = 1"
  shows "if 1 \<le> free_space m
    then \<exists>m'. place_slot m k = Some (Some (Suc (length xs)), m') \<and> placed m (Suc (length xs)) m'
    else place_slot m k = None"
proof -
  note ord = live_at_order [OF live] and objs = live_at_objs [OF live]
  have sizes: "size_fwd (BASE_MEM_BLOCK m) (ptr prev + rq_size prev + rsp_size prev) = Some 1"
    "size_bwd (BASE_MEM_BLOCK m) (ptr prev - 1) = Some 1"
    using size_at_right [OF live] size_at_left [OF live] tight by simp_all
  note run = place_slot_def [of m k, folded h, unfolded Let_def]
  show ?thesis
  proof (cases "1 \<le> free_space m")
    case False
    then have "memory_object_append m (length xs) 1 = None"
      using append_effect [OF live, of 1] by simp
    then show ?thesis
      using False live_at_object [OF live] MEMORY_OBJECT_PTR_next [OF objs] sizes by (simp add: run)
  next
    case True
    then obtain p m1 where ap: "memory_object_append m (length xs) 1 = Some (p, m1)"
      and "appended m (length xs) prev 1 p m1"
      using append_effect [OF live, of 1] by auto
    then obtain new prev1 where new: "length new = nat 1"
      and g: "grown m (length xs) (request_bytes (BASE_MEM_BLOCK m) prev, response_bytes (BASE_MEM_BLOCK m) prev @ new) m1"
      and prev1: "MEMORY_OBJECT_PTR m1 (length xs) = Some prev1" "p = obj_end prev1 - 1"
        "rq_size prev1 = rq_size prev" "rsp_size prev1 = rsp_size prev + 1"
      by (auto simp: appended_def)
    have inv1: "heap_inv m1" and c1: "content m1 = (content m)(length xs \<mapsto>
        (request_bytes (BASE_MEM_BLOCK m) prev, response_bytes (BASE_MEM_BLOCK m) prev @ new))"
      and len1: "length (memory_objects m1) = length (memory_objects m)"
      and max1: "MEMORY_HANDLE_MAX m1 = MEMORY_HANDLE_MAX m"
      using g by (auto simp: grown_def)
    have lt: "Suc (length xs) < length (memory_objects m1)" using objs len1 by simp
    have at: "memory_objects m1 ! length xs = prev1"
      using prev1(1) by (simp add: MEMORY_OBJECT_PTR_def split: if_splits)
    have nn: "ptr prev1 \<noteq> NULL"
      using c1 at by (auto simp: content_def fun_eq_iff dest!: spec [of _ "length xs"] split: if_splits)
    have "content m1 (Suc (length xs)) = None"
      using objs c1 by (simp add: content_def nth_append)
    then have nul: "ptr (memory_objects m1 ! Suc (length xs)) = NULL"
      using lt by (simp add: content_def split: if_splits)
    have "memory_objects m1 ! Suc (length xs) = no_object"
      using inv1 nul lt by (intro null_object_eq) (auto simp: heap_inv_def sizes_ok_def)
    then obtain xs1 ys1 where objs1: "memory_objects m1 = xs1 @ prev1 # no_object # ys1" and len: "length xs1 = length xs"
      using lt at by (metis id_take_nth_drop Suc_lessD Cons_nth_drop_Suc length_take min.absorb4)
    have live1: "live_at m1 xs1 prev1 (no_object # ys1)"
      using inv1 objs1 nn by (simp add: live_at_def)
    note ord1 = live_at_order [OF live1]
    let ?prev = "prev1\<lparr>rsp_size := rsp_size prev\<rparr>"
    let ?ob = "\<lparr>ptr = p + 1, rq_size = 0, rsp_size = 0\<rparr>"
    define B' where "B' = (BASE_MEM_BLOCK m1)(p := 1)"
    define b where "b = right_start ys1 BASE_MEM_BLOCK_SIZE"
    define B2 where "B2 = put_gap (BASE_MEM_BLOCK m1) p b"
    have p: "p = ptr prev1 + rq_size prev1 + rsp_size prev" "obj_end ?prev = p" "obj_end prev1 = p + 1"
      "p + 1 < b" "0 < p" "0 \<le> rsp_size prev" "b \<le> 4096"
      using prev1 ord1 ord by (auto simp: obj_end_def b_def)
    have run1: "place_slot m k = Some (Some (Suc (length xs)),
        m1\<lparr>BASE_MEM_BLOCK := B', memory_objects := xs1 @ ?prev # ?ob # ys1\<rparr>)"
    proof -
      have "poke_block (BASE_MEM_BLOCK m1) p 1 = Some B'" using p ord1 by (simp add: B'_def)
      moreover have "(memory_objects m1)[length xs := ?prev, Suc (length xs) := ?ob] = xs1 @ ?prev # ?ob # ys1"
        using objs1 by (simp add: list_update_append flip: len)
      moreover have "to_u16 (rsp_size prev1 - 1) = rsp_size prev" "ptr prev1 + rq_size prev1 + rsp_size prev = p"
        "p \<noteq> NULL"
        using prev1(4) p(1,5,6) ord by (simp_all add: NULL_def)
      ultimately show ?thesis
        using live_at_object [OF live] MEMORY_OBJECT_PTR_next [OF objs] sizes ap prev1(1,4)
        by (simp add: run no_object_def)
    qed
    let ?m2 = "m1\<lparr>BASE_MEM_BLOCK := B2, memory_objects := xs1 @ ?prev # no_object # ys1\<rparr>"
    have put: "put_at m1 xs1 ?prev (no_object # ys1)
        (request_bytes (BASE_MEM_BLOCK m1) ?prev, response_bytes (BASE_MEM_BLOCK m1) ?prev) ?m2"
    proof (rule shrink [OF live1])
      show "gap B2 (left_end 0 xs1) (ptr ?prev)"
        using gap_cong [OF live_at_gaps(1) [OF live1], of B2] ord1 p by (auto simp: B2_def put_gap_other)
      show "gap B2 (obj_end ?prev) (right_start (no_object # ys1) BASE_MEM_BLOCK_SIZE)"
        using p ord1 by (auto simp: B2_def simp flip: b_def intro!: gap_put_gap)
      show "B2 i = BASE_MEM_BLOCK m1 i"
        if "i < left_end 0 xs1 \<or> right_start (no_object # ys1) BASE_MEM_BLOCK_SIZE \<le> i \<or>
          ptr ?prev \<le> i \<and> i < obj_end ?prev" for i
        using that p ord1 by (auto simp: B2_def b_def put_gap_other)
    qed (use p ord1 in auto)
    have live2: "live_at ?m2 xs1 ?prev (no_object # ys1)"
      using put_at_live [OF put] nn by simp
    have "content m1 (length xs1) = Some (request_bytes (BASE_MEM_BLOCK m1) prev1, response_bytes (BASE_MEM_BLOCK m1) prev1)"
      using live_at_content [OF live1] .
    then have same: "request_bytes (BASE_MEM_BLOCK m1) prev1 = request_bytes (BASE_MEM_BLOCK m) prev"
      "response_bytes (BASE_MEM_BLOCK m1) prev1 = response_bytes (BASE_MEM_BLOCK m) prev @ new"
      using c1 len by simp_all
    have "response_bytes (BASE_MEM_BLOCK m1) ?prev =
        take (nat (rsp_size prev)) (response_bytes (BASE_MEM_BLOCK m1) prev1)"
      using prev1(4) p(6) by (simp add: response_bytes_def take_bytes_at)
    also have "\<dots> = response_bytes (BASE_MEM_BLOCK m) prev"
      unfolding same by (simp add: response_bytes_def)
    finally have view: "content ?m2 = content m"
      using put same(1) c1 len live_at_content [OF live]
      by (simp add: put_at_def request_bytes_def fun_upd_idem)
    have "heap_inv (?m2\<lparr>BASE_MEM_BLOCK := B', memory_objects := xs1 @ ?prev # ?ob # ys1\<rparr>) \<and>
        content (?m2\<lparr>BASE_MEM_BLOCK := B', memory_objects := xs1 @ ?prev # ?ob # ys1\<rparr>) =
          (content ?m2)(Suc (length xs1) \<mapsto> ([], []))"
    proof (rule insert_object [OF live2])
      show "gap B' (obj_end ?prev) (p + 1)"
        unfolding p(2) using p ord1 by (intro gap_one) (auto simp: B'_def)
      show "gap B' (p + 1) (right_start ys1 BASE_MEM_BLOCK_SIZE)"
        using gap_cong [OF live_at_gaps(2) [OF live1], of B'] p(3) by (simp add: B'_def)
      show "B' i = BASE_MEM_BLOCK ?m2 i"
        if "i < obj_end ?prev \<or> right_start ys1 BASE_MEM_BLOCK_SIZE \<le> i" for i
        using that p unfolding p(2) by (auto simp: B'_def B2_def b_def put_gap_other)
    qed simp_all
    then have "placed m (Suc (length xs)) (m1\<lparr>BASE_MEM_BLOCK := B', memory_objects := xs1 @ ?prev # ?ob # ys1\<rparr>)"
      using view len max1 len1 objs objs1 by (simp add: placed_def)
    with run1 True show ?thesis by auto
  qed
qed

text \<open>
  The invariant of the handles: the storage handle has no request, and its response has room for
  exactly the slots.
\<close>

definition handles_inv :: "mem \<Rightarrow> bool" where
  "handles_inv m \<longleftrightarrow> heap_inv m \<and>
     (\<exists>bs. content m (MEMORY_HANDLE_ACQUIRABLE_HANDLE_STORAGE m) = Some ([], bs) \<and>
       int (length bs) = int (length (slots m)) * sizeof_request_reply_mem_obj)"

lemma handles_inv_storage:
  assumes "handles_inv m"
  obtains xs st where "live_at m xs st (slots m)" "length xs = MEMORY_HANDLE_ACQUIRABLE_HANDLE_STORAGE m"
    "Suc (length xs) = MEMORY_HANDLE_ACQUIRABLE_START m"
    "rq_size st = 0" "rsp_size st = int (length (slots m)) * sizeof_request_reply_mem_obj"
proof -
  let ?h = "MEMORY_HANDLE_ACQUIRABLE_HANDLE_STORAGE m"
  have inv: "heap_inv m" and pos: "0 < MEMORY_HANDLE_MAX m" "MEMORY_HANDLE_MAX m \<le> length (memory_objects m)"
    using assms by (auto simp: handles_inv_def heap_inv_def)
  then have "?h < length (memory_objects m)" "ptr (memory_objects m ! ?h) \<noteq> NULL"
    by (auto simp: heap_inv_def MEMORY_HANDLE_ACQUIRABLE_HANDLE_STORAGE_def)
  from live_at_I [OF inv this] obtain xs st ys where live: "live_at m xs st ys" and h: "?h = length xs"
    by metis
  have len: "Suc (length xs) = MEMORY_HANDLE_ACQUIRABLE_START m"
    using h pos by (simp add: MEMORY_HANDLE_ACQUIRABLE_START_def MEMORY_HANDLE_ACQUIRABLE_HANDLE_STORAGE_def)
  then have ys: "ys = slots m"
    using live_at_objs [OF live] by (simp add: slots_def flip: len)
  obtain bs where bs: "content m (length xs) = Some ([], bs)"
    "int (length bs) = int (length (slots m)) * sizeof_request_reply_mem_obj"
    using assms h by (auto simp: handles_inv_def)
  with live_at_content [OF live] have "request_bytes (BASE_MEM_BLOCK m) st = []" "response_bytes (BASE_MEM_BLOCK m) st = bs"
    by simp_all
  then have "rq_size st = 0" "int (length bs) = rsp_size st"
    using live_at_order [OF live] by (auto simp: request_bytes_def response_bytes_def dest: arg_cong [where f = length])
  then show thesis using that [of xs st] live ys bs h len by simp
qed

text \<open>Free space in terms of the abstract view.\<close>

definition view_size :: "(u8 list \<times> u8 list) option \<Rightarrow> int" where
  "view_size v = (case v of None \<Rightarrow> 0 | Some (a, b) \<Rightarrow> int (length a) + int (length b) + 1)"

lemma view_size_simps [simp]:
  "view_size None = 0" "view_size (Some (a, b)) = int (length a) + int (length b) + 1"
  by (simp_all add: view_size_def)

lemma packed_content:
  assumes "heap_inv m"
  shows "packed (memory_objects m) = (\<Sum>h<length (memory_objects m). view_size (content m h))"
proof -
  have "(if ptr (memory_objects m ! h) = NULL then 0 else obj_size (memory_objects m ! h) + 1) = view_size (content m h)"
    if "h < length (memory_objects m)" for h
  proof -
    have "memory_objects m ! h \<in> set (memory_objects m)" using that by simp
    then have "0 \<le> rq_size (memory_objects m ! h)" "0 \<le> rsp_size (memory_objects m ! h)"
      using assms by (auto simp: heap_inv_def sizes_ok_def)
    then show ?thesis
      using that by (simp add: content_def request_bytes_def response_bytes_def obj_size_def)
  qed
  then show ?thesis
    by (simp add: packed_def sum_list_sum_nth lessThan_atLeast0)
qed

lemma free_space_content:
  assumes "heap_inv m"
  shows "free_space m = 4095 - (\<Sum>h<length (memory_objects m). view_size (content m h))"
  using packed_content [OF assms] by (simp add: free_space_def block_size_value)

lemma sum_view_upd:
  assumes "h < (n :: nat)"
  shows "(\<Sum>i<n. view_size ((c(h := v)) i)) = (\<Sum>i<n. view_size (c i)) - view_size (c h) + view_size v"
proof -
  have split: "(\<Sum>i<n. f i) = f h + (\<Sum>i\<in>{..<n} - {h}. f i)" for f :: "nat \<Rightarrow> int"
    using assms by (intro sum.remove) auto
  have rest: "(\<Sum>i\<in>{..<n} - {h}. view_size ((c(h := v)) i)) = (\<Sum>i\<in>{..<n} - {h}. view_size (c i))"
    by (intro sum.cong) auto
  show ?thesis
    unfolding split [of "\<lambda>i. view_size ((c(h := v)) i)"] split [of "\<lambda>i. view_size (c i)"] rest by simp
qed

lemma free_space_grown:
  assumes "grown m h c m'" "heap_inv m" "h < length (memory_objects m)"
  shows "free_space m' = free_space m + view_size (content m h) - view_size (Some c)"
  using assms free_space_content [of m'] free_space_content [OF assms(2)]
    sum_view_upd [OF assms(3), of "content m" "Some c"]
  by (simp add: grown_def)

lemma append_slot_effect:
  assumes "handles_inv m"
  shows "if sizeof_request_reply_mem_obj \<le> free_space m
    then \<exists>m'. append_slot m = Some m' \<and> handles_inv m' \<and> slots m' \<noteq> [] \<and>
      MEMORY_HANDLE_MAX m' = MEMORY_HANDLE_MAX m \<and> ptr (last (slots m')) = NULL \<and>
      (\<forall>h. h \<noteq> MEMORY_HANDLE_ACQUIRABLE_HANDLE_STORAGE m \<longrightarrow> content m' h = content m h) \<and>
      length (slots m') = Suc (length (slots m)) \<and>
      free_space m' = free_space m - sizeof_request_reply_mem_obj
    else append_slot m = None"
proof -
  from handles_inv_storage [OF assms] obtain xs st where live: "live_at m xs st (slots m)"
    and h: "length xs = MEMORY_HANDLE_ACQUIRABLE_HANDLE_STORAGE m"
    and len: "Suc (length xs) = MEMORY_HANDLE_ACQUIRABLE_START m"
    and st: "rq_size st = 0" "rsp_size st = int (length (slots m)) * sizeof_request_reply_mem_obj" .
  note objs = live_at_objs [OF live]
  have inv: "heap_inv m" using live by (rule live_at_inv)
  show ?thesis
  proof (cases "sizeof_request_reply_mem_obj \<le> free_space m")
    case False
    then show ?thesis
      using append_effect [OF live, of sizeof_request_reply_mem_obj] h
      by (simp add: append_slot_def sizeof_request_reply_mem_obj_def)
  next
    case True
    then obtain p m1 where ap: "memory_object_append m (length xs) sizeof_request_reply_mem_obj = Some (p, m1)"
      and "appended m (length xs) st sizeof_request_reply_mem_obj p m1"
      using append_effect [OF live, of sizeof_request_reply_mem_obj]
      by (auto simp: sizeof_request_reply_mem_obj_def)
    then obtain new st1 where new: "length new = nat sizeof_request_reply_mem_obj"
      and g: "grown m (length xs) ([], response_bytes (BASE_MEM_BLOCK m) st @ new) m1"
      and st1: "MEMORY_OBJECT_PTR m1 (length xs) = Some st1" "p = obj_end st1 - sizeof_request_reply_mem_obj"
        "rq_size st1 = rq_size st" "rsp_size st1 = rsp_size st + sizeof_request_reply_mem_obj"
      using st(1) by (auto simp: appended_def request_bytes_def)
    let ?m2 = "m1\<lparr>memory_objects := memory_objects m1 @ [no_object]\<rparr>"
    have g': "heap_inv m1" "content m1 = (content m)(length xs \<mapsto> ([], response_bytes (BASE_MEM_BLOCK m) st @ new))"
      "MEMORY_HANDLE_MAX m1 = MEMORY_HANDLE_MAX m" "length (memory_objects m1) = length (memory_objects m)"
      using g by (auto simp: grown_def)
    note m2 = add_slot [OF g'(1)]
    have le: "MEMORY_HANDLE_MAX m \<le> length (memory_objects m)" using inv by (simp add: heap_inv_def)
    then have sl: "slots ?m2 = slots m1 @ [no_object]" "length (slots m1) = length (slots m)"
      using g' by (simp_all add: slots_def MEMORY_HANDLE_ACQUIRABLE_START_def)
    have "p \<noteq> NULL"
    proof -
      have lx: "length xs < length (memory_objects m1)" and nth: "memory_objects m1 ! length xs = st1"
        using st1(1) by (auto simp: MEMORY_OBJECT_PTR_def split: if_splits)
      have "content m1 (length xs) \<noteq> None" using g'(2) by simp
      then have "ptr (memory_objects m1 ! length xs) \<noteq> NULL" using lx by (auto simp: content_def)
      from live_at_I [OF g'(1) lx this] obtain xs1 ys1 where "live_at m1 xs1 st1 ys1"
        using nth by metis
      from live_at_order [OF this] show ?thesis
        using st1(2,3,4) st live_at_order [OF live] by (simp add: obj_end_def NULL_def)
    qed
    then have run: "append_slot m = Some ?m2"
      using ap h by (simp add: append_slot_def)
    have fs: "free_space m1 = free_space m - sizeof_request_reply_mem_obj"
      using free_space_grown [OF g inv] objs live_at_content [OF live] st(1) new
      by (simp add: sizeof_request_reply_mem_obj_def request_bytes_def)
    have "int (length (response_bytes (BASE_MEM_BLOCK m) st @ new)) = int (Suc (length (slots m))) * sizeof_request_reply_mem_obj"
      using new st by (simp add: response_bytes_def sizeof_request_reply_mem_obj_def)
    then have "handles_inv ?m2"
      using m2 g' h sl by (simp add: handles_inv_def MEMORY_HANDLE_ACQUIRABLE_HANDLE_STORAGE_def)
    moreover have "free_space ?m2 = free_space m - sizeof_request_reply_mem_obj"
      using fs by (simp add: free_space_def)
    ultimately show ?thesis
      using True run m2 g' sl h by simp
  qed
qed

lemma next_free_slot_spec:
  "i \<le> next_free_slot obs i \<and> next_free_slot obs i \<le> i + length obs \<and>
   (\<forall>j < next_free_slot obs i - i. ptr (obs ! j) \<noteq> NULL) \<and>
   (next_free_slot obs i < i + length obs \<longrightarrow> ptr (obs ! (next_free_slot obs i - i)) = NULL)"
proof (induction obs arbitrary: i)
  case (Cons ob obs)
  show ?case
  proof (cases "ptr ob = NULL")
    case False
    with Cons [of "Suc i"] show ?thesis
      by (auto simp: nth_Cons' Suc_diff_le less_Suc_eq_0_disj Suc_le_eq diff_Suc split: nat.splits)
  qed simp
qed simp

lemma slot_content:
  assumes "heap_inv m"
  shows "content m (MEMORY_HANDLE_ACQUIRABLE_START m + j) \<noteq> None \<longleftrightarrow>
    j < length (slots m) \<and> ptr (slots m ! j) \<noteq> NULL"
  using assms by (auto simp: content_def slots_def heap_inv_def MEMORY_HANDLE_ACQUIRABLE_START_def)

definition slot_found :: "mem \<Rightarrow> nat \<Rightarrow> mem \<Rightarrow> bool" where
  "slot_found m k m1 \<longleftrightarrow> handles_inv m1 \<and> MEMORY_HANDLE_MAX m1 = MEMORY_HANDLE_MAX m \<and>
     k < length (slots m1) \<and> ptr (slots m1 ! k) = NULL \<and>
     (\<forall>j<k. content m (MEMORY_HANDLE_ACQUIRABLE_START m + j) \<noteq> None) \<and>
     (\<forall>h. h \<noteq> MEMORY_HANDLE_ACQUIRABLE_HANDLE_STORAGE m \<longrightarrow> content m1 h = content m h) \<and>
     free_space m - sizeof_request_reply_mem_obj \<le> free_space m1"

lemma slot_found_append:
  assumes "handles_inv m" "k = length (slots m)" "\<forall>j<k. ptr (slots m ! j) \<noteq> NULL"
  shows "if sizeof_request_reply_mem_obj \<le> free_space m
    then \<exists>m1. append_slot m = Some m1 \<and> slot_found m k m1 else append_slot m = None"
proof (cases "sizeof_request_reply_mem_obj \<le> free_space m")
  case True
  then obtain m1 where m1: "append_slot m = Some m1" "handles_inv m1" "slots m1 \<noteq> []"
      "MEMORY_HANDLE_MAX m1 = MEMORY_HANDLE_MAX m" "ptr (last (slots m1)) = NULL"
      "\<forall>h. h \<noteq> MEMORY_HANDLE_ACQUIRABLE_HANDLE_STORAGE m \<longrightarrow> content m1 h = content m h"
      "length (slots m1) = Suc (length (slots m))" "free_space m1 = free_space m - sizeof_request_reply_mem_obj"
    using append_slot_effect [OF assms(1)] by auto
  have "slots m1 ! k = last (slots m1)"
    using m1(3,7) assms(2) by (simp add: last_conv_nth)
  moreover have "heap_inv m" using assms(1) by (simp add: handles_inv_def)
  ultimately have "slot_found m k m1"
    using m1 assms slot_content [of m] by (simp add: slot_found_def)
  with m1(1) True show ?thesis by simp
qed (use append_slot_effect [OF assms(1)] in simp)

lemma slot_found_same:
  assumes "handles_inv m" "k < length (slots m)" "ptr (slots m ! k) = NULL" "\<forall>j<k. ptr (slots m ! j) \<noteq> NULL"
  shows "slot_found m k m"
  using assms slot_content [of m]
  by (simp add: slot_found_def handles_inv_def sizeof_request_reply_mem_obj_def)

lemma acquire_slot_effect:
  assumes inv: "handles_inv m"
  shows "(\<exists>k m1. acquire_slot m = Some (k, m1) \<and> slot_found m k m1) \<or>
    (acquire_slot m = None \<and> free_space m < sizeof_request_reply_mem_obj \<and>
     (\<forall>j < length (slots m). ptr (slots m ! j) \<noteq> NULL))"
proof -
  from handles_inv_storage [OF inv] obtain xs st where live: "live_at m xs st (slots m)"
    and h: "length xs = MEMORY_HANDLE_ACQUIRABLE_HANDLE_STORAGE m"
    and len: "Suc (length xs) = MEMORY_HANDLE_ACQUIRABLE_START m"
    and st: "rq_size st = 0" "rsp_size st = int (length (slots m)) * sizeof_request_reply_mem_obj" .
  define n where "n = length (slots m)"
  have sz: "to_u16 (rq_size st + rsp_size st) = int n * sizeof_request_reply_mem_obj"
    using st live_at_order [OF live] by (simp add: n_def)
  have obj: "MEMORY_OBJECT_PTR m (MEMORY_HANDLE_ACQUIRABLE_HANDLE_STORAGE m) = Some st"
    using live_at_object [OF live] h by simp
  have hinv: "heap_inv m" using live by (rule live_at_inv)
  show ?thesis
  proof (cases n)
    case 0
    then have none: "int n * sizeof_request_reply_mem_obj = 0" by simp
    have "acquire_slot m = do { m \<leftarrow> append_slot m; Some (0, m) }"
      unfolding acquire_slot_def using obj sz none by simp
    then show ?thesis
      using slot_found_append [OF inv, of 0] 0 by (cases "sizeof_request_reply_mem_obj \<le> free_space m") (auto simp: n_def)
  next
    case (Suc n')
    obtain s0 rest where sl: "slots m = s0 # rest" using Suc by (cases "slots m") (auto simp: n_def)
    have first: "MEMORY_OBJECT_PTR m (MEMORY_HANDLE_ACQUIRABLE_START m) = Some s0"
      using MEMORY_OBJECT_PTR_next [of m xs st s0 rest] live_at_objs [OF live] sl len by simp
    have nz: "int n * sizeof_request_reply_mem_obj \<noteq> 0" using Suc by (simp add: sizeof_request_reply_mem_obj_def)
    show ?thesis
    proof (cases "ptr s0 = NULL")
      case True
      then have "acquire_slot m = Some (0, m)"
        unfolding acquire_slot_def using obj sz nz first by simp
      moreover have "slot_found m 0 m" using slot_found_same [OF inv, of 0] sl True by simp
      ultimately show ?thesis by blast
    next
      case False
      define k where "k = next_free_slot rest 1"
      note k = next_free_slot_spec [of 1 rest, folded k_def]
      have k_Suc: "next_free_slot rest (Suc 0) = k" by (simp add: k_def)
      have lens: "n = Suc (length rest)" by (simp add: n_def sl)
      have used: "\<forall>j<k. ptr (slots m ! j) \<noteq> NULL"
        using k False by (auto simp: sl nth_Cons' less_diff_conv)
      show ?thesis
      proof (cases "k < n")
        case True
        then have "acquire_slot m = Some (k, m)"
          unfolding acquire_slot_def using obj sz nz first False sl
          by (simp add: Let_def sizeof_request_reply_mem_obj_def k_Suc)
        moreover have "ptr (slots m ! k) = NULL"
          using k True lens by (auto simp: sl nth_Cons')
        ultimately show ?thesis using slot_found_same [OF inv, of k] True used by (auto simp: n_def)
      next
        case full: False
        then have kn: "k = n" using k lens by simp
        have run: "acquire_slot m = do { m \<leftarrow> append_slot m; Some (k, m) }"
          unfolding acquire_slot_def using obj sz nz first False sl kn
          by (simp add: Let_def k_Suc)
        show ?thesis
          using slot_found_append [OF inv _ used] kn run used
          by (cases "sizeof_request_reply_mem_obj \<le> free_space m") (auto simp: n_def)
      qed
    qed
  qed
qed

text \<open>
  \<open>memory_object_acquire\<close> never returns an invalid handle or a damaged heap: when it returns, the
  handle is the lowest free one and empty, and nothing else changed but the storage.
\<close>

definition acquired :: "mem \<Rightarrow> nat \<Rightarrow> mem \<Rightarrow> bool" where
  "acquired m h m' \<longleftrightarrow> handles_inv m' \<and> MEMORY_HANDLE_MAX m' = MEMORY_HANDLE_MAX m \<and>
     MEMORY_HANDLE_ACQUIRABLE_START m \<le> h \<and> content m h = None \<and> content m' h = Some ([], []) \<and>
     (\<forall>h'. MEMORY_HANDLE_ACQUIRABLE_START m \<le> h' \<and> h' < h \<longrightarrow> content m h' \<noteq> None) \<and>
     (\<forall>h'. h' \<noteq> h \<and> h' \<noteq> MEMORY_HANDLE_ACQUIRABLE_HANDLE_STORAGE m \<longrightarrow> content m' h' = content m h') \<and>
     free_space m - sizeof_request_reply_mem_obj - 1 \<le> free_space m'"

lemma slot_previous:
  assumes "slot_found m k m1"
  obtains xs prev ys where "live_at m1 xs prev (no_object # ys)"
    "Suc (length xs) = MEMORY_HANDLE_ACQUIRABLE_START m1 + k"
proof -
  have inv: "handles_inv m1" and k: "k < length (slots m1)" "ptr (slots m1 ! k) = NULL"
    using assms by (auto simp: slot_found_def)
  from handles_inv_storage [OF inv] obtain xs st where live: "live_at m1 xs st (slots m1)"
    and len: "Suc (length xs) = MEMORY_HANDLE_ACQUIRABLE_START m1" by blast
  have hinv: "heap_inv m1" and objs: "memory_objects m1 = xs @ st # slots m1"
    using live by (auto simp: live_at_def)
  have "slots m1 ! k = no_object"
    using k hinv objs by (intro null_object_eq) (auto simp: heap_inv_def sizes_ok_def)
  then have split: "slots m1 = take k (slots m1) @ no_object # drop (Suc k) (slots m1)"
    using id_take_nth_drop [OF k(1)] by simp
  show thesis
  proof (cases k)
    case 0
    then show thesis using that [of xs st "drop (Suc k) (slots m1)"] live len split by simp
  next
    case (Suc k')
    have used: "ptr (slots m1 ! k') \<noteq> NULL"
    proof -
      have "MEMORY_HANDLE_ACQUIRABLE_START m + k' \<noteq> MEMORY_HANDLE_ACQUIRABLE_HANDLE_STORAGE m"
        "MEMORY_HANDLE_ACQUIRABLE_START m1 = MEMORY_HANDLE_ACQUIRABLE_START m"
        using assms len by (auto simp: slot_found_def MEMORY_HANDLE_ACQUIRABLE_START_def
            MEMORY_HANDLE_ACQUIRABLE_HANDLE_STORAGE_def)
      then have "content m1 (MEMORY_HANDLE_ACQUIRABLE_START m1 + k') \<noteq> None"
        using assms Suc by (simp add: slot_found_def)
      with slot_content [OF hinv] show ?thesis by blast
    qed
    have "take k (slots m1) = take k' (slots m1) @ [slots m1 ! k']"
      using Suc k(1) by (simp add: take_Suc_conv_app_nth)
    then have "memory_objects m1 = (xs @ st # take k' (slots m1)) @ slots m1 ! k' # no_object # drop (Suc k) (slots m1)"
      using objs split by simp
    then show thesis
      using that [of "xs @ st # take k' (slots m1)" "slots m1 ! k'" "drop (Suc k) (slots m1)"] hinv used len Suc k(1)
      by (simp add: live_at_def)
  qed
qed

lemma placed_acquired:
  assumes "slot_found m k m1" "placed m1 (MEMORY_HANDLE_ACQUIRABLE_START m1 + k) m'"
  shows "acquired m (MEMORY_HANDLE_ACQUIRABLE_START m + k) m'"
proof -
  have start: "MEMORY_HANDLE_ACQUIRABLE_START m' = MEMORY_HANDLE_ACQUIRABLE_START m"
    "MEMORY_HANDLE_ACQUIRABLE_START m1 = MEMORY_HANDLE_ACQUIRABLE_START m"
    "MEMORY_HANDLE_ACQUIRABLE_HANDLE_STORAGE m' = MEMORY_HANDLE_ACQUIRABLE_HANDLE_STORAGE m"
    "MEMORY_HANDLE_ACQUIRABLE_HANDLE_STORAGE m1 = MEMORY_HANDLE_ACQUIRABLE_HANDLE_STORAGE m"
    using assms by (auto simp: slot_found_def placed_def MEMORY_HANDLE_ACQUIRABLE_START_def
        MEMORY_HANDLE_ACQUIRABLE_HANDLE_STORAGE_def)
  have inv1: "handles_inv m1" and hinv1: "heap_inv m1" using assms(1) by (auto simp: slot_found_def handles_inv_def)
  have ne: "MEMORY_HANDLE_ACQUIRABLE_START m + k \<noteq> MEMORY_HANDLE_ACQUIRABLE_HANDLE_STORAGE m"
    using hinv1 start by (auto simp: heap_inv_def MEMORY_HANDLE_ACQUIRABLE_START_def
        MEMORY_HANDLE_ACQUIRABLE_HANDLE_STORAGE_def)
  have "length (slots m') = length (slots m1)"
    using assms(2) start by (simp add: slots_def placed_def)
  then have "handles_inv m'"
    using inv1 assms(2) ne start by (simp add: handles_inv_def placed_def)
  moreover have "content m (MEMORY_HANDLE_ACQUIRABLE_START m + k) = None"
  proof -
    have "content m1 (MEMORY_HANDLE_ACQUIRABLE_START m1 + k) = None"
      using slot_content [OF hinv1, of k] assms(1) unfolding slot_found_def by blast
    then show ?thesis using assms(1) ne start by (simp add: slot_found_def)
  qed
  moreover have "content m h' \<noteq> None"
    if "MEMORY_HANDLE_ACQUIRABLE_START m \<le> h'" "h' < MEMORY_HANDLE_ACQUIRABLE_START m + k" for h'
  proof -
    have "h' - MEMORY_HANDLE_ACQUIRABLE_START m < k"
      "MEMORY_HANDLE_ACQUIRABLE_START m + (h' - MEMORY_HANDLE_ACQUIRABLE_START m) = h'"
      using that by auto
    with assms(1) show ?thesis unfolding slot_found_def by metis
  qed
  moreover have "free_space m' = free_space m1 - 1"
  proof -
    have "content m1 (MEMORY_HANDLE_ACQUIRABLE_START m1 + k) = None"
      using slot_content [OF hinv1, of k] assms(1) unfolding slot_found_def by blast
    moreover have "MEMORY_HANDLE_ACQUIRABLE_START m1 + k < length (memory_objects m1)"
      using assms(1) by (auto simp: slot_found_def slots_def)
    ultimately show ?thesis
      using free_space_grown [of m1 "MEMORY_HANDLE_ACQUIRABLE_START m1 + k" "([], [])" m'] assms(2) hinv1
      by (simp add: placed_def grown_def)
  qed
  ultimately show ?thesis
    using assms start by (simp add: acquired_def slot_found_def placed_def)
qed

lemma acquire_effect:
  assumes inv: "handles_inv m"
  shows "(\<exists>h m'. memory_object_acquire m = Some (Some h, m') \<and> acquired m h m') \<or>
    (memory_object_acquire m = None \<and>
      (free_space m \<le> sizeof_request_reply_mem_obj \<or> content m (MEMORY_HANDLE_ACQUIRABLE_START m) = None))"
  using acquire_slot_effect [OF inv]
proof (elim disjE exE conjE)
  fix k m1 assume slot: "acquire_slot m = Some (k, m1)" and found: "slot_found m k m1"
  from slot_previous [OF found] obtain xs prev ys where live: "live_at m1 xs prev (no_object # ys)"
    and h: "Suc (length xs) = MEMORY_HANDLE_ACQUIRABLE_START m1 + k" .
  note ord = live_at_order [OF live]
  have run: "memory_object_acquire m = place_slot m1 k"
    using slot by (simp add: memory_object_acquire_def)
  have finish: ?thesis if "\<exists>m'. place_slot m1 k = Some (Some (Suc (length xs)), m') \<and> placed m1 (Suc (length xs)) m'"
    using that placed_acquired [OF found] h run found
    by (auto simp: slot_found_def MEMORY_HANDLE_ACQUIRABLE_START_def)
  show ?thesis
  proof (cases "right_start ys BASE_MEM_BLOCK_SIZE - obj_end prev = 1")
    case False
    then show ?thesis using ord by (intro finish place_slot_gap [OF live h]) (simp add: obj_end_def)
  next
    case tight: True
    show ?thesis
    proof (cases "ptr prev - left_end 0 xs = 1")
      case True
      then show ?thesis
        using place_slot_append [OF live h tight True] finish run found
        by (cases "1 \<le> free_space m1") (auto simp: slot_found_def sizeof_request_reply_mem_obj_def)
    next
      case room: False
      show ?thesis
      proof (cases "length xs = MEMORY_HANDLE_ACQUIRABLE_HANDLE_STORAGE m1")
        case False
        then show ?thesis using tight room ord by (intro finish place_slot_move [OF live h]) auto
      next
        case True
        then have "k = 0"
          using h live_at_inv [OF live] by (auto simp: heap_inv_def MEMORY_HANDLE_ACQUIRABLE_START_def
              MEMORY_HANDLE_ACQUIRABLE_HANDLE_STORAGE_def)
        have sizes: "size_fwd (BASE_MEM_BLOCK m1) (ptr prev + rq_size prev + rsp_size prev) = Some 1"
          using size_at_right [OF live] tight by simp
        have "place_slot m1 k = None"
          unfolding place_slot_def Let_def h [symmetric]
          using live_at_object [OF live] MEMORY_OBJECT_PTR_next [OF live_at_objs [OF live]] sizes
            size_at_left [OF live] room ord True
          by (simp add: assert_def)
        moreover have "content m (MEMORY_HANDLE_ACQUIRABLE_START m) = None"
        proof -
          have "heap_inv m1" "ptr (slots m1 ! 0) = NULL" "MEMORY_HANDLE_MAX m1 = MEMORY_HANDLE_MAX m"
            using found \<open>k = 0\<close> by (auto simp: slot_found_def handles_inv_def)
          then have "content m1 (MEMORY_HANDLE_ACQUIRABLE_START m) = None"
            using slot_content [of m1 0] unfolding MEMORY_HANDLE_ACQUIRABLE_START_def by (metis add_0_right)
          then show ?thesis
            using found \<open>heap_inv m1\<close> by (auto simp: slot_found_def heap_inv_def MEMORY_HANDLE_ACQUIRABLE_START_def
                MEMORY_HANDLE_ACQUIRABLE_HANDLE_STORAGE_def)
        qed
        ultimately show ?thesis using run by simp
      qed
    qed
  qed
qed (auto simp: memory_object_acquire_def)

lemma acquire_available:
  assumes "handles_inv m" "content m (MEMORY_HANDLE_ACQUIRABLE_START m) \<noteq> None"
    "sizeof_request_reply_mem_obj + 1 + n \<le> free_space m" "0 \<le> n"
  obtains h m' where "memory_object_acquire m = Some (Some h, m')" "acquired m h m'" "n \<le> free_space m'"
  using acquire_effect [OF assms(1)] assms(2-4) by (force simp: acquired_def)

section \<open>Correctness of release\<close>

lemma first_of_trailing_le: "first_of_trailing s k \<le> k"
  by (induction k) auto

lemma first_of_trailing_null:
  "first_of_trailing s k \<le> j \<Longrightarrow> j < k \<Longrightarrow> ptr (s ! j) = NULL"
  by (induction k) (auto simp: less_Suc_eq split: if_splits)

definition released :: "mem \<Rightarrow> nat \<Rightarrow> mem \<Rightarrow> bool" where
  "released m h m' \<longleftrightarrow> handles_inv m' \<and> MEMORY_HANDLE_MAX m' = MEMORY_HANDLE_MAX m \<and> content m' h = None \<and>
     (\<forall>h'. h' \<noteq> h \<and> h' \<noteq> MEMORY_HANDLE_ACQUIRABLE_HANDLE_STORAGE m \<longrightarrow> content m' h' = content m h') \<and>
     free_space m \<le> free_space m'"

text \<open>Parts 1 and 2: the object is merged with the gaps around it.\<close>

lemma merge_object:
  assumes inv: "handles_inv m" and live: "live_at m xs ob ys" and h: "MEMORY_HANDLE_ACQUIRABLE_START m \<le> length xs"
  defines "m1 \<equiv> m\<lparr>BASE_MEM_BLOCK := put_gap (BASE_MEM_BLOCK m) (left_end 0 xs) (right_start ys BASE_MEM_BLOCK_SIZE),
      memory_objects := xs @ no_object # ys\<rparr>"
  shows "released m (length xs) m1" "length (slots m1) = length (slots m)"
proof -
  note ord = live_at_order [OF live] and objs = live_at_objs [OF live]
  let ?B = "put_gap (BASE_MEM_BLOCK m) (left_end 0 xs) (right_start ys BASE_MEM_BLOCK_SIZE)"
  have "local_change m xs ob ys no_object ?B"
    using live ord by (auto simp: local_change_def live_at_def put_gap_other)
  moreover have "gap ?B (left_end 0 xs) (right_start ys BASE_MEM_BLOCK_SIZE)"
    using ord by (intro gap_put_gap) auto
  ultimately have m1: "heap_inv m1 \<and> content m1 = (content m)(length xs := None)"
    unfolding m1_def using h by (intro drop_object) (auto simp: MEMORY_HANDLE_ACQUIRABLE_START_def)
  show len: "length (slots m1) = length (slots m)"
    using objs by (simp add: m1_def slots_def MEMORY_HANDLE_ACQUIRABLE_START_def)
  have "MEMORY_HANDLE_ACQUIRABLE_HANDLE_STORAGE m \<noteq> length xs"
    using h live_at_inv [OF live] by (auto simp: heap_inv_def MEMORY_HANDLE_ACQUIRABLE_START_def
        MEMORY_HANDLE_ACQUIRABLE_HANDLE_STORAGE_def)
  then have "handles_inv m1"
    using inv m1 len by (simp add: handles_inv_def) (simp add: m1_def MEMORY_HANDLE_ACQUIRABLE_HANDLE_STORAGE_def)
  moreover have "free_space m \<le> free_space m1" using objs ord by (simp add: free_space_def m1_def no_object_def obj_end_def obj_size_def)
  ultimately show "released m (length xs) m1"
    using m1 by (simp add: released_def) (simp add: m1_def)
qed

text \<open>Part 3: empty slots at the end of the storage are given back.\<close>

lemma drop_trailing_slots:
  assumes inv: "handles_inv m" and n: "length (slots m) = n" and "k \<le> n"
    and null: "\<forall>j. k \<le> j \<and> j < n \<longrightarrow> ptr (slots m ! j) = NULL"
    and live: "live_at m xs st (slots m)" and h: "length xs = MEMORY_HANDLE_ACQUIRABLE_HANDLE_STORAGE m"
    and st: "rq_size st = 0" "rsp_size st = int n * sizeof_request_reply_mem_obj"
  defines "d \<equiv> int n * sizeof_request_reply_mem_obj - int k * sizeof_request_reply_mem_obj"
  shows "\<exists>B m'. memory_block_trim_at_right (BASE_MEM_BLOCK m) (ptr st) (int n * sizeof_request_reply_mem_obj) d = Some B \<and>
    m' = m\<lparr>BASE_MEM_BLOCK := B, memory_objects := take (MEMORY_HANDLE_ACQUIRABLE_START m + k)
           ((memory_objects m)[length xs := st\<lparr>rsp_size := rsp_size st - d\<rparr>])\<rparr> \<and>
    handles_inv m' \<and>
    (\<forall>h'. h' \<noteq> MEMORY_HANDLE_ACQUIRABLE_HANDLE_STORAGE m \<longrightarrow> content m' h' = content m h') \<and> free_space m \<le> free_space m'"
proof -
  let ?st = "st\<lparr>rsp_size := rsp_size st - d\<rparr>" and ?S = sizeof_request_reply_mem_obj
  note objs = live_at_objs [OF live] and ord = live_at_order [OF live]
  have d: "0 \<le> d" "d \<le> int n * ?S" "rsp_size st - d = int k * ?S"
    using assms(3) st(2) by (auto simp: d_def sizeof_request_reply_mem_obj_def)
  have tot: "rq_size st + rsp_size st = int n * ?S" using st by simp
  have "\<exists>B. memory_block_trim_at_right (BASE_MEM_BLOCK m) (ptr st) (rq_size st + rsp_size st) d = Some B \<and>
      put_at m xs ?st (slots m) (request_bytes (BASE_MEM_BLOCK m) ?st, response_bytes (BASE_MEM_BLOCK m) ?st)
        (m\<lparr>BASE_MEM_BLOCK := B, memory_objects := xs @ ?st # slots m\<rparr>)"
    by (rule free_right_part [OF live]) (use d st in \<open>auto simp: obj_end_def\<close>)
  then obtain B where B: "memory_block_trim_at_right (BASE_MEM_BLOCK m) (ptr st) (rq_size st + rsp_size st) d = Some B"
    and put: "put_at m xs ?st (slots m) (request_bytes (BASE_MEM_BLOCK m) ?st, response_bytes (BASE_MEM_BLOCK m) ?st)
      (m\<lparr>BASE_MEM_BLOCK := B, memory_objects := xs @ ?st # slots m\<rparr>)" by blast
  let ?m1 = "m\<lparr>BASE_MEM_BLOCK := B, memory_objects := xs @ ?st # slots m\<rparr>"
  let ?obs = "xs @ ?st # take k (slots m)"
  have start: "Suc (length xs) = MEMORY_HANDLE_ACQUIRABLE_START m"
    using h live_at_inv [OF live] by (simp add: heap_inv_def MEMORY_HANDLE_ACQUIRABLE_START_def
        MEMORY_HANDLE_ACQUIRABLE_HANDLE_STORAGE_def)
  have inv1: "heap_inv ?m1" and c1: "content ?m1 = (content m)(length xs \<mapsto>
      (request_bytes (BASE_MEM_BLOCK m) ?st, response_bytes (BASE_MEM_BLOCK m) ?st))"
    using put by (simp_all add: put_at_def)
  have "\<forall>x \<in> set (drop k (slots m)). ptr x = NULL"
    using null n by (auto simp: in_set_conv_nth)
  with drop_slots [of ?m1 ?obs "drop k (slots m)"] inv1 start
  have m2: "heap_inv (m\<lparr>BASE_MEM_BLOCK := B, memory_objects := ?obs\<rparr>)"
    "content (m\<lparr>BASE_MEM_BLOCK := B, memory_objects := ?obs\<rparr>) = content ?m1"
    by (simp_all add: MEMORY_HANDLE_ACQUIRABLE_START_def)
  have obs: "take (MEMORY_HANDLE_ACQUIRABLE_START m + k) ((memory_objects m)[length xs := ?st]) = ?obs"
    using objs by (simp flip: start)
  have sl: "slots (m\<lparr>BASE_MEM_BLOCK := B, memory_objects := ?obs\<rparr>) = take k (slots m)"
    unfolding slots_def [of "m\<lparr>BASE_MEM_BLOCK := B, memory_objects := ?obs\<rparr>"]
    using start by (simp add: MEMORY_HANDLE_ACQUIRABLE_START_def flip: start [unfolded MEMORY_HANDLE_ACQUIRABLE_START_def])
  have "handles_inv (m\<lparr>BASE_MEM_BLOCK := B, memory_objects := ?obs\<rparr>)"
    unfolding handles_inv_def sl using m2 c1 h st d n assms(3)
    by (simp add: MEMORY_HANDLE_ACQUIRABLE_HANDLE_STORAGE_def request_bytes_def response_bytes_def
        sizeof_request_reply_mem_obj_def)
  moreover have "free_space m \<le> free_space (m\<lparr>BASE_MEM_BLOCK := B, memory_objects := ?obs\<rparr>)"
  proof -
    have "packed (slots m) = packed (take k (slots m)) + packed (drop k (slots m))" by (simp flip: packed_simps(3))
    moreover have "packed (drop k (slots m)) = 0"
      by (rule packed_null) fact
    ultimately show ?thesis using objs d by (simp add: free_space_def obj_size_def)
  qed
  ultimately show ?thesis using B m2 c1 h unfolding obs tot by auto
qed

lemma release_effect:
  assumes inv: "handles_inv m" and h: "MEMORY_HANDLE_ACQUIRABLE_START m \<le> h" and used: "content m h \<noteq> None"
  shows "\<exists>m'. memory_object_release m h = Some m' \<and> released m h m'"
proof -
  have hinv: "heap_inv m" using inv by (simp add: handles_inv_def)
  have "h < length (memory_objects m)" "ptr (memory_objects m ! h) \<noteq> NULL"
    using used by (auto simp: content_def split: if_splits)
  from live_at_I [OF hinv this] obtain xs ob ys where live: "live_at m xs ob ys" and hx: "h = length xs" by metis
  from handles_inv_storage [OF inv] obtain xs0 st where live0: "live_at m xs0 st (slots m)"
    and h0: "length xs0 = MEMORY_HANDLE_ACQUIRABLE_HANDLE_STORAGE m"
    and len0: "Suc (length xs0) = MEMORY_HANDLE_ACQUIRABLE_START m"
    and st: "rq_size st = 0" "rsp_size st = int (length (slots m)) * sizeof_request_reply_mem_obj" .
  define n where "n = length (slots m)"
  define i where "i = h - MEMORY_HANDLE_ACQUIRABLE_START m"
  define m1 where "m1 = m\<lparr>BASE_MEM_BLOCK := put_gap (BASE_MEM_BLOCK m) (left_end 0 xs) (right_start ys BASE_MEM_BLOCK_SIZE),
      memory_objects := xs @ no_object # ys\<rparr>"
  note ord = live_at_order [OF live] and objs = live_at_objs [OF live] and ord0 = live_at_order [OF live0]
  have rel1: "released m h m1" and n1: "length (slots m1) = n"
    using merge_object [OF inv live] h by (simp_all add: m1_def hx n_def)
  have i: "i < n" using h hx objs by (simp add: i_def n_def slots_def)
  have sz: "to_u16 (rq_size st + rsp_size st) = int n * sizeof_request_reply_mem_obj"
    using st ord0 by (simp add: n_def)
  have st_obj: "MEMORY_OBJECT_PTR m (MEMORY_HANDLE_ACQUIRABLE_HANDLE_STORAGE m) = Some st"
    using live_at_object [OF live0] h0 by simp
  have obj: "MEMORY_OBJECT_PTR m h = Some ob" using live_at_object [OF live] hx by simp
  have valid: "ASSERT_MEMORY_HANDLE_VALID m h = Some ()"
    using obj h live_at_ptr [OF live] ord by (simp add: ASSERT_MEMORY_HANDLE_VALID_def MEMORY_HANDLE_ACQUIRABLE_START_def)
  have g: "size_fwd (BASE_MEM_BLOCK m) (left_end 0 xs) = Some (ptr ob - left_end 0 xs)"
    "size_bwd (BASE_MEM_BLOCK m) (right_start ys BASE_MEM_BLOCK_SIZE - 1) = Some (right_start ys BASE_MEM_BLOCK_SIZE - obj_end ob)"
    using live_at_gaps [OF live] ord by (simp_all add: size_fwd_def size_bwd_def obj_end_def)
  have upd: "(memory_objects m)[h := no_object] = xs @ no_object # ys" using objs hx by simp
  have no: "ob\<lparr>ptr := NULL, rq_size := 0, rsp_size := 0\<rparr> = no_object" by (cases ob) (simp add: no_object_def)
  have fits: "int (i + 1) * sizeof_request_reply_mem_obj \<le> int n * sizeof_request_reply_mem_obj"
    using i by (simp add: sizeof_request_reply_mem_obj_def)
  have last: "(int (i + 1) * sizeof_request_reply_mem_obj = int n * sizeof_request_reply_mem_obj) = (i + 1 = n)"
    unfolding sizeof_request_reply_mem_obj_def by presburger
  have nz: "sizeof_request_reply_mem_obj \<noteq> 0" by (simp add: sizeof_request_reply_mem_obj_def)
  define k where "k = first_of_trailing (slots m1) i"
  define d where "d = int n * sizeof_request_reply_mem_obj - int k * sizeof_request_reply_mem_obj"
  have run: "memory_object_release m h = (if i + 1 = n then do {
       B \<leftarrow> memory_block_trim_at_right (BASE_MEM_BLOCK m1) (ptr st) (int n * sizeof_request_reply_mem_obj) (to_u16 d);
       Some (m1\<lparr>BASE_MEM_BLOCK := B, memory_objects := take (MEMORY_HANDLE_ACQUIRABLE_START m + k)
         ((memory_objects m1)[MEMORY_HANDLE_ACQUIRABLE_HANDLE_STORAGE m :=
            st\<lparr>rsp_size := to_u16 (rsp_size st - to_u16 d)\<rparr>])\<rparr>)
     } else Some m1)"
    unfolding memory_object_release_def Let_def i_def [symmetric]
    using valid h st_obj sz obj live_at_ptr [OF live] size_at_right [OF live] size_at_left [OF live] g ord fits nz
    by (simp add: no upd last write_gap obj_end_def m1_def k_def d_def MEMORY_HANDLE_ACQUIRABLE_START_def
        MEMORY_HANDLE_ACQUIRABLE_HANDLE_STORAGE_def slots_def)
  show ?thesis
  proof (cases "i + 1 = n")
    case False
    then show ?thesis using run rel1 by simp
  next
    case True
    have inv1: "handles_inv m1" and hinv1: "heap_inv m1" and max1: "MEMORY_HANDLE_MAX m1 = MEMORY_HANDLE_MAX m"
      using rel1 by (auto simp: released_def handles_inv_def)
    have "memory_objects m1 = (memory_objects m)[h := no_object]" using upd by (simp add: m1_def)
    also have "\<dots> = xs0 @ st # (slots m)[i := no_object]"
    proof -
      have "h - length xs0 = Suc i" using h by (simp add: i_def flip: len0)
      then show ?thesis using live_at_objs [OF live0] h by (simp add: list_update_append flip: len0)
    qed
    finally have objs1: "memory_objects m1 = xs0 @ st # (slots m)[i := no_object]" .
    then have sl1: "slots m1 = (slots m)[i := no_object]"
      using len0 max1 unfolding slots_def [of m1]
      by (simp add: MEMORY_HANDLE_ACQUIRABLE_START_def flip: len0 [unfolded MEMORY_HANDLE_ACQUIRABLE_START_def])
    have live1: "live_at m1 xs0 st (slots m1)"
      using objs1 sl1 hinv1 live_at_ptr [OF live0] by (simp add: live_at_def)
    have h1: "length xs0 = MEMORY_HANDLE_ACQUIRABLE_HANDLE_STORAGE m1"
      "MEMORY_HANDLE_ACQUIRABLE_HANDLE_STORAGE m1 = MEMORY_HANDLE_ACQUIRABLE_HANDLE_STORAGE m"
      "MEMORY_HANDLE_ACQUIRABLE_START m1 = MEMORY_HANDLE_ACQUIRABLE_START m"
      using h0 max1 by (simp_all add: MEMORY_HANDLE_ACQUIRABLE_HANDLE_STORAGE_def MEMORY_HANDLE_ACQUIRABLE_START_def)
    have k: "k \<le> i" by (simp add: k_def first_of_trailing_le)
    then have "k \<le> n" using i by simp
    have null: "\<forall>j. k \<le> j \<and> j < n \<longrightarrow> ptr (slots m1 ! j) = NULL"
      using first_of_trailing_null [of "slots m1" i] True i sl1 n1
      by (auto simp: k_def less_Suc_eq nth_list_update)
    have bounds: "0 \<le> d" "d \<le> int n * sizeof_request_reply_mem_obj" "int n * sizeof_request_reply_mem_obj < 65536"
      using \<open>k \<le> n\<close> st ord0 by (auto simp: d_def n_def sizeof_request_reply_mem_obj_def)
    have sizes: "to_u16 d = d" "to_u16 (rsp_size st - d) = rsp_size st - d"
      using bounds st by (auto simp: n_def)
    from drop_trailing_slots [OF inv1 n1 \<open>k \<le> n\<close> null live1 h1(1) st(1) st(2) [folded n_def], folded d_def]
    obtain B m' where "memory_block_trim_at_right (BASE_MEM_BLOCK m1) (ptr st) (int n * sizeof_request_reply_mem_obj) d = Some B"
      and m': "m' = m1\<lparr>BASE_MEM_BLOCK := B, memory_objects := take (MEMORY_HANDLE_ACQUIRABLE_START m1 + k)
           ((memory_objects m1)[length xs0 := st\<lparr>rsp_size := rsp_size st - d\<rparr>])\<rparr>" "handles_inv m'"
        "\<forall>h'. h' \<noteq> MEMORY_HANDLE_ACQUIRABLE_HANDLE_STORAGE m1 \<longrightarrow> content m' h' = content m1 h'" "free_space m1 \<le> free_space m'"
      by blast
    then have "memory_object_release m h = Some m'"
      using run True h0 h1 sizes by simp
    moreover have "released m h m'"
      using m' rel1 h1 h len0 h0 by (simp add: released_def)
    ultimately show ?thesis by blast
  qed
qed

end
