(* ===== verification/Heap_Check.thy ===== *)
theory Heap_Check
  imports Heap_Handles
begin

text \<open>
  The checks and neighbour functions of \<open>zepto_mem_mngmt.c\<close>: the sanity check the debug build
  runs around every operation, the statistics, the next and previous block, and the state that
  initialisation sets up. The invariant of the previous theories implies that every assertion of
  the sanity check holds.
\<close>

section \<open>Neighbours\<close>

text \<open>The \<open>do ... while\<close> loop reads the first slot even when the storage is empty.\<close>

fun first_used_slot :: "mem_obj list \<Rightarrow> nat \<Rightarrow> nat option" where
  "first_used_slot [] inner = None"
| "first_used_slot (ob # obs) inner =
     (if ptr ob \<noteq> NULL then Some inner else first_used_slot obs (Suc inner))"

definition zepto_mem_man_get_next_block :: "mem \<Rightarrow> nat \<Rightarrow> nat option option" where
  "zepto_mem_man_get_next_block m mem_h =
     (if mem_h + 1 < MEMORY_HANDLE_MAX m then Some (Some (mem_h + 1))
      else do {
        MEMORY_OBJECT_PTR m (MEMORY_HANDLE_ACQUIRABLE_START m);
        Some (map_option (\<lambda>inner. MEMORY_HANDLE_ACQUIRABLE_START m + inner) (first_used_slot (slots m) 0))
      })"

fun last_used_below :: "mem_obj list \<Rightarrow> nat \<Rightarrow> nat option" where
  "last_used_below s 0 = None"
| "last_used_below s (Suc inner) =
     (if ptr (s ! inner) \<noteq> NULL then Some inner else last_used_below s inner)"

definition zepto_mem_man_get_prev_block :: "mem \<Rightarrow> nat option \<Rightarrow> nat option" where
  "zepto_mem_man_get_prev_block m mem_h = (case mem_h of None \<Rightarrow> None | Some h \<Rightarrow>
     if h = 0 then None
     else if h < MEMORY_HANDLE_MAX m then Some (h - 1)
     else
       let inner = h - MEMORY_HANDLE_ACQUIRABLE_START m in
       if inner = 0 then Some (MEMORY_HANDLE_MAX m - 1)
       else if length (slots m) \<le> inner then None
       else case last_used_below (slots m) inner of
         Some i \<Rightarrow> Some (MEMORY_HANDLE_ACQUIRABLE_START m + i)
       | None \<Rightarrow> Some (MEMORY_HANDLE_MAX m - 1))"

section \<open>Statistics and sanity check\<close>

fun total_used :: "mem_obj list \<Rightarrow> int \<Rightarrow> int" where
  "total_used [] t = t"
| "total_used (ob # obs) t =
     total_used obs (if ptr ob \<noteq> NULL then to_u16 (t + rq_size ob + rsp_size ob) else t)"

definition zepto_mem_man_update_ever_reached :: "mem \<Rightarrow> int \<Rightarrow> int option" where
  "zepto_mem_man_update_ever_reached m ever_reached = do {
     let total_mem = fold (\<lambda>ob t. to_u16 (t + rq_size ob + rsp_size ob))
       (take (MEMORY_HANDLE_MAX m) (memory_objects m)) 0;
     storage \<leftarrow> MEMORY_OBJECT_PTR m (MEMORY_HANDLE_ACQUIRABLE_HANDLE_STORAGE m);
     assert (rq_size storage = 0);
     let total_mem = total_used (slots m) total_mem;
     assert (int (length (slots m)) * sizeof_request_reply_mem_obj = rsp_size storage);
     Some (if ever_reached < total_mem then total_mem else ever_reached)
   }"

text \<open>\<open>(first, first_ptr, last_h, last_ptr)\<close>, updated by the loops over all objects.\<close>

type_synonym extremes = "nat \<times> int \<times> nat \<times> int"

fun find_extremes :: "mem_obj list \<Rightarrow> nat \<Rightarrow> extremes \<Rightarrow> extremes" where
  "find_extremes [] i st = st"
| "find_extremes (ob # obs) i (first, first_ptr, last_h, last_ptr) =
     find_extremes obs (Suc i)
       (if ptr ob \<noteq> NULL then
          (if ptr ob \<le> first_ptr then i else first, if ptr ob \<le> first_ptr then ptr ob else first_ptr,
           if last_ptr \<le> ptr ob then i else last_h, if last_ptr \<le> ptr ob then ptr ob else last_ptr)
        else (first, first_ptr, last_h, last_ptr))"

definition check_object :: "bytes \<Rightarrow> mem_obj \<Rightarrow> int option" where
  "check_object B obj = do {
     let left_end_of_free_space_at_right = ptr obj + rq_size obj + rsp_size obj;
     free_at_right \<leftarrow> size_fwd B left_end_of_free_space_at_right;
     let right_end_of_free_space_at_right = left_end_of_free_space_at_right + free_at_right - 1;
     free_at_right_copy \<leftarrow> size_bwd B right_end_of_free_space_at_right;
     assert (free_at_right = free_at_right_copy);
     let right_end_of_free_space_at_left = ptr obj - 1;
     free_at_left \<leftarrow> size_bwd B right_end_of_free_space_at_left;
     let left_end_of_free_space_at_left = right_end_of_free_space_at_left - free_at_left + 1;
     free_at_left_copy \<leftarrow> size_fwd B left_end_of_free_space_at_left;
     assert (free_at_left = free_at_left_copy);
     Some (rq_size obj + rsp_size obj + free_at_right)
   }"

fun check_objects :: "bytes \<Rightarrow> mem_obj list \<Rightarrow> int \<Rightarrow> int option" where
  "check_objects B [] total_sz = Some total_sz"
| "check_objects B (ob # obs) total_sz =
     (if ptr ob \<noteq> NULL then do {
        s \<leftarrow> check_object B ob;
        check_objects B obs (to_u16 (total_sz + s))
      } else check_objects B obs total_sz)"

definition zepto_mem_man_check_sanity :: "mem \<Rightarrow> int \<Rightarrow> int option" where
  "zepto_mem_man_check_sanity m ever_reached = do {
     let fixed = take (MEMORY_HANDLE_MAX m) (memory_objects m);
     assert (list_all (\<lambda>ob. ptr ob \<noteq> NULL) fixed);
     storage \<leftarrow> MEMORY_OBJECT_PTR m (MEMORY_HANDLE_ACQUIRABLE_HANDLE_STORAGE m);
     assert (rq_size storage = 0);
     assert (list_all (\<lambda>ob. rq_size ob + rsp_size ob \<noteq> 0 \<longrightarrow> ptr ob \<noteq> NULL) (slots m));
     assert (int (length (slots m)) * sizeof_request_reply_mem_obj = rsp_size storage);
     obj0 \<leftarrow> MEMORY_OBJECT_PTR m 0;
     let st = find_extremes fixed 0 (0, ptr obj0, 0, ptr obj0);
     let (first, first_ptr, last_h, last_ptr) = find_extremes (slots m) (MEMORY_HANDLE_ACQUIRABLE_START m) st;
     obj \<leftarrow> MEMORY_OBJECT_PTR m first;
     assert (0 < ptr obj);
     free_at_left \<leftarrow> size_bwd (BASE_MEM_BLOCK m) (ptr obj - 1);
     assert (free_at_left = ptr obj);
     obj \<leftarrow> MEMORY_OBJECT_PTR m last_h;
     assert (ptr obj + rq_size obj + rsp_size obj < BASE_MEM_BLOCK_SIZE);
     free_at_right \<leftarrow> size_fwd (BASE_MEM_BLOCK m) (ptr obj + rq_size obj + rsp_size obj);
     assert (ptr obj + rq_size obj + rsp_size obj + free_at_right = BASE_MEM_BLOCK_SIZE);
     total_sz \<leftarrow> check_objects (BASE_MEM_BLOCK m) fixed free_at_left;
     total_sz \<leftarrow> check_objects (BASE_MEM_BLOCK m) (slots m) total_sz;
     assert (total_sz = BASE_MEM_BLOCK_SIZE);
     zepto_mem_man_update_ever_reached m ever_reached
   }"

section \<open>The sanity check holds under the invariant\<close>

lemma find_extremes_append:
  "find_extremes (xs @ ys) i st = find_extremes ys (i + length xs) (find_extremes xs i st)"
  by (induction xs arbitrary: i st) auto

lemma check_objects_append:
  "check_objects B (xs @ ys) t = check_objects B xs t \<bind> check_objects B ys"
proof (induction xs arbitrary: t)
  case (Cons x xs)
  then show ?case by (cases "check_object B x") auto
qed simp

lemma check_object_live:
  assumes "live_at m xs ob ys"
  shows "check_object (BASE_MEM_BLOCK m) ob = Some (right_start ys BASE_MEM_BLOCK_SIZE - ptr ob)"
proof -
  note ord = live_at_order [OF assms]
  have "size_bwd (BASE_MEM_BLOCK m) (right_start ys BASE_MEM_BLOCK_SIZE - 1) = Some (right_start ys BASE_MEM_BLOCK_SIZE - obj_end ob)"
    "size_fwd (BASE_MEM_BLOCK m) (left_end 0 xs) = Some (ptr ob - left_end 0 xs)"
    using live_at_gaps [OF assms] ord by (simp_all add: size_fwd_def size_bwd_def obj_end_def)
  then show ?thesis
    using assms by (simp add: check_object_def Let_def obj_end_def)
qed

lemma check_objects_total:
  assumes "heap_inv m" "memory_objects m = xs @ ys"
  shows "check_objects (BASE_MEM_BLOCK m) ys (right_start ys BASE_MEM_BLOCK_SIZE) = Some BASE_MEM_BLOCK_SIZE"
  using assms(2)
proof (induction ys arbitrary: xs)
  case (Cons y ys)
  show ?case
  proof (cases "ptr y = NULL")
    case True
    with Cons show ?thesis by simp
  next
    case False
    with Cons assms(1) have live: "live_at m xs y ys" by (simp add: live_at_def)
    from Cons.IH [of "xs @ [y]"] Cons.prems False live_at_order [OF live] show ?thesis
      by (simp add: check_object_live [OF live])
  qed
qed simp

text \<open>In the order of the list the first live object stays first and every later one becomes last.\<close>

lemma find_extremes_chain:
  assumes "links B p obs" "sizes_ok obs" "fp \<le> lp" "lp \<le> p"
  shows "\<exists>l lp'. find_extremes obs i (f, fp, l0, lp) = (f, fp, l, lp') \<and>
    (if \<forall>ob \<in> set obs. ptr ob = NULL then l = l0
     else i \<le> l \<and> l < i + length obs \<and> ptr (obs ! (l - i)) \<noteq> NULL \<and>
       (\<forall>j. l < j \<and> j < i + length obs \<longrightarrow> ptr (obs ! (j - i)) = NULL))"
  using assms
proof (induction obs arbitrary: p i l0 lp)
  case (Cons ob obs)
  show ?case
  proof (cases "ptr ob = NULL")
    case True
    with Cons.IH [of p lp "Suc i" l0] Cons.prems obtain l lp' where
      e: "find_extremes obs (Suc i) (f, fp, l0, lp) = (f, fp, l, lp')" and
      l: "if \<forall>ob \<in> set obs. ptr ob = NULL then l = l0
     else Suc i \<le> l \<and> l < Suc i + length obs \<and> ptr (obs ! (l - Suc i)) \<noteq> NULL \<and>
       (\<forall>j. l < j \<and> j < Suc i + length obs \<longrightarrow> ptr (obs ! (j - Suc i)) = NULL)" by auto
    have nth: "(ob # obs) ! (j - i) = obs ! (j - Suc i)" if "i < j" for j
      using that by (simp add: nth_Cons' diff_Suc split: nat.split)
    show ?thesis
      using True e l nth by (intro exI [of _ l] exI [of _ lp']) (auto split: if_splits)
  next
    case False
    with Cons.prems have g: "gap B p (ptr ob)" and ln: "links B (obj_end ob) obs" by simp_all
    have le: "ptr ob \<le> obj_end ob" using Cons.prems(2) by (simp add: obj_end_def)
    have lt: "lp < ptr ob" "fp < ptr ob" using gapD(2) [OF g] Cons.prems(3,4) by auto
    from Cons.IH [OF ln _ _ le, of "Suc i" i] Cons.prems(2) lt(2) obtain l lp' where
      e: "find_extremes obs (Suc i) (f, fp, i, ptr ob) = (f, fp, l, lp')" and
      l: "if \<forall>ob \<in> set obs. ptr ob = NULL then l = i
     else Suc i \<le> l \<and> l < Suc i + length obs \<and> ptr (obs ! (l - Suc i)) \<noteq> NULL \<and>
       (\<forall>j. l < j \<and> j < Suc i + length obs \<longrightarrow> ptr (obs ! (j - Suc i)) = NULL)" by auto
    have nth: "(ob # obs) ! (j - i) = obs ! (j - Suc i)" if "i < j" for j
      using that by (simp add: nth_Cons' diff_Suc split: nat.split)
    have null: "ptr (obs ! (j - Suc i)) = NULL"
      if "\<forall>ob \<in> set obs. ptr ob = NULL" "i < j" "j < i + length (ob # obs)" for j
      using that by (auto intro!: bspec [OF that(1)] nth_mem)
    show ?thesis
      using False lt e l nth null by (intro exI [of _ l] exI [of _ lp']) (auto split: if_splits)
  qed
qed simp

lemma extremes_found:
  assumes inv: "heap_inv m"
  shows "\<exists>ob0 l lp xs ob ys. MEMORY_OBJECT_PTR m 0 = Some ob0 \<and> live_at m [] ob0 (tl (memory_objects m)) \<and>
    find_extremes (memory_objects m) 0 (0, ptr ob0, 0, ptr ob0) = (0, ptr ob0, l, lp) \<and>
    live_at m xs ob ys \<and> l = length xs \<and> right_start ys BASE_MEM_BLOCK_SIZE = BASE_MEM_BLOCK_SIZE"
proof -
  obtain ob0 rest where objs: "memory_objects m = ob0 # rest" and nn: "ptr ob0 \<noteq> NULL"
    using inv by (cases "memory_objects m") (auto simp: heap_inv_def)
  have live0: "live_at m [] ob0 rest" using inv objs nn by (simp add: live_at_def)
  have ob0: "MEMORY_OBJECT_PTR m 0 = Some ob0" using objs by (simp add: MEMORY_OBJECT_PTR_def)
  have "chain (BASE_MEM_BLOCK m) (obj_end ob0) (rest @ []) BASE_MEM_BLOCK_SIZE"
    using inv objs nn by (simp add: heap_inv_def)
  then have ln: "links (BASE_MEM_BLOCK m) (obj_end ob0) rest"
    unfolding chain_append by simp
  have sz: "sizes_ok rest" "ptr ob0 \<le> obj_end ob0" using inv objs by (auto simp: heap_inv_def obj_end_def)
  from find_extremes_chain [OF ln sz(1) order.refl sz(2), of "Suc 0" 0 0] obtain l lp where
    e: "find_extremes rest (Suc 0) (0, ptr ob0, 0, ptr ob0) = (0, ptr ob0, l, lp)" and
    l: "if \<forall>ob \<in> set rest. ptr ob = NULL then l = 0
     else Suc 0 \<le> l \<and> l < Suc 0 + length rest \<and> ptr (rest ! (l - Suc 0)) \<noteq> NULL \<and>
       (\<forall>j. l < j \<and> j < Suc 0 + length rest \<longrightarrow> ptr (rest ! (j - Suc 0)) = NULL)" by blast
  have run: "find_extremes (memory_objects m) 0 (0, ptr ob0, 0, ptr ob0) = (0, ptr ob0, l, lp)"
    using e nn by (simp add: objs)
  have "\<exists>xs ob ys. live_at m xs ob ys \<and> l = length xs \<and> (\<forall>x \<in> set ys. ptr x = NULL)"
  proof (cases "\<forall>ob \<in> set rest. ptr ob = NULL")
    case True
    with l live0 show ?thesis by (intro exI [of _ "[]"] exI [of _ ob0] exI [of _ rest]) simp
  next
    case False
    with l obtain k where k: "l = Suc k" "k < length rest" "ptr (rest ! k) \<noteq> NULL"
      by (cases l) (auto split: if_splits)
    have later: "ptr (rest ! j) = NULL" if "k < j" "j < length rest" for j
    proof -
      from l False k(1) have "\<forall>j. Suc k < j \<and> j < Suc 0 + length rest \<longrightarrow> ptr (rest ! (j - Suc 0)) = NULL"
        by simp
      from this [rule_format, of "Suc j"] that show ?thesis by simp
    qed
    have "memory_objects m = (ob0 # take k rest) @ rest ! k # drop (Suc k) rest"
      using objs k(2) by (simp add: id_take_nth_drop [symmetric])
    moreover have "\<forall>x \<in> set (drop (Suc k) rest). ptr x = NULL"
      using later by (auto simp: in_set_conv_nth)
    ultimately show ?thesis
      using k inv by (intro exI [of _ "ob0 # take k rest"] exI [of _ "rest ! k"] exI [of _ "drop (Suc k) rest"])
        (simp add: live_at_def)
  qed
  then obtain xs ob ys where "live_at m xs ob ys" "l = length xs" "\<forall>x \<in> set ys. ptr x = NULL" by blast
  moreover from this(3) have "right_start ys BASE_MEM_BLOCK_SIZE = BASE_MEM_BLOCK_SIZE" by (rule right_start_null)
  moreover have "tl (memory_objects m) = rest" using objs by simp
  ultimately show ?thesis
    using ob0 live0 run by metis
qed

lemma update_ever_reached_defined:
  assumes "handles_inv m"
  shows "\<exists>e. zepto_mem_man_update_ever_reached m ever = Some e \<and> ever \<le> e"
proof -
  from handles_inv_storage [OF assms] obtain xs st where live: "live_at m xs st (slots m)"
    and h: "length xs = MEMORY_HANDLE_ACQUIRABLE_HANDLE_STORAGE m"
    and st: "rq_size st = 0" "rsp_size st = int (length (slots m)) * sizeof_request_reply_mem_obj" by blast
  from live_at_object [OF live] h st show ?thesis
    by (simp add: zepto_mem_man_update_ever_reached_def Let_def)
qed

lemma sanity_holds:
  assumes inv: "handles_inv m"
  shows "zepto_mem_man_check_sanity m ever = zepto_mem_man_update_ever_reached m ever"
proof -
  have hinv: "heap_inv m" using inv by (simp add: handles_inv_def)
  let ?fixed = "take (MEMORY_HANDLE_MAX m) (memory_objects m)"
  have split: "memory_objects m = ?fixed @ slots m" by (simp add: slots_def MEMORY_HANDLE_ACQUIRABLE_START_def)
  have len: "length ?fixed = MEMORY_HANDLE_ACQUIRABLE_START m"
    using hinv by (simp add: heap_inv_def MEMORY_HANDLE_ACQUIRABLE_START_def)
  from handles_inv_storage [OF inv] obtain xs st where live: "live_at m xs st (slots m)"
    and h: "length xs = MEMORY_HANDLE_ACQUIRABLE_HANDLE_STORAGE m"
    and st: "rq_size st = 0" "rsp_size st = int (length (slots m)) * sizeof_request_reply_mem_obj" by blast
  have storage: "MEMORY_OBJECT_PTR m (MEMORY_HANDLE_ACQUIRABLE_HANDLE_STORAGE m) = Some st"
    using live_at_object [OF live] h by simp
  have fixed: "list_all (\<lambda>ob. ptr ob \<noteq> NULL) ?fixed"
    using hinv by (auto simp: heap_inv_def list_all_iff in_set_conv_nth)
  have slots_ok: "list_all (\<lambda>ob. rq_size ob + rsp_size ob \<noteq> 0 \<longrightarrow> ptr ob \<noteq> NULL) (slots m)"
    using hinv by (auto simp: heap_inv_def list_all_iff slots_def sizes_ok_def dest!: in_set_dropD)
  from extremes_found [OF hinv] obtain ob0 l lp xs' ob ys where
    ob0: "MEMORY_OBJECT_PTR m 0 = Some ob0" and live0: "live_at m [] ob0 (tl (memory_objects m))" and
    run: "find_extremes (memory_objects m) 0 (0, ptr ob0, 0, ptr ob0) = (0, ptr ob0, l, lp)" and
    livel: "live_at m xs' ob ys" "l = length xs'" "right_start ys BASE_MEM_BLOCK_SIZE = BASE_MEM_BLOCK_SIZE" by blast
  have ext: "find_extremes (slots m) (MEMORY_HANDLE_ACQUIRABLE_START m) (find_extremes ?fixed 0 (0, ptr ob0, 0, ptr ob0)) =
      (0, ptr ob0, l, lp)"
    using run find_extremes_append [of ?fixed "slots m" 0] unfolding split [symmetric] len by simp
  have "memory_objects m = ob0 # tl (memory_objects m)"
    using live_at_objs [OF live0] by simp
  then have rs: "right_start (memory_objects m) BASE_MEM_BLOCK_SIZE = ptr ob0"
    using live_at_ptr [OF live0] by (metis right_start.simps(2))
  have tot: "check_objects (BASE_MEM_BLOCK m) ?fixed (ptr ob0) \<bind> check_objects (BASE_MEM_BLOCK m) (slots m) =
      Some BASE_MEM_BLOCK_SIZE"
    using check_objects_total [OF hinv, of "[]" "memory_objects m"] rs
    unfolding check_objects_append [symmetric] split [symmetric] by simp
  obtain t where t: "check_objects (BASE_MEM_BLOCK m) ?fixed (ptr ob0) = Some t"
    "check_objects (BASE_MEM_BLOCK m) (slots m) t = Some BASE_MEM_BLOCK_SIZE"
    using tot by (cases "check_objects (BASE_MEM_BLOCK m) ?fixed (ptr ob0)") auto
  show ?thesis
    unfolding zepto_mem_man_check_sanity_def Let_def
    using fixed storage st slots_ok ob0 ext t livel live_at_object [OF livel(1)] live_at_order [OF livel(1)]
      live_at_order [OF live0] size_at_left [OF live0] size_at_right [OF livel(1)]
    by (simp add: obj_end_def)
qed

section \<open>Initialisation\<close>

lemma init_objects_effect:
  "n \<le> 4096 \<Longrightarrow> \<exists>B'. init_objects n B = Some (B', map (\<lambda>i. \<lparr>ptr = 1 + int i, rq_size = 0, rsp_size = 0\<rparr>) [0..<n]) \<and>
    (\<forall>i. 0 \<le> i \<and> i < int n \<longrightarrow> B' i = 1)"
proof (induction n)
  case (Suc n)
  then obtain B' where B': "init_objects n B = Some (B', map (\<lambda>i. \<lparr>ptr = 1 + int i, rq_size = 0, rsp_size = 0\<rparr>) [0..<n])"
    "\<forall>i. 0 \<le> i \<and> i < int n \<longrightarrow> B' i = 1" by auto
  then show ?case
    using Suc.prems by (intro exI [of _ "B'(int n := 1)"]) (auto simp: block_size_value)
qed auto

lemma init_chain:
  assumes "\<forall>i. 0 \<le> i \<and> i < int n \<longrightarrow> B i = 1" "gap B (int n) e" "n \<le> 4096"
  shows "k \<le> n \<Longrightarrow> chain B (int (n - k)) (map (\<lambda>i. \<lparr>ptr = 1 + int i, rq_size = 0, rsp_size = 0\<rparr>) [n - k..<n]) e"
proof (induction k)
  case 0
  then show ?case using assms(2) by simp
next
  case (Suc k)
  then have "[n - Suc k..<n] = (n - Suc k) # [n - k..<n]"
    by (simp add: upt_conv_Cons Suc_diff_Suc)
  moreover have "gap B (int (n - Suc k)) (1 + int (n - Suc k))"
    using assms(1,3) Suc.prems by (intro gap_one) (auto simp: block_size_value)
  moreover have "1 + int (n - Suc k) = int (n - k)" using Suc.prems by simp
  ultimately show ?case
    using Suc by (simp add: obj_end_def NULL_def)
qed

lemma init_effect:
  assumes "0 < n" "n < 4096"
  shows "\<exists>m. zepto_mem_man_init_memory_management n B = Some m \<and> handles_inv m \<and> MEMORY_HANDLE_MAX m = n \<and>
    (\<forall>h. content m h = (if h < n then Some ([], []) else None)) \<and> free_space m = 4095 - int n"
proof -
  let ?obs = "map (\<lambda>i. \<lparr>ptr = 1 + int i, rq_size = 0, rsp_size = 0\<rparr>) [0..<n]"
  obtain B1 where B1: "init_objects n B = Some (B1, ?obs)" "\<forall>i. 0 \<le> i \<and> i < int n \<longrightarrow> B1 i = 1"
    using init_objects_effect [of n B] assms by auto
  define B2 where "B2 = put_gap B1 (int n) 4096"
  let ?m = "\<lparr>BASE_MEM_BLOCK = B2, memory_objects = ?obs, MEMORY_HANDLE_MAX = n\<rparr>"
  have run: "zepto_mem_man_init_memory_management n B = Some ?m"
    using B1(1) assms unfolding zepto_mem_man_init_memory_management_def
    by (simp add: write_gap block_size_value B2_def)
  have "chain B2 (int (n - n)) (map (\<lambda>i. \<lparr>ptr = 1 + int i, rq_size = 0, rsp_size = 0\<rparr>) [n - n..<n]) 4096"
    using B1(2) assms by (intro init_chain) (auto simp: B2_def put_gap_other block_size_value intro!: gap_put_gap)
  moreover have "sizes_ok ?obs" by (auto simp: sizes_ok_def)
  ultimately have inv: "heap_inv ?m"
    using assms by (simp add: heap_inv_def block_size_value NULL_def)
  have view: "content ?m h = (if h < n then Some ([], []) else None)" for h
    by (simp add: content_def request_bytes_def response_bytes_def NULL_def)
  have "slots ?m = []" by (simp add: slots_def MEMORY_HANDLE_ACQUIRABLE_START_def)
  then have "handles_inv ?m"
    using inv view assms by (simp add: handles_inv_def MEMORY_HANDLE_ACQUIRABLE_HANDLE_STORAGE_def)
  moreover have "free_space ?m = 4095 - int n"
    using free_space_content [OF inv] view by simp
  ultimately show ?thesis using run view by auto
qed

end
