(* ===== verification/Varint.thy ===== *)
theory Varint
  imports Encoded_Size
begin

text \<open>
  The packed unsigned integers of \<open>zepto_mem_mngmt.c\<close>: little-endian byte strings are packed into
  7-bit groups, every group but the last with bit 7 set, and every group after the first counts
  from one (so that no two byte strings encode the same number). The reference functions
  \<open>packed_nat\<close> and \<open>le_value\<close> state what the byte loops compute; the loops work in place on
  bytes, as the source does.
\<close>

section \<open>The loops of the source\<close>

fun shift_right_7 :: "u8 list \<Rightarrow> u8 list" where
  "shift_right_7 [] = []"
| "shift_right_7 [b] = [drop_bit 7 b]"
| "shift_right_7 (b # c # bs) = (drop_bit 7 b OR push_bit 1 (c AND 0x7F)) # shift_right_7 (c # bs)"

text \<open>Running out of bytes is the assertion \<open>0 == "invalid subtraction"\<close>.\<close>

fun subtract_1 :: "u8 list \<Rightarrow> u8 list option" where
  "subtract_1 [] = None"
| "subtract_1 (b # bs) = (let b' = b - 1 in
     if b' \<noteq> 0xFF then Some (b' # bs) else map_option ((#) b') (subtract_1 bs))"

fun is_less_128 :: "u8 list \<Rightarrow> bool" where
  "is_less_128 [] = False"
| "is_less_128 (b # bs) = (list_all (\<lambda>c. c = 0) bs \<and> b < 128)"

text \<open>\<open>while ( num_sz_max && num_bytes[ num_sz_max - 1 ] == 0 ) num_sz_max--\<close>\<close>

definition strip_zeros :: "u8 list \<Rightarrow> u8 list" where
  "strip_zeros bs = rev (dropWhile (\<lambda>b. b = 0) (rev bs))"

definition le_value :: "u8 list \<Rightarrow> nat" where
  "le_value bs = foldr (\<lambda>b n. unat b + 256 * n) bs 0"

lemma le_value_simps [simp]:
  "le_value [] = 0" "le_value (b # bs) = unat b + 256 * le_value bs"
  by (simp_all add: le_value_def)

lemma unat_and_127: "unat (b AND 0x7F :: u8) = unat b mod 128"
  using and_127_uint [of b] by (metis nat_mod_distrib nat_numeral unat_eq_nat_uint uint_nonnegative zero_le_numeral)

lemma unat_u8_less: "unat (b :: u8) < 256"
  using unsigned_less [of b, where ?'a = nat] by simp

lemma unat_drop_7: "unat (drop_bit 7 b :: u8) = unat b div 128"
  by (subst unat_drop_bit_eq) (simp add: drop_bit_eq_div)

lemma unat_shift_or: "unat (drop_bit 7 b OR push_bit 1 (c AND 0x7F) :: u8) = unat b div 128 + 2 * (unat c mod 128)"
proof -
  have p: "push_bit 1 (c AND 0x7F) = 2 * (c AND 0x7F)" by (simp add: push_bit_eq_mult)
  have u: "unat (2 * (c AND 0x7F) :: u8) = 2 * (unat c mod 128)"
    by (subst unat_word_ariths) (simp add: unat_and_127)
  have "unat b < 256" by (rule unat_u8_less)
  then have lt: "unat b div 128 < 2" by (simp add: div_less_iff_less_mult)
  have "drop_bit 7 b AND push_bit 1 (c AND 0x7F) = 0"
  proof (rule bit_word_eqI)
    fix n assume n: "n < LENGTH(8)"
    have "\<not> bit (drop_bit 7 b) n" if "1 \<le> n"
      using that bit_imp_le_length [of b "7 + n"] by (auto simp: bit_drop_bit_eq)
    then show "bit (drop_bit 7 b AND push_bit 1 (c AND 0x7F)) n = bit (0 :: u8) n"
      by (cases n) (auto simp: bit_and_iff bit_push_bit_iff)
  qed
  then have "drop_bit 7 b OR push_bit 1 (c AND 0x7F) = drop_bit 7 b + push_bit 1 (c AND 0x7F)"
    by (simp add: disjunctive_add_eq_or)
  moreover have "unat (drop_bit 7 b + push_bit 1 (c AND 0x7F)) = unat b div 128 + 2 * (unat c mod 128)"
    unfolding p by (subst unat_word_ariths) (use lt in \<open>simp add: unat_drop_7 u\<close>)
  ultimately show ?thesis by simp
qed

lemma shift_arith: "x div 128 + 2 * (n mod 128) + 256 * (n div 128) = (x + 256 * n) div (128 :: nat)"
proof -
  define q r where "q = n div 128" and "r = n mod 128"
  have "n = 128 * q + r" unfolding q_def r_def by (rule mult_div_mod_eq [symmetric])
  then have "2 * r + 256 * q = 2 * n" by simp
  then have "2 * (n mod 128) + 256 * (n div 128) = 2 * n" by (simp only: q_def r_def)
  moreover have "(x + 256 * n) div 128 = x div 128 + 2 * n"
    using div_mult_self2 [of 128 x "2 * n"] by simp
  ultimately show ?thesis by simp
qed

lemma le_value_shift: "le_value (shift_right_7 bs) = le_value bs div 128"
proof (induction bs rule: shift_right_7.induct)
  case (2 b)
  then show ?case by (simp add: unat_drop_7)
next
  case (3 b c bs)
  let ?n = "le_value (c # bs)"
  have "?n = unat c + 128 * (2 * le_value bs)" by simp
  then have m: "unat c mod 128 = ?n mod 128" by (metis mod_mult_self2)
  have "le_value (shift_right_7 (b # c # bs)) = unat b div 128 + 2 * (?n mod 128) + 256 * (?n div 128)"
    using 3 by (simp only: shift_right_7.simps le_value_simps unat_shift_or m)
  also have "\<dots> = (unat b + 256 * ?n) div 128" by (rule shift_arith)
  finally show ?case by simp
qed simp

lemma length_shift_right_7 [simp]: "length (shift_right_7 bs) = length bs"
  by (induction bs rule: shift_right_7.induct) auto

lemma subtract_1_value:
  "(subtract_1 bs = None \<and> le_value bs = 0) \<or>
   (\<exists>cs. subtract_1 bs = Some cs \<and> length cs = length bs \<and> le_value bs = Suc (le_value cs))"
proof (induction bs)
  case (Cons b bs)
  show ?case
  proof (cases "b = 0")
    case True
    have "unat (- 1 :: u8) = 255" by (simp add: unsigned_minus_1_eq_mask mask_eq_exp_minus_1)
    with True Cons show ?thesis by (auto simp: Let_def)
  next
    case False
    then have m: "unat (b - 1) = unat b - 1" "0 < unat b"
      by (auto simp: unat_minus_one unat_gt_0)
    moreover have "unat b < 256" by (rule unat_u8_less)
    ultimately have "unat (b - 1) \<noteq> 255" by simp
    then have "b - 1 \<noteq> 0xFF" by auto
    moreover note m
    ultimately show ?thesis by (simp add: Let_def)
  qed
qed simp

lemma is_less_128_value: "bs \<noteq> [] \<Longrightarrow> is_less_128 bs \<longleftrightarrow> le_value bs < 128"
proof (cases bs)
  case (Cons b bs')
  have zero: "list_all (\<lambda>c. c = 0) cs \<longleftrightarrow> le_value cs = 0" for cs :: "u8 list"
    by (induction cs) (auto simp: unat_eq_0)
  have "b < 128 \<longleftrightarrow> unat b < 128" by (simp add: word_less_nat_alt)
  then show ?thesis by (auto simp: Cons zero)
qed simp

lemma strip_zeros_value: "le_value (strip_zeros bs) = le_value bs"
proof (induction bs rule: rev_induct)
  case (snoc b bs)
  have app: "le_value (xs @ [0]) = le_value xs" for xs by (induction xs) auto
  show ?case using snoc by (cases "b = 0") (simp_all add: strip_zeros_def app)
qed (simp add: strip_zeros_def)

lemma length_strip_zeros: "length (strip_zeros bs) \<le> length bs"
  using length_dropWhile_le [of "\<lambda>b. b = 0" "rev bs"] by (simp add: strip_zeros_def)

lemma strip_zeros_empty: "strip_zeros bs = [] \<longleftrightarrow> le_value bs = 0"
proof (induction bs rule: rev_induct)
  case (snoc b bs)
  have app: "le_value (xs @ [0]) = le_value xs" for xs by (induction xs) auto
  have pos: "0 < le_value (xs @ [c])" if "c \<noteq> 0" for xs and c :: u8
    using that by (induction xs) (auto simp: unat_gt_0)
  show ?case using snoc pos [of b bs] by (cases "b = 0") (simp_all add: strip_zeros_def app)
qed (simp add: strip_zeros_def)

section \<open>Packing\<close>

text \<open>The loop \<open>for(;;)\<close>; its result is the list of bytes written to the output buffer.\<close>

function encode_loop :: "u8 list \<Rightarrow> u8 list option" where
  "encode_loop buff = (
     let b = hd buff AND 0x7F in
     if is_less_128 buff then Some [b]
     else (case subtract_1 (shift_right_7 buff) of
        None \<Rightarrow> None
      | Some buff' \<Rightarrow> map_option ((#) (b OR 128)) (encode_loop buff')))"
  by pat_completeness auto

lemma encode_step_decreases:
  assumes "\<not> is_less_128 buff" "subtract_1 (shift_right_7 buff) = Some buff'"
  shows "le_value buff' < le_value buff" "Suc (le_value buff') = le_value buff div 128"
proof -
  show "Suc (le_value buff') = le_value buff div 128"
    using subtract_1_value [of "shift_right_7 buff"] assms(2) by (auto simp: le_value_shift)
  also have "\<dots> \<le> le_value buff" by simp
  finally show "le_value buff' < le_value buff" by simp
qed

termination encode_loop
  by (relation "measure le_value") (auto intro: encode_step_decreases)

declare encode_loop.simps [simp del]

definition encode_uint :: "u8 list \<Rightarrow> u8 list option" where
  "encode_uint num_bytes = do {
     assert (num_bytes \<noteq> []);
     let num_bytes = strip_zeros num_bytes;
     if num_bytes = [] then Some [0]
     else encode_loop num_bytes
   }"

text \<open>\<open>buff[16]\<close> holds the copy the loop works on.\<close>

definition zepto_parser_encode_uint :: "u8 list \<Rightarrow> u8 list option" where
  "zepto_parser_encode_uint num_bytes = do {
     assert (num_bytes \<noteq> []);
     assert (length (strip_zeros num_bytes) \<le> 16);
     encode_uint num_bytes
   }"

text \<open>
  The local part of \<open>zepto_parser_encode_and_append_uint\<close> and
  \<open>zepto_parser_encode_and_prepend_uint\<close>. The output buffer \<open>out_buff[16]\<close> is not checked by the
  source: more than 16 output bytes leave it.
\<close>

definition encode_to_buffer :: "u8 list \<Rightarrow> u8 list option" where
  "encode_to_buffer num_bytes = do {
     assert (num_bytes \<noteq> []);
     assert (length num_bytes \<le> 16);
     out_buff \<leftarrow> encode_uint num_bytes;
     assert (length out_buff \<le> 16);
     assert (length out_buff < 0x100);
     Some out_buff
   }"

text \<open>Reference: the packed form of a number, and back.\<close>

function packed_nat :: "nat \<Rightarrow> u8 list" where
  "packed_nat n = (if n < 128 then [of_nat n] else of_nat (n mod 128 + 128) # packed_nat (n div 128 - 1))"
  by pat_completeness auto

termination packed_nat
proof (relation "measure id")
  fix n :: nat assume "\<not> n < 128"
  moreover have "n div 128 \<le> n" by simp
  ultimately have "n div 128 - 1 < n" by linarith
  then show "(n div 128 - 1, n) \<in> measure id" by simp
qed simp

declare packed_nat.simps [simp del]

fun unpacked_nat :: "u8 list \<Rightarrow> nat" where
  "unpacked_nat [] = 0"
| "unpacked_nat (b # bs) = (if unat b < 128 then unat b else unat b - 128 + 128 * (unpacked_nat bs + 1))"

lemma unpacked_packed: "unpacked_nat (packed_nat n) = n"
proof (induction n rule: packed_nat.induct)
  case (1 n)
  show ?case
  proof (cases "n < 128")
    case True
    then show ?thesis by (simp add: packed_nat.simps [of n] unat_of_nat)
  next
    case False
    have "n mod 128 + 128 < 256" by (simp add: less_diff_conv [symmetric])
    then have u: "unat (of_nat (n mod 128 + 128) :: u8) = n mod 128 + 128"
      by (simp add: unat_of_nat del: of_nat_add)
    have "1 \<le> n div 128" using False by (simp add: Suc_le_eq div_greater_zero_iff)
    then have "n mod 128 + 128 * (n div 128 - 1 + 1) = n" by simp
    with u 1 False show ?thesis by (simp add: packed_nat.simps [of n] del: of_nat_add)
  qed
qed

lemma or_128: "unat b < 128 \<Longrightarrow> b OR 128 = b + (128 :: u8)"
proof -
  assume "unat b < 128"
  moreover have "int (unat b) = uint b" by (rule uint_nat [symmetric])
  ultimately have "uint b < 128" by linarith
  then have "b AND 128 = 0" unfolding and_128_eq_0 .
  then show ?thesis by (rule disjunctive_add_eq_or [symmetric])
qed

lemma encode_loop_value: "buff \<noteq> [] \<Longrightarrow> encode_loop buff = Some (packed_nat (le_value buff))"
proof (induction buff rule: encode_loop.induct)
  case (1 buff)
  let ?n = "le_value buff"
  from 1(2) obtain b bs where buff: "buff = b # bs" by (cases buff) auto
  have "?n = unat b + 128 * (2 * le_value bs)" by (simp add: buff)
  then have "?n mod 128 = unat b mod 128" by (metis mod_mult_self2)
  then have low: "unat (hd buff AND 0x7F) = ?n mod 128" by (simp add: buff unat_and_127)
  then have low': "hd buff AND 0x7F = of_nat (?n mod 128)" by (metis of_nat_unat ucast_id)
  show ?case
  proof (cases "is_less_128 buff")
    case True
    then have "?n < 128" using is_less_128_value [OF 1(2)] by simp
    then show ?thesis using True low' by (simp add: encode_loop.simps [of buff] packed_nat.simps [of ?n])
  next
    case False
    then have n: "\<not> ?n < 128" using is_less_128_value [OF 1(2)] by simp
    then have "le_value (shift_right_7 buff) \<noteq> 0" by (simp add: le_value_shift div_eq_0_iff)
    then obtain cs where cs: "subtract_1 (shift_right_7 buff) = Some cs" "length cs = length buff"
      using subtract_1_value [of "shift_right_7 buff"] by auto
    have "cs \<noteq> []" using cs(2) 1(2) by auto
    from 1(1) [OF refl False cs(1) this] have ih: "encode_loop cs = Some (packed_nat (le_value cs))" .
    have "le_value cs = ?n div 128 - 1" using encode_step_decreases(2) [OF False cs(1)] by simp
    moreover have "(hd buff AND 0x7F) OR 128 = of_nat (?n mod 128 + 128)"
      using or_128 [of "hd buff AND 0x7F"] low low' by simp
    ultimately show ?thesis
      using False n cs ih by (simp add: encode_loop.simps [of buff] packed_nat.simps [of ?n] Let_def)
  qed
qed

lemma encode_uint_value: "num_bytes \<noteq> [] \<Longrightarrow> encode_uint num_bytes = Some (packed_nat (le_value num_bytes))"
  using strip_zeros_empty [of num_bytes] strip_zeros_value [of num_bytes]
  by (auto simp: encode_uint_def Let_def encode_loop_value packed_nat.simps [of 0])

lemma length_packed_nat: "0 < k \<Longrightarrow> n < 128 ^ k \<Longrightarrow> length (packed_nat n) \<le> k"
proof (induction n arbitrary: k rule: packed_nat.induct)
  case (1 n)
  show ?case
  proof (cases "n < 128")
    case True
    then show ?thesis using 1 by (simp add: packed_nat.simps [of n])
  next
    case False
    then obtain j where k: "k = Suc j" "0 < j" using "1.prems" by (cases k; cases "k - 1") auto
    then have "n div 128 < 128 ^ j" using "1.prems" by (simp add: div_less_iff_less_mult mult.commute)
    then have "n div 128 - 1 < 128 ^ j" by simp
    with 1(1) [OF False k(2)] False k(1) show ?thesis by (simp add: packed_nat.simps [of n])
  qed
qed

lemma le_value_less: "le_value bs < 256 ^ length bs"
proof (induction bs)
  case (Cons b bs)
  have "unat b < 256" by (rule unat_u8_less)
  with Cons show ?case by simp
qed simp

lemma encode_to_buffer_ok:
  assumes "bs \<noteq> []" "length bs \<le> 14"
  shows "encode_to_buffer bs = Some (packed_nat (le_value bs))"
proof -
  have "le_value bs < 256 ^ 14"
    using le_value_less [of bs] power_increasing [OF assms(2), of "256 :: nat"] by simp
  also have "(256 :: nat) ^ 14 = 128 ^ 16" by simp
  finally have "length (packed_nat (le_value bs)) \<le> 16" by (intro length_packed_nat) auto
  with assms show ?thesis by (simp add: encode_to_buffer_def encode_uint_value)
qed

section \<open>Unpacking\<close>

text \<open>
  \<open>bytes_out\<close> is cleared first and filled from the front; \<open>out\<close> is the part already written. The
  first argument counts the rounds left of \<open>for ( i=1; i<8; i++ )\<close>. The end of the input is
  tested before the pointer moves, as the source does it.
\<close>

definition padded :: "nat \<Rightarrow> u8 list \<Rightarrow> u8 list" where
  "padded target_sz out = out @ replicate (target_sz - length out) 0"

fun decode_rest ::
  "nat \<Rightarrow> bytes \<Rightarrow> int \<Rightarrow> nat \<Rightarrow> int \<Rightarrow> nat \<Rightarrow> u8 list \<Rightarrow> (bool \<times> int \<times> u8 list) option" where
  "decode_rest 0 B end_p target_sz p interm out = Some (False, p, padded target_sz out)"
| "decode_rest (Suc n) B end_p target_sz p interm out = do {
     let i = 7 - n;
     b \<leftarrow> peek_block B p;
     if b AND 0x80 = 0 then
       if interm \<noteq> 0 then
         if length out < target_sz then Some (True, p + 1, padded target_sz (out @ [of_nat interm]))
         else Some (False, p, padded target_sz out)
       else Some (True, p + 1, padded target_sz out)
     else do {
       assert (length out \<le> target_sz);
       if end_p = p then Some (False, p, padded target_sz out)
       else do {
         b \<leftarrow> peek_block B (p + 1);
         let interm = (interm + (1 + unat (b AND 0x7F)) * 2 ^ (7 - i)) mod 65536;
         if length out < target_sz then
           decode_rest n B end_p target_sz (p + 1) (interm div 256) (out @ [of_nat interm])
         else Some (False, p + 1, padded target_sz out)
       }
     }
   }"

definition zepto_parser_decode_uint_core ::
  "bytes \<Rightarrow> int \<Rightarrow> int \<Rightarrow> nat \<Rightarrow> (bool \<times> int \<times> u8 list) option" where
  "zepto_parser_decode_uint_core B p max_encoded_size target_sz = do {
     assert (target_sz \<noteq> 0);
     assert (target_sz \<le> 8);
     let end_p = p + max_encoded_size;
     if end_p = p then Some (False, p, padded target_sz [])
     else do {
       b \<leftarrow> peek_block B p;
       let interm = unat (b AND 0x7F);
       if b AND 0x80 = 0 then Some (True, p + 1, padded target_sz [of_nat interm])
       else do {
         b \<leftarrow> peek_block B (p + 1);
         let interm = (interm + 128 + unat (b AND 0x7F) * 2 ^ 7) mod 65536;
         decode_rest 7 B end_p target_sz (p + 1) (interm div 256) [of_nat interm]
       }
     }
   }"

text \<open>The little-endian bytes of a number.\<close>

definition le_bytes :: "nat \<Rightarrow> nat \<Rightarrow> u8 list" where
  "le_bytes k n = map (\<lambda>i. of_nat (n div 256 ^ i)) [0..<k]"

lemma length_le_bytes [simp]: "length (le_bytes k n) = k"
  by (simp add: le_bytes_def)

lemma le_bytes_Suc: "le_bytes (Suc k) n = le_bytes k n @ [of_nat (n div 256 ^ k)]"
  by (simp add: le_bytes_def)

lemma le_value_le_bytes: "n < 256 ^ k \<Longrightarrow> le_value (le_bytes k n) = n"
proof (induction k arbitrary: n)
  case (Suc k)
  have "le_bytes (Suc k) n = of_nat n # le_bytes k (n div 256)"
  proof (rule nth_equalityI)
    fix i assume i: "i < length (le_bytes (Suc k) n)"
    show "le_bytes (Suc k) n ! i = (of_nat n # le_bytes k (n div 256)) ! i"
    proof (cases i)
      case 0
      then show ?thesis using i by (simp add: le_bytes_def del: upt_Suc)
    next
      case (Suc j)
      then show ?thesis using i by (simp add: le_bytes_def div_mult2_eq del: upt_Suc)
    qed
  qed simp
  moreover have "n div 256 < 256 ^ k" using Suc.prems by (simp add: div_less_iff_less_mult mult.commute)
  moreover have "unat (of_nat n :: u8) = n mod 256" by (simp add: unat_of_nat)
  ultimately show ?case using Suc.IH [of "n div 256"] by simp
qed (simp add: le_bytes_def)

lemma le_bytes_pad: "n < 256 ^ i \<Longrightarrow> i \<le> t \<Longrightarrow> padded t (le_bytes i n) = le_bytes t n"
proof -
  assume n: "n < 256 ^ i" and t: "i \<le> t"
  have "n div 256 ^ j = 0" if "i \<le> j" for j
  proof -
    have "(256 :: nat) ^ i \<le> 256 ^ j" using that by (intro power_increasing) auto
    with n have "n < 256 ^ j" by (rule less_le_trans)
    then show ?thesis by (rule div_less)
  qed
  then show ?thesis using t by (intro nth_equalityI) (auto simp: padded_def le_bytes_def nth_append)
qed

text \<open>The packed bytes lie in the block at \<open>p\<close>.\<close>

definition packed_at :: "bytes \<Rightarrow> int \<Rightarrow> nat \<Rightarrow> bool" where
  "packed_at B p n \<longleftrightarrow> 0 \<le> p \<and> p + int (length (packed_nat n)) \<le> BASE_MEM_BLOCK_SIZE \<and>
     bytes_at B p (int (length (packed_nat n))) = packed_nat n"

lemma packed_at_cases:
  assumes "packed_at B p n"
  shows "if n < 128 then peek_block B p = Some (of_nat n) \<and> length (packed_nat n) = 1
    else \<exists>b. peek_block B p = Some b \<and> b AND 0x80 \<noteq> 0 \<and> unat (b AND 0x7F) = n mod 128 \<and>
      packed_at B (p + 1) (n div 128 - 1) \<and>
      length (packed_nat n) = Suc (length (packed_nat (n div 128 - 1)))"
proof (cases "n < 128")
  case True
  then have "packed_nat n = [of_nat n]" by (simp add: packed_nat.simps [of n])
  moreover from this have "B p = of_nat n" using assms by (simp add: packed_at_def bytes_at_def)
  ultimately show ?thesis using True assms by (simp add: packed_at_def)
next
  case False
  let ?m = "n div 128 - 1" and ?b = "of_nat (n mod 128 + 128) :: u8"
  have pn: "packed_nat n = ?b # packed_nat ?m" using False by (simp add: packed_nat.simps [of n])
  have split: "bytes_at B p (1 + int (length (packed_nat ?m))) =
      bytes_at B p 1 @ bytes_at B (p + 1) (int (length (packed_nat ?m)))"
    by (rule bytes_at_append) auto
  have "bytes_at B p 1 = [B p]" by (simp add: bytes_at_def)
  then have b: "B p = ?b" and rest: "bytes_at B (p + 1) (int (length (packed_nat ?m))) = packed_nat ?m"
    using assms split pn by (simp_all add: packed_at_def del: of_nat_add)
  have "n mod 128 + 128 < 256" by (simp add: less_diff_conv [symmetric])
  then have u: "unat ?b = n mod 128 + 128" by (simp add: unat_of_nat del: of_nat_add)
  have "?b AND 0x80 \<noteq> 0"
  proof
    assume "?b AND 0x80 = 0"
    then have "uint ?b < 128" using and_128_eq_0 [of ?b] by blast
    then show False using u uint_nat [of ?b] by linarith
  qed
  moreover have "unat (?b AND 0x7F) = n mod 128" unfolding unat_and_127 u by simp
  ultimately show ?thesis
    using False assms pn b rest by (simp add: packed_at_def del: of_nat_add)
qed

lemma of_nat_mod_256: "(of_nat n :: u8) = of_nat (n mod 256)"
  by (simp add: word_of_nat_eq_iff take_bit_eq_mod)

section \<open>Unpacking inverts packing\<close>

lemma split_128: "128 * (k + 1) = 128 + 128 * (k mod 128) + 128 ^ Suc 1 * (k div (128 :: nat))"
proof -
  define q r where "q = k div 128" and "r = k mod 128"
  have "k = 128 * q + r" unfolding q_def r_def by (rule mult_div_mod_eq [symmetric])
  then have "128 * (k + 1) = 128 + 128 * r + 128 ^ Suc 1 * q" by simp
  then show ?thesis unfolding q_def r_def .
qed

lemma pow_128_256: "i \<le> 7 \<Longrightarrow> (128 :: nat) ^ Suc i = 2 ^ (7 - i) * 256 ^ i"
proof -
  assume i: "i \<le> 7"
  have "(128 :: nat) ^ Suc i = 2 ^ (7 * Suc i)" by (subst power_mult) simp
  also have "7 * Suc i = (7 - i) + 8 * i" using i by simp
  also have "(2 :: nat) ^ ((7 - i) + 8 * i) = 2 ^ (7 - i) * 256 ^ i"
    by (subst power_add, subst power_mult) simp
  finally show ?thesis .
qed

lemma div_pow: "(V + 256 ^ j * y) div 256 ^ j = y + V div (256 :: nat) ^ j"
  by simp

lemma packed_nat_nonempty: "packed_nat n \<noteq> []"
  by (subst packed_nat.simps) simp

text \<open>Low bytes do not see what later groups add.\<close>

lemma low_bytes:
  assumes "i \<le> 7"
  shows "le_bytes i (V + 128 ^ Suc i * x) = le_bytes i V"
proof (rule nth_equalityI)
  fix j assume "j < length (le_bytes i (V + 128 ^ Suc i * x))"
  then have j: "j < i" by simp
  have "128 ^ Suc i = 256 ^ j * (256 * (2 ^ (7 - i) * 256 ^ (i - Suc j) :: nat))"
  proof -
    have "(256 :: nat) ^ i = 256 ^ (j + Suc (i - Suc j))" using j by simp
    also have "\<dots> = 256 ^ j * (256 * 256 ^ (i - Suc j))" unfolding power_add power_Suc ..
    finally show ?thesis using pow_128_256 [OF assms] by simp
  qed
  then have "V + 128 ^ Suc i * x = V + 256 ^ j * (256 * (2 ^ (7 - i) * 256 ^ (i - Suc j) * x))"
    by (simp only: mult.assoc)
  then have "(V + 128 ^ Suc i * x) div 256 ^ j = 256 * (2 ^ (7 - i) * 256 ^ (i - Suc j) * x) + V div 256 ^ j"
    by (simp only: div_pow)
  then have "((V + 128 ^ Suc i * x) div 256 ^ j) mod 256 = (V div 256 ^ j) mod 256"
    by simp
  then show "le_bytes i (V + 128 ^ Suc i * x) ! j = le_bytes i V ! j"
    using j of_nat_mod_256 [of "(V + 128 ^ Suc i * x) div 256 ^ j"] of_nat_mod_256 [of "V div 256 ^ j"]
    by (simp add: le_bytes_def del: power_Suc)
qed simp

lemma shift_add: "i \<le> 7 \<Longrightarrow> (V + 128 ^ Suc i * x) div 256 ^ i = V div 256 ^ i + x * (2 :: nat) ^ (7 - i)"
proof -
  assume "i \<le> 7"
  then have "V + 128 ^ Suc i * x = V + 256 ^ i * (x * 2 ^ (7 - i))"
    using pow_128_256 [of i] by (simp only: mult.commute mult.left_commute)
  then have "(V + 128 ^ Suc i * x) div 256 ^ i = x * 2 ^ (7 - i) + V div 256 ^ i"
    by (simp only: div_pow)
  then show ?thesis by simp
qed

lemma small_interm:
  assumes "1 \<le> i" "V < 130 * 128 ^ i"
  shows "V div 256 ^ i < (66 :: nat)"
proof -
  obtain j where i: "i = Suc j" using assms(1) by (cases i) auto
  have "(128 :: nat) ^ j \<le> 256 ^ j" by (rule power_mono) auto
  then have "130 * 128 ^ i \<le> 66 * (256 :: nat) ^ i" by (simp add: i)
  with assms(2) have "V < 66 * 256 ^ i" by (rule less_le_trans)
  then show ?thesis by (simp add: div_less_iff_less_mult)
qed

text \<open>The last group.\<close>

lemma decode_last:
  assumes "packed_at B p m" "m < 128" "i + r = 7" "1 \<le> i" "i \<le> t"
    and "n = U + 128 ^ i * m" "U < 3 * 128 ^ i" "n < 256 ^ t"
    and "interm = n div 256 ^ i" "out = le_bytes i n"
  shows "decode_rest (Suc r) B end_p t p interm out = Some (True, p + 1, le_bytes t n)"
proof -
  have b: "peek_block B p = Some (of_nat m)"
    using packed_at_cases [OF assms(1)] assms(2) by simp
  have u: "unat (of_nat m :: u8) = m" using assms(2) by (simp add: unat_of_nat)
  have "uint (of_nat m :: u8) < 128" using u uint_nat [of "of_nat m :: u8"] assms(2) by linarith
  then have stop: "(of_nat m :: u8) AND 0x80 = 0" unfolding and_128_eq_0 .
  have "128 ^ i * m \<le> 128 ^ i * (127 :: nat)" using assms(2) by (intro mult_left_mono) auto
  then have n: "n < 130 * 128 ^ i" using assms(6,7) by linarith
  show ?thesis
  proof (cases "interm = 0")
    case True
    then have "n < 256 ^ i" using assms(9) by (simp add: div_eq_0_iff)
    then show ?thesis using True b stop le_bytes_pad [OF _ assms(5)] assms(10) by simp
  next
    case False
    then have ge: "256 ^ i \<le> n" using assms(9) by (simp add: div_eq_0_iff not_less)
    have it: "i < t"
    proof (rule ccontr)
      assume "\<not> i < t"
      then have "(256 :: nat) ^ t \<le> 256 ^ i" by (intro power_increasing) auto
      with ge assms(8) show False by linarith
    qed
    have "n div 256 ^ i < 66" using n by (intro small_interm [OF assms(4)])
    then have "n < 66 * 256 ^ i" by (simp add: div_less_iff_less_mult)
    then have "n < 256 ^ Suc i" by simp
    from le_bytes_pad [OF this] it show ?thesis
      using False b stop assms(9,10) by (simp add: le_bytes_Suc)
  qed
qed

lemma decode_rest_packed:
  assumes "packed_at B p m" "length (packed_nat m) \<le> Suc r" "i + r = 7" "1 \<le> i" "i \<le> t"
    and "n = U + 128 ^ i * m" "U < 3 * 128 ^ i" "n < 256 ^ t"
    and "p + int (length (packed_nat m)) \<le> end_p"
    and "interm = (U + 128 ^ i * (m mod 128)) div 256 ^ i" "out = le_bytes i n"
  shows "decode_rest (Suc r) B end_p t p interm out = Some (True, p + int (length (packed_nat m)), le_bytes t n)"
  using assms
proof (induction r arbitrary: p m i U interm out)
  case (0 p m i U interm out)
  have "m < 128"
  proof (rule ccontr)
    assume "\<not> m < 128"
    then have "length (packed_nat m) = Suc (length (packed_nat (m div 128 - 1)))" "packed_nat (m div 128 - 1) \<noteq> []"
      by (simp_all add: packed_nat.simps [of m] packed_nat_nonempty)
    with 0(2) show False by simp
  qed
  with 0 show ?case using decode_last [of B p m i 0 t n U interm out end_p]
    by (simp add: packed_nat.simps [of m])
next
  case (Suc r p m i U interm out)
  show ?case
  proof (cases "m < 128")
    case True
    with Suc.prems show ?thesis using decode_last [of B p m i "Suc r" t n U interm out end_p]
      by (simp add: packed_nat.simps [of m] del: decode_rest.simps)
  next
    case False
    let ?m = "m div 128 - 1" and ?V = "U + 128 ^ i * (m mod 128)"
    from packed_at_cases [OF Suc.prems(1)] False obtain b where b: "peek_block B p = Some b" "b AND 0x80 \<noteq> 0"
      and rest: "packed_at B (p + 1) ?m" "length (packed_nat m) = Suc (length (packed_nat ?m))" by auto
    have m: "m = m mod 128 + 128 * (?m + 1)"
    proof -
      have "1 \<le> m div 128" using False by (simp add: Suc_le_eq div_greater_zero_iff)
      then show ?thesis using mult_div_mod_eq [of 128 m] by (simp add: mult.commute)
    qed
    obtain c where c: "peek_block B (p + 1) = Some c" "unat (c AND 0x7F) = ?m mod 128"
    proof (cases "?m < 128")
      case True
      with packed_at_cases [OF rest(1)] have "peek_block B (p + 1) = Some (of_nat ?m)" by simp
      moreover have "unat (of_nat ?m AND 0x7F :: u8) = ?m mod 128"
        using True unfolding unat_and_127 by (simp add: unat_of_nat)
      ultimately show thesis by (rule that)
    qed (use packed_at_cases [OF rest(1)] that in auto)
    have n: "n = ?V + 128 ^ Suc i * (?m + 1)"
    proof -
      have "128 ^ i * m = 128 ^ i * (m mod 128) + 128 ^ i * (128 * (?m + 1))"
        using m by (metis distrib_left)
      then show ?thesis using Suc.prems(6) by (simp add: algebra_simps)
    qed
    have V: "?V < 130 * 128 ^ i"
    proof -
      have "128 ^ i * (m mod 128) \<le> 128 ^ i * (127 :: nat)" by (intro mult_left_mono) auto
      then show ?thesis using Suc.prems(7) by linarith
    qed
    have it: "i < t"
    proof (rule ccontr)
      assume "\<not> i < t"
      then have "(256 :: nat) ^ t \<le> 256 ^ i" by (intro power_increasing) auto
      also have "\<dots> \<le> 2 ^ (7 - i) * 256 ^ i" by simp
      also have "\<dots> = 128 ^ Suc i" using pow_128_256 [of i] Suc.prems(3) by simp
      also have "\<dots> \<le> n" unfolding n by simp
      finally show False using Suc.prems(8) by simp
    qed
    have i7: "i \<le> 7" "Suc i \<le> 7" "7 - Suc r = i" using Suc.prems(3) by auto
    define W where "W = ?V + 128 ^ Suc i * (?m mod 128 + 1)"
    have W: "W div 256 ^ i = interm + (1 + unat (c AND 0x7F)) * 2 ^ (7 - i)"
      unfolding W_def shift_add [OF i7(1)] c(2) Suc.prems(10) by (simp add: add.commute)
    have small: "W div 256 ^ i < 65536"
    proof -
      have "interm < 66" unfolding Suc.prems(10) by (rule small_interm [OF Suc.prems(4) V])
      moreover have "(1 + unat (c AND 0x7F)) * 2 ^ (7 - i) \<le> 128 * 2 ^ 7"
        unfolding c(2) by (intro mult_mono power_increasing) (auto simp: less_eq_Suc_le [symmetric])
      ultimately show ?thesis unfolding W by simp
    qed
    have nW: "n = W + 128 ^ Suc (Suc i) * (?m div 128)"
    proof -
      have "128 ^ Suc i * (?m + 1) = 128 ^ Suc i * (?m mod 128 + 1) + 128 ^ Suc i * (128 * (?m div 128))"
        unfolding distrib_left [symmetric] using mult_div_mod_eq [of 128 ?m] by simp
      then show ?thesis unfolding n W_def by (simp add: mult.commute mult.left_commute)
    qed
    have byte: "le_bytes (Suc i) n = le_bytes i n @ [of_nat (W div 256 ^ i)]"
    proof -
      have "le_bytes (Suc i) n = le_bytes (Suc i) W" unfolding nW by (rule low_bytes [OF i7(2)])
      moreover have "le_bytes i n = le_bytes i W" unfolding nW power_Suc [of 128 "Suc i"]
        using low_bytes [OF i7(1), of W "128 * (?m div 128)"] by (simp add: mult.commute mult.left_commute)
      ultimately show ?thesis by (simp add: le_bytes_Suc)
    qed
    have U1: "n = (?V + 128 ^ Suc i) + 128 ^ Suc i * ?m"
      unfolding n distrib_left mult_1_right by (simp only: add.assoc add.commute add.left_commute)
    have U2: "?V + 128 ^ Suc i < 3 * 128 ^ Suc i" using V by simp
    have U3: "W div 256 ^ i div 256 = (?V + 128 ^ Suc i + 128 ^ Suc i * (?m mod 128)) div 256 ^ Suc i"
      unfolding W_def by (simp add: div_mult2_eq [symmetric] mult.commute) (simp add: add.assoc)
    have ih: "decode_rest (Suc r) B end_p t (p + 1) (W div 256 ^ i div 256) (out @ [of_nat (W div 256 ^ i)]) =
        Some (True, p + 1 + int (length (packed_nat ?m)), le_bytes t n)"
    proof (rule Suc.IH [OF rest(1) _ _ _ _ U1 U2 Suc.prems(8) _ U3])
      show "out @ [of_nat (W div 256 ^ i)] = le_bytes (Suc i) n"
        unfolding byte Suc.prems(11) ..
    qed (use Suc.prems(2,3,9) rest(2) it in simp_all)
    have ne: "end_p \<noteq> p" using Suc.prems(9) rest(2) by simp
    show ?thesis
      using b ne c(1) it W small ih rest(2) Suc.prems(11) i7(3)
      by (simp add: Let_def W [symmetric] del: decode_rest.simps add: decode_rest.simps(2) [of "Suc r"])
  qed
qed

text \<open>
  Decoding the packed form of a number gives its little-endian bytes, and consumes exactly the
  packed bytes. The packed form may have up to eight bytes, which is enough for every number of
  at most seven bytes.
\<close>

lemma decode_packed:
  assumes "packed_at B p n" "length (packed_nat n) \<le> 8" "0 < t" "t \<le> 8" "n < 256 ^ t"
    and "int (length (packed_nat n)) \<le> max_encoded_size"
  shows "zepto_parser_decode_uint_core B p max_encoded_size t =
    Some (True, p + int (length (packed_nat n)), le_bytes t n)"
proof (cases "n < 128")
  case True
  have b: "peek_block B p = Some (of_nat n)" "length (packed_nat n) = 1"
    using packed_at_cases [OF assms(1)] True by simp_all
  have u: "unat (of_nat n :: u8) = n" using True by (simp add: unat_of_nat)
  have "uint (of_nat n :: u8) < 128" using u uint_nat [of "of_nat n :: u8"] True by linarith
  then have stop: "(of_nat n :: u8) AND 0x80 = 0" unfolding and_128_eq_0 .
  have low: "unat (of_nat n AND 0x7F :: u8) = n" unfolding unat_and_127 u using True by simp
  have "n < 256 ^ 1" using True by simp
  from le_bytes_pad [OF this, of t] assms(3) have "padded t [of_nat n] = le_bytes t n"
    by (simp add: le_bytes_def Suc_le_eq)
  then show ?thesis
    using b stop low assms(3,4,6) by (simp add: zepto_parser_decode_uint_core_def Let_def)
next
  case False
  let ?m = "n div 128 - 1"
  from packed_at_cases [OF assms(1)] False obtain b where b: "peek_block B p = Some b" "b AND 0x80 \<noteq> 0"
    "unat (b AND 0x7F) = n mod 128"
    and rest: "packed_at B (p + 1) ?m" "length (packed_nat n) = Suc (length (packed_nat ?m))" by auto
  obtain c where c: "peek_block B (p + 1) = Some c" "unat (c AND 0x7F) = ?m mod 128"
  proof (cases "?m < 128")
    case True
    with packed_at_cases [OF rest(1)] have "peek_block B (p + 1) = Some (of_nat ?m)" by simp
    moreover have "unat (of_nat ?m AND 0x7F :: u8) = ?m mod 128"
      using True unfolding unat_and_127 by (simp add: unat_of_nat)
    ultimately show thesis by (rule that)
  qed (use packed_at_cases [OF rest(1)] that in auto)
  have n: "n = n mod 128 + 128 * (?m + 1)"
  proof -
    have "1 \<le> n div 128" using False by (simp add: Suc_le_eq div_greater_zero_iff)
    then show ?thesis using mult_div_mod_eq [of 128 n] by (simp add: mult.commute)
  qed
  define W where "W = n mod 128 + 128 + 128 * (?m mod 128)"
  have small: "W < 65536"
  proof -
    have "n mod 128 < 128" "?m mod 128 < 128" by simp_all
    then show ?thesis unfolding W_def by linarith
  qed
  have nW: "n = W + 128 ^ Suc 1 * (?m div 128)"
  proof -
    have "128 * (?m + 1) = 128 + 128 * (?m mod 128) + 128 ^ Suc 1 * (?m div 128)"
      by (rule split_128)
    then show ?thesis using n unfolding W_def by linarith
  qed
  have byte: "[of_nat W] = le_bytes 1 n"
  proof -
    have "le_bytes 1 n = le_bytes 1 W" by (subst nW) (rule low_bytes, simp)
    then show ?thesis by (simp add: le_bytes_def)
  qed
  have ih: "decode_rest (Suc 6) B (p + max_encoded_size) t (p + 1) (W div 256) (le_bytes 1 n) =
      Some (True, p + 1 + int (length (packed_nat ?m)), le_bytes t n)"
  proof (rule decode_rest_packed [OF rest(1)])
    have "n mod 128 < 128" by simp
    then show "n mod 128 + 128 < 3 * 128 ^ 1" unfolding power_one_right by linarith
    show "n = n mod 128 + 128 + 128 ^ 1 * ?m" using n by simp
  qed (use assms rest(2) in \<open>auto simp: W_def\<close>)
  have "(unat (b AND 0x7F) + 128 + unat (c AND 0x7F) * 2 ^ 7) mod 65536 = W"
    using small unfolding b(3) c(2) by (simp add: W_def)
  then show ?thesis
    using b(1,2) c(1) assms(3,4,6) rest(2) ih byte
    by (simp add: zepto_parser_decode_uint_core_def Let_def del: decode_rest.simps)
qed

end
