(* ===== verification/Mem_Parser.thy ===== *)
theory Mem_Parser
  imports Heap_Check Varint
begin

text \<open>
  The reading and writing functions of \<open>zepto_mem_mngmt.c\<close> that the rest of the program uses:
  appending and prepending bytes, blocks and packed integers to the response of a handle,
  copying between handles, and reading a request through a \<open>parser_obj\<close>. The interface
  \<open>message_store\<close> states what the callers rely on and is interpreted on these definitions.
\<close>

section \<open>Parser objects\<close>

text \<open>\<open>MEMORY_HANDLE_INVALID\<close> is \<open>None\<close>.\<close>

record parser_obj =
  mem_handle :: "nat option"
  offset :: int
  res_valid :: bool

text \<open>\<open>memcpy\<close> within the block, between the data of two objects.\<close>

definition block_copy :: "bytes \<Rightarrow> int \<Rightarrow> int \<Rightarrow> int \<Rightarrow> bytes option" where
  "block_copy B dest_buff src_buff sz = do {
     bs \<leftarrow> mem_load BASE_MEM_BLOCK_SIZE B src_buff sz;
     mem_store BASE_MEM_BLOCK_SIZE B dest_buff bs
   }"

abbreviation set_block :: "mem \<Rightarrow> bytes \<Rightarrow> mem" where
  "set_block m B \<equiv> m\<lparr>BASE_MEM_BLOCK := B\<rparr>"

section \<open>Writing\<close>

definition zepto_write_uint8 :: "mem \<Rightarrow> nat \<Rightarrow> u8 \<Rightarrow> mem option" where
  "zepto_write_uint8 m mem_h val = do {
     ASSERT_MEMORY_HANDLE_VALID m mem_h;
     (buff, m) \<leftarrow> memory_object_append m mem_h 1;
     assert (buff \<noteq> NULL);
     B \<leftarrow> mem_store BASE_MEM_BLOCK_SIZE (BASE_MEM_BLOCK m) buff [val];
     Some (set_block m B)
   }"

definition zepto_write_block :: "mem \<Rightarrow> nat \<Rightarrow> u8 list \<Rightarrow> mem option" where
  "zepto_write_block m mem_h block = do {
     ASSERT_MEMORY_HANDLE_VALID m mem_h;
     (buff, m) \<leftarrow> memory_object_append m mem_h (int (length block));
     B \<leftarrow> mem_store BASE_MEM_BLOCK_SIZE (BASE_MEM_BLOCK m) buff block;
     Some (set_block m B)
   }"

definition zepto_response_to_request :: "mem \<Rightarrow> nat \<Rightarrow> mem option" where
  "zepto_response_to_request m mem_h = memory_object_response_to_request m mem_h"

definition zepto_convert_part_of_request_to_response ::
  "mem \<Rightarrow> nat \<Rightarrow> parser_obj \<Rightarrow> parser_obj \<Rightarrow> (mem \<times> parser_obj \<times> parser_obj) option" where
  "zepto_convert_part_of_request_to_response m mem_h po_start po_end = do {
     ASSERT_MEMORY_HANDLE_VALID m mem_h;
     assert (mem_handle po_start = Some mem_h);
     assert (mem_handle po_start = mem_handle po_end);
     assert (offset po_start \<le> offset po_end);
     if res_valid po_start \<and> res_valid po_end then do {
       m \<leftarrow> memory_object_cut_and_make_response m mem_h (offset po_start) (offset po_end - offset po_start);
       Some (m, po_start\<lparr>mem_handle := None\<rparr>, po_end\<lparr>mem_handle := None\<rparr>)
     } else Some (m, po_start, po_end)
   }"

definition zepto_append_part_of_request_to_response ::
  "mem \<Rightarrow> nat \<Rightarrow> parser_obj \<Rightarrow> parser_obj \<Rightarrow> (mem \<times> parser_obj) option" where
  "zepto_append_part_of_request_to_response m mem_h po_start po_end = do {
     ASSERT_MEMORY_HANDLE_VALID m mem_h;
     assert (mem_handle po_start = Some mem_h);
     assert (mem_handle po_start = mem_handle po_end);
     assert (offset po_start \<le> offset po_end);
     if res_valid po_start \<and> res_valid po_end then do {
       (dest_buff, m) \<leftarrow> memory_object_append m mem_h (offset po_end - offset po_start);
       p \<leftarrow> memory_object_get_request_ptr m mem_h;
       let src_buff = p + offset po_start;
       assert (src_buff \<noteq> NULL);
       B \<leftarrow> block_copy (BASE_MEM_BLOCK m) dest_buff src_buff (offset po_end - offset po_start);
       Some (set_block m B, po_start\<lparr>offset := offset po_end\<rparr>)
     } else Some (m, po_start)
   }"

definition zepto_parser_free_memory :: "mem \<Rightarrow> nat \<Rightarrow> mem option" where
  "zepto_parser_free_memory m mem_h = do {
     ASSERT_MEMORY_HANDLE_VALID m mem_h;
     memory_object_free m mem_h
   }"

definition zepto_parser_free_response :: "mem \<Rightarrow> nat \<Rightarrow> mem option" where
  "zepto_parser_free_response m mem_h = do {
     ASSERT_MEMORY_HANDLE_VALID m mem_h;
     memory_object_free_response m mem_h
   }"

definition zepto_append_response_to_response_of_another_handle :: "mem \<Rightarrow> nat \<Rightarrow> nat \<Rightarrow> mem option" where
  "zepto_append_response_to_response_of_another_handle m mem_h target_mem_h = do {
     assert (mem_h \<noteq> target_mem_h);
     ASSERT_MEMORY_HANDLE_VALID m mem_h;
     ASSERT_MEMORY_HANDLE_VALID m target_mem_h;
     sz \<leftarrow> memory_object_get_response_size m mem_h;
     (dest_buff, m) \<leftarrow> memory_object_append m target_mem_h sz;
     p \<leftarrow> memory_object_get_request_ptr m mem_h;
     rq \<leftarrow> memory_object_get_request_size m mem_h;
     let src_buff = p + rq;
     assert (src_buff \<noteq> NULL);
     sz \<leftarrow> memory_object_get_response_size m mem_h;
     B \<leftarrow> block_copy (BASE_MEM_BLOCK m) dest_buff src_buff sz;
     Some (set_block m B)
   }"

definition zepto_copy_response_to_response_of_another_handle :: "mem \<Rightarrow> nat \<Rightarrow> nat \<Rightarrow> mem option" where
  "zepto_copy_response_to_response_of_another_handle m mem_h target_mem_h = do {
     assert (mem_h \<noteq> target_mem_h);
     ASSERT_MEMORY_HANDLE_VALID m mem_h;
     ASSERT_MEMORY_HANDLE_VALID m target_mem_h;
     m \<leftarrow> zepto_parser_free_memory m target_mem_h;
     sz \<leftarrow> memory_object_get_response_size m mem_h;
     (dest_buff, m) \<leftarrow> memory_object_append m target_mem_h sz;
     p \<leftarrow> memory_object_get_request_ptr m mem_h;
     rq \<leftarrow> memory_object_get_request_size m mem_h;
     let src_buff = p + rq;
     assert (src_buff \<noteq> NULL);
     sz \<leftarrow> memory_object_get_response_size m mem_h;
     B \<leftarrow> block_copy (BASE_MEM_BLOCK m) dest_buff src_buff sz;
     Some (set_block m B)
   }"

definition zepto_copy_request_to_response_of_another_handle :: "mem \<Rightarrow> nat \<Rightarrow> nat \<Rightarrow> mem option" where
  "zepto_copy_request_to_response_of_another_handle m mem_h target_mem_h = do {
     assert (mem_h \<noteq> target_mem_h);
     ASSERT_MEMORY_HANDLE_VALID m mem_h;
     ASSERT_MEMORY_HANDLE_VALID m target_mem_h;
     m \<leftarrow> zepto_parser_free_memory m target_mem_h;
     sz \<leftarrow> memory_object_get_request_size m mem_h;
     (dest_buff, m) \<leftarrow> memory_object_append m target_mem_h sz;
     src_buff \<leftarrow> memory_object_get_request_ptr m mem_h;
     assert (src_buff \<noteq> NULL);
     sz \<leftarrow> memory_object_get_request_size m mem_h;
     B \<leftarrow> block_copy (BASE_MEM_BLOCK m) dest_buff src_buff sz;
     Some (set_block m B)
   }"

definition zepto_copy_part_of_request_to_response_of_another_handle ::
  "mem \<Rightarrow> nat \<Rightarrow> parser_obj \<Rightarrow> parser_obj \<Rightarrow> nat \<Rightarrow> mem option" where
  "zepto_copy_part_of_request_to_response_of_another_handle m mem_h po_start po_end target_mem_h = do {
     assert (mem_h \<noteq> target_mem_h);
     ASSERT_MEMORY_HANDLE_VALID m mem_h;
     assert (mem_handle po_start = Some mem_h);
     assert (mem_handle po_start = mem_handle po_end);
     assert (offset po_start \<le> offset po_end);
     m \<leftarrow> zepto_parser_free_memory m target_mem_h;
     (dest_buff, m) \<leftarrow> memory_object_append m target_mem_h (offset po_end - offset po_start);
     p \<leftarrow> memory_object_get_request_ptr m mem_h;
     let src_buff = p + offset po_start;
     assert (src_buff \<noteq> NULL);
     B \<leftarrow> block_copy (BASE_MEM_BLOCK m) dest_buff src_buff (offset po_end - offset po_start);
     Some (set_block m B)
   }"

definition zepto_append_part_of_request_to_response_of_another_handle ::
  "mem \<Rightarrow> nat \<Rightarrow> parser_obj \<Rightarrow> parser_obj \<Rightarrow> nat \<Rightarrow> mem option" where
  "zepto_append_part_of_request_to_response_of_another_handle m mem_h po_start po_end target_mem_h = do {
     assert (mem_h \<noteq> target_mem_h);
     ASSERT_MEMORY_HANDLE_VALID m mem_h;
     assert (mem_handle po_start = Some mem_h);
     assert (mem_handle po_start = mem_handle po_end);
     assert (offset po_start \<le> offset po_end);
     if res_valid po_start \<and> res_valid po_end then do {
       (dest_buff, m) \<leftarrow> memory_object_append m target_mem_h (offset po_end - offset po_start);
       p \<leftarrow> memory_object_get_request_ptr m mem_h;
       let src_buff = p + offset po_start;
       assert (src_buff \<noteq> NULL);
       B \<leftarrow> block_copy (BASE_MEM_BLOCK m) dest_buff src_buff (offset po_end - offset po_start);
       Some (set_block m B)
     } else Some m
   }"

definition zepto_prepend_part_of_request_to_response_of_another_handle ::
  "mem \<Rightarrow> nat \<Rightarrow> parser_obj \<Rightarrow> parser_obj \<Rightarrow> nat \<Rightarrow> mem option" where
  "zepto_prepend_part_of_request_to_response_of_another_handle m mem_h po_start po_end target_mem_h = do {
     assert (mem_h \<noteq> target_mem_h);
     ASSERT_MEMORY_HANDLE_VALID m mem_h;
     assert (mem_handle po_start = Some mem_h);
     assert (mem_handle po_start = mem_handle po_end);
     assert (offset po_start \<le> offset po_end);
     (dest_buff, m) \<leftarrow> memory_object_prepend m target_mem_h (offset po_end - offset po_start);
     p \<leftarrow> memory_object_get_request_ptr m mem_h;
     let src_buff = p + offset po_start;
     assert (src_buff \<noteq> NULL);
     B \<leftarrow> block_copy (BASE_MEM_BLOCK m) dest_buff src_buff (offset po_end - offset po_start);
     Some (set_block m B)
   }"

text \<open>\<open>memory_objects[ mem_h ].ptr\<close>: the array has only the fixed handles.\<close>

definition fixed_ptr :: "mem \<Rightarrow> nat \<Rightarrow> int option" where
  "fixed_ptr m mem_h = do {
     assert (mem_h < MEMORY_HANDLE_MAX m);
     obj \<leftarrow> MEMORY_OBJECT_PTR m mem_h;
     Some (ptr obj)
   }"

definition zepto_write_prepend_byte :: "mem \<Rightarrow> nat \<Rightarrow> u8 \<Rightarrow> mem option" where
  "zepto_write_prepend_byte m mem_h bt = do {
     ASSERT_MEMORY_HANDLE_VALID m mem_h;
     (buff, m) \<leftarrow> memory_object_prepend m mem_h 1;
     p \<leftarrow> fixed_ptr m mem_h;
     B \<leftarrow> mem_store BASE_MEM_BLOCK_SIZE (BASE_MEM_BLOCK m) p [bt];
     Some (set_block m B)
   }"

definition zepto_write_prepend_block :: "mem \<Rightarrow> nat \<Rightarrow> u8 list \<Rightarrow> mem option" where
  "zepto_write_prepend_block m mem_h block = do {
     ASSERT_MEMORY_HANDLE_VALID m mem_h;
     (buff, m) \<leftarrow> memory_object_prepend m mem_h (int (length block));
     p \<leftarrow> fixed_ptr m mem_h;
     B \<leftarrow> mem_store BASE_MEM_BLOCK_SIZE (BASE_MEM_BLOCK m) p block;
     Some (set_block m B)
   }"

section \<open>Writing packed integers\<close>

definition zepto_parser_encode_and_append_uint :: "mem \<Rightarrow> nat \<Rightarrow> u8 list \<Rightarrow> mem option" where
  "zepto_parser_encode_and_append_uint m mem_h num_bytes = do {
     ASSERT_MEMORY_HANDLE_VALID m mem_h;
     out_buff \<leftarrow> encode_to_buffer num_bytes;
     (buff, m) \<leftarrow> memory_object_append m mem_h (int (length out_buff));
     B \<leftarrow> mem_store BASE_MEM_BLOCK_SIZE (BASE_MEM_BLOCK m) buff out_buff;
     Some (set_block m B)
   }"

definition zepto_parser_encode_and_append_uint8 :: "mem \<Rightarrow> nat \<Rightarrow> u8 \<Rightarrow> mem option" where
  "zepto_parser_encode_and_append_uint8 m mem_h num = do {
     ASSERT_MEMORY_HANDLE_VALID m mem_h;
     zepto_parser_encode_and_append_uint m mem_h [num]
   }"

definition zepto_parser_encode_and_append_uint16 :: "mem \<Rightarrow> nat \<Rightarrow> u16 \<Rightarrow> mem option" where
  "zepto_parser_encode_and_append_uint16 m mem_h num = do {
     ASSERT_MEMORY_HANDLE_VALID m mem_h;
     zepto_parser_encode_and_append_uint m mem_h [ucast num, ucast (drop_bit 8 num)]
   }"

definition zepto_parser_encode_and_append_uint32 :: "mem \<Rightarrow> nat \<Rightarrow> u32 \<Rightarrow> mem option" where
  "zepto_parser_encode_and_append_uint32 m mem_h num = do {
     ASSERT_MEMORY_HANDLE_VALID m mem_h;
     zepto_parser_encode_and_append_uint m mem_h
       [ucast num, ucast (drop_bit 8 num), ucast (drop_bit 16 num), ucast (drop_bit 24 num)]
   }"

definition zepto_parser_encode_and_prepend_uint :: "mem \<Rightarrow> nat \<Rightarrow> u8 list \<Rightarrow> mem option" where
  "zepto_parser_encode_and_prepend_uint m mem_h num_bytes = do {
     ASSERT_MEMORY_HANDLE_VALID m mem_h;
     out_buff \<leftarrow> encode_to_buffer num_bytes;
     (buff, m) \<leftarrow> memory_object_prepend m mem_h (int (length out_buff));
     p \<leftarrow> fixed_ptr m mem_h;
     B \<leftarrow> mem_store BASE_MEM_BLOCK_SIZE (BASE_MEM_BLOCK m) p out_buff;
     Some (set_block m B)
   }"

definition zepto_parser_encode_and_prepend_uint16 :: "mem \<Rightarrow> nat \<Rightarrow> u16 \<Rightarrow> mem option" where
  "zepto_parser_encode_and_prepend_uint16 m mem_h num = do {
     ASSERT_MEMORY_HANDLE_VALID m mem_h;
     zepto_parser_encode_and_prepend_uint m mem_h [ucast num, ucast (drop_bit 8 num)]
   }"

section \<open>Locally generated data\<close>

definition zepto_memman_read_locally_generated_data_by_offset ::
  "mem \<Rightarrow> nat \<Rightarrow> int \<Rightarrow> int \<Rightarrow> u8 list option option" where
  "zepto_memman_read_locally_generated_data_by_offset m mem_h off sz = do {
     ASSERT_MEMORY_HANDLE_VALID m mem_h;
     obj \<leftarrow> MEMORY_OBJECT_PTR m mem_h;
     assert (ptr obj \<noteq> NULL);
     if rq_size obj + rsp_size obj < off + sz then Some None
     else map_option Some (mem_load BASE_MEM_BLOCK_SIZE (BASE_MEM_BLOCK m) (ptr obj + off) sz)
   }"

definition zepto_memman_write_locally_generated_data_by_offset ::
  "mem \<Rightarrow> nat \<Rightarrow> int \<Rightarrow> u8 list \<Rightarrow> (bool \<times> mem) option" where
  "zepto_memman_write_locally_generated_data_by_offset m mem_h off buff = do {
     ASSERT_MEMORY_HANDLE_VALID m mem_h;
     obj \<leftarrow> MEMORY_OBJECT_PTR m mem_h;
     assert (ptr obj \<noteq> NULL);
     if rq_size obj + rsp_size obj < off + int (length buff) then Some (False, m)
     else do {
       B \<leftarrow> mem_store BASE_MEM_BLOCK_SIZE (BASE_MEM_BLOCK m) (ptr obj + off) buff;
       Some (True, set_block m B)
     }
   }"

definition zepto_memman_append_locally_generated_data :: "mem \<Rightarrow> nat \<Rightarrow> u8 list \<Rightarrow> mem option" where
  "zepto_memman_append_locally_generated_data m mem_h buff = do {
     ASSERT_MEMORY_HANDLE_VALID m mem_h;
     obj \<leftarrow> MEMORY_OBJECT_PTR m mem_h;
     assert (ptr obj \<noteq> NULL);
     (buff_to, m) \<leftarrow> memory_object_append m mem_h (int (length buff));
     B \<leftarrow> mem_store BASE_MEM_BLOCK_SIZE (BASE_MEM_BLOCK m) buff_to buff;
     Some (set_block m B)
   }"

text \<open>
  In the last case the source subtracts \<open>size - obj->rsp_size\<close> from the request size after it has
  set \<open>obj->rsp_size\<close> to zero.
\<close>

definition zepto_memman_trim_locally_generated_data_at_right :: "mem \<Rightarrow> nat \<Rightarrow> int \<Rightarrow> mem option" where
  "zepto_memman_trim_locally_generated_data_at_right m mem_h sz = do {
     ASSERT_MEMORY_HANDLE_VALID m mem_h;
     obj \<leftarrow> MEMORY_OBJECT_PTR m mem_h;
     assert (ptr obj \<noteq> NULL);
     let ini_sz = to_u16 (rq_size obj + rsp_size obj);
     B \<leftarrow> memory_block_trim_at_right (BASE_MEM_BLOCK m) (ptr obj) ini_sz sz;
     if sz \<le> rsp_size obj then
       Some (set_object m B mem_h (obj\<lparr>rsp_size := to_u16 (rsp_size obj - sz)\<rparr>))
     else do {
       let obj = obj\<lparr>rsp_size := 0\<rparr>;
       Some (set_object m B mem_h (obj\<lparr>rq_size := to_u16 (rq_size obj - (sz - rsp_size obj))\<rparr>))
     }
   }"

definition zepto_memman_get_currently_allocated_size_for_locally_generated_data :: "mem \<Rightarrow> nat \<Rightarrow> int option" where
  "zepto_memman_get_currently_allocated_size_for_locally_generated_data m mem_h = do {
     ASSERT_MEMORY_HANDLE_VALID m mem_h;
     obj \<leftarrow> MEMORY_OBJECT_PTR m mem_h;
     Some (to_u16 (rq_size obj + rsp_size obj))
   }"

section \<open>Parsing\<close>

definition parser_handle :: "mem \<Rightarrow> parser_obj \<Rightarrow> nat option" where
  "parser_handle m po = do {
     h \<leftarrow> mem_handle po;
     ASSERT_MEMORY_HANDLE_VALID m h;
     Some h
   }"

definition zepto_parser_init :: "mem \<Rightarrow> nat \<Rightarrow> parser_obj option" where
  "zepto_parser_init m mem_h = do {
     ASSERT_MEMORY_HANDLE_VALID m mem_h;
     Some \<lparr>mem_handle = Some mem_h, offset = 0, res_valid = True\<rparr>
   }"

definition zepto_parser_init_by_parser :: "mem \<Rightarrow> parser_obj \<Rightarrow> parser_obj option" where
  "zepto_parser_init_by_parser m po_base = do {
     parser_handle m po_base;
     Some \<lparr>mem_handle = mem_handle po_base, offset = offset po_base, res_valid = res_valid po_base\<rparr>
   }"

definition zepto_parser_strip_beginning_of_request :: "mem \<Rightarrow> parser_obj \<Rightarrow> (mem \<times> parser_obj) option" where
  "zepto_parser_strip_beginning_of_request m po = do {
     h \<leftarrow> parser_handle m po;
     m \<leftarrow> memory_object_strip_beginning_of_request m h (offset po);
     Some (m, po\<lparr>offset := 0\<rparr>)
   }"

definition zepto_parse_uint8 :: "mem \<Rightarrow> parser_obj \<Rightarrow> (u8 \<times> parser_obj) option" where
  "zepto_parse_uint8 m po = do {
     h \<leftarrow> parser_handle m po;
     rq_sz \<leftarrow> memory_object_get_request_size m h;
     if offset po < rq_sz then do {
       p \<leftarrow> memory_object_get_request_ptr m h;
       let buff = p + offset po;
       assert (buff \<noteq> NULL);
       ret \<leftarrow> peek_block (BASE_MEM_BLOCK m) buff;
       Some (ret, po\<lparr>offset := to_u16 (offset po + 1)\<rparr>)
     } else Some (0, po\<lparr>res_valid := False\<rparr>)
   }"

text \<open>\<open>None\<close> in the result is the return value \<open>false\<close>, with the block left as it was.\<close>

definition zepto_parse_read_block :: "mem \<Rightarrow> parser_obj \<Rightarrow> int \<Rightarrow> (u8 list option \<times> parser_obj) option" where
  "zepto_parse_read_block m po sz = do {
     h \<leftarrow> parser_handle m po;
     rq_sz \<leftarrow> memory_object_get_request_size m h;
     if rq_sz < offset po + sz then Some (None, po\<lparr>res_valid := False\<rparr>)
     else do {
       p \<leftarrow> memory_object_get_request_ptr m h;
       let buff = p + offset po;
       assert (buff \<noteq> NULL);
       block \<leftarrow> mem_load BASE_MEM_BLOCK_SIZE (BASE_MEM_BLOCK m) buff sz;
       Some (Some block, po\<lparr>offset := to_u16 (offset po + sz)\<rparr>)
     }
   }"

definition zepto_parse_skip_block :: "mem \<Rightarrow> parser_obj \<Rightarrow> int \<Rightarrow> (bool \<times> parser_obj) option" where
  "zepto_parse_skip_block m po sz = do {
     h \<leftarrow> parser_handle m po;
     rq_sz \<leftarrow> memory_object_get_request_size m h;
     if rq_sz < offset po + sz then Some (False, po\<lparr>res_valid := False\<rparr>)
     else Some (True, po\<lparr>offset := to_u16 (offset po + sz)\<rparr>)
   }"

definition zepto_parsing_remaining_bytes :: "mem \<Rightarrow> parser_obj \<Rightarrow> (int \<times> parser_obj) option" where
  "zepto_parsing_remaining_bytes m po = do {
     h \<leftarrow> parser_handle m po;
     rq_sz \<leftarrow> memory_object_get_request_size m h;
     if offset po \<le> rq_sz then Some (rq_sz - offset po, po)
     else Some (0, po\<lparr>res_valid := False\<rparr>)
   }"

text \<open>\<open>max_encoded_size\<close> is a \<open>uint8_t\<close>; the remaining size is passed to it modulo 256.\<close>

definition zepto_parser_decode_uint :: "mem \<Rightarrow> parser_obj \<Rightarrow> nat \<Rightarrow> (u8 list \<times> parser_obj) option" where
  "zepto_parser_decode_uint m po target_sz = do {
     h \<leftarrow> parser_handle m po;
     p \<leftarrow> memory_object_get_request_ptr m h;
     let buff = p + offset po;
     assert (buff \<noteq> NULL);
     sz \<leftarrow> memory_object_get_request_size m h;
     (ok, end_p, bytes_out) \<leftarrow>
       zepto_parser_decode_uint_core (BASE_MEM_BLOCK m) buff ((sz - offset po) mod 256) target_sz;
     if ok then do {
       assert (0 \<le> end_p - buff \<and> end_p - buff \<le> sz - offset po);
       Some (bytes_out, po\<lparr>offset := to_u16 (offset po + (end_p - buff))\<rparr>)
     } else Some (bytes_out, po\<lparr>res_valid := False\<rparr>)
   }"

definition zepto_parse_encoded_uint8 :: "mem \<Rightarrow> parser_obj \<Rightarrow> (u8 \<times> parser_obj) option" where
  "zepto_parse_encoded_uint8 m po = do {
     (buff, po) \<leftarrow> zepto_parser_decode_uint m po 1;
     Some (buff ! 0, po)
   }"

definition zepto_parse_encoded_uint16 :: "mem \<Rightarrow> parser_obj \<Rightarrow> (u16 \<times> parser_obj) option" where
  "zepto_parse_encoded_uint16 m po = do {
     (buff, po) \<leftarrow> zepto_parser_decode_uint m po 2;
     let num_out = ucast (buff ! 1);
     let num_out = push_bit 8 num_out;
     let num_out = num_out OR ucast (buff ! 0);
     Some (num_out, po)
   }"

text \<open>The shifts are the ones of the source: 24, then 16, then 8, each on the running value.\<close>

definition zepto_parse_encoded_uint32 :: "mem \<Rightarrow> parser_obj \<Rightarrow> (u32 \<times> parser_obj) option" where
  "zepto_parse_encoded_uint32 m po = do {
     (buff, po) \<leftarrow> zepto_parser_decode_uint m po 4;
     let num_out = ucast (buff ! 3);
     let num_out = push_bit 24 num_out;
     let num_out = num_out OR ucast (buff ! 2);
     let num_out = push_bit 16 num_out;
     let num_out = num_out OR ucast (buff ! 1);
     let num_out = push_bit 8 num_out;
     let num_out = num_out OR ucast (buff ! 0);
     Some (num_out, po)
   }"

section \<open>Reading the abstract view\<close>

lemma view_object:
  assumes "heap_inv m" "content m h = Some (rq, rsp)"
  obtains xs ob ys where "live_at m xs ob ys" "h = length xs"
    "rq = request_bytes (BASE_MEM_BLOCK m) ob" "rsp = response_bytes (BASE_MEM_BLOCK m) ob"
    "rq_size ob = int (length rq)" "rsp_size ob = int (length rsp)"
proof -
  from assms(2) have "h < length (memory_objects m)" "ptr (memory_objects m ! h) \<noteq> NULL"
    by (auto simp: content_def split: if_splits)
  from live_at_I [OF assms(1) this] obtain xs ob ys where live: "live_at m xs ob ys" and h: "h = length xs" by metis
  with live_at_content [OF live] assms(2) have "rq = request_bytes (BASE_MEM_BLOCK m) ob"
    "rsp = response_bytes (BASE_MEM_BLOCK m) ob" by simp_all
  with live_at_order [OF live] live h that show thesis by (simp add: request_bytes_def response_bytes_def)
qed

lemma valid_handle:
  assumes "heap_inv m" "content m h = Some c"
  shows "ASSERT_MEMORY_HANDLE_VALID m h = Some ()"
proof -
  obtain rq rsp where c: "c = (rq, rsp)" by fastforce
  from view_object [OF assms(1) assms(2) [unfolded c]] obtain xs ob ys where
    live: "live_at m xs ob ys" and h: "h = length xs" by metis
  from live_at_object [OF live] live_at_ptr [OF live] live_at_order [OF live] show ?thesis
    by (simp add: ASSERT_MEMORY_HANDLE_VALID_def h)
qed

lemma sizes_of_view:
  assumes "heap_inv m" "content m h = Some (rq, rsp)"
  shows "memory_object_get_request_size m h = Some (int (length rq))"
    "memory_object_get_response_size m h = Some (int (length rsp))"
proof -
  from view_object [OF assms] obtain xs ob ys where live: "live_at m xs ob ys" and h: "h = length xs"
    and sz: "rq_size ob = int (length rq)" "rsp_size ob = int (length rsp)" by metis
  from live_at_object [OF live] live_at_ptr [OF live] sz
  show "memory_object_get_request_size m h = Some (int (length rq))"
    "memory_object_get_response_size m h = Some (int (length rsp))"
    by (auto simp: memory_object_get_request_size_def memory_object_get_response_size_def get_object_def h)
qed

text \<open>The bytes of an object are read back from the block at its address.\<close>

lemma load_request:
  assumes "heap_inv m" "content m h = Some (rq, rsp)"
  obtains p where "memory_object_get_request_ptr m h = Some p" "0 < p"
    "\<And>a n. 0 \<le> a \<Longrightarrow> 0 \<le> n \<Longrightarrow> a + n \<le> int (length rq) \<Longrightarrow>
      mem_load BASE_MEM_BLOCK_SIZE (BASE_MEM_BLOCK m) (p + a) n = Some (take (nat n) (drop (nat a) rq))"
    "\<And>n. 0 \<le> n \<Longrightarrow> n \<le> int (length rsp) \<Longrightarrow>
      mem_load BASE_MEM_BLOCK_SIZE (BASE_MEM_BLOCK m) (p + int (length rq)) n = Some (take (nat n) rsp)"
proof -
  from view_object [OF assms] obtain xs ob ys where live: "live_at m xs ob ys" and h: "h = length xs"
    and v: "rq = request_bytes (BASE_MEM_BLOCK m) ob" "rsp = response_bytes (BASE_MEM_BLOCK m) ob"
    and sz: "rq_size ob = int (length rq)" "rsp_size ob = int (length rsp)" by metis
  note ord = live_at_order [OF live]
  show thesis
  proof (rule that [of "ptr ob"])
    show "memory_object_get_request_ptr m h = Some (ptr ob)"
      using live_at_object [OF live] live_at_ptr [OF live]
      by (simp add: memory_object_get_request_ptr_def get_object_def h)
    show "0 < ptr ob" using ord by simp
    fix a n :: int
    assume an: "0 \<le> a" "0 \<le> n" "a + n \<le> int (length rq)"
    then have "in_range BASE_MEM_BLOCK_SIZE (ptr ob + a) n"
      using ord sz by (simp add: in_range_def)
    moreover have "take (nat n) (drop (nat a) rq) = bytes_at (BASE_MEM_BLOCK m) (ptr ob + a) n"
      using an sz unfolding v(1) request_bytes_def by (simp add: drop_bytes_at take_bytes_at)
    ultimately show "mem_load BASE_MEM_BLOCK_SIZE (BASE_MEM_BLOCK m) (ptr ob + a) n = Some (take (nat n) (drop (nat a) rq))"
      by (simp add: mem_load_def)
  next
    fix n :: int
    assume n: "0 \<le> n" "n \<le> int (length rsp)"
    then have "in_range BASE_MEM_BLOCK_SIZE (ptr ob + int (length rq)) n"
      using ord sz by (simp add: in_range_def)
    moreover have "take (nat n) rsp = bytes_at (BASE_MEM_BLOCK m) (ptr ob + int (length rq)) n"
      using n sz unfolding v(2) response_bytes_def by (simp add: take_bytes_at v(1))
    ultimately show "mem_load BASE_MEM_BLOCK_SIZE (BASE_MEM_BLOCK m) (ptr ob + int (length rq)) n = Some (take (nat n) rsp)"
      by (simp add: mem_load_def)
  qed
qed

section \<open>Correctness of writing\<close>

lemma bytes_at_stored_before:
  "q + sz \<le> p \<Longrightarrow> bytes_at (stored B p bs) q sz = bytes_at B q sz"
  by (rule bytes_at_cong) (simp add: stored_def)

text \<open>An append followed by a store of all the new bytes.\<close>

lemma append_store:
  assumes inv: "heap_inv m" and view: "content m h = Some (rq, rsp)" and "0 \<le> sz"
  shows "if sz \<le> free_space m
    then \<exists>p m1. memory_object_append m h sz = Some (p, m1) \<and> 0 < p \<and> heap_inv m1 \<and>
      (\<forall>h'. h' \<noteq> h \<longrightarrow> content m1 h' = content m h') \<and> (\<exists>rsp'. content m1 h = Some (rq, rsp')) \<and>
      (\<forall>bs. int (length bs) = sz \<longrightarrow>
        (\<exists>B. mem_store BASE_MEM_BLOCK_SIZE (BASE_MEM_BLOCK m1) p bs = Some B \<and>
          grown m h (rq, rsp @ bs) (set_block m1 B)))
    else memory_object_append m h sz = None"
proof -
  from view_object [OF inv view] obtain xs ob ys where live: "live_at m xs ob ys" and h: "h = length xs"
    and v: "rq = request_bytes (BASE_MEM_BLOCK m) ob" "rsp = response_bytes (BASE_MEM_BLOCK m) ob"
    and szs: "rq_size ob = int (length rq)" "rsp_size ob = int (length rsp)" by metis
  show ?thesis
  proof (cases "sz \<le> free_space m")
    case False
    then show ?thesis using append_effect [OF live assms(3)] h by simp
  next
    case True
    then obtain p m1 where ap: "memory_object_append m h sz = Some (p, m1)" and "appended m h ob sz p m1"
      using append_effect [OF live assms(3)] h by auto
    then obtain new ob1 where new: "length new = nat sz" and g: "grown m h (rq, rsp @ new) m1"
      and ob1: "MEMORY_OBJECT_PTR m1 h = Some ob1" "p = obj_end ob1 - sz" "rq_size ob1 = rq_size ob"
        "rsp_size ob1 = rsp_size ob + sz"
      by (auto simp: appended_def v)
    have g': "heap_inv m1" "content m1 = (content m)(h \<mapsto> (rq, rsp @ new))"
      "MEMORY_HANDLE_MAX m1 = MEMORY_HANDLE_MAX m" "length (memory_objects m1) = length (memory_objects m)"
      using g by (auto simp: grown_def)
    have "content m1 h = Some (rq, rsp @ new)" using g'(2) by simp
    from view_object [OF g'(1) this] obtain xs1 ob1' ys1 where live1: "live_at m1 xs1 ob1' ys1" and h1: "h = length xs1"
      and v1: "rq = request_bytes (BASE_MEM_BLOCK m1) ob1'" "rsp @ new = response_bytes (BASE_MEM_BLOCK m1) ob1'" by metis
    have same: "ob1' = ob1" using ob1(1) live_at_object [OF live1] h1 by simp
    note live1 = live1 [unfolded same] and v1 = v1 [unfolded same]
    note ord1 = live_at_order [OF live1]
    have p: "0 < p" "p = ptr ob1 + rq_size ob1 + rsp_size ob"
      using ob1(2,4) ord1 szs by (auto simp: obj_end_def)
    have "\<exists>B. mem_store BASE_MEM_BLOCK_SIZE (BASE_MEM_BLOCK m1) p bs = Some B \<and> grown m h (rq, rsp @ bs) (set_block m1 B)"
      if len: "int (length bs) = sz" for bs
    proof -
      let ?B = "stored (BASE_MEM_BLOCK m1) p bs"
      have range: "ptr ob1 \<le> p" "p + int (length bs) \<le> obj_end ob1"
        using p ob1 ord1 szs len by (auto simp: obj_end_def)
      have st: "mem_store BASE_MEM_BLOCK_SIZE (BASE_MEM_BLOCK m1) p bs = Some ?B"
        and put: "put_at m1 xs1 ob1 ys1 (request_bytes ?B ob1, response_bytes ?B ob1) (set_block m1 ?B)"
        using store_in_object [OF live1 range] by simp_all
      have rq: "request_bytes ?B ob1 = rq"
        using p ord1 szs v1(1) by (simp add: request_bytes_def bytes_at_stored_before)
      have "response_bytes ?B ob1 = bytes_at ?B (ptr ob1 + rq_size ob1) (rsp_size ob) @
          bytes_at ?B (ptr ob1 + rq_size ob1 + rsp_size ob) sz"
        using ob1(4) szs assms(3) by (simp add: response_bytes_def bytes_at_append)
      also have "bytes_at ?B (ptr ob1 + rq_size ob1 + rsp_size ob) sz = bs"
        unfolding p(2) [symmetric] len [symmetric] by simp
      also have "bytes_at ?B (ptr ob1 + rq_size ob1) (rsp_size ob) = take (length rsp) (response_bytes (BASE_MEM_BLOCK m1) ob1)"
        using p szs ob1(4) assms(3) take_bytes_at [of "rsp_size ob" "rsp_size ob1" "BASE_MEM_BLOCK m1" "ptr ob1 + rq_size ob1"]
        by (simp add: bytes_at_stored_before response_bytes_def)
      also have "\<dots> = rsp" unfolding v1(2) [symmetric] by simp
      finally have rsp: "response_bytes ?B ob1 = rsp @ bs" .
      show ?thesis
        using st put g' h1 live_at_objs [OF live1] unfolding rq rsp
        by (simp add: grown_def put_at_def)
    qed
    then show ?thesis using True ap p(1) g'(1,2) by auto
  qed
qed

lemma grownD:
  assumes "grown m h c m'"
  shows "heap_inv m'" "content m' = (content m)(h \<mapsto> c)" "MEMORY_HANDLE_MAX m' = MEMORY_HANDLE_MAX m"
    "length (memory_objects m') = length (memory_objects m)"
  using assms by (auto simp: grown_def)

lemma write_block_effect:
  assumes "heap_inv m" "content m h = Some (rq, rsp)"
  shows "if int (length bs) \<le> free_space m
    then \<exists>m'. zepto_write_block m h bs = Some m' \<and> grown m h (rq, rsp @ bs) m'
    else zepto_write_block m h bs = None"
proof (cases "int (length bs) \<le> free_space m")
  case True
  with append_store [OF assms, of "int (length bs)"] obtain p m1 B where
    "memory_object_append m h (int (length bs)) = Some (p, m1)"
    "mem_store BASE_MEM_BLOCK_SIZE (BASE_MEM_BLOCK m1) p bs = Some B" "grown m h (rq, rsp @ bs) (set_block m1 B)"
    by auto
  with True valid_handle [OF assms] show ?thesis by (simp add: zepto_write_block_def)
next
  case False
  with append_store [OF assms, of "int (length bs)"] valid_handle [OF assms] show ?thesis
    by (simp add: zepto_write_block_def)
qed

lemma write_uint8_block: "heap_inv m \<Longrightarrow> content m h \<noteq> None \<Longrightarrow> zepto_write_uint8 m h v = zepto_write_block m h [v]"
proof -
  assume inv: "heap_inv m" and "content m h \<noteq> None"
  then obtain rq rsp where v: "content m h = Some (rq, rsp)" by auto
  from append_store [OF inv v, of 1] valid_handle [OF inv v] show ?thesis
    by (auto simp: zepto_write_uint8_def zepto_write_block_def NULL_def split: if_splits)
qed

lemma encode_and_append_block:
  assumes "heap_inv m" "content m h \<noteq> None" "bs \<noteq> []" "length bs \<le> 14"
  shows "zepto_parser_encode_and_append_uint m h bs = zepto_write_block m h (packed_nat (le_value bs))"
proof -
  obtain c where "content m h = Some c" using assms(2) by auto
  from valid_handle [OF assms(1) this] encode_to_buffer_ok [OF assms(3,4)] show ?thesis
    by (simp add: zepto_parser_encode_and_append_uint_def zepto_write_block_def)
qed

lemma unat_byte: "unat (ucast (drop_bit (8 * k) w) :: u8) = unat (w :: 'a::len word) div 256 ^ k mod 256"
proof -
  have "unat (ucast (drop_bit (8 * k) w) :: u8) = unat (drop_bit (8 * k) w) mod 256"
    by (simp add: unsigned_ucast_eq take_bit_eq_mod)
  also have "unat (drop_bit (8 * k) w) = unat w div 2 ^ (8 * k)"
    by (subst unat_drop_bit_eq) (simp add: drop_bit_eq_div)
  also have "(2 :: nat) ^ (8 * k) = 256 ^ k" by (simp add: power_mult)
  finally show ?thesis .
qed

lemma mod_split_256: "n < 256 * k \<Longrightarrow> n mod 256 + 256 * ((n div 256)) = (n :: nat)"
  by (simp add: mult.commute)

lemma le_value_u16: "le_value [ucast num, ucast (drop_bit 8 num)] = unat (num :: u16)"
proof -
  have "unat num < 65536" using unsigned_less [of num, where ?'a = nat] by simp
  then have "unat num div 256 mod 256 = unat num div 256" by (simp add: div_less_iff_less_mult)
  then show ?thesis using unat_byte [of 0 num] unat_byte [of 1 num] by simp
qed

lemma le_value_u8: "le_value [num] = unat num"
  by simp

lemma four_bytes:
  "q3 = r3 \<Longrightarrow> q2 = r2 + 256 * q3 \<Longrightarrow> q1 = r1 + 256 * q2 \<Longrightarrow> n = r0 + 256 * q1 \<Longrightarrow>
    r0 + 256 * (r1 + 256 * (r2 + 256 * (r3 + 256 * 0))) = (n :: nat)"
  by simp

lemma le_value_u32:
  "le_value [ucast num, ucast (drop_bit 8 num), ucast (drop_bit 16 num), ucast (drop_bit 24 num)] = unat (num :: u32)"
proof -
  define n where "n = unat num"
  have "n < 4294967296" using unsigned_less [of num, where ?'a = nat] by (simp add: n_def)
  then have q3: "n div 16777216 = n div 16777216 mod 256" by (simp add: div_less_iff_less_mult)
  have q2: "n div 65536 = n div 65536 mod 256 + 256 * (n div 16777216)"
    using div_mult2_eq [of n 65536 256] mod_div_mult_eq [of "n div 65536" 256] by simp
  have q1: "n div 256 = n div 256 mod 256 + 256 * (n div 65536)"
    using div_mult2_eq [of n 256 256] mod_div_mult_eq [of "n div 256" 256] by simp
  have q0: "n = n mod 256 + 256 * (n div 256)"
    using mod_div_mult_eq [of n 256] by simp
  have u: "unat (ucast num :: u8) = n mod 256" "unat (ucast (drop_bit 8 num) :: u8) = n div 256 mod 256"
    "unat (ucast (drop_bit 16 num) :: u8) = n div 65536 mod 256" "unat (ucast (drop_bit 24 num) :: u8) = n div 16777216 mod 256"
    using unat_byte [of 0 num] unat_byte [of 1 num] unat_byte [of 2 num] unat_byte [of 3 num] by (simp_all add: n_def)
  show ?thesis unfolding le_value_simps u n_def [symmetric] by (rule four_bytes [OF q3 q2 q1 q0])
qed

lemma append_packed:
  assumes "heap_inv m" "content m h \<noteq> None"
  shows "zepto_parser_encode_and_append_uint8 m h v8 = zepto_write_block m h (packed_nat (unat v8))"
    "zepto_parser_encode_and_append_uint16 m h v16 = zepto_write_block m h (packed_nat (unat v16))"
    "zepto_parser_encode_and_append_uint32 m h v32 = zepto_write_block m h (packed_nat (unat v32))"
proof -
  obtain c where "content m h = Some c" using assms(2) by auto
  note valid = valid_handle [OF assms(1) this]
  note enc = encode_and_append_block [OF assms]
  show "zepto_parser_encode_and_append_uint8 m h v8 = zepto_write_block m h (packed_nat (unat v8))"
    using enc [of "[v8]"] by (simp add: zepto_parser_encode_and_append_uint8_def valid)
  show "zepto_parser_encode_and_append_uint16 m h v16 = zepto_write_block m h (packed_nat (unat v16))"
    using enc [of "[ucast v16, ucast (drop_bit 8 v16)]"] le_value_u16 [of v16]
    by (simp add: zepto_parser_encode_and_append_uint16_def valid)
  show "zepto_parser_encode_and_append_uint32 m h v32 = zepto_write_block m h (packed_nat (unat v32))"
    using enc [of "[ucast v32, ucast (drop_bit 8 v32), ucast (drop_bit 16 v32), ucast (drop_bit 24 v32)]"] le_value_u32 [of v32]
    by (simp add: zepto_parser_encode_and_append_uint32_def valid)
qed

section \<open>Correctness of copying\<close>

lemma free_effect:
  assumes "heap_inv m" "content m h = Some (rq, rsp)"
  shows "\<exists>m'. zepto_parser_free_memory m h = Some m' \<and> grown m h ([], []) m'"
proof -
  from view_object [OF assms] obtain xs ob ys where live: "live_at m xs ob ys" and h: "h = length xs" by metis
  from object_free [OF live] obtain m' where "memory_object_free m h = Some m'"
    and "put_at m xs (ob\<lparr>rq_size := 0, rsp_size := 0\<rparr>) ys ([], []) m'" unfolding h by blast
  with valid_handle [OF assms] live_at_objs [OF live] show ?thesis
    by (simp add: zepto_parser_free_memory_def grown_def put_at_def h)
qed

lemma grown_grown: "grown m h c m1 \<Longrightarrow> grown m1 h c' m2 \<Longrightarrow> grown m h c' m2"
  by (simp add: grown_def)

lemma load_whole_request:
  assumes "heap_inv m" "content m h = Some (rq, rsp)"
  obtains p where "memory_object_get_request_ptr m h = Some p" "0 < p"
    "mem_load BASE_MEM_BLOCK_SIZE (BASE_MEM_BLOCK m) p (int (length rq)) = Some rq"
    "mem_load BASE_MEM_BLOCK_SIZE (BASE_MEM_BLOCK m) (p + int (length rq)) (int (length rsp)) = Some rsp"
proof -
  from load_request [OF assms] obtain p where p: "memory_object_get_request_ptr m h = Some p" "0 < p"
    and l: "\<And>a n. 0 \<le> a \<Longrightarrow> 0 \<le> n \<Longrightarrow> a + n \<le> int (length rq) \<Longrightarrow>
      mem_load BASE_MEM_BLOCK_SIZE (BASE_MEM_BLOCK m) (p + a) n = Some (take (nat n) (drop (nat a) rq))"
    "\<And>n. 0 \<le> n \<Longrightarrow> n \<le> int (length rsp) \<Longrightarrow>
      mem_load BASE_MEM_BLOCK_SIZE (BASE_MEM_BLOCK m) (p + int (length rq)) n = Some (take (nat n) rsp)" by metis
  from l(1) [of 0 "int (length rq)"] l(2) [of "int (length rsp)"] p that show thesis by simp
qed

text \<open>Appending the bytes that lie in another, unchanged, handle.\<close>

lemma append_copy:
  assumes inv: "heap_inv m" and t: "content m t = Some (trq, trsp)" and s: "content m h = Some (rq, rsp)"
    and "h \<noteq> t" "int (length bs) \<le> free_space m"
  obtains p m1 where "memory_object_append m t (int (length bs)) = Some (p, m1)" "0 < p"
    "heap_inv m1" "content m1 h = Some (rq, rsp)"
    "\<exists>B. mem_store BASE_MEM_BLOCK_SIZE (BASE_MEM_BLOCK m1) p bs = Some B \<and> grown m t (trq, trsp @ bs) (set_block m1 B)"
proof -
  from append_store [OF inv t, of "int (length bs)"] assms(5) obtain p m1 where
    "memory_object_append m t (int (length bs)) = Some (p, m1)" "0 < p" "heap_inv m1"
    "\<forall>h'. h' \<noteq> t \<longrightarrow> content m1 h' = content m h'"
    and *: "\<forall>bs'. int (length bs') = int (length bs) \<longrightarrow>
        (\<exists>B. mem_store BASE_MEM_BLOCK_SIZE (BASE_MEM_BLOCK m1) p bs' = Some B \<and>
          grown m t (trq, trsp @ bs') (set_block m1 B))" by auto
  with that [of p m1] spec [OF *, of bs] assms(4) s show thesis by auto
qed

lemma append_response_to_response:
  assumes inv: "heap_inv m" and t: "content m t = Some (trq, trsp)" and s: "content m h = Some (rq, rsp)"
    and "h \<noteq> t" "int (length rsp) \<le> free_space m"
  shows "\<exists>m'. zepto_append_response_to_response_of_another_handle m h t = Some m' \<and> grown m t (trq, trsp @ rsp) m'"
proof -
  from append_copy [OF assms] obtain p m1 B where a: "memory_object_append m t (int (length rsp)) = Some (p, m1)"
    and m1: "heap_inv m1" "content m1 h = Some (rq, rsp)"
    and B: "mem_store BASE_MEM_BLOCK_SIZE (BASE_MEM_BLOCK m1) p rsp = Some B" "grown m t (trq, trsp @ rsp) (set_block m1 B)"
    by metis
  from load_whole_request [OF m1] obtain q where q: "memory_object_get_request_ptr m1 h = Some q" "0 < q"
    "mem_load BASE_MEM_BLOCK_SIZE (BASE_MEM_BLOCK m1) (q + int (length rq)) (int (length rsp)) = Some rsp" by metis
  then have "q + int (length rq) \<noteq> NULL" by (simp add: NULL_def)
  then show ?thesis
    using assms(4) valid_handle [OF inv s] valid_handle [OF inv t] sizes_of_view [OF inv s] sizes_of_view [OF m1] a B q
    by (simp add: zepto_append_response_to_response_of_another_handle_def block_copy_def Let_def)
qed

lemma free_space_freed:
  assumes "grown m h ([], []) m'" "heap_inv m" "content m h = Some (rq, rsp)"
  shows "free_space m' = free_space m + int (length rq) + int (length rsp)"
proof -
  have "h < length (memory_objects m)" using assms(3) by (auto simp: content_def split: if_splits)
  from free_space_grown [OF assms(1,2) this] assms(3) show ?thesis by simp
qed

lemma copy_response_to_response:
  assumes inv: "heap_inv m" and t: "content m t = Some (trq, trsp)" and s: "content m h = Some (rq, rsp)"
    and "h \<noteq> t" "int (length rsp) \<le> free_space m + int (length trq) + int (length trsp)"
  shows "\<exists>m'. zepto_copy_response_to_response_of_another_handle m h t = Some m' \<and> grown m t ([], rsp) m'"
proof -
  from free_effect [OF inv t] obtain m0 where f: "zepto_parser_free_memory m t = Some m0" and g: "grown m t ([], []) m0" by blast
  have inv0: "heap_inv m0" and t0: "content m0 t = Some ([], [])" and s0: "content m0 h = Some (rq, rsp)"
    using grownD(1,2) [OF g] s assms(4) by auto
  have fits: "int (length rsp) \<le> free_space m0"
    using assms(5) free_space_freed [OF g inv t] by simp
  from append_copy [OF inv0 t0 s0 assms(4) fits] obtain p m1 B where
    a: "memory_object_append m0 t (int (length rsp)) = Some (p, m1)"
    and m1: "heap_inv m1" "content m1 h = Some (rq, rsp)"
    and B: "mem_store BASE_MEM_BLOCK_SIZE (BASE_MEM_BLOCK m1) p rsp = Some B" "grown m0 t ([], [] @ rsp) (set_block m1 B)"
    by metis
  from load_whole_request [OF m1] obtain q where q: "memory_object_get_request_ptr m1 h = Some q" "0 < q"
    "mem_load BASE_MEM_BLOCK_SIZE (BASE_MEM_BLOCK m1) (q + int (length rq)) (int (length rsp)) = Some rsp" by metis
  then have "q + int (length rq) \<noteq> NULL" by (simp add: NULL_def)
  then show ?thesis
    using assms(4) valid_handle [OF inv s] valid_handle [OF inv t] f sizes_of_view [OF inv0 s0] sizes_of_view [OF m1] a B q
      grown_grown [OF g, of "([], rsp)"]
    by (simp add: zepto_copy_response_to_response_of_another_handle_def block_copy_def Let_def)
qed

lemma copy_request_to_response:
  assumes inv: "heap_inv m" and t: "content m t = Some (trq, trsp)" and s: "content m h = Some (rq, rsp)"
    and "h \<noteq> t" "int (length rq) \<le> free_space m + int (length trq) + int (length trsp)"
  shows "\<exists>m'. zepto_copy_request_to_response_of_another_handle m h t = Some m' \<and> grown m t ([], rq) m'"
proof -
  from free_effect [OF inv t] obtain m0 where f: "zepto_parser_free_memory m t = Some m0" and g: "grown m t ([], []) m0" by blast
  have inv0: "heap_inv m0" and t0: "content m0 t = Some ([], [])" and s0: "content m0 h = Some (rq, rsp)"
    using grownD(1,2) [OF g] s assms(4) by auto
  have fits: "int (length rq) \<le> free_space m0"
    using assms(5) free_space_freed [OF g inv t] by simp
  from append_copy [OF inv0 t0 s0 assms(4) fits] obtain p m1 B where
    a: "memory_object_append m0 t (int (length rq)) = Some (p, m1)"
    and m1: "heap_inv m1" "content m1 h = Some (rq, rsp)"
    and B: "mem_store BASE_MEM_BLOCK_SIZE (BASE_MEM_BLOCK m1) p rq = Some B" "grown m0 t ([], [] @ rq) (set_block m1 B)"
    by metis
  from load_whole_request [OF m1] obtain q where q: "memory_object_get_request_ptr m1 h = Some q" "0 < q"
    "mem_load BASE_MEM_BLOCK_SIZE (BASE_MEM_BLOCK m1) q (int (length rq)) = Some rq" by metis
  then have "q \<noteq> NULL" by (simp add: NULL_def)
  then show ?thesis
    using assms(4) valid_handle [OF inv s] valid_handle [OF inv t] f sizes_of_view [OF inv0 s0] sizes_of_view [OF m1] a B q
      grown_grown [OF g, of "([], rq)"]
    by (simp add: zepto_copy_request_to_response_of_another_handle_def block_copy_def)
qed

lemma append_part_of_request_to_another:
  assumes inv: "heap_inv m" and t: "content m t = Some (trq, trsp)" and s: "content m h = Some (rq, rsp)"
    and "h \<noteq> t" "0 \<le> a" "a \<le> b" "b \<le> int (length rq)" "b - a \<le> free_space m"
    and po: "mem_handle po1 = Some h" "mem_handle po2 = Some h" "offset po1 = a" "offset po2 = b"
      "res_valid po1" "res_valid po2"
  shows "\<exists>m'. zepto_append_part_of_request_to_response_of_another_handle m h po1 po2 t = Some m' \<and>
    grown m t (trq, trsp @ take (nat (b - a)) (drop (nat a) rq)) m'"
proof -
  let ?bs = "take (nat (b - a)) (drop (nat a) rq)"
  have len: "int (length ?bs) = b - a" using assms(5-7) by simp
  then have fits: "int (length ?bs) \<le> free_space m" using assms(8) by simp
  from append_copy [OF inv t s assms(4) fits] obtain p m1 B where
    ap: "memory_object_append m t (int (length ?bs)) = Some (p, m1)"
    and m1: "heap_inv m1" "content m1 h = Some (rq, rsp)"
    and B: "mem_store BASE_MEM_BLOCK_SIZE (BASE_MEM_BLOCK m1) p ?bs = Some B" "grown m t (trq, trsp @ ?bs) (set_block m1 B)"
    by metis
  from load_request [OF m1] obtain q where q: "memory_object_get_request_ptr m1 h = Some q" "0 < q"
    and l: "\<And>a n. 0 \<le> a \<Longrightarrow> 0 \<le> n \<Longrightarrow> a + n \<le> int (length rq) \<Longrightarrow>
      mem_load BASE_MEM_BLOCK_SIZE (BASE_MEM_BLOCK m1) (q + a) n = Some (take (nat n) (drop (nat a) rq))" by metis
  have "mem_load BASE_MEM_BLOCK_SIZE (BASE_MEM_BLOCK m1) (q + a) (b - a) = Some ?bs"
    using l [of a "b - a"] assms(5-7) by simp
  moreover have "q + a \<noteq> NULL" using q(2) assms(5) by (simp add: NULL_def)
  ultimately show ?thesis
    using assms(4,6) po valid_handle [OF inv s] ap [unfolded len] B q
    by (simp add: zepto_append_part_of_request_to_response_of_another_handle_def block_copy_def Let_def)
qed

lemma append_part_of_request:
  assumes inv: "heap_inv m" and s: "content m h = Some (rq, rsp)"
    and "0 \<le> a" "a \<le> b" "b \<le> int (length rq)" "b - a \<le> free_space m"
    and po: "mem_handle po1 = Some h" "mem_handle po2 = Some h" "offset po1 = a" "offset po2 = b"
      "res_valid po1" "res_valid po2"
  shows "\<exists>m'. zepto_append_part_of_request_to_response m h po1 po2 = Some (m', po1\<lparr>offset := b\<rparr>) \<and>
    grown m h (rq, rsp @ take (nat (b - a)) (drop (nat a) rq)) m'"
proof -
  let ?bs = "take (nat (b - a)) (drop (nat a) rq)"
  have len: "int (length ?bs) = b - a" using assms(3-5) by simp
  have "0 \<le> b - a" using assms(4) by simp
  from append_store [OF inv s this] assms(6) obtain p m1 rsp' where
    ap: "memory_object_append m h (b - a) = Some (p, m1)" and m1: "heap_inv m1" "content m1 h = Some (rq, rsp')"
    and *: "\<forall>bs. int (length bs) = b - a \<longrightarrow> (\<exists>B. mem_store BASE_MEM_BLOCK_SIZE (BASE_MEM_BLOCK m1) p bs = Some B \<and>
          grown m h (rq, rsp @ bs) (set_block m1 B))" by auto
  from * len obtain B where B: "mem_store BASE_MEM_BLOCK_SIZE (BASE_MEM_BLOCK m1) p ?bs = Some B"
    "grown m h (rq, rsp @ ?bs) (set_block m1 B)" by blast
  from load_request [OF m1] obtain q where q: "memory_object_get_request_ptr m1 h = Some q" "0 < q"
    and l: "\<And>a n. 0 \<le> a \<Longrightarrow> 0 \<le> n \<Longrightarrow> a + n \<le> int (length rq) \<Longrightarrow>
      mem_load BASE_MEM_BLOCK_SIZE (BASE_MEM_BLOCK m1) (q + a) n = Some (take (nat n) (drop (nat a) rq))" by metis
  have "mem_load BASE_MEM_BLOCK_SIZE (BASE_MEM_BLOCK m1) (q + a) (b - a) = Some ?bs"
    using l [of a "b - a"] assms(3-5) by simp
  moreover have "q + a \<noteq> NULL" using q(2) assms(3) by (simp add: NULL_def)
  ultimately show ?thesis
    using assms(4) po valid_handle [OF inv s] ap B q
    by (simp add: zepto_append_part_of_request_to_response_def block_copy_def Let_def)
qed

lemma convert_part_of_request:
  assumes inv: "heap_inv m" and s: "content m h = Some (rq, rsp)"
    and "0 \<le> a" "a \<le> b" "b \<le> int (length rq)"
    and po: "mem_handle po1 = Some h" "mem_handle po2 = Some h" "offset po1 = a" "offset po2 = b"
      "res_valid po1" "res_valid po2"
  shows "\<exists>m'. zepto_convert_part_of_request_to_response m h po1 po2 =
      Some (m', po1\<lparr>mem_handle := None\<rparr>, po2\<lparr>mem_handle := None\<rparr>) \<and>
    grown m h ([], take (nat (b - a)) (drop (nat a) rq)) m'"
proof -
  from view_object [OF inv s] obtain xs ob ys where live: "live_at m xs ob ys" and h: "h = length xs"
    and v: "rq = request_bytes (BASE_MEM_BLOCK m) ob" and sz: "rq_size ob = int (length rq)" by metis
  have "a + (b - a) \<le> rq_size ob" "0 \<le> b - a" using assms(4,5) sz by simp_all
  from cut_and_make_response [OF live assms(3) this(2,1)] obtain m' where
    "memory_object_cut_and_make_response m h a (b - a) = Some m'"
    "put_at m xs \<lparr>ptr = ptr ob + a, rq_size = 0, rsp_size = b - a\<rparr> ys
      ([], take (nat (b - a)) (drop (nat a) rq)) m'" unfolding h v by blast
  then show ?thesis
    using assms(4) po valid_handle [OF inv s] live_at_objs [OF live]
    by (simp add: zepto_convert_part_of_request_to_response_def grown_def put_at_def h)
qed

lemma response_to_request_view:
  assumes inv: "heap_inv m" and s: "content m h = Some (rq, rsp)"
  shows "\<exists>m'. zepto_response_to_request m h = Some m' \<and> grown m h (rsp, []) m'"
proof -
  from view_object [OF inv s] obtain xs ob ys where live: "live_at m xs ob ys" and h: "h = length xs"
    and v: "rsp = response_bytes (BASE_MEM_BLOCK m) ob" by metis
  from response_to_request [OF live] live_at_objs [OF live] show ?thesis
    unfolding h v by (auto simp: zepto_response_to_request_def grown_def put_at_def)
qed

section \<open>Correctness of parsing\<close>

lemma parser_handle_ok:
  assumes "heap_inv m" "content m h = Some c" "mem_handle po = Some h"
  shows "parser_handle m po = Some h"
  using valid_handle [OF assms(1,2)] assms(3) by (simp add: parser_handle_def)

lemma parse_uint8_effect:
  assumes inv: "heap_inv m" and s: "content m h = Some (rq, rsp)" and po: "mem_handle po = Some h"
    and off: "offset po = int k" "k < 65535"
  shows "zepto_parse_uint8 m po =
    Some (if k < length rq then (rq ! k, po\<lparr>offset := int (Suc k)\<rparr>) else (0, po\<lparr>res_valid := False\<rparr>))"
proof (cases "k < length rq")
  case True
  from load_request [OF inv s] obtain q where q: "memory_object_get_request_ptr m h = Some q" "0 < q"
    and l: "\<And>a n. 0 \<le> a \<Longrightarrow> 0 \<le> n \<Longrightarrow> a + n \<le> int (length rq) \<Longrightarrow>
      mem_load BASE_MEM_BLOCK_SIZE (BASE_MEM_BLOCK m) (q + a) n = Some (take (nat n) (drop (nat a) rq))" by metis
  from l [of "int k" 1] True have "mem_load BASE_MEM_BLOCK_SIZE (BASE_MEM_BLOCK m) (q + int k) 1 = Some [rq ! k]"
    by (simp add: take_Suc_conv_app_nth take_Suc hd_drop_conv_nth)
  then have "peek_block (BASE_MEM_BLOCK m) (q + int k) = Some (rq ! k)"
    by (auto simp: mem_load_def in_range_def bytes_at_def split: if_splits)
  moreover have "q + int k \<noteq> NULL" using q(2) by (simp add: NULL_def)
  ultimately show ?thesis
    using True parser_handle_ok [OF inv s po] sizes_of_view [OF inv s] q off
    by (simp add: zepto_parse_uint8_def)
next
  case False
  then show ?thesis
    using parser_handle_ok [OF inv s po] sizes_of_view [OF inv s] off by (simp add: zepto_parse_uint8_def)
qed

lemma parse_read_block_effect:
  assumes inv: "heap_inv m" and s: "content m h = Some (rq, rsp)" and po: "mem_handle po = Some h"
    and off: "offset po = int k" "k + n < 65536"
  shows "zepto_parse_read_block m po (int n) =
    Some (if k + n \<le> length rq then (Some (take n (drop k rq)), po\<lparr>offset := int (k + n)\<rparr>)
          else (None, po\<lparr>res_valid := False\<rparr>))"
proof (cases "k + n \<le> length rq")
  case True
  from load_request [OF inv s] obtain q where q: "memory_object_get_request_ptr m h = Some q" "0 < q"
    and l: "\<And>a n. 0 \<le> a \<Longrightarrow> 0 \<le> n \<Longrightarrow> a + n \<le> int (length rq) \<Longrightarrow>
      mem_load BASE_MEM_BLOCK_SIZE (BASE_MEM_BLOCK m) (q + a) n = Some (take (nat n) (drop (nat a) rq))" by metis
  from l [of "int k" "int n"] True have "mem_load BASE_MEM_BLOCK_SIZE (BASE_MEM_BLOCK m) (q + int k) (int n) = Some (take n (drop k rq))"
    by simp
  moreover have "q + int k \<noteq> NULL" using q(2) by (simp add: NULL_def)
  ultimately show ?thesis
    using True parser_handle_ok [OF inv s po] sizes_of_view [OF inv s] q off
    by (simp add: zepto_parse_read_block_def)
next
  case False
  then show ?thesis
    using parser_handle_ok [OF inv s po] sizes_of_view [OF inv s] off by (simp add: zepto_parse_read_block_def)
qed

text \<open>
  Reading a packed number. The remaining size is truncated to eight bits on the way to the
  decoder, so the packed form must fit in the remaining size modulo 256.
\<close>

lemma decode_uint_effect:
  assumes inv: "heap_inv m" and s: "content m h = Some (rq, rsp)" and po: "mem_handle po = Some h"
    and off: "offset po = int k" and rest: "drop k rq = packed_nat n @ rest_bytes" and k: "k \<le> length rq"
    and len: "length (packed_nat n) \<le> 8" and t: "0 < t" "t \<le> 8" "n < 256 ^ t"
    and fits: "int (length (packed_nat n)) \<le> (int (length rq) - int k) mod 256"
  shows "zepto_parser_decode_uint m po t =
    Some (le_bytes t n, po\<lparr>offset := int (k + length (packed_nat n))\<rparr>)"
proof -
  let ?L = "length (packed_nat n)"
  have tot: "k + ?L \<le> length rq" using rest k by (metis add_le_cancel_left length_append length_drop le_add1 le_add_diff_inverse)
  from load_request [OF inv s] obtain q where q: "memory_object_get_request_ptr m h = Some q" "0 < q"
    and l: "\<And>a n. 0 \<le> a \<Longrightarrow> 0 \<le> n \<Longrightarrow> a + n \<le> int (length rq) \<Longrightarrow>
      mem_load BASE_MEM_BLOCK_SIZE (BASE_MEM_BLOCK m) (q + a) n = Some (take (nat n) (drop (nat a) rq))" by metis
  from l [of "int k" "int ?L"] tot rest
  have ld: "mem_load BASE_MEM_BLOCK_SIZE (BASE_MEM_BLOCK m) (q + int k) (int ?L) = Some (packed_nat n)" by simp
  have "0 < ?L" using packed_nat_nonempty [of n] by simp
  with ld have at: "packed_at (BASE_MEM_BLOCK m) (q + int k) n"
    by (auto simp: packed_at_def mem_load_def in_range_def split: if_splits)
  have ne: "q + int k \<noteq> NULL" using q(2) by (simp add: NULL_def)
  have "int (length rq) < 65536"
  proof -
    from view_object [OF inv s] obtain xs ob ys where "live_at m xs ob ys" "rq_size ob = int (length rq)" by metis
    with live_at_order [of m xs ob ys] show ?thesis by simp
  qed
  with tot have "int (k + ?L) < 65536" by simp
  then show ?thesis
    using decode_packed [OF at len t fits] parser_handle_ok [OF inv s po] sizes_of_view [OF inv s] q(1) ne off tot
    by (simp add: zepto_parser_decode_uint_def)
qed

end
