(* ===== verification/Message_Store.thy ===== *)
theory Message_Store
  imports Mem_Parser
begin

text \<open>
  The interface the rest of the program has on the memory manager: a set of handles, each with a
  request and a response, where writing appends to the response and
  \<open>zepto_response_to_request\<close> turns a written message into one that can be read. The laws are
  stated as two locales, the client lemmas are proved in them, and both are interpreted on the
  definitions of \<open>Mem_Parser\<close>.
\<close>

section \<open>The interface\<close>

text \<open>Writing a list of blocks one after the other.\<close>

fun write_each :: "('s \<Rightarrow> nat \<Rightarrow> u8 list \<Rightarrow> 's option) \<Rightarrow> 's \<Rightarrow> nat \<Rightarrow> u8 list list \<Rightarrow> 's option" where
  "write_each wr s h [] = Some s"
| "write_each wr s h (bs # rest) = do { s \<leftarrow> wr s h bs; write_each wr s h rest }"

lemma write_each_append:
  "write_each wr s h (xs @ ys) = do { s \<leftarrow> write_each wr s h xs; write_each wr s h ys }"
  by (induction xs arbitrary: s) (auto split: option.splits simp: Option.bind_assoc)

text \<open>What a successful write leaves: only the named handle changed, and the room shrinks by the growth.\<close>

locale message_store =
  fixes good :: "'s \<Rightarrow> bool"
    and view :: "'s \<Rightarrow> nat \<rightharpoonup> (u8 list \<times> u8 list)"
    and room :: "'s \<Rightarrow> int"
    and wr :: "'s \<Rightarrow> nat \<Rightarrow> u8 list \<Rightarrow> 's option"
  assumes room_nonneg: "good s \<Longrightarrow> 0 \<le> room s"
    and write_fits: "\<lbrakk>good s; view s h = Some (rq, rsp); int (length bs) \<le> room s\<rbrakk> \<Longrightarrow>
      \<exists>s'. wr s h bs = Some s' \<and> good s' \<and> view s' = (view s)(h \<mapsto> (rq, rsp @ bs)) \<and>
        room s' = room s - int (length bs)"
    and write_full: "\<lbrakk>good s; view s h = Some (rq, rsp); room s < int (length bs)\<rbrakk> \<Longrightarrow> wr s h bs = None"
begin

lemma blocks_fit:
  assumes "good s" "view s h = Some (rq, rsp)" "int (length (concat bss)) \<le> room s"
  shows "\<exists>s'. write_each wr s h bss = Some s' \<and> good s' \<and>
    view s' = (view s)(h \<mapsto> (rq, rsp @ concat bss)) \<and> room s' = room s - int (length (concat bss))"
  using assms
proof (induction bss arbitrary: s rsp)
  case Nil
  then show ?case by (auto simp: fun_upd_idem)
next
  case (Cons bs bss)
  have "int (length bs) \<le> room s" using Cons.prems(3) by simp
  from write_fits [OF Cons.prems(1,2) this] obtain s1 where s1: "wr s h bs = Some s1" "good s1"
    "view s1 = (view s)(h \<mapsto> (rq, rsp @ bs))" "room s1 = room s - int (length bs)" by blast
  have "view s1 h = Some (rq, rsp @ bs)" "int (length (concat bss)) \<le> room s1"
    using s1 Cons.prems(3) by simp_all
  from Cons.IH [OF s1(2) this] obtain s2 where "write_each wr s1 h bss = Some s2" "good s2"
    "view s2 = (view s1)(h \<mapsto> (rq, (rsp @ bs) @ concat bss))" "room s2 = room s1 - int (length (concat bss))" by blast
  moreover from this(3) s1(3) have "view s2 = (view s)(h \<mapsto> (rq, rsp @ concat (bs # bss)))"
    by (simp add: fun_eq_iff)
  ultimately show ?case using s1(1,4) by (intro exI [of _ s2] conjI) (auto simp: fun_eq_iff)
qed

lemma blocks_full:
  assumes "good s" "view s h = Some (rq, rsp)" "room s < int (length (concat bss))"
  shows "write_each wr s h bss = None"
  using assms
proof (induction bss arbitrary: s rsp)
  case Nil
  then show ?case using room_nonneg [of s] by simp
next
  case (Cons bs bss)
  show ?case
  proof (cases "int (length bs) \<le> room s")
    case False
    then show ?thesis using write_full [OF Cons.prems(1,2), of bs] by simp
  next
    case True
    from write_fits [OF Cons.prems(1,2) this] obtain s1 where s1: "wr s h bs = Some s1" "good s1"
      "view s1 = (view s)(h \<mapsto> (rq, rsp @ bs))" "room s1 = room s - int (length bs)" by blast
    have "view s1 h = Some (rq, rsp @ bs)" "room s1 < int (length (concat bss))"
      using s1 Cons.prems(3) by simp_all
    from Cons.IH [OF s1(2) this] show ?thesis using s1 by simp
  qed
qed

text \<open>A message is written whole or the sequence has no result; how it is cut into blocks is irrelevant.\<close>

lemma one_block:
  assumes "good s" "view s h = Some (rq, rsp)"
  shows "(write_each wr s h bss = None) \<longleftrightarrow> (wr s h (concat bss) = None)"
proof (cases "int (length (concat bss)) \<le> room s")
  case True
  then show ?thesis using blocks_fit [OF assms True] write_fits [OF assms True] by auto
next
  case False
  then show ?thesis using blocks_full [OF assms, of bss] write_full [OF assms, of "concat bss"] by simp
qed

end

text \<open>A store whose messages can also be handed over for reading and dropped.\<close>

locale message_exchange = message_store +
  fixes to_rq :: "'a \<Rightarrow> nat \<Rightarrow> 'a option"
    and drop_all :: "'a \<Rightarrow> nat \<Rightarrow> 'a option"
  assumes hand_over: "\<lbrakk>good s; view s h = Some (rq, rsp)\<rbrakk> \<Longrightarrow>
      \<exists>s'. to_rq s h = Some s' \<and> good s' \<and> view s' = (view s)(h \<mapsto> (rsp, [])) \<and>
        room s' = room s + int (length rq)"
    and drop_message: "\<lbrakk>good s; view s h = Some (rq, rsp)\<rbrakk> \<Longrightarrow>
      \<exists>s'. drop_all s h = Some s' \<and> good s' \<and> view s' = (view s)(h \<mapsto> ([], [])) \<and>
        room s' = room s + int (length rq) + int (length rsp)"
begin

lemma message_exchanged:
  assumes "good s" "view s h = Some (rq, [])" "int (length (concat bss)) \<le> room s"
  shows "\<exists>s1 s2. write_each wr s h bss = Some s1 \<and> to_rq s1 h = Some s2 \<and> good s2 \<and>
    view s2 = (view s)(h \<mapsto> (concat bss, [])) \<and> room s2 = room s + int (length rq) - int (length (concat bss))"
proof -
  from blocks_fit [OF assms] obtain s1 where s1: "write_each wr s h bss = Some s1" "good s1"
    "view s1 = (view s)(h \<mapsto> (rq, concat bss))" "room s1 = room s - int (length (concat bss))" by auto
  then have "view s1 h = Some (rq, concat bss)" by simp
  from hand_over [OF s1(2) this] s1 show ?thesis by auto
qed

lemma message_replaced:
  assumes "good s" "view s h = Some (rq, rsp)"
    "int (length bs) \<le> room s + int (length rq) + int (length rsp)"
  shows "\<exists>s1 s2. drop_all s h = Some s1 \<and> wr s1 h bs = Some s2 \<and> good s2 \<and>
    view s2 = (view s)(h \<mapsto> ([], bs)) \<and> room s2 = room s + int (length rq) + int (length rsp) - int (length bs)"
proof -
  from drop_message [OF assms(1,2)] obtain s1 where s1: "drop_all s h = Some s1" "good s1"
    "view s1 = (view s)(h \<mapsto> ([], []))" "room s1 = room s + int (length rq) + int (length rsp)" by auto
  then have "view s1 h = Some ([], [])" "int (length bs) \<le> room s1" using assms(3) by simp_all
  from write_fits [OF s1(2) this] s1 show ?thesis by auto
qed

end

section \<open>The memory manager provides it\<close>

lemma content_handle: "content m h = Some c \<Longrightarrow> h < length (memory_objects m)"
  by (auto simp: content_def split: if_splits)

lemma room_after:
  assumes "grown m h (a, b) m'" "heap_inv m" "content m h = Some (rq, rsp)"
  shows "free_space m' = free_space m + int (length rq) + int (length rsp) - int (length a) - int (length b)"
  using free_space_grown [OF assms(1,2) content_handle [OF assms(3)]] assms(3) by simp

interpretation heap: message_store heap_inv content free_space zepto_write_block
proof unfold_locales
  show "heap_inv s \<Longrightarrow> 0 \<le> free_space s" for s by (rule free_space_nonneg)
  show "\<exists>s'. zepto_write_block s h bs = Some s' \<and> heap_inv s' \<and> content s' = (content s)(h \<mapsto> (rq, rsp @ bs)) \<and>
      free_space s' = free_space s - int (length bs)"
    if "heap_inv s" "content s h = Some (rq, rsp)" "int (length bs) \<le> free_space s" for s h rq rsp bs
  proof -
    from write_block_effect [OF that(1,2), of bs] that(3) obtain s' where
      "zepto_write_block s h bs = Some s'" and g: "grown s h (rq, rsp @ bs) s'" by auto
    then show ?thesis using grownD [OF g] room_after [OF g that(1,2)] by auto
  qed
  show "zepto_write_block s h bs = None"
    if "heap_inv s" "content s h = Some (rq, rsp)" "free_space s < int (length bs)" for s h rq rsp bs
    using write_block_effect [OF that(1,2), of bs] that(3) by simp
qed

interpretation heap_exchange: message_exchange heap_inv content free_space zepto_write_block
    zepto_response_to_request zepto_parser_free_memory
proof unfold_locales
  fix s h rq rsp
  assume s: "heap_inv s" "content s h = Some (rq, rsp)"
  show "\<exists>s'. zepto_response_to_request s h = Some s' \<and> heap_inv s' \<and>
      content s' = (content s)(h \<mapsto> (rsp, [])) \<and> free_space s' = free_space s + int (length rq)"
    using response_to_request_view [OF s] grownD room_after [OF _ s] by fastforce
  show "\<exists>s'. zepto_parser_free_memory s h = Some s' \<and> heap_inv s' \<and>
      content s' = (content s)(h \<mapsto> ([], [])) \<and> free_space s' = free_space s + int (length rq) + int (length rsp)"
    using free_effect [OF s] grownD room_after [OF _ s] by fastforce
qed

text \<open>
  Appending a value that is not a block reduces to \<open>zepto_write_block\<close>, so a message made of
  bytes, blocks and packed integers is a list of blocks.
\<close>

lemmas append_as_block = write_uint8_block append_packed

end
