(* ===== verification/Heap_Machine.thy ===== *)
theory Heap_Machine
  imports Message_Store
begin

text \<open>
  The memory manager as a state machine. A call is one of the operations the rest of the program
  uses; the abstract machine has only the map from handles to requests and responses, and every
  defined call of the code is a step of it. The invariant holds in every state that can be
  reached from the initialisation.
\<close>

section \<open>Effects on the view, the remaining operations\<close>

lemma free_response_effect:
  assumes "heap_inv m" "content m h = Some (rq, rsp)"
  shows "\<exists>m'. zepto_parser_free_response m h = Some m' \<and> grown m h (rq, []) m'"
proof -
  from view_object [OF assms] obtain xs ob ys where live: "live_at m xs ob ys" and h: "h = length xs"
    and v: "rq = request_bytes (BASE_MEM_BLOCK m) ob" by metis
  from object_free_response [OF live] valid_handle [OF assms] live_at_objs [OF live] show ?thesis
    unfolding h v by (auto simp: zepto_parser_free_response_def grown_def put_at_def)
qed

lemma strip_effect:
  assumes "heap_inv m" "content m h = Some (rq, rsp)" "mem_handle po = Some h"
    "offset po = int k" "k \<le> length rq"
  shows "\<exists>m'. zepto_parser_strip_beginning_of_request m po = Some (m', po\<lparr>offset := 0\<rparr>) \<and>
    grown m h (drop k rq, rsp) m'"
proof -
  from view_object [OF assms(1,2)] obtain xs ob ys where live: "live_at m xs ob ys" and h: "h = length xs"
    and v: "rq = request_bytes (BASE_MEM_BLOCK m) ob" "rsp = response_bytes (BASE_MEM_BLOCK m) ob"
    and sz: "rq_size ob = int (length rq)" by metis
  have "0 \<le> int k" "int k \<le> rq_size ob" using assms(5) sz by simp_all
  from strip_beginning_of_request [OF live this] obtain m' where
    m': "memory_object_strip_beginning_of_request m h (int k) = Some m'"
    and put: "put_at m xs (ob\<lparr>ptr := ptr ob + int k, rq_size := rq_size ob - int k\<rparr>) ys (drop k rq, rsp) m'"
    unfolding h v by auto
  have "grown m h (drop k rq, rsp) m'"
    using put live_at_objs [OF live] by (simp add: grown_def put_at_def h)
  with m' show ?thesis
    using parser_handle_ok [OF assms(1,2,3)] assms(4)
    by (simp add: zepto_parser_strip_beginning_of_request_def)
qed

text \<open>A block written in front of the response; the request of the handle is given up.\<close>

lemma fixed_ptr_eq: "h < MEMORY_HANDLE_MAX m \<Longrightarrow> MEMORY_OBJECT_PTR m h = Some ob \<Longrightarrow> fixed_ptr m h = Some (ptr ob)"
  by (simp add: fixed_ptr_def)

lemma store_in_front:
  assumes "heap_inv m1" "content m1 h = Some ([], new @ rsp)" "MEMORY_OBJECT_PTR m1 h = Some ob1"
    "length bs = length new"
  shows "\<exists>B. mem_store BASE_MEM_BLOCK_SIZE (BASE_MEM_BLOCK m1) (ptr ob1) bs = Some B \<and>
    grown m1 h ([], bs @ rsp) (set_block m1 B)"
proof -
  from view_object [OF assms(1,2)] obtain xs ob ys where live': "live_at m1 xs ob ys" and h: "h = length xs"
    and v': "[] = request_bytes (BASE_MEM_BLOCK m1) ob" "new @ rsp = response_bytes (BASE_MEM_BLOCK m1) ob"
    and sz': "rq_size ob = int (length ([] :: u8 list))" "rsp_size ob = int (length (new @ rsp))" by metis
  have same: "ob = ob1" using assms(3) live_at_object [OF live'] h by simp
  note live = live' [unfolded same] and v = v' [unfolded same] and sz = sz' [unfolded same]
  let ?B = "stored (BASE_MEM_BLOCK m1) (ptr ob1) bs" and ?n = "int (length bs)"
  have range: "ptr ob1 \<le> ptr ob1" "ptr ob1 + ?n \<le> obj_end ob1"
    using sz assms(4) by (simp_all add: obj_end_def)
  have size: "rsp_size ob1 = ?n + int (length rsp)" "rq_size ob1 = 0"
    using sz assms(4) by simp_all
  have all: "bytes_at B' (ptr ob1) (rsp_size ob1) = bytes_at B' (ptr ob1) ?n @ bytes_at B' (ptr ob1 + ?n) (int (length rsp))" for B'
    unfolding size by (rule bytes_at_append) simp_all
  have "new @ rsp = bytes_at (BASE_MEM_BLOCK m1) (ptr ob1) ?n @ bytes_at (BASE_MEM_BLOCK m1) (ptr ob1 + ?n) (int (length rsp))"
    using v(2) size(2) by (simp add: response_bytes_def all)
  then have rsp: "bytes_at (BASE_MEM_BLOCK m1) (ptr ob1 + ?n) (int (length rsp)) = rsp"
    using assms(4) by (simp add: append_eq_append_conv)
  have "bytes_at ?B (ptr ob1 + ?n) (int (length rsp)) = bytes_at (BASE_MEM_BLOCK m1) (ptr ob1 + ?n) (int (length rsp))"
    by (rule bytes_at_cong) (simp add: stored_def)
  then have new: "response_bytes ?B ob1 = bs @ rsp" "request_bytes ?B ob1 = []"
    using size(2) rsp by (simp_all add: response_bytes_def request_bytes_def all)
  from store_in_object [OF live range] show ?thesis
    using live_at_objs [OF live] unfolding new by (simp add: grown_def put_at_def h)
qed

lemma prepend_block_effect:
  assumes "heap_inv m" "content m h = Some (rq, rsp)" "h < MEMORY_HANDLE_MAX m"
  shows "if int (length bs) \<le> free_space m + int (length rq)
    then \<exists>m'. zepto_write_prepend_block m h bs = Some m' \<and> grown m h ([], bs @ rsp) m'
    else zepto_write_prepend_block m h bs = None"
proof -
  from view_object [OF assms(1,2)] obtain xs ob ys where live: "live_at m xs ob ys" and h: "h = length xs"
    and v: "rsp = response_bytes (BASE_MEM_BLOCK m) ob" and sz: "rq_size ob = int (length rq)" by metis
  have pos: "0 \<le> int (length bs)" by simp
  note pre = prepend_effect [OF live pos] and valid = valid_handle [OF assms(1,2)]
  show ?thesis
  proof (cases "int (length bs) \<le> free_space m + int (length rq)")
    case False
    then show ?thesis using pre assms(3) valid sz by (simp add: zepto_write_prepend_block_def h)
  next
    case True
    then obtain p m1 where run: "memory_object_prepend m h (int (length bs)) = Some (p, m1)"
      and "prepended m h ob (int (length bs)) p m1"
      using pre assms(3) sz h by auto
    then obtain new ob1 where new: "length new = length bs" and g: "grown m h ([], new @ rsp) m1"
      and ob1: "MEMORY_OBJECT_PTR m1 h = Some ob1"
      by (auto simp: prepended_def v)
    note g' = grownD [OF g]
    have "content m1 h = Some ([], new @ rsp)" using g'(2) by simp
    from store_in_front [OF g'(1) this ob1 new [symmetric]] obtain B where
      st: "mem_store BASE_MEM_BLOCK_SIZE (BASE_MEM_BLOCK m1) (ptr ob1) bs = Some B"
      and g2: "grown m1 h ([], bs @ rsp) (set_block m1 B)" by blast
    have "fixed_ptr m1 h = Some (ptr ob1)" using fixed_ptr_eq [OF _ ob1] assms(3) g'(3) by simp
    then show ?thesis
      using True run st g2 grown_grown [OF g g2] valid by (simp add: zepto_write_prepend_block_def)
  qed
qed

section \<open>Calls\<close>

datatype heap_call =
    Write nat "u8 list"
  | Write_prepend nat "u8 list"
  | To_request nat
  | Free nat
  | Free_response nat
  | Strip nat nat
  | Append_response nat nat
  | Copy_response nat nat
  | Copy_request nat nat
  | Acquire
  | Release nat

text \<open>The call on the model of the code. A failed \<open>acquire\<close> leaves no new handle.\<close>

fun run_call :: "heap_call \<Rightarrow> mem \<Rightarrow> mem option" where
  "run_call (Write h bs) m = zepto_write_block m h bs"
| "run_call (Write_prepend h bs) m = zepto_write_prepend_block m h bs"
| "run_call (To_request h) m = zepto_response_to_request m h"
| "run_call (Free h) m = zepto_parser_free_memory m h"
| "run_call (Free_response h) m = zepto_parser_free_response m h"
| "run_call (Strip h n) m = map_option fst
     (zepto_parser_strip_beginning_of_request m \<lparr>mem_handle = Some h, offset = int n, res_valid = True\<rparr>)"
| "run_call (Append_response h t) m = zepto_append_response_to_response_of_another_handle m h t"
| "run_call (Copy_response h t) m = zepto_copy_response_to_response_of_another_handle m h t"
| "run_call (Copy_request h t) m = zepto_copy_request_to_response_of_another_handle m h t"
| "run_call Acquire m = map_option snd (memory_object_acquire m)"
| "run_call (Release h) m = memory_object_release m h"

section \<open>The abstract machine\<close>

type_synonym messages = "nat \<rightharpoonup> (u8 list \<times> u8 list)"

text \<open>Apart from \<open>Acquire\<close>, a call rewrites one entry.\<close>

fun spec_update :: "heap_call \<Rightarrow> messages \<Rightarrow> (nat \<times> (u8 list \<times> u8 list) option) option" where
  "spec_update (Write h bs) s = map_option (\<lambda>(rq, rsp). (h, Some (rq, rsp @ bs))) (s h)"
| "spec_update (Write_prepend h bs) s = map_option (\<lambda>(rq, rsp). (h, Some ([], bs @ rsp))) (s h)"
| "spec_update (To_request h) s = map_option (\<lambda>(rq, rsp). (h, Some (rsp, []))) (s h)"
| "spec_update (Free h) s = map_option (\<lambda>(rq, rsp). (h, Some ([], []))) (s h)"
| "spec_update (Free_response h) s = map_option (\<lambda>(rq, rsp). (h, Some (rq, []))) (s h)"
| "spec_update (Strip h n) s = do {
     (rq, rsp) \<leftarrow> s h; assert (n \<le> length rq); Some (h, Some (drop n rq, rsp)) }"
| "spec_update (Append_response h t) s = do {
     (rq, rsp) \<leftarrow> s h; (trq, trsp) \<leftarrow> s t; assert (h \<noteq> t); Some (t, Some (trq, trsp @ rsp)) }"
| "spec_update (Copy_response h t) s = do {
     (rq, rsp) \<leftarrow> s h; (trq, trsp) \<leftarrow> s t; assert (h \<noteq> t); Some (t, Some ([], rsp)) }"
| "spec_update (Copy_request h t) s = do {
     (rq, rsp) \<leftarrow> s h; (trq, trsp) \<leftarrow> s t; assert (h \<noteq> t); Some (t, Some ([], rq)) }"
| "spec_update (Release h) s = map_option (\<lambda>_. (h, None)) (s h)"
| "spec_update Acquire s = None"

text \<open>
  The relation of the abstract machine, with the first acquirable handle as parameter: a new
  handle is the smallest free one, and it starts empty.
\<close>

inductive spec_step :: "nat \<Rightarrow> heap_call \<Rightarrow> messages \<Rightarrow> messages \<Rightarrow> bool" for start where
  update: "spec_update c s = Some (h, v) \<Longrightarrow> spec_step start c s (s(h := v))"
| acquire: "\<lbrakk>start \<le> h; s h = None; \<forall>k. start \<le> k \<and> k < h \<longrightarrow> s k \<noteq> None\<rbrakk> \<Longrightarrow>
    spec_step start Acquire s (s(h \<mapsto> ([], [])))"

inductive_cases spec_acquireE: "spec_step start Acquire s s'"

text \<open>The messages of the clients: the storage of the handle table is not one of them.\<close>

definition messages :: "mem \<Rightarrow> messages" where
  "messages m = (content m)(MEMORY_HANDLE_ACQUIRABLE_HANDLE_STORAGE m := None)"

text \<open>What a caller has to respect: only acquired handles are released, prepending is for fixed ones.\<close>

fun call_ok :: "mem \<Rightarrow> heap_call \<Rightarrow> bool" where
  "call_ok m (Release h) = (MEMORY_HANDLE_ACQUIRABLE_START m \<le> h)"
| "call_ok m (Write_prepend h bs) = (h < MEMORY_HANDLE_MAX m)"
| "call_ok m c = True"

text \<open>The bytes a call needs beyond those it frees.\<close>

fun needs :: "heap_call \<Rightarrow> messages \<Rightarrow> int" where
  "needs (Write h bs) s = int (length bs)"
| "needs (Write_prepend h bs) s = int (length bs) - int (length (fst (the (s h))))"
| "needs (Append_response h t) s = int (length (snd (the (s h))))"
| "needs (Copy_response h t) s =
     int (length (snd (the (s h)))) - int (length (fst (the (s t)))) - int (length (snd (the (s t))))"
| "needs (Copy_request h t) s =
     int (length (fst (the (s h)))) - int (length (fst (the (s t)))) - int (length (snd (the (s t))))"
| "needs c s = 0"

section \<open>Simulation\<close>

lemma messages_content: "messages m h = Some c \<Longrightarrow> content m h = Some c \<and> h \<noteq> MEMORY_HANDLE_ACQUIRABLE_HANDLE_STORAGE m"
  by (simp add: messages_def split: if_splits)

lemma grown_messages:
  assumes "grown m h c m'" "handles_inv m" "messages m h \<noteq> None"
  shows "handles_inv m' \<and> MEMORY_HANDLE_MAX m' = MEMORY_HANDLE_MAX m \<and> messages m' = (messages m)(h \<mapsto> c)"
proof -
  note g = grownD [OF assms(1)]
  from assms(3) messages_content have ne: "h \<noteq> MEMORY_HANDLE_ACQUIRABLE_HANDLE_STORAGE m" by auto
  have st: "MEMORY_HANDLE_ACQUIRABLE_HANDLE_STORAGE m' = MEMORY_HANDLE_ACQUIRABLE_HANDLE_STORAGE m"
    "MEMORY_HANDLE_ACQUIRABLE_START m' = MEMORY_HANDLE_ACQUIRABLE_START m"
    using g(3) by (simp_all add: MEMORY_HANDLE_ACQUIRABLE_HANDLE_STORAGE_def MEMORY_HANDLE_ACQUIRABLE_START_def)
  then have "length (slots m') = length (slots m)" using g(4) by (simp add: slots_def)
  then have "handles_inv m'"
    using assms(2) g(1,2) ne st unfolding handles_inv_def by simp
  moreover have "messages m' = (messages m)(h \<mapsto> c)"
    using g(2) ne by (simp add: messages_def st fun_upd_twist)
  ultimately show ?thesis using g(3) by simp
qed

definition simulates :: "mem \<Rightarrow> heap_call \<Rightarrow> mem \<Rightarrow> bool" where
  "simulates m c m' \<longleftrightarrow> handles_inv m' \<and> MEMORY_HANDLE_MAX m' = MEMORY_HANDLE_MAX m \<and>
     spec_step (MEMORY_HANDLE_ACQUIRABLE_START m) c (messages m) (messages m')"

lemma simulates_grown:
  assumes "handles_inv m" "grown m h v m'" "spec_update c (messages m) = Some (h, Some v)" "messages m h \<noteq> None"
  shows "simulates m c m'"
  using grown_messages [OF assms(2,1,4)] spec_step.update [OF assms(3)] by (simp add: simulates_def)

text \<open>A call with valid handles and enough room is defined, and is a step of the abstract machine.\<close>

lemma call_simulated:
  assumes inv: "handles_inv m" and ok: "call_ok m c" and spec: "spec_update c (messages m) = Some (h, v)"
    and room: "needs c (messages m) \<le> free_space m"
  shows "\<exists>m'. run_call c m = Some m' \<and> simulates m c m'"
proof -
  have hinv: "heap_inv m" using inv by (simp add: handles_inv_def)
  note sim = simulates_grown [OF inv]
  note view = messages_content
  show ?thesis
  proof (cases c)
    case (Write h bs)
    then obtain rq rsp where s: "messages m h = Some (rq, rsp)" using spec by auto
    with write_block_effect [OF hinv conjunct1 [OF view [OF s]], of bs] room Write sim show ?thesis by auto
  next
    case (Write_prepend h bs)
    then obtain rq rsp where s: "messages m h = Some (rq, rsp)" using spec by auto
    with prepend_block_effect [OF hinv conjunct1 [OF view [OF s]], of bs] ok room Write_prepend sim show ?thesis by auto
  next
    case (To_request h)
    then obtain rq rsp where s: "messages m h = Some (rq, rsp)" using spec by auto
    with response_to_request_view [OF hinv conjunct1 [OF view [OF s]]] To_request sim show ?thesis by auto
  next
    case (Free h)
    then obtain rq rsp where s: "messages m h = Some (rq, rsp)" using spec by auto
    with free_effect [OF hinv conjunct1 [OF view [OF s]]] Free sim show ?thesis by auto
  next
    case (Free_response h)
    then obtain rq rsp where s: "messages m h = Some (rq, rsp)" using spec by auto
    with free_response_effect [OF hinv conjunct1 [OF view [OF s]]] Free_response sim show ?thesis by auto
  next
    case (Strip h n)
    then obtain rq rsp where s: "messages m h = Some (rq, rsp)" "n \<le> length rq"
      using spec by (auto simp: bind_eq_Some_conv)
    with strip_effect [OF hinv conjunct1 [OF view [OF s(1)]], of "\<lparr>mem_handle = Some h, offset = int n, res_valid = True\<rparr>" n]
      Strip sim show ?thesis by auto
  next
    case (Append_response h t)
    then obtain rq rsp trq trsp where s: "messages m h = Some (rq, rsp)" "messages m t = Some (trq, trsp)" "h \<noteq> t"
      using spec by (auto simp: bind_eq_Some_conv)
    with append_response_to_response [OF hinv conjunct1 [OF view [OF s(2)]] conjunct1 [OF view [OF s(1)]]]
      room Append_response sim show ?thesis by auto
  next
    case (Copy_response h t)
    then obtain rq rsp trq trsp where s: "messages m h = Some (rq, rsp)" "messages m t = Some (trq, trsp)" "h \<noteq> t"
      using spec by (auto simp: bind_eq_Some_conv)
    with copy_response_to_response [OF hinv conjunct1 [OF view [OF s(2)]] conjunct1 [OF view [OF s(1)]]]
      room Copy_response sim show ?thesis by auto
  next
    case (Copy_request h t)
    then obtain rq rsp trq trsp where s: "messages m h = Some (rq, rsp)" "messages m t = Some (trq, trsp)" "h \<noteq> t"
      using spec by (auto simp: bind_eq_Some_conv)
    with copy_request_to_response [OF hinv conjunct1 [OF view [OF s(2)]] conjunct1 [OF view [OF s(1)]]]
      room Copy_request sim show ?thesis by auto
  next
    case (Release h)
    then have used: "content m h \<noteq> None" and start: "MEMORY_HANDLE_ACQUIRABLE_START m \<le> h"
      and ne: "h \<noteq> MEMORY_HANDLE_ACQUIRABLE_HANDLE_STORAGE m" and sp: "spec_update c (messages m) = Some (h, None)"
      using spec ok view by auto
    from release_effect [OF inv start used] obtain m' where m': "memory_object_release m h = Some m'" "released m h m'" by blast
    have "messages m' = (messages m)(h := None)"
      using m'(2) ne by (auto simp: messages_def released_def MEMORY_HANDLE_ACQUIRABLE_HANDLE_STORAGE_def fun_eq_iff)
    with m' spec_step.update [OF sp] show ?thesis by (simp add: Release simulates_def released_def)
  qed (use spec in auto)
qed

text \<open>A call without enough room is stopped by an assertion of the allocation.\<close>

lemma append_no_room:
  assumes "heap_inv m" "content m t = Some (trq, trsp)" "free_space m < sz"
  shows "memory_object_append m t sz = None"
  using append_store [OF assms(1,2), of sz] free_space_nonneg [OF assms(1)] assms(3) by simp

lemma copy_no_room:
  assumes inv: "heap_inv m" and t: "content m t = Some (trq, trsp)" and s: "content m h = Some (rq, rsp)"
    and "h \<noteq> t"
  shows "free_space m < int (length rsp) \<Longrightarrow> zepto_append_response_to_response_of_another_handle m h t = None"
    "free_space m + int (length trq) + int (length trsp) < int (length rsp) \<Longrightarrow>
      zepto_copy_response_to_response_of_another_handle m h t = None"
    "free_space m + int (length trq) + int (length trsp) < int (length rq) \<Longrightarrow>
      zepto_copy_request_to_response_of_another_handle m h t = None"
proof -
  show "free_space m < int (length rsp) \<Longrightarrow> zepto_append_response_to_response_of_another_handle m h t = None"
    using append_no_room [OF inv t, of "int (length rsp)"] sizes_of_view [OF inv s]
    by (auto simp: zepto_append_response_to_response_of_another_handle_def bind_eq_None_conv)
  from free_effect [OF inv t] obtain m0 where f: "zepto_parser_free_memory m t = Some m0" and g: "grown m t ([], []) m0" by blast
  have inv0: "heap_inv m0" and t0: "content m0 t = Some ([], [])" and s0: "content m0 h = Some (rq, rsp)"
    using grownD(1,2) [OF g] s assms(4) by auto
  note fs = free_space_freed [OF g inv t] and no = append_no_room [OF inv0 t0] and sz = sizes_of_view [OF inv0 s0]
  show "zepto_copy_response_to_response_of_another_handle m h t = None"
    if "free_space m + int (length trq) + int (length trsp) < int (length rsp)"
    using no [of "int (length rsp)"] fs that sz(2) f
    by (auto simp: zepto_copy_response_to_response_of_another_handle_def bind_eq_None_conv)
  show "zepto_copy_request_to_response_of_another_handle m h t = None"
    if "free_space m + int (length trq) + int (length trsp) < int (length rq)"
    using no [of "int (length rq)"] fs that sz(1) f
    by (auto simp: zepto_copy_request_to_response_of_another_handle_def bind_eq_None_conv)
qed

lemma call_without_room:
  assumes inv: "handles_inv m" and ok: "call_ok m c" and spec: "spec_update c (messages m) = Some (h, v)"
    and room: "free_space m < needs c (messages m)"
  shows "run_call c m = None"
proof -
  have hinv: "heap_inv m" using inv by (simp add: handles_inv_def)
  note view = messages_content and nonneg = free_space_nonneg [OF hinv]
  show ?thesis
  proof (cases c)
    case (Write h bs)
    then obtain rq rsp where s: "messages m h = Some (rq, rsp)" using spec by auto
    with write_block_effect [OF hinv conjunct1 [OF view [OF s]], of bs] room Write show ?thesis by auto
  next
    case (Write_prepend h bs)
    then obtain rq rsp where s: "messages m h = Some (rq, rsp)" using spec by auto
    with prepend_block_effect [OF hinv conjunct1 [OF view [OF s]], of bs] ok room Write_prepend show ?thesis by auto
  next
    case (Append_response h t)
    then obtain rq rsp trq trsp where s: "messages m h = Some (rq, rsp)" "messages m t = Some (trq, trsp)" "h \<noteq> t"
      using spec by (auto simp: bind_eq_Some_conv)
    with copy_no_room(1) [OF hinv conjunct1 [OF view [OF s(2)]] conjunct1 [OF view [OF s(1)]]]
      room Append_response show ?thesis by auto
  next
    case (Copy_response h t)
    then obtain rq rsp trq trsp where s: "messages m h = Some (rq, rsp)" "messages m t = Some (trq, trsp)" "h \<noteq> t"
      using spec by (auto simp: bind_eq_Some_conv)
    with copy_no_room(2) [OF hinv conjunct1 [OF view [OF s(2)]] conjunct1 [OF view [OF s(1)]]]
      room Copy_response show ?thesis by auto
  next
    case (Copy_request h t)
    then obtain rq rsp trq trsp where s: "messages m h = Some (rq, rsp)" "messages m t = Some (trq, trsp)" "h \<noteq> t"
      using spec by (auto simp: bind_eq_Some_conv)
    with copy_no_room(3) [OF hinv conjunct1 [OF view [OF s(2)]] conjunct1 [OF view [OF s(1)]]]
      room Copy_request show ?thesis by auto
  qed (use spec room nonneg in auto)
qed

lemma acquire_simulated:
  assumes inv: "handles_inv m" and run: "run_call Acquire m = Some m'"
  shows "simulates m Acquire m'"
proof -
  from run acquire_effect [OF inv] obtain h where a: "acquired m h m'" by auto
  have start: "MEMORY_HANDLE_ACQUIRABLE_START m \<le> h" "content m h = None"
    using a by (auto simp: acquired_def)
  have ne: "k \<noteq> MEMORY_HANDLE_ACQUIRABLE_HANDLE_STORAGE m" if "MEMORY_HANDLE_ACQUIRABLE_START m \<le> k" for k
    using that inv by (auto simp: MEMORY_HANDLE_ACQUIRABLE_START_def MEMORY_HANDLE_ACQUIRABLE_HANDLE_STORAGE_def
        handles_inv_def heap_inv_def)
  have "messages m' = (messages m)(h \<mapsto> ([], []))"
    using a ne [OF start(1)] by (auto simp: messages_def acquired_def MEMORY_HANDLE_ACQUIRABLE_HANDLE_STORAGE_def fun_eq_iff)
  moreover have "spec_step (MEMORY_HANDLE_ACQUIRABLE_START m) Acquire (messages m) ((messages m)(h \<mapsto> ([], [])))"
    using a start ne by (intro spec_step.acquire) (auto simp: acquired_def messages_def)
  ultimately show ?thesis using a by (simp add: simulates_def acquired_def)
qed

section \<open>Reachable heaps\<close>

definition call_valid :: "mem \<Rightarrow> heap_call \<Rightarrow> bool" where
  "call_valid m c \<longleftrightarrow> c = Acquire \<or> call_ok m c \<and> spec_update c (messages m) \<noteq> None"

inductive reachable :: "nat \<Rightarrow> mem \<Rightarrow> bool" for n where
  start: "zepto_mem_man_init_memory_management n B = Some m \<Longrightarrow> reachable n m"
| call: "\<lbrakk>reachable n m; call_valid m c; run_call c m = Some m'\<rbrakk> \<Longrightarrow> reachable n m'"

lemma valid_call_simulated:
  assumes "handles_inv m" "call_valid m c" "run_call c m = Some m'"
  shows "simulates m c m'"
proof (cases "c = Acquire")
  case True
  then show ?thesis using acquire_simulated [OF assms(1)] assms(3) by simp
next
  case False
  then obtain h v where ok: "call_ok m c" and spec: "spec_update c (messages m) = Some (h, v)"
    using assms(2) by (auto simp: call_valid_def)
  show ?thesis
  proof (cases "needs c (messages m) \<le> free_space m")
    case True
    from call_simulated [OF assms(1) ok spec True] assms(3) show ?thesis by simp
  next
    case False
    with call_without_room [OF assms(1) ok spec] assms(3) show ?thesis by simp
  qed
qed

lemma reachable_inv:
  assumes "reachable n m" "0 < n" "n < 4096"
  shows "handles_inv m \<and> MEMORY_HANDLE_MAX m = n"
  using assms(1)
proof induction
  case (start B m)
  then show ?case using init_effect [OF assms(2,3), of B] by auto
next
  case (call m c m')
  then show ?case using valid_call_simulated [of m c m'] by (simp add: simulates_def)
qed

end
