(* ===== verification/Packed_Numbers.thy ===== *)
theory Packed_Numbers
  imports Message_Store
begin

text \<open>
  Packed integers through the heap: what is appended with
  \<open>zepto_parser_encode_and_append_uint16\<close> and its siblings is read back by
  \<open>zepto_parse_encoded_uint16\<close> and its siblings once the message has been handed over.
\<close>

section \<open>Bytes of a number\<close>

lemma byte_of_word: "(of_nat (unat (w :: 'a::len word) div 256 ^ k) :: u8) = ucast (drop_bit (8 * k) w)"
proof (rule word_unat_eq_iff [THEN iffD2])
  show "unat (of_nat (unat w div 256 ^ k) :: u8) = unat (ucast (drop_bit (8 * k) w) :: u8)"
    unfolding unat_byte by (simp add: unat_of_nat)
qed

lemma le_bytes_nth: "i < k \<Longrightarrow> le_bytes k n ! i = of_nat (n div 256 ^ i)"
  by (simp add: le_bytes_def)

lemma le_bytes_word: "i < k \<Longrightarrow> le_bytes k (unat w) ! i = ucast (drop_bit (8 * i) (w :: 'a::len word))"
  by (simp add: le_bytes_nth byte_of_word)

lemma join_u16: "push_bit 8 (ucast (ucast (drop_bit 8 v) :: u8)) OR ucast (ucast v :: u8) = (v :: u16)"
  by (rule bit_word_eqI) (auto simp: bit_simps)

lemma join_u32:
  "(push_bit 24 (ucast (ucast (drop_bit 16 v) :: u8)) OR push_bit 8 (ucast (ucast (drop_bit 8 v) :: u8))) OR
      ucast (ucast v :: u8) =
   push_bit 24 (drop_bit 16 v) OR take_bit 16 (v :: u32)"
  by (rule bit_word_eqI) (auto simp: bit_simps)

lemma le_bytes_zero:
  "le_bytes k (unat w) ! 0 = ucast (w :: 'a::len word)" if "0 < k"
  using le_bytes_word [OF that, of w] by simp

lemma unat_bounds: "unat (v16 :: u16) < 65536" "unat (v32 :: u32) < 4294967296"
proof -
  have "unat v16 < 2 ^ LENGTH(16)" "unat v32 < 2 ^ LENGTH(32)" by (rule unsigned_less)+
  then show "unat v16 < 65536" "unat v32 < 4294967296" by simp_all
qed

lemma packed_u16: "length (packed_nat (unat (v :: u16))) \<le> 3"
  using unat_bounds(1) [of v] by (intro length_packed_nat) auto

lemma packed_u32: "length (packed_nat (unat (v :: u32))) \<le> 5"
  using unat_bounds(2) [of v] by (intro length_packed_nat) auto

section \<open>Through the heap\<close>

text \<open>A number written as the only part of a message and handed over.\<close>

lemma number_message:
  assumes "heap_inv m" "content m h = Some (rq, [])" "int (length (packed_nat n)) \<le> free_space m"
  obtains m1 m2 where "zepto_write_block m h (packed_nat n) = Some m1" "zepto_response_to_request m1 h = Some m2"
    "heap_inv m2" "content m2 h = Some (packed_nat n, [])"
proof -
  from heap_exchange.message_exchanged [OF assms(1,2), of "[packed_nat n]"] assms(3) obtain m1 m2 where
    "zepto_write_block m h (packed_nat n) = Some m1" "zepto_response_to_request m1 h = Some m2"
    "heap_inv m2" "content m2 = (content m)(h \<mapsto> (packed_nat n, []))"
    by (auto simp: bind_eq_Some_conv)
  with that show thesis by simp
qed

lemma init_parser:
  assumes "heap_inv m" "content m h = Some c"
  shows "zepto_parser_init m h = Some \<lparr>mem_handle = Some h, offset = 0, res_valid = True\<rparr>"
  using valid_handle [OF assms] by (simp add: zepto_parser_init_def)

lemma decode_whole_message:
  assumes "heap_inv m" "content m h = Some (packed_nat n, [])" "length (packed_nat n) \<le> 8"
    "0 < t" "t \<le> 8" "n < 256 ^ t"
  shows "zepto_parser_decode_uint m \<lparr>mem_handle = Some h, offset = 0, res_valid = True\<rparr> t =
    Some (le_bytes t n, \<lparr>mem_handle = Some h, offset = int (length (packed_nat n)), res_valid = True\<rparr>)"
  using decode_uint_effect [OF assms(1,2), of "\<lparr>mem_handle = Some h, offset = 0, res_valid = True\<rparr>" 0 n "[]" t]
    assms(3-6) by simp

lemma read_back_u16:
  assumes "heap_inv m" "content m h = Some (packed_nat (unat v), [])"
  shows "(do { po \<leftarrow> zepto_parser_init m h; zepto_parse_encoded_uint16 m po }) =
    Some (v :: u16, \<lparr>mem_handle = Some h, offset = int (length (packed_nat (unat v))), res_valid = True\<rparr>)"
  using decode_whole_message [OF assms, of 2] packed_u16 [of v] unat_bounds(1) [of v] init_parser [OF assms]
  by (simp add: zepto_parse_encoded_uint16_def le_bytes_word le_bytes_zero join_u16)

lemma read_back_u32:
  assumes "heap_inv m" "content m h = Some (packed_nat (unat v), [])"
  shows "(do { po \<leftarrow> zepto_parser_init m h; zepto_parse_encoded_uint32 m po }) =
    Some (push_bit 24 (drop_bit 16 v) OR take_bit 16 (v :: u32),
      \<lparr>mem_handle = Some h, offset = int (length (packed_nat (unat v))), res_valid = True\<rparr>)"
  using decode_whole_message [OF assms, of 4] packed_u32 [of v] unat_bounds(2) [of v] init_parser [OF assms]
  by (simp add: zepto_parse_encoded_uint32_def le_bytes_word le_bytes_zero join_u32)

end
