(* ===== verification/Handle_Rules.thy ===== *)
theory Handle_Rules
  imports Heap_Machine Packed_Numbers
begin

text \<open>
  How the other components use the memory manager: \<open>acquire_memory_handle\<close> and
  \<open>release_memory_handle\<close> (\<open>zepto_mem_mngmt.c\<close>), writers as lists of blocks, and rules for a
  sequence of calls that keep account of the messages and of the room left.
\<close>

section \<open>Acquiring and releasing\<close>

definition acquire_memory_handle :: "mem \<Rightarrow> (nat option \<times> mem) option" where
  "acquire_memory_handle m = memory_object_acquire m"

text \<open>Callers that assert that the handle is valid, or use it at once, which comes to the same.\<close>

definition acquire_valid_handle :: "mem \<Rightarrow> (nat \<times> mem) option" where
  "acquire_valid_handle m = do {
     (mem_h, m) \<leftarrow> acquire_memory_handle m;
     mem_h \<leftarrow> mem_h;
     Some (mem_h, m)
   }"

definition release_memory_handle :: "mem \<Rightarrow> nat \<Rightarrow> mem option" where
  "release_memory_handle m mem_h = memory_object_release m mem_h"

section \<open>Writers as lists of blocks\<close>

text \<open>What a writer appends, whatever the state of the heap: the calls compose like lists.\<close>

definition as_blocks :: "nat \<Rightarrow> (mem \<Rightarrow> mem option) \<Rightarrow> u8 list list \<Rightarrow> bool" where
  "as_blocks h f bss \<longleftrightarrow> (\<forall>m. heap_inv m \<longrightarrow> content m h \<noteq> None \<longrightarrow> f m = write_each zepto_write_block m h bss)"

lemma write_each_good:
  assumes "heap_inv m" "content m h \<noteq> None" "write_each zepto_write_block m h bss = Some m'"
  shows "heap_inv m' \<and> content m' h \<noteq> None"
proof -
  from assms(2) obtain rq rsp where v: "content m h = Some (rq, rsp)" by auto
  have "int (length (concat bss)) \<le> free_space m"
    using heap.blocks_full [OF assms(1) v, of bss] assms(3) by fastforce
  from heap.blocks_fit [OF assms(1) v this] assms(3) show ?thesis by auto
qed

lemma as_blocks_bind [intro]:
  assumes "as_blocks h f bs" "as_blocks h g cs"
  shows "as_blocks h (\<lambda>m. do { m \<leftarrow> f m; g m }) (bs @ cs)"
  unfolding as_blocks_def
proof (intro allI impI)
  fix m assume m: "heap_inv m" "content m h \<noteq> None"
  show "do { m \<leftarrow> f m; g m } = write_each zepto_write_block m h (bs @ cs)"
  proof (cases "write_each zepto_write_block m h bs")
    case None
    then show ?thesis using assms(1) m by (simp add: as_blocks_def write_each_append)
  next
    case (Some m')
    with write_each_good [OF m Some] assms m show ?thesis by (simp add: as_blocks_def write_each_append)
  qed
qed

lemma as_blocks_nothing: "as_blocks h Some []"
  by (simp add: as_blocks_def)

lemma as_blocks_write:
  "as_blocks h (\<lambda>m. zepto_parser_encode_and_append_uint16 m h v) [packed_nat (unat v)]"
  "as_blocks h (\<lambda>m. zepto_parser_encode_and_append_uint32 m h w) [packed_nat (unat w)]"
  "as_blocks h (\<lambda>m. zepto_write_uint8 m h b) [[b]]"
  by (simp_all add: as_blocks_def append_as_block split: Option.bind_split)

lemma as_blocks_seq:
  "as_blocks h g cs \<Longrightarrow> as_blocks h (\<lambda>m. do { m \<leftarrow> zepto_parser_encode_and_append_uint16 m h v; g m }) (packed_nat (unat v) # cs)"
  "as_blocks h g cs \<Longrightarrow> as_blocks h (\<lambda>m. do { m \<leftarrow> zepto_write_uint8 m h b; g m }) ([b] # cs)"
  using as_blocks_bind [OF as_blocks_write(1)] as_blocks_bind [OF as_blocks_write(3)] by fastforce+

lemma as_blocks_fit:
  assumes "as_blocks h f bss" "heap_inv m" "content m h = Some (rq, rsp)" "int (length (concat bss)) \<le> free_space m"
  shows "\<exists>m'. f m = Some m' \<and> heap_inv m' \<and> content m' = (content m)(h \<mapsto> (rq, rsp @ concat bss)) \<and>
    free_space m' = free_space m - int (length (concat bss))"
  using heap.blocks_fit [OF assms(2-4)] assms(1-3) by (simp add: as_blocks_def)

section \<open>Effect on the messages\<close>

lemma acquire_messages:
  assumes "handles_inv m" "acquire_memory_handle m = Some (r, m')"
  obtains h where "r = Some h" "handles_inv m'" "MEMORY_HANDLE_MAX m' = MEMORY_HANDLE_MAX m"
    "MEMORY_HANDLE_MAX m \<le> h" "messages m h = None" "messages m' = (messages m)(h \<mapsto> ([], []))"
proof -
  obtain h where r: "r = Some h" and a: "acquired m h m'"
    using acquire_effect [OF assms(1)] assms(2) by (auto simp: acquire_memory_handle_def)
  have "MEMORY_HANDLE_ACQUIRABLE_HANDLE_STORAGE m \<noteq> h"
    using a assms(1) by (auto simp: acquired_def MEMORY_HANDLE_ACQUIRABLE_START_def
        MEMORY_HANDLE_ACQUIRABLE_HANDLE_STORAGE_def handles_inv_def heap_inv_def)
  then have "messages m' = (messages m)(h \<mapsto> ([], []))" "messages m h = None"
    using a by (auto simp: messages_def acquired_def MEMORY_HANDLE_ACQUIRABLE_HANDLE_STORAGE_def fun_eq_iff)
  then show thesis using that r a by (auto simp: acquired_def MEMORY_HANDLE_ACQUIRABLE_START_def)
qed

lemma release_messages:
  assumes "handles_inv m" "MEMORY_HANDLE_MAX m \<le> h" "messages m h \<noteq> None"
  obtains m' where "release_memory_handle m h = Some m'" "handles_inv m'" "MEMORY_HANDLE_MAX m' = MEMORY_HANDLE_MAX m"
    "messages m' = (messages m)(h := None)" "free_space m \<le> free_space m'"
proof -
  have h: "content m h \<noteq> None" "h \<noteq> MEMORY_HANDLE_ACQUIRABLE_HANDLE_STORAGE m" using assms(3) messages_content by auto
  obtain m' where m': "memory_object_release m h = Some m'" "released m h m'"
    using release_effect [OF assms(1) _ h(1)] assms(2) by (auto simp: MEMORY_HANDLE_ACQUIRABLE_START_def)
  have "messages m' = (messages m)(h := None)"
    using m'(2) h(2) by (auto simp: messages_def released_def MEMORY_HANDLE_ACQUIRABLE_HANDLE_STORAGE_def fun_eq_iff)
  then show thesis using that m' by (auto simp: released_def release_memory_handle_def)
qed

section \<open>Handles and room\<close>

text \<open>
  What a caller knows of the heap: the messages of the handles, and how many bytes can still be
  allocated at least.
\<close>

definition has_room :: "mem \<Rightarrow> messages \<Rightarrow> int \<Rightarrow> nat \<Rightarrow> bool" where
  "has_room m M n k \<longleftrightarrow> handles_inv m \<and> messages m = M \<and> 0 \<le> n \<and> n \<le> free_space m \<and> MEMORY_HANDLE_MAX m = k"

lemma has_room_content:
  assumes "has_room m M n k" "M h = Some c"
  shows "heap_inv m" "content m h = Some c" "h \<noteq> MEMORY_HANDLE_ACQUIRABLE_HANDLE_STORAGE m"
  using assms messages_content by (auto simp: has_room_def handles_inv_def)

lemma has_room_grown:
  assumes "has_room m M n k" "grown m h c m'" "M h \<noteq> None" "0 \<le> n'" "n' \<le> free_space m'"
  shows "has_room m' (M(h \<mapsto> c)) n' k"
  using grown_messages [OF assms(2)] assms(1,3-5) by (simp add: has_room_def)

lemma grown_free_space:
  assumes "grown m h (rq', rsp') m'" "heap_inv m" "content m h = Some (rq, rsp)"
  shows "free_space m' = free_space m + int (length rq) + int (length rsp) - int (length rq') - int (length rsp')"
proof -
  have "h < length (memory_objects m)" using assms(3) by (auto simp: content_def split: if_splits)
  from free_space_grown [OF assms(1,2) this] assms(3) show ?thesis by simp
qed

lemma room_acquire:
  assumes "has_room m M n k" "M k \<noteq> None" "17 \<le> n"
  obtains h m' where "acquire_valid_handle m = Some (h, m')" "M h = None" "k \<le> h"
    "has_room m' (M(h \<mapsto> ([], []))) (n - 17) k"
proof -
  have inv: "handles_inv m" and M: "messages m = M" and n: "n \<le> free_space m" and k: "MEMORY_HANDLE_MAX m = k"
    using assms(1) by (simp_all add: has_room_def)
  have start: "MEMORY_HANDLE_ACQUIRABLE_START m = k" using k by (simp add: MEMORY_HANDLE_ACQUIRABLE_START_def)
  have "content m k \<noteq> None" using assms(2) M messages_content by blast
  then obtain h m' where a: "memory_object_acquire m = Some (Some h, m')" "acquired m h m'" "n - 17 \<le> free_space m'"
    using acquire_available [OF inv, of "n - 17"] start n assms(3) by (auto simp: sizeof_request_reply_mem_obj_def)
  have st: "MEMORY_HANDLE_ACQUIRABLE_HANDLE_STORAGE m \<noteq> h" "MEMORY_HANDLE_MAX m' = k"
    using a(2) inv k by (auto simp: acquired_def MEMORY_HANDLE_ACQUIRABLE_START_def
        MEMORY_HANDLE_ACQUIRABLE_HANDLE_STORAGE_def handles_inv_def heap_inv_def)
  then have "messages m' = (messages m)(h \<mapsto> ([], []))"
    using a(2) by (auto simp: messages_def acquired_def MEMORY_HANDLE_ACQUIRABLE_HANDLE_STORAGE_def fun_eq_iff)
  then have "messages m' = M(h \<mapsto> ([], []))" by (simp add: M)
  moreover have "M h = None" using a(2) M by (auto simp: messages_def acquired_def)
  ultimately show thesis
    using that a st assms(3) start by (simp add: has_room_def acquire_valid_handle_def acquire_memory_handle_def acquired_def)
qed

lemma room_release:
  assumes "has_room m M n k" "M h \<noteq> None" "k \<le> h"
  obtains m' where "release_memory_handle m h = Some m'" "has_room m' (M(h := None)) 0 k"
proof -
  have inv: "handles_inv m" and M: "messages m = M" and k: "MEMORY_HANDLE_MAX m = k"
    using assms(1) by (simp_all add: has_room_def)
  obtain m' where m': "release_memory_handle m h = Some m'" "handles_inv m'" "MEMORY_HANDLE_MAX m' = MEMORY_HANDLE_MAX m"
    "messages m' = (messages m)(h := None)"
    by (rule release_messages [OF inv, of h]) (use assms(2,3) M k in simp_all)
  have "heap_inv m'" using m'(2) by (simp add: handles_inv_def)
  then show thesis using that m' M k free_space_nonneg [of m'] by (simp add: has_room_def)
qed

lemma room_write:
  assumes "has_room m M n k" "M h = Some (rq, rsp)" "as_blocks h f bss" "int (length (concat bss)) \<le> n"
  obtains m' where "f m = Some m'" "has_room m' (M(h \<mapsto> (rq, rsp @ concat bss))) (n - int (length (concat bss))) k"
proof -
  note c = has_room_content [OF assms(1,2)]
  have n: "n \<le> free_space m" using assms(1) by (simp add: has_room_def)
  have fit: "int (length (concat bss)) \<le> free_space m" using n assms(4) by simp
  have grow: "\<exists>m'. write_each zepto_write_block m h bss = Some m' \<and> grown m h (rq, rsp @ concat bss) m'"
    using c(1,2) fit
  proof (induction bss arbitrary: m rsp)
    case Nil
    then show ?case by (auto simp: grown_def)
  next
    case (Cons b bss)
    obtain m1 where m1: "zepto_write_block m h b = Some m1" "grown m h (rq, rsp @ b) m1"
      using write_block_effect [OF Cons.prems(1,2), of b] Cons.prems(3) by auto
    have "int (length (concat bss)) \<le> free_space m1"
      using grown_free_space [OF m1(2) Cons.prems(1,2)] Cons.prems(3) by simp
    then obtain m' where "write_each zepto_write_block m1 h bss = Some m'" "grown m1 h (rq, (rsp @ b) @ concat bss) m'"
      using Cons.IH [OF grownD(1) [OF m1(2)]] grownD(2) [OF m1(2)] by fastforce
    then show ?case using m1(1) grown_grown [OF m1(2)] by auto
  qed
  then obtain m' where m': "write_each zepto_write_block m h bss = Some m'" "grown m h (rq, rsp @ concat bss) m'" by blast
  have "has_room m' (M(h \<mapsto> (rq, rsp @ concat bss))) (n - int (length (concat bss))) k"
    by (rule has_room_grown [OF assms(1) m'(2)])
      (use assms(2,4) n grown_free_space [OF m'(2) c(1,2)] in simp_all)
  then show thesis using that m'(1) assms(3) c by (simp add: as_blocks_def)
qed

lemma room_append_response:
  assumes "has_room m M n k" "M t = Some (trq, trsp)" "M h = Some (rq, rsp)" "h \<noteq> t" "int (length rsp) \<le> n"
  obtains m' where "zepto_append_response_to_response_of_another_handle m h t = Some m'"
    "has_room m' (M(t \<mapsto> (trq, trsp @ rsp))) (n - int (length rsp)) k"
proof -
  note c = has_room_content [OF assms(1,2)] and s = has_room_content [OF assms(1,3)]
  have n: "n \<le> free_space m" using assms(1) by (simp add: has_room_def)
  obtain m' where m': "zepto_append_response_to_response_of_another_handle m h t = Some m'" "grown m t (trq, trsp @ rsp) m'"
    using append_response_to_response [OF c(1,2) s(2) assms(4)] n assms(5) by auto
  have "has_room m' (M(t \<mapsto> (trq, trsp @ rsp))) (n - int (length rsp)) k"
    by (rule has_room_grown [OF assms(1) m'(2)]) (use assms(2,5) n grown_free_space [OF m'(2) c(1,2)] in simp_all)
  then show thesis using that m'(1) by blast
qed

lemma room_free:
  assumes "has_room m M n k" "M h = Some c"
  obtains m' where "zepto_parser_free_memory m h = Some m'" "has_room m' (M(h \<mapsto> ([], []))) n k"
proof -
  obtain rq rsp where c: "c = (rq, rsp)" by fastforce
  note v = has_room_content [OF assms [unfolded c]]
  obtain m' where m': "zepto_parser_free_memory m h = Some m'" "grown m h ([], []) m'" using free_effect [OF v(1,2)] by blast
  have "has_room m' (M(h \<mapsto> ([], []))) n k"
    by (rule has_room_grown [OF assms(1) m'(2)])
      (use assms grown_free_space [OF m'(2) v(1,2)] in \<open>auto simp: has_room_def\<close>)
  then show thesis using that m'(1) by blast
qed

lemma room_copy_response:
  assumes "has_room m M n k" "M t = Some ([], [])" "M h = Some (rq, rsp)" "h \<noteq> t" "int (length rsp) \<le> n"
  obtains m' where "zepto_copy_response_to_response_of_another_handle m h t = Some m'"
    "has_room m' (M(t \<mapsto> ([], rsp))) (n - int (length rsp)) k"
proof -
  note c = has_room_content [OF assms(1,2)] and s = has_room_content [OF assms(1,3)]
  have n: "n \<le> free_space m" using assms(1) by (simp add: has_room_def)
  obtain m' where m': "zepto_copy_response_to_response_of_another_handle m h t = Some m'" "grown m t ([], rsp) m'"
    using copy_response_to_response [OF c(1,2) s(2) assms(4)] n assms(5) by auto
  have "has_room m' (M(t \<mapsto> ([], rsp))) (n - int (length rsp)) k"
    by (rule has_room_grown [OF assms(1) m'(2)]) (use assms(2,5) n grown_free_space [OF m'(2) c(1,2)] in simp_all)
  then show thesis using that m'(1) by blast
qed

lemma room_copy_request:
  assumes "has_room m M n k" "M t = Some ([], [])" "M h = Some (rq, rsp)" "h \<noteq> t" "int (length rq) \<le> n"
  obtains m' where "zepto_copy_request_to_response_of_another_handle m h t = Some m'"
    "has_room m' (M(t \<mapsto> ([], rq))) (n - int (length rq)) k"
proof -
  note c = has_room_content [OF assms(1,2)] and s = has_room_content [OF assms(1,3)]
  have n: "n \<le> free_space m" using assms(1) by (simp add: has_room_def)
  obtain m' where m': "zepto_copy_request_to_response_of_another_handle m h t = Some m'" "grown m t ([], rq) m'"
    using copy_request_to_response [OF c(1,2) s(2) assms(4)] n assms(5) by auto
  have "has_room m' (M(t \<mapsto> ([], rq))) (n - int (length rq)) k"
    by (rule has_room_grown [OF assms(1) m'(2)]) (use assms(2,5) n grown_free_space [OF m'(2) c(1,2)] in simp_all)
  then show thesis using that m'(1) by blast
qed

lemma room_hand_over:
  assumes "has_room m M n k" "M h = Some (rq, rsp)"
  obtains m' where "zepto_response_to_request m h = Some m'" "has_room m' (M(h \<mapsto> (rsp, []))) n k"
proof -
  note c = has_room_content [OF assms]
  obtain m' where m': "zepto_response_to_request m h = Some m'" "grown m h (rsp, []) m'"
    using response_to_request_view [OF c(1,2)] by blast
  have "has_room m' (M(h \<mapsto> (rsp, []))) n k"
    by (rule has_room_grown [OF assms(1) m'(2)])
      (use assms grown_free_space [OF m'(2) c(1,2)] in \<open>auto simp: has_room_def\<close>)
  then show thesis using that m'(1) by blast
qed

lemma parser_at:
  assumes "has_room m M n k" "M h = Some (rq, rsp)"
  obtains po po1 where "zepto_parser_init m h = Some po" "zepto_parsing_remaining_bytes m po = Some (int (length rq), po)"
    "zepto_parse_skip_block m po (int (length rq)) = Some (True, po1)"
    "mem_handle po = Some h" "offset po = 0" "mem_handle po1 = Some h" "offset po1 = int (length rq)" "res_valid po" "res_valid po1"
    "length rq < 65536" "zepto_parse_read_block m po (int (length rq)) = Some (Some rq, po1)"
proof -
  note c = has_room_content [OF assms]
  from view_object [OF c(1,2)] obtain xs ob ys where live: "live_at m xs ob ys" "rq_size ob = int (length rq)" by metis
  have len: "length rq < 65536" using live_at_order [of m xs ob ys] live by simp
  let ?po = "\<lparr>mem_handle = Some h, offset = 0, res_valid = True\<rparr>"
  let ?po1 = "?po\<lparr>offset := int (length rq)\<rparr>"
  show thesis
  proof (rule that [of ?po ?po1])
    show "zepto_parser_init m h = Some ?po" using valid_handle [OF c(1,2)] by (simp add: zepto_parser_init_def)
    show "zepto_parsing_remaining_bytes m ?po = Some (int (length rq), ?po)"
      using parser_handle_ok [OF c(1,2), of ?po] sizes_of_view [OF c(1,2)] len by (simp add: zepto_parsing_remaining_bytes_def)
    show "zepto_parse_skip_block m ?po (int (length rq)) = Some (True, ?po1)"
      using parser_handle_ok [OF c(1,2), of ?po] sizes_of_view [OF c(1,2)] len by (simp add: zepto_parse_skip_block_def)
    show "zepto_parse_read_block m ?po (int (length rq)) = Some (Some rq, ?po1)"
      using parse_read_block_effect [OF c(1,2), of ?po 0 "length rq"] len by simp
  qed (simp_all add: len)
qed

end
