(* ===== verification/Sample_Heaps.thy ===== *)
theory Sample_Heaps
  imports Heap_Machine
begin

text \<open>Concrete heaps at which the properties of the development are applied: freshly initialised, with
  a response, with a request, and with an acquired handle.\<close>

definition fresh_heap :: mem where
  "fresh_heap = the (zepto_mem_man_init_memory_management 3 (\<lambda>_. 0))"

definition message_heap :: mem where
  "message_heap = the (zepto_write_block fresh_heap 0 [1, 2, 3])"

definition request_heap :: mem where
  "request_heap = the (zepto_response_to_request message_heap 0)"

definition acquired_heap :: mem where
  "acquired_heap = snd (the (memory_object_acquire fresh_heap))"

lemma fresh_heap:
  "handles_inv fresh_heap" "heap_inv fresh_heap" "MEMORY_HANDLE_MAX fresh_heap = 3"
  "content fresh_heap h = (if h < 3 then Some ([], []) else None)" "free_space fresh_heap = 4092"
  using init_effect [of 3 "\<lambda>_. 0"] by (auto simp: fresh_heap_def handles_inv_def)

lemma fresh_run: "zepto_mem_man_init_memory_management 3 (\<lambda>_. 0) = Some fresh_heap"
  using init_effect [of 3 "\<lambda>_. 0"] by (auto simp: fresh_heap_def)

lemma message_heap:
  "heap_inv message_heap" "content message_heap = (content fresh_heap)(0 \<mapsto> ([], [1, 2, 3]))"
  "free_space message_heap = 4089" "MEMORY_HANDLE_MAX message_heap = 3"
proof -
  from write_block_effect [of fresh_heap 0 "[]" "[]" "[1, 2, 3]"]
  have run: "zepto_write_block fresh_heap 0 [1, 2, 3] = Some message_heap"
    and g: "grown fresh_heap 0 ([], [1, 2, 3]) message_heap"
    using fresh_heap by (auto simp: message_heap_def)
  have "content fresh_heap 0 = Some ([], [])" using fresh_heap(4) [of 0] by simp
  from room_after [OF g fresh_heap(2) this] grownD [OF g] fresh_heap
  show "heap_inv message_heap" "content message_heap = (content fresh_heap)(0 \<mapsto> ([], [1, 2, 3]))"
    "free_space message_heap = 4089" "MEMORY_HANDLE_MAX message_heap = 3" by simp_all
qed

lemma request_heap:
  "heap_inv request_heap" "content request_heap = (content fresh_heap)(0 \<mapsto> ([1, 2, 3], []))"
  "free_space request_heap = 4089" "MEMORY_HANDLE_MAX request_heap = 3"
proof -
  have c: "content message_heap 0 = Some ([], [1, 2, 3])" using message_heap(2) by simp
  from response_to_request_view [OF message_heap(1) c]
  have g: "grown message_heap 0 ([1, 2, 3], []) request_heap" by (auto simp: request_heap_def)
  from room_after [OF g message_heap(1) c] grownD [OF g] message_heap
  show "heap_inv request_heap" "content request_heap = (content fresh_heap)(0 \<mapsto> ([1, 2, 3], []))"
    "free_space request_heap = 4089" "MEMORY_HANDLE_MAX request_heap = 3" by simp_all
qed

lemma acquired_heap:
  "memory_object_acquire fresh_heap = Some (Some 3, acquired_heap)" "handles_inv acquired_heap"
  "content acquired_heap 3 = Some ([], [])" "MEMORY_HANDLE_MAX acquired_heap = 3"
proof -
  have ne: "memory_object_acquire fresh_heap \<noteq> None" "map_option fst (memory_object_acquire fresh_heap) = Some (Some 3)"
    unfolding fresh_heap_def by code_simp+
  then show run: "memory_object_acquire fresh_heap = Some (Some 3, acquired_heap)"
    by (cases "memory_object_acquire fresh_heap") (auto simp: acquired_heap_def)
  from acquire_effect [OF fresh_heap(1)] run have "acquired fresh_heap 3 acquired_heap" by auto
  then show "handles_inv acquired_heap" "content acquired_heap 3 = Some ([], [])" "MEMORY_HANDLE_MAX acquired_heap = 3"
    using fresh_heap(3) by (simp_all add: acquired_def)
qed

end
