(* ===== verification/Packet_Queue.thy ===== *)
theory Packet_Queue
  imports Prelude
begin

text \<open>
  The queue of packets that arrive while a reply of the central unit is awaited
  (\<open>commstack_commlayer_helper.cpp\<close>). The STL list is a HOL list, oldest first. The interface
  \<open>fifo\<close> states what the communication layer relies on and is interpreted on the model.
\<close>

section \<open>Model\<close>

record INCOMING_PACKET =
  pkt_src :: u8
  pkt_sz :: int
  pkt_addr :: u16
  pkt_data :: "u8 list option"

definition COMMLAYER_SYNC_STATUS_OK :: u8 where "COMMLAYER_SYNC_STATUS_OK = 0"
definition COMMLAYER_SYNC_STATUS_NO_MORE_PACKETS :: u8 where "COMMLAYER_SYNC_STATUS_NO_MORE_PACKETS = 1"

lemmas sync_status_defs = COMMLAYER_SYNC_STATUS_OK_def COMMLAYER_SYNC_STATUS_NO_MORE_PACKETS_def

definition cscl_is_queued_packet :: "INCOMING_PACKET list \<Rightarrow> u8" where
  "cscl_is_queued_packet packets =
     (if length packets \<noteq> 0 then COMMLAYER_SYNC_STATUS_OK else COMMLAYER_SYNC_STATUS_NO_MORE_PACKETS)"

text \<open>\<open>buf\<close> is the readable memory at the pointer \<open>data\<close>.\<close>

definition cscl_fill_packet :: "u8 \<Rightarrow> int \<Rightarrow> u16 \<Rightarrow> u8 list \<Rightarrow> INCOMING_PACKET option" where
  "cscl_fill_packet src sz addr buf =
     (if sz \<noteq> 0 then do {
        assert (sz \<le> int (length buf));
        Some \<lparr>pkt_src = src, pkt_sz = sz, pkt_addr = addr, pkt_data = Some (take (nat sz) buf)\<rparr>
      } else Some \<lparr>pkt_src = src, pkt_sz = sz, pkt_addr = addr, pkt_data = None\<rparr>)"

definition cscl_add_new_packet_to_queue ::
  "INCOMING_PACKET list \<Rightarrow> u8 \<Rightarrow> int \<Rightarrow> u16 \<Rightarrow> u8 list \<Rightarrow> INCOMING_PACKET list option" where
  "cscl_add_new_packet_to_queue packets src sz addr buf = do {
     packet \<leftarrow> cscl_fill_packet src sz addr buf;
     Some (packets @ [packet])
   }"

definition cscl_get_oldest_packet_size :: "INCOMING_PACKET list \<Rightarrow> u8 \<times> int" where
  "cscl_get_oldest_packet_size packets = (case packets of
     [] \<Rightarrow> (COMMLAYER_SYNC_STATUS_NO_MORE_PACKETS, 0)
   | packet # _ \<Rightarrow> (COMMLAYER_SYNC_STATUS_OK, pkt_sz packet))"

text \<open>
  The output parameters \<open>src\<close>, \<open>addr\<close> and \<open>data\<close> are only set when there is a packet; the
  packet itself is deleted.
\<close>

definition cscl_get_oldest_packet_and_remove_from_queue ::
  "INCOMING_PACKET list \<Rightarrow> int \<Rightarrow> (u8 \<times> int \<times> (u8 \<times> u16 \<times> u8 list) option \<times> INCOMING_PACKET list) option" where
  "cscl_get_oldest_packet_and_remove_from_queue packets max_sz = (case packets of
     [] \<Rightarrow> Some (COMMLAYER_SYNC_STATUS_NO_MORE_PACKETS, 0, None, [])
   | packet # rest \<Rightarrow> do {
       assert (pkt_sz packet \<le> max_sz);
       buf \<leftarrow> (if pkt_sz packet \<noteq> 0 then do {
           buf \<leftarrow> pkt_data packet;
           assert (pkt_sz packet \<le> int (length buf));
           Some (take (nat (pkt_sz packet)) buf)
         } else Some []);
       Some (COMMLAYER_SYNC_STATUS_OK, pkt_sz packet, Some (pkt_src packet, pkt_addr packet, buf), rest)
     })"

section \<open>The interface of a queue\<close>

locale fifo =
  fixes good :: "'q \<Rightarrow> bool"
    and items :: "'q \<Rightarrow> 'a list"
    and fits :: "'a \<Rightarrow> bool"
    and enq :: "'q \<Rightarrow> 'a \<Rightarrow> 'q option"
    and deq :: "'q \<Rightarrow> ('a \<times> 'q) option"
  assumes enq_last: "\<lbrakk>good q; fits a\<rbrakk> \<Longrightarrow> \<exists>q'. enq q a = Some q' \<and> good q' \<and> items q' = items q @ [a]"
    and deq_first: "\<lbrakk>good q; items q = a # as\<rbrakk> \<Longrightarrow> \<exists>q'. deq q = Some (a, q') \<and> good q' \<and> items q' = as"
begin

fun enq_all :: "'q \<Rightarrow> 'a list \<Rightarrow> 'q option" where
  "enq_all q [] = Some q"
| "enq_all q (a # as) = do { q \<leftarrow> enq q a; enq_all q as }"

fun deq_many :: "nat \<Rightarrow> 'q \<Rightarrow> ('a list \<times> 'q) option" where
  "deq_many 0 q = Some ([], q)"
| "deq_many (Suc n) q = do { (a, q) \<leftarrow> deq q; (as, q) \<leftarrow> deq_many n q; Some (a # as, q) }"

lemma enq_all_items:
  assumes "good q" "list_all fits as"
  shows "\<exists>q'. enq_all q as = Some q' \<and> good q' \<and> items q' = items q @ as"
  using assms
proof (induction as arbitrary: q)
  case (Cons a as)
  then obtain q1 where q1: "enq q a = Some q1" "good q1" "items q1 = items q @ [a]"
    using enq_last [of q a] by auto
  with Cons.IH [of q1] Cons.prems show ?case by auto
qed simp

lemma deq_many_items:
  assumes "good q" "n \<le> length (items q)"
  shows "\<exists>q'. deq_many n q = Some (take n (items q), q') \<and> good q' \<and> items q' = drop n (items q)"
  using assms
proof (induction n arbitrary: q)
  case (Suc n)
  then obtain a as where items: "items q = a # as" by (cases "items q") auto
  then obtain q1 where q1: "deq q = Some (a, q1)" "good q1" "items q1 = as"
    using deq_first [OF Suc.prems(1)] by blast
  with Suc.IH [of q1] Suc.prems items show ?case by auto
qed simp

text \<open>Whatever is put into an empty queue comes out in the same order.\<close>

lemma first_in_first_out:
  assumes "good q" "items q = []" "list_all fits as"
  shows "\<exists>q1 q2. enq_all q as = Some q1 \<and> deq_many (length as) q1 = Some (as, q2) \<and> good q2 \<and> items q2 = []"
proof -
  from enq_all_items [OF assms(1,3)] assms(2) obtain q1 where "enq_all q as = Some q1" "good q1" "items q1 = as" by auto
  with deq_many_items [of q1 "length as"] show ?thesis by auto
qed

end

section \<open>The packet queue is one\<close>

type_synonym packet = "u8 \<times> u16 \<times> u8 list"

definition packet_bytes :: "INCOMING_PACKET \<Rightarrow> u8 list" where
  "packet_bytes p = (case pkt_data p of None \<Rightarrow> [] | Some bs \<Rightarrow> bs)"

definition packet_of :: "INCOMING_PACKET \<Rightarrow> packet" where
  "packet_of p = (pkt_src p, pkt_addr p, packet_bytes p)"

definition packet_ok :: "INCOMING_PACKET \<Rightarrow> bool" where
  "packet_ok p \<longleftrightarrow> pkt_sz p = int (length (packet_bytes p)) \<and> (pkt_data p = None \<longleftrightarrow> pkt_sz p = 0)"

definition queue_ok :: "INCOMING_PACKET list \<Rightarrow> bool" where
  "queue_ok packets \<longleftrightarrow> list_all packet_ok packets"

text \<open>The two operations in the form of the interface: the reader asks for the size first.\<close>

definition put_packet :: "INCOMING_PACKET list \<Rightarrow> packet \<Rightarrow> INCOMING_PACKET list option" where
  "put_packet q p = (case p of (src, addr, buf) \<Rightarrow>
     cscl_add_new_packet_to_queue q src (int (length buf)) addr buf)"

definition take_packet :: "INCOMING_PACKET list \<Rightarrow> (packet \<times> INCOMING_PACKET list) option" where
  "take_packet q = do {
     let (ret_code, sz) = cscl_get_oldest_packet_size q;
     assert (ret_code = COMMLAYER_SYNC_STATUS_OK);
     (ret_code, sz, out, q) \<leftarrow> cscl_get_oldest_packet_and_remove_from_queue q sz;
     assert (ret_code = COMMLAYER_SYNC_STATUS_OK);
     p \<leftarrow> out;
     Some (p, q)
   }"

lemma put_packet_effect:
  assumes "queue_ok q"
  shows "\<exists>q'. put_packet q (src, addr, buf) = Some q' \<and> queue_ok q' \<and>
    map packet_of q' = map packet_of q @ [(src, addr, buf)]"
  using assms
  by (auto simp: put_packet_def cscl_add_new_packet_to_queue_def cscl_fill_packet_def queue_ok_def
      packet_ok_def packet_of_def packet_bytes_def)

lemma oldest_packet:
  assumes "queue_ok (p # q)"
  shows "cscl_get_oldest_packet_and_remove_from_queue (p # q) (pkt_sz p) =
    Some (COMMLAYER_SYNC_STATUS_OK, int (length (packet_bytes p)), Some (packet_of p), q)"
  using assms
  by (auto simp: cscl_get_oldest_packet_and_remove_from_queue_def queue_ok_def packet_ok_def
      packet_of_def packet_bytes_def split: option.splits)

lemma take_packet_effect:
  assumes "queue_ok q" "map packet_of q = p # ps"
  shows "\<exists>q'. take_packet q = Some (p, q') \<and> queue_ok q' \<and> map packet_of q' = ps"
proof -
  from assms(2) obtain i q' where q: "q = i # q'" "packet_of i = p" "map packet_of q' = ps" by auto
  with oldest_packet [of i q'] assms(1) show ?thesis
    by (simp add: take_packet_def cscl_get_oldest_packet_size_def queue_ok_def)
qed

interpretation packets: fifo queue_ok "map packet_of" "\<lambda>_. True" put_packet take_packet
  by unfold_locales (use put_packet_effect take_packet_effect in \<open>auto simp: split_paired_all\<close>)

end
