(* ===== verification/Commlayer.thy ===== *)
theory Commlayer
  imports Heap_Machine Packet_Queue
begin

text \<open>
  The connection to the communication layer (\<open>commstack_commlayer.c\<close>): framing of messages on a
  TCP stream, reading of frames, and synchronous requests to the central unit, during which other
  packets are queued. The operating system is an input of the model: what \<open>recvfrom\<close> finds, what
  \<open>sendto\<close> and \<open>select\<close> return. None of these functions allocates or reads memory outside the
  memory manager.
\<close>

section \<open>State\<close>

text \<open>
  What the socket has for the next calls of \<open>recvfrom\<close>: bytes that have arrived together, nothing
  yet, an error, or the end of the stream. An empty list means that nothing arrives any more; a
  loop that waits for it has no result.
\<close>

datatype socket_event = Arrived "u8 list" | Would_block | Socket_error | Closed

datatype recv_result = Bytes "u8 list" | Again | Failure

record comm =
  heap :: mem
  incoming :: "socket_event list"
  buffer_in_with_cl_pos :: int
  send_results :: "int list"
  sent :: "u8 list list"
  select_results :: "int list"
  select_timeouts :: "(nat \<times> nat) list"
  packets :: "INCOMING_PACKET list"
  sync_packet_id :: u16
  sync_status :: u8

definition COMMLAYER_RET_FAILED :: u8 where "COMMLAYER_RET_FAILED = 0"
definition COMMLAYER_RET_OK :: u8 where "COMMLAYER_RET_OK = 1"
definition COMMLAYER_RET_PENDING :: u8 where "COMMLAYER_RET_PENDING = 2"
definition COMMLAYER_RET_FROM_CENTRAL_UNIT :: u8 where "COMMLAYER_RET_FROM_CENTRAL_UNIT = 10"
definition COMMLAYER_RET_TIMEOUT :: u8 where "COMMLAYER_RET_TIMEOUT = 12"
definition COMMLAYER_FROM_CU_STATUS_FAILED :: u8 where "COMMLAYER_FROM_CU_STATUS_FAILED = 0"
definition COMMLAYER_FROM_CU_STATUS_SYNC_RESPONSE :: u8 where "COMMLAYER_FROM_CU_STATUS_SYNC_RESPONSE = 57"
definition COMMLAYER_TO_CU_STATUS_FOR_SLAVE :: u8 where "COMMLAYER_TO_CU_STATUS_FOR_SLAVE = 37"
definition COMMLAYER_TO_CU_STATUS_FROM_SLAVE :: u8 where "COMMLAYER_TO_CU_STATUS_FROM_SLAVE = 35"
definition COMMLAYER_TO_CU_STATUS_SLAVE_ERROR :: u8 where "COMMLAYER_TO_CU_STATUS_SLAVE_ERROR = 47"
definition COMMLAYER_TO_CU_STATUS_SYNC_REQUEST :: u8 where "COMMLAYER_TO_CU_STATUS_SYNC_REQUEST = 56"
definition COMMLAYER_TO_CU_STATUS_INITIALIZATION_DONE :: u8 where "COMMLAYER_TO_CU_STATUS_INITIALIZATION_DONE = 60"
definition COMMLAYER_TO_CU_STATUS_DEVICE_ADDED :: u8 where "COMMLAYER_TO_CU_STATUS_DEVICE_ADDED = 61"
definition COMMLAYER_TO_CU_STATUS_DEVICE_REMOVED :: u8 where "COMMLAYER_TO_CU_STATUS_DEVICE_REMOVED = 62"
definition COMMLAYER_FROM_CU_STATUS_GET_DEV_PERF_COUNTERS_REPLY :: u8 where
  "COMMLAYER_FROM_CU_STATUS_GET_DEV_PERF_COUNTERS_REPLY = 70"
definition COMMLAYER_SYNC_STATUS_WAIT_FOR_REPLY :: u8 where "COMMLAYER_SYNC_STATUS_WAIT_FOR_REPLY = 1"
definition REQUEST_TO_CU_WRITE_DATA :: u8 where "REQUEST_TO_CU_WRITE_DATA = 0"
definition REQUEST_TO_CU_READ_DATA :: u8 where "REQUEST_TO_CU_READ_DATA = 1"
definition MAX_PACKET_SIZE :: int where "MAX_PACKET_SIZE = 80"

lemmas ret_defs = COMMLAYER_RET_FAILED_def COMMLAYER_RET_OK_def COMMLAYER_RET_PENDING_def

section \<open>Reading frames\<close>

text \<open>\<open>recvfrom\<close> on a non-blocking stream socket, asking for at most \<open>n\<close> bytes.\<close>

fun recvfrom :: "nat \<Rightarrow> socket_event list \<Rightarrow> (recv_result \<times> socket_event list) option" where
  "recvfrom n [] = None"
| "recvfrom n (Arrived bs # es) =
     Some (Bytes (take n bs), if drop n bs = [] then es else Arrived (drop n bs) # es)"
| "recvfrom n (Would_block # es) = Some (Again, es)"
| "recvfrom n (Socket_error # es) = Some (Failure, es)"
| "recvfrom n (Closed # es) = Some (Bytes [], Closed # es)"

text \<open>\<open>buff\<close> is an address in the memory block; the bytes received are stored there by \<open>recvfrom\<close>.\<close>

definition try_get_packet_within_master_loop :: "comm \<Rightarrow> int \<Rightarrow> int \<Rightarrow> (u8 \<times> comm) option" where
  "try_get_packet_within_master_loop s buff sz = do {
     (r, es) \<leftarrow> recvfrom (nat (sz - buffer_in_with_cl_pos s)) (incoming s);
     let s = s\<lparr>incoming := es\<rparr>;
     case r of
       Again \<Rightarrow> Some (COMMLAYER_RET_PENDING, s)
     | Failure \<Rightarrow> Some (COMMLAYER_RET_FAILED, s)
     | Bytes bs \<Rightarrow> do {
         B \<leftarrow> mem_store BASE_MEM_BLOCK_SIZE (BASE_MEM_BLOCK (heap s)) (buff + buffer_in_with_cl_pos s) bs;
         let pos = to_u16 (buffer_in_with_cl_pos s + int (length bs));
         let s = s\<lparr>heap := set_block (heap s) B, buffer_in_with_cl_pos := pos\<rparr>;
         if pos < sz then Some (COMMLAYER_RET_PENDING, s)
         else Some (COMMLAYER_RET_OK, s)
       }
   }"

definition try_get_packet_header_within_master_loop :: "comm \<Rightarrow> int \<Rightarrow> int \<Rightarrow> (u8 \<times> comm) option" where
  "try_get_packet_header_within_master_loop s buff sz = do {
     (r, es) \<leftarrow> recvfrom (nat (sz - buffer_in_with_cl_pos s)) (incoming s);
     let s = s\<lparr>incoming := es\<rparr>;
     case r of
       Again \<Rightarrow> Some (COMMLAYER_RET_PENDING, s)
     | Failure \<Rightarrow> Some (COMMLAYER_RET_FAILED, s)
     | Bytes bs \<Rightarrow> do {
         B \<leftarrow> mem_store BASE_MEM_BLOCK_SIZE (BASE_MEM_BLOCK (heap s)) (buff + buffer_in_with_cl_pos s) bs;
         let pos = to_u16 (buffer_in_with_cl_pos s + int (length bs));
         let s = s\<lparr>heap := set_block (heap s) B, buffer_in_with_cl_pos := pos\<rparr>;
         if pos < sz then Some (COMMLAYER_RET_PENDING, s)
         else Some (COMMLAYER_RET_OK, s)
       }
   }"

text \<open>
  The \<open>do ... while ( ret == COMMLAYER_RET_PENDING )\<close> loops, with their body as argument; a closed
  connection keeps them running.
\<close>

partial_function (option) pending_loop :: "('s \<Rightarrow> (u8 \<times> 's) option) \<Rightarrow> 's \<Rightarrow> (u8 \<times> 's) option" where
  "pending_loop body s = do {
     (ret, s) \<leftarrow> body s;
     if ret = COMMLAYER_RET_PENDING then pending_loop body s else Some (ret, s)
   }"

text \<open>\<open>bus_id\<close> is written only after a complete header: \<open>None\<close> stands for the unchanged variable.\<close>

definition internal_try_get_message_within_master :: "comm \<Rightarrow> nat \<Rightarrow> (u8 \<times> u16 option \<times> comm) option" where
  "internal_try_get_message_within_master s mem_h = do {
     m \<leftarrow> memory_object_response_to_request (heap s) mem_h;
     m \<leftarrow> memory_object_response_to_request m mem_h;
     (buff, m) \<leftarrow> memory_object_append m mem_h MAX_PACKET_SIZE;
     let s = s\<lparr>heap := m, buffer_in_with_cl_pos := 0\<rparr>;
     (ret, s) \<leftarrow> pending_loop (\<lambda>s. try_get_packet_header_within_master_loop s buff 5) s;
     if ret \<noteq> COMMLAYER_RET_OK then Some (ret, None, s)
     else do {
       hdr \<leftarrow> mem_load BASE_MEM_BLOCK_SIZE (BASE_MEM_BLOCK (heap s)) buff 5;
       let sz = (push_bit 8 (ucast (hdr ! 1)) + ucast (hdr ! 0) :: u16);
       let bus_id = (push_bit 8 (ucast (hdr ! 3)) + ucast (hdr ! 2) :: u16);
       let packet_src = hdr ! 4;
       let s = s\<lparr>buffer_in_with_cl_pos := 0\<rparr>;
       (ret, s) \<leftarrow> pending_loop (\<lambda>s. try_get_packet_within_master_loop s buff (uint sz)) s;
       if ret = COMMLAYER_RET_FAILED then Some (COMMLAYER_FROM_CU_STATUS_FAILED, Some bus_id, s)
       else do {
         assert (ret = COMMLAYER_RET_OK);
         m \<leftarrow> memory_object_response_to_request (heap s) mem_h;
         m \<leftarrow> memory_object_cut_and_make_response m mem_h 0 (uint sz);
         Some (packet_src, Some bus_id, s\<lparr>heap := m\<rparr>)
       }
     }
   }"

definition try_get_message_within_master :: "comm \<Rightarrow> nat \<Rightarrow> (u8 \<times> u16 option \<times> comm) option" where
  "try_get_message_within_master s mem_h =
     (if cscl_is_queued_packet (packets s) = COMMLAYER_SYNC_STATUS_OK then do {
        let (ret_code, sz) = cscl_get_oldest_packet_size (packets s);
        assert (ret_code = COMMLAYER_SYNC_STATUS_OK);
        m \<leftarrow> zepto_parser_free_memory (heap s) mem_h;
        (buff, m) \<leftarrow> memory_object_prepend m mem_h sz;
        assert (buff \<noteq> NULL);
        (ret_code, sz, out, q) \<leftarrow> cscl_get_oldest_packet_and_remove_from_queue (packets s) sz;
        assert (ret_code = COMMLAYER_SYNC_STATUS_OK);
        (ret_out, bus_id, buf) \<leftarrow> out;
        B \<leftarrow> mem_store BASE_MEM_BLOCK_SIZE (BASE_MEM_BLOCK m) buff buf;
        Some (ret_out, Some bus_id, s\<lparr>heap := set_block m B, packets := q\<rparr>)
      } else internal_try_get_message_within_master s mem_h)"

section \<open>Sending\<close>

text \<open>
  \<open>sendto\<close>: the next result of the operating system (everything is accepted when none is given).
  The caller only tests for a negative value, so of a short write the rest is lost.
\<close>

definition sendto :: "comm \<Rightarrow> u8 list \<Rightarrow> int \<times> comm" where
  "sendto s buf = (case send_results s of
     [] \<Rightarrow> (int (length buf), s\<lparr>sent := sent s @ [buf]\<rparr>)
   | r # rs \<Rightarrow> (r, s\<lparr>send_results := rs, sent := (if r < 0 then sent s else sent s @ [take (nat r) buf])\<rparr>))"

definition send_within_master :: "comm \<Rightarrow> nat \<Rightarrow> u16 \<Rightarrow> u8 \<Rightarrow> (u8 \<times> comm) option" where
  "send_within_master s mem_h bus_id destination = do {
     sz \<leftarrow> memory_object_get_request_size (heap s) mem_h;
     m \<leftarrow> memory_object_request_to_response (heap s) mem_h;
     rsp_sz \<leftarrow> memory_object_get_response_size m mem_h;
     assert (sz = rsp_sz);
     (buff, m) \<leftarrow> memory_object_prepend m mem_h 5;
     assert (buff \<noteq> NULL);
     B \<leftarrow> mem_store BASE_MEM_BLOCK_SIZE (BASE_MEM_BLOCK m) buff
       [ucast (u16_of sz), ucast (drop_bit 8 (u16_of sz)), ucast bus_id, ucast (drop_bit 8 bus_id), destination];
     let m = set_block m B;
     buf \<leftarrow> mem_load BASE_MEM_BLOCK_SIZE (BASE_MEM_BLOCK m) buff (sz + 5);
     let (bytes_sent, s) = sendto s buf;
     m \<leftarrow> memory_object_response_to_request m mem_h;
     m \<leftarrow> memory_object_response_to_request m mem_h;
     let s = s\<lparr>heap := m\<rparr>;
     if bytes_sent < 0 then Some (COMMLAYER_RET_FAILED, s) else Some (COMMLAYER_RET_OK, s)
   }"

definition send_message :: "comm \<Rightarrow> nat \<Rightarrow> u16 \<Rightarrow> (u8 \<times> comm) option" where
  "send_message s mem_h bus_id = do {
     assert (bus_id \<noteq> 0xFFFF);
     send_within_master s mem_h bus_id COMMLAYER_TO_CU_STATUS_FOR_SLAVE
   }"

definition send_to_central_unit :: "comm \<Rightarrow> nat \<Rightarrow> u16 \<Rightarrow> (u8 \<times> comm) option" where
  "send_to_central_unit s mem_h src_id = send_within_master s mem_h src_id COMMLAYER_TO_CU_STATUS_FROM_SLAVE"

definition send_error_to_central_unit :: "comm \<Rightarrow> nat \<Rightarrow> u16 \<Rightarrow> (u8 \<times> comm) option" where
  "send_error_to_central_unit s mem_h src_id = send_within_master s mem_h src_id COMMLAYER_TO_CU_STATUS_SLAVE_ERROR"

definition send_device_initialization_completion_to_central_unit :: "comm \<Rightarrow> u16 \<Rightarrow> nat \<Rightarrow> (u8 \<times> comm) option" where
  "send_device_initialization_completion_to_central_unit s initialization_packet_count mem_h =
     send_within_master s mem_h initialization_packet_count COMMLAYER_TO_CU_STATUS_INITIALIZATION_DONE"

definition send_device_add_completion_to_central_unit :: "comm \<Rightarrow> nat \<Rightarrow> u16 \<Rightarrow> (u8 \<times> comm) option" where
  "send_device_add_completion_to_central_unit s mem_h packet_id =
     send_within_master s mem_h packet_id COMMLAYER_TO_CU_STATUS_DEVICE_ADDED"

definition send_device_remove_completion_to_central_unit :: "comm \<Rightarrow> nat \<Rightarrow> u16 \<Rightarrow> (u8 \<times> comm) option" where
  "send_device_remove_completion_to_central_unit s mem_h packet_id =
     send_within_master s mem_h packet_id COMMLAYER_TO_CU_STATUS_DEVICE_REMOVED"

definition send_stats_to_central_unit :: "comm \<Rightarrow> nat \<Rightarrow> u16 \<Rightarrow> (u8 \<times> comm) option" where
  "send_stats_to_central_unit s mem_h device_id =
     send_within_master s mem_h device_id COMMLAYER_FROM_CU_STATUS_GET_DEV_PERF_COUNTERS_REPLY"

section \<open>Waiting\<close>

record waiting_for =
  wait_time_high_t :: u16
  wait_time_low_t :: u16
  wait_packet :: u8

text \<open>The next result of \<open>select\<close>; the timeout handed to it, in seconds and microseconds, is recorded.\<close>

definition internal_wait_for_communication_event :: "comm \<Rightarrow> waiting_for \<Rightarrow> (u8 \<times> comm) option" where
  "internal_wait_for_communication_event s w = do {
     let timeout = (push_bit 16 (ucast (wait_time_high_t w)) + ucast (wait_time_low_t w) :: u32);
     let tv = (unat timeout div 1000, unat timeout mod 1000 * 1000);
     case select_results s of
       [] \<Rightarrow> None
     | retval # rs \<Rightarrow> do {
         let s = s\<lparr>select_results := rs, select_timeouts := select_timeouts s @ [tv]\<rparr>;
         if retval = -1 then None
         else if retval \<noteq> 0 then Some (COMMLAYER_RET_FROM_CENTRAL_UNIT, s)
         else Some (COMMLAYER_RET_TIMEOUT, s)
       }
   }"

definition wait_for_communication_event :: "comm \<Rightarrow> waiting_for \<Rightarrow> (u8 \<times> comm) option" where
  "wait_for_communication_event s w =
     (if cscl_is_queued_packet (packets s) = COMMLAYER_SYNC_STATUS_OK
      then Some (COMMLAYER_RET_FROM_CENTRAL_UNIT, s)
      else internal_wait_for_communication_event s w)"

section \<open>Synchronous requests\<close>

text \<open>The loop: one packet at a time, until the reply with the right id is there.\<close>

partial_function (option) sync_loop :: "comm \<Rightarrow> nat \<Rightarrow> nat \<Rightarrow> comm option" where
  "sync_loop s mem_h tmp_mem_h = do {
     (ret_code, s) \<leftarrow> internal_wait_for_communication_event s
       \<lparr>wait_time_high_t = 0xFFFF, wait_time_low_t = 0xFFFF, wait_packet = 1\<rparr>;
     assert (ret_code = COMMLAYER_RET_FROM_CENTRAL_UNIT);
     (ret_code_get, addr, s) \<leftarrow> internal_try_get_message_within_master s tmp_mem_h;
     if ret_code_get = COMMLAYER_FROM_CU_STATUS_SYNC_RESPONSE \<and> addr = Some (sync_packet_id s) then do {
       m \<leftarrow> zepto_copy_response_to_response_of_another_handle (heap s) tmp_mem_h mem_h;
       Some (s\<lparr>heap := m\<rparr>)
     } else do {
       p \<leftarrow> memory_object_get_response_ptr (heap s) tmp_mem_h;
       sz \<leftarrow> memory_object_get_response_size (heap s) tmp_mem_h;
       buf \<leftarrow> mem_load BASE_MEM_BLOCK_SIZE (BASE_MEM_BLOCK (heap s)) p sz;
       addr \<leftarrow> addr;
       q \<leftarrow> cscl_add_new_packet_to_queue (packets s) ret_code_get sz addr buf;
       sync_loop (s\<lparr>packets := q\<rparr>) mem_h tmp_mem_h
     }
   }"

definition internal_send_sync_request_to_central_unit :: "comm \<Rightarrow> nat \<Rightarrow> comm option" where
  "internal_send_sync_request_to_central_unit s mem_h = do {
     let s = s\<lparr>sync_packet_id := sync_packet_id s + 1\<rparr>;
     (ret_code_send, s) \<leftarrow> send_within_master s mem_h (sync_packet_id s) COMMLAYER_TO_CU_STATUS_SYNC_REQUEST;
     assert (ret_code_send = COMMLAYER_RET_OK);
     let s = s\<lparr>sync_status := COMMLAYER_SYNC_STATUS_WAIT_FOR_REPLY\<rparr>;
     (tmp_mem_h, m) \<leftarrow> memory_object_acquire (heap s);
     tmp_mem_h \<leftarrow> tmp_mem_h;
     s \<leftarrow> sync_loop (s\<lparr>heap := m\<rparr>) mem_h tmp_mem_h;
     m \<leftarrow> memory_object_release (heap s) tmp_mem_h;
     Some (s\<lparr>heap := m\<rparr>)
   }"

definition send_sync_request_to_central_unit_to_save_data :: "comm \<Rightarrow> nat \<Rightarrow> u16 \<Rightarrow> comm option" where
  "send_sync_request_to_central_unit_to_save_data s mem_h deice_id = do {
     sz \<leftarrow> memory_object_get_response_size (heap s) mem_h;
     (prefix, m) \<leftarrow> memory_object_prepend (heap s) mem_h 6;
     B \<leftarrow> mem_store BASE_MEM_BLOCK_SIZE (BASE_MEM_BLOCK m) prefix
       [REQUEST_TO_CU_WRITE_DATA, ucast deice_id, ucast (drop_bit 8 deice_id), 0,
        ucast (u16_of sz), ucast (drop_bit 8 (u16_of sz))];
     m \<leftarrow> zepto_response_to_request (set_block m B) mem_h;
     internal_send_sync_request_to_central_unit (s\<lparr>heap := m\<rparr>) mem_h
   }"

definition send_sync_request_to_central_unit_to_get_data :: "comm \<Rightarrow> nat \<Rightarrow> u16 \<Rightarrow> comm option" where
  "send_sync_request_to_central_unit_to_get_data s mem_h deice_id = do {
     m \<leftarrow> zepto_parser_free_memory (heap s) mem_h;
     (prefix, m) \<leftarrow> memory_object_prepend m mem_h 4;
     B \<leftarrow> mem_store BASE_MEM_BLOCK_SIZE (BASE_MEM_BLOCK m) prefix
       [REQUEST_TO_CU_READ_DATA, ucast deice_id, ucast (drop_bit 8 deice_id), 0];
     m \<leftarrow> zepto_response_to_request (set_block m B) mem_h;
     s \<leftarrow> internal_send_sync_request_to_central_unit (s\<lparr>heap := m\<rparr>) mem_h;
     rsp_sz \<leftarrow> memory_object_get_response_size (heap s) mem_h;
     assert (6 \<le> rsp_sz);
     m \<leftarrow> zepto_response_to_request (heap s) mem_h;
     po \<leftarrow> zepto_parser_init m mem_h;
     (block, po) \<leftarrow> zepto_parse_read_block m po 6;
     prefix_out \<leftarrow> block;
     let declared_data_sz = (push_bit 8 (ucast (prefix_out ! 5)) + ucast (prefix_out ! 4) :: u16);
     po1 \<leftarrow> zepto_parser_init_by_parser m po;
     (actual_data_sz, po) \<leftarrow> zepto_parsing_remaining_bytes m po;
     assert (uint declared_data_sz = actual_data_sz);
     (ok, po1) \<leftarrow> zepto_parse_skip_block m po1 actual_data_sz;
     (m, po, po1) \<leftarrow> zepto_convert_part_of_request_to_response m mem_h po po1;
     Some (s\<lparr>heap := m\<rparr>)
   }"

end
