(* ===== verification/Framing.thy ===== *)
theory Framing
  imports Commlayer
begin

text \<open>
  Correctness of the framing in \<open>Commlayer\<close>: a frame that arrives in pieces of any size is read
  as the message that was sent, and a message is sent as one frame.
\<close>

section \<open>A buffer inside a handle\<close>

text \<open>
  The state in which the code holds a raw pointer into the response of a handle without request.
\<close>

definition buffer_at :: "mem \<Rightarrow> nat \<Rightarrow> int \<Rightarrow> u8 list \<Rightarrow> bool" where
  "buffer_at m h p buf \<longleftrightarrow> heap_inv m \<and> content m h = Some ([], buf) \<and>
     (\<exists>ob. MEMORY_OBJECT_PTR m h = Some ob \<and> ptr ob = p)"

lemma buffer_object:
  assumes "buffer_at m h p buf"
  obtains xs ob ys where "live_at m xs ob ys" "h = length xs" "ptr ob = p" "rq_size ob = 0"
    "rsp_size ob = int (length buf)" "bytes_at (BASE_MEM_BLOCK m) p (int (length buf)) = buf"
    "request_bytes (BASE_MEM_BLOCK m) ob = []" "response_bytes (BASE_MEM_BLOCK m) ob = buf"
proof -
  from assms obtain ob0 where inv: "heap_inv m" and c: "content m h = Some ([], buf)"
    and ob0: "MEMORY_OBJECT_PTR m h = Some ob0" "ptr ob0 = p" by (auto simp: buffer_at_def)
  from view_object [OF inv c] obtain xs ob ys where live: "live_at m xs ob ys" and h: "h = length xs"
    and v: "[] = request_bytes (BASE_MEM_BLOCK m) ob" "buf = response_bytes (BASE_MEM_BLOCK m) ob"
    and sz: "rq_size ob = int (length ([] :: u8 list))" "rsp_size ob = int (length buf)" by metis
  have "ob = ob0" using ob0(1) live_at_object [OF live] h by simp
  with ob0(2) have p: "ptr ob = p" by simp
  have "bytes_at (BASE_MEM_BLOCK m) p (int (length buf)) = buf"
    using v(2) sz p by (simp add: response_bytes_def)
  with that live h p v sz show thesis by simp
qed

lemma bytes_at_prefix: "bytes_at B p (int (length buf)) = buf \<Longrightarrow> k \<le> length buf \<Longrightarrow> bytes_at B p (int k) = take k buf"
  using take_bytes_at [of "int k" "int (length buf)" B p] by simp

text \<open>A store anywhere in the buffer replaces these bytes of the response.\<close>

lemma bytes_at_overwritten:
  assumes "bytes_at B p (int (length buf)) = buf" "k + length bs \<le> length buf"
  shows "bytes_at (stored B (p + int k) bs) p (int (length buf)) = take k buf @ bs @ drop (k + length bs) buf"
proof -
  let ?B = "stored B (p + int k) bs" and ?e = "k + length bs"
  have "bytes_at ?B p (int k) = bytes_at B p (int k)"
    by (rule bytes_at_cong) (simp add: stored_def)
  then have a: "bytes_at ?B p (int k) = take k buf" using bytes_at_prefix [OF assms(1), of k] assms(2) by simp
  have "bytes_at ?B (p + int ?e) (int (length buf) - int ?e) = bytes_at B (p + int ?e) (int (length buf) - int ?e)"
    by (rule bytes_at_cong) (simp add: stored_def)
  also have "\<dots> = drop ?e buf"
    using drop_bytes_at [of "int ?e" "int (length buf)" B p] assms by (simp flip: of_nat_add)
  finally have c: "bytes_at ?B (p + int k + int (length bs)) (int (length buf) - int ?e) = drop ?e buf"
    by (simp add: add.assoc)
  have "bytes_at ?B p (int k + (int (length bs) + (int (length buf) - int ?e))) =
      bytes_at ?B p (int k) @ bytes_at ?B (p + int k) (int (length bs)) @
      bytes_at ?B (p + int k + int (length bs)) (int (length buf) - int ?e)"
    using assms(2) by (subst bytes_at_append, simp, simp, subst bytes_at_append, simp, simp, simp)
  then show ?thesis using a c by simp
qed

lemma store_in_buffer:
  assumes "buffer_at m h p buf" "k + length bs \<le> length buf"
  defines "buf' \<equiv> take k buf @ bs @ drop (k + length bs) buf"
  shows "\<exists>B. mem_store BASE_MEM_BLOCK_SIZE (BASE_MEM_BLOCK m) (p + int k) bs = Some B \<and>
    buffer_at (set_block m B) h p buf' \<and> grown m h ([], buf') (set_block m B)"
proof -
  from buffer_object [OF assms(1)] obtain xs ob ys where live: "live_at m xs ob ys" and h: "h = length xs"
    and ob: "ptr ob = p" "rq_size ob = 0" "rsp_size ob = int (length buf)"
    and bytes: "bytes_at (BASE_MEM_BLOCK m) p (int (length buf)) = buf" by metis
  let ?B = "stored (BASE_MEM_BLOCK m) (p + int k) bs"
  have range: "ptr ob \<le> p + int k" "p + int k + int (length bs) \<le> obj_end ob"
    using ob assms(2) by (simp_all add: obj_end_def)
  from store_in_object [OF live range] have st: "mem_store BASE_MEM_BLOCK_SIZE (BASE_MEM_BLOCK m) (p + int k) bs = Some ?B"
    and put: "put_at m xs ob ys (request_bytes ?B ob, response_bytes ?B ob) (set_block m ?B)" by simp_all
  have new: "request_bytes ?B ob = []" "response_bytes ?B ob = buf'"
    using ob bytes_at_overwritten [OF bytes assms(2)] by (simp_all add: request_bytes_def response_bytes_def buf'_def)
  have g: "grown m h ([], buf') (set_block m ?B)"
    using put live_at_objs [OF live] unfolding new by (simp add: grown_def put_at_def h)
  then have "buffer_at (set_block m ?B) h p buf'"
    using live_at_object [OF live] ob grownD [OF g] by (simp add: buffer_at_def h MEMORY_OBJECT_PTR_def split: if_splits)
  with st g show ?thesis by blast
qed

lemma load_from_buffer:
  assumes "buffer_at m h p buf" "n \<le> length buf"
  shows "mem_load BASE_MEM_BLOCK_SIZE (BASE_MEM_BLOCK m) p (int n) = Some (take n buf)"
proof -
  from buffer_object [OF assms(1)] obtain xs ob ys where live: "live_at m xs ob ys"
    and ob: "ptr ob = p" "rq_size ob = 0" "rsp_size ob = int (length buf)"
    and bytes: "bytes_at (BASE_MEM_BLOCK m) p (int (length buf)) = buf" by metis
  have "in_range BASE_MEM_BLOCK_SIZE p (int n)"
    using live_at_order [OF live] ob assms(2) by (simp add: in_range_def)
  then show ?thesis using bytes_at_prefix [OF bytes assms(2)] by (simp add: mem_load_def)
qed

lemma buffer_pos: "buffer_at m h p buf \<Longrightarrow> p \<noteq> NULL"
  using buffer_object [of m h p buf] live_at_ptr by metis

section \<open>Allocating a buffer\<close>

lemma append_buffer:
  assumes "heap_inv m" "content m h = Some ([], [])" "0 \<le> sz" "sz \<le> free_space m"
  obtains p m1 buf where "memory_object_append m h sz = Some (p, m1)" "buffer_at m1 h p buf"
    "int (length buf) = sz" "grown m h ([], buf) m1"
proof -
  from view_object [OF assms(1,2)] obtain xs ob ys where live: "live_at m xs ob ys" and h: "h = length xs"
    and v: "[] = request_bytes (BASE_MEM_BLOCK m) ob" "[] = response_bytes (BASE_MEM_BLOCK m) ob"
    and szs: "rq_size ob = int (length ([] :: u8 list))" "rsp_size ob = int (length ([] :: u8 list))" by metis
  from append_effect [OF live assms(3)] assms(4) obtain p m1 where run: "memory_object_append m h sz = Some (p, m1)"
    and "appended m h ob sz p m1" unfolding h by auto
  then obtain new ob1 where new: "length new = nat sz" and g: "grown m h ([], new) m1"
    and ob1: "MEMORY_OBJECT_PTR m1 h = Some ob1" "p = obj_end ob1 - sz" "rq_size ob1 = rq_size ob"
      "rsp_size ob1 = rsp_size ob + sz"
    by (auto simp: appended_def simp flip: v)
  have "buffer_at m1 h p new"
    using grownD [OF g] ob1 szs by (auto simp: buffer_at_def obj_end_def)
  with that [OF run this] new g assms(3) show thesis by simp
qed

text \<open>
  Prepending \<open>n\<close> bytes needs room: \<open>a\<close> bytes are given up and \<open>b\<close> are kept. For a fixed handle any
  free bytes of the block will do; for an acquired one only those between its neighbours, since
  sliding other objects may move the block of the slots.
\<close>

definition front_room :: "mem \<Rightarrow> nat \<Rightarrow> int \<Rightarrow> int \<Rightarrow> int \<Rightarrow> bool" where
  "front_room m h n a b \<longleftrightarrow> h < MEMORY_HANDLE_MAX m \<and> n \<le> free_space m + a \<or> n + b \<le> span m h"

lemma prepend_buffer:
  assumes "heap_inv m" "content m h = Some (rq, rsp)" "front_room m h sz (int (length rq)) (int (length rsp))" "0 \<le> sz"
  obtains p m1 new where "memory_object_prepend m h sz = Some (p, m1)" "buffer_at m1 h p (new @ rsp)"
    "int (length new) = sz" "grown m h ([], new @ rsp) m1" "sz + int (length rsp) \<le> span m h \<longrightarrow> span m1 h = span m h"
proof -
  from view_object [OF assms(1,2)] obtain xs ob ys where live: "live_at m xs ob ys" and h: "h = length xs"
    and v: "rsp = response_bytes (BASE_MEM_BLOCK m) ob"
    and szs: "rq_size ob = int (length rq)" "rsp_size ob = int (length rsp)" by metis
  have "\<exists>p m1. memory_object_prepend m h sz = Some (p, m1) \<and> prepended m h ob sz p m1 \<and>
      (sz + int (length rsp) \<le> span m h \<longrightarrow> span m1 h = span m h)"
  proof (cases "sz + int (length rsp) \<le> span m h")
    case True
    then show ?thesis using prepend_in_span [OF live assms(4)] szs h by auto
  next
    case False
    then show ?thesis using prepend_effect [OF live assms(4)] assms(3) szs h by (auto simp: front_room_def)
  qed
  then obtain p m1 where run: "memory_object_prepend m h sz = Some (p, m1)" and pr: "prepended m h ob sz p m1"
    and sp: "sz + int (length rsp) \<le> span m h \<longrightarrow> span m1 h = span m h" by blast
  from pr obtain new ob1 where new: "length new = nat sz" and g: "grown m h ([], new @ rsp) m1"
    and ob1: "MEMORY_OBJECT_PTR m1 h = Some ob1" "p = ptr ob1" "rq_size ob1 = 0"
    by (auto simp: prepended_def simp flip: v)
  have "buffer_at m1 h p (new @ rsp)"
    using grownD [OF g] ob1 by (auto simp: buffer_at_def)
  with that [OF run this] new g sp assms(4) show thesis by simp
qed

section \<open>Object operations on the view\<close>

lemma object_response_to_request_view:
  "heap_inv m \<Longrightarrow> content m h = Some (rq, rsp) \<Longrightarrow>
    \<exists>m'. memory_object_response_to_request m h = Some m' \<and> grown m h (rsp, []) m'"
  using response_to_request_view by (simp add: zepto_response_to_request_def)

text \<open>The clean-up used throughout: twice response to request.\<close>

lemma clean_up:
  assumes "heap_inv m" "content m h = Some (rq, rsp)"
  obtains m1 m2 where "memory_object_response_to_request m h = Some m1"
    "memory_object_response_to_request m1 h = Some m2" "grown m h ([], []) m2"
proof -
  from object_response_to_request_view [OF assms] obtain m1 where m1: "memory_object_response_to_request m h = Some m1"
    and g1: "grown m h (rsp, []) m1" by blast
  have "content m1 h = Some (rsp, [])" using grownD(2) [OF g1] by simp
  from object_response_to_request_view [OF grownD(1) [OF g1] this] obtain m2 where
    m2: "memory_object_response_to_request m1 h = Some m2" and g2: "grown m1 h ([], []) m2" by blast
  from that [OF m1 m2 grown_grown [OF g1 g2]] show thesis .
qed

lemma request_to_response_view:
  assumes "heap_inv m" "content m h = Some (rq, rsp)"
  shows "\<exists>m'. memory_object_request_to_response m h = Some m' \<and> grown m h ([], rq) m'"
proof -
  from view_object [OF assms] obtain xs ob ys where live: "live_at m xs ob ys" and h: "h = length xs"
    and v: "rq = request_bytes (BASE_MEM_BLOCK m) ob" by metis
  from request_to_response [OF live] live_at_objs [OF live] show ?thesis
    unfolding h v by (auto simp: grown_def put_at_def)
qed

text \<open>None of these moves another object.\<close>

lemma span_object:
  assumes "heap_inv m" "content m h = Some (rq, rsp)"
  shows "int (length rq) + int (length rsp) \<le> span m h"
proof -
  from view_object [OF assms] obtain xs ob ys where live: "live_at m xs ob ys" and h: "h = length xs"
    and szs: "rq_size ob = int (length rq)" "rsp_size ob = int (length rsp)" by metis
  then show ?thesis using live_at_order [OF live] span_live [OF live_at_objs [OF live]]
    by (simp add: obj_end_def)
qed

lemma response_to_request_span:
  assumes "heap_inv m" "content m h = Some c" "memory_object_response_to_request m h = Some m'"
  shows "span m' h = span m h"
proof -
  obtain rq rsp where "c = (rq, rsp)" by fastforce
  then obtain xs ob ys where live: "live_at m xs ob ys" and h: "h = length xs" using view_object [OF assms(1)] assms(2) by metis
  from response_to_request [OF live] assms(3) span_put_at [OF live_at_objs [OF live]] show ?thesis unfolding h by auto
qed

lemma request_to_response_span:
  assumes "heap_inv m" "content m h = Some c" "memory_object_request_to_response m h = Some m'"
  shows "span m' h = span m h"
proof -
  obtain rq rsp where "c = (rq, rsp)" by fastforce
  then obtain xs ob ys where live: "live_at m xs ob ys" and h: "h = length xs" using view_object [OF assms(1)] assms(2) by metis
  from request_to_response [OF live] assms(3) span_put_at [OF live_at_objs [OF live]] show ?thesis unfolding h by auto
qed

lemma free_span:
  assumes "heap_inv m" "content m h = Some c" "zepto_parser_free_memory m h = Some m'"
  shows "span m' h = span m h"
proof -
  obtain rq rsp where c: "c = (rq, rsp)" by fastforce
  then obtain xs ob ys where live: "live_at m xs ob ys" and h: "h = length xs" using view_object [OF assms(1)] assms(2) by metis
  from object_free [OF live] assms(2,3) valid_handle [OF assms(1,2)] span_put_at [OF live_at_objs [OF live]] show ?thesis
    unfolding h by (auto simp: zepto_parser_free_memory_def)
qed

lemma cut_front_view:
  assumes "heap_inv m" "content m h = Some (rq, rsp)" "n \<le> length rq"
  shows "\<exists>m'. memory_object_cut_and_make_response m h 0 (int n) = Some m' \<and> grown m h ([], take n rq) m'"
proof -
  from view_object [OF assms(1,2)] obtain xs ob ys where live: "live_at m xs ob ys" and h: "h = length xs"
    and v: "rq = request_bytes (BASE_MEM_BLOCK m) ob" and sz: "rq_size ob = int (length rq)" by metis
  from cut_and_make_response [OF live, of 0 "int n"] assms(3) sz live_at_objs [OF live] show ?thesis
    unfolding h v by (auto simp: grown_def put_at_def)
qed

section \<open>Streams\<close>

text \<open>The bytes that will arrive, and events that only deliver bytes or delay them.\<close>

fun stream_of :: "socket_event list \<Rightarrow> u8 list" where
  "stream_of [] = []"
| "stream_of (Arrived bs # es) = bs @ stream_of es"
| "stream_of (_ # es) = stream_of es"

fun quiet :: "socket_event list \<Rightarrow> bool" where
  "quiet [] = True"
| "quiet (Arrived bs # es) = (bs \<noteq> [] \<and> quiet es)"
| "quiet (Would_block # es) = quiet es"
| "quiet (_ # es) = False"

fun event_size :: "socket_event list \<Rightarrow> nat" where
  "event_size [] = 0"
| "event_size (Arrived bs # es) = Suc (length bs + event_size es)"
| "event_size (_ # es) = Suc (event_size es)"

lemma same_loops: "try_get_packet_header_within_master_loop = try_get_packet_within_master_loop"
  by (intro ext) (simp add: try_get_packet_header_within_master_loop_def try_get_packet_within_master_loop_def)

text \<open>The state in the middle of a read: \<open>k\<close> bytes are in the buffer.\<close>

definition reading :: "comm \<Rightarrow> nat \<Rightarrow> int \<Rightarrow> nat \<Rightarrow> u8 list \<Rightarrow> bool" where
  "reading s h p k buf \<longleftrightarrow> buffer_at (heap s) h p buf \<and> buffer_in_with_cl_pos s = int k"

text \<open>The read is complete: the buffer and the position changed, and only the bytes wanted are gone.\<close>

definition has_read :: "comm \<Rightarrow> nat \<Rightarrow> int \<Rightarrow> nat \<Rightarrow> u8 list \<Rightarrow> u8 list \<Rightarrow> comm \<Rightarrow> bool" where
  "has_read s h p n buf rest s' \<longleftrightarrow> reading s' h p n buf \<and> quiet (incoming s') \<and> stream_of (incoming s') = rest \<and>
     grown (heap s) h ([], buf) (heap s') \<and>
     s' = s\<lparr>heap := heap s', incoming := incoming s', buffer_in_with_cl_pos := int n\<rparr>"

lemma has_read_trans:
  assumes "grown (heap s) h c (heap s1)" "has_read s1 h p n buf rest s'"
    "s1 = s\<lparr>heap := heap s1, incoming := incoming s1, buffer_in_with_cl_pos := k\<rparr>"
  shows "has_read s h p n buf rest s'"
proof -
  have "s' = s\<lparr>heap := heap s', incoming := incoming s', buffer_in_with_cl_pos := int n\<rparr>"
    using assms(2,3) unfolding has_read_def by (metis comm.select_convs comm.surjective comm.update_convs(1,2,3))
  with assms(1,2) grown_grown show ?thesis unfolding has_read_def by blast
qed

lemma drop_stream:
  assumes "quiet (Arrived bs # es)"
  shows "quiet (if drop n bs = [] then es else Arrived (drop n bs) # es)"
    "stream_of (if drop n bs = [] then es else Arrived (drop n bs) # es) = drop n bs @ stream_of es"
  using assms by auto

text \<open>One delivery of bytes.\<close>

lemma deliver_bytes:
  assumes "reading s h p k buf" "incoming s = Arrived bs # es" "quiet (incoming s)" "k \<le> n" "n \<le> length buf" "n < 65536"
  defines "got \<equiv> take (n - k) bs"
  shows "\<exists>s1. try_get_packet_within_master_loop s p (int n) =
      Some (if k + length got < n then COMMLAYER_RET_PENDING else COMMLAYER_RET_OK, s1) \<and>
    has_read s h p (k + length got) (take k buf @ got @ drop (k + length got) buf)
      (drop (n - k) bs @ stream_of es) s1 \<and> (k + length got < n \<longrightarrow> incoming s1 = es)"
proof -
  have buf: "buffer_at (heap s) h p buf" and pos: "buffer_in_with_cl_pos s = int k"
    using assms(1) by (auto simp: reading_def)
  have len: "k + length got \<le> n" "k + length got \<le> length buf" using assms(4,5) by (auto simp: got_def)
  from store_in_buffer [OF buf len(2)] obtain B where
    B: "mem_store BASE_MEM_BLOCK_SIZE (BASE_MEM_BLOCK (heap s)) (p + int k) got = Some B"
    "buffer_at (set_block (heap s) B) h p (take k buf @ got @ drop (k + length got) buf)"
    "grown (heap s) h ([], take k buf @ got @ drop (k + length got) buf) (set_block (heap s) B)" by blast
  let ?es = "if drop (n - k) bs = [] then es else Arrived (drop (n - k) bs) # es"
  let ?s1 = "s\<lparr>heap := set_block (heap s) B, incoming := ?es, buffer_in_with_cl_pos := int (k + length got)\<rparr>"
  have arg: "nat (int n - int k) = n - k" by simp
  have "try_get_packet_within_master_loop s p (int n) =
      Some (if k + length got < n then COMMLAYER_RET_PENDING else COMMLAYER_RET_OK, ?s1)"
    using B(1) pos len assms(2,6)
    by (simp add: try_get_packet_within_master_loop_def arg got_def flip: of_nat_add)
  moreover have "has_read s h p (k + length got) (take k buf @ got @ drop (k + length got) buf)
      (drop (n - k) bs @ stream_of es) ?s1"
    using B(2,3) drop_stream [of bs es "n - k"] assms(2,3) by (simp add: has_read_def reading_def)
  moreover have "drop (n - k) bs = []" if "k + length got < n" using that by (auto simp: got_def)
  ultimately show ?thesis by auto
qed

lemma read_loop:
  assumes "reading s h p k buf" "quiet (incoming s)" "k \<le> n" "n \<le> length buf" "n < 65536"
    "n - k \<le> length (stream_of (incoming s))" "k = n \<longrightarrow> stream_of (incoming s) \<noteq> []"
  shows "\<exists>s'. pending_loop (\<lambda>s. try_get_packet_within_master_loop s p (int n)) s = Some (COMMLAYER_RET_OK, s') \<and>
    has_read s h p n (take k buf @ take (n - k) (stream_of (incoming s)) @ drop n buf)
      (drop (n - k) (stream_of (incoming s))) s'"
  using assms
proof (induction "event_size (incoming s)" arbitrary: s k buf rule: less_induct)
  case less
  show ?case
  proof (cases "incoming s")
    case Nil
    then show ?thesis using less.prems by auto
  next
    case (Cons e es)
    show ?thesis
    proof (cases e)
      case (Arrived bs)
      have inc: "incoming s = Arrived bs # es" using Cons Arrived by simp
      let ?got = "take (n - k) bs"
      from deliver_bytes [OF less.prems(1) inc less.prems(2-5)] obtain s1 where
        step: "try_get_packet_within_master_loop s p (int n) =
          Some (if k + length ?got < n then COMMLAYER_RET_PENDING else COMMLAYER_RET_OK, s1)"
        and read: "has_read s h p (k + length ?got) (take k buf @ ?got @ drop (k + length ?got) buf)
          (drop (n - k) bs @ stream_of es) s1" and rest: "k + length ?got < n \<longrightarrow> incoming s1 = es" by blast
      show ?thesis
      proof (cases "k + length ?got < n")
        case False
        then have full: "k + length ?got = n" "n - k \<le> length bs" using less.prems(3) by auto
        then have "has_read s h p n (take k buf @ take (n - k) (stream_of (incoming s)) @ drop n buf)
            (drop (n - k) (stream_of (incoming s))) s1"
          using read inc by simp
        then show ?thesis
          using step full by (subst pending_loop.simps) (simp add: ret_defs)
      next
        case True
        then have short: "?got = bs" "k + length bs < n" "incoming s1 = es" using rest by auto
        let ?k = "k + length bs" and ?buf = "take k buf @ bs @ drop (k + length bs) buf"
        have s1: "reading s1 h p ?k ?buf" "quiet (incoming s1)" "grown (heap s) h ([], ?buf) (heap s1)"
          "s1 = s\<lparr>heap := heap s1, incoming := incoming s1, buffer_in_with_cl_pos := int ?k\<rparr>"
          using read short by (simp_all add: has_read_def)
        have "event_size (incoming s1) < event_size (incoming s)" using inc short by simp
        moreover have "n - ?k \<le> length (stream_of (incoming s1))" "?k \<le> n" "n \<le> length ?buf"
          "?k = n \<longrightarrow> stream_of (incoming s1) \<noteq> []"
          using less.prems(4,6) inc short by simp_all
        ultimately obtain s' where
          loop: "pending_loop (\<lambda>s. try_get_packet_within_master_loop s p (int n)) s1 = Some (COMMLAYER_RET_OK, s')"
          and r: "has_read s1 h p n (take ?k ?buf @ take (n - ?k) (stream_of es) @ drop n ?buf)
            (drop (n - ?k) (stream_of es)) s'"
          using less.hyps [OF _ s1(1,2)] less.prems(5) short(3) by blast
        have eq: "take ?k ?buf @ take (n - ?k) (stream_of es) @ drop n ?buf =
            take k buf @ take (n - k) (stream_of (incoming s)) @ drop n buf"
          "drop (n - ?k) (stream_of es) = drop (n - k) (stream_of (incoming s))"
          using inc short less.prems(3,4) by (simp_all add: min_def)
        have "has_read s h p n (take k buf @ take (n - k) (stream_of (incoming s)) @ drop n buf)
            (drop (n - k) (stream_of (incoming s))) s'"
          using has_read_trans [OF s1(3) r s1(4)] unfolding eq .
        then show ?thesis
          using step short(1,2) loop by (subst pending_loop.simps) (simp add: ret_defs)
      qed
    next
      case Would_block
      let ?s = "s\<lparr>incoming := es\<rparr>"
      have step: "try_get_packet_within_master_loop s p (int n) = Some (COMMLAYER_RET_PENDING, ?s)"
        using Cons Would_block by (simp add: try_get_packet_within_master_loop_def)
      have "reading ?s h p k buf" "quiet (incoming ?s)" "event_size (incoming ?s) < event_size (incoming s)"
        using less.prems(1,2) Cons Would_block by (auto simp: reading_def)
      from less.hyps [OF this(3,1,2)] less.prems(3-7) Cons Would_block obtain s' where
        loop: "pending_loop (\<lambda>s. try_get_packet_within_master_loop s p (int n)) ?s = Some (COMMLAYER_RET_OK, s')"
        and r: "has_read ?s h p n (take k buf @ take (n - k) (stream_of es) @ drop n buf)
          (drop (n - k) (stream_of es)) s'" by auto
      from r have "has_read s h p n (take k buf @ take (n - k) (stream_of (incoming s)) @ drop n buf)
          (drop (n - k) (stream_of (incoming s))) s'"
        using Cons Would_block by (simp add: has_read_def)
      then show ?thesis using step loop by (subst pending_loop.simps) (simp add: ret_defs)
    qed (use less.prems(2) Cons in auto)
  qed
qed

section \<open>Frames\<close>

text \<open>Size and bus id, low byte first, then the kind of the message, then its bytes.\<close>

definition frame :: "u16 \<Rightarrow> u8 \<Rightarrow> u8 list \<Rightarrow> u8 list" where
  "frame bus_id kind payload =
     (let sz = u16_of (int (length payload)) in
      [ucast sz, ucast (drop_bit 8 sz), ucast bus_id, ucast (drop_bit 8 bus_id), kind] @ payload)"

lemma length_frame: "length (frame bus_id kind payload) = 5 + length payload"
  by (simp add: frame_def Let_def)

lemma join_bytes_u16: "push_bit 8 (ucast (ucast (drop_bit 8 v) :: u8)) + ucast (ucast v :: u8) = (v :: u16)"
proof -
  have "push_bit 8 (ucast (ucast (drop_bit 8 v) :: u8)) + (ucast (ucast v :: u8) :: u16) =
      push_bit 8 (ucast (ucast (drop_bit 8 v) :: u8)) OR ucast (ucast v :: u8)"
    by (rule disjunctive_add) (auto simp: bit_simps)
  also have "\<dots> = v" by (rule bit_word_eqI) (auto simp: bit_simps)
  finally show ?thesis .
qed

lemma drop_5_frame: "drop 5 (frame bus_id kind payload) = payload"
  by (simp add: frame_def Let_def)

lemma nth_frame:
  "frame bus_id kind payload ! 0 = ucast (u16_of (int (length payload)))"
  "frame bus_id kind payload ! Suc 0 = ucast (drop_bit 8 (u16_of (int (length payload))))"
  "frame bus_id kind payload ! 2 = ucast bus_id" "frame bus_id kind payload ! 3 = ucast (drop_bit 8 bus_id)"
  "frame bus_id kind payload ! 4 = kind"
  by (simp_all add: frame_def Let_def numeral_eq_Suc)

text \<open>A result of reading one frame: the message is the response of the handle, and nothing else changed.\<close>

definition received :: "comm \<Rightarrow> nat \<Rightarrow> u8 list \<Rightarrow> u8 list \<Rightarrow> comm \<Rightarrow> bool" where
  "received s h payload rest s' \<longleftrightarrow> grown (heap s) h ([], payload) (heap s') \<and>
     quiet (incoming s') \<and> stream_of (incoming s') = rest \<and>
     (\<exists>k. s' = s\<lparr>heap := heap s', incoming := incoming s', buffer_in_with_cl_pos := k\<rparr>)"

lemma receive_frame:
  assumes inv: "heap_inv (heap s)" and view: "content (heap s) h = Some (rq, rsp)"
    and room: "80 \<le> free_space (heap s) + int (length rq) + int (length rsp)"
    and q: "quiet (incoming s)" and stream: "stream_of (incoming s) = frame bus_id kind payload @ rest"
    and size: "length payload \<le> 80" "payload \<noteq> [] \<or> rest \<noteq> []"
  shows "\<exists>s'. internal_try_get_message_within_master s h = Some (kind, Some bus_id, s') \<and> received s h payload rest s'"
proof -
  let ?f = "frame bus_id kind payload" and ?n = "length payload"
  from clean_up [OF inv view] obtain m1 m2 where c: "memory_object_response_to_request (heap s) h = Some m1"
    "memory_object_response_to_request m1 h = Some m2" and g2: "grown (heap s) h ([], []) m2" .
  have m2: "heap_inv m2" "content m2 h = Some ([], [])" "80 \<le> free_space m2"
    using grownD [OF g2] room_after [OF g2 inv view] room by simp_all
  from append_buffer [OF m2(1,2), of 80] m2(3) obtain p m3 buf where a: "memory_object_append m2 h 80 = Some (p, m3)"
    and b: "buffer_at m3 h p buf" "int (length buf) = 80" and g3: "grown m2 h ([], buf) m3" by auto
  let ?s3 = "s\<lparr>heap := m3, buffer_in_with_cl_pos := 0\<rparr>"
  have r3: "reading ?s3 h p 0 buf" using b(1) by (simp add: reading_def)
  have len: "length buf = 80" "5 \<le> length (stream_of (incoming s))" using b(2) stream length_frame [of bus_id kind payload] by simp_all
  from read_loop [OF r3, of 5] q len obtain s4 where
    h4: "pending_loop (\<lambda>s. try_get_packet_within_master_loop s p 5) ?s3 = Some (COMMLAYER_RET_OK, s4)"
    and r4: "has_read ?s3 h p 5 (take 5 (stream_of (incoming s)) @ drop 5 buf) (drop 5 (stream_of (incoming s))) s4" by auto
  let ?buf4 = "take 5 ?f @ drop 5 buf"
  have take5: "take 5 (stream_of (incoming s)) = take 5 ?f" "drop 5 (stream_of (incoming s)) = payload @ rest"
    using stream length_frame [of bus_id kind payload] by (simp_all add: drop_5_frame)
  note r4' = r4 [unfolded take5]
  then have b4: "buffer_at (heap s4) h p ?buf4" by (simp add: has_read_def reading_def)
  have ld: "mem_load BASE_MEM_BLOCK_SIZE (BASE_MEM_BLOCK (heap s4)) p 5 = Some (take 5 ?f)"
    using load_from_buffer [OF b4, of 5] len length_frame [of bus_id kind payload] by simp
  let ?s4 = "s4\<lparr>buffer_in_with_cl_pos := 0\<rparr>"
  have r4r: "reading ?s4 h p 0 ?buf4" "quiet (incoming ?s4)" "stream_of (incoming ?s4) = payload @ rest"
    using r4' b4 by (simp_all add: reading_def has_read_def)
  have len4: "length ?buf4 = 80" using len length_frame [of bus_id kind payload] by simp
  from read_loop [OF r4r(1,2), of ?n] r4r(3) size len4 obtain s5 where
    h5: "pending_loop (\<lambda>s. try_get_packet_within_master_loop s p (int ?n)) ?s4 = Some (COMMLAYER_RET_OK, s5)"
    and r5: "has_read ?s4 h p ?n (payload @ drop ?n ?buf4) rest s5" by auto
  from r5 have g5: "grown (heap s4) h ([], payload @ drop ?n ?buf4) (heap s5)" and s5: "quiet (incoming s5)"
    "stream_of (incoming s5) = rest" "s5 = ?s4\<lparr>heap := heap s5, incoming := incoming s5, buffer_in_with_cl_pos := int ?n\<rparr>"
    by (simp_all add: has_read_def)
  have c5: "content (heap s5) h = Some ([], payload @ drop ?n ?buf4)" using grownD(2) [OF g5] by simp
  from object_response_to_request_view [OF grownD(1) [OF g5] c5] obtain m6 where
    m6: "memory_object_response_to_request (heap s5) h = Some m6" "grown (heap s5) h (payload @ drop ?n ?buf4, []) m6" by blast
  have c6: "content m6 h = Some (payload @ drop ?n ?buf4, [])" using grownD(2) [OF m6(2)] by simp
  from cut_front_view [OF grownD(1) [OF m6(2)] c6, of ?n] obtain m7 where
    m7: "memory_object_cut_and_make_response m6 h 0 (int ?n) = Some m7" "grown m6 h ([], payload) m7" by auto
  have sz: "uint (push_bit 8 (ucast (?f ! Suc 0)) + ucast (?f ! 0) :: u16) = int ?n"
    "(push_bit 8 (ucast (?f ! 3)) + ucast (?f ! 2) :: u16) = bus_id"
    using size(1) by (simp_all add: nth_frame join_bytes_u16)
  have f: "take 5 ?f ! i = ?f ! i" if "i < 5" for i using that by simp
  have g4: "grown m3 h ([], ?buf4) (heap s4)" and s4: "s4 = ?s3\<lparr>heap := heap s4, incoming := incoming s4, buffer_in_with_cl_pos := 5\<rparr>"
    using r4' by (simp_all add: has_read_def)
  have all: "grown (heap s) h ([], payload) m7"
    using grown_grown [OF grown_grown [OF grown_grown [OF grown_grown [OF grown_grown [OF g2 g3] g4] g5] m6(2)] m7(2)] .
  have run: "internal_try_get_message_within_master s h = Some (kind, Some bus_id, s5\<lparr>heap := m7\<rparr>)"
    using c a h4 ld h5 m6(1) m7(1) f sz
    by (simp add: internal_try_get_message_within_master_def same_loops MAX_PACKET_SIZE_def ret_defs nth_frame Let_def)
  have "s5\<lparr>heap := m7\<rparr> = s\<lparr>heap := m7, incoming := incoming s5, buffer_in_with_cl_pos := int ?n\<rparr>"
    by (subst s5(3), subst s4) simp
  then have "received s h payload rest (s5\<lparr>heap := m7\<rparr>)"
    using all s5(1,2) by (auto simp: received_def)
  with run show ?thesis by blast
qed

section \<open>Sending a frame\<close>

text \<open>
  The result of a send: the handle is empty, the system was given the frame, and nothing else changed.
\<close>

lemma send_frame:
  assumes inv: "heap_inv (heap s)" and view: "content (heap s) h = Some (rq, rsp)"
    and room: "front_room (heap s) h 5 (int (length rsp)) (int (length rq))"
  shows "\<exists>m. send_within_master s h bus_id kind =
      Some (if fst (sendto s (frame bus_id kind rq)) < 0 then COMMLAYER_RET_FAILED else COMMLAYER_RET_OK,
        (snd (sendto s (frame bus_id kind rq)))\<lparr>heap := m\<rparr>) \<and> grown (heap s) h ([], []) m"
proof -
  let ?n = "length rq"
  from request_to_response_view [OF inv view] obtain m1 where m1: "memory_object_request_to_response (heap s) h = Some m1"
    and g1: "grown (heap s) h ([], rq) m1" by blast
  have v1: "heap_inv m1" "content m1 h = Some ([], rq)" using grownD [OF g1] by simp_all
  have "front_room m1 h 5 (int (length ([] :: u8 list))) (int (length rq))"
    using room_after [OF g1 inv view] room grownD [OF g1] request_to_response_span [OF inv view m1]
    by (auto simp: front_room_def)
  from prepend_buffer [OF v1 this zero_le_numeral] obtain p m2 new where a: "memory_object_prepend m1 h 5 = Some (p, m2)"
    and b0: "buffer_at m2 h p (new @ rq)" "int (length new) = 5" and g2: "grown m1 h ([], new @ rq) m2" by blast
  have b: "buffer_at m2 h p (new @ rq)" "length new = 5" using b0 by simp_all
  let ?f = "frame bus_id kind rq"
  let ?hdr = "take 5 ?f"
  have hdr: "?hdr = [ucast (u16_of (int ?n)), ucast (drop_bit 8 (u16_of (int ?n))), ucast bus_id, ucast (drop_bit 8 bus_id), kind]"
    "length ?hdr = 5" "?hdr @ rq = ?f"
    by (simp_all add: frame_def Let_def)
  from store_in_buffer [OF b(1), of 0 ?hdr] hdr b(2) obtain B where
    st: "mem_store BASE_MEM_BLOCK_SIZE (BASE_MEM_BLOCK m2) p ?hdr = Some B"
    and b3: "buffer_at (set_block m2 B) h p ?f" and g3: "grown m2 h ([], ?f) (set_block m2 B)" by auto
  have ld: "mem_load BASE_MEM_BLOCK_SIZE B p (int ?n + 5) = Some ?f"
    using load_from_buffer [OF b3, of "length ?f"] length_frame [of bus_id kind rq] by (simp add: add.commute)
  have v3: "heap_inv (set_block m2 B)" "content (set_block m2 B) h = Some ([], ?f)"
    using grownD(1,2) [OF g3] by simp_all
  from clean_up [OF v3] obtain m4 m5 where c: "memory_object_response_to_request (set_block m2 B) h = Some m4"
    "memory_object_response_to_request m4 h = Some m5" and g5: "grown (set_block m2 B) h ([], []) m5" .
  have "grown (heap s) h ([], []) m5"
    using grown_grown [OF grown_grown [OF grown_grown [OF g1 g2] g3] g5] .
  moreover have "send_within_master s h bus_id kind =
      Some (if fst (sendto s ?f) < 0 then COMMLAYER_RET_FAILED else COMMLAYER_RET_OK, (snd (sendto s ?f))\<lparr>heap := m5\<rparr>)"
    using sizes_of_view(1) [OF inv view] sizes_of_view(2) [OF v1(1,2)] m1 a buffer_pos [OF b(1)] st ld c
    by (simp add: send_within_master_def hdr(1) split_beta)
  ultimately show ?thesis by blast
qed

end
