(* ===== verification/Sync_Request.thy ===== *)
theory Sync_Request
  imports Framing
begin

text \<open>
  Synchronous requests to the central unit: whatever arrives before the reply is queued in order,
  the reply ends up in the handle of the request, and the queued packets are handed out by
  \<open>try_get_message_within_master\<close> before anything new is read.
\<close>

section \<open>The response of a handle\<close>

lemma load_response:
  assumes "heap_inv m" "content m h = Some (rq, rsp)"
  obtains p where "memory_object_get_response_ptr m h = Some p"
    "memory_object_get_response_size m h = Some (int (length rsp))"
    "mem_load BASE_MEM_BLOCK_SIZE (BASE_MEM_BLOCK m) p (int (length rsp)) = Some rsp"
proof -
  from load_whole_request [OF assms] obtain p where p: "memory_object_get_request_ptr m h = Some p"
    "mem_load BASE_MEM_BLOCK_SIZE (BASE_MEM_BLOCK m) (p + int (length rq)) (int (length rsp)) = Some rsp" by metis
  have "memory_object_get_response_ptr m h = Some (p + int (length rq))"
    using p(1) sizes_of_view(1) [OF assms]
    by (auto simp: memory_object_get_response_ptr_def memory_object_get_request_ptr_def
        memory_object_get_request_size_def bind_eq_Some_conv)
  with that p(2) sizes_of_view(2) [OF assms] show thesis by blast
qed

section \<open>The loop\<close>

text \<open>A message on the stream: its kind, its bus id and its bytes.\<close>

type_synonym message = "u8 \<times> u16 \<times> u8 list"

fun frames :: "message list \<Rightarrow> u8 list" where
  "frames [] = []"
| "frames ((kind, bus_id, payload) # ms) = frame bus_id kind payload @ frames ms"

lemma frame_not_empty [simp]: "frame bus_id kind payload \<noteq> []"
  by (simp add: frame_def Let_def)

definition is_reply :: "comm \<Rightarrow> message \<Rightarrow> bool" where
  "is_reply s msg \<longleftrightarrow> fst msg = COMMLAYER_FROM_CU_STATUS_SYNC_RESPONSE \<and> fst (snd msg) = sync_packet_id s"

text \<open>\<open>select\<close> reports data for the next \<open>n\<close> calls.\<close>

definition ready :: "nat \<Rightarrow> comm \<Rightarrow> bool" where
  "ready n s \<longleftrightarrow> n \<le> length (select_results s) \<and> (\<forall>r \<in> set (take n (select_results s)). 0 < r)"

lemma wait_ready:
  assumes "ready (Suc n) s"
  shows "\<exists>s'. internal_wait_for_communication_event s w = Some (COMMLAYER_RET_FROM_CENTRAL_UNIT, s') \<and>
    ready n s' \<and> s' = s\<lparr>select_results := select_results s', select_timeouts := select_timeouts s'\<rparr>"
proof -
  from assms obtain r rs where rs: "select_results s = r # rs" "0 < r"
    by (cases "select_results s") (auto simp: ready_def)
  with assms show ?thesis
    by (auto simp: internal_wait_for_communication_event_def ready_def Let_def)
qed

text \<open>The part of the state the loop works on, apart from the heap and the system.\<close>

definition waited :: "comm \<Rightarrow> comm \<Rightarrow> bool" where
  "waited s s' \<longleftrightarrow> sent s' = sent s \<and> send_results s' = send_results s \<and> sync_packet_id s' = sync_packet_id s \<and>
     sync_status s' = sync_status s"

lemma sync_loop_replies:
  assumes "heap_inv (heap s)" "content (heap s) t = Some (trq, trsp)" "content (heap s) h = Some ([], [])" "h \<noteq> t"
    and "160 \<le> free_space (heap s) + int (length trq) + int (length trsp)"
    and "quiet (incoming s)"
    and "stream_of (incoming s) = frames ms @ frame (sync_packet_id s) COMMLAYER_FROM_CU_STATUS_SYNC_RESPONSE reply @ rest"
    and "ready (Suc (length ms)) s" "queue_ok (packets s)"
    and "\<forall>msg \<in> set ms. \<not> is_reply s msg \<and> length (snd (snd msg)) \<le> 80" "length reply \<le> 80" "reply \<noteq> [] \<or> rest \<noteq> []"
  shows "\<exists>s'. sync_loop s h t = Some s' \<and> heap_inv (heap s') \<and>
    content (heap s') = (content (heap s))(t \<mapsto> ([], reply), h \<mapsto> ([], reply)) \<and>
    MEMORY_HANDLE_MAX (heap s') = MEMORY_HANDLE_MAX (heap s) \<and>
    length (memory_objects (heap s')) = length (memory_objects (heap s)) \<and>
    quiet (incoming s') \<and> stream_of (incoming s') = rest \<and>
    queue_ok (packets s') \<and> map packet_of (packets s') = map packet_of (packets s) @ ms \<and> waited s s'"
  using assms
proof (induction ms arbitrary: s trq trsp)
  case Nil
  from wait_ready [of 0 s] Nil.prems(8) obtain s1 where w: "internal_wait_for_communication_event s
      \<lparr>wait_time_high_t = 0xFFFF, wait_time_low_t = 0xFFFF, wait_packet = 1\<rparr> = Some (COMMLAYER_RET_FROM_CENTRAL_UNIT, s1)"
    and s1: "s1 = s\<lparr>select_results := select_results s1, select_timeouts := select_timeouts s1\<rparr>" by fastforce
  have f1: "heap s1 = heap s" "incoming s1 = incoming s" "packets s1 = packets s" "sync_packet_id s1 = sync_packet_id s"
    "waited s s1"
    by (subst s1, simp add: waited_def)+
  from receive_frame [of s1 t trq trsp "sync_packet_id s" COMMLAYER_FROM_CU_STATUS_SYNC_RESPONSE reply rest] Nil.prems f1
  obtain s2 where r: "internal_try_get_message_within_master s1 t =
      Some (COMMLAYER_FROM_CU_STATUS_SYNC_RESPONSE, Some (sync_packet_id s), s2)" and rec: "received s1 t reply rest s2" by auto
  from rec obtain k where s2: "s2 = s1\<lparr>heap := heap s2, incoming := incoming s2, buffer_in_with_cl_pos := k\<rparr>"
    and g: "grown (heap s) t ([], reply) (heap s2)" by (auto simp: received_def f1)
  have f2: "packets s2 = packets s" "sync_packet_id s2 = sync_packet_id s" "waited s s2"
    using f1 by (subst s2, simp add: waited_def)+
  note g' = grownD [OF g]
  have h2: "content (heap s2) h = Some ([], [])" and t2: "content (heap s2) t = Some ([], reply)"
    using g'(2) Nil.prems(3,4) by simp_all
  have "int (length reply) \<le> free_space (heap s2)"
    using room_after [OF g Nil.prems(1,2)] Nil.prems(5,11) by simp
  then have room: "int (length reply) \<le> free_space (heap s2) + int (length ([] :: u8 list)) + int (length ([] :: u8 list))" by simp
  have "t \<noteq> h" using Nil.prems(4) by simp
  from copy_response_to_response [OF g'(1) h2 t2 this room]
  obtain m where m: "zepto_copy_response_to_response_of_another_handle (heap s2) t h = Some m" "grown (heap s2) h ([], reply) m" by blast
  have "sync_loop s h t = Some (s2\<lparr>heap := m\<rparr>)"
    using w r m(1) f2 by (subst sync_loop.simps) simp
  then show ?case
    using grownD [OF m(2)] g' f2 rec Nil.prems(9) by (auto simp: received_def waited_def)
next
  case (Cons msg ms)
  obtain kind bus payload where msg: "msg = (kind, bus, payload)" by (metis prod_cases3)
  let ?last = "frame (sync_packet_id s) COMMLAYER_FROM_CU_STATUS_SYNC_RESPONSE reply"
  from wait_ready [of "Suc (length ms)" s] Cons.prems(8) obtain s1 where w: "internal_wait_for_communication_event s
      \<lparr>wait_time_high_t = 0xFFFF, wait_time_low_t = 0xFFFF, wait_packet = 1\<rparr> = Some (COMMLAYER_RET_FROM_CENTRAL_UNIT, s1)"
    and rd: "ready (Suc (length ms)) s1"
    and s1: "s1 = s\<lparr>select_results := select_results s1, select_timeouts := select_timeouts s1\<rparr>" by fastforce
  have f1: "heap s1 = heap s" "incoming s1 = incoming s" "packets s1 = packets s" "sync_packet_id s1 = sync_packet_id s"
    "waited s s1"
    by (subst s1, simp add: waited_def)+
  from receive_frame [of s1 t trq trsp bus kind payload "frames ms @ ?last @ rest"] Cons.prems f1 msg
  obtain s2 where r: "internal_try_get_message_within_master s1 t = Some (kind, Some bus, s2)"
    and rec: "received s1 t payload (frames ms @ ?last @ rest) s2" by auto
  from rec obtain k where s2: "s2 = s1\<lparr>heap := heap s2, incoming := incoming s2, buffer_in_with_cl_pos := k\<rparr>"
    and g: "grown (heap s) t ([], payload) (heap s2)" by (auto simp: received_def f1)
  have f2: "packets s2 = packets s" "sync_packet_id s2 = sync_packet_id s" "waited s s2" "select_results s2 = select_results s1"
    using f1 by (subst s2, simp add: waited_def)+
  note g' = grownD [OF g]
  have h2: "content (heap s2) h = Some ([], [])" and t2: "content (heap s2) t = Some ([], payload)"
    using g'(2) Cons.prems(3,4) by simp_all
  from load_response [OF g'(1) t2] obtain p where p: "memory_object_get_response_ptr (heap s2) t = Some p"
    "memory_object_get_response_size (heap s2) t = Some (int (length payload))"
    "mem_load BASE_MEM_BLOCK_SIZE (BASE_MEM_BLOCK (heap s2)) p (int (length payload)) = Some payload" .
  from put_packet_effect [OF Cons.prems(9), of kind bus payload] obtain q where
    q: "cscl_add_new_packet_to_queue (packets s) kind (int (length payload)) bus payload = Some q"
    "queue_ok q" "map packet_of q = map packet_of (packets s) @ [msg]" by (auto simp: put_packet_def msg)
  let ?s3 = "s2\<lparr>packets := q\<rparr>"
  have not_reply: "\<not> (kind = COMMLAYER_FROM_CU_STATUS_SYNC_RESPONSE \<and> bus = sync_packet_id s2)"
    using Cons.prems(10) f2(2) by (simp add: is_reply_def msg)
  have step: "sync_loop s h t = sync_loop ?s3 h t"
    using w r p q(1) not_reply f2(1) by (subst sync_loop.simps) auto
  have room: "160 \<le> free_space (heap ?s3) + int (length ([] :: u8 list)) + int (length payload)"
    using room_after [OF g Cons.prems(1,2)] Cons.prems(5) by simp
  have "\<forall>msg \<in> set ms. \<not> is_reply ?s3 msg \<and> length (snd (snd msg)) \<le> 80"
    using Cons.prems(10) f2(2) by (simp add: is_reply_def)
  moreover have "heap_inv (heap ?s3)" "content (heap ?s3) t = Some ([], payload)" "content (heap ?s3) h = Some ([], [])"
    "quiet (incoming ?s3)" "ready (Suc (length ms)) ?s3" "queue_ok (packets ?s3)"
    "stream_of (incoming ?s3) = frames ms @ frame (sync_packet_id ?s3) COMMLAYER_FROM_CU_STATUS_SYNC_RESPONSE reply @ rest"
    using g'(1) h2 t2 rec rd f2 q(2) by (simp_all add: received_def ready_def)
  ultimately obtain s' where s': "sync_loop ?s3 h t = Some s'" "heap_inv (heap s')"
    "content (heap s') = (content (heap ?s3))(t \<mapsto> ([], reply), h \<mapsto> ([], reply))"
    "MEMORY_HANDLE_MAX (heap s') = MEMORY_HANDLE_MAX (heap ?s3)"
    "length (memory_objects (heap s')) = length (memory_objects (heap ?s3))"
    "quiet (incoming s')" "stream_of (incoming s') = rest" "queue_ok (packets s')"
    "map packet_of (packets s') = map packet_of (packets ?s3) @ ms" "waited ?s3 s'"
    using Cons.IH [of ?s3 "[]" payload, OF _ _ _ Cons.prems(4) room _ _ _ _ _ Cons.prems(11,12)] by blast
  have "content (heap ?s3) = (content (heap s))(t \<mapsto> ([], payload))" using g'(2) by simp
  have "content (heap s') = (content (heap s))(t \<mapsto> ([], reply), h \<mapsto> ([], reply))"
    unfolding s'(3) \<open>content (heap ?s3) = (content (heap s))(t \<mapsto> ([], payload))\<close> by (simp only: fun_upd_upd)
  moreover have "map packet_of (packets s') = map packet_of (packets s) @ msg # ms" "waited s s'"
    "MEMORY_HANDLE_MAX (heap s') = MEMORY_HANDLE_MAX (heap s)"
    "length (memory_objects (heap s')) = length (memory_objects (heap s))"
    using s'(4,5,9,10) g'(3,4) f2 q(3) by (simp_all add: waited_def)
  ultimately show ?case
    unfolding step using s'(1,2,6-8) by blast
qed

section \<open>The whole request\<close>

text \<open>
  What a request leaves: the reply as response of its handle, one frame sent, the packets that came
  first in the queue, every other handle and the bytes behind the reply as they were.
\<close>

definition answered :: "comm \<Rightarrow> nat \<Rightarrow> u8 list \<Rightarrow> message list \<Rightarrow> u8 list \<Rightarrow> u8 list \<Rightarrow> comm \<Rightarrow> bool" where
  "answered s h rq ms reply rest s' \<longleftrightarrow> handles_inv (heap s') \<and>
     MEMORY_HANDLE_MAX (heap s') = MEMORY_HANDLE_MAX (heap s) \<and>
     messages (heap s') = (messages (heap s))(h \<mapsto> ([], reply)) \<and>
     sent s' = sent s @ [frame (sync_packet_id s + 1) COMMLAYER_TO_CU_STATUS_SYNC_REQUEST rq] \<and>
     sync_packet_id s' = sync_packet_id s + 1 \<and>
     queue_ok (packets s') \<and> map packet_of (packets s') = map packet_of (packets s) @ ms \<and>
     quiet (incoming s') \<and> stream_of (incoming s') = rest"

text \<open>The environment of a request: what arrives, that \<open>select\<close> reports it, that the system takes the frame.\<close>

definition reply_arrives :: "comm \<Rightarrow> message list \<Rightarrow> u8 list \<Rightarrow> u8 list \<Rightarrow> bool" where
  "reply_arrives s ms reply rest \<longleftrightarrow> send_results s = [] \<and> quiet (incoming s) \<and>
     stream_of (incoming s) =
       frames ms @ frame (sync_packet_id s + 1) COMMLAYER_FROM_CU_STATUS_SYNC_RESPONSE reply @ rest \<and>
     ready (Suc (length ms)) s \<and> queue_ok (packets s) \<and>
     (\<forall>msg \<in> set ms. (fst msg \<noteq> COMMLAYER_FROM_CU_STATUS_SYNC_RESPONSE \<or> fst (snd msg) \<noteq> sync_packet_id s + 1) \<and>
        length (snd (snd msg)) \<le> 80) \<and>
     length reply \<le> 80 \<and> (reply \<noteq> [] \<or> rest \<noteq> [])"

text \<open>
  What a request needs of the heap: the first acquirable handle is in use (then acquiring another
  one cannot fail), and there is room for the slot of the temporary handle and for two packets.
\<close>

definition room_for_request :: "mem \<Rightarrow> nat \<Rightarrow> bool" where
  "room_for_request m h \<longleftrightarrow> messages m (MEMORY_HANDLE_ACQUIRABLE_START m) \<noteq> None \<and>
     178 \<le> free_space m + view_size (messages m h)"

lemma storage_below_start: "handles_inv m \<Longrightarrow> MEMORY_HANDLE_ACQUIRABLE_START m \<le> t \<Longrightarrow> t \<noteq> MEMORY_HANDLE_ACQUIRABLE_HANDLE_STORAGE m"
  by (auto simp: MEMORY_HANDLE_ACQUIRABLE_START_def MEMORY_HANDLE_ACQUIRABLE_HANDLE_STORAGE_def handles_inv_def heap_inv_def)

lemma storage_eq: "MEMORY_HANDLE_MAX m' = MEMORY_HANDLE_MAX m \<Longrightarrow>
    MEMORY_HANDLE_ACQUIRABLE_HANDLE_STORAGE m' = MEMORY_HANDLE_ACQUIRABLE_HANDLE_STORAGE m"
  by (simp add: MEMORY_HANDLE_ACQUIRABLE_HANDLE_STORAGE_def)

lemma same_slots_handles_inv:
  assumes "handles_inv m" "heap_inv m'" "MEMORY_HANDLE_MAX m' = MEMORY_HANDLE_MAX m"
    "length (memory_objects m') = length (memory_objects m)"
    "content m' (MEMORY_HANDLE_ACQUIRABLE_HANDLE_STORAGE m) = content m (MEMORY_HANDLE_ACQUIRABLE_HANDLE_STORAGE m)"
  shows "handles_inv m'"
  using assms storage_eq [OF assms(3)]
  by (simp add: handles_inv_def slots_def MEMORY_HANDLE_ACQUIRABLE_START_def)

lemma sync_request:
  assumes inv: "handles_inv (heap s)" and view: "messages (heap s) h = Some (rq, rsp)"
    and room: "front_room (heap s) h 5 (int (length rsp)) (int (length rq))"
    and env: "reply_arrives s ms reply rest" and avail: "room_for_request (heap s) h"
  shows "\<exists>s'. internal_send_sync_request_to_central_unit s h = Some s' \<and> answered s h rq ms reply rest s'"
proof -
  let ?id = "sync_packet_id s + 1" and ?K = COMMLAYER_TO_CU_STATUS_SYNC_REQUEST
  have hinv: "heap_inv (heap s)" and c: "content (heap s) h = Some (rq, rsp)"
    using inv messages_content [OF view] by (simp_all add: handles_inv_def)
  let ?s0 = "s\<lparr>sync_packet_id := ?id\<rparr>"
  have out: "sendto x buf = (int (length buf), x\<lparr>sent := sent x @ [buf]\<rparr>)" if "send_results x = []" for x buf
    using that by (simp add: sendto_def)
  have sr: "send_results s = []" "send_results ?s0 = []" using env by (simp_all add: reply_arrives_def)
  have hinv0: "heap_inv (heap ?s0)" "content (heap ?s0) h = Some (rq, rsp)"
    "front_room (heap ?s0) h 5 (int (length rsp)) (int (length rq))" using hinv c room by simp_all
  from send_frame [OF hinv0, of ?id ?K] obtain m1 where
    m1: "send_within_master ?s0 h ?id ?K = Some (COMMLAYER_RET_OK, ?s0\<lparr>sent := sent s @ [frame ?id ?K rq], heap := m1\<rparr>)"
    and g1: "grown (heap s) h ([], []) m1" by (auto simp: out [OF sr(2)])
  have msg1: "handles_inv m1" "MEMORY_HANDLE_MAX m1 = MEMORY_HANDLE_MAX (heap s)" "messages m1 = (messages (heap s))(h \<mapsto> ([], []))"
    using grown_messages [OF g1 inv] view by simp_all
  have "content m1 (MEMORY_HANDLE_ACQUIRABLE_START m1) \<noteq> None" "178 \<le> free_space m1 + 1"
    using avail g1 msg1(2) room_after [OF g1 hinv c] view messages_content
    by (auto simp: room_for_request_def MEMORY_HANDLE_ACQUIRABLE_START_def grown_def)
  from acquire_available [OF msg1(1) this(1), of 160] this(2) obtain t m2 where
    aq: "memory_object_acquire m1 = Some (Some t, m2)" and a: "acquired m1 t m2" and fs2: "160 \<le> free_space m2"
    by (auto simp: sizeof_request_reply_mem_obj_def)
  have t: "t \<noteq> MEMORY_HANDLE_ACQUIRABLE_HANDLE_STORAGE m1" "MEMORY_HANDLE_ACQUIRABLE_START m1 \<le> t"
    using a storage_below_start [OF msg1(1)] by (auto simp: acquired_def)
  have h: "h \<noteq> MEMORY_HANDLE_ACQUIRABLE_HANDLE_STORAGE m1" "h \<noteq> t" "content m1 h = Some ([], [])"
    using messages_content [OF view] storage_eq [OF msg1(2)] grownD(2) [OF g1] a by (auto simp: acquired_def)
  have m2: "handles_inv m2" "heap_inv m2" "content m2 t = Some ([], [])" "content m2 h = Some ([], [])"
    "MEMORY_HANDLE_MAX m2 = MEMORY_HANDLE_MAX m1"
    using a h by (auto simp: acquired_def handles_inv_def)
  let ?s2 = "?s0\<lparr>sent := sent s @ [frame ?id ?K rq], sync_status := COMMLAYER_SYNC_STATUS_WAIT_FOR_REPLY, heap := m2\<rparr>"
  have "\<forall>msg \<in> set ms. \<not> is_reply ?s2 msg \<and> length (snd (snd msg)) \<le> 80"
    using env by (auto simp: reply_arrives_def is_reply_def)
  moreover have "160 \<le> free_space (heap ?s2) + int (length ([] :: u8 list)) + int (length ([] :: u8 list))"
    "quiet (incoming ?s2)" "ready (Suc (length ms)) ?s2" "queue_ok (packets ?s2)" "length reply \<le> 80" "reply \<noteq> [] \<or> rest \<noteq> []"
    "stream_of (incoming ?s2) = frames ms @ frame (sync_packet_id ?s2) COMMLAYER_FROM_CU_STATUS_SYNC_RESPONSE reply @ rest"
    "heap_inv (heap ?s2)" "content (heap ?s2) t = Some ([], [])" "content (heap ?s2) h = Some ([], [])"
    using fs2 env m2 by (simp_all add: reply_arrives_def ready_def)
  ultimately obtain s3 where s3: "sync_loop ?s2 h t = Some s3" "heap_inv (heap s3)"
    "content (heap s3) = (content (heap ?s2))(t \<mapsto> ([], reply), h \<mapsto> ([], reply))"
    "MEMORY_HANDLE_MAX (heap s3) = MEMORY_HANDLE_MAX (heap ?s2)"
    "length (memory_objects (heap s3)) = length (memory_objects (heap ?s2))"
    "quiet (incoming s3)" "stream_of (incoming s3) = rest" "queue_ok (packets s3)"
    "map packet_of (packets s3) = map packet_of (packets ?s2) @ ms" "waited ?s2 s3"
    using sync_loop_replies [of ?s2 t "[]" "[]" h ms reply rest] h(2) by blast
  have st2: "MEMORY_HANDLE_ACQUIRABLE_HANDLE_STORAGE m2 = MEMORY_HANDLE_ACQUIRABLE_HANDLE_STORAGE m1"
    by (rule storage_eq [OF m2(5)])
  have inv3: "handles_inv (heap s3)"
    using same_slots_handles_inv [OF m2(1) s3(2)] s3(3,4,5) t h st2 by simp
  have start: "MEMORY_HANDLE_ACQUIRABLE_START (heap s3) \<le> t" "content (heap s3) t \<noteq> None"
    using t(2) s3(3,4) m2(5) h(2) by (simp_all add: MEMORY_HANDLE_ACQUIRABLE_START_def)
  from release_effect [OF inv3 start] obtain m4 where m4: "memory_object_release (heap s3) t = Some m4" "released (heap s3) t m4" by blast
  have max: "MEMORY_HANDLE_MAX m4 = MEMORY_HANDLE_MAX (heap s)" "MEMORY_HANDLE_MAX (heap s3) = MEMORY_HANDLE_MAX (heap s)"
    using m4(2) s3(4) m2(5) msg1(2) by (auto simp: released_def)
  have run: "internal_send_sync_request_to_central_unit s h = Some (s3\<lparr>heap := m4\<rparr>)"
    using m1 aq s3(1) m4(1) unfolding internal_send_sync_request_to_central_unit_def
    by (simp add: Let_def ret_defs)
  have "messages m4 = (messages (heap s))(h \<mapsto> ([], reply))"
  proof (rule ext)
    fix k
    have st: "MEMORY_HANDLE_ACQUIRABLE_HANDLE_STORAGE m4 = MEMORY_HANDLE_ACQUIRABLE_HANDLE_STORAGE (heap s)"
      "MEMORY_HANDLE_ACQUIRABLE_HANDLE_STORAGE (heap s3) = MEMORY_HANDLE_ACQUIRABLE_HANDLE_STORAGE (heap s)"
      "MEMORY_HANDLE_ACQUIRABLE_HANDLE_STORAGE m1 = MEMORY_HANDLE_ACQUIRABLE_HANDLE_STORAGE (heap s)"
      using max msg1(2) by (auto intro: storage_eq)
    have t0: "content (heap s) t = None"
      using a grownD(2) [OF g1] h(2) by (auto simp: acquired_def split: if_splits)
    show "messages m4 k = ((messages (heap s))(h \<mapsto> ([], reply))) k"
    proof (cases "k = MEMORY_HANDLE_ACQUIRABLE_HANDLE_STORAGE (heap s)")
      case True
      then show ?thesis using st h(1) by (simp add: messages_def)
    next
      case False
      have "content m4 k = (if k = t then None else content (heap s3) k)"
        using m4(2) False st(2) by (simp add: released_def)
      moreover have "content (heap s3) k = (if k = h then Some ([], reply) else content m2 k)" if "k \<noteq> t"
        unfolding s3(3) using that by simp
      moreover have "content m2 k = content m1 k" if "k \<noteq> t"
        using a that False st(3) by (simp add: acquired_def)
      moreover have "content m1 k = content (heap s) k" if "k \<noteq> h"
        unfolding grownD(2) [OF g1] using that by simp
      ultimately show ?thesis
        using False t0 h(2) st(1) by (cases "k = t"; cases "k = h") (simp_all add: messages_def)
    qed
  qed
  then have "answered s h rq ms reply rest (s3\<lparr>heap := m4\<rparr>)"
    using m4(2) max s3(6-10) by (simp add: answered_def released_def waited_def)
  with run show ?thesis by blast
qed

section \<open>Queued packets come first\<close>

lemma queued_packet_first:
  assumes inv: "heap_inv (heap s)" and view: "content (heap s) h = Some (rq, rsp)" and fixed: "h < MEMORY_HANDLE_MAX (heap s)"
    and q: "queue_ok (packets s)" "map packet_of (packets s) = (kind, bus_id, payload) # ps"
    and room: "int (length payload) \<le> free_space (heap s) + int (length rq) + int (length rsp)"
  shows "\<exists>m q'. try_get_message_within_master s h = Some (kind, Some bus_id, s\<lparr>heap := m, packets := q'\<rparr>) \<and>
    grown (heap s) h ([], payload) m \<and> queue_ok q' \<and> map packet_of q' = ps"
proof -
  from q(2) obtain i q' where pk: "packets s = i # q'" "packet_of i = (kind, bus_id, payload)" "map packet_of q' = ps" by auto
  have sz: "pkt_sz i = int (length payload)" and bytes: "packet_bytes i = payload"
    using q(1) pk by (auto simp: queue_ok_def packet_ok_def packet_of_def)
  from free_effect [OF inv view] obtain m1 where m1: "zepto_parser_free_memory (heap s) h = Some m1" and g1: "grown (heap s) h ([], []) m1" by blast
  have v1: "heap_inv m1" "content m1 h = Some ([], [])" "h < MEMORY_HANDLE_MAX m1"
    using grownD [OF g1] fixed by simp_all
  have "front_room m1 h (int (length payload)) (int (length ([] :: u8 list))) (int (length ([] :: u8 list)))"
    using room_after [OF g1 inv view] room v1(3) by (simp add: front_room_def)
  from prepend_buffer [OF v1(1,2) this of_nat_0_le_iff] obtain p m2 new where
    a: "memory_object_prepend m1 h (int (length payload)) = Some (p, m2)"
    and b0: "buffer_at m2 h p (new @ [])" "int (length new) = int (length payload)" and g20: "grown m1 h ([], new @ []) m2" by blast
  have b: "buffer_at m2 h p new" "length new = length payload" and g2: "grown m1 h ([], new) m2" using b0 g20 by simp_all
  from store_in_buffer [OF b(1), of 0 payload] b(2) obtain B where
    st: "mem_store BASE_MEM_BLOCK_SIZE (BASE_MEM_BLOCK m2) p payload = Some B" and g3: "grown m2 h ([], payload) (set_block m2 B)" by auto
  have "try_get_message_within_master s h = Some (kind, Some bus_id, s\<lparr>heap := set_block m2 B, packets := q'\<rparr>)"
    using m1 a st buffer_pos [OF b(1)] oldest_packet [of i q'] q(1) pk sz bytes
    by (simp add: try_get_message_within_master_def cscl_is_queued_packet_def cscl_get_oldest_packet_size_def)
  moreover have "queue_ok q'" using q(1) pk(1) by (simp add: queue_ok_def)
  ultimately show ?thesis using grown_grown [OF grown_grown [OF g1 g2] g3] pk(3) by blast
qed

section \<open>Saving and fetching data\<close>

text \<open>A message with a prefix in front of it, handed over as the request.\<close>

lemma prefixed_request:
  assumes inv: "handles_inv m" and view: "messages m h = Some (rq, rsp)"
    and room: "front_room m h (int (length pre)) (int (length rq)) (int (length rsp))"
  obtains p m1 B m2 where "memory_object_prepend m h (int (length pre)) = Some (p, m1)"
    "mem_store BASE_MEM_BLOCK_SIZE (BASE_MEM_BLOCK m1) p pre = Some B"
    "zepto_response_to_request (set_block m1 B) h = Some m2" "handles_inv m2"
    "messages m2 = (messages m)(h \<mapsto> (pre @ rsp, []))" "MEMORY_HANDLE_MAX m2 = MEMORY_HANDLE_MAX m"
    "free_space m2 = free_space m + int (length rq) - int (length pre)"
    "int (length pre) + int (length rsp) \<le> span m h \<longrightarrow> span m2 h = span m h"
proof -
  have hinv: "heap_inv m" and c: "content m h = Some (rq, rsp)"
    using inv messages_content [OF view] by (simp_all add: handles_inv_def)
  from prepend_buffer [OF hinv c room of_nat_0_le_iff] obtain p m1 new where
    a: "memory_object_prepend m h (int (length pre)) = Some (p, m1)"
    and b0: "buffer_at m1 h p (new @ rsp)" "int (length new) = int (length pre)" and g1: "grown m h ([], new @ rsp) m1"
    and sp: "int (length pre) + int (length rsp) \<le> span m h \<longrightarrow> span m1 h = span m h" by blast
  have b: "buffer_at m1 h p (new @ rsp)" "length new = length pre" using b0 by simp_all
  from store_in_buffer [OF b(1), of 0 pre] b(2) obtain B where
    st: "mem_store BASE_MEM_BLOCK_SIZE (BASE_MEM_BLOCK m1) p pre = Some B" and g2: "grown m1 h ([], pre @ rsp) (set_block m1 B)" by auto
  have c2: "content (set_block m1 B) h = Some ([], pre @ rsp)" using grownD(2) [OF g2] by simp
  from response_to_request_view [OF grownD(1) [OF g2] c2] obtain m2 where
    m2: "zepto_response_to_request (set_block m1 B) h = Some m2" and g3: "grown (set_block m1 B) h (pre @ rsp, []) m2" by blast
  have "span m2 h = span (set_block m1 B) h"
    using response_to_request_span [OF grownD(1) [OF g2] c2] m2 by (simp add: zepto_response_to_request_def)
  then have sp2: "span m2 h = span m1 h" by (simp add: span_def)
  note g = grown_grown [OF grown_grown [OF g1 g2] g3]
  from that [OF a st m2] grown_messages [OF g inv] room_after [OF g hinv c] view sp sp2 show thesis by simp
qed

text \<open>The request of a save: command, device id, field 0, size and data.\<close>

definition save_request :: "u16 \<Rightarrow> u8 list \<Rightarrow> u8 list" where
  "save_request dev_id dat = [REQUEST_TO_CU_WRITE_DATA, ucast dev_id, ucast (drop_bit 8 dev_id), 0,
     ucast (u16_of (int (length dat))), ucast (drop_bit 8 (u16_of (int (length dat))))] @ dat"

definition fetch_request :: "u16 \<Rightarrow> u8 list" where
  "fetch_request dev_id = [REQUEST_TO_CU_READ_DATA, ucast dev_id, ucast (drop_bit 8 dev_id), 0]"

lemma save_data:
  assumes inv: "handles_inv (heap s)" and view: "messages (heap s) h = Some (rq, rsp)"
    and room: "front_room (heap s) h 11 (int (length rq)) (int (length rsp))" and env: "reply_arrives s ms reply rest"
    and avail: "room_for_request (heap s) h"
  shows "\<exists>s'. send_sync_request_to_central_unit_to_save_data s h dev_id = Some s' \<and>
    answered s h (save_request dev_id rsp) ms reply rest s'"
proof -
  let ?pre = "take 6 (save_request dev_id rsp)"
  have pre: "length ?pre = 6" "?pre @ rsp = save_request dev_id rsp" by (simp_all add: save_request_def)
  have r6: "front_room (heap s) h (int (length ?pre)) (int (length rq)) (int (length rsp))"
    using room pre by (auto simp: front_room_def)
  from prefixed_request [OF inv view r6] obtain p m1 B m2 where m2:
    "memory_object_prepend (heap s) h 6 = Some (p, m1)" "mem_store BASE_MEM_BLOCK_SIZE (BASE_MEM_BLOCK m1) p ?pre = Some B"
    "zepto_response_to_request (set_block m1 B) h = Some m2" "handles_inv m2"
    "messages m2 = (messages (heap s))(h \<mapsto> (save_request dev_id rsp, []))" "MEMORY_HANDLE_MAX m2 = MEMORY_HANDLE_MAX (heap s)"
    "free_space m2 = free_space (heap s) + int (length rq) - 6"
    "6 + int (length rsp) \<le> span (heap s) h \<longrightarrow> span m2 h = span (heap s) h"
    unfolding pre by (metis pre(1) of_nat_numeral)
  let ?s = "s\<lparr>heap := m2\<rparr>"
  have "messages (heap ?s) h = Some (save_request dev_id rsp, [])" using m2(5) by simp
  moreover have "reply_arrives ?s ms reply rest" using env by (simp add: reply_arrives_def ready_def)
  moreover have roomy: "room_for_request (heap ?s) h"
    using avail m2(5,6,7) view
    by (auto simp: room_for_request_def MEMORY_HANDLE_ACQUIRABLE_START_def save_request_def)
  moreover have "front_room (heap ?s) h 5 (int (length ([] :: u8 list))) (int (length (save_request dev_id rsp)))"
    using room m2(6-8) pre by (auto simp: front_room_def save_request_def)
  ultimately obtain s' where s': "internal_send_sync_request_to_central_unit ?s h = Some s'"
    "answered ?s h (save_request dev_id rsp) ms reply rest s'"
    using sync_request [of ?s h "save_request dev_id rsp" "[]" ms reply rest] m2(4) by auto
  have hinv: "heap_inv (heap s)" and c: "content (heap s) h = Some (rq, rsp)"
    using inv messages_content [OF view] by (simp_all add: handles_inv_def)
  have "send_sync_request_to_central_unit_to_save_data s h dev_id = Some s'"
    using sizes_of_view(2) [OF hinv c] m2(1-3) s'(1)
    by (simp add: send_sync_request_to_central_unit_to_save_data_def save_request_def)
  moreover have "answered s h (save_request dev_id rsp) ms reply rest s'"
    using s'(2) m2(5,6) by (simp add: answered_def)
  ultimately show ?thesis by blast
qed

text \<open>The reply to a fetch: four bytes that are not looked at, the size, and the data.\<close>

definition data_reply :: "u8 list \<Rightarrow> u8 list \<Rightarrow> u8 list" where
  "data_reply pre dat = take 4 pre @
     [ucast (u16_of (int (length dat))), ucast (drop_bit 8 (u16_of (int (length dat))))] @ dat"

text \<open>The data are cut out of the reply.\<close>

lemma data_reply_parts:
  assumes "length pre = 4"
  shows "length (data_reply pre dat) = 6 + length dat" "drop 6 (data_reply pre dat) = dat"
    "take 6 (data_reply pre dat) ! 4 = ucast (u16_of (int (length dat)))"
    "take 6 (data_reply pre dat) ! 5 = ucast (drop_bit 8 (u16_of (int (length dat))))"
  using assms by (simp_all add: data_reply_def nth_append)

lemma strip_data_reply:
  assumes inv: "handles_inv m" and view: "messages m h = Some ([], data_reply pre dat)"
    and len: "length pre = 4" "length dat < 65530"
  shows "\<exists>m1 po po1 m2. zepto_response_to_request m h = Some m1 \<and>
    zepto_parser_init m1 h = Some po \<and>
    zepto_parse_read_block m1 po 6 = Some (Some (take 6 (data_reply pre dat)), po\<lparr>offset := 6\<rparr>) \<and>
    zepto_parser_init_by_parser m1 (po\<lparr>offset := 6\<rparr>) = Some (po\<lparr>offset := 6\<rparr>) \<and>
    zepto_parsing_remaining_bytes m1 (po\<lparr>offset := 6\<rparr>) = Some (int (length dat), po\<lparr>offset := 6\<rparr>) \<and>
    zepto_parse_skip_block m1 (po\<lparr>offset := 6\<rparr>) (int (length dat)) = Some (True, po1) \<and>
    zepto_convert_part_of_request_to_response m1 h (po\<lparr>offset := 6\<rparr>) po1 =
      Some (m2, po\<lparr>offset := 6, mem_handle := None\<rparr>, po1\<lparr>mem_handle := None\<rparr>) \<and>
    handles_inv m2 \<and> MEMORY_HANDLE_MAX m2 = MEMORY_HANDLE_MAX m \<and> messages m2 = (messages m)(h \<mapsto> ([], dat))"
proof -
  let ?r = "data_reply pre dat"
  note parts = data_reply_parts [OF len(1), of dat]
  have hinv: "heap_inv m" and c: "content m h = Some ([], ?r)"
    using inv messages_content [OF view] by (simp_all add: handles_inv_def)
  from response_to_request_view [OF hinv c] obtain m1 where m1: "zepto_response_to_request m h = Some m1"
    and g1: "grown m h (?r, []) m1" by blast
  have inv1: "heap_inv m1" and c1: "content m1 h = Some (?r, [])" using grownD [OF g1] by simp_all
  let ?po = "\<lparr>mem_handle = Some h, offset = 0, res_valid = True\<rparr>"
  let ?po6 = "?po\<lparr>offset := 6\<rparr>" and ?fin = "?po\<lparr>offset := 6 + int (length dat)\<rparr>"
  have po: "zepto_parser_init m1 h = Some ?po"
    using valid_handle [OF inv1 c1] by (simp add: zepto_parser_init_def)
  have rd: "zepto_parse_read_block m1 ?po 6 = Some (Some (take 6 ?r), ?po6)"
    using parse_read_block_effect [OF inv1 c1, of ?po 0 6] parts by simp
  have ph: "parser_handle m1 ?po6 = Some h" by (rule parser_handle_ok [OF inv1 c1]) simp
  note sz = sizes_of_view(1) [OF inv1 c1]
  have by_po: "zepto_parser_init_by_parser m1 ?po6 = Some ?po6"
    using ph by (simp add: zepto_parser_init_by_parser_def)
  have rem: "zepto_parsing_remaining_bytes m1 ?po6 = Some (int (length dat), ?po6)"
    using ph sz parts by (simp add: zepto_parsing_remaining_bytes_def)
  have sk: "zepto_parse_skip_block m1 ?po6 (int (length dat)) = Some (True, ?fin)"
    using ph sz parts len(2) by (simp add: zepto_parse_skip_block_def)
  from convert_part_of_request [OF inv1 c1, of 6 "6 + int (length dat)" ?po6 ?fin] parts obtain m2 where
    m2: "zepto_convert_part_of_request_to_response m1 h ?po6 ?fin =
        Some (m2, ?po6\<lparr>mem_handle := None\<rparr>, ?fin\<lparr>mem_handle := None\<rparr>)" "grown m1 h ([], dat) m2" by auto
  note g = grown_messages [OF grown_grown [OF g1 m2(2)] inv]
  show ?thesis
    using m1 po rd by_po rem sk m2(1) g view by (intro exI [of _ m1] exI [of _ ?po] exI [of _ ?fin] exI [of _ m2]) simp
qed

lemma get_data:
  assumes inv: "handles_inv (heap s)" and view: "messages (heap s) h = Some (rq, rsp)"
    and place: "h < MEMORY_HANDLE_MAX (heap s) \<or> 9 \<le> span (heap s) h"
    and env: "reply_arrives s ms (data_reply pre dat) rest" and avail: "room_for_request (heap s) h" and pre: "length pre = 4"
  shows "\<exists>s'. send_sync_request_to_central_unit_to_get_data s h dev_id = Some s' \<and>
    answered s h (fetch_request dev_id) ms dat rest s'"
proof -
  have hinv: "heap_inv (heap s)" and c: "content (heap s) h = Some (rq, rsp)"
    using inv messages_content [OF view] by (simp_all add: handles_inv_def)
  from free_effect [OF hinv c] obtain m0 where m0: "zepto_parser_free_memory (heap s) h = Some m0" and g0: "grown (heap s) h ([], []) m0" by blast
  have inv0: "handles_inv m0" "messages m0 = (messages (heap s))(h \<mapsto> ([], []))" "MEMORY_HANDLE_MAX m0 = MEMORY_HANDLE_MAX (heap s)"
    using grown_messages [OF g0 inv] view by simp_all
  have fs0: "free_space m0 = free_space (heap s) + int (length rq) + int (length rsp)"
    using room_after [OF g0 hinv c] by simp
  have room: "178 \<le> free_space m0 + 1" using avail view fs0 by (simp add: room_for_request_def)
  have sp0: "span m0 h = span (heap s) h" by (rule free_span [OF hinv c m0])
  have view0: "messages m0 h = Some ([], [])"
    and r4: "front_room m0 h (int (length (fetch_request dev_id))) (int (length ([] :: u8 list))) (int (length ([] :: u8 list)))"
    using inv0 place room sp0 by (auto simp: fetch_request_def front_room_def)
  have f4: "int (length (fetch_request dev_id)) = 4" by (simp add: fetch_request_def)
  obtain p m1 B m2 where m2:
    "memory_object_prepend m0 h 4 = Some (p, m1)" "mem_store BASE_MEM_BLOCK_SIZE (BASE_MEM_BLOCK m1) p (fetch_request dev_id) = Some B"
    "zepto_response_to_request (set_block m1 B) h = Some m2" "handles_inv m2"
    "messages m2 = (messages m0)(h \<mapsto> (fetch_request dev_id, []))" "MEMORY_HANDLE_MAX m2 = MEMORY_HANDLE_MAX m0"
    "free_space m2 = free_space m0 - 4" "4 \<le> span m0 h \<longrightarrow> span m2 h = span m0 h"
    by (rule prefixed_request [OF inv0(1) view0 r4, unfolded f4 append_Nil2 list.size int_ops(1) add_0_right])
  let ?s = "s\<lparr>heap := m2\<rparr>"
  have "messages m2 = (messages (heap s))(h \<mapsto> (fetch_request dev_id, []))"
    unfolding m2(5) inv0(2) by (simp only: fun_upd_upd)
  then have msg2: "messages (heap ?s) = (messages (heap s))(h \<mapsto> (fetch_request dev_id, []))" by simp
  have roomy: "room_for_request (heap ?s) h"
    using avail room m2(6,7) inv0(3) msg2 by (auto simp: room_for_request_def MEMORY_HANDLE_ACQUIRABLE_START_def fetch_request_def)
  have front: "front_room (heap ?s) h 5 (int (length ([] :: u8 list))) (int (length (fetch_request dev_id)))"
    using place room m2(6-8) sp0 inv0(3) by (auto simp: front_room_def fetch_request_def)
  have "reply_arrives ?s ms (data_reply pre dat) rest" using env by (simp add: reply_arrives_def ready_def)
  from sync_request [of ?s h "fetch_request dev_id" "[]", OF _ _ front this roomy] obtain s1 where
    s1: "internal_send_sync_request_to_central_unit ?s h = Some s1"
    and ans: "answered ?s h (fetch_request dev_id) ms (data_reply pre dat) rest s1"
    using m2(4) msg2 by auto
  have inv1: "handles_inv (heap s1)" "messages (heap s1) h = Some ([], data_reply pre dat)"
    using ans by (simp_all add: answered_def)
  have small: "length dat < 65530" using env data_reply_parts(1) [OF pre, of dat] by (simp add: reply_arrives_def)
  from strip_data_reply [OF inv1 pre small] obtain m3 po po1 m4 where
    r: "zepto_response_to_request (heap s1) h = Some m3" "zepto_parser_init m3 h = Some po"
    "zepto_parse_read_block m3 po 6 = Some (Some (take 6 (data_reply pre dat)), po\<lparr>offset := 6\<rparr>)"
    "zepto_parser_init_by_parser m3 (po\<lparr>offset := 6\<rparr>) = Some (po\<lparr>offset := 6\<rparr>)"
    "zepto_parsing_remaining_bytes m3 (po\<lparr>offset := 6\<rparr>) = Some (int (length dat), po\<lparr>offset := 6\<rparr>)"
    "zepto_parse_skip_block m3 (po\<lparr>offset := 6\<rparr>) (int (length dat)) = Some (True, po1)"
    "zepto_convert_part_of_request_to_response m3 h (po\<lparr>offset := 6\<rparr>) po1 =
      Some (m4, po\<lparr>offset := 6, mem_handle := None\<rparr>, po1\<lparr>mem_handle := None\<rparr>)"
    and m4: "handles_inv m4" "MEMORY_HANDLE_MAX m4 = MEMORY_HANDLE_MAX (heap s1)" "messages m4 = (messages (heap s1))(h \<mapsto> ([], dat))"
    by metis
  have hinv1: "heap_inv (heap s1)" and c1: "content (heap s1) h = Some ([], data_reply pre dat)"
    using inv1 messages_content [OF inv1(2)] by (simp_all add: handles_inv_def)
  have run: "send_sync_request_to_central_unit_to_get_data s h dev_id = Some (s1\<lparr>heap := m4\<rparr>)"
    using m0 m2(1-3) s1 sizes_of_view(2) [OF hinv1 c1] r data_reply_parts [OF pre, of dat] small
    by (simp add: send_sync_request_to_central_unit_to_get_data_def fetch_request_def join_bytes_u16)
  have "messages m4 = (messages (heap s))(h \<mapsto> ([], dat))"
    using m4(3) ans msg2 by (simp add: answered_def)
  then have "answered s h (fetch_request dev_id) ms dat rest (s1\<lparr>heap := m4\<rparr>)"
    using ans m4 m2(6) inv0(3) by (simp add: answered_def)
  with run show ?thesis by blast
qed

end
