(* ===== verification/Comm_Properties.thy ===== *)
theory Comm_Properties
  imports Sample_Heaps Sync_Request
begin

text \<open>
  The properties of the connection to the communication layer: framing over the stream, the queue
  of packets and the synchronous requests.
\<close>

section \<open>Frames\<close>

text \<open>A connection at which the properties are applied, with \<open>es\<close> still to arrive.\<close>

definition connection :: "mem \<Rightarrow> socket_event list \<Rightarrow> comm" where
  "connection m es = \<lparr>heap = m, incoming = es, buffer_in_with_cl_pos = 0, send_results = [], sent = [],
     select_results = [1, 1], select_timeouts = [], packets = [], sync_packet_id = 6, sync_status = 0\<rparr>"

text \<open>
  C18: What one side sends, the other side receives: the bytes handed to the system by
  \<open>send_within_master\<close>, however the stream splits them up and with whatever pauses, are read back by
  \<open>internal_try_get_message_within_master\<close> as the same message from the same bus, and the bytes that
  follow are left in the stream.
\<close>

theorem frame_roundtrip:
  assumes "heap_inv (heap a)" "content (heap a) h = Some (rq, rsp)" "h < MEMORY_HANDLE_MAX (heap a)"
    and "5 \<le> free_space (heap a) + int (length rsp)" "send_results a = []"
    and "length rq \<le> 80" "rq \<noteq> [] \<or> rest \<noteq> []"
  shows "\<exists>a'. send_within_master a h bus_id kind = Some (COMMLAYER_RET_OK, a') \<and>
    sent a' = sent a @ [frame bus_id kind rq] \<and> content (heap a') = (content (heap a))(h \<mapsto> ([], [])) \<and>
    (\<forall>b g q p. heap_inv (heap b) \<longrightarrow> content (heap b) g = Some (q, p) \<longrightarrow>
      80 \<le> free_space (heap b) + int (length q) + int (length p) \<longrightarrow>
      quiet (incoming b) \<longrightarrow> stream_of (incoming b) = frame bus_id kind rq @ rest \<longrightarrow>
      (\<exists>b'. internal_try_get_message_within_master b g = Some (kind, Some bus_id, b') \<and>
        content (heap b') = (content (heap b))(g \<mapsto> ([], rq)) \<and> stream_of (incoming b') = rest))"
proof -
  have "front_room (heap a) h 5 (int (length rsp)) (int (length rq))" using assms(3,4) by (simp add: front_room_def)
  from send_frame [OF assms(1,2) this, of bus_id kind] obtain m where
    run: "send_within_master a h bus_id kind =
      Some (COMMLAYER_RET_OK, a\<lparr>sent := sent a @ [frame bus_id kind rq], heap := m\<rparr>)"
    and g: "grown (heap a) h ([], []) m"
    using assms(5) by (auto simp: sendto_def)
  have get: "\<exists>b'. internal_try_get_message_within_master b g = Some (kind, Some bus_id, b') \<and>
        content (heap b') = (content (heap b))(g \<mapsto> ([], rq)) \<and> stream_of (incoming b') = rest"
    if "heap_inv (heap b)" "content (heap b) g = Some (q, p)" "80 \<le> free_space (heap b) + int (length q) + int (length p)"
      "quiet (incoming b)" "stream_of (incoming b) = frame bus_id kind rq @ rest" for b g q p
    using receive_frame [OF that assms(6,7)] grownD(2) by (fastforce simp: received_def)
  show ?thesis
    by (rule exI [of _ "a\<lparr>sent := sent a @ [frame bus_id kind rq], heap := m\<rparr>"])
      (use run grownD(2) [OF g] get in simp)
qed

theorem frame_roundtrip_witness:
  "(\<exists>a'. send_within_master (connection request_heap []) 0 2 37 = Some (COMMLAYER_RET_OK, a') \<and>
     sent a' = [[3, 0, 2, 0, 37, 1, 2, 3]]) \<and>
   (\<exists>b'. internal_try_get_message_within_master
        (connection message_heap [Arrived [3, 0, 2], Would_block, Arrived [0, 37, 1, 2], Arrived [3, 9]]) 1 = Some (37, Some 2, b') \<and>
      content (heap b') 1 = Some ([], [1, 2, 3]) \<and> stream_of (incoming b') = [9])"
proof -
  let ?b = "connection message_heap [Arrived [3, 0, 2], Would_block, Arrived [0, 37, 1, 2], Arrived [3, 9]]"
  have fr: "frame 2 37 [1, 2, 3] = [3, 0, 2, 0, 37, 1, 2, 3]" by code_simp
  from frame_roundtrip [of "connection request_heap []" 0 "[1, 2, 3]" "[]" "[9]" 2 37] request_heap
  have send: "\<exists>a'. send_within_master (connection request_heap []) 0 2 37 = Some (COMMLAYER_RET_OK, a') \<and>
      sent a' = [[3, 0, 2, 0, 37, 1, 2, 3]]"
    and get: "\<forall>b g q p. heap_inv (heap b) \<longrightarrow> content (heap b) g = Some (q, p) \<longrightarrow>
        80 \<le> free_space (heap b) + int (length q) + int (length p) \<longrightarrow>
        quiet (incoming b) \<longrightarrow> stream_of (incoming b) = frame 2 37 [1, 2, 3] @ [9] \<longrightarrow>
        (\<exists>b'. internal_try_get_message_within_master b g = Some (37, Some 2, b') \<and>
          content (heap b') = (content (heap b))(g \<mapsto> ([], [1, 2, 3])) \<and> stream_of (incoming b') = [9])"
    by (auto simp: connection_def fr)
  have "heap_inv (heap ?b)" "content (heap ?b) 1 = Some ([], [])" "80 \<le> free_space (heap ?b)"
    "quiet (incoming ?b)" "stream_of (incoming ?b) = frame 2 37 [1, 2, 3] @ [9]"
    using message_heap fresh_heap(4) [of 1] by (simp_all add: connection_def fr)
  with get [rule_format, of ?b 1 "[]" "[]"] obtain b' where
    "internal_try_get_message_within_master ?b 1 = Some (37, Some 2, b')"
    "content (heap b') = (content (heap ?b))(1 \<mapsto> ([], [1, 2, 3]))" "stream_of (incoming b') = [9]" by auto
  with send show ?thesis by simp
qed



section \<open>Synchronous requests\<close>

lemma acquired_messages:
  "messages acquired_heap 0 = Some ([], [])" "messages acquired_heap 3 = Some ([], [])" "4075 \<le> free_space acquired_heap"
  "MEMORY_HANDLE_ACQUIRABLE_START acquired_heap = 3"
  "messages acquired_heap 1 = Some ([], [])"
proof -
  from acquire_effect [OF fresh_heap(1)] acquired_heap(1) have a: "acquired fresh_heap 3 acquired_heap" by auto
  have "content fresh_heap 0 = Some ([], [])" "content fresh_heap 1 = Some ([], [])" using fresh_heap(4) by simp_all
  with a fresh_heap show "messages acquired_heap 0 = Some ([], [])" "messages acquired_heap 3 = Some ([], [])"
    "4075 \<le> free_space acquired_heap" "messages acquired_heap 1 = Some ([], [])"
    by (auto simp: acquired_def messages_def MEMORY_HANDLE_ACQUIRABLE_HANDLE_STORAGE_def sizeof_request_reply_mem_obj_def)
  show "MEMORY_HANDLE_ACQUIRABLE_START acquired_heap = 3"
    using acquired_heap(4) by (simp add: MEMORY_HANDLE_ACQUIRABLE_START_def)
qed


text \<open>The connection while a packet of bus 4, kind 36, comes before the reply.\<close>

definition answering :: "u8 list \<Rightarrow> comm" where
  "answering reply = connection acquired_heap [Arrived (frame 4 36 [5, 6] @ frame 7 57 reply)]"

lemma answering_ready:
  assumes "length reply \<le> 80" "reply \<noteq> []"
  shows "reply_arrives (answering reply) [(36, 4, [5, 6])] reply []"
    "handles_inv (heap (answering reply))" "messages (heap (answering reply)) 0 = Some ([], [])"
    "0 < MEMORY_HANDLE_MAX (heap (answering reply))" "room_for_request (heap (answering reply)) 0"
    "11 \<le> free_space (heap (answering reply))" "packets (answering reply) = []" "sync_packet_id (answering reply) = 6"
    "sent (answering reply) = []" "messages (heap (answering reply)) 1 = Some ([], [])"
  using assms acquired_messages acquired_heap(2,4)
  by (simp_all add: answering_def connection_def reply_arrives_def ready_def queue_ok_def frame_not_empty
      COMMLAYER_FROM_CU_STATUS_SYNC_RESPONSE_def room_for_request_def)

text \<open>
  C20: Fetching the stored data of a device: exactly one frame goes out, a fetch request under a new
  packet id, and when the reply with this id arrives, behind any other packets, the handle holds the
  data of the reply as its response, the other packets are in the queue in the order of their
  arrival, no other message has changed and the temporary handle is released.
\<close>

theorem stored_data_fetched:
  assumes "handles_inv (heap s)" "messages (heap s) h = Some (rq, rsp)" "h < MEMORY_HANDLE_MAX (heap s)"
    and "reply_arrives s ms (data_reply pre dat) rest" "room_for_request (heap s) h" "length pre = 4"
  shows "\<exists>s'. send_sync_request_to_central_unit_to_get_data s h dev_id = Some s' \<and>
    handles_inv (heap s') \<and> messages (heap s') = (messages (heap s))(h \<mapsto> ([], dat)) \<and>
    sent s' = sent s @ [frame (sync_packet_id s + 1) COMMLAYER_TO_CU_STATUS_SYNC_REQUEST (fetch_request dev_id)] \<and>
    sync_packet_id s' = sync_packet_id s + 1 \<and> queue_ok (packets s') \<and>
    map packet_of (packets s') = map packet_of (packets s) @ ms \<and> stream_of (incoming s') = rest"
  using get_data [OF assms(1,2) disjI1 [OF assms(3)] assms(4-6)] by (auto simp: answered_def)

theorem stored_data_fetched_witness:
  "\<exists>s'. send_sync_request_to_central_unit_to_get_data (answering (data_reply [0, 0, 0, 0] [1, 2, 3])) 0 0x0105 = Some s' \<and>
    messages (heap s') 0 = Some ([], [1, 2, 3]) \<and>
    sent s' = [[4, 0, 7, 0, 56, 1, 5, 1, 0]] \<and> map packet_of (packets s') = [(36, 4, [5, 6])]"
proof -
  let ?r = "data_reply [0, 0, 0, 0] [1, 2, 3]"
  have ok: "length ?r \<le> 80" "?r \<noteq> []" by (simp_all add: data_reply_def)
  have fr: "frame 7 COMMLAYER_TO_CU_STATUS_SYNC_REQUEST (fetch_request 0x0105) = [4, 0, 7, 0, 56, 1, 5, 1, 0]" by code_simp
  note r = answering_ready [OF ok]
  from stored_data_fetched [OF r(2-4,1,5), where dev_id = "0x0105"] r(7-9) fr show ?thesis by auto
qed

text \<open>
  Saving data: the frame sent carries the device, the size and the data that were the response
  of the handle, and the reply replaces them in the handle.
\<close>

lemma data_saved:
  assumes "handles_inv (heap s)" "messages (heap s) h = Some (rq, rsp)" "h < MEMORY_HANDLE_MAX (heap s)"
    and "11 \<le> free_space (heap s) + int (length rq)" "reply_arrives s ms reply rest" "room_for_request (heap s) h"
  shows "\<exists>s'. send_sync_request_to_central_unit_to_save_data s h dev_id = Some s' \<and>
    handles_inv (heap s') \<and> messages (heap s') = (messages (heap s))(h \<mapsto> ([], reply)) \<and>
    sent s' = sent s @ [frame (sync_packet_id s + 1) COMMLAYER_TO_CU_STATUS_SYNC_REQUEST
      ([REQUEST_TO_CU_WRITE_DATA, ucast dev_id, ucast (drop_bit 8 dev_id), 0,
        ucast (u16_of (int (length rsp))), ucast (drop_bit 8 (u16_of (int (length rsp))))] @ rsp)] \<and>
    map packet_of (packets s') = map packet_of (packets s) @ ms"
proof -
  have "front_room (heap s) h 11 (int (length rq)) (int (length rsp))" using assms(3,4) by (simp add: front_room_def)
  from save_data [OF assms(1,2) this assms(5,6), where dev_id = dev_id] show ?thesis
    by (auto simp: answered_def save_request_def)
qed

lemma data_saved_witness:
  "\<exists>s'. send_sync_request_to_central_unit_to_save_data (answering [1]) 0 0x0105 = Some s' \<and>
    messages (heap s') 0 = Some ([], [1]) \<and> sent s' = [[6, 0, 7, 0, 56, 0, 5, 1, 0, 0, 0]]"
proof -
  have fr: "frame 7 COMMLAYER_TO_CU_STATUS_SYNC_REQUEST [REQUEST_TO_CU_WRITE_DATA, 261, 1, 0, 0, 0] =
      [6, 0, 7, 0, 56, 0, 5, 1, 0, 0, 0]" by code_simp
  note r = answering_ready [of "[1]", simplified]
  have "11 \<le> free_space (heap (answering [1])) + int (length [])" using r(6) by simp
  from data_saved [OF r(2-4) this r(1,5), where dev_id = "0x0105"] r(8,9) fr show ?thesis
    by (auto simp: drop_bit_eq_div u16_of_def)
qed

text \<open>
  C21: No packet is lost or reordered by a request: the packets that arrived before the reply are
  the next ones \<open>try_get_message_within_master\<close> hands out, before anything that is still in the
  stream, and waiting for an event returns at once while there is one.
\<close>

theorem packets_before_reply_delivered:
  assumes "handles_inv (heap s)" "messages (heap s) h = Some (rq, rsp)" "h < MEMORY_HANDLE_MAX (heap s)"
    and "5 \<le> free_space (heap s) + int (length rsp)"
    and "reply_arrives s ((kind, bus_id, payload) # ms) reply rest" "room_for_request (heap s) h" "packets s = []"
  shows "\<exists>s1. internal_send_sync_request_to_central_unit s h = Some s1 \<and> messages (heap s1) h = Some ([], reply) \<and>
    wait_for_communication_event s1 w = Some (COMMLAYER_RET_FROM_CENTRAL_UNIT, s1) \<and>
    (\<forall>g. g < MEMORY_HANDLE_MAX (heap s1) \<longrightarrow> messages (heap s1) g = Some ([], []) \<longrightarrow>
      int (length payload) \<le> free_space (heap s1) \<longrightarrow>
      (\<exists>s2. try_get_message_within_master s1 g = Some (kind, Some bus_id, s2) \<and>
        messages (heap s2) = (messages (heap s1))(g \<mapsto> ([], payload)) \<and>
        map packet_of (packets s2) = ms \<and> stream_of (incoming s2) = rest))"
proof -
  have "front_room (heap s) h 5 (int (length rsp)) (int (length rq))" using assms(3,4) by (simp add: front_room_def)
  from sync_request [OF assms(1,2) this assms(5,6)] obtain s1 where run: "internal_send_sync_request_to_central_unit s h = Some s1"
    and ans: "answered s h rq ((kind, bus_id, payload) # ms) reply rest s1" by blast
  have q: "queue_ok (packets s1)" "map packet_of (packets s1) = (kind, bus_id, payload) # ms"
    using ans assms(7) by (simp_all add: answered_def)
  then have ne: "packets s1 \<noteq> []" by auto
  have get: "\<exists>s2. try_get_message_within_master s1 g = Some (kind, Some bus_id, s2) \<and>
      messages (heap s2) = (messages (heap s1))(g \<mapsto> ([], payload)) \<and>
      map packet_of (packets s2) = ms \<and> stream_of (incoming s2) = rest"
    if g: "g < MEMORY_HANDLE_MAX (heap s1)" "messages (heap s1) g = Some ([], [])" "int (length payload) \<le> free_space (heap s1)" for g
  proof -
    have inv: "heap_inv (heap s1)" "handles_inv (heap s1)" and c: "content (heap s1) g = Some ([], [])"
      using ans messages_content [OF g(2)] by (simp_all add: answered_def handles_inv_def)
    from queued_packet_first [OF inv(1) c g(1) q] g(3) obtain m q' where
      r: "try_get_message_within_master s1 g = Some (kind, Some bus_id, s1\<lparr>heap := m, packets := q'\<rparr>)"
      and m: "grown (heap s1) g ([], payload) m" "map packet_of q' = ms" by auto
    with grown_messages [OF m(1) inv(2)] g(2) ans show ?thesis by (simp add: answered_def)
  qed
  have "wait_for_communication_event s1 w = Some (COMMLAYER_RET_FROM_CENTRAL_UNIT, s1)"
    using ne by (simp add: wait_for_communication_event_def cscl_is_queued_packet_def)
  with run ans get show ?thesis by (auto simp: answered_def)
qed

theorem packets_before_reply_delivered_witness:
  "\<exists>s1. internal_send_sync_request_to_central_unit (answering [1, 2]) 0 = Some s1 \<and>
    wait_for_communication_event s1 \<lparr>wait_time_high_t = 0, wait_time_low_t = 100, wait_packet = 1\<rparr> =
      Some (COMMLAYER_RET_FROM_CENTRAL_UNIT, s1)"
proof -
  note r = answering_ready [of "[1, 2]", simplified]
  have "5 \<le> free_space (heap (answering [1, 2])) + int (length [])" using r(6) by simp
  from packets_before_reply_delivered [OF r(2-4) this r(1,5,7)] show ?thesis by blast
qed

end
