(* ===== verification/Connection_Setup.thy ===== *)
theory Connection_Setup
  imports Main
begin

text \<open>
  Opening and closing the connection to the communication layer (\<open>commstack_commlayer.c\<close>, the POSIX
  build). The results of the socket calls are inputs; the state is the descriptor the program
  remembers and the descriptors the system holds open for it.
\<close>

section \<open>Model\<close>

record socket_results =
  socket_result :: int
  bind_result :: int
  listen_result :: int
  accept_result :: int

record sockets =
  sock_with_cl :: int
  open_sockets :: "int list"

text \<open>A function returns, or the process exits.\<close>

datatype 'a outcome = Returns 'a | Exits

definition CLOSE_SOCKET :: "int \<Rightarrow> sockets \<Rightarrow> sockets" where
  "CLOSE_SOCKET x s = s\<lparr>open_sockets := removeAll x (open_sockets s)\<rparr>"

definition communication_preinitialize :: "sockets \<Rightarrow> bool \<times> sockets" where
  "communication_preinitialize s = (True, s)"

definition communication_with_comm_layer_initialize :: "socket_results \<Rightarrow> sockets \<Rightarrow> (bool \<times> sockets) outcome" where
  "communication_with_comm_layer_initialize r s = (
     let s = s\<lparr>sock_with_cl := socket_result r\<rparr> in
     if sock_with_cl s = -1 then Returns (False, s)
     else
       let s = s\<lparr>open_sockets := sock_with_cl s # open_sockets s\<rparr> in
       if bind_result r = -1 then Returns (False, CLOSE_SOCKET (sock_with_cl s) s)
       else if listen_result r = -1 then Returns (False, CLOSE_SOCKET (sock_with_cl s) s)
       else
         let sock_with_cl_accepted = accept_result r in
         if sock_with_cl_accepted < 0 then Exits
         else Returns (True, s\<lparr>open_sockets := sock_with_cl_accepted # open_sockets s,
                              sock_with_cl := sock_with_cl_accepted\<rparr>))"

definition communication_with_comm_layer_terminate :: "sockets \<Rightarrow> sockets" where
  "communication_with_comm_layer_terminate s = CLOSE_SOCKET (sock_with_cl s) s"

definition communication_initialize :: "socket_results \<Rightarrow> sockets \<Rightarrow> (bool \<times> sockets) outcome" where
  "communication_initialize r s = (case communication_preinitialize s of
     (ok, s) \<Rightarrow> if ok then communication_with_comm_layer_initialize r s else Returns (False, s))"

definition communication_terminate :: "sockets \<Rightarrow> sockets" where
  "communication_terminate s = communication_with_comm_layer_terminate s"

section \<open>Descriptors\<close>

text \<open>
  A failed set-up returns false with every socket it opened closed again (or ends the process
  when nothing can be accepted); a set-up that succeeds followed by the termination leaves the
  listening socket open, because the descriptor is overwritten by the accepted one.
\<close>

lemma setup_descriptors:
  assumes "socket_result r \<notin> set (open_sockets s)" "accept_result r \<notin> set (open_sockets s)"
    and "accept_result r \<noteq> socket_result r"
  shows "case communication_initialize r s of
      Exits \<Rightarrow> socket_result r \<noteq> -1 \<and> accept_result r < 0
    | Returns (False, s') \<Rightarrow> open_sockets s' = open_sockets s
    | Returns (True, s') \<Rightarrow> sock_with_cl s' = accept_result r \<and>
        open_sockets (communication_terminate s') = socket_result r # open_sockets s"
  using assms
  by (auto simp: communication_initialize_def communication_preinitialize_def Let_def CLOSE_SOCKET_def
      communication_with_comm_layer_initialize_def communication_terminate_def communication_with_comm_layer_terminate_def
      split: outcome.splits prod.splits bool.splits if_splits)

lemma setup_descriptors_witness:
  "open_sockets (communication_terminate \<lparr>sock_with_cl = 5, open_sockets = [5, 4]\<rparr>) = [4]"
  using setup_descriptors [of "\<lparr>socket_result = 4, bind_result = 0, listen_result = 0, accept_result = 5\<rparr>"
      "\<lparr>sock_with_cl = 0, open_sockets = []\<rparr>"]
  by (simp add: communication_initialize_def communication_preinitialize_def Let_def communication_with_comm_layer_initialize_def)

end
