(* ===== verification/Checksum.thy ===== *)
theory Checksum
  imports Prelude
begin

text \<open>
  The Fletcher checksums: \<open>update_fletcher_checksum16\<close>, \<open>update_fletcher_checksum_32\<close> and
  \<open>calculate_checksum\<close> of \<open>sa_eeprom.cpp\<close>, and the 16-bit one of the mesh tables. The code adds
  with an end-around carry on machine words; the reference is the sum modulo 255 (65535).
\<close>

section \<open>Model\<close>

definition update_fletcher_checksum16 :: "u8 \<Rightarrow> u16 \<Rightarrow> u16" where
  "update_fletcher_checksum16 bt state = (
     let tmp = (ucast state :: u8);
         tmp1 = (ucast (drop_bit 8 state) :: u8);
         tmp = tmp + bt;
         tmp = (if tmp < bt then tmp + 1 else tmp);
         tmp = (if tmp = 0xFF then 0 else tmp);
         tmp1 = tmp1 + tmp;
         tmp1 = (if tmp1 < tmp then tmp1 + 1 else tmp1);
         tmp1 = (if tmp1 = 0xFF then 0 else tmp1);
         state = (ucast tmp1 :: u16);
         state = push_bit 8 state
     in state + ucast tmp)"

text \<open>The state of the 32-bit checksum is an array of two 16-bit words.\<close>

definition update_fletcher_checksum_32 :: "u16 \<Rightarrow> u16 \<times> u16 \<Rightarrow> u16 \<times> u16" where
  "update_fletcher_checksum_32 wrd state = (
     let (s0, s1) = state;
         s0 = s0 + wrd;
         s0 = (if s0 < wrd then s0 + 1 else s0);
         s0 = (if s0 = 0xFFFF then 0 else s0);
         s1 = s1 + s0;
         s1 = (if s1 < s0 then s1 + 1 else s1);
         s1 = (if s1 = 0xFFFF then 0 else s1)
     in (s0, s1))"

text \<open>Two bytes read as a \<open>uint16_t\<close> on a little-endian machine; a last single byte is widened.\<close>

fun words_of :: "u8 list \<Rightarrow> u16 list" where
  "words_of (a # b # bs) = (push_bit 8 (ucast b) OR ucast a) # words_of bs"
| "words_of [a] = [ucast a]"
| "words_of [] = []"

definition u16_bytes :: "u16 \<Rightarrow> u8 list" where
  "u16_bytes w = [ucast w, ucast (drop_bit 8 w)]"

text \<open>\<open>calculate_checksum\<close> for the two values of \<open>EEPROM_CHECKSUM_SIZE\<close> the preprocessor accepts.\<close>

definition calculate_checksum :: "nat \<Rightarrow> u8 list \<Rightarrow> u8 list option" where
  "calculate_checksum checksum_size buff =
     (if checksum_size = 2 then Some (u16_bytes (fold update_fletcher_checksum16 buff 0))
      else if checksum_size = 4 then
        (let (s0, s1) = fold update_fletcher_checksum_32 (words_of buff) (0, 0)
         in Some (u16_bytes s0 @ u16_bytes s1))
      else None)"

definition init_checksum :: "nat \<Rightarrow> u8 list" where
  "init_checksum checksum_size = replicate checksum_size 0"

definition is_same_checksum :: "nat \<Rightarrow> u8 list \<Rightarrow> u8 list \<Rightarrow> bool" where
  "is_same_checksum checksum_size checksum1 checksum2 \<longleftrightarrow> take checksum_size checksum1 = take checksum_size checksum2"

section \<open>End-around carry\<close>

definition carry_add :: "'a::len word \<Rightarrow> 'a word \<Rightarrow> 'a word" where
  "carry_add x b = (
     let t = x + b;
         t = (if t < b then t + 1 else t)
     in if t = - 1 then 0 else t)"

text \<open>On reduced operands this is addition modulo the largest value.\<close>

lemma carry_add_mod:
  fixes x b :: "'a::len word"
  defines "M \<equiv> 2 ^ LENGTH('a) - 1 :: nat"
  assumes "unat x < M"
  shows "unat (carry_add x b) = (unat x + unat b) mod M" "unat (carry_add x b) < M"
proof -
  let ?N = "2 ^ LENGTH('a) :: nat"
  have N: "?N = M + 1" unfolding M_def by simp
  have b: "unat b < ?N" by (rule unsigned_less)
  have minus: "t = - 1 \<longleftrightarrow> unat t = M" for t :: "'a word"
    unfolding M_def by (metis mask_eq_exp_minus_1 unsigned_minus_1_eq_mask word_unat_eq_iff)
  show eq: "unat (carry_add x b) = (unat x + unat b) mod M"
  proof (cases "unat x + unat b < ?N")
    case True
    then have t: "unat (x + b) = unat x + unat b" by (simp add: unat_word_ariths)
    then have "\<not> x + b < b" by (simp add: word_less_nat_alt)
    then show ?thesis
      using t True N assms(2) by (auto simp: carry_add_def Let_def minus mod_less)
  next
    case False
    have sum: "unat x + unat b = ?N + (unat x + unat b - ?N)" using False by simp
    have small: "unat x + unat b - ?N < ?N" using assms(2) b N by simp
    have t: "unat (x + b) = unat x + unat b - ?N"
      using small sum by (metis unat_word_ariths(1) mod_add_self1 mod_less)
    have less: "x + b < b" using t False assms(2) N by (simp add: word_less_nat_alt)
    have t1: "unat (x + b + 1) = unat x + unat b - M"
    proof -
      have "unat (x + b + 1) = (unat (x + b) + 1) mod ?N" by (simp add: unat_word_ariths)
      then show ?thesis using t False N assms(2) b by simp
    qed
    have "unat x + unat b - M < M" using assms(2) b N by simp
    moreover have "(unat x + unat b) mod M = unat x + unat b - M"
      using calculation False N by (simp add: le_mod_geq)
    ultimately show ?thesis using less t1 by (auto simp: carry_add_def Let_def minus)
  qed
  show "unat (carry_add x b) < M" unfolding eq using assms(2) by simp
qed

section \<open>The reference\<close>

text \<open>Two running sums modulo \<open>M\<close>.\<close>

definition fletcher_step :: "nat \<Rightarrow> nat \<Rightarrow> nat \<times> nat \<Rightarrow> nat \<times> nat" where
  "fletcher_step M b s = ((fst s + b) mod M, (snd s + (fst s + b) mod M) mod M)"

text \<open>Their closed form: the sum of the items, and the sum weighted by the position from the end.\<close>

fun weighted_sum :: "nat list \<Rightarrow> nat" where
  "weighted_sum [] = 0"
| "weighted_sum (b # bs) = Suc (length bs) * b + weighted_sum bs"

lemma fletcher_fold:
  "fold (fletcher_step M) bs (a mod M, c mod M) =
    ((a + sum_list bs) mod M, (c + length bs * a + weighted_sum bs) mod M)"
proof (induction bs arbitrary: a c)
  case (Cons b bs)
  have "fletcher_step M b (a mod M, c mod M) = ((a + b) mod M, (c + a + b) mod M)"
    by (simp add: fletcher_step_def mod_simps add.assoc)
  then show ?case
    using Cons.IH [of "a + b" "c + a + b"] by (simp add: algebra_simps)
qed simp

section \<open>The code computes the reference\<close>

lemma all_ones: "(0xFF :: u8) = - 1" "(0xFFFF :: u16) = - 1"
  by simp_all

lemma update_16_carry:
  "update_fletcher_checksum16 bt state =
    (let s0 = carry_add (ucast state) bt; s1 = carry_add (ucast (drop_bit 8 state)) s0
     in push_bit 8 (ucast s1) + ucast (s0 :: u8))"
  by (simp only: update_fletcher_checksum16_def carry_add_def Let_def all_ones)

lemma update_32_carry:
  "update_fletcher_checksum_32 wrd (s0, s1) = (carry_add s0 wrd, carry_add s1 (carry_add s0 wrd))"
  by (simp only: update_fletcher_checksum_32_def carry_add_def Let_def all_ones prod.case)

text \<open>A 16-bit state as its two bytes.\<close>

definition halves :: "u16 \<Rightarrow> nat \<times> nat" where
  "halves w = (unat (ucast w :: u8), unat (ucast (drop_bit 8 w) :: u8))"

lemma split_join:
  "ucast (push_bit 8 (ucast s1) + ucast s0 :: u16) = (s0 :: u8)"
  "ucast (drop_bit 8 (push_bit 8 (ucast s1) + ucast s0 :: u16)) = (s1 :: u8)"
proof -
  have or: "push_bit 8 (ucast s1) + ucast s0 = (push_bit 8 (ucast s1) OR ucast s0 :: u16)"
    by (rule disjunctive_add) (auto simp: bit_simps dest: bit_imp_le_length)
  show "ucast (push_bit 8 (ucast s1) + ucast s0 :: u16) = s0"
    "ucast (drop_bit 8 (push_bit 8 (ucast s1) + ucast s0 :: u16)) = s1"
    unfolding or by (rule bit_word_eqI; auto simp: bit_simps dest: bit_imp_le_length)+
qed

definition reduced :: "nat \<Rightarrow> nat \<times> nat \<Rightarrow> bool" where
  "reduced M s \<longleftrightarrow> fst s < M \<and> snd s < M"

lemma update_16_step:
  assumes "reduced 255 (halves state)"
  shows "halves (update_fletcher_checksum16 bt state) = fletcher_step 255 (unat bt) (halves state)"
    "reduced 255 (halves (update_fletcher_checksum16 bt state))"
proof -
  let ?s0 = "carry_add (ucast state) bt :: u8"
  let ?s1 = "carry_add (ucast (drop_bit 8 state)) ?s0 :: u8"
  have h: "halves (update_fletcher_checksum16 bt state) = (unat ?s0, unat ?s1)"
    by (simp add: update_16_carry halves_def split_join Let_def)
  have s0: "unat ?s0 = (unat (ucast state :: u8) + unat bt) mod 255" "unat ?s0 < 255"
    using carry_add_mod [of "ucast state :: u8" bt] assms by (simp_all add: reduced_def halves_def)
  have s1: "unat ?s1 = (unat (ucast (drop_bit 8 state) :: u8) + unat ?s0) mod 255" "unat ?s1 < 255"
    using carry_add_mod [of "ucast (drop_bit 8 state) :: u8" ?s0] assms by (simp_all add: reduced_def halves_def)
  show "halves (update_fletcher_checksum16 bt state) = fletcher_step 255 (unat bt) (halves state)"
    unfolding h using s0(1) s1(1) by (simp add: fletcher_step_def halves_def)
  show "reduced 255 (halves (update_fletcher_checksum16 bt state))"
    unfolding h using s0(2) s1(2) by (simp add: reduced_def)
qed

lemma fold_16:
  "reduced 255 (halves state) \<Longrightarrow>
    halves (fold update_fletcher_checksum16 bs state) = fold (fletcher_step 255) (map unat bs) (halves state)"
proof (induction bs arbitrary: state)
  case (Cons b bs)
  then show ?case using update_16_step [OF Cons.prems, of b] by simp
qed simp

lemma update_32_step:
  assumes "reduced 65535 (unat s0, unat s1)"
  shows "map_prod unat unat (update_fletcher_checksum_32 w (s0, s1)) = fletcher_step 65535 (unat w) (unat s0, unat s1)"
    "reduced 65535 (map_prod unat unat (update_fletcher_checksum_32 w (s0, s1)))"
proof -
  have c0: "unat (carry_add s0 w) = (unat s0 + unat w) mod 65535" "unat (carry_add s0 w) < 65535"
    using carry_add_mod [of s0 w] assms by (simp_all add: reduced_def)
  have c1: "unat (carry_add s1 (carry_add s0 w)) = (unat s1 + unat (carry_add s0 w)) mod 65535"
    "unat (carry_add s1 (carry_add s0 w)) < 65535"
    using carry_add_mod [of s1 "carry_add s0 w"] assms by (simp_all add: reduced_def)
  show "map_prod unat unat (update_fletcher_checksum_32 w (s0, s1)) = fletcher_step 65535 (unat w) (unat s0, unat s1)"
    using c0(1) c1(1) by (simp add: update_32_carry fletcher_step_def)
  show "reduced 65535 (map_prod unat unat (update_fletcher_checksum_32 w (s0, s1)))"
    using c0(2) c1(2) by (simp add: update_32_carry reduced_def)
qed

lemma fold_32:
  "reduced 65535 (map_prod unat unat s) \<Longrightarrow>
    map_prod unat unat (fold update_fletcher_checksum_32 ws s) =
    fold (fletcher_step 65535) (map unat ws) (map_prod unat unat s)"
proof (induction ws arbitrary: s)
  case (Cons w ws)
  then show ?case using update_32_step [of "fst s" "snd s" w] by (cases s) simp
qed simp

lemma fletcher_16:
  "halves (fold update_fletcher_checksum16 bs 0) =
    (sum_list (map unat bs) mod 255, weighted_sum (map unat bs) mod 255)"
proof -
  have "reduced 255 (halves 0)" "halves 0 = (0 mod 255, 0 mod 255)" by (simp_all add: reduced_def halves_def)
  then show ?thesis using fold_16 [of 0 bs] fletcher_fold [of 255 "map unat bs" 0 0] by simp
qed

lemma fletcher_32:
  "map_prod unat unat (fold update_fletcher_checksum_32 ws (0, 0)) =
    (sum_list (map unat ws) mod 65535, weighted_sum (map unat ws) mod 65535)"
proof -
  have "reduced 65535 (map_prod unat unat (0 :: u16, 0 :: u16))" by (simp add: reduced_def)
  then show ?thesis using fold_32 [of "(0, 0)" ws] fletcher_fold [of 65535 "map unat ws" 0 0] by simp
qed

end
