(* ===== verification/Time_Val.thy ===== *)
theory Time_Val
  imports Prelude
begin

text \<open>
  Time values in two 16-bit words and the operations on them (\<open>commstack_time_provider.h\<close>,
  \<open>sa_get_time\<close> of \<open>commstack_time_provider.c\<close>). The macros are functions on the value of their
  first argument.
\<close>

section \<open>Model\<close>

record sa_time_val =
  low_t :: u16
  high_t :: u16

definition sa_hal_time_val_copy_from :: "sa_time_val \<Rightarrow> sa_time_val \<Rightarrow> sa_time_val" where
  "sa_hal_time_val_copy_from t1 t2 = t1\<lparr>high_t := high_t t2, low_t := low_t t2\<rparr>"

definition sa_hal_time_val_is_less :: "sa_time_val \<Rightarrow> sa_time_val \<Rightarrow> bool" where
  "sa_hal_time_val_is_less t1 t2 =
     (if high_t t1 < high_t t2 then True
      else if high_t t2 < high_t t1 then False
      else low_t t1 < low_t t2)"

definition SA_TIME_LOAD_TICKS_FOR_1_SEC :: "sa_time_val \<Rightarrow> sa_time_val" where
  "SA_TIME_LOAD_TICKS_FOR_1_SEC x = x\<lparr>low_t := 1000, high_t := 0\<rparr>"

definition SA_TIME_INCREMENT_BY_TICKS :: "sa_time_val \<Rightarrow> sa_time_val \<Rightarrow> sa_time_val" where
  "SA_TIME_INCREMENT_BY_TICKS x y = (
     let x = x\<lparr>low_t := low_t x + low_t y\<rparr>;
         x = x\<lparr>high_t := high_t x + high_t y\<rparr>
     in x\<lparr>high_t := high_t x + (if low_t x < low_t y then 1 else 0)\<rparr>)"

definition SA_TIME_SUBTRACT_TICKS_OR_ZERO :: "sa_time_val \<Rightarrow> sa_time_val \<Rightarrow> sa_time_val" where
  "SA_TIME_SUBTRACT_TICKS_OR_ZERO x y =
     (if sa_hal_time_val_is_less x y then x\<lparr>low_t := 0, high_t := 0\<rparr>
      else
        let x = x\<lparr>low_t := low_t x - low_t y\<rparr>;
            x = x\<lparr>high_t := high_t x - high_t y\<rparr>
        in x\<lparr>high_t := high_t x - (if low_t x < low_t y then 1 else 0)\<rparr>)"

definition SA_TIME_MUL_TICKS_BY_2 :: "sa_time_val \<Rightarrow> sa_time_val" where
  "SA_TIME_MUL_TICKS_BY_2 x = (
     let tmp = drop_bit 15 (low_t x);
         x = x\<lparr>low_t := push_bit 1 (low_t x)\<rparr>
     in x\<lparr>high_t := push_bit 1 (high_t x) OR tmp\<rparr>)"

definition SA_TIME_MUL_TICKS_BY_1_AND_A_HALF :: "sa_time_val \<Rightarrow> sa_time_val" where
  "SA_TIME_MUL_TICKS_BY_1_AND_A_HALF x = (
     let lo = low_t x; hi = high_t x;
         tmp = high_t x AND 1;
         x = x\<lparr>low_t := drop_bit 15 (low_t x)\<rparr>;
         x = x\<lparr>low_t := low_t x OR push_bit 15 tmp\<rparr>;
         x = x\<lparr>high_t := push_bit 1 (high_t x) OR tmp\<rparr>;
         x = x\<lparr>low_t := low_t x + lo\<rparr>;
         x = x\<lparr>high_t := high_t x + hi\<rparr>
     in x\<lparr>high_t := high_t x + (if low_t x < lo then 1 else 0)\<rparr>)"

text \<open>\<open>getTick\<close> on the value of \<open>clock_gettime\<close> (seconds and nanoseconds), and the split of the tick.\<close>

definition getTick :: "nat \<Rightarrow> nat \<Rightarrow> u32" where
  "getTick tv_sec tv_nsec = of_nat (tv_nsec div 1000000) + of_nat (tv_sec * 1000)"

definition sa_get_time :: "u32 \<Rightarrow> sa_time_val" where
  "sa_get_time sys_t = \<lparr>low_t = ucast sys_t, high_t = ucast (drop_bit 16 sys_t)\<rparr>"

definition getTime :: "nat \<Rightarrow> nat \<Rightarrow> u16" where
  "getTime tv_sec tv_nsec = ucast (getTick tv_sec tv_nsec div 200)"

section \<open>Values\<close>

definition ticks :: "sa_time_val \<Rightarrow> int" where
  "ticks t = uint (high_t t) * 65536 + uint (low_t t)"

lemma u16_range: "0 \<le> uint (w :: u16)" "uint (w :: u16) < 65536"
  using uint_lt2p [of w] by simp_all

lemma ticks_range: "0 \<le> ticks t" "ticks t < 4294967296"
  using u16_range [of "high_t t"] u16_range [of "low_t t"] by (simp_all add: ticks_def)

lemma ticks_inject:
  assumes "ticks s = ticks t" "sa_time_val.more s = sa_time_val.more t"
  shows "s = t"
proof -
  have "uint (high_t t) = ticks t div 65536 \<and> uint (low_t t) = ticks t mod 65536" for t :: sa_time_val
    using u16_range [of "low_t t"] by (simp add: ticks_def)
  then have "uint (high_t s) = uint (high_t t)" "uint (low_t s) = uint (low_t t)"
    using assms(1) by simp_all
  then show ?thesis using assms(2) by (auto simp: word_uint_eq_iff)
qed

lemma mod_helpers:
  fixes a h l :: int
  shows "65536 \<le> a \<Longrightarrow> a < 131072 \<Longrightarrow> a mod 65536 = a - 65536"
    "- 65536 \<le> a \<Longrightarrow> a < 0 \<Longrightarrow> a mod 65536 = a + 65536"
    "0 \<le> l \<Longrightarrow> l < 65536 \<Longrightarrow> (h * 65536 + l) mod 4294967296 = h mod 65536 * 65536 + l"
proof -
  show "a mod 65536 = a - 65536" if "65536 \<le> a" "a < 131072"
    using that minus_mod_self2 [of a 65536] mod_pos_pos_trivial [of "a - 65536" 65536] by linarith
  show "a mod 65536 = a + 65536" if "- 65536 \<le> a" "a < 0"
    using that mod_add_self2 [of a 65536] mod_pos_pos_trivial [of "a + 65536" 65536] by linarith
  assume "0 \<le> l" "l < 65536"
  then show "(h * 65536 + l) mod 4294967296 = h mod 65536 * 65536 + l"
    using zmod_zmult2_eq [of 65536 "h * 65536 + l" 65536] by simp
qed

lemma is_less_ticks: "sa_hal_time_val_is_less s t \<longleftrightarrow> ticks s < ticks t"
proof -
  note r = u16_range [of "low_t s"] u16_range [of "low_t t"]
  consider "uint (high_t s) < uint (high_t t)" | "uint (high_t s) = uint (high_t t)"
    | "uint (high_t t) < uint (high_t s)" by linarith
  then show ?thesis
  proof cases
    case 1
    then have "sa_hal_time_val_is_less s t" by (simp add: sa_hal_time_val_is_less_def word_less_def)
    moreover have "ticks s < ticks t" using 1 r unfolding ticks_def by linarith
    ultimately show ?thesis by simp
  next
    case 2
    then show ?thesis by (simp add: sa_hal_time_val_is_less_def ticks_def word_less_def)
  next
    case 3
    then have "\<not> sa_hal_time_val_is_less s t" by (simp add: sa_hal_time_val_is_less_def word_less_def)
    moreover have "\<not> ticks s < ticks t" using 3 r unfolding ticks_def by linarith
    ultimately show ?thesis by simp
  qed
qed

lemma uint_add_u16: "uint (a + b :: u16) = (uint a + uint b) mod 65536"
  and uint_sub_u16: "uint (a - b :: u16) = (uint a - uint b) mod 65536"
  by (simp_all add: uint_word_ariths)

lemma carry_u16: "(a + b < (b :: u16)) \<longleftrightarrow> 65536 \<le> uint a + uint b"
proof -
  note r = u16_range [of a] u16_range [of b]
  show ?thesis
  proof (cases "uint a + uint b < 65536")
    case True
    then show ?thesis using r by (simp add: word_less_def uint_add_u16)
  next
    case False
    then have "(uint a + uint b) mod 65536 = uint a + uint b - 65536"
      using r mod_helpers(1) [of "uint a + uint b"] by linarith
    then show ?thesis using r False by (simp add: word_less_def uint_add_u16)
  qed
qed

lemma increment_ticks: "ticks (SA_TIME_INCREMENT_BY_TICKS x y) = (ticks x + ticks y) mod 4294967296"
proof -
  let ?l = "uint (low_t x) + uint (low_t y)" and ?h = "uint (high_t x) + uint (high_t y)"
  let ?c = "if 65536 \<le> ?l then 1 else 0 :: int"
  note r = u16_range [of "low_t x"] u16_range [of "low_t y"]
  have "uint (if low_t x + low_t y < low_t y then 1 else 0 :: u16) = ?c"
    by (simp add: carry_u16)
  then have hi: "uint (high_t (SA_TIME_INCREMENT_BY_TICKS x y)) = (?h + ?c) mod 65536"
    by (simp add: SA_TIME_INCREMENT_BY_TICKS_def Let_def uint_add_u16 mod_simps)
  have lo: "uint (low_t (SA_TIME_INCREMENT_BY_TICKS x y)) = ?l - 65536 * ?c"
    using r mod_helpers(1) [of ?l] by (simp add: SA_TIME_INCREMENT_BY_TICKS_def Let_def uint_add_u16)
  have "ticks x + ticks y = (?h + ?c) * 65536 + (?l - 65536 * ?c)" by (simp add: ticks_def algebra_simps)
  moreover have "0 \<le> ?l - 65536 * ?c" "?l - 65536 * ?c < 65536" using r by auto
  ultimately have "(ticks x + ticks y) mod 4294967296 = (?h + ?c) mod 65536 * 65536 + (?l - 65536 * ?c)"
    using mod_helpers(3) [of "?l - 65536 * ?c" "?h + ?c"] by (simp only:)
  then show ?thesis unfolding ticks_def [of "SA_TIME_INCREMENT_BY_TICKS x y"] hi lo by simp
qed

text \<open>
  Subtraction tests for the borrow after the low words have been subtracted, against the
  subtrahend: the result is too small by 65536 ticks when the test is wrong.
\<close>

definition borrow_tested :: "sa_time_val \<Rightarrow> sa_time_val \<Rightarrow> bool" where
  "borrow_tested x y \<longleftrightarrow> (uint (low_t x) - uint (low_t y)) mod 65536 < uint (low_t y)"

definition borrow_needed :: "sa_time_val \<Rightarrow> sa_time_val \<Rightarrow> bool" where
  "borrow_needed x y \<longleftrightarrow> uint (low_t x) < uint (low_t y)"

lemma subtract_ticks:
  "ticks (SA_TIME_SUBTRACT_TICKS_OR_ZERO x y) =
    (if ticks x < ticks y then 0
     else (ticks x - ticks y + 65536 * (of_bool (borrow_needed x y) - of_bool (borrow_tested x y))) mod 4294967296)"
proof (cases "ticks x < ticks y")
  case True
  then show ?thesis by (simp add: SA_TIME_SUBTRACT_TICKS_OR_ZERO_def is_less_ticks ticks_def)
next
  case False
  let ?l = "uint (low_t x) - uint (low_t y)" and ?h = "uint (high_t x) - uint (high_t y)"
  let ?b = "of_bool (borrow_tested x y) :: int"
  note r = u16_range [of "low_t x"] u16_range [of "low_t y"]
  have "uint (if low_t x - low_t y < low_t y then 1 else 0 :: u16) = ?b"
    by (simp add: borrow_tested_def word_less_def uint_sub_u16)
  then have hi: "uint (high_t (SA_TIME_SUBTRACT_TICKS_OR_ZERO x y)) = (?h - ?b) mod 65536"
    using False by (simp add: SA_TIME_SUBTRACT_TICKS_OR_ZERO_def is_less_ticks Let_def uint_sub_u16 mod_simps)
  have lo: "uint (low_t (SA_TIME_SUBTRACT_TICKS_OR_ZERO x y)) = ?l + 65536 * of_bool (borrow_needed x y)"
  proof -
    have "?l mod 65536 = ?l + 65536 * of_bool (borrow_needed x y)"
    proof (cases "?l < 0")
      case True
      have "?l mod 65536 = ?l + 65536" by (rule mod_helpers(2)) (use True r in linarith)+
      then show ?thesis using True by (simp add: borrow_needed_def)
    next
      case False
      have "?l mod 65536 = ?l" by (rule mod_pos_pos_trivial) (use False r in linarith)+
      then show ?thesis using False by (simp add: borrow_needed_def)
    qed
    then show ?thesis
      using False by (simp add: SA_TIME_SUBTRACT_TICKS_OR_ZERO_def is_less_ticks Let_def uint_sub_u16)
  qed
  have "ticks x - ticks y + 65536 * (of_bool (borrow_needed x y) - ?b) =
      (?h - ?b) * 65536 + (?l + 65536 * of_bool (borrow_needed x y))"
    by (simp add: ticks_def algebra_simps)
  moreover have "0 \<le> ?l + 65536 * of_bool (borrow_needed x y)" "?l + 65536 * of_bool (borrow_needed x y) < 65536"
    by (cases "uint (low_t x) < uint (low_t y)"; use r in \<open>simp add: borrow_needed_def; linarith\<close>)+
  ultimately have "(ticks x - ticks y + 65536 * (of_bool (borrow_needed x y) - ?b)) mod 4294967296 =
      (?h - ?b) mod 65536 * 65536 + (?l + 65536 * of_bool (borrow_needed x y))"
    using mod_helpers(3) [of "?l + 65536 * of_bool (borrow_needed x y)" "?h - ?b"] by (simp only:)
  then show ?thesis
    using False unfolding ticks_def [of "SA_TIME_SUBTRACT_TICKS_OR_ZERO x y"] hi lo by simp
qed

lemma uint_shift_1: "uint (push_bit 1 (w::u16)) = 2 * uint w mod 65536"
  by (simp add: push_bit_eq_mult uint_word_ariths mult.commute)

lemma uint_shift_down_15: "uint (drop_bit 15 (w::u16)) = uint w div 32768"
  by (simp add: drop_bit_eq_div uint_div)

lemma uint_shift_in: "uint (push_bit 1 h OR drop_bit 15 w :: u16) = (2 * uint h + uint w div 32768) mod 65536"
proof -
  have "\<not> bit (push_bit 1 h) n \<or> \<not> bit (drop_bit 15 w) n" for n
    unfolding bit_push_bit_iff bit_drop_bit_eq o_def using bit_imp_le_length [of w "15 + n"] by auto
  then have "push_bit 1 h OR drop_bit 15 w = push_bit 1 h + drop_bit 15 w" 
    by (rule disjunctive_add[symmetric])
  then show ?thesis by (simp only: uint_word_ariths uint_shift_1 uint_shift_down_15) (simp add: mod_simps)
qed

lemma double_mod: "(2 * l :: int) mod 65536 = 2 * l - 65536 * (l div 32768)"
  using minus_mult_div_eq_mod [of "2 * l" 65536] div_mult_mult1 [of 2 l 32768] by simp

lemma uint_low_half: "uint (ucast (t::u32) :: u16) = uint t mod 65536" by (simp add: unsigned_ucast_eq take_bit_eq_mod)

lemma uint_high_half: "uint (drop_bit 16 (t::u32)) = uint t div 65536" by (simp add: drop_bit_eq_div uint_div)

lemma mul_by_2_ticks: "ticks (SA_TIME_MUL_TICKS_BY_2 x) = 2 * ticks x mod 4294967296"
proof -
  let ?l = "uint (low_t x)" and ?h = "uint (high_t x)"
  note r = u16_range [of "low_t x"]
  have "2 * ticks x = (2 * ?h + ?l div 32768) * 65536 + 2 * ?l mod 65536"
    unfolding double_mod ticks_def by (simp add: algebra_simps)
  then have "2 * ticks x mod 4294967296 = (2 * ?h + ?l div 32768) mod 65536 * 65536 + 2 * ?l mod 65536"
    using mod_helpers(3) [of "2 * ?l mod 65536" "2 * ?h + ?l div 32768"] by simp
  then show ?thesis
    unfolding ticks_def [of "SA_TIME_MUL_TICKS_BY_2 x"]
    by (simp add: SA_TIME_MUL_TICKS_BY_2_def Let_def uint_shift_in [simplified] uint_shift_1 [simplified])
qed

lemma sa_get_time_ticks: "ticks (sa_get_time t) = uint t"
proof -
  have "0 \<le> uint t div 65536" "uint t div 65536 < 65536" using uint_lt2p [of t] uint_ge_0 [of t]
    by (simp_all only: pos_imp_zdiv_nonneg_iff div_less_iff_less_mult) simp_all
  then show ?thesis by (simp add: ticks_def sa_get_time_def uint_low_half uint_high_half [simplified])
qed

text \<open>
  The multiplication by 3/2 shifts the low word by 15 where it should shift by 1: a value below
  32768 ticks is returned unchanged.
\<close>

lemma mul_by_1_and_a_half_small: "high_t x = 0 \<Longrightarrow> low_t x < 32768 \<Longrightarrow> SA_TIME_MUL_TICKS_BY_1_AND_A_HALF x = x"
proof -
  assume "high_t x = 0" "low_t x < 32768"
  then have "drop_bit 15 (low_t x) = 0" by (simp add: drop_bit_eq_div word_arith_nat_div unat_div word_less_nat_alt)
  then show ?thesis using \<open>high_t x = 0\<close> by (simp add: SA_TIME_MUL_TICKS_BY_1_AND_A_HALF_def Let_def)
qed
end
