(* ===== verification/Mesh_Tables.thy ===== *)
theory Mesh_Tables
  imports Prelude
begin

text \<open>
  The route and link tables the root keeps of every device (\<open>commstack_siot_mesh_support.cpp\<close>): the
  basic operations on them, their validation, and the interface \<open>sorted_table\<close> that is interpreted
  on both kinds of table. The structs \<open>SIOT_MESH_ROUTE\<close> and \<open>SIOT_MESH_LINK\<close> belong to the protocol
  library; the records have the members this program uses.
\<close>

section \<open>Data\<close>

record SIOT_MESH_ROUTE =
  rt_TARGET_ID :: u16
  rt_LINK_ID :: u16

record SIOT_MESH_LINK =
  lt_LINK_ID :: u16
  lt_BUS_ID :: u16
  lt_INTRA_BUS_ID :: u32
  lt_NEXT_HOP :: u16

type_synonym SIOT_M_ROUTE_TABLE_TYPE = "SIOT_MESH_ROUTE list"
type_synonym SIOT_M_LINK_TABLE_TYPE = "SIOT_MESH_LINK list"

section \<open>Operations\<close>

text \<open>The loops run over the index and stop at the first entry that decides.\<close>

fun siot_mesh_at_root_add_or_update_route :: "SIOT_M_ROUTE_TABLE_TYPE \<Rightarrow> SIOT_MESH_ROUTE \<Rightarrow> SIOT_M_ROUTE_TABLE_TYPE" where
  "siot_mesh_at_root_add_or_update_route [] route = [route]"
| "siot_mesh_at_root_add_or_update_route (e # t) route =
     (if rt_TARGET_ID route < rt_TARGET_ID e then route # e # t
      else if rt_TARGET_ID route = rt_TARGET_ID e then e\<lparr>rt_LINK_ID := rt_LINK_ID route\<rparr> # t
      else e # siot_mesh_at_root_add_or_update_route t route)"

fun siot_mesh_at_root_remove_route :: "SIOT_M_ROUTE_TABLE_TYPE \<Rightarrow> u16 \<Rightarrow> SIOT_M_ROUTE_TABLE_TYPE" where
  "siot_mesh_at_root_remove_route [] target_id = []"
| "siot_mesh_at_root_remove_route (e # t) target_id =
     (if rt_TARGET_ID e = target_id then t else e # siot_mesh_at_root_remove_route t target_id)"

fun siot_mesh_at_root_add_or_update_link :: "SIOT_M_LINK_TABLE_TYPE \<Rightarrow> SIOT_MESH_LINK \<Rightarrow> SIOT_M_LINK_TABLE_TYPE" where
  "siot_mesh_at_root_add_or_update_link [] link = [link]"
| "siot_mesh_at_root_add_or_update_link (e # t) link =
     (if lt_LINK_ID link < lt_LINK_ID e then link # e # t
      else if lt_LINK_ID link = lt_LINK_ID e then link # t
      else e # siot_mesh_at_root_add_or_update_link t link)"

fun siot_mesh_at_root_remove_link :: "SIOT_M_LINK_TABLE_TYPE \<Rightarrow> u16 \<Rightarrow> SIOT_M_LINK_TABLE_TYPE" where
  "siot_mesh_at_root_remove_link [] link_id = []"
| "siot_mesh_at_root_remove_link (e # t) link_id =
     (if lt_LINK_ID e = link_id then t else e # siot_mesh_at_root_remove_link t link_id)"

text \<open>The first index that is smaller than the id found there.\<close>

fun first_free_link :: "nat \<Rightarrow> SIOT_M_LINK_TABLE_TYPE \<Rightarrow> nat option" where
  "first_free_link i [] = None"
| "first_free_link i (e # t) = (if i < unat (lt_LINK_ID e) then Some i else first_free_link (Suc i) t)"

text \<open>The id is written into the caller's link, which is returned with the table.\<close>

definition siot_mesh_at_root_insert_link ::
  "SIOT_M_LINK_TABLE_TYPE \<Rightarrow> SIOT_MESH_LINK \<Rightarrow> SIOT_MESH_LINK \<times> SIOT_M_LINK_TABLE_TYPE" where
  "siot_mesh_at_root_insert_link link_table link =
     (case first_free_link 0 link_table of
        Some i \<Rightarrow>
          let link = link\<lparr>lt_LINK_ID := of_nat i\<rparr>
          in (link, take i link_table @ link # drop i link_table)
      | None \<Rightarrow>
          let link = link\<lparr>lt_LINK_ID := (if link_table = [] then 0 else lt_LINK_ID (last link_table) + 1)\<rparr>
          in (link, link_table @ [link]))"

section \<open>The interface of a sorted table\<close>

definition ordered :: "('e \<Rightarrow> u16) \<Rightarrow> 'e list \<Rightarrow> bool" where
  "ordered key t \<longleftrightarrow> sorted_wrt (<) (map key t)"

definition table_map :: "('e \<Rightarrow> u16) \<Rightarrow> 'e list \<Rightarrow> (u16 \<rightharpoonup> 'e)" where
  "table_map key t = map_of (map (\<lambda>e. (key e, e)) t)"

lemma ordered_simps [simp]:
  "ordered key []" "ordered key (e # t) \<longleftrightarrow> (\<forall>a \<in> set t. key e < key a) \<and> ordered key t"
  "ordered key (s @ t) \<longleftrightarrow> ordered key s \<and> ordered key t \<and> (\<forall>a \<in> set s. \<forall>b \<in> set t. key a < key b)"
  by (auto simp: ordered_def sorted_wrt_append)

lemma table_map_simps [simp]:
  "table_map key [] = Map.empty" "table_map key (e # t) = (table_map key t)(key e \<mapsto> e)"
  by (simp_all add: table_map_def)

lemma table_map_None: "table_map key t k = None \<longleftrightarrow> k \<notin> key ` set t"
  by (induction t) auto

lemma dom_table_map: "dom (table_map key t) = key ` set t"
  using table_map_None [of key t] by (auto simp: dom_def)

text \<open>Sorted tables with the same entries are the same.\<close>

lemma table_map_inject:
  assumes "ordered key s" "ordered key t" "table_map key s = table_map key t"
  shows "s = t"
  using assms
proof (induction s arbitrary: t)
  case Nil
  then have "dom (table_map key t) = {}" by (simp flip: Nil.prems(3))
  then show ?case using dom_table_map [of key t] by simp
next
  case (Cons a s)
  have "key a \<in> key ` set t"
    unfolding dom_table_map [symmetric] Cons.prems(3) [symmetric] by (simp add: dom_def)
  then obtain b t' where t: "t = b # t'" by (cases t) auto
  have keys: "insert (key a) (key ` set s) = insert (key b) (key ` set t')"
    using arg_cong [OF Cons.prems(3), of dom] t by (simp only: dom_table_map) simp
  have "key a = key b"
  proof (rule ccontr)
    assume ne: "key a \<noteq> key b"
    from ne keys have "key a \<in> key ` set t'" by (metis insertE insertI1)
    moreover from ne keys have "key b \<in> key ` set s" by (metis insertE insertI1)
    ultimately have "key a \<in> key ` set t'" "key b \<in> key ` set s" .
    then have "key b < key a" "key a < key b" using Cons.prems(1,2) t by auto
    then show False by simp
  qed
  moreover from this have "a = b" using fun_cong [OF Cons.prems(3), of "key a"] t by simp
  moreover have "table_map key s = table_map key t'"
  proof
    fix k
    show "table_map key s k = table_map key t' k"
    proof (cases "k = key a")
      case True
      have "key a \<notin> key ` set s" "key a \<notin> key ` set t'" using Cons.prems(1,2) t \<open>key a = key b\<close> by auto
      then show ?thesis using table_map_None [of key] True by metis
    next
      case False
      then show ?thesis using fun_cong [OF Cons.prems(3), of k] t \<open>key a = key b\<close> by simp
    qed
  qed
  ultimately show ?case using Cons t by simp
qed

locale sorted_table =
  fixes key :: "'e \<Rightarrow> u16"
    and put :: "'e list \<Rightarrow> 'e \<Rightarrow> 'e list"
    and del :: "'e list \<Rightarrow> u16 \<Rightarrow> 'e list"
  assumes put_Nil: "put [] e = [e]"
    and put_Cons: "put (a # t) e =
      (if key e < key a then e # a # t else if key e = key a then e # t else a # put t e)"
    and del_Nil: "del [] k = []"
    and del_Cons: "del (a # t) k = (if key a = k then t else a # del t k)"
begin

lemma set_put: "set (put t e) \<subseteq> insert e (set t)" "e \<in> set (put t e)"
  by (induction t) (auto simp: put_Nil put_Cons)

lemma keys_put: "key ` set (put t e) = insert (key e) (key ` set t)"
  by (induction t) (auto simp: put_Nil put_Cons)

lemma put_ordered: "ordered key t \<Longrightarrow> ordered key (put t e)"
proof (induction t)
  case (Cons a t)
  then show ?case using set_put(1) [of t e] by (fastforce simp: put_Cons)
qed (simp add: put_Nil)

lemma put_map: "table_map key (put t e) = (table_map key t)(key e \<mapsto> e)"
  by (induction t) (auto simp: put_Nil put_Cons)

lemma set_del: "set (del t k) \<subseteq> set t"
  by (induction t) (auto simp: del_Nil del_Cons)

lemma del_ordered: "ordered key t \<Longrightarrow> ordered key (del t k)"
proof (induction t)
  case (Cons a t)
  then show ?case using set_del [of t k] by (auto simp: del_Cons)
qed (simp add: del_Nil)

lemma del_absent: "k \<notin> key ` set t \<Longrightarrow> del t k = t"
  by (induction t) (auto simp: del_Nil del_Cons)

lemma del_map: "ordered key t \<Longrightarrow> table_map key (del t k) = (table_map key t)(k := None)"
proof (induction t)
  case (Cons a t)
  then have "key a \<notin> key ` set t" by auto
  then show ?case using Cons table_map_None [of key t "key a"] by (auto simp: del_Cons)
qed (simp add: del_Nil)

lemma put_behind: "\<forall>a \<in> set s. key a < key e \<Longrightarrow> put (s @ t) e = s @ put t e"
  by (induction s) (auto simp: put_Cons)

lemma del_behind: "k \<notin> key ` set s \<Longrightarrow> del (s @ t) k = s @ del t k"
  by (induction s) (auto simp: del_Cons)

text \<open>What is put and removed again was not there before, or is lost.\<close>

lemma del_put: "ordered key t \<Longrightarrow> del (put t e) (key e) = del t (key e)"
  by (rule table_map_inject [of key]) (simp_all add: put_ordered del_ordered put_map del_map)

end

interpretation routes: sorted_table rt_TARGET_ID siot_mesh_at_root_add_or_update_route siot_mesh_at_root_remove_route
  by unfold_locales simp_all

interpretation links: sorted_table lt_LINK_ID siot_mesh_at_root_add_or_update_link siot_mesh_at_root_remove_link
  by unfold_locales simp_all

section \<open>A free link id\<close>

lemma ordered_ids_bound:
  assumes "ordered lt_LINK_ID t" "i < length t"
  shows "unat (lt_LINK_ID (t ! 0)) + i \<le> unat (lt_LINK_ID (t ! i))"
  using assms(2)
proof (induction i)
  case (Suc i)
  have "lt_LINK_ID (t ! i) < lt_LINK_ID (t ! Suc i)"
    using assms(1) Suc.prems by (simp add: ordered_def sorted_wrt_iff_nth_less)
  then show ?case using Suc by (simp add: word_less_nat_alt)
qed simp

lemma first_free_link_None:
  assumes "first_free_link n t = None" "ordered lt_LINK_ID t" "\<forall>e \<in> set t. n \<le> unat (lt_LINK_ID e)"
  shows "\<forall>i < length t. unat (lt_LINK_ID (t ! i)) = n + i"
  using assms
proof (induction n t rule: first_free_link.induct)
  case (2 n e t)
  then have e: "unat (lt_LINK_ID e) = n" and rest: "first_free_link (Suc n) t = None" by (auto split: if_splits)
  have "\<forall>a \<in> set t. Suc n \<le> unat (lt_LINK_ID a)" using 2(3) e by (auto simp: word_less_nat_alt)
  with 2 rest e have "\<forall>i < length t. unat (lt_LINK_ID (t ! i)) = Suc n + i" by simp
  with e show ?case by (auto simp: nth_Cons split: nat.splits)
qed simp

lemma first_free_link_Some:
  assumes "first_free_link n t = Some k" "ordered lt_LINK_ID t" "\<forall>e \<in> set t. n \<le> unat (lt_LINK_ID e)"
  shows "n \<le> k \<and> k < n + length t \<and> (\<forall>i < k - n. unat (lt_LINK_ID (t ! i)) = n + i) \<and>
    k < unat (lt_LINK_ID (t ! (k - n)))"
  using assms
proof (induction n t rule: first_free_link.induct)
  case (2 n e t)
  show ?case
  proof (cases "n < unat (lt_LINK_ID e)")
    case True
    then show ?thesis using 2 by simp
  next
    case False
    then have e: "unat (lt_LINK_ID e) = n" and rest: "first_free_link (Suc n) t = Some k" using 2 by auto
    have "\<forall>a \<in> set t. Suc n \<le> unat (lt_LINK_ID a)" using 2(3) e by (auto simp: word_less_nat_alt)
    with 2 rest e have IH: "Suc n \<le> k" "k < Suc n + length t" "\<forall>i < k - Suc n. unat (lt_LINK_ID (t ! i)) = Suc n + i"
      "k < unat (lt_LINK_ID (t ! (k - Suc n)))" by simp_all
    obtain d where d: "k = Suc n + d" using IH(1) le_Suc_ex by blast
    show ?thesis using IH(2-) e unfolding d by (auto simp: nth_Cons split: nat.splits)
  qed
qed simp

text \<open>The link gets the smallest id that is not in use, as long as there is one below 65536.\<close>

lemma insert_link_effect:
  assumes ord: "ordered lt_LINK_ID t" and room: "length t < 65536"
  shows "\<exists>k. siot_mesh_at_root_insert_link t link =
      (link\<lparr>lt_LINK_ID := k\<rparr>, siot_mesh_at_root_add_or_update_link t (link\<lparr>lt_LINK_ID := k\<rparr>)) \<and>
    k \<notin> lt_LINK_ID ` set t \<and> (\<forall>j < k. j \<in> lt_LINK_ID ` set t)"
proof (cases "first_free_link 0 t")
  case None
  note ids = first_free_link_None [OF None ord]
  let ?k = "of_nat (length t) :: u16"
  have k: "unat ?k = length t" using room by (simp add: unat_of_nat)
  have last: "(if t = [] then 0 else lt_LINK_ID (last t) + 1) = ?k"
  proof (cases "t = []")
    case False
    then have "unat (lt_LINK_ID (last t)) = length t - 1" using ids by (simp add: last_conv_nth)
    moreover have "of_nat (unat (lt_LINK_ID (last t))) = lt_LINK_ID (last t)" by simp
    ultimately have "lt_LINK_ID (last t) = of_nat (length t - 1)" by metis
    then have "lt_LINK_ID (last t) + 1 = of_nat (length t - 1) + (1 :: u16)" by simp
    also have "\<dots> = of_nat (Suc (length t - 1))" by simp
    also have "Suc (length t - 1) = length t" using False by simp
    finally show ?thesis using False by simp
  qed simp
  have below: "lt_LINK_ID e < ?k" if "e \<in> set t" for e
    using that ids k by (auto simp: in_set_conv_nth word_less_nat_alt)
  have "siot_mesh_at_root_add_or_update_link t (link\<lparr>lt_LINK_ID := ?k\<rparr>) = t @ [link\<lparr>lt_LINK_ID := ?k\<rparr>]"
    using links.put_behind [of t "link\<lparr>lt_LINK_ID := ?k\<rparr>" "[]"] below by (simp add: links.put_Nil)
  moreover have "j \<in> lt_LINK_ID ` set t" if "j < ?k" for j
  proof -
    have "unat j < length t" using that k by (simp add: word_less_nat_alt)
    then have "lt_LINK_ID (t ! unat j) = j" "t ! unat j \<in> set t" using ids by (simp_all add: word_unat_eq_iff)
    then show ?thesis by force
  qed
  moreover have "?k \<notin> lt_LINK_ID ` set t" using below by (metis imageE less_irrefl)
  ultimately show ?thesis using None last by (intro exI [of _ ?k]) (simp add: siot_mesh_at_root_insert_link_def Let_def)
next
  case (Some n)
  from first_free_link_Some [OF Some ord] have n: "n < length t" "\<forall>i < n. unat (lt_LINK_ID (t ! i)) = i"
    "n < unat (lt_LINK_ID (t ! n))" by simp_all
  let ?k = "of_nat n :: u16"
  have k: "unat ?k = n" using room n(1) by (simp add: unat_of_nat)
  have below: "lt_LINK_ID e < ?k" if "e \<in> set (take n t)" for e
    using that n(1,2) k by (auto simp: in_set_conv_nth word_less_nat_alt)
  have dr: "drop n t = t ! n # drop (Suc n) t" using n(1) by (simp add: Cons_nth_drop_Suc)
  have nk: "?k < lt_LINK_ID (t ! n)" using n(3) k by (simp add: word_less_nat_alt)
  have split: "t = take n t @ drop n t" by simp
  have "siot_mesh_at_root_add_or_update_link (take n t @ drop n t) (link\<lparr>lt_LINK_ID := ?k\<rparr>) =
      take n t @ link\<lparr>lt_LINK_ID := ?k\<rparr> # drop n t"
    using links.put_behind [of "take n t" "link\<lparr>lt_LINK_ID := ?k\<rparr>" "drop n t"] below nk
    by (simp add: dr del: append_take_drop_id)
  then have put: "siot_mesh_at_root_add_or_update_link t (link\<lparr>lt_LINK_ID := ?k\<rparr>) = take n t @ link\<lparr>lt_LINK_ID := ?k\<rparr> # drop n t"
    by simp
  have "?k \<notin> lt_LINK_ID ` set t"
  proof
    assume "?k \<in> lt_LINK_ID ` set t"
    then obtain e where e: "e \<in> set (take n t @ drop n t)" "lt_LINK_ID e = ?k" by auto
    have "ordered lt_LINK_ID (take n t @ t ! n # drop (Suc n) t)"
      using ord by (simp only: dr [symmetric] append_take_drop_id)
    then have above: "?k < lt_LINK_ID a" if "a \<in> set (drop n t)" for a using that nk dr by auto
    have "e \<in> set (take n t) \<or> e \<in> set (drop n t)" using e(1) by (simp only: set_append Un_iff)
    then show False using below [of e] above [of e] e(2) by (metis less_irrefl)
  qed
  moreover have "j \<in> lt_LINK_ID ` set t" if "j < ?k" for j
  proof -
    have "unat j < n" using that k by (simp add: word_less_nat_alt)
    then have "lt_LINK_ID (t ! unat j) = j" "t ! unat j \<in> set t" using n(1,2) by (simp_all add: word_unat_eq_iff)
    then show ?thesis by force
  qed
  ultimately show ?thesis using Some put by (intro exI [of _ ?k]) (simp add: siot_mesh_at_root_insert_link_def Let_def)
qed

end
