(* ===== verification/Mesh_Update.thy ===== *)
theory Mesh_Update
  imports Mesh_Tables Checksum Time_Val
begin

text \<open>
  Updates of the tables of a device (\<open>commstack_siot_mesh_support.cpp\<close>): the copies the root keeps,
  their validation and checksum, applying an update, and computing the update that turns the
  confirmed tables into the planned ones. An entry to remove carries only its id, as the comments
  of the two update structs say, so the structs are datatypes. The BTLE mode is not configured, the
  checks under \<open>SA_DEBUG\<close> are.
\<close>

section \<open>Data\<close>

record SIOT_MESH_DEVICE_ROUTE_AND_LINK_DATA =
  device_id :: u16
  is_retransmitter :: bool
  bus_id_max :: u16
  last_from_santa_request_id :: u16
  time_to_sent_next_from_santa :: sa_time_val
  from_santa_sequence_started :: bool
  siot_m_route_table_confirmed :: SIOT_M_ROUTE_TABLE_TYPE
  siot_m_link_table_confirmed :: SIOT_M_LINK_TABLE_TYPE
  siot_m_route_table_planned :: SIOT_M_ROUTE_TABLE_TYPE
  siot_m_link_table_planned :: SIOT_M_LINK_TABLE_TYPE
  bus_type_list :: "int list"

datatype SIOT_MESH_ROUTE_UPDATE = Add_Route SIOT_MESH_ROUTE | Remove_Route u16
datatype SIOT_MESH_LINK_UPDATE = Add_Link SIOT_MESH_LINK | Remove_Link u16

record SIOT_MESH_DEVICE_ROUTING_DATA_UPDATE =
  upd_device_id :: u16
  clear_tables_first :: bool
  siot_m_route_table_update :: "SIOT_MESH_ROUTE_UPDATE list"
  siot_m_link_table_update :: "SIOT_MESH_LINK_UPDATE list"
  upd_affected_routes :: "int list"

section \<open>Checksums\<close>

definition update_fletcher_checksum_16 :: "u8 \<Rightarrow> u16 \<Rightarrow> u16" where
  "update_fletcher_checksum_16 bt state = (
     let tmp = (ucast state :: u8);
         tmp1 = (ucast (drop_bit 8 state) :: u8);
         tmp = tmp + bt;
         tmp = (if tmp < bt then tmp + 1 else tmp);
         tmp = (if tmp = 0xFF then 0 else tmp);
         tmp1 = tmp1 + tmp;
         tmp1 = (if tmp1 < tmp then tmp1 + 1 else tmp1);
         tmp1 = (if tmp1 = 0xFF then 0 else tmp1);
         state = (ucast tmp1 :: u16);
         state = push_bit 8 state
     in state + ucast tmp)"

definition update_checksum_with_route_entry :: "SIOT_MESH_ROUTE \<Rightarrow> u16 \<Rightarrow> u16" where
  "update_checksum_with_route_entry rt state = (
     let state = update_fletcher_checksum_16 (ucast (rt_TARGET_ID rt)) state;
         state = update_fletcher_checksum_16 (ucast (drop_bit 8 (rt_TARGET_ID rt))) state;
         state = update_fletcher_checksum_16 (ucast (rt_LINK_ID rt)) state
     in update_fletcher_checksum_16 (ucast (drop_bit 8 (rt_LINK_ID rt))) state)"

definition update_checksum_with_link_entry :: "SIOT_MESH_LINK \<Rightarrow> u16 \<Rightarrow> u16" where
  "update_checksum_with_link_entry lt state = (
     let state = update_fletcher_checksum_16 (ucast (lt_LINK_ID lt)) state;
         state = update_fletcher_checksum_16 (ucast (drop_bit 8 (lt_LINK_ID lt))) state;
         state = update_fletcher_checksum_16 (ucast (lt_BUS_ID lt)) state;
         state = update_fletcher_checksum_16 (ucast (drop_bit 8 (lt_BUS_ID lt))) state;
         state = update_fletcher_checksum_16 (ucast (lt_NEXT_HOP lt)) state
     in update_fletcher_checksum_16 (ucast (drop_bit 8 (lt_NEXT_HOP lt))) state)"

text \<open>The number of entries is cut to 16 bits, and that many are visited.\<close>

definition calculate_table_checksum :: "SIOT_MESH_DEVICE_ROUTE_AND_LINK_DATA \<Rightarrow> u16" where
  "calculate_table_checksum dev_data = (
     let ret = 0;
         sz = u16_of (int (length (siot_m_route_table_confirmed dev_data)));
         ret = update_fletcher_checksum_16 (ucast sz) ret;
         ret = update_fletcher_checksum_16 (ucast (drop_bit 8 sz)) ret;
         ret = fold update_checksum_with_route_entry (take (unat sz) (siot_m_route_table_confirmed dev_data)) ret;
         sz = u16_of (int (length (siot_m_link_table_confirmed dev_data)));
         ret = update_fletcher_checksum_16 (ucast sz) ret;
         ret = update_fletcher_checksum_16 (ucast (drop_bit 8 sz)) ret
     in fold update_checksum_with_link_entry (take (unat sz) (siot_m_link_table_confirmed dev_data)) ret)"

section \<open>Validation\<close>

text \<open>The loops over neighbours, and the nested loops over routes and links.\<close>

fun neighbours_ordered :: "('e \<Rightarrow> u16) \<Rightarrow> 'e list \<Rightarrow> bool" where
  "neighbours_ordered key (a # b # t) \<longleftrightarrow> key a < key b \<and> neighbours_ordered key (b # t)"
| "neighbours_ordered key _ \<longleftrightarrow> True"

definition tables_valid :: "SIOT_M_ROUTE_TABLE_TYPE \<Rightarrow> SIOT_M_LINK_TABLE_TYPE \<Rightarrow> bool" where
  "tables_valid rt lt \<longleftrightarrow> neighbours_ordered rt_TARGET_ID rt \<and> neighbours_ordered lt_LINK_ID lt \<and>
     list_all (\<lambda>r. list_ex (\<lambda>l. rt_LINK_ID r = lt_LINK_ID l) lt) rt \<and>
     list_all (\<lambda>l. list_ex (\<lambda>r. rt_LINK_ID r = lt_LINK_ID l) rt) lt"

definition dbg_siot_mesh_at_root_validate_device_tables :: "SIOT_MESH_DEVICE_ROUTE_AND_LINK_DATA \<Rightarrow> unit option" where
  "dbg_siot_mesh_at_root_validate_device_tables data = do {
     assert (tables_valid (siot_m_route_table_confirmed data) (siot_m_link_table_confirmed data));
     assert (tables_valid (siot_m_route_table_planned data) (siot_m_link_table_planned data))
   }"

definition dbg_siot_mesh_at_root_validate_all_device_tables :: "SIOT_MESH_DEVICE_ROUTE_AND_LINK_DATA list \<Rightarrow> unit option" where
  "dbg_siot_mesh_at_root_validate_all_device_tables mesh_routing_data =
     assert (list_all (\<lambda>data. dbg_siot_mesh_at_root_validate_device_tables data = Some ()) mesh_routing_data)"

section \<open>Applying an update\<close>

text \<open>The loop \<open>for ( j ... )\<close> of an addition; no result when it ends without having applied it.\<close>

fun replace_or_insert_route :: "SIOT_M_ROUTE_TABLE_TYPE \<Rightarrow> SIOT_MESH_ROUTE \<Rightarrow> SIOT_M_ROUTE_TABLE_TYPE option" where
  "replace_or_insert_route [] route = None"
| "replace_or_insert_route (e # t) route =
     (if rt_TARGET_ID e = rt_TARGET_ID route then Some (e\<lparr>rt_LINK_ID := rt_LINK_ID route\<rparr> # t)
      else if rt_TARGET_ID route < rt_TARGET_ID e then Some (route # e # t)
      else map_option ((#) e) (replace_or_insert_route t route))"

fun replace_or_insert_link :: "SIOT_M_LINK_TABLE_TYPE \<Rightarrow> SIOT_MESH_LINK \<Rightarrow> SIOT_M_LINK_TABLE_TYPE option" where
  "replace_or_insert_link [] link = None"
| "replace_or_insert_link (e # t) link =
     (if lt_LINK_ID e = lt_LINK_ID link then Some (link # t)
      else if lt_LINK_ID link < lt_LINK_ID e then Some (link # e # t)
      else map_option ((#) e) (replace_or_insert_link t link))"

fun apply_route_update :: "SIOT_M_ROUTE_TABLE_TYPE \<Rightarrow> SIOT_MESH_ROUTE_UPDATE \<Rightarrow> SIOT_M_ROUTE_TABLE_TYPE option" where
  "apply_route_update t (Add_Route route) =
     (if t = [] \<or> rt_TARGET_ID route < rt_TARGET_ID (hd t) then Some (route # t)
      else case replace_or_insert_route t route of
        Some t \<Rightarrow> Some t
      | None \<Rightarrow> do {
          assert (t = [] \<or> rt_TARGET_ID (last t) < rt_TARGET_ID route);
          Some (t @ [route])
        })"
| "apply_route_update t (Remove_Route target_id) = do {
     assert (list_ex (\<lambda>e. rt_TARGET_ID e = target_id) t);
     Some (siot_mesh_at_root_remove_route t target_id)
   }"

fun apply_link_update :: "SIOT_M_LINK_TABLE_TYPE \<Rightarrow> SIOT_MESH_LINK_UPDATE \<Rightarrow> SIOT_M_LINK_TABLE_TYPE option" where
  "apply_link_update t (Add_Link link) =
     (if t = [] \<or> lt_LINK_ID link < lt_LINK_ID (hd t) then Some (link # t)
      else case replace_or_insert_link t link of
        Some t \<Rightarrow> Some t
      | None \<Rightarrow> do {
          assert (t = [] \<or> lt_LINK_ID (last t) < lt_LINK_ID link);
          Some (t @ [link])
        })"
| "apply_link_update t (Remove_Link link_id) = do {
     assert (list_ex (\<lambda>e. lt_LINK_ID e = link_id) t);
     Some (siot_mesh_at_root_remove_link t link_id)
   }"

text \<open>A loop over the entries of an update.\<close>

fun apply_each :: "('t \<Rightarrow> 'u \<Rightarrow> 't option) \<Rightarrow> 't \<Rightarrow> 'u list \<Rightarrow> 't option" where
  "apply_each f t [] = Some t"
| "apply_each f t (u # us) = do { t \<leftarrow> f t u; apply_each f t us }"

definition siot_mesh_at_root_apply_update_to_device_routing_data ::
  "SIOT_MESH_DEVICE_ROUTING_DATA_UPDATE \<Rightarrow> SIOT_MESH_DEVICE_ROUTE_AND_LINK_DATA \<Rightarrow>
   SIOT_MESH_DEVICE_ROUTE_AND_LINK_DATA option" where
  "siot_mesh_at_root_apply_update_to_device_routing_data update dev_data = do {
     assert (upd_device_id update = device_id dev_data);
     let dev_data = (if clear_tables_first update
       then dev_data\<lparr>siot_m_route_table_confirmed := [], siot_m_link_table_confirmed := []\<rparr> else dev_data);
     rt \<leftarrow> apply_each apply_route_update (siot_m_route_table_confirmed dev_data) (siot_m_route_table_update update);
     let dev_data = dev_data\<lparr>siot_m_route_table_confirmed := rt\<rparr>;
     lt \<leftarrow> apply_each apply_link_update (siot_m_link_table_confirmed dev_data) (siot_m_link_table_update update);
     Some (dev_data\<lparr>siot_m_link_table_confirmed := lt\<rparr>)
   }"

section \<open>The update that brings a device up to date\<close>

text \<open>
  The merging loops, on what is left of the two tables from \<open>i\<close> and \<open>j\<close>; the inner loop takes all
  planned entries with smaller ids, after which the same \<open>i\<close> is looked at again.
\<close>

function route_table_diff :: "SIOT_M_ROUTE_TABLE_TYPE \<Rightarrow> SIOT_M_ROUTE_TABLE_TYPE \<Rightarrow> SIOT_MESH_ROUTE_UPDATE list" where
  "route_table_diff [] ps = map Add_Route ps"
| "route_table_diff (c # cs) [] = map (\<lambda>c. Remove_Route (rt_TARGET_ID c)) (c # cs)"
| "route_table_diff (c # cs) (p # ps) =
     (if rt_TARGET_ID c < rt_TARGET_ID p then Remove_Route (rt_TARGET_ID c) # route_table_diff cs (p # ps)
      else if rt_TARGET_ID c = rt_TARGET_ID p then
        (if rt_LINK_ID c \<noteq> rt_LINK_ID p then [Add_Route p] else []) @ route_table_diff cs ps
      else map Add_Route (takeWhile (\<lambda>q. rt_TARGET_ID q < rt_TARGET_ID c) (p # ps)) @
        route_table_diff (c # cs) (dropWhile (\<lambda>q. rt_TARGET_ID q < rt_TARGET_ID c) (p # ps)))"
  by pat_completeness auto
termination
  by (relation "measure (\<lambda>(cs, ps). length cs + length ps)") (auto simp: less_Suc_eq_le length_dropWhile_le)

function link_table_diff :: "SIOT_M_LINK_TABLE_TYPE \<Rightarrow> SIOT_M_LINK_TABLE_TYPE \<Rightarrow> SIOT_MESH_LINK_UPDATE list" where
  "link_table_diff [] ps = map Add_Link ps"
| "link_table_diff (c # cs) [] = map (\<lambda>c. Remove_Link (lt_LINK_ID c)) (c # cs)"
| "link_table_diff (c # cs) (p # ps) =
     (if lt_LINK_ID c < lt_LINK_ID p then Remove_Link (lt_LINK_ID c) # link_table_diff cs (p # ps)
      else if lt_LINK_ID c = lt_LINK_ID p then
        (if c \<noteq> p then [Add_Link p] else []) @ link_table_diff cs ps
      else map Add_Link (takeWhile (\<lambda>q. lt_LINK_ID q < lt_LINK_ID c) (p # ps)) @
        link_table_diff (c # cs) (dropWhile (\<lambda>q. lt_LINK_ID q < lt_LINK_ID c) (p # ps)))"
  by pat_completeness auto
termination
  by (relation "measure (\<lambda>(cs, ps). length cs + length ps)") (auto simp: less_Suc_eq_le length_dropWhile_le)

text \<open>The entries are appended to those the update has; at the end the result is tried out.\<close>

definition siot_mesh_at_root_get_diff_as_update ::
  "SIOT_MESH_DEVICE_ROUTE_AND_LINK_DATA \<Rightarrow> SIOT_MESH_DEVICE_ROUTING_DATA_UPDATE \<Rightarrow>
   SIOT_MESH_DEVICE_ROUTING_DATA_UPDATE option" where
  "siot_mesh_at_root_get_diff_as_update dev_data update = do {
     let update = update\<lparr>upd_device_id := device_id dev_data, clear_tables_first := False\<rparr>;
     let update = update\<lparr>siot_m_route_table_update := siot_m_route_table_update update @
       route_table_diff (siot_m_route_table_confirmed dev_data) (siot_m_route_table_planned dev_data)\<rparr>;
     let update = update\<lparr>siot_m_link_table_update := siot_m_link_table_update update @
       link_table_diff (siot_m_link_table_confirmed dev_data) (siot_m_link_table_planned dev_data)\<rparr>;
     test_dev_data \<leftarrow> siot_mesh_at_root_apply_update_to_device_routing_data update dev_data;
     assert (siot_m_route_table_confirmed test_dev_data = siot_m_route_table_planned dev_data);
     assert (siot_m_link_table_confirmed test_dev_data = siot_m_link_table_planned dev_data);
     Some update
   }"

definition siot_mesh_at_root_build_full_update ::
  "SIOT_MESH_DEVICE_ROUTE_AND_LINK_DATA \<Rightarrow> SIOT_MESH_DEVICE_ROUTING_DATA_UPDATE \<Rightarrow>
   SIOT_MESH_DEVICE_ROUTING_DATA_UPDATE option" where
  "siot_mesh_at_root_build_full_update dev_data update = do {
     dbg_siot_mesh_at_root_validate_device_tables dev_data;
     let update = update\<lparr>clear_tables_first := True, upd_device_id := device_id dev_data,
       siot_m_route_table_update := [], siot_m_link_table_update := []\<rparr>;
     Some (update\<lparr>siot_m_route_table_update := map Add_Route (siot_m_route_table_planned dev_data),
       siot_m_link_table_update := map Add_Link (siot_m_link_table_planned dev_data)\<rparr>)
   }"

section \<open>The interface of a table with updates\<close>

locale table_diff = sorted_table key put del
  for key :: "'e \<Rightarrow> u16" and put :: "'e list \<Rightarrow> 'e \<Rightarrow> 'e list" and del :: "'e list \<Rightarrow> u16 \<Rightarrow> 'e list" +
  fixes add :: "'e \<Rightarrow> 'u" and remove :: "u16 \<Rightarrow> 'u"
    and step :: "'e list \<Rightarrow> 'u \<Rightarrow> 'e list option"
    and diff :: "'e list \<Rightarrow> 'e list \<Rightarrow> 'u list"
  assumes step_add: "ordered key t \<Longrightarrow> step t (add e) = Some (put t e)"
    and step_remove: "k \<in> key ` set t \<Longrightarrow> step t (remove k) = Some (del t k)"
    and diff_Nil: "diff [] ps = map add ps"
    and diff_rest: "diff (c # cs) [] = map (\<lambda>c. remove (key c)) (c # cs)"
    and diff_Cons: "diff (c # cs) (p # ps) =
      (if key c < key p then remove (key c) # diff cs (p # ps)
       else if key c = key p then (if c \<noteq> p then [add p] else []) @ diff cs ps
       else map add (takeWhile (\<lambda>q. key q < key c) (p # ps)) @ diff (c # cs) (dropWhile (\<lambda>q. key q < key c) (p # ps)))"
begin

lemma apply_each_append: "apply_each step t (us @ vs) = do { t \<leftarrow> apply_each step t us; apply_each step t vs }"
  by (induction us arbitrary: t) (simp_all split: Option.bind_split)

text \<open>Entries larger than all others are appended.\<close>

lemma add_all:
  assumes "ordered key (s @ cs)" "ordered key (s @ ps)" "\<forall>p \<in> set ps. \<forall>c \<in> set cs. key p < key c"
  shows "apply_each step (s @ cs) (map add ps) = Some (s @ ps @ cs)"
  using assms
proof (induction ps arbitrary: s)
  case (Cons p ps)
  have "put (s @ cs) p = s @ put cs p" using Cons.prems(2) by (intro put_behind) auto
  also have "put cs p = p # cs"
    using Cons.prems(3) by (cases cs) (auto simp: put_Nil put_Cons)
  finally have "step (s @ cs) (add p) = Some ((s @ [p]) @ cs)" using step_add [OF Cons.prems(1)] by simp
  moreover have "apply_each step ((s @ [p]) @ cs) (map add ps) = Some ((s @ [p]) @ ps @ cs)"
    using Cons.prems by (intro Cons.IH) auto
  ultimately show ?case by simp
qed simp

lemma remove_all:
  assumes "ordered key (s @ cs)"
  shows "apply_each step (s @ cs) (map (\<lambda>c. remove (key c)) cs) = Some s"
  using assms
proof (induction cs)
  case (Cons c cs)
  have "del (s @ c # cs) (key c) = s @ cs"
    using Cons.prems by (subst del_behind) (auto simp: del_Cons)
  then have "step (s @ c # cs) (remove (key c)) = Some (s @ cs)" by (simp add: step_remove)
  with Cons show ?case by simp
qed simp

text \<open>Whatever is common in front, the difference turns one sorted table into the other.\<close>

lemma diff_applied:
  assumes "ordered key (s @ cs)" "ordered key (s @ ps)"
  shows "apply_each step (s @ cs) (diff cs ps) = Some (s @ ps)"
  using assms
proof (induction "length cs + length ps" arbitrary: s cs ps rule: less_induct)
  case less
  show ?case
  proof (cases cs)
    case Nil
    then show ?thesis using add_all [of s "[]" ps] less.prems by (simp add: diff_Nil)
  next
    case c: (Cons c cs')
    show ?thesis
    proof (cases ps)
      case Nil
      then show ?thesis using remove_all [of s cs] less.prems by (simp add: c diff_rest)
    next
      case p: (Cons p ps')
      consider "key c < key p" | "key c = key p" | "key p < key c" by (metis linorder_neqE)
      then show ?thesis
      proof cases
        case 1
        have "del (s @ c # cs') (key c) = s @ cs'"
          using less.prems(1) c by (subst del_behind) (auto simp: del_Cons)
        then have "step (s @ cs) (remove (key c)) = Some (s @ cs')" by (simp add: step_remove c)
        moreover have "apply_each step (s @ cs') (diff cs' ps) = Some (s @ ps)"
          using less.prems c by (intro less.hyps) auto
        ultimately show ?thesis using 1 by (simp add: c p diff_Cons)
      next
        case 2
        have "put (s @ c # cs') p = s @ p # cs'"
          using less.prems(2) p 2 by (subst put_behind) (auto simp: put_Cons)
        then have "step (s @ cs) (add p) = Some ((s @ [p]) @ cs')" using step_add [OF less.prems(1)] c by simp
        then have "apply_each step (s @ cs) (if c \<noteq> p then [add p] else []) = Some ((s @ [p]) @ cs')"
          by (simp add: c)
        moreover have "apply_each step ((s @ [p]) @ cs') (diff cs' ps') = Some ((s @ [p]) @ ps')"
          using less.prems c p 2 by (intro less.hyps) auto
        ultimately show ?thesis using 2 by (simp add: c p diff_Cons apply_each_append)
      next
        case 3
        let ?new = "takeWhile (\<lambda>q. key q < key c) ps" and ?old = "dropWhile (\<lambda>q. key q < key c) ps"
        have ps: "ps = ?new @ ?old" by simp
        have new: "\<forall>q \<in> set ?new. key q < key c" by (auto dest: set_takeWhileD)
        have short: "length ?old < length ps" using 3 length_dropWhile_le [of _ ps'] by (simp add: p less_Suc_eq_le)
        have ord: "ordered key (s @ ?new @ ?old)" using less.prems(2) by simp
        then have ord_new: "ordered key (s @ ?new)"
          by (simp only: ordered_simps set_append ball_Un) blast
        have cs: "\<forall>b \<in> set cs. key c \<le> key b" using less.prems(1) c by auto
        have below: "\<forall>q \<in> set ?new. \<forall>b \<in> set cs. key q < key b" using new cs by (meson less_le_trans)
        have "apply_each step (s @ cs) (map add ?new) = Some ((s @ ?new) @ cs)"
          using add_all [OF less.prems(1) ord_new below] by simp
        moreover have "apply_each step ((s @ ?new) @ cs) (diff cs ?old) = Some ((s @ ?new) @ ?old)"
        proof (rule less.hyps)
          show "length cs + length ?old < length cs + length ps" using short by simp
          show "ordered key ((s @ ?new) @ cs)" using less.prems(1) ord_new below by auto
          show "ordered key ((s @ ?new) @ ?old)" using ord by simp
        qed
        moreover have "diff cs ps = map add ?new @ diff cs ?old"
          using 3 less_not_sym [OF 3] less_imp_neq [OF 3, THEN not_sym] unfolding c p diff_Cons by simp
        ultimately show ?thesis by (simp add: apply_each_append)
      qed
    qed
  qed
qed

text \<open>Adding a sorted table to an empty one.\<close>

lemma full_applied: "ordered key ps \<Longrightarrow> apply_each step [] (map add ps) = Some ps"
  using add_all [of "[]" "[]" ps] by simp

end

section \<open>Both tables are such tables\<close>

lemma replace_or_insert_route_put:
  "replace_or_insert_route t r =
     (if \<forall>e \<in> set t. rt_TARGET_ID e < rt_TARGET_ID r then None else Some (siot_mesh_at_root_add_or_update_route t r))"
  by (induction t) (auto simp: not_less_iff_gr_or_eq)

lemma replace_or_insert_link_put:
  "replace_or_insert_link t l =
     (if \<forall>e \<in> set t. lt_LINK_ID e < lt_LINK_ID l then None else Some (siot_mesh_at_root_add_or_update_link t l))"
  by (induction t) (auto simp: not_less_iff_gr_or_eq)

text \<open>On a sorted table the addition of an update is \<open>siot_mesh_at_root_add_or_update_route\<close> (\<open>_link\<close>).\<close>

lemma apply_add_route:
  assumes "ordered rt_TARGET_ID t"
  shows "apply_route_update t (Add_Route r) = Some (siot_mesh_at_root_add_or_update_route t r)"
proof (cases "t = [] \<or> rt_TARGET_ID r < rt_TARGET_ID (hd t)")
  case True
  then show ?thesis by (cases t) auto
next
  case False
  show ?thesis
  proof (cases "\<forall>e \<in> set t. rt_TARGET_ID e < rt_TARGET_ID r")
    case nothing: False
    then show ?thesis using False unfolding apply_route_update.simps replace_or_insert_route_put by auto
  next
    case above: True
    then have "siot_mesh_at_root_add_or_update_route t r = t @ [r]" "rt_TARGET_ID (last t) < rt_TARGET_ID r"
      using routes.put_behind [of t r "[]"] False by auto
    then show ?thesis using False above by (simp add: replace_or_insert_route_put)
  qed
qed

lemma apply_add_link:
  assumes "ordered lt_LINK_ID t"
  shows "apply_link_update t (Add_Link l) = Some (siot_mesh_at_root_add_or_update_link t l)"
proof (cases "t = [] \<or> lt_LINK_ID l < lt_LINK_ID (hd t)")
  case True
  then show ?thesis by (cases t) auto
next
  case False
  show ?thesis
  proof (cases "\<forall>e \<in> set t. lt_LINK_ID e < lt_LINK_ID l")
    case nothing: False
    then show ?thesis using False unfolding apply_link_update.simps replace_or_insert_link_put by auto
  next
    case above: True
    then have "siot_mesh_at_root_add_or_update_link t l = t @ [l]" "lt_LINK_ID (last t) < lt_LINK_ID l"
      using links.put_behind [of t l "[]"] False by auto
    then show ?thesis using False above by (simp add: replace_or_insert_link_put)
  qed
qed

lemma apply_remove_route:
  "k \<in> rt_TARGET_ID ` set t \<Longrightarrow> apply_route_update t (Remove_Route k) = Some (siot_mesh_at_root_remove_route t k)"
  by (auto simp: list_ex_iff)

lemma apply_remove_link:
  "k \<in> lt_LINK_ID ` set t \<Longrightarrow> apply_link_update t (Remove_Link k) = Some (siot_mesh_at_root_remove_link t k)"
  by (auto simp: list_ex_iff)

lemma route_differs: "rt_TARGET_ID c = rt_TARGET_ID p \<Longrightarrow> (rt_LINK_ID c \<noteq> rt_LINK_ID p) = (c \<noteq> p)"
  for c p :: SIOT_MESH_ROUTE
  by (cases c, cases p) auto

interpretation route_diff: table_diff rt_TARGET_ID siot_mesh_at_root_add_or_update_route siot_mesh_at_root_remove_route
    Add_Route Remove_Route apply_route_update route_table_diff
  by unfold_locales (simp_all only: apply_add_route apply_remove_route route_table_diff.simps route_differs cong: if_cong)

interpretation link_diff: table_diff lt_LINK_ID siot_mesh_at_root_add_or_update_link siot_mesh_at_root_remove_link
    Add_Link Remove_Link apply_link_update link_table_diff
  by unfold_locales (simp_all only: apply_add_link apply_remove_link link_table_diff.simps)

section \<open>Devices\<close>

definition tables_ordered :: "SIOT_MESH_DEVICE_ROUTE_AND_LINK_DATA \<Rightarrow> bool" where
  "tables_ordered d \<longleftrightarrow> ordered rt_TARGET_ID (siot_m_route_table_confirmed d) \<and>
     ordered lt_LINK_ID (siot_m_link_table_confirmed d) \<and>
     ordered rt_TARGET_ID (siot_m_route_table_planned d) \<and> ordered lt_LINK_ID (siot_m_link_table_planned d)"

definition confirmed_as_planned :: "SIOT_MESH_DEVICE_ROUTE_AND_LINK_DATA \<Rightarrow> SIOT_MESH_DEVICE_ROUTE_AND_LINK_DATA" where
  "confirmed_as_planned d = d\<lparr>siot_m_route_table_confirmed := siot_m_route_table_planned d,
     siot_m_link_table_confirmed := siot_m_link_table_planned d\<rparr>"

lemma diff_as_update:
  assumes "tables_ordered d" "siot_m_route_table_update u = []" "siot_m_link_table_update u = []"
  shows "\<exists>u'. siot_mesh_at_root_get_diff_as_update d u = Some u' \<and> upd_device_id u' = device_id d \<and>
    \<not> clear_tables_first u' \<and> upd_affected_routes u' = upd_affected_routes u \<and>
    siot_m_route_table_update u' = route_table_diff (siot_m_route_table_confirmed d) (siot_m_route_table_planned d) \<and>
    siot_m_link_table_update u' = link_table_diff (siot_m_link_table_confirmed d) (siot_m_link_table_planned d) \<and>
    siot_mesh_at_root_apply_update_to_device_routing_data u' d = Some (confirmed_as_planned d)"
  using route_diff.diff_applied [of "[]" "siot_m_route_table_confirmed d" "siot_m_route_table_planned d"]
    link_diff.diff_applied [of "[]" "siot_m_link_table_confirmed d" "siot_m_link_table_planned d"] assms
  by (simp add: siot_mesh_at_root_get_diff_as_update_def siot_mesh_at_root_apply_update_to_device_routing_data_def
      tables_ordered_def confirmed_as_planned_def)

lemma full_update:
  assumes "ordered rt_TARGET_ID (siot_m_route_table_planned d)" "ordered lt_LINK_ID (siot_m_link_table_planned d)"
    and "dbg_siot_mesh_at_root_validate_device_tables d = Some ()"
  shows "\<exists>u'. siot_mesh_at_root_build_full_update d u = Some u' \<and> upd_device_id u' = device_id d \<and>
    clear_tables_first u' \<and> upd_affected_routes u' = upd_affected_routes u \<and>
    siot_mesh_at_root_apply_update_to_device_routing_data u' d' =
      (if device_id d' = device_id d then Some (d'\<lparr>siot_m_route_table_confirmed := siot_m_route_table_planned d,
         siot_m_link_table_confirmed := siot_m_link_table_planned d\<rparr>) else None)"
  using route_diff.full_applied [of "siot_m_route_table_planned d"] link_diff.full_applied [of "siot_m_link_table_planned d"] assms
  by (simp add: assert_def siot_mesh_at_root_build_full_update_def siot_mesh_at_root_apply_update_to_device_routing_data_def)

text \<open>What the validation checks.\<close>

lemma neighbours_ordered_iff: "neighbours_ordered key t \<longleftrightarrow> ordered key t"
proof (induction key t rule: neighbours_ordered.induct)
  case (1 key a b t)
  then show ?case by (auto dest: less_trans)
qed simp_all

lemma tables_valid_iff:
  "tables_valid rt lt \<longleftrightarrow> ordered rt_TARGET_ID rt \<and> ordered lt_LINK_ID lt \<and> rt_LINK_ID ` set rt = lt_LINK_ID ` set lt"
proof -
  have "rt_LINK_ID ` set rt = lt_LINK_ID ` set lt \<longleftrightarrow>
      (\<forall>r \<in> set rt. \<exists>l \<in> set lt. rt_LINK_ID r = lt_LINK_ID l) \<and> (\<forall>l \<in> set lt. \<exists>r \<in> set rt. rt_LINK_ID r = lt_LINK_ID l)"
    by (rule iffI; force simp: image_iff set_eq_iff)
  then show ?thesis by (simp add: tables_valid_def neighbours_ordered_iff list_all_iff list_ex_iff)
qed

lemma validate_ordered: "dbg_siot_mesh_at_root_validate_device_tables d = Some () \<Longrightarrow> tables_ordered d"
  by (simp add: dbg_siot_mesh_at_root_validate_device_tables_def tables_valid_iff tables_ordered_def)

section \<open>The checksum of a device\<close>

definition route_bytes :: "SIOT_MESH_ROUTE \<Rightarrow> u8 list" where
  "route_bytes r = u16_bytes (rt_TARGET_ID r) @ u16_bytes (rt_LINK_ID r)"

definition link_bytes :: "SIOT_MESH_LINK \<Rightarrow> u8 list" where
  "link_bytes l = u16_bytes (lt_LINK_ID l) @ u16_bytes (lt_BUS_ID l) @ u16_bytes (lt_NEXT_HOP l)"

definition table_bytes :: "SIOT_M_ROUTE_TABLE_TYPE \<Rightarrow> SIOT_M_LINK_TABLE_TYPE \<Rightarrow> u8 list" where
  "table_bytes rt lt = u16_bytes (u16_of (int (length rt))) @ concat (map route_bytes rt) @
     u16_bytes (u16_of (int (length lt))) @ concat (map link_bytes lt)"

lemma fletcher_16_same: "update_fletcher_checksum_16 = update_fletcher_checksum16"
  by (intro ext) (simp add: update_fletcher_checksum_16_def update_fletcher_checksum16_def)

lemma route_entry_bytes: "update_checksum_with_route_entry r st = fold update_fletcher_checksum16 (route_bytes r) st"
  by (simp add: update_checksum_with_route_entry_def route_bytes_def u16_bytes_def fletcher_16_same)

lemma link_entry_bytes: "update_checksum_with_link_entry l st = fold update_fletcher_checksum16 (link_bytes l) st"
  by (simp add: update_checksum_with_link_entry_def link_bytes_def u16_bytes_def fletcher_16_same)

lemma fold_entries:
  assumes "\<And>e st. f e st = fold g (b e) st"
  shows "fold f es st = fold g (concat (map b es)) st"
  using assms by (induction es arbitrary: st) simp_all

lemma ordered_short:
  assumes "ordered key t"
  shows "length t < 65537"
proof -
  have "distinct (map key t)" using assms by (auto simp: ordered_def strict_sorted_iff)
  then have "length t = card (key ` set t)" using distinct_card [of "map key t"] by simp
  also have "\<dots> \<le> card (UNIV :: u16 set)" by (rule card_mono) simp_all
  finally show ?thesis by (simp add: card_word)
qed

lemma table_checksum:
  assumes "length (siot_m_route_table_confirmed d) < 65536" "length (siot_m_link_table_confirmed d) < 65536"
  shows "calculate_table_checksum d =
    fold update_fletcher_checksum16 (table_bytes (siot_m_route_table_confirmed d) (siot_m_link_table_confirmed d)) 0"
proof -
  have "unat (u16_of (int n)) = n" if "n < 65536" for n
    using that by (simp add: u16_of_def unat_of_nat)
  with assms show ?thesis
    by (simp add: calculate_table_checksum_def table_bytes_def u16_bytes_def Let_def fletcher_16_same
        fold_entries [of update_checksum_with_route_entry, OF route_entry_bytes]
        fold_entries [of update_checksum_with_link_entry, OF link_entry_bytes])
qed

end
