(* ===== verification/Mesh_Root.thy ===== *)
theory Mesh_Root
  imports Mesh_Update Packed_Numbers
begin

text \<open>
  The routing state of the root (\<open>commstack_siot_mesh_support.cpp\<close>): the list of devices, requests to
  the root's own tables, and the life of a table update from being planned, over being sent as a
  packet, to being confirmed or having failed. Constants and functions of the protocol library are
  the parameter \<open>mesh_lib\<close>.
\<close>

section \<open>State\<close>

text \<open>Return codes; their numbers belong to the protocol library.\<close>

datatype mesh_ret = SIOT_MESH_AT_ROOT_RET_OK | SIOT_MESH_AT_ROOT_RET_ALREADY_EXISTS | SIOT_MESH_AT_ROOT_RET_NOT_FOUND
  | SIOT_MESH_AT_ROOT_RET_FAILED | SIOT_MESH_AT_ROOT_RET_INVALID_PARAM | SIOT_MESH_AT_ROOT_RET_IGNORED
  | SIOT_MESH_AT_ROOT_RET_NO_UPDATES | SIOT_MESH_AT_ROOT_RET_NO_READY_UPDATES
  | SIOT_MESH_AT_ROOT_RET_RESEND_TASK_NOT_NOW | SIOT_MESH_AT_ROOT_RET_RESEND_TASK_NONE_EXISTS
  | SIOT_MESH_AT_ROOT_RET_RESEND_TASK_FINAL | SIOT_MESH_AT_ROOT_RET_RESEND_TASK_INTERM
  | SIOT_MESH_AT_ROOT_RET_RESEND_TASK_FROM_SANTA
  | SIOT_MESH_RET_OK | SIOT_MESH_RET_ERROR_NOT_FOUND | SIOT_MESH_RET_ERROR_ROUTE_UNDER_CONSTRUCTION
  | SIOT_MESH_RET_PASS_TO_SEND | SIOT_MESH_RET_PASS_TO_CCP | SIOT_MESH_RET_SEND_ACK_AND_PASS_TO_PROCESS
  | SIOT_MESH_RET_PASS_TO_PROCESS | SIOT_MESH_RET_GARBAGE_RECEIVED | SIOT_MESH_RET_NOT_FOR_THIS_DEV_RECEIVED

record mesh_lib =
  ADD_OR_MODIFY_ROUTE_ENTRY :: u16
  DELETE_ROUTE_ENTRY :: u16
  ADD_OR_MODIFY_LINK_ENTRY :: u16
  DELETE_LINK_ENTRY :: u16
  SIOT_MESH_TARGET_UNDEFINED :: u16
  SIOT_MESH_BUS_UNDEFINED :: u16
  SIOT_MESH_LINK_ID_UNDEFINED :: u16
  SIOT_MESH_NEXT_HOP_UNDEFINED :: u16
  SIOT_MESH_SUBJECT_FOR_MESH_RESEND :: u8
  SIOT_MESH_FROM_SANTA_DATA_PACKET :: u16
  zero_milliseconds_tval :: sa_time_val
  MESH_CHECK_ROUTS_TO_RETRANSMITTERS_tval :: sa_time_val
  MESH_RECEIVING_HOPS_PERIOD_tval :: sa_time_val
  MESH_RESEND_PERIOD_tval :: sa_time_val
  sa_hal_time_val_is_less_eq :: "sa_time_val \<Rightarrow> sa_time_val \<Rightarrow> bool"
  sa_hal_time_val_get_remaining_time :: "sa_time_val \<Rightarrow> sa_time_val \<Rightarrow> sa_time_val \<Rightarrow> bool \<times> sa_time_val"
  sa_hal_time_val_copy_from_if_src_less :: "sa_time_val \<Rightarrow> sa_time_val \<Rightarrow> sa_time_val"
  zepto_parser_calculate_checksum_of_part_of_response :: "mem \<Rightarrow> nat \<Rightarrow> int \<Rightarrow> int \<Rightarrow> u16 \<Rightarrow> u16"

record SIOT_MESH_DEVICE_ROUTING_DATA_UPDATE_INITIATOR =
  ini_device_id :: u16
  enforce_full_update :: bool
  ini_affected_routes :: "int list"

record SIOT_MESH_LAST_HOP_DATA =
  last_hop_id :: u16
  last_hop_bus_id :: u16
  conn_quality :: u8

record DEVICE_LAST_HOPS =
  dlh_device_id :: u16
  dlh_request_id :: u16
  end_of_receiving :: sa_time_val
  last_hops_in :: "SIOT_MESH_LAST_HOP_DATA list"
  last_hops_out :: "SIOT_MESH_LAST_HOP_DATA list"

datatype resend_type = MESH_PENDING_RESEND_FROM_SANTA | MESH_PENDING_RESEND_TYPE_SELF_REPEATED

record MESH_PENDING_RESENDS =
  resend_type :: resend_type
  packet_data :: "u8 list"
  resend_cnt :: u8
  next_resend_time :: sa_time_val
  resend_checksum :: u16
  resend_target_id :: u16
  resend_bus_id :: u16
  resend_next_hop_id :: u16

record mesh =
  mesh_routing_data :: "SIOT_MESH_DEVICE_ROUTE_AND_LINK_DATA list"
  next_check_time :: sa_time_val
  planned_updates :: "SIOT_MESH_DEVICE_ROUTING_DATA_UPDATE_INITIATOR list"
  mesh_routing_data_updates_in_progress :: "SIOT_MESH_DEVICE_ROUTING_DATA_UPDATE list"
  last_hops_of_all_devices :: "DEVICE_LAST_HOPS list"
  from_santa_request_id :: u16
  pending_resends :: "MESH_PENDING_RESENDS list"

text \<open>Reading through an iterator or index; the end cannot be read.\<close>

definition item :: "'a list \<Rightarrow> nat \<Rightarrow> 'a option" where
  "item xs i = (if i < length xs then Some (xs ! i) else None)"

section \<open>Devices\<close>

text \<open>Members that are not initialised have the value of \<open>blank\<close>.\<close>

definition siot_mesh_at_root_init :: "mesh_lib \<Rightarrow> sa_time_val \<Rightarrow> sa_time_val \<Rightarrow> mesh \<Rightarrow> mesh" where
  "siot_mesh_at_root_init L blank currt s = (
     let next = SA_TIME_INCREMENT_BY_TICKS (sa_hal_time_val_copy_from (next_check_time s) currt)
           (MESH_CHECK_ROUTS_TO_RETRANSMITTERS_tval L);
         data = \<lparr>device_id = 0, is_retransmitter = False, bus_id_max = 1, last_from_santa_request_id = 0,
           time_to_sent_next_from_santa = blank, from_santa_sequence_started = False,
           siot_m_route_table_confirmed = [], siot_m_link_table_confirmed = [],
           siot_m_route_table_planned = [], siot_m_link_table_planned = [], bus_type_list = [0]\<rparr>
     in s\<lparr>next_check_time := next, mesh_routing_data := mesh_routing_data s @ [data]\<rparr>)"

definition siot_mesh_at_root_add_device ::
  "sa_time_val \<Rightarrow> mesh \<Rightarrow> u16 \<Rightarrow> u8 \<Rightarrow> u16 \<Rightarrow> u8 list \<Rightarrow> mesh_ret \<times> mesh" where
  "siot_mesh_at_root_add_device blank s dev_id is_retr id_max bus_types =
     (if list_ex (\<lambda>d. device_id d = dev_id) (mesh_routing_data s) then (SIOT_MESH_AT_ROOT_RET_ALREADY_EXISTS, s)
      else
        let data = \<lparr>device_id = dev_id, is_retransmitter = (is_retr \<noteq> 0), bus_id_max = id_max,
          last_from_santa_request_id = 0, time_to_sent_next_from_santa = blank, from_santa_sequence_started = False,
          siot_m_route_table_confirmed = [], siot_m_link_table_confirmed = [],
          siot_m_route_table_planned = [], siot_m_link_table_planned = [], bus_type_list = map uint bus_types\<rparr>
        in (SIOT_MESH_AT_ROOT_RET_OK, s\<lparr>mesh_routing_data := mesh_routing_data s @ [data]\<rparr>))"

definition siot_mesh_at_root_get_device_data :: "mesh \<Rightarrow> u16 \<Rightarrow> mesh_ret \<times> nat" where
  "siot_mesh_at_root_get_device_data s dev_id =
     (case first_index (\<lambda>d. device_id d = dev_id) (mesh_routing_data s) of
        Some i \<Rightarrow> (SIOT_MESH_AT_ROOT_RET_OK, i)
      | None \<Rightarrow> (SIOT_MESH_AT_ROOT_RET_NOT_FOUND, length (mesh_routing_data s)))"

definition siot_mesh_at_root_sanitize_device_id :: "mesh \<Rightarrow> u16 \<Rightarrow> mesh_ret" where
  "siot_mesh_at_root_sanitize_device_id s dev_id =
     (if list_ex (\<lambda>d. device_id d = dev_id) (mesh_routing_data s) then SIOT_MESH_AT_ROOT_RET_OK
      else SIOT_MESH_AT_ROOT_RET_INVALID_PARAM)"

definition siot_mesh_at_root_sanitize_non_root_device_id :: "mesh \<Rightarrow> u16 \<Rightarrow> mesh_ret" where
  "siot_mesh_at_root_sanitize_non_root_device_id s dev_id =
     (if dev_id = 0 then SIOT_MESH_AT_ROOT_RET_INVALID_PARAM else siot_mesh_at_root_sanitize_device_id s dev_id)"

text \<open>The list of retransmitters in a packet: the count and the heap after writing.\<close>

fun write_retransmitters :: "SIOT_MESH_DEVICE_ROUTE_AND_LINK_DATA list \<Rightarrow> mem \<Rightarrow> nat \<Rightarrow> u16 \<Rightarrow> (u16 \<times> mem) option" where
  "write_retransmitters [] m mem_h count = Some (count, m)"
| "write_retransmitters (d # ds) m mem_h count =
     (if is_retransmitter d then do {
        m \<leftarrow> zepto_parser_encode_and_append_uint16 m mem_h (0 OR push_bit 1 (device_id d + 1));
        write_retransmitters ds m mem_h (count + 1)
      } else write_retransmitters ds m mem_h count)"

definition write_retransmitter_list_for_from_santa_packet :: "mesh \<Rightarrow> mem \<Rightarrow> nat \<Rightarrow> (u16 \<times> mem) option" where
  "write_retransmitter_list_for_from_santa_packet s m mem_h = do {
     (count, m) \<leftarrow> write_retransmitters (mesh_routing_data s) m mem_h 0;
     m \<leftarrow> zepto_parser_encode_and_append_uint16 m mem_h 0;
     Some (count, m)
   }"

section \<open>The tables of the root\<close>

definition siot_mesh_get_link :: "mesh \<Rightarrow> u16 \<Rightarrow> mesh_ret \<times> SIOT_MESH_LINK option" where
  "siot_mesh_get_link s link_id =
     (case find (\<lambda>l. lt_LINK_ID l = link_id)
        (concat (map siot_m_link_table_confirmed (filter (\<lambda>d. device_id d = 0) (mesh_routing_data s)))) of
        Some l \<Rightarrow> (SIOT_MESH_RET_OK, Some l)
      | None \<Rightarrow> (SIOT_MESH_RET_ERROR_NOT_FOUND, None))"

definition siot_mesh_at_root_is_route_under_update :: "mesh \<Rightarrow> u16 \<Rightarrow> bool" where
  "siot_mesh_at_root_is_route_under_update s dev_id \<longleftrightarrow>
     list_ex (\<lambda>u. list_ex (\<lambda>r. r = uint dev_id) (upd_affected_routes u)) (mesh_routing_data_updates_in_progress s) \<or>
     list_ex (\<lambda>p. list_ex (\<lambda>r. r = uint dev_id) (ini_affected_routes p)) (planned_updates s)"

definition siot_mesh_at_root_target_to_link_id :: "mesh \<Rightarrow> u16 \<Rightarrow> mesh_ret \<times> u16 option" where
  "siot_mesh_at_root_target_to_link_id s target_id =
     (case find (\<lambda>r. rt_TARGET_ID r = target_id)
        (concat (map siot_m_route_table_confirmed (filter (\<lambda>d. device_id d = 0) (mesh_routing_data s)))) of
        Some r \<Rightarrow>
          (if siot_mesh_at_root_is_route_under_update s target_id then SIOT_MESH_RET_ERROR_ROUTE_UNDER_CONSTRUCTION
           else SIOT_MESH_RET_OK, Some (rt_LINK_ID r))
      | None \<Rightarrow> (SIOT_MESH_RET_ERROR_NOT_FOUND, None))"

section \<open>Planning updates\<close>

definition siot_mesh_at_root_init_route_update_data ::
  "u16 \<Rightarrow> u16 \<Rightarrow> SIOT_MESH_DEVICE_ROUTING_DATA_UPDATE_INITIATOR" where
  "siot_mesh_at_root_init_route_update_data dev_id affected_device_id =
     \<lparr>ini_device_id = dev_id, enforce_full_update = False, ini_affected_routes = [uint affected_device_id]\<rparr>"

definition siot_mesh_at_root_init_route_update_data_with_many_affected_devices ::
  "u16 \<Rightarrow> u16 list \<Rightarrow> SIOT_MESH_DEVICE_ROUTING_DATA_UPDATE_INITIATOR" where
  "siot_mesh_at_root_init_route_update_data_with_many_affected_devices dev_id affected_device_ids =
     \<lparr>ini_device_id = dev_id, enforce_full_update = False, ini_affected_routes = map uint affected_device_ids\<rparr>"

definition siot_mesh_at_root_add_planned_route_update ::
  "mesh \<Rightarrow> SIOT_MESH_DEVICE_ROUTING_DATA_UPDATE_INITIATOR \<Rightarrow> mesh option" where
  "siot_mesh_at_root_add_planned_route_update s update = do {
     assert (enforce_full_update update = False);
     case first_index (\<lambda>p. ini_device_id p = ini_device_id update) (planned_updates s) of
       Some i \<Rightarrow>
         let it = planned_updates s ! i
         in Some (s\<lparr>planned_updates := (planned_updates s)[i := it\<lparr>ini_affected_routes :=
              ini_affected_routes it @ ini_affected_routes update\<rparr>]\<rparr>)
     | None \<Rightarrow> Some (s\<lparr>planned_updates := planned_updates s @ [update]\<rparr>)
   }"

definition siot_mesh_at_root_add_route_update_requiring_full_erase ::
  "mesh \<Rightarrow> SIOT_MESH_DEVICE_ROUTING_DATA_UPDATE \<Rightarrow> mesh" where
  "siot_mesh_at_root_add_route_update_requiring_full_erase s update =
     (case first_index (\<lambda>p. ini_device_id p = upd_device_id update) (planned_updates s) of
       Some i \<Rightarrow>
         let it = planned_updates s ! i
         in s\<lparr>planned_updates := (planned_updates s)[i := it\<lparr>ini_affected_routes :=
              ini_affected_routes it @ upd_affected_routes update, enforce_full_update := True\<rparr>]\<rparr>
     | None \<Rightarrow>
         s\<lparr>planned_updates := \<lparr>ini_device_id = upd_device_id update, enforce_full_update = True,
            ini_affected_routes = upd_affected_routes update\<rparr> # planned_updates s\<rparr>)"

section \<open>The next update\<close>

definition new_update :: SIOT_MESH_DEVICE_ROUTING_DATA_UPDATE where
  "new_update = \<lparr>upd_device_id = 0, clear_tables_first = False, siot_m_route_table_update = [],
     siot_m_link_table_update = [], upd_affected_routes = []\<rparr>"

text \<open>
  The loop over the planned updates: \<open>kept\<close> are those already passed over. The result is the update
  that is started, if any, and the updates that stay planned.
\<close>

fun next_update_loop ::
  "mesh \<Rightarrow> SIOT_MESH_DEVICE_ROUTING_DATA_UPDATE_INITIATOR list \<Rightarrow> SIOT_MESH_DEVICE_ROUTING_DATA_UPDATE_INITIATOR list \<Rightarrow>
   (SIOT_MESH_DEVICE_ROUTING_DATA_UPDATE option \<times> SIOT_MESH_DEVICE_ROUTING_DATA_UPDATE_INITIATOR list) option" where
  "next_update_loop s kept [] = Some (None, kept)"
| "next_update_loop s kept (p # ps) =
     (if list_ex (\<lambda>u. upd_device_id u = ini_device_id p) (mesh_routing_data_updates_in_progress s)
      then next_update_loop s (kept @ [p]) ps
      else do {
        let (ret_code, i) = siot_mesh_at_root_get_device_data s (ini_device_id p);
        assert (ret_code = SIOT_MESH_AT_ROOT_RET_OK);
        dev_data \<leftarrow> item (mesh_routing_data s) i;
        update \<leftarrow> (if enforce_full_update p then siot_mesh_at_root_build_full_update dev_data new_update
          else siot_mesh_at_root_get_diff_as_update dev_data new_update);
        let total_cnt = length (siot_m_link_table_update update) + length (siot_m_route_table_update update);
        if total_cnt = 0 then
          (if \<not> enforce_full_update p then next_update_loop s kept ps
           else next_update_loop s (kept @ [p]) ps)
        else Some (Some update, kept @ ps)
      })"

definition siot_mesh_at_root_get_next_update ::
  "mesh \<Rightarrow> (mesh_ret \<times> SIOT_MESH_DEVICE_ROUTING_DATA_UPDATE option \<times> mesh) option" where
  "siot_mesh_at_root_get_next_update s = do {
     dbg_siot_mesh_at_root_validate_all_device_tables (mesh_routing_data s);
     if planned_updates s = [] then Some (SIOT_MESH_AT_ROOT_RET_NO_UPDATES, None, s)
     else do {
       (update, planned) \<leftarrow> next_update_loop s [] (planned_updates s);
       let s = s\<lparr>planned_updates := planned\<rparr>;
       case update of
         None \<Rightarrow> Some (SIOT_MESH_AT_ROOT_RET_NO_READY_UPDATES, None, s)
       | Some update \<Rightarrow> Some (SIOT_MESH_AT_ROOT_RET_OK, Some update,
           s\<lparr>mesh_routing_data_updates_in_progress := mesh_routing_data_updates_in_progress s @ [update]\<rparr>)
     }
   }"

section \<open>The packet of an update\<close>

text \<open>The state the tables of the device will have after the update.\<close>

definition siot_mesh_at_root_get_confirmed_table_state_after_applying_update ::
  "mesh \<Rightarrow> SIOT_MESH_DEVICE_ROUTING_DATA_UPDATE \<Rightarrow> SIOT_MESH_DEVICE_ROUTE_AND_LINK_DATA \<Rightarrow>
   SIOT_MESH_DEVICE_ROUTE_AND_LINK_DATA option" where
  "siot_mesh_at_root_get_confirmed_table_state_after_applying_update s update dev_resulting_data = do {
     let (ret_code, i) = siot_mesh_at_root_get_device_data s (upd_device_id update);
     assert (ret_code = SIOT_MESH_AT_ROOT_RET_OK);
     dev_data \<leftarrow> item (mesh_routing_data s) i;
     let dev_resulting_data = dev_resulting_data\<lparr>device_id := device_id dev_data,
       siot_m_link_table_confirmed := siot_m_link_table_confirmed dev_data,
       siot_m_route_table_confirmed := siot_m_route_table_confirmed dev_data,
       bus_type_list := bus_type_list dev_data, is_retransmitter := is_retransmitter dev_data\<rparr>;
     siot_mesh_at_root_apply_update_to_device_routing_data update dev_resulting_data
   }"

text \<open>One entry of an update; \<open>more_data\<close> is 0 for the last one.\<close>

definition write_route_update :: "mesh_lib \<Rightarrow> mem \<Rightarrow> nat \<Rightarrow> bool \<Rightarrow> u16 \<Rightarrow> SIOT_MESH_ROUTE_UPDATE \<Rightarrow> mem option" where
  "write_route_update L m mem_h clear more_data u = (case u of
     Add_Route route \<Rightarrow> do {
       let header = more_data OR push_bit 1 (ADD_OR_MODIFY_ROUTE_ENTRY L) OR push_bit 3 (rt_LINK_ID route);
       m \<leftarrow> zepto_parser_encode_and_append_uint16 m mem_h header;
       zepto_parser_encode_and_append_uint16 m mem_h (rt_TARGET_ID route)
     }
   | Remove_Route target_id \<Rightarrow> do {
       assert (\<not> clear);
       let header = more_data OR push_bit 1 (DELETE_ROUTE_ENTRY L) OR push_bit 3 target_id;
       zepto_parser_encode_and_append_uint16 m mem_h header
     })"

definition write_link_update :: "mesh_lib \<Rightarrow> mem \<Rightarrow> nat \<Rightarrow> bool \<Rightarrow> u16 \<Rightarrow> SIOT_MESH_LINK_UPDATE \<Rightarrow> mem option" where
  "write_link_update L m mem_h clear more_data u = (case u of
     Add_Link link \<Rightarrow> do {
       let header = more_data OR push_bit 1 (ADD_OR_MODIFY_LINK_ENTRY L) OR push_bit 4 (lt_LINK_ID link);
       m \<leftarrow> zepto_parser_encode_and_append_uint16 m mem_h header;
       m \<leftarrow> zepto_parser_encode_and_append_uint16 m mem_h (lt_BUS_ID link);
       m \<leftarrow> zepto_parser_encode_and_append_uint16 m mem_h (lt_NEXT_HOP link);
       zepto_parser_encode_and_append_uint32 m mem_h 0
     }
   | Remove_Link link_id \<Rightarrow> do {
       assert (\<not> clear);
       let header = more_data OR push_bit 1 (DELETE_LINK_ENTRY L) OR push_bit 3 link_id;
       zepto_parser_encode_and_append_uint16 m mem_h header
     })"

text \<open>The loops over the entries; \<open>cnt\<close> counts the entries of both.\<close>

fun write_updates :: "(mem \<Rightarrow> u16 \<Rightarrow> 'u \<Rightarrow> mem option) \<Rightarrow> mem \<Rightarrow> nat \<Rightarrow> nat \<Rightarrow> 'u list \<Rightarrow> mem option" where
  "write_updates wr m cnt total_cnt [] = Some m"
| "write_updates wr m cnt total_cnt (u # us) = do {
     let cnt = cnt + 1;
     m \<leftarrow> wr m (if cnt = total_cnt then 0 else 1) u;
     write_updates wr m cnt total_cnt us
   }"

text \<open>The initial checksum is that of the entry at the index \<open>update->device_id\<close>.\<close>

definition siot_mesh_at_root_update_to_packet ::
  "mesh_lib \<Rightarrow> mesh \<Rightarrow> SIOT_MESH_DEVICE_ROUTE_AND_LINK_DATA \<Rightarrow> mem \<Rightarrow> nat \<Rightarrow> SIOT_MESH_DEVICE_ROUTING_DATA_UPDATE \<Rightarrow> mem option" where
  "siot_mesh_at_root_update_to_packet L s blank m mem_h update = do {
     let flags = (if clear_tables_first update then 1 else 0);
     m \<leftarrow> zepto_parser_encode_and_append_uint16 m mem_h flags;
     m \<leftarrow> (if \<not> clear_tables_first update then do {
         dev_data \<leftarrow> item (mesh_routing_data s) (unat (upd_device_id update));
         let ini_checksum = calculate_table_checksum dev_data;
         m \<leftarrow> zepto_write_uint8 m mem_h (ucast ini_checksum);
         zepto_write_uint8 m mem_h (ucast (drop_bit 8 ini_checksum))
       } else Some m);
     let total_cnt = length (siot_m_link_table_update update) + length (siot_m_route_table_update update);
     assert (total_cnt \<noteq> 0);
     m \<leftarrow> write_updates (\<lambda>m. write_route_update L m mem_h (clear_tables_first update)) m 0 total_cnt
       (siot_m_route_table_update update);
     m \<leftarrow> write_updates (\<lambda>m. write_link_update L m mem_h (clear_tables_first update)) m
       (length (siot_m_route_table_update update)) total_cnt (siot_m_link_table_update update);
     dev_data_copy \<leftarrow> siot_mesh_at_root_get_confirmed_table_state_after_applying_update s update blank;
     let resulting_checksum = calculate_table_checksum dev_data_copy;
     m \<leftarrow> zepto_write_uint8 m mem_h (ucast resulting_checksum);
     zepto_write_uint8 m mem_h (ucast (drop_bit 8 resulting_checksum))
   }"

definition siot_mesh_at_root_load_update_to_packet ::
  "mesh_lib \<Rightarrow> mesh \<Rightarrow> SIOT_MESH_DEVICE_ROUTE_AND_LINK_DATA \<Rightarrow> mem \<Rightarrow> nat \<Rightarrow> (mesh_ret \<times> u16 option \<times> mesh \<times> mem) option" where
  "siot_mesh_at_root_load_update_to_packet L s blank m mem_h = do {
     (ret_code, update, s) \<leftarrow> siot_mesh_at_root_get_next_update s;
     if ret_code \<noteq> SIOT_MESH_AT_ROOT_RET_OK then Some (ret_code, None, s, m)
     else do {
       update \<leftarrow> update;
       m \<leftarrow> siot_mesh_at_root_update_to_packet L s blank m mem_h update;
       let recipient = upd_device_id update;
       assert (0 < recipient);
       dbg_siot_mesh_at_root_validate_all_device_tables (mesh_routing_data s);
       Some (SIOT_MESH_AT_ROOT_RET_OK, Some recipient, s, m)
     }
   }"

section \<open>The end of an update\<close>

definition siot_mesh_at_root_apply_update_to_local_copy ::
  "mesh \<Rightarrow> SIOT_MESH_DEVICE_ROUTING_DATA_UPDATE \<Rightarrow> (mesh_ret \<times> mesh) option" where
  "siot_mesh_at_root_apply_update_to_local_copy s update = do {
     dbg_siot_mesh_at_root_validate_all_device_tables (mesh_routing_data s);
     let total_cnt = length (siot_m_link_table_update update) + length (siot_m_route_table_update update);
     assert (total_cnt \<noteq> 0);
     let (ret_code, i) = siot_mesh_at_root_get_device_data s (upd_device_id update);
     assert (ret_code = SIOT_MESH_AT_ROOT_RET_OK);
     dev_data \<leftarrow> item (mesh_routing_data s) i;
     dev_data \<leftarrow> siot_mesh_at_root_apply_update_to_device_routing_data update dev_data;
     let s = s\<lparr>mesh_routing_data := (mesh_routing_data s)[i := dev_data]\<rparr>;
     dbg_siot_mesh_at_root_validate_all_device_tables (mesh_routing_data s);
     Some (SIOT_MESH_AT_ROOT_RET_OK, s)
   }"

definition drop_item :: "nat \<Rightarrow> 'a list \<Rightarrow> 'a list" where
  "drop_item i xs = take i xs @ drop (Suc i) xs"

definition siot_mesh_at_root_update_done :: "mesh \<Rightarrow> u16 \<Rightarrow> (mesh_ret \<times> mesh) option" where
  "siot_mesh_at_root_update_done s dev_id = do {
     dbg_siot_mesh_at_root_validate_all_device_tables (mesh_routing_data s);
     case first_index (\<lambda>u. upd_device_id u = dev_id) (mesh_routing_data_updates_in_progress s) of
       Some i \<Rightarrow> do {
         update \<leftarrow> item (mesh_routing_data_updates_in_progress s) i;
         (_, s) \<leftarrow> siot_mesh_at_root_apply_update_to_local_copy s update;
         Some (SIOT_MESH_AT_ROOT_RET_OK,
           s\<lparr>mesh_routing_data_updates_in_progress := drop_item i (mesh_routing_data_updates_in_progress s)\<rparr>)
       }
     | None \<Rightarrow> Some (SIOT_MESH_AT_ROOT_RET_FAILED, s)
   }"

definition siot_mesh_at_root_update_failed :: "mesh \<Rightarrow> u16 \<Rightarrow> (mesh_ret \<times> mesh) option" where
  "siot_mesh_at_root_update_failed s dev_id = do {
     dbg_siot_mesh_at_root_validate_all_device_tables (mesh_routing_data s);
     case first_index (\<lambda>u. upd_device_id u = dev_id) (mesh_routing_data_updates_in_progress s) of
       Some i \<Rightarrow> do {
         update \<leftarrow> item (mesh_routing_data_updates_in_progress s) i;
         let s = siot_mesh_at_root_add_route_update_requiring_full_erase s update;
         Some (SIOT_MESH_AT_ROOT_RET_OK,
           s\<lparr>mesh_routing_data_updates_in_progress := drop_item i (mesh_routing_data_updates_in_progress s)\<rparr>)
       }
     | None \<Rightarrow> Some (SIOT_MESH_AT_ROOT_RET_FAILED, s)
   }"

end
