(* ===== verification/Mesh_Life.thy ===== *)
theory Mesh_Life
  imports Mesh_Root
begin

text \<open>
  The life of an update: that it can always be computed, that confirming it makes the tables of the
  device the planned ones, what its packet ends with, and what remains when it fails.
\<close>

section \<open>Devices by id\<close>

lemma device_data_found:
  "siot_mesh_at_root_get_device_data s k = (SIOT_MESH_AT_ROOT_RET_OK, i) \<longleftrightarrow>
    first_index (\<lambda>d. device_id d = k) (mesh_routing_data s) = Some i"
  by (auto simp: siot_mesh_at_root_get_device_data_def split: option.splits)

lemma device_data_exists:
  assumes "\<exists>d \<in> set (mesh_routing_data s). device_id d = k"
  obtains i where "siot_mesh_at_root_get_device_data s k = (SIOT_MESH_AT_ROOT_RET_OK, i)" "i < length (mesh_routing_data s)"
    "device_id (mesh_routing_data s ! i) = k"
proof -
  from assms first_index_None [of "\<lambda>d. device_id d = k" "mesh_routing_data s"] obtain i where
    "first_index (\<lambda>d. device_id d = k) (mesh_routing_data s) = Some i" by auto
  with that show thesis using device_data_found [of s k i] by (auto simp: first_index_Some)
qed

lemma validate_all_iff:
  "dbg_siot_mesh_at_root_validate_all_device_tables ds = Some () \<longleftrightarrow>
    (\<forall>d \<in> set ds. dbg_siot_mesh_at_root_validate_device_tables d = Some ())"
  by (simp add: dbg_siot_mesh_at_root_validate_all_device_tables_def list_all_iff)

lemma validate_update:
  assumes "dbg_siot_mesh_at_root_validate_all_device_tables ds = Some ()" "i < length ds"
  shows "dbg_siot_mesh_at_root_validate_all_device_tables (ds[i := confirmed_as_planned (ds ! i)]) = Some ()"
proof -
  have "dbg_siot_mesh_at_root_validate_device_tables (confirmed_as_planned (ds ! i)) = Some ()"
    using assms by (auto simp: validate_all_iff dbg_siot_mesh_at_root_validate_device_tables_def confirmed_as_planned_def)
  then show ?thesis using assms set_update_subset_insert [of ds i] by (fastforce simp: validate_all_iff)
qed

section \<open>The next update\<close>

text \<open>An update with at least one entry that turns the tables of its device into the planned ones.\<close>

definition entries :: "SIOT_MESH_DEVICE_ROUTING_DATA_UPDATE \<Rightarrow> nat" where
  "entries u = length (siot_m_link_table_update u) + length (siot_m_route_table_update u)"

text \<open>A full update only adds.\<close>

definition only_adds :: "SIOT_MESH_DEVICE_ROUTING_DATA_UPDATE \<Rightarrow> bool" where
  "only_adds u \<longleftrightarrow> (\<forall>k. Remove_Route k \<notin> set (siot_m_route_table_update u)) \<and> (\<forall>k. Remove_Link k \<notin> set (siot_m_link_table_update u))"

definition brings_up_to_date :: "mesh \<Rightarrow> SIOT_MESH_DEVICE_ROUTING_DATA_UPDATE \<Rightarrow> bool" where
  "brings_up_to_date s u \<longleftrightarrow> entries u \<noteq> 0 \<and> upd_affected_routes u = [] \<and> (clear_tables_first u \<longrightarrow> only_adds u) \<and>
     (\<exists>i. siot_mesh_at_root_get_device_data s (upd_device_id u) = (SIOT_MESH_AT_ROOT_RET_OK, i) \<and> i < length (mesh_routing_data s) \<and>
       siot_mesh_at_root_apply_update_to_device_routing_data u (mesh_routing_data s ! i) =
         Some (confirmed_as_planned (mesh_routing_data s ! i)))"

definition in_progress :: "mesh \<Rightarrow> u16 \<Rightarrow> bool" where
  "in_progress s k \<longleftrightarrow> (\<exists>u \<in> set (mesh_routing_data_updates_in_progress s). upd_device_id u = k)"

lemma one_update:
  assumes "dbg_siot_mesh_at_root_validate_device_tables d = Some ()"
  shows "\<exists>u. (if full then siot_mesh_at_root_build_full_update d new_update
      else siot_mesh_at_root_get_diff_as_update d new_update) = Some u \<and> upd_device_id u = device_id d \<and>
    upd_affected_routes u = [] \<and> (clear_tables_first u \<longrightarrow> only_adds u) \<and>
    siot_mesh_at_root_apply_update_to_device_routing_data u d = Some (confirmed_as_planned d)"
proof (cases full)
  case True
  from full_update [of d new_update d] validate_ordered [OF assms] assms True show ?thesis
    by (auto simp: tables_ordered_def new_update_def confirmed_as_planned_def only_adds_def
        siot_mesh_at_root_build_full_update_def)
next
  case False
  from diff_as_update [OF validate_ordered [OF assms], of new_update] False show ?thesis
    by (auto simp: new_update_def)
qed

lemma next_update_loop_total:
  assumes "dbg_siot_mesh_at_root_validate_all_device_tables (mesh_routing_data s) = Some ()"
    and "\<forall>p \<in> set ps. \<exists>d \<in> set (mesh_routing_data s). device_id d = ini_device_id p"
  shows "\<exists>r planned. next_update_loop s kept ps = Some (r, planned) \<and> set planned \<subseteq> set kept \<union> set ps \<and>
    (case r of None \<Rightarrow> True
     | Some u \<Rightarrow> brings_up_to_date s u \<and> \<not> in_progress s (upd_device_id u) \<and>
         (\<exists>p \<in> set ps. ini_device_id p = upd_device_id u))"
  using assms(2)
proof (induction ps arbitrary: kept)
  case (Cons p ps)
  let ?good = "\<lambda>r. case r of None \<Rightarrow> True
     | Some u \<Rightarrow> brings_up_to_date s u \<and> \<not> in_progress s (upd_device_id u) \<and>
         (\<exists>q \<in> set (p # ps). ini_device_id q = upd_device_id u)"
  have rest: "\<exists>r planned. next_update_loop s k ps = Some (r, planned) \<and> set planned \<subseteq> set k \<union> set ps \<and> ?good r" for k
  proof -
    from Cons.IH [of k] Cons.prems obtain r planned where
      l: "next_update_loop s k ps = Some (r, planned)" "set planned \<subseteq> set k \<union> set ps" and r: "case r of None \<Rightarrow> True
        | Some u \<Rightarrow> brings_up_to_date s u \<and> \<not> in_progress s (upd_device_id u) \<and> (\<exists>q \<in> set ps. ini_device_id q = upd_device_id u)"
      by auto
    from r have "?good r" by (auto split: option.splits)
    with l show ?thesis by blast
  qed
  show ?case
  proof (cases "in_progress s (ini_device_id p)")
    case True
    then have "next_update_loop s kept (p # ps) = next_update_loop s (kept @ [p]) ps"
      by (auto simp: in_progress_def list_ex_iff)
    then show ?thesis using rest [of "kept @ [p]"] by (simp only:) auto
  next
    case False
    then have idle: "\<not> list_ex (\<lambda>u. upd_device_id u = ini_device_id p) (mesh_routing_data_updates_in_progress s)"
      by (auto simp: in_progress_def list_ex_iff)
    from Cons.prems device_data_exists [of s "ini_device_id p"] obtain i where
      i: "siot_mesh_at_root_get_device_data s (ini_device_id p) = (SIOT_MESH_AT_ROOT_RET_OK, i)"
        "i < length (mesh_routing_data s)" "device_id (mesh_routing_data s ! i) = ini_device_id p" by auto
    let ?d = "mesh_routing_data s ! i"
    have "dbg_siot_mesh_at_root_validate_device_tables ?d = Some ()" using assms(1) i(2) by (simp add: validate_all_iff)
    from one_update [OF this, of "enforce_full_update p"] obtain u where
      u: "(if enforce_full_update p then siot_mesh_at_root_build_full_update ?d new_update
          else siot_mesh_at_root_get_diff_as_update ?d new_update) = Some u"
        "upd_device_id u = ini_device_id p" "upd_affected_routes u = []" "clear_tables_first u \<longrightarrow> only_adds u"
        "siot_mesh_at_root_apply_update_to_device_routing_data u ?d = Some (confirmed_as_planned ?d)" using i(3) by auto
    have step: "next_update_loop s kept (p # ps) =
        (if entries u = 0 then
           if \<not> enforce_full_update p then next_update_loop s kept ps else next_update_loop s (kept @ [p]) ps
         else Some (Some u, kept @ ps))"
      using idle i(1,2) u(1) by (simp add: item_def entries_def)
    show ?thesis
    proof (cases "entries u = 0")
      case True
      show ?thesis
      proof (cases "enforce_full_update p")
        case full: True
        then show ?thesis using step True rest [of "kept @ [p]"] by (simp only: if_True simp_thms if_False) auto
      next
        case False
        then show ?thesis using step True rest [of kept] by (simp only: if_True simp_thms) auto
      qed
    next
      case e: False
      with step have "next_update_loop s kept (p # ps) = Some (Some u, kept @ ps)" by simp
      moreover have "brings_up_to_date s u" using u i e by (auto simp: brings_up_to_date_def)
      ultimately show ?thesis using False u(2) by auto
    qed
  qed
qed simp

lemma next_update_total:
  assumes "dbg_siot_mesh_at_root_validate_all_device_tables (mesh_routing_data s) = Some ()"
    and "\<forall>p \<in> set (planned_updates s). \<exists>d \<in> set (mesh_routing_data s). device_id d = ini_device_id p"
  shows "\<exists>ret r planned. siot_mesh_at_root_get_next_update s = Some (ret, r, (case r of None \<Rightarrow> s\<lparr>planned_updates := planned\<rparr>
      | Some u \<Rightarrow> s\<lparr>planned_updates := planned,
          mesh_routing_data_updates_in_progress := mesh_routing_data_updates_in_progress s @ [u]\<rparr>)) \<and>
    set planned \<subseteq> set (planned_updates s) \<and>
    (case r of None \<Rightarrow> ret = SIOT_MESH_AT_ROOT_RET_NO_UPDATES \<or> ret = SIOT_MESH_AT_ROOT_RET_NO_READY_UPDATES
     | Some u \<Rightarrow> ret = SIOT_MESH_AT_ROOT_RET_OK \<and> brings_up_to_date s u \<and> \<not> in_progress s (upd_device_id u))"
proof (cases "planned_updates s = []")
  case True
  then show ?thesis using assms(1)
    by (intro exI [of _ SIOT_MESH_AT_ROOT_RET_NO_UPDATES] exI [of _ None] exI [of _ "[]"])
      (simp add: siot_mesh_at_root_get_next_update_def)
next
  case False
  from next_update_loop_total [OF assms, of "[]"] obtain r planned where
    l: "next_update_loop s [] (planned_updates s) = Some (r, planned)" "set planned \<subseteq> set (planned_updates s)"
    and r: "case r of None \<Rightarrow> True | Some u \<Rightarrow> brings_up_to_date s u \<and> \<not> in_progress s (upd_device_id u)"
    by (auto split: option.splits)
  let ?ret = "if r = None then SIOT_MESH_AT_ROOT_RET_NO_READY_UPDATES else SIOT_MESH_AT_ROOT_RET_OK"
  show ?thesis
    using False l r assms(1)
    by (intro exI [of _ ?ret] exI [of _ r] exI [of _ planned])
      (auto simp: siot_mesh_at_root_get_next_update_def split: option.splits)
qed

section \<open>Confirmation\<close>

lemma new_update_found:
  assumes "\<not> in_progress s (upd_device_id u)"
  shows "first_index (\<lambda>v. upd_device_id v = upd_device_id u) (mesh_routing_data_updates_in_progress s @ [u]) =
    Some (length (mesh_routing_data_updates_in_progress s))"
proof -
  have "first_index (\<lambda>v. upd_device_id v = upd_device_id u) (mesh_routing_data_updates_in_progress s) = None"
    using assms by (auto simp: first_index_None in_progress_def)
  then show ?thesis by (simp add: first_index_append)
qed

lemma update_confirmed:
  assumes valid: "dbg_siot_mesh_at_root_validate_all_device_tables (mesh_routing_data s) = Some ()"
    and u: "brings_up_to_date s u" "\<not> in_progress s (upd_device_id u)"
    and i: "siot_mesh_at_root_get_device_data s (upd_device_id u) = (SIOT_MESH_AT_ROOT_RET_OK, i)"
  shows "siot_mesh_at_root_update_done (s\<lparr>planned_updates := planned,
      mesh_routing_data_updates_in_progress := mesh_routing_data_updates_in_progress s @ [u]\<rparr>) (upd_device_id u) =
    Some (SIOT_MESH_AT_ROOT_RET_OK, s\<lparr>planned_updates := planned,
      mesh_routing_data := (mesh_routing_data s)[i := confirmed_as_planned (mesh_routing_data s ! i)]\<rparr>)"
proof -
  let ?s = "s\<lparr>planned_updates := planned, mesh_routing_data_updates_in_progress := mesh_routing_data_updates_in_progress s @ [u]\<rparr>"
  let ?ds = "(mesh_routing_data s)[i := confirmed_as_planned (mesh_routing_data s ! i)]"
  have i': "siot_mesh_at_root_get_device_data ?s (upd_device_id u) = (SIOT_MESH_AT_ROOT_RET_OK, i)"
    using i unfolding device_data_found by simp
  have len: "i < length (mesh_routing_data s)" and ap: "siot_mesh_at_root_apply_update_to_device_routing_data u (mesh_routing_data s ! i) =
      Some (confirmed_as_planned (mesh_routing_data s ! i))" and ne: "entries u \<noteq> 0"
    using u(1) i by (auto simp: brings_up_to_date_def)
  have "siot_mesh_at_root_apply_update_to_local_copy ?s u = Some (SIOT_MESH_AT_ROOT_RET_OK, ?s\<lparr>mesh_routing_data := ?ds\<rparr>)"
    using valid validate_update [OF valid len] i' len ap ne
    by (simp add: siot_mesh_at_root_apply_update_to_local_copy_def item_def entries_def)
  then show ?thesis
    using valid new_update_found [OF u(2)]
    by (simp add: siot_mesh_at_root_update_done_def item_def drop_item_def)
qed

section \<open>Failure\<close>

lemma update_given_up:
  assumes valid: "dbg_siot_mesh_at_root_validate_all_device_tables (mesh_routing_data s) = Some ()"
    and u: "\<not> in_progress s (upd_device_id u)"
  shows "\<exists>planned'. siot_mesh_at_root_update_failed (s\<lparr>planned_updates := planned,
      mesh_routing_data_updates_in_progress := mesh_routing_data_updates_in_progress s @ [u]\<rparr>) (upd_device_id u) =
    Some (SIOT_MESH_AT_ROOT_RET_OK, s\<lparr>planned_updates := planned'\<rparr>) \<and>
    (\<exists>p \<in> set planned'. ini_device_id p = upd_device_id u \<and> enforce_full_update p) \<and>
    (\<forall>k. k \<noteq> upd_device_id u \<longrightarrow> filter (\<lambda>p. ini_device_id p = k) planned' = filter (\<lambda>p. ini_device_id p = k) planned)"
proof -
  let ?P = "\<lambda>p. ini_device_id p = upd_device_id u"
  let ?s = "s\<lparr>planned_updates := planned, mesh_routing_data_updates_in_progress := mesh_routing_data_updates_in_progress s @ [u]\<rparr>"
  define planned' where "planned' = planned_updates (siot_mesh_at_root_add_route_update_requiring_full_erase ?s u)"
  have run: "siot_mesh_at_root_update_failed ?s (upd_device_id u) =
      Some (SIOT_MESH_AT_ROOT_RET_OK, s\<lparr>planned_updates := planned'\<rparr>)"
    using valid new_update_found [OF u]
    by (auto simp: siot_mesh_at_root_update_failed_def item_def drop_item_def planned'_def Let_def
        siot_mesh_at_root_add_route_update_requiring_full_erase_def split: option.splits)
  have kept: "filter (\<lambda>p. ini_device_id p = k) (ps[i := q]) = filter (\<lambda>p. ini_device_id p = k) ps"
    if "i < length ps" "ini_device_id (ps ! i) \<noteq> k" "ini_device_id q \<noteq> k" for ps i q k
  proof -
    have "ps = take i ps @ ps ! i # drop (Suc i) ps" using that(1) by (rule id_take_nth_drop)
    then have "filter (\<lambda>p. ini_device_id p = k) ps =
        filter (\<lambda>p. ini_device_id p = k) (take i ps) @ filter (\<lambda>p. ini_device_id p = k) (drop (Suc i) ps)"
      using that(2) by (metis (mono_tags, lifting) filter.simps(2) filter_append)
    then show ?thesis using that by (simp add: upd_conv_take_nth_drop)
  qed
  have "(\<exists>p \<in> set planned'. ?P p \<and> enforce_full_update p) \<and>
      (\<forall>k. k \<noteq> upd_device_id u \<longrightarrow> filter (\<lambda>p. ini_device_id p = k) planned' = filter (\<lambda>p. ini_device_id p = k) planned)"
  proof (cases "first_index ?P planned")
    case None
    then show ?thesis by (simp add: planned'_def siot_mesh_at_root_add_route_update_requiring_full_erase_def)
  next
    case (Some i)
    then have i: "i < length planned" "?P (planned ! i)" by (simp_all add: first_index_Some)
    define q where "q = (planned ! i)\<lparr>ini_affected_routes := ini_affected_routes (planned ! i) @ upd_affected_routes u,
      enforce_full_update := True\<rparr>"
    have p': "planned' = planned[i := q]"
      using Some by (simp add: q_def planned'_def siot_mesh_at_root_add_route_update_requiring_full_erase_def Let_def)
    have "q \<in> set planned'" unfolding p' using i(1) by (rule set_update_memI)
    moreover have q: "?P q" "enforce_full_update q" using i(2) by (simp_all add: q_def)
    moreover have "filter (\<lambda>p. ini_device_id p = k) planned' = filter (\<lambda>p. ini_device_id p = k) planned"
      if "k \<noteq> upd_device_id u" for k
      unfolding p' using that i(2) q by (intro kept [OF i(1)]) auto
    ultimately show ?thesis by blast
  qed
  with run show ?thesis by blast
qed

section \<open>The state announced with an update\<close>

lemma applied_tables:
  assumes "siot_mesh_at_root_apply_update_to_device_routing_data u d = Some d'"
  shows "upd_device_id u = device_id d"
    "apply_each apply_route_update (if clear_tables_first u then [] else siot_m_route_table_confirmed d) (siot_m_route_table_update u) =
      Some (siot_m_route_table_confirmed d')"
    "apply_each apply_link_update (if clear_tables_first u then [] else siot_m_link_table_confirmed d) (siot_m_link_table_update u) =
      Some (siot_m_link_table_confirmed d')"
  using assms
  by (auto simp: siot_mesh_at_root_apply_update_to_device_routing_data_def Let_def bind_eq_Some_conv)

lemma announced_tables:
  assumes "siot_mesh_at_root_get_device_data s (upd_device_id u) = (SIOT_MESH_AT_ROOT_RET_OK, i)" "i < length (mesh_routing_data s)"
    and "siot_mesh_at_root_apply_update_to_device_routing_data u (mesh_routing_data s ! i) = Some d'"
  obtains d1 where "siot_mesh_at_root_get_confirmed_table_state_after_applying_update s u blank = Some d1"
    "siot_m_route_table_confirmed d1 = siot_m_route_table_confirmed d'" "siot_m_link_table_confirmed d1 = siot_m_link_table_confirmed d'"
proof -
  note t = applied_tables [OF assms(3)]
  let ?d = "mesh_routing_data s ! i"
  let ?b = "blank\<lparr>device_id := device_id ?d, siot_m_link_table_confirmed := siot_m_link_table_confirmed ?d,
    siot_m_route_table_confirmed := siot_m_route_table_confirmed ?d, bus_type_list := bus_type_list ?d,
    is_retransmitter := is_retransmitter ?d\<rparr>"
  have "siot_mesh_at_root_apply_update_to_device_routing_data u ?b =
      Some (?b\<lparr>siot_m_route_table_confirmed := siot_m_route_table_confirmed d', siot_m_link_table_confirmed := siot_m_link_table_confirmed d'\<rparr>)"
    using t by (cases "clear_tables_first u") (simp_all add: siot_mesh_at_root_apply_update_to_device_routing_data_def)
  then have "siot_mesh_at_root_get_confirmed_table_state_after_applying_update s u blank =
      Some (?b\<lparr>siot_m_route_table_confirmed := siot_m_route_table_confirmed d', siot_m_link_table_confirmed := siot_m_link_table_confirmed d'\<rparr>)"
    using assms(1,2) by (simp add: siot_mesh_at_root_get_confirmed_table_state_after_applying_update_def item_def)
  then show thesis by (rule that) simp_all
qed

end
