(* ===== verification/Mesh_Packet.thy ===== *)
theory Mesh_Packet
  imports Mesh_Life Handle_Rules
begin

text \<open>
  The packet of an update: a sequence of packed integers and bytes, as a function of the update, and
  what is written into the response of the handle.
\<close>

section \<open>The entries\<close>

fun route_fields :: "mesh_lib \<Rightarrow> u16 \<Rightarrow> SIOT_MESH_ROUTE_UPDATE \<Rightarrow> u16 list" where
  "route_fields L k (Add_Route r) = [k OR push_bit 1 (ADD_OR_MODIFY_ROUTE_ENTRY L) OR push_bit 3 (rt_LINK_ID r), rt_TARGET_ID r]"
| "route_fields L k (Remove_Route t) = [k OR push_bit 1 (DELETE_ROUTE_ENTRY L) OR push_bit 3 t]"

text \<open>The last field of a link is the 32-bit intra-bus id, always zero.\<close>

fun link_fields :: "mesh_lib \<Rightarrow> u16 \<Rightarrow> SIOT_MESH_LINK_UPDATE \<Rightarrow> u16 list" where
  "link_fields L k (Add_Link l) =
     [k OR push_bit 1 (ADD_OR_MODIFY_LINK_ENTRY L) OR push_bit 4 (lt_LINK_ID l), lt_BUS_ID l, lt_NEXT_HOP l, 0]"
| "link_fields L k (Remove_Link i) = [k OR push_bit 1 (DELETE_LINK_ENTRY L) OR push_bit 3 i]"

text \<open>All entries, routes first; the flag \<open>more\<close> is 1 for all but the last one.\<close>

definition entry_fields :: "mesh_lib \<Rightarrow> u16 \<Rightarrow> SIOT_MESH_ROUTE_UPDATE + SIOT_MESH_LINK_UPDATE \<Rightarrow> u16 list" where
  "entry_fields L k e = (case e of Inl r \<Rightarrow> route_fields L k r | Inr l \<Rightarrow> link_fields L k l)"

definition all_entries :: "SIOT_MESH_DEVICE_ROUTING_DATA_UPDATE \<Rightarrow> (SIOT_MESH_ROUTE_UPDATE + SIOT_MESH_LINK_UPDATE) list" where
  "all_entries u = map Inl (siot_m_route_table_update u) @ map Inr (siot_m_link_table_update u)"

definition update_fields :: "mesh_lib \<Rightarrow> SIOT_MESH_DEVICE_ROUTING_DATA_UPDATE \<Rightarrow> u16 list" where
  "update_fields L u = concat (map (entry_fields L 1) (butlast (all_entries u))) @ entry_fields L 0 (last (all_entries u))"

definition packed_fields :: "u16 list \<Rightarrow> u8 list list" where
  "packed_fields = map (\<lambda>v. packed_nat (unat v))"

lemma packed_fields_append [simp]: "packed_fields (xs @ ys) = packed_fields xs @ packed_fields ys"
  by (simp add: packed_fields_def)

lemma write_route_update_blocks:
  assumes "clear \<longrightarrow> (\<forall>k. u \<noteq> Remove_Route k)"
  shows "as_blocks h (\<lambda>m. write_route_update L m h clear more_data u) (packed_fields (route_fields L more_data u))"
  using as_blocks_seq(1) [OF as_blocks_write(1)] as_blocks_write(1) assms
  by (cases u) (simp_all add: write_route_update_def packed_fields_def)

lemma write_link_update_blocks:
  assumes "clear \<longrightarrow> (\<forall>k. u \<noteq> Remove_Link k)"
  shows "as_blocks h (\<lambda>m. write_link_update L m h clear more_data u) (packed_fields (link_fields L more_data u))"
proof (cases u)
  case (Add_Link l)
  have "as_blocks h (\<lambda>m. do { m \<leftarrow> zepto_parser_encode_and_append_uint16 m h a;
      m \<leftarrow> zepto_parser_encode_and_append_uint16 m h b; m \<leftarrow> zepto_parser_encode_and_append_uint16 m h c;
      zepto_parser_encode_and_append_uint32 m h 0 }) [packed_nat (unat a), packed_nat (unat b), packed_nat (unat c), packed_nat 0]"
    for a b c :: u16
    using as_blocks_write(2) [of h 0] by (intro as_blocks_seq(1)) simp
  then show ?thesis by (simp add: Add_Link write_link_update_def packed_fields_def)
next
  case (Remove_Link k)
  then show ?thesis using as_blocks_write(1) assms by (simp add: write_link_update_def packed_fields_def)
qed

text \<open>The loop over entries \<open>us\<close>, of which \<open>cnt\<close> have come before.\<close>

fun numbered :: "(u16 \<Rightarrow> 'u \<Rightarrow> u16 list) \<Rightarrow> nat \<Rightarrow> nat \<Rightarrow> 'u list \<Rightarrow> u16 list" where
  "numbered f cnt total_cnt [] = []"
| "numbered f cnt total_cnt (u # us) = f (if Suc cnt = total_cnt then 0 else 1) u @ numbered f (Suc cnt) total_cnt us"

lemma write_updates_blocks:
  assumes "\<And>k u. u \<in> set us \<Longrightarrow> as_blocks h (\<lambda>m. wr m k u) (packed_fields (f k u))"
  shows "as_blocks h (\<lambda>m. write_updates wr m cnt total_cnt us) (packed_fields (numbered f cnt total_cnt us))"
  using assms
proof (induction us arbitrary: cnt)
  case Nil
  then show ?case using as_blocks_nothing by (simp add: packed_fields_def)
next
  case (Cons u us)
  have "as_blocks h (\<lambda>m. write_updates wr m (Suc cnt) total_cnt us) (packed_fields (numbered f (Suc cnt) total_cnt us))"
    by (rule Cons.IH) (simp add: Cons.prems)
  from as_blocks_bind [OF Cons.prems [of u "if Suc cnt = total_cnt then 0 else 1"] this] show ?case by simp
qed

lemma numbered_more: "cnt + length us < total_cnt \<Longrightarrow> numbered f cnt total_cnt us = concat (map (f 1) us)"
  by (induction us arbitrary: cnt) auto

lemma numbered_last:
  "us \<noteq> [] \<Longrightarrow> cnt + length us = total_cnt \<Longrightarrow> numbered f cnt total_cnt us = concat (map (f 1) (butlast us)) @ f 0 (last us)"
proof (induction us arbitrary: cnt)
  case (Cons u us)
  then show ?case by (cases us) auto
qed simp

lemma numbered_entries:
  assumes "entries u \<noteq> 0"
  shows "numbered (route_fields L) 0 (entries u) (siot_m_route_table_update u) @
      numbered (link_fields L) (length (siot_m_route_table_update u)) (entries u) (siot_m_link_table_update u) = update_fields L u"
proof (cases "siot_m_link_table_update u = []")
  case True
  then show ?thesis using assms numbered_last [of "siot_m_route_table_update u" 0 "entries u" "route_fields L"]
    by (simp add: entries_def update_fields_def all_entries_def entry_fields_def comp_def last_map map_butlast [symmetric])
next
  case False
  then show ?thesis
    using numbered_more [of 0 "siot_m_route_table_update u" "entries u" "route_fields L"]
      numbered_last [of "siot_m_link_table_update u" "length (siot_m_route_table_update u)" "entries u" "link_fields L"]
    by (simp add: entries_def update_fields_def all_entries_def entry_fields_def comp_def last_map butlast_append map_butlast [symmetric])
qed

section \<open>The packet\<close>

definition packet_blocks :: "mesh_lib \<Rightarrow> SIOT_MESH_DEVICE_ROUTING_DATA_UPDATE \<Rightarrow> u16 \<Rightarrow> u16 \<Rightarrow> u8 list list" where
  "packet_blocks L u ini result = (if clear_tables_first u then [packed_nat 1] else [packed_nat 0, [ucast ini], [ucast (drop_bit 8 ini)]]) @
     packed_fields (update_fields L u) @ [[ucast result], [ucast (drop_bit 8 result)]]"

lemma update_to_packet_blocks:
  assumes ne: "entries u \<noteq> 0" and adds: "clear_tables_first u \<longrightarrow> only_adds u"
    and ini: "\<not> clear_tables_first u \<longrightarrow> item (mesh_routing_data s) (unat (upd_device_id u)) = Some d0"
    and result: "siot_mesh_at_root_get_confirmed_table_state_after_applying_update s u blank = Some d1"
  shows "as_blocks h (\<lambda>m. siot_mesh_at_root_update_to_packet L s blank m h u)
    (packet_blocks L u (calculate_table_checksum d0) (calculate_table_checksum d1))"
proof -
  let ?rs = "siot_m_route_table_update u" and ?ls = "siot_m_link_table_update u" and ?c = "clear_tables_first u"
  let ?i = "calculate_table_checksum d0" and ?r = "calculate_table_checksum d1"
  have fin: "as_blocks h (\<lambda>m. do { m \<leftarrow> zepto_write_uint8 m h a; zepto_write_uint8 m h b }) [[a], [b]]" for a b
    using as_blocks_seq(2) [OF as_blocks_write(3)] by simp
  have routes: "as_blocks h (\<lambda>m. write_updates (\<lambda>m. write_route_update L m h ?c) m 0 (entries u) ?rs)
      (packed_fields (numbered (route_fields L) 0 (entries u) ?rs))"
    using adds by (intro write_updates_blocks write_route_update_blocks) (auto simp: only_adds_def)
  have links: "as_blocks h (\<lambda>m. write_updates (\<lambda>m. write_link_update L m h ?c) m (length ?rs) (entries u) ?ls)
      (packed_fields (numbered (link_fields L) (length ?rs) (entries u) ?ls))"
    using adds by (intro write_updates_blocks write_link_update_blocks) (auto simp: only_adds_def)
  have body: "as_blocks h (\<lambda>m. do {
      m \<leftarrow> write_updates (\<lambda>m. write_route_update L m h ?c) m 0 (entries u) ?rs;
      m \<leftarrow> write_updates (\<lambda>m. write_link_update L m h ?c) m (length ?rs) (entries u) ?ls;
      m \<leftarrow> zepto_write_uint8 m h (ucast ?r); zepto_write_uint8 m h (ucast (drop_bit 8 ?r)) })
      (packed_fields (update_fields L u) @ [[ucast ?r], [ucast (drop_bit 8 ?r)]])"
    using as_blocks_bind [OF routes as_blocks_bind [OF links fin]] numbered_entries [OF ne, of L, symmetric] by simp
  have head: "as_blocks h (\<lambda>m. do { m \<leftarrow> zepto_parser_encode_and_append_uint16 m h (if ?c then 1 else 0);
      if \<not> ?c then do { m \<leftarrow> zepto_write_uint8 m h (ucast ?i); zepto_write_uint8 m h (ucast (drop_bit 8 ?i)) } else Some m })
      (if ?c then [packed_nat 1] else [packed_nat 0, [ucast ?i], [ucast (drop_bit 8 ?i)]])"
    using as_blocks_seq(1) [where v = 1, OF as_blocks_nothing] as_blocks_seq(1) [where v = 0, OF fin] by simp
  show ?thesis
  proof (cases ?c)
    case True
    with as_blocks_bind [OF head body] ne result show ?thesis
      by (simp add: siot_mesh_at_root_update_to_packet_def packet_blocks_def entries_def Let_def)
  next
    case False
    with as_blocks_bind [OF head body] ne result ini show ?thesis
      by (simp add: siot_mesh_at_root_update_to_packet_def packet_blocks_def entries_def Let_def)
  qed
qed

end
