(* ===== verification/Mesh_Properties.thy ===== *)
theory Mesh_Properties
  imports Mesh_Packet Sample_Heaps
begin

text \<open>
  The properties of the routing tables of the mesh and of the updates the root sends to its
  devices.
\<close>

section \<open>A sample network\<close>

definition sample_link :: SIOT_MESH_LINK where
  "sample_link = \<lparr>lt_LINK_ID = 0, lt_BUS_ID = 2, lt_INTRA_BUS_ID = 0, lt_NEXT_HOP = 0\<rparr>"

definition sample_route :: SIOT_MESH_ROUTE where
  "sample_route = \<lparr>rt_TARGET_ID = 0, rt_LINK_ID = 0\<rparr>"

definition sample_device :: "u16 \<Rightarrow> SIOT_MESH_DEVICE_ROUTE_AND_LINK_DATA" where
  "sample_device k = \<lparr>device_id = k, is_retransmitter = False, bus_id_max = 3, last_from_santa_request_id = 0,
     time_to_sent_next_from_santa = \<lparr>low_t = 0, high_t = 0\<rparr>, from_santa_sequence_started = False,
     siot_m_route_table_confirmed = [], siot_m_link_table_confirmed = [],
     siot_m_route_table_planned = [sample_route], siot_m_link_table_planned = [sample_link], bus_type_list = []\<rparr>"

text \<open>The root and device 1, which is to learn its way to the root.\<close>

definition sample_mesh :: mesh where
  "sample_mesh = \<lparr>mesh_routing_data = [(sample_device 0)\<lparr>siot_m_route_table_planned := [], siot_m_link_table_planned := []\<rparr>, sample_device 1],
     next_check_time = \<lparr>low_t = 0, high_t = 0\<rparr>, planned_updates = [\<lparr>ini_device_id = 1, enforce_full_update = False, ini_affected_routes = [1]\<rparr>],
     mesh_routing_data_updates_in_progress = [], last_hops_of_all_devices = [], from_santa_request_id = 0, pending_resends = []\<rparr>"

lemmas sample_defs = sample_mesh_def sample_device_def sample_link_def sample_route_def

lemma sample_mesh:
  "dbg_siot_mesh_at_root_validate_all_device_tables (mesh_routing_data sample_mesh) = Some ()"
  "\<forall>p \<in> set (planned_updates sample_mesh). \<exists>d \<in> set (mesh_routing_data sample_mesh). device_id d = ini_device_id p"
  by (simp_all add: sample_defs validate_all_iff dbg_siot_mesh_at_root_validate_device_tables_def tables_valid_iff)

section \<open>Tables\<close>

text \<open>
  C29: The route and link tables are maps sorted by id: adding or updating an entry is updating the
  map at its id, removing is deleting it, and both keep the table strictly sorted.
\<close>

theorem tables_are_maps:
  assumes "ordered rt_TARGET_ID rt" "ordered lt_LINK_ID lt"
  shows "ordered rt_TARGET_ID (siot_mesh_at_root_add_or_update_route rt r) \<and>
    table_map rt_TARGET_ID (siot_mesh_at_root_add_or_update_route rt r) = (table_map rt_TARGET_ID rt)(rt_TARGET_ID r \<mapsto> r) \<and>
    ordered rt_TARGET_ID (siot_mesh_at_root_remove_route rt k) \<and>
    table_map rt_TARGET_ID (siot_mesh_at_root_remove_route rt k) = (table_map rt_TARGET_ID rt)(k := None) \<and>
    ordered lt_LINK_ID (siot_mesh_at_root_add_or_update_link lt l) \<and>
    table_map lt_LINK_ID (siot_mesh_at_root_add_or_update_link lt l) = (table_map lt_LINK_ID lt)(lt_LINK_ID l \<mapsto> l) \<and>
    ordered lt_LINK_ID (siot_mesh_at_root_remove_link lt k) \<and>
    table_map lt_LINK_ID (siot_mesh_at_root_remove_link lt k) = (table_map lt_LINK_ID lt)(k := None)"
  using assms routes.put_ordered routes.put_map routes.del_ordered routes.del_map
    links.put_ordered links.put_map links.del_ordered links.del_map by blast

theorem tables_are_maps_witness:
  "ordered rt_TARGET_ID (siot_mesh_at_root_add_or_update_route [sample_route] \<lparr>rt_TARGET_ID = 7, rt_LINK_ID = 1\<rparr>) \<and>
   ordered lt_LINK_ID (siot_mesh_at_root_remove_link [sample_link] 0)"
  using tables_are_maps [of "[sample_route]" "[sample_link]" "\<lparr>rt_TARGET_ID = 7, rt_LINK_ID = 1\<rparr>" 0] by simp

text \<open>
  A link is inserted under the smallest id that is not in use, written back to the caller's
  link, and the table is the one with this link added.
\<close>

lemma link_gets_free_id:
  assumes "ordered lt_LINK_ID t" "length t < 65536"
  shows "\<exists>k. siot_mesh_at_root_insert_link t link =
      (link\<lparr>lt_LINK_ID := k\<rparr>, siot_mesh_at_root_add_or_update_link t (link\<lparr>lt_LINK_ID := k\<rparr>)) \<and>
    k \<notin> lt_LINK_ID ` set t \<and> (\<forall>j < k. j \<in> lt_LINK_ID ` set t)"
  by (rule insert_link_effect [OF assms])

lemma link_gets_free_id_witness:
  "lt_LINK_ID (fst (siot_mesh_at_root_insert_link [sample_link, sample_link\<lparr>lt_LINK_ID := 2\<rparr>] sample_link)) \<notin> {0, 2}"
  using link_gets_free_id [of "[sample_link, sample_link\<lparr>lt_LINK_ID := 2\<rparr>]" sample_link] by (auto simp: sample_link_def)

text \<open>
  The validation of the tables passes exactly if all four tables are strictly sorted and the
  link ids that routes refer to are the ids in the link table, both for the confirmed and for the
  planned tables.
\<close>

lemma validation:
  "dbg_siot_mesh_at_root_validate_device_tables d = Some () \<longleftrightarrow>
    ordered rt_TARGET_ID (siot_m_route_table_confirmed d) \<and> ordered lt_LINK_ID (siot_m_link_table_confirmed d) \<and>
    rt_LINK_ID ` set (siot_m_route_table_confirmed d) = lt_LINK_ID ` set (siot_m_link_table_confirmed d) \<and>
    ordered rt_TARGET_ID (siot_m_route_table_planned d) \<and> ordered lt_LINK_ID (siot_m_link_table_planned d) \<and>
    rt_LINK_ID ` set (siot_m_route_table_planned d) = lt_LINK_ID ` set (siot_m_link_table_planned d)"
  by (simp add: dbg_siot_mesh_at_root_validate_device_tables_def tables_valid_iff)

text \<open>
  C30: The update computed from the confirmed and the planned tables can always be computed, that
  is, its own check never fails, and applying it to the device makes the confirmed tables the
  planned ones and changes nothing else.
\<close>

theorem diff_is_right:
  assumes "ordered rt_TARGET_ID (siot_m_route_table_confirmed d)" "ordered lt_LINK_ID (siot_m_link_table_confirmed d)"
    and "ordered rt_TARGET_ID (siot_m_route_table_planned d)" "ordered lt_LINK_ID (siot_m_link_table_planned d)"
    and "siot_m_route_table_update u = []" "siot_m_link_table_update u = []"
  shows "\<exists>u'. siot_mesh_at_root_get_diff_as_update d u = Some u' \<and>
    siot_mesh_at_root_apply_update_to_device_routing_data u' d =
      Some (d\<lparr>siot_m_route_table_confirmed := siot_m_route_table_planned d, siot_m_link_table_confirmed := siot_m_link_table_planned d\<rparr>)"
  using diff_as_update [of d u] assms by (auto simp: tables_ordered_def confirmed_as_planned_def)

theorem diff_is_right_witness:
  "\<exists>u'. siot_mesh_at_root_get_diff_as_update (sample_device 1) new_update = Some u' \<and>
    map_option siot_m_link_table_confirmed (siot_mesh_at_root_apply_update_to_device_routing_data u' (sample_device 1)) =
      Some [sample_link]"
  using diff_is_right [of "sample_device 1" new_update] by (auto simp: sample_device_def new_update_def)

text \<open>
  C31: The checksum of a device is the Fletcher checksum of its confirmed tables written out as
  bytes: the number of routes, the routes, the number of links, the links.
\<close>

theorem checksum_of_tables:
  assumes "length (siot_m_route_table_confirmed d) < 65536" "length (siot_m_link_table_confirmed d) < 65536"
  shows "halves (calculate_table_checksum d) =
    (sum_list (map unat (table_bytes (siot_m_route_table_confirmed d) (siot_m_link_table_confirmed d))) mod 255,
     weighted_sum (map unat (table_bytes (siot_m_route_table_confirmed d) (siot_m_link_table_confirmed d))) mod 255)"
  unfolding table_checksum [OF assms] by (rule fletcher_16)

theorem checksum_of_tables_witness:
  "halves (calculate_table_checksum (sample_device 3)) = (0, 0)"
  using checksum_of_tables [of "sample_device 3"]
  by (simp add: sample_device_def table_bytes_def u16_bytes_def u16_of_def)

section \<open>The life of an update\<close>



text \<open>
  An update that is started and then reported as failed is planned again as a full update of
  the same device; no table has changed, the other updates in progress are as they were, and what
  is planned for other devices as well.
\<close>

lemma update_failed_plans_full:
  assumes "dbg_siot_mesh_at_root_validate_all_device_tables (mesh_routing_data s) = Some ()"
    and "\<forall>p \<in> set (planned_updates s). \<exists>d \<in> set (mesh_routing_data s). device_id d = ini_device_id p"
    and "siot_mesh_at_root_get_next_update s = Some (SIOT_MESH_AT_ROOT_RET_OK, Some u, s1)"
  shows "\<exists>planned'. siot_mesh_at_root_update_failed s1 (upd_device_id u) =
      Some (SIOT_MESH_AT_ROOT_RET_OK, s\<lparr>planned_updates := planned'\<rparr>) \<and>
    (\<exists>p \<in> set planned'. ini_device_id p = upd_device_id u \<and> enforce_full_update p) \<and>
    (\<forall>k. k \<noteq> upd_device_id u \<longrightarrow> filter (\<lambda>p. ini_device_id p = k) planned' = filter (\<lambda>p. ini_device_id p = k) (planned_updates s1))"
proof -
  from next_update_total [OF assms(1,2)] assms(3) obtain planned where
    "s1 = s\<lparr>planned_updates := planned, mesh_routing_data_updates_in_progress := mesh_routing_data_updates_in_progress s @ [u]\<rparr>"
    "\<not> in_progress s (upd_device_id u)" by auto
  with update_given_up [OF assms(1), of u planned] show ?thesis by simp
qed

definition sample_update :: SIOT_MESH_DEVICE_ROUTING_DATA_UPDATE where
  "sample_update = \<lparr>upd_device_id = 1, clear_tables_first = False, siot_m_route_table_update = [Add_Route sample_route],
     siot_m_link_table_update = [Add_Link sample_link], upd_affected_routes = []\<rparr>"

definition started_mesh :: mesh where
  "started_mesh = sample_mesh\<lparr>planned_updates := [], mesh_routing_data_updates_in_progress := [sample_update]\<rparr>"

lemma sample_next: "siot_mesh_at_root_get_next_update sample_mesh = Some (SIOT_MESH_AT_ROOT_RET_OK, Some sample_update, started_mesh)"
  unfolding started_mesh_def sample_update_def sample_defs by code_simp

lemma update_failed_plans_full_witness:
  "\<exists>s2. siot_mesh_at_root_update_failed started_mesh 1 = Some (SIOT_MESH_AT_ROOT_RET_OK, s2) \<and>
    (\<exists>p \<in> set (planned_updates s2). ini_device_id p = 1 \<and> enforce_full_update p)"
  using update_failed_plans_full [OF sample_mesh sample_next] by (auto simp: sample_update_def)

text \<open>
  C33: The packet of an update holds the flags, for a partial update the checksum the tables have
  before, every entry of the update with the flag that more follow on all but the last, and the
  checksum of the planned tables, which is the one the copy of the device will have when the update
  is confirmed. It is written exactly if it fits. The checksum before is taken from the entry at the index
  that equals the device id.
\<close>

theorem update_packet:
  assumes valid: "dbg_siot_mesh_at_root_validate_all_device_tables (mesh_routing_data s) = Some ()"
    and devices: "\<forall>p \<in> set (planned_updates s). \<exists>d \<in> set (mesh_routing_data s). device_id d = ini_device_id p"
    and next_u: "siot_mesh_at_root_get_next_update s = Some (SIOT_MESH_AT_ROOT_RET_OK, Some u, s1)"
    and id: "0 < upd_device_id u" "unat (upd_device_id u) < length (mesh_routing_data s)"
    and i: "siot_mesh_at_root_get_device_data s (upd_device_id u) = (SIOT_MESH_AT_ROOT_RET_OK, i)"
    and heap: "heap_inv m" "content m h = Some (rq, rsp)"
    and bs: "bs = concat (packet_blocks L u (calculate_table_checksum (mesh_routing_data s ! unat (upd_device_id u)))
      (calculate_table_checksum ((mesh_routing_data s ! i)
        \<lparr>siot_m_route_table_confirmed := siot_m_route_table_planned (mesh_routing_data s ! i),
         siot_m_link_table_confirmed := siot_m_link_table_planned (mesh_routing_data s ! i)\<rparr>)))"
  shows "if int (length bs) \<le> free_space m
    then \<exists>m'. siot_mesh_at_root_load_update_to_packet L s blank m h =
        Some (SIOT_MESH_AT_ROOT_RET_OK, Some (upd_device_id u), s1, m') \<and>
      heap_inv m' \<and> content m' = (content m)(h \<mapsto> (rq, rsp @ bs))
    else siot_mesh_at_root_load_update_to_packet L s blank m h = None"
proof -
  let ?d = "mesh_routing_data s ! i" and ?e = "mesh_routing_data s ! unat (upd_device_id u)"
  from next_update_total [OF valid devices] next_u obtain planned where
    s1: "s1 = s\<lparr>planned_updates := planned, mesh_routing_data_updates_in_progress := mesh_routing_data_updates_in_progress s @ [u]\<rparr>"
    and up: "brings_up_to_date s u" by auto
  from up i have ne: "entries u \<noteq> 0" and adds: "clear_tables_first u \<longrightarrow> only_adds u" and len: "i < length (mesh_routing_data s)"
    and ap: "siot_mesh_at_root_apply_update_to_device_routing_data u ?d = Some (confirmed_as_planned ?d)"
    by (auto simp: brings_up_to_date_def)
  have i1: "siot_mesh_at_root_get_device_data s1 (upd_device_id u) = (SIOT_MESH_AT_ROOT_RET_OK, i)"
    using i unfolding device_data_found s1 by simp
  have data: "mesh_routing_data s1 = mesh_routing_data s" by (simp add: s1)
  have len1: "i < length (mesh_routing_data s1)"
    and ap1: "siot_mesh_at_root_apply_update_to_device_routing_data u (mesh_routing_data s1 ! i) = Some (confirmed_as_planned ?d)"
    using len ap by (simp_all only: data)
  obtain d1 where "siot_mesh_at_root_get_confirmed_table_state_after_applying_update s1 u blank = Some d1"
    "siot_m_route_table_confirmed d1 = siot_m_route_table_confirmed (confirmed_as_planned ?d)"
    "siot_m_link_table_confirmed d1 = siot_m_link_table_confirmed (confirmed_as_planned ?d)"
    by (rule announced_tables [OF i1 len1 ap1])
  then have d1: "siot_mesh_at_root_get_confirmed_table_state_after_applying_update s1 u blank = Some d1"
    "siot_m_route_table_confirmed d1 = siot_m_route_table_planned ?d" "siot_m_link_table_confirmed d1 = siot_m_link_table_planned ?d"
    by (simp_all add: confirmed_as_planned_def)
  have "item (mesh_routing_data s1) (unat (upd_device_id u)) = Some ?e" using id(2) by (simp add: item_def data)
  from update_to_packet_blocks [OF ne adds impI [OF this] d1(1), of h L]
  have blocks: "as_blocks h (\<lambda>m. siot_mesh_at_root_update_to_packet L s1 blank m h u)
    (packet_blocks L u (calculate_table_checksum ?e) (calculate_table_checksum d1))" .
  have sum: "calculate_table_checksum d1 = calculate_table_checksum (?d\<lparr>siot_m_route_table_confirmed := siot_m_route_table_planned ?d,
      siot_m_link_table_confirmed := siot_m_link_table_planned ?d\<rparr>)"
    by (simp add: calculate_table_checksum_def d1)
  note load = siot_mesh_at_root_load_update_to_packet_def
  show ?thesis
  proof (cases "int (length bs) \<le> free_space m")
    case True
    from as_blocks_fit [OF blocks heap] True obtain m' where
      "siot_mesh_at_root_update_to_packet L s1 blank m h u = Some m'" "heap_inv m'" "content m' = (content m)(h \<mapsto> (rq, rsp @ bs))"
      unfolding bs sum by blast
    then show ?thesis using True next_u id(1) valid by (simp add: load data)
  next
    case False
    then have "siot_mesh_at_root_update_to_packet L s1 blank m h u = None"
      using heap.blocks_full [OF heap] blocks heap unfolding bs sum by (simp add: as_blocks_def)
    then show ?thesis using False next_u by (simp add: load)
  qed
qed

text \<open>The numbers of the protocol library, for the sample.\<close>

definition sample_lib :: mesh_lib where
  "sample_lib = \<lparr>ADD_OR_MODIFY_ROUTE_ENTRY = 0, DELETE_ROUTE_ENTRY = 1, ADD_OR_MODIFY_LINK_ENTRY = 2, DELETE_LINK_ENTRY = 3,
     SIOT_MESH_TARGET_UNDEFINED = 0xFFFF, SIOT_MESH_BUS_UNDEFINED = 0xFFFF, SIOT_MESH_LINK_ID_UNDEFINED = 0xFFFF,
     SIOT_MESH_NEXT_HOP_UNDEFINED = 0xFFFF, SIOT_MESH_SUBJECT_FOR_MESH_RESEND = 3,
     SIOT_MESH_FROM_SANTA_DATA_PACKET = 1, zero_milliseconds_tval = \<lparr>low_t = 0, high_t = 0\<rparr>,
     MESH_CHECK_ROUTS_TO_RETRANSMITTERS_tval = \<lparr>low_t = 5000, high_t = 0\<rparr>,
     MESH_RECEIVING_HOPS_PERIOD_tval = \<lparr>low_t = 300, high_t = 0\<rparr>, MESH_RESEND_PERIOD_tval = \<lparr>low_t = 800, high_t = 0\<rparr>,
     sa_hal_time_val_is_less_eq = (\<lambda>a b. ticks a \<le> ticks b),
     sa_hal_time_val_get_remaining_time = (\<lambda>now t old. (ticks now < ticks t, old)),
     sa_hal_time_val_copy_from_if_src_less = (\<lambda>dst src. if ticks src < ticks dst then src else dst),
     zepto_parser_calculate_checksum_of_part_of_response = (\<lambda>m h off sz ini.
       fold update_fletcher_checksum16 (take (nat sz) (drop (nat off) (snd (the (content m h))))) ini)\<rparr>"

lemma sample_packet:
  "concat (packet_blocks sample_lib sample_update (calculate_table_checksum (mesh_routing_data sample_mesh ! unat (upd_device_id sample_update)))
      (calculate_table_checksum ((mesh_routing_data sample_mesh ! 1)
        \<lparr>siot_m_route_table_confirmed := siot_m_route_table_planned (mesh_routing_data sample_mesh ! 1),
         siot_m_link_table_confirmed := siot_m_link_table_planned (mesh_routing_data sample_mesh ! 1)\<rparr>))) =
    [0, 0, 0, 1, 0, 4, 2, 0, 0, 4, 30]"
proof -
  have f: "update_fields sample_lib sample_update = [1, 0, 4, 2, 0, 0]"
    and i: "calculate_table_checksum (mesh_routing_data sample_mesh ! unat (upd_device_id sample_update)) = 0"
    and r: "calculate_table_checksum ((mesh_routing_data sample_mesh ! 1)
        \<lparr>siot_m_route_table_confirmed := siot_m_route_table_planned (mesh_routing_data sample_mesh ! 1),
         siot_m_link_table_confirmed := siot_m_link_table_planned (mesh_routing_data sample_mesh ! 1)\<rparr>) = 0x1E04"
    unfolding sample_lib_def sample_update_def sample_defs by code_simp+
  have b: "ucast (0x1E04 :: u16) = (4 :: u8)" "ucast (drop_bit 8 (0x1E04 :: u16)) = (30 :: u8)" by code_simp+
  show ?thesis unfolding f i r packet_blocks_def b
    by (simp add: sample_update_def packed_fields_def packed_nat.simps)
qed

theorem update_packet_witness:
  "\<exists>m'. siot_mesh_at_root_load_update_to_packet sample_lib sample_mesh (sample_device 0) fresh_heap 1 =
      Some (SIOT_MESH_AT_ROOT_RET_OK, Some 1, started_mesh, m') \<and>
    content m' 1 = Some ([], [0, 0, 0, 1, 0, 4, 2, 0, 0, 4, 30])"
proof -
  have id: "upd_device_id sample_update = 1" by (simp add: sample_update_def)
  have pos: "0 < upd_device_id sample_update" "unat (upd_device_id sample_update) < length (mesh_routing_data sample_mesh)"
    by (simp_all add: id sample_mesh_def)
  have i: "siot_mesh_at_root_get_device_data sample_mesh (upd_device_id sample_update) = (SIOT_MESH_AT_ROOT_RET_OK, 1)"
    by (simp add: id siot_mesh_at_root_get_device_data_def sample_mesh_def sample_device_def)
  have c: "content fresh_heap 1 = Some ([], [])" using fresh_heap(4) by simp
  from update_packet [OF sample_mesh sample_next pos i fresh_heap(2) c sample_packet [symmetric], of "sample_device 0"]
  show ?thesis using fresh_heap(5) by (auto simp: id)
qed

end
