(* ===== verification/Mesh_Hops.thy ===== *)
theory Mesh_Hops
  imports Mesh_Root
begin

text \<open>
  Answers to a "from santa" search (\<open>commstack_siot_mesh_support.cpp\<close>): for each device that is being
  looked for, the last hops over which its answer came in and the first hops that received it, and
  the choice of a route from them once the time for receiving is over.
\<close>

section \<open>Model\<close>

definition get_next_from_santa_request_id :: "mesh \<Rightarrow> u16 \<times> mesh" where
  "get_next_from_santa_request_id s =
     (let r = from_santa_request_id s + 1 in (r, s\<lparr>from_santa_request_id := r\<rparr>))"

definition is_from_santa_request_id_less_eq :: "u16 \<Rightarrow> u16 \<Rightarrow> bool" where
  "is_from_santa_request_id_less_eq prev_id new_id \<longleftrightarrow> new_id - prev_id < 0x8000"

definition same_hop :: "SIOT_MESH_LAST_HOP_DATA \<Rightarrow> SIOT_MESH_LAST_HOP_DATA \<Rightarrow> bool" where
  "same_hop hop h \<longleftrightarrow> last_hop_id h = last_hop_id hop \<and> last_hop_bus_id h = last_hop_bus_id hop"

text \<open>The loop over the hops known so far: a known hop must come with the same quality.\<close>

definition add_hop :: "SIOT_MESH_LAST_HOP_DATA \<Rightarrow> SIOT_MESH_LAST_HOP_DATA list \<Rightarrow> SIOT_MESH_LAST_HOP_DATA list option" where
  "add_hop hop hops = (case find (same_hop hop) hops of
     Some h \<Rightarrow> do { assert (conn_quality h = conn_quality hop); Some hops }
   | None \<Rightarrow> Some (hops @ [hop]))"

definition add_hop_in :: "SIOT_MESH_LAST_HOP_DATA \<Rightarrow> DEVICE_LAST_HOPS \<Rightarrow> DEVICE_LAST_HOPS option" where
  "add_hop_in hop d = map_option (\<lambda>hops. d\<lparr>last_hops_in := hops\<rparr>) (add_hop hop (last_hops_in d))"

definition add_hop_out :: "SIOT_MESH_LAST_HOP_DATA \<Rightarrow> DEVICE_LAST_HOPS \<Rightarrow> DEVICE_LAST_HOPS option" where
  "add_hop_out hop d = map_option (\<lambda>hops. d\<lparr>last_hops_out := hops\<rparr>) (add_hop hop (last_hops_out d))"

text \<open>
  The loop over the devices with hops: the list with the entry of \<open>src_id\<close> changed by \<open>add\<close>, or
  nothing if there is no such entry. Every round looks up \<open>src_id\<close> among the devices.
\<close>

fun add_to_device ::
  "mesh_ret \<Rightarrow> u16 \<Rightarrow> (DEVICE_LAST_HOPS \<Rightarrow> DEVICE_LAST_HOPS option) \<Rightarrow> DEVICE_LAST_HOPS list \<Rightarrow> DEVICE_LAST_HOPS list option option" where
  "add_to_device ret_code src_id add [] = Some None"
| "add_to_device ret_code src_id add (d # ds) = do {
     assert (ret_code = SIOT_MESH_AT_ROOT_RET_OK);
     if dlh_device_id d = src_id then do {
       d \<leftarrow> add d;
       Some (Some (d # ds))
     } else map_option (map_option ((#) d)) (add_to_device ret_code src_id add ds)
   }"

definition siot_mesh_at_root_add_last_hop_in_data ::
  "mesh_lib \<Rightarrow> sa_time_val \<Rightarrow> mesh \<Rightarrow> sa_time_val \<Rightarrow> u16 \<Rightarrow> u16 \<Rightarrow> u16 \<Rightarrow> u16 \<Rightarrow> u8 \<Rightarrow> (mesh_ret \<times> mesh) option" where
  "siot_mesh_at_root_add_last_hop_in_data L blank s currt request_id src_id hop_id hop_bus_id conn_q = (
     let (ret_code, i) = siot_mesh_at_root_get_device_data s hop_id
     in if ret_code \<noteq> SIOT_MESH_AT_ROOT_RET_OK then Some (SIOT_MESH_AT_ROOT_RET_INVALID_PARAM, s)
     else do {
       it_last_hop \<leftarrow> item (mesh_routing_data s) i;
       if bus_id_max it_last_hop \<le> hop_bus_id then Some (SIOT_MESH_AT_ROOT_RET_INVALID_PARAM, s)
       else do {
         let hop = \<lparr>last_hop_id = hop_id, last_hop_bus_id = hop_bus_id, conn_quality = conn_q\<rparr>;
         let (ret_code, i) = siot_mesh_at_root_get_device_data s src_id;
         known \<leftarrow> add_to_device ret_code src_id (add_hop_in hop) (last_hops_of_all_devices s);
         case known of
           Some hops \<Rightarrow> Some (SIOT_MESH_AT_ROOT_RET_OK, s\<lparr>last_hops_of_all_devices := hops\<rparr>)
         | None \<Rightarrow> do {
             assert (ret_code = SIOT_MESH_AT_ROOT_RET_OK);
             it \<leftarrow> item (mesh_routing_data s) i;
             if is_from_santa_request_id_less_eq request_id (last_from_santa_request_id it)
             then Some (SIOT_MESH_AT_ROOT_RET_IGNORED, s)
             else
               let it = it\<lparr>last_from_santa_request_id := request_id\<rparr>;
                   dev_hops = \<lparr>dlh_device_id = src_id, dlh_request_id = request_id,
                     end_of_receiving = SA_TIME_INCREMENT_BY_TICKS (sa_hal_time_val_copy_from blank currt)
                       (MESH_RECEIVING_HOPS_PERIOD_tval L),
                     last_hops_in = [hop], last_hops_out = []\<rparr>
               in Some (SIOT_MESH_AT_ROOT_RET_OK,
                    s\<lparr>mesh_routing_data := (mesh_routing_data s)[i := it],
                      last_hops_of_all_devices := last_hops_of_all_devices s @ [dev_hops]\<rparr>)
           }
       }
     })"

definition siot_mesh_at_root_add_last_hop_out_data ::
  "mesh_lib \<Rightarrow> sa_time_val \<Rightarrow> mesh \<Rightarrow> sa_time_val \<Rightarrow> u16 \<Rightarrow> u16 \<Rightarrow> u16 \<Rightarrow> u16 \<Rightarrow> u8 \<Rightarrow> (mesh_ret \<times> mesh) option" where
  "siot_mesh_at_root_add_last_hop_out_data L blank s currt request_id src_id bus_id_at_src first_receiver_id conn_q = (
     let (ret_code, i) = siot_mesh_at_root_get_device_data s src_id
     in if ret_code \<noteq> SIOT_MESH_AT_ROOT_RET_OK then Some (SIOT_MESH_AT_ROOT_RET_INVALID_PARAM, s)
     else do {
       it_src \<leftarrow> item (mesh_routing_data s) i;
       if bus_id_max it_src \<le> bus_id_at_src then Some (SIOT_MESH_AT_ROOT_RET_INVALID_PARAM, s)
       else do {
         let hop = \<lparr>last_hop_id = first_receiver_id, last_hop_bus_id = bus_id_at_src, conn_quality = conn_q\<rparr>;
         let (ret_code, i) = siot_mesh_at_root_get_device_data s src_id;
         known \<leftarrow> add_to_device ret_code src_id (add_hop_out hop) (last_hops_of_all_devices s);
         case known of
           Some hops \<Rightarrow> Some (SIOT_MESH_AT_ROOT_RET_OK, s\<lparr>last_hops_of_all_devices := hops\<rparr>)
         | None \<Rightarrow> do {
             assert (ret_code = SIOT_MESH_AT_ROOT_RET_OK);
             it \<leftarrow> item (mesh_routing_data s) i;
             if request_id \<le> last_from_santa_request_id it then Some (SIOT_MESH_AT_ROOT_RET_IGNORED, s)
             else
               let dev_hops = \<lparr>dlh_device_id = src_id, dlh_request_id = request_id,
                     end_of_receiving = SA_TIME_INCREMENT_BY_TICKS (sa_hal_time_val_copy_from blank currt)
                       (MESH_RESEND_PERIOD_tval L),
                     last_hops_in = [hop], last_hops_out = []\<rparr>
               in Some (SIOT_MESH_AT_ROOT_RET_OK,
                    s\<lparr>last_hops_of_all_devices := last_hops_of_all_devices s @ [dev_hops]\<rparr>)
           }
       }
     })"

section \<open>Choosing a route\<close>

definition SIOT_MESH_IS_QUALITY_OF_INCOMING_CONNECTION_ADMISSIBLE :: "u8 \<Rightarrow> bool" where
  "SIOT_MESH_IS_QUALITY_OF_INCOMING_CONNECTION_ADMISSIBLE x \<longleftrightarrow> x < 0x7F"

definition SIOT_MESH_IS_QUALITY_OF_OUTGOING_CONNECTION_ADMISSIBLE :: "u8 \<Rightarrow> bool" where
  "SIOT_MESH_IS_QUALITY_OF_OUTGOING_CONNECTION_ADMISSIBLE x \<longleftrightarrow> x < 0x7F"

text \<open>The result of a search, with the positions kept for the comparison.\<close>

record found_route =
  fr_last_in :: nat
  fr_last_out :: nat
  fr_id_prev :: u16
  fr_bus_id_at_prev :: u16
  fr_id_next :: u16
  fr_bus_id_at_target :: u16

text \<open>
  The macro compares with the hops at \<open>last_in\<close> and \<open>last_out\<close>; the second is only read if the first
  qualities are equal.
\<close>

definition SIOT_MESH_IS_QUALITY_OF_FIRST_INOUT_CONNECTION_BETTER ::
  "u8 \<Rightarrow> u8 \<Rightarrow> u8 option \<Rightarrow> u8 option \<Rightarrow> bool option" where
  "SIOT_MESH_IS_QUALITY_OF_FIRST_INOUT_CONNECTION_BETTER in1 out1 in2 out2 = do {
     in2 \<leftarrow> in2;
     if in1 < in2 then Some True
     else if in1 = in2 then do { out2 \<leftarrow> out2; Some (out1 < out2) }
     else Some False
   }"

text \<open>
  The two inner loops for the device at index \<open>i\<close>, over incoming hops from \<open>j\<close> and outgoing hops
  from \<open>k\<close>; \<open>cnt\<close> is \<open>match_cnt\<close> and \<open>found\<close> the route found last.
\<close>

fun out_hops_loop ::
  "DEVICE_LAST_HOPS \<Rightarrow> nat \<Rightarrow> nat \<Rightarrow> SIOT_MESH_LAST_HOP_DATA \<Rightarrow> SIOT_MESH_LAST_HOP_DATA list \<Rightarrow>
   u16 \<times> found_route option \<Rightarrow> (u16 \<times> found_route option) option" where
  "out_hops_loop d i j h [] (cnt, found) = Some (cnt, found)"
| "out_hops_loop d i j h (g # gs) (cnt, found) =
     (if last_hop_id h = last_hop_id g \<and> SIOT_MESH_IS_QUALITY_OF_OUTGOING_CONNECTION_ADMISSIBLE (conn_quality g)
      then do {
        better \<leftarrow> (if cnt = 0 then Some True else do {
          r \<leftarrow> found;
          SIOT_MESH_IS_QUALITY_OF_FIRST_INOUT_CONNECTION_BETTER (conn_quality h) (conn_quality g)
            (map_option conn_quality (item (last_hops_in d) (fr_last_in r)))
            (map_option conn_quality (item (last_hops_out d) (fr_last_out r)))
        });
        if better then
          out_hops_loop d i j h gs (cnt + 1, Some \<lparr>fr_last_in = i, fr_last_out = j, fr_id_prev = last_hop_id h,
            fr_bus_id_at_prev = last_hop_bus_id h, fr_id_next = last_hop_id g, fr_bus_id_at_target = last_hop_bus_id g\<rparr>)
        else out_hops_loop d i j h gs (cnt, found)
      } else out_hops_loop d i j h gs (cnt, found))"

fun in_hops_loop ::
  "DEVICE_LAST_HOPS \<Rightarrow> nat \<Rightarrow> nat \<Rightarrow> SIOT_MESH_LAST_HOP_DATA list \<Rightarrow>
   u16 \<times> found_route option \<Rightarrow> (u16 \<times> found_route option) option" where
  "in_hops_loop d i j [] (cnt, found) = Some (cnt, found)"
| "in_hops_loop d i j (h # hs) (cnt, found) =
     (if SIOT_MESH_IS_QUALITY_OF_INCOMING_CONNECTION_ADMISSIBLE (conn_quality h)
      then do {
        r \<leftarrow> out_hops_loop d i j h (last_hops_out d) (cnt, found);
        in_hops_loop d i (j + 1) hs r
      } else in_hops_loop d i (j + 1) hs (cnt, found))"

lemma length_drop_item: "i < length xs \<Longrightarrow> length (drop_item i xs) < length xs"
  by (simp add: drop_item_def)

text \<open>
  The \<open>do\<close> loop. It starts again with the list without a device for which there is no route. The
  result has the \<open>target_id\<close> written last, the route found, and the devices left.
\<close>

function best_route_loop ::
  "mesh_lib \<Rightarrow> sa_time_val \<Rightarrow> u16 option \<Rightarrow> DEVICE_LAST_HOPS list \<Rightarrow>
   (mesh_ret \<times> u16 option \<times> found_route option \<times> DEVICE_LAST_HOPS list) option" where
  "best_route_loop L currt target_id ds =
     (case first_index (\<lambda>d. sa_hal_time_val_is_less_eq L (end_of_receiving d) currt) ds of
        None \<Rightarrow> Some (SIOT_MESH_AT_ROOT_RET_RESEND_TASK_NOT_NOW, target_id, None, ds)
      | Some i \<Rightarrow>
          if last_hops_in (ds ! i) = [] \<or> last_hops_out (ds ! i) = []
          then best_route_loop L currt target_id (drop_item i ds)
          else case in_hops_loop (ds ! i) i 0 (last_hops_in (ds ! i)) (0, None) of
            None \<Rightarrow> None
          | Some (cnt, found) \<Rightarrow>
              if cnt \<noteq> 0 then Some (SIOT_MESH_AT_ROOT_RET_OK, Some (dlh_device_id (ds ! i)), found, drop_item i ds)
              else best_route_loop L currt (Some (dlh_device_id (ds ! i))) (drop_item i ds))"
  by pat_completeness auto

termination
  by (relation "measure (\<lambda>(L, currt, t, ds). length ds)")
    (auto simp: first_index_Some intro!: length_drop_item)

declare best_route_loop.simps [simp del]

text \<open>The time to the next event is reduced to the remaining time of every device left.\<close>

definition siot_mesh_at_root_find_best_route_to_device ::
  "mesh_lib \<Rightarrow> mesh \<Rightarrow> sa_time_val \<Rightarrow> sa_time_val \<Rightarrow>
   (mesh_ret \<times> u16 option \<times> found_route option \<times> sa_time_val \<times> mesh) option" where
  "siot_mesh_at_root_find_best_route_to_device L s currt time_to_next_event = do {
     dbg_siot_mesh_at_root_validate_all_device_tables (mesh_routing_data s);
     if last_hops_of_all_devices s = [] then Some (SIOT_MESH_AT_ROOT_RET_FAILED, None, None, time_to_next_event, s)
     else do {
       (ret, target_id, found, hops) \<leftarrow> best_route_loop L currt None (last_hops_of_all_devices s);
       let t = fold (\<lambda>d t. snd (sa_hal_time_val_get_remaining_time L currt (end_of_receiving d) t)) hops time_to_next_event;
       Some (ret, target_id, found, t, s\<lparr>last_hops_of_all_devices := hops\<rparr>)
     }
   }"

definition siot_mesh_at_root_find_best_route ::
  "mesh_lib \<Rightarrow> mesh \<Rightarrow> sa_time_val \<Rightarrow> sa_time_val \<Rightarrow>
   (mesh_ret \<times> u16 option \<times> found_route option \<times> sa_time_val \<times> mesh) option" where
  "siot_mesh_at_root_find_best_route = siot_mesh_at_root_find_best_route_to_device"

section \<open>The hops of a device\<close>

text \<open>
  One entry for each device that is looked for, and in it each hop and bus once.
\<close>

definition hop_keys :: "SIOT_MESH_LAST_HOP_DATA list \<Rightarrow> (u16 \<times> u16) list" where
  "hop_keys hops = map (\<lambda>h. (last_hop_id h, last_hop_bus_id h)) hops"

definition hops_wf :: "DEVICE_LAST_HOPS list \<Rightarrow> bool" where
  "hops_wf ds \<longleftrightarrow> distinct (map dlh_device_id ds) \<and>
     (\<forall>d \<in> set ds. distinct (hop_keys (last_hops_in d)) \<and> distinct (hop_keys (last_hops_out d)))"

lemma same_hop_key: "same_hop hop h \<longleftrightarrow> (last_hop_id h, last_hop_bus_id h) = (last_hop_id hop, last_hop_bus_id hop)"
  by (simp add: same_hop_def)

lemma add_hop_effect:
  assumes "add_hop hop hops = Some hops'"
  shows "hops' = hops \<and> (\<exists>h \<in> set hops. same_hop hop h \<and> conn_quality h = conn_quality hop) \<or>
     hops' = hops @ [hop] \<and> (\<forall>h \<in> set hops. \<not> same_hop hop h)"
  using assms
  by (auto simp: add_hop_def find_None_iff find_Some_iff split: option.splits if_splits)

lemma add_hop_distinct: "add_hop hop hops = Some hops' \<Longrightarrow> distinct (hop_keys hops) \<Longrightarrow> distinct (hop_keys hops')"
  by (drule add_hop_effect) (fastforce simp: hop_keys_def same_hop_key)

definition add_wf :: "(DEVICE_LAST_HOPS \<Rightarrow> DEVICE_LAST_HOPS option) \<Rightarrow> bool" where
  "add_wf add \<longleftrightarrow> (\<forall>d d'. add d = Some d' \<longrightarrow> dlh_device_id d' = dlh_device_id d \<and>
     (distinct (hop_keys (last_hops_in d)) \<longrightarrow> distinct (hop_keys (last_hops_in d'))) \<and>
     (distinct (hop_keys (last_hops_out d)) \<longrightarrow> distinct (hop_keys (last_hops_out d'))))"

lemma add_hop_in_wf [simp]: "add_wf (add_hop_in hop)"
  and add_hop_out_wf [simp]: "add_wf (add_hop_out hop)"
  using add_hop_distinct by (auto simp: add_wf_def add_hop_in_def add_hop_out_def)

lemma hops_wf_Cons: "hops_wf (d # ds) \<longleftrightarrow> dlh_device_id d \<notin> set (map dlh_device_id ds) \<and>
    distinct (hop_keys (last_hops_in d)) \<and> distinct (hop_keys (last_hops_out d)) \<and> hops_wf ds"
  by (auto simp: hops_wf_def)

lemma add_to_device_some:
  assumes "add_to_device r src_id add ds = Some (Some ds')" "add_wf add"
  shows "map dlh_device_id ds' = map dlh_device_id ds \<and> (hops_wf ds \<longrightarrow> hops_wf ds')"
  using assms
proof (induction ds arbitrary: ds')
  case (Cons d ds)
  show ?case
  proof (cases "dlh_device_id d = src_id")
    case True
    then obtain d' where "add d = Some d'" "ds' = d' # ds"
      using Cons.prems(1) by (auto split: bind_splits)
    then show ?thesis using Cons.prems(2) by (simp add: hops_wf_Cons add_wf_def)
  next
    case False
    then obtain ds1 where "add_to_device r src_id add ds = Some (Some ds1)" "ds' = d # ds1"
      using Cons.prems(1) by (auto split: bind_splits)
    moreover from this have ids: "map dlh_device_id ds1 = map dlh_device_id ds" and "hops_wf ds \<longrightarrow> hops_wf ds1"
      using Cons.IH Cons.prems(2) by blast+
    ultimately show ?thesis by (simp only: hops_wf_Cons list.map ids) blast
  qed
qed simp

lemma add_to_device_none:
  "add_to_device r src_id add ds = Some None \<Longrightarrow> \<forall>d \<in> set ds. dlh_device_id d \<noteq> src_id"
  by (induction ds) (auto split: bind_splits if_splits)

lemma hops_wf_append:
  assumes "hops_wf ds" "\<forall>e \<in> set ds. dlh_device_id e \<noteq> dlh_device_id d"
    "distinct (hop_keys (last_hops_in d))" "distinct (hop_keys (last_hops_out d))"
  shows "hops_wf (ds @ [d])"
  using assms by (auto simp: hops_wf_def)

lemma hops_wf_drop: "hops_wf ds \<Longrightarrow> hops_wf (drop_item i ds)"
proof -
  assume wf: "hops_wf ds"
  have "set (drop_item i ds) \<subseteq> set ds"
    by (auto simp: drop_item_def dest: in_set_takeD in_set_dropD)
  moreover have "distinct (map dlh_device_id (drop_item i ds))"
    using wf set_take_disj_set_drop_if_distinct [of "map dlh_device_id ds" i "Suc i"]
    by (simp add: hops_wf_def drop_item_def take_map [symmetric] drop_map [symmetric])
  ultimately show ?thesis using wf unfolding hops_wf_def by blast
qed

text \<open>What happens to the list in either operation.\<close>

definition hops_step :: "u16 \<Rightarrow> (DEVICE_LAST_HOPS \<Rightarrow> DEVICE_LAST_HOPS option) \<Rightarrow> DEVICE_LAST_HOPS list \<Rightarrow> DEVICE_LAST_HOPS list \<Rightarrow> bool" where
  "hops_step src add ds ds' \<longleftrightarrow> ds' = ds \<or> (\<exists>r. add_to_device r src add ds = Some (Some ds')) \<or>
     (\<exists>r d. add_to_device r src add ds = Some None \<and> ds' = ds @ [d] \<and> dlh_device_id d = src \<and>
        length (last_hops_in d) = 1 \<and> last_hops_out d = [])"

lemma hops_step_wf:
  assumes "hops_step src add ds ds'" "add_wf add" "hops_wf ds"
  shows "hops_wf ds'"
proof -
  have one: "distinct (hop_keys hs)" if "length hs = 1" for hs
    using that by (cases hs) (simp_all add: hop_keys_def)
  show ?thesis
    using assms add_to_device_some add_to_device_none hops_wf_append one
    unfolding hops_step_def by (fastforce simp: hop_keys_def)
qed

lemma add_in_step:
  assumes "siot_mesh_at_root_add_last_hop_in_data L blank s currt rq src hop bus q = Some (ret, s')"
  shows "hops_step src (add_hop_in \<lparr>last_hop_id = hop, last_hop_bus_id = bus, conn_quality = q\<rparr>)
    (last_hops_of_all_devices s) (last_hops_of_all_devices s')"
  using assms unfolding siot_mesh_at_root_add_last_hop_in_data_def hops_step_def
  by (simp add: Let_def split: prod.splits if_splits option.splits bind_splits) force+

lemma add_out_step:
  assumes "siot_mesh_at_root_add_last_hop_out_data L blank s currt rq src bus rcv q = Some (ret, s')"
  shows "hops_step src (add_hop_out \<lparr>last_hop_id = rcv, last_hop_bus_id = bus, conn_quality = q\<rparr>)
    (last_hops_of_all_devices s) (last_hops_of_all_devices s')"
  using assms unfolding siot_mesh_at_root_add_last_hop_out_data_def hops_step_def
  by (simp add: Let_def split: prod.splits if_splits option.splits bind_splits) force+

lemmas add_in_wf = hops_step_wf [OF add_in_step add_hop_in_wf]
lemmas add_out_wf = hops_step_wf [OF add_out_step add_hop_out_wf]

section \<open>The choice of a route\<close>

definition way :: "SIOT_MESH_LAST_HOP_DATA \<Rightarrow> SIOT_MESH_LAST_HOP_DATA \<Rightarrow> bool" where
  "way h g \<longleftrightarrow> last_hop_id h = last_hop_id g \<and>
     SIOT_MESH_IS_QUALITY_OF_INCOMING_CONNECTION_ADMISSIBLE (conn_quality h) \<and>
     SIOT_MESH_IS_QUALITY_OF_OUTGOING_CONNECTION_ADMISSIBLE (conn_quality g)"

definition has_way :: "DEVICE_LAST_HOPS \<Rightarrow> bool" where
  "has_way d \<longleftrightarrow> (\<exists>h \<in> set (last_hops_in d). \<exists>g \<in> set (last_hops_out d). way h g)"

text \<open>The route leads over an incoming and an outgoing hop of the device.\<close>

definition route_over :: "SIOT_MESH_LAST_HOP_DATA \<Rightarrow> SIOT_MESH_LAST_HOP_DATA \<Rightarrow> found_route \<Rightarrow> bool" where
  "route_over h g r \<longleftrightarrow> fr_id_prev r = last_hop_id h \<and> fr_bus_id_at_prev r = last_hop_bus_id h \<and>
     fr_id_next r = last_hop_id g \<and> fr_bus_id_at_target r = last_hop_bus_id g"

lemma out_hops_loop_found:
  assumes "out_hops_loop d i j h gs (c, f) = Some (c', f')"
    and "SIOT_MESH_IS_QUALITY_OF_INCOMING_CONNECTION_ADMISSIBLE (conn_quality h)"
  shows "c' = c \<and> f' = f \<or> (\<exists>r. f' = Some r \<and> (\<exists>g \<in> set gs. way h g \<and> route_over h g r))"
  using assms(1)
proof (induction gs arbitrary: c f)
  case (Cons g gs)
  show ?case
  proof (cases "out_hops_loop d i j h gs (c, f) = Some (c', f')")
    case True
    then show ?thesis using Cons.IH by auto
  next
    case False
    then have w: "way h g" and rec: "out_hops_loop d i j h gs (c + 1, Some \<lparr>fr_last_in = i, fr_last_out = j,
        fr_id_prev = last_hop_id h, fr_bus_id_at_prev = last_hop_bus_id h, fr_id_next = last_hop_id g,
        fr_bus_id_at_target = last_hop_bus_id g\<rparr>) = Some (c', f')"
      using Cons.prems assms(2) by (auto simp: way_def split: if_splits bind_splits)
    show ?thesis using Cons.IH [OF rec] w by (auto simp: route_over_def)
  qed
qed simp

lemma out_hops_loop_none:
  "\<forall>g \<in> set gs. \<not> way h g \<Longrightarrow> SIOT_MESH_IS_QUALITY_OF_INCOMING_CONNECTION_ADMISSIBLE (conn_quality h) \<Longrightarrow>
   out_hops_loop d i j h gs (c, f) = Some (c, f)"
  by (induction gs) (auto simp: way_def)

lemma u16_Suc: "unat c + 1 < 65536 \<Longrightarrow> unat (c + 1 :: u16) = unat c + 1"
  by (simp add: unat_word_ariths)

lemma out_hops_loop_count:
  assumes "out_hops_loop d i j h gs (c, f) = Some (c', f')" "unat c + length gs < 65536"
    and "SIOT_MESH_IS_QUALITY_OF_INCOMING_CONNECTION_ADMISSIBLE (conn_quality h)"
  shows "unat c \<le> unat c' \<and> unat c' \<le> unat c + length gs \<and> ((\<exists>g \<in> set gs. way h g) \<longrightarrow> c' \<noteq> 0)"
  using assms(1,2)
proof (induction gs arbitrary: c f)
  case (Cons g gs)
  show ?case
  proof (cases "out_hops_loop d i j h gs (c, f) = Some (c', f') \<and> \<not> (way h g \<and> c = 0)")
    case True
    have "way h g \<longrightarrow> c \<noteq> 0" using True by simp
    then have "way h g \<longrightarrow> 0 < unat c" by (simp add: unat_gt_0)
    moreover have IH: "unat c \<le> unat c' \<and> unat c' \<le> unat c + length gs \<and> ((\<exists>g \<in> set gs. way h g) \<longrightarrow> c' \<noteq> 0)"
      by (rule Cons.IH [of c f]) (use True Cons.prems(2) in simp_all)
    ultimately have "way h g \<longrightarrow> c' \<noteq> 0" by auto
    then show ?thesis using IH by auto
  next
    case False
    then obtain f1 where rec: "out_hops_loop d i j h gs (c + 1, f1) = Some (c', f')"
      using Cons.prems(1) assms(3) by (auto simp: way_def split: if_splits bind_splits)
    have s: "unat (c + 1) = unat c + 1" using Cons.prems(2) by (intro u16_Suc) simp
    then have IH: "unat (c + 1) \<le> unat c' \<and> unat c' \<le> unat (c + 1) + length gs"
      using Cons.IH [OF rec] Cons.prems(2) by simp
    then have "c' \<noteq> 0" using s by auto
    then show ?thesis using IH s by simp
  qed
qed simp

lemma in_hops_loop_found:
  assumes "in_hops_loop d i j hs (c, f) = Some (c', f')"
  shows "c' = c \<and> f' = f \<or>
    (\<exists>r. f' = Some r \<and> (\<exists>h \<in> set hs. \<exists>g \<in> set (last_hops_out d). way h g \<and> route_over h g r))"
  using assms
proof (induction hs arbitrary: j c f)
  case (Cons h hs)
  show ?case
  proof (cases "SIOT_MESH_IS_QUALITY_OF_INCOMING_CONNECTION_ADMISSIBLE (conn_quality h)")
    case True
    then obtain c1 f1 where o: "out_hops_loop d i j h (last_hops_out d) (c, f) = Some (c1, f1)"
      and rec: "in_hops_loop d i (j + 1) hs (c1, f1) = Some (c', f')"
      using Cons.prems by (auto split: bind_splits)
    show ?thesis using out_hops_loop_found [OF o True] Cons.IH [OF rec] by auto
  next
    case False
    then show ?thesis using Cons.prems Cons.IH [of "j + 1" c f] by auto
  qed
qed simp

lemma in_hops_loop_none:
  "\<forall>h \<in> set hs. \<forall>g \<in> set (last_hops_out d). \<not> way h g \<Longrightarrow> in_hops_loop d i j hs (c, f) = Some (c, f)"
  by (induction hs arbitrary: j) (simp_all add: out_hops_loop_none)

lemma in_hops_loop_count:
  assumes "in_hops_loop d i j hs (c, f) = Some (c', f')"
    and "unat c + length hs * length (last_hops_out d) < 65536"
  shows "unat c \<le> unat c' \<and> ((\<exists>h \<in> set hs. \<exists>g \<in> set (last_hops_out d). way h g) \<longrightarrow> c' \<noteq> 0)"
  using assms
proof (induction hs arbitrary: j c f)
  case (Cons h hs)
  show ?case
  proof (cases "SIOT_MESH_IS_QUALITY_OF_INCOMING_CONNECTION_ADMISSIBLE (conn_quality h)")
    case True
    then obtain c1 f1 where o: "out_hops_loop d i j h (last_hops_out d) (c, f) = Some (c1, f1)"
      and rec: "in_hops_loop d i (j + 1) hs (c1, f1) = Some (c', f')"
      using Cons.prems by (auto split: bind_splits)
    have 1: "unat c \<le> unat c1 \<and> unat c1 \<le> unat c + length (last_hops_out d) \<and>
        ((\<exists>g \<in> set (last_hops_out d). way h g) \<longrightarrow> c1 \<noteq> 0)"
      using out_hops_loop_count [OF o _ True] Cons.prems(2) by simp
    then have 2: "unat c1 \<le> unat c' \<and> ((\<exists>h \<in> set hs. \<exists>g \<in> set (last_hops_out d). way h g) \<longrightarrow> c' \<noteq> 0)"
      using Cons.IH [OF rec] Cons.prems(2) by simp
    have "c1 \<noteq> 0 \<longrightarrow> c' \<noteq> 0" using 2 by (auto simp: unat_eq_zero)
    then show ?thesis using 1 2 by auto
  next
    case False
    then have "\<forall>g. \<not> way h g" by (simp add: way_def)
    then show ?thesis using False Cons.prems Cons.IH [of "j + 1" c f] by auto
  qed
qed simp

lemma drop_item_set: "i < length xs \<Longrightarrow> set xs = insert (xs ! i) (set (drop_item i xs))"
  by (metis Un_insert_right drop_item_def id_take_nth_drop list.simps(15) set_append)

definition all_received :: "mesh_lib \<Rightarrow> sa_time_val \<Rightarrow> DEVICE_LAST_HOPS \<Rightarrow> bool" where
  "all_received L currt d \<longleftrightarrow> sa_hal_time_val_is_less_eq L (end_of_receiving d) currt"

text \<open>
  What the choice is to do with the devices \<open>ds\<close>, and which are left (\<open>ds'\<close>): a route is found for
  a device that has one and whose time is over, and nothing is removed but that device and devices
  without a route whose time is over; if none is found then every device whose time was over had none.
\<close>

definition route_chosen :: "mesh_lib \<Rightarrow> sa_time_val \<Rightarrow> DEVICE_LAST_HOPS list \<Rightarrow> mesh_ret \<Rightarrow> u16 option \<Rightarrow>
    found_route option \<Rightarrow> DEVICE_LAST_HOPS list \<Rightarrow> bool" where
  "route_chosen L currt ds ret target found ds' \<longleftrightarrow>
     set ds' \<subseteq> set ds \<and>
     (if ret = SIOT_MESH_AT_ROOT_RET_OK then
        \<exists>d \<in> set ds. \<exists>r. all_received L currt d \<and> target = Some (dlh_device_id d) \<and> found = Some r \<and>
          (\<exists>h \<in> set (last_hops_in d). \<exists>g \<in> set (last_hops_out d). way h g \<and> route_over h g r) \<and>
          (\<forall>e \<in> set ds. e \<noteq> d \<and> e \<notin> set ds' \<longrightarrow> all_received L currt e \<and> \<not> has_way e)
      else ret = SIOT_MESH_AT_ROOT_RET_RESEND_TASK_NOT_NOW \<and>
        (\<forall>e \<in> set ds. if all_received L currt e then \<not> has_way e \<and> e \<notin> set ds' else e \<in> set ds'))"

lemma best_route_none:
  "first_index (\<lambda>d. sa_hal_time_val_is_less_eq L (end_of_receiving d) currt) ds = None \<Longrightarrow>
   best_route_loop L currt t ds = Some (SIOT_MESH_AT_ROOT_RET_RESEND_TASK_NOT_NOW, t, None, ds)"
  by (subst best_route_loop.simps) simp

lemma best_route_empty:
  "first_index (\<lambda>d. sa_hal_time_val_is_less_eq L (end_of_receiving d) currt) ds = Some i \<Longrightarrow>
   last_hops_in (ds ! i) = [] \<or> last_hops_out (ds ! i) = [] \<Longrightarrow>
   best_route_loop L currt t ds = best_route_loop L currt t (drop_item i ds)"
  by (subst best_route_loop.simps) simp

lemma best_route_search:
  "first_index (\<lambda>d. sa_hal_time_val_is_less_eq L (end_of_receiving d) currt) ds = Some i \<Longrightarrow>
   \<not> (last_hops_in (ds ! i) = [] \<or> last_hops_out (ds ! i) = []) \<Longrightarrow>
   best_route_loop L currt t ds =
     (case in_hops_loop (ds ! i) i 0 (last_hops_in (ds ! i)) (0, None) of None \<Rightarrow> None
      | Some (cnt, found) \<Rightarrow>
        if cnt \<noteq> 0 then Some (SIOT_MESH_AT_ROOT_RET_OK, Some (dlh_device_id (ds ! i)), found, drop_item i ds)
        else best_route_loop L currt (Some (dlh_device_id (ds ! i))) (drop_item i ds))"
  by (subst best_route_loop.simps) simp

lemma route_chosen_step:
  assumes "route_chosen L currt ds1 ret target found ds'" "set ds = insert d (set ds1)"
    "all_received L currt d" "\<not> has_way d"
  shows "route_chosen L currt ds ret target found ds'"
proof (cases "ret = SIOT_MESH_AT_ROOT_RET_OK")
  case True
  then obtain e r where e: "e \<in> set ds1" "all_received L currt e" "target = Some (dlh_device_id e)" "found = Some r"
      "\<exists>h \<in> set (last_hops_in e). \<exists>g \<in> set (last_hops_out e). way h g \<and> route_over h g r"
      "\<forall>x \<in> set ds1. x \<noteq> e \<and> x \<notin> set ds' \<longrightarrow> all_received L currt x \<and> \<not> has_way x"
    and s: "set ds' \<subseteq> set ds1"
    using assms(1) by (auto simp: route_chosen_def)
  have "\<forall>x \<in> set ds. x \<noteq> e \<and> x \<notin> set ds' \<longrightarrow> all_received L currt x \<and> \<not> has_way x"
    using e(6) assms(2-4) by auto
  moreover have "e \<in> set ds" "set ds' \<subseteq> set ds" using e(1) s assms(2) by auto
  ultimately show ?thesis unfolding route_chosen_def if_P [OF True]
    using e(2-5) by (intro conjI bexI [of _ e] exI [of _ r])
next
  case False
  then show ?thesis using assms unfolding route_chosen_def by (auto split: if_splits)
qed

lemma best_route_loop_result:
  assumes "best_route_loop L currt t ds = Some (ret, target, found, ds')"
    and "\<forall>d \<in> set ds. length (last_hops_in d) * length (last_hops_out d) < 65536"
  shows "route_chosen L currt ds ret target found ds' \<and> (hops_wf ds \<longrightarrow> hops_wf ds')"
  using assms
proof (induction L currt t ds rule: best_route_loop.induct)
  case (1 L currt t ds)
  show ?case
  proof (cases "first_index (\<lambda>d. sa_hal_time_val_is_less_eq L (end_of_receiving d) currt) ds")
    case None
    then show ?thesis using "1.prems"(1)
      by (auto simp: best_route_none route_chosen_def first_index_None all_received_def)
  next
    case (Some i)
    let ?d = "ds ! i" and ?ds = "drop_item i ds"
    have i: "i < length ds" "all_received L currt ?d" using Some by (auto simp: first_index_Some all_received_def)
    have d: "?d \<in> set ds" and set: "set ds = insert ?d (set ?ds)" using i(1) by (simp, rule drop_item_set)
    have sub: "\<forall>d \<in> set ?ds. length (last_hops_in d) * length (last_hops_out d) < 65536"
      using set "1.prems"(2) by auto
    note wf = hops_wf_drop [of ds i] and step = route_chosen_step [OF _ set i(2)]
    show ?thesis
    proof (cases "last_hops_in ?d = [] \<or> last_hops_out ?d = []")
      case True
      then have "\<not> has_way ?d" by (auto simp: has_way_def)
      moreover have "best_route_loop L currt t ?ds = Some (ret, target, found, ds')"
        using "1.prems"(1) best_route_empty [OF Some True] by simp
      ultimately show ?thesis using step "1.IH"(1) [OF Some True] sub wf by blast
    next
      case False
      note search = best_route_search [OF Some False, of t]
      obtain c f where loop: "in_hops_loop ?d i 0 (last_hops_in ?d) (0, None) = Some (c, f)"
        using "1.prems"(1) search by (auto split: option.splits)
      show ?thesis
      proof (cases "c = 0")
        case True
        have "\<not> has_way ?d"
          using in_hops_loop_count [OF loop] "1.prems"(2) d True by (auto simp: has_way_def)
        moreover have "best_route_loop L currt (Some (dlh_device_id ?d)) ?ds = Some (ret, target, found, ds')"
          using "1.prems"(1) search True loop by simp
        ultimately show ?thesis using step "1.IH"(2) [OF Some False loop] True sub wf by blast
      next
        case c: False
        then have res: "ret = SIOT_MESH_AT_ROOT_RET_OK" "target = Some (dlh_device_id ?d)" "found = f" "ds' = ?ds"
          using "1.prems"(1) search loop by simp_all
        then show ?thesis using in_hops_loop_found [OF loop] c i(2) d set wf
          unfolding route_chosen_def by auto
      qed
    qed
  qed
qed

section \<open>When the choice is defined\<close>

text \<open>The pairs of an incoming and an outgoing hop that make a way.\<close>

definition ways :: "DEVICE_LAST_HOPS \<Rightarrow> (SIOT_MESH_LAST_HOP_DATA \<times> SIOT_MESH_LAST_HOP_DATA) list" where
  "ways d = filter (\<lambda>(h, g). way h g) (List.product (last_hops_in d) (last_hops_out d))"

lemma out_hops_loop_undefined:
  assumes "out_hops_loop d i j h gs (c, f) = None" "c \<noteq> 0 \<longrightarrow> f \<noteq> None"
    and "SIOT_MESH_IS_QUALITY_OF_INCOMING_CONNECTION_ADMISSIBLE (conn_quality h)"
  shows "1 \<le> length (filter (way h) gs) \<and> (c = 0 \<longrightarrow> 2 \<le> length (filter (way h) gs))"
  using assms(1,2)
proof (induction gs arbitrary: c f)
  case (Cons g gs)
  show ?case
  proof (cases "way h g")
    case False
    then have "out_hops_loop d i j h gs (c, f) = None" using Cons.prems(1) assms(3) by (auto simp: way_def split: if_splits)
    then show ?thesis using Cons.IH Cons.prems(2) False by simp
  next
    case True
    show ?thesis
    proof (cases "c = 0")
      case zero: True
      then obtain f1 where "out_hops_loop d i j h gs (1, Some f1) = None" using Cons.prems(1) True by (auto simp: way_def)
      then show ?thesis using Cons.IH [of 1 "Some f1"] True by simp
    qed (simp add: True)
  qed
qed simp

lemma out_hops_loop_some:
  assumes "out_hops_loop d i j h gs (c, f) = Some (c', f')" "c \<noteq> 0 \<longrightarrow> f \<noteq> None"
    and "SIOT_MESH_IS_QUALITY_OF_INCOMING_CONNECTION_ADMISSIBLE (conn_quality h)"
  shows "(c' \<noteq> 0 \<longrightarrow> f' \<noteq> None) \<and> (c = 0 \<longrightarrow> c' \<noteq> 0 \<longrightarrow> 1 \<le> length (filter (way h) gs))"
proof -
  from out_hops_loop_found [OF assms(1,3)] show ?thesis
  proof
    assume "\<exists>r. f' = Some r \<and> (\<exists>g \<in> set gs. way h g \<and> route_over h g r)"
    then have "f' \<noteq> None" "filter (way h) gs \<noteq> []" by (auto simp: filter_empty_conv)
    then show ?thesis by (cases "filter (way h) gs") simp_all
  qed (use assms(2) in auto)
qed

lemma in_hops_loop_undefined:
  assumes "in_hops_loop d i j hs (c, f) = None" "c \<noteq> 0 \<longrightarrow> f \<noteq> None"
  shows "1 \<le> length (filter (\<lambda>(h, g). way h g) (List.product hs (last_hops_out d))) \<and>
    (c = 0 \<longrightarrow> 2 \<le> length (filter (\<lambda>(h, g). way h g) (List.product hs (last_hops_out d))))"
  using assms
proof (induction hs arbitrary: j c f)
  case (Cons h hs)
  let ?here = "length (filter (way h) (last_hops_out d))"
  let ?rest = "length (filter (\<lambda>(h, g). way h g) (List.product hs (last_hops_out d)))"
  have sum: "length (filter (\<lambda>(h, g). way h g) (List.product (h # hs) (last_hops_out d))) = ?here + ?rest"
    by (simp add: filter_map comp_def)
  show ?case
  proof (cases "SIOT_MESH_IS_QUALITY_OF_INCOMING_CONNECTION_ADMISSIBLE (conn_quality h)")
    case adm: True
    show ?thesis
    proof (cases "out_hops_loop d i j h (last_hops_out d) (c, f)")
      case None
      from out_hops_loop_undefined [OF None Cons.prems(2) adm] show ?thesis unfolding sum by auto
    next
      case (Some r)
      obtain c1 f1 where r: "r = (c1, f1)" by fastforce
      have rec: "in_hops_loop d i (j + 1) hs (c1, f1) = None" using Cons.prems(1) adm Some r by simp
      from out_hops_loop_some [OF Some [unfolded r] Cons.prems(2) adm] Cons.IH [OF rec] show ?thesis
        unfolding sum by (cases "c1 = 0") auto
    qed
  next
    case False
    then have "in_hops_loop d i (j + 1) hs (c, f) = None" using Cons.prems(1) by simp
    from Cons.IH [OF this Cons.prems(2)] show ?thesis unfolding sum by auto
  qed
qed simp

lemma best_route_loop_undefined:
  "best_route_loop L currt t ds = None \<Longrightarrow> \<exists>d \<in> set ds. all_received L currt d \<and> 2 \<le> length (ways d)"
proof (induction L currt t ds rule: best_route_loop.induct)
  case (1 L currt t ds)
  show ?case
  proof (cases "first_index (\<lambda>d. sa_hal_time_val_is_less_eq L (end_of_receiving d) currt) ds")
    case None
    then show ?thesis using "1.prems" best_route_none by fastforce
  next
    case (Some i)
    have i: "i < length ds" "all_received L currt (ds ! i)" using Some by (auto simp: first_index_Some all_received_def)
    have set: "set ds = insert (ds ! i) (set (drop_item i ds))" by (rule drop_item_set [OF i(1)])
    show ?thesis
    proof (cases "last_hops_in (ds ! i) = [] \<or> last_hops_out (ds ! i) = []")
      case True
      then show ?thesis using "1.prems" best_route_empty [OF Some True] "1.IH"(1) [OF Some True] set by auto
    next
      case False
      note search = best_route_search [OF Some False, of t]
      show ?thesis
      proof (cases "in_hops_loop (ds ! i) i 0 (last_hops_in (ds ! i)) (0, None)")
        case None
        then have "2 \<le> length (ways (ds ! i))" using in_hops_loop_undefined [OF None] by (simp add: ways_def)
        then show ?thesis using i nth_mem by blast
      next
        case loop: (Some r)
        obtain c f where r: "r = (c, f)" by fastforce
        have "c = 0" "best_route_loop L currt (Some (dlh_device_id (ds ! i))) (drop_item i ds) = None"
          using "1.prems" search loop r by (auto split: if_splits)
        then show ?thesis using "1.IH"(2) [OF Some False loop r [symmetric]] set by auto
      qed
    qed
  qed
qed

end
