(* ===== verification/Mesh_Resend.thy ===== *)
theory Mesh_Resend
  imports Mesh_Root
begin

text \<open>
  Packets that the root sends again until they are acknowledged, and packets of a search that wait to
  be sent (\<open>commstack_siot_mesh_support.cpp\<close>, list \<open>pending_resends\<close>). The bytes of a packet are kept
  outside the memory block.
\<close>

section \<open>Model\<close>

text \<open>
  The loop that looks for the nearest event stops at a task that is due; \<open>remaining\<close> is not
  initialised before it.
\<close>

fun nearest_event :: "mesh_lib \<Rightarrow> sa_time_val \<Rightarrow> sa_time_val \<Rightarrow> MESH_PENDING_RESENDS list \<Rightarrow> sa_time_val \<Rightarrow> sa_time_val" where
  "nearest_event L currt remaining [] t = t"
| "nearest_event L currt remaining (r # rs) t = (
     let (in_future, remaining) = sa_hal_time_val_get_remaining_time L currt (next_resend_time r) remaining;
         t = sa_hal_time_val_copy_from_if_src_less L t remaining
     in if \<not> in_future then t else nearest_event L currt remaining rs t)"

definition remaining_times :: "mesh_lib \<Rightarrow> sa_time_val \<Rightarrow> MESH_PENDING_RESENDS list \<Rightarrow> sa_time_val \<Rightarrow> sa_time_val" where
  "remaining_times L currt rs t =
     fold (\<lambda>r t. snd (sa_hal_time_val_get_remaining_time L currt (next_resend_time r) t)) rs t"

definition time_after :: "sa_time_val \<Rightarrow> sa_time_val \<Rightarrow> sa_time_val \<Rightarrow> sa_time_val" where
  "time_after t currt diff_tval = SA_TIME_INCREMENT_BY_TICKS (sa_hal_time_val_copy_from t currt) diff_tval"

definition siot_mesh_at_root_add_resend_task ::
  "mesh_lib \<Rightarrow> sa_time_val \<Rightarrow> mesh \<Rightarrow> mem \<Rightarrow> nat \<Rightarrow> sa_time_val \<Rightarrow> u16 \<Rightarrow> u16 \<Rightarrow> u16 \<Rightarrow> u16 \<Rightarrow> sa_time_val \<Rightarrow>
   (sa_time_val \<times> mesh \<times> mem) option" where
  "siot_mesh_at_root_add_resend_task L blank s m packet currt checksum target_id bus_id next_hop_id time_to_next_event = do {
     packet_sz \<leftarrow> memory_object_get_response_size m packet;
     assert (packet_sz \<noteq> 0);
     m \<leftarrow> zepto_response_to_request m packet;
     po \<leftarrow> zepto_parser_init m packet;
     (packet_data, po) \<leftarrow> zepto_parse_read_block m po packet_sz;
     packet_data \<leftarrow> packet_data;
     po \<leftarrow> zepto_parser_init m packet;
     po1 \<leftarrow> zepto_parser_init m packet;
     (_, po1) \<leftarrow> zepto_parse_skip_block m po1 packet_sz;
     (m, po, po1) \<leftarrow> zepto_convert_part_of_request_to_response m packet po po1;
     let resend = \<lparr>resend_type = MESH_PENDING_RESEND_TYPE_SELF_REPEATED, packet_data = packet_data,
       resend_cnt = SIOT_MESH_SUBJECT_FOR_MESH_RESEND L,
       next_resend_time = time_after blank currt (MESH_RESEND_PERIOD_tval L),
       resend_checksum = checksum, resend_target_id = target_id, resend_bus_id = bus_id,
       resend_next_hop_id = next_hop_id\<rparr>;
     let s = s\<lparr>pending_resends := pending_resends s @ [resend]\<rparr>;
     Some (nearest_event L currt blank (pending_resends s) time_to_next_event, s, m)
   }"

text \<open>\<open>next_hop_id\<close> of a search packet is not initialised.\<close>

definition siot_mesh_at_root_add_send_from_santa_task ::
  "mesh_lib \<Rightarrow> sa_time_val \<Rightarrow> u16 \<Rightarrow> mesh \<Rightarrow> mem \<Rightarrow> nat \<Rightarrow> sa_time_val \<Rightarrow> u16 \<Rightarrow> mesh option" where
  "siot_mesh_at_root_add_send_from_santa_task L blank blank_hop s m packet currt bus_id = do {
     packet_sz \<leftarrow> memory_object_get_request_size m packet;
     assert (packet_sz \<noteq> 0);
     po \<leftarrow> zepto_parser_init m packet;
     (packet_data, po) \<leftarrow> zepto_parse_read_block m po packet_sz;
     packet_data \<leftarrow> packet_data;
     let resend = \<lparr>resend_type = MESH_PENDING_RESEND_FROM_SANTA, packet_data = packet_data, resend_cnt = 1,
       next_resend_time = sa_hal_time_val_copy_from blank currt, resend_checksum = 0,
       resend_target_id = SIOT_MESH_TARGET_UNDEFINED L, resend_bus_id = bus_id, resend_next_hop_id = blank_hop\<rparr>;
     Some (s\<lparr>pending_resends := pending_resends s @ [resend]\<rparr>)
   }"

text \<open>The loop for the oldest task, at index \<open>i\<close>, with the oldest found so far and its time.\<close>

fun oldest_loop ::
  "mesh_lib \<Rightarrow> nat \<Rightarrow> MESH_PENDING_RESENDS list \<Rightarrow> sa_time_val \<times> nat option \<Rightarrow> (sa_time_val \<times> nat option) option" where
  "oldest_loop L i [] st = Some st"
| "oldest_loop L i (r # rs) (oldest_time_point, it_oldest) = do {
     assert (0 < resend_cnt r);
     oldest_loop L (Suc i) rs
       (case it_oldest of
          None \<Rightarrow>
            (if sa_hal_time_val_is_less_eq L (next_resend_time r) oldest_time_point
             then (sa_hal_time_val_copy_from oldest_time_point (next_resend_time r), Some i)
             else (oldest_time_point, it_oldest))
        | Some _ \<Rightarrow>
            (if sa_hal_time_val_is_less (next_resend_time r) oldest_time_point
             then (sa_hal_time_val_copy_from oldest_time_point (next_resend_time r), Some i)
             else (oldest_time_point, it_oldest)))
   }"

text \<open>The result: return code, the task whose addresses are handed out, time, state and heap.\<close>

definition siot_mesh_at_root_get_resend_task ::
  "mesh_lib \<Rightarrow> sa_time_val \<Rightarrow> mesh \<Rightarrow> mem \<Rightarrow> nat \<Rightarrow> sa_time_val \<Rightarrow> sa_time_val \<Rightarrow>
   (mesh_ret \<times> (u16 \<times> u16 \<times> u16) option \<times> sa_time_val \<times> mesh \<times> mem) option" where
  "siot_mesh_at_root_get_resend_task L blank s m packet currt t =
     (if pending_resends s = [] then Some (SIOT_MESH_AT_ROOT_RET_RESEND_TASK_NONE_EXISTS, None, t, s, m)
      else do {
       (oldest_time_point, it_oldest) \<leftarrow> oldest_loop L 0 (pending_resends s) (sa_hal_time_val_copy_from blank currt, None);
       case it_oldest of
         None \<Rightarrow> Some (SIOT_MESH_AT_ROOT_RET_RESEND_TASK_NOT_NOW, None, remaining_times L currt (pending_resends s) t, s, m)
       | Some i \<Rightarrow> do {
           it \<leftarrow> item (pending_resends s) i;
           let to = (resend_target_id it, resend_bus_id it, resend_next_hop_id it);
           case resend_type it of
             MESH_PENDING_RESEND_TYPE_SELF_REPEATED \<Rightarrow> do {
               assert (resend_target_id it \<noteq> SIOT_MESH_TARGET_UNDEFINED L);
               assert (resend_bus_id it \<noteq> SIOT_MESH_BUS_UNDEFINED L);
               let final_in_seq = (resend_cnt it = 1);
               assert (0 < resend_cnt it);
               m \<leftarrow> zepto_parser_free_memory m packet;
               m \<leftarrow> zepto_write_block m packet (packet_data it);
               let s = (if final_in_seq then s\<lparr>pending_resends := drop_item i (pending_resends s)\<rparr>
                 else s\<lparr>pending_resends := (pending_resends s)[i := it\<lparr>resend_cnt := resend_cnt it - 1,
                   next_resend_time := time_after (next_resend_time it) currt (MESH_RESEND_PERIOD_tval L)\<rparr>]\<rparr>);
               Some (if final_in_seq then SIOT_MESH_AT_ROOT_RET_RESEND_TASK_FINAL else SIOT_MESH_AT_ROOT_RET_RESEND_TASK_INTERM,
                 Some to, remaining_times L currt (pending_resends s) t, s, m)
             }
           | MESH_PENDING_RESEND_FROM_SANTA \<Rightarrow> do {
               assert (resend_target_id it = SIOT_MESH_TARGET_UNDEFINED L);
               assert (resend_bus_id it \<noteq> SIOT_MESH_BUS_UNDEFINED L);
               assert (resend_cnt it = 1);
               m \<leftarrow> zepto_parser_free_memory m packet;
               m \<leftarrow> zepto_write_block m packet (packet_data it);
               let s = s\<lparr>pending_resends := drop_item i (pending_resends s)\<rparr>;
               Some (SIOT_MESH_AT_ROOT_RET_RESEND_TASK_FROM_SANTA, Some to,
                 remaining_times L currt (pending_resends s) t, s, m)
             }
         }
     })"

text \<open>The loops that erase tasks, one after the other.\<close>

fun erase_resends :: "(MESH_PENDING_RESENDS \<Rightarrow> bool) \<Rightarrow> MESH_PENDING_RESENDS list \<Rightarrow> MESH_PENDING_RESENDS list" where
  "erase_resends p [] = []"
| "erase_resends p (r # rs) = (if p r then erase_resends p rs else r # erase_resends p rs)"

definition siot_mesh_at_root_remove_resend_task_by_hash ::
  "mesh_lib \<Rightarrow> mesh \<Rightarrow> u16 \<Rightarrow> sa_time_val \<Rightarrow> sa_time_val \<Rightarrow> sa_time_val \<times> mesh" where
  "siot_mesh_at_root_remove_resend_task_by_hash L s checksum currt t =
     (if pending_resends s = [] then (t, s)
      else
        let s = s\<lparr>pending_resends := erase_resends (\<lambda>r. resend_type r = MESH_PENDING_RESEND_TYPE_SELF_REPEATED \<and>
              resend_checksum r = checksum) (pending_resends s)\<rparr>
        in (remaining_times L currt (pending_resends s) t, s))"

definition siot_mesh_at_root_remove_resend_task_by_device_id ::
  "mesh_lib \<Rightarrow> mesh \<Rightarrow> u16 \<Rightarrow> sa_time_val \<Rightarrow> sa_time_val \<Rightarrow> sa_time_val \<times> mesh" where
  "siot_mesh_at_root_remove_resend_task_by_device_id L s target_id currt t =
     (if pending_resends s = [] then (t, s)
      else
        let s = s\<lparr>pending_resends := erase_resends (\<lambda>r. resend_type r = MESH_PENDING_RESEND_TYPE_SELF_REPEATED \<and>
              resend_target_id r = target_id) (pending_resends s)\<rparr>
        in (remaining_times L currt (pending_resends s) t, s))"

section \<open>Tasks\<close>

text \<open>What the assertions of \<open>siot_mesh_at_root_get_resend_task\<close> require of a task.\<close>

definition resend_ok :: "mesh_lib \<Rightarrow> MESH_PENDING_RESENDS \<Rightarrow> bool" where
  "resend_ok L r \<longleftrightarrow> 0 < resend_cnt r \<and> resend_bus_id r \<noteq> SIOT_MESH_BUS_UNDEFINED L \<and>
     (case resend_type r of
        MESH_PENDING_RESEND_TYPE_SELF_REPEATED \<Rightarrow> resend_target_id r \<noteq> SIOT_MESH_TARGET_UNDEFINED L
      | MESH_PENDING_RESEND_FROM_SANTA \<Rightarrow> resend_target_id r = SIOT_MESH_TARGET_UNDEFINED L \<and> resend_cnt r = 1)"

definition resends_ok :: "mesh_lib \<Rightarrow> MESH_PENDING_RESENDS list \<Rightarrow> bool" where
  "resends_ok L rs \<longleftrightarrow> (\<forall>r \<in> set rs. resend_ok L r)"

text \<open>The comparison of the time library is that of the ticks.\<close>

definition time_order :: "mesh_lib \<Rightarrow> bool" where
  "time_order L \<longleftrightarrow> (\<forall>a b. sa_hal_time_val_is_less_eq L a b \<longleftrightarrow> ticks a \<le> ticks b)"

definition is_last :: "MESH_PENDING_RESENDS \<Rightarrow> bool" where
  "is_last r \<longleftrightarrow> resend_type r = MESH_PENDING_RESEND_FROM_SANTA \<or> resend_cnt r = 1"

definition postponed :: "mesh_lib \<Rightarrow> sa_time_val \<Rightarrow> MESH_PENDING_RESENDS \<Rightarrow> MESH_PENDING_RESENDS" where
  "postponed L currt r = r\<lparr>resend_cnt := resend_cnt r - 1,
     next_resend_time := time_after (next_resend_time r) currt (MESH_RESEND_PERIOD_tval L)\<rparr>"

definition after_send :: "mesh_lib \<Rightarrow> sa_time_val \<Rightarrow> MESH_PENDING_RESENDS list \<Rightarrow> nat \<Rightarrow> MESH_PENDING_RESENDS list" where
  "after_send L currt rs i = (if is_last (rs ! i) then drop_item i rs else rs[i := postponed L currt (rs ! i)])"

definition send_code :: "MESH_PENDING_RESENDS \<Rightarrow> mesh_ret" where
  "send_code r = (case resend_type r of
     MESH_PENDING_RESEND_FROM_SANTA \<Rightarrow> SIOT_MESH_AT_ROOT_RET_RESEND_TASK_FROM_SANTA
   | MESH_PENDING_RESEND_TYPE_SELF_REPEATED \<Rightarrow>
       if resend_cnt r = 1 then SIOT_MESH_AT_ROOT_RET_RESEND_TASK_FINAL else SIOT_MESH_AT_ROOT_RET_RESEND_TASK_INTERM)"

lemma erase_resends_filter: "erase_resends p rs = filter (\<lambda>r. \<not> p r) rs"
  by (induction rs) simp_all

lemma ticks_copy: "ticks (sa_hal_time_val_copy_from t a) = ticks a"
  by (simp add: ticks_def sa_hal_time_val_copy_from_def)

lemma time_after_ticks:
  "ticks a + ticks b < 4294967296 \<Longrightarrow> ticks (time_after t a b) = ticks a + ticks b"
  using ticks_range [of a] ticks_range [of b]
  by (simp add: time_after_def increment_ticks ticks_copy)

lemma resends_ok_after_send:
  assumes "resends_ok L rs" "i < length rs"
  shows "resends_ok L (after_send L currt rs i)"
proof -
  have r: "resend_ok L (rs ! i)" using assms by (simp add: resends_ok_def)
  have "resend_ok L (postponed L currt (rs ! i))" if "\<not> is_last (rs ! i)"
  proof -
    have "resend_cnt (rs ! i) - 1 \<noteq> 0 \<and> 0 < resend_cnt (rs ! i) - 1" "resend_type (rs ! i) = MESH_PENDING_RESEND_TYPE_SELF_REPEATED"
      using that by (cases "resend_type (rs ! i)"; simp add: is_last_def word_neq_0_conv [symmetric] del: word_neq_0_conv)+
    then show ?thesis using r by (simp add: resend_ok_def postponed_def)
  qed
  then show ?thesis using assms
    by (auto simp: resends_ok_def after_send_def drop_item_def in_set_conv_nth nth_list_update
        dest!: in_set_takeD in_set_dropD set_update_subset_insert [THEN subsetD])
qed

section \<open>The oldest task\<close>

definition oldest_of :: "MESH_PENDING_RESENDS list \<Rightarrow> sa_time_val \<Rightarrow> sa_time_val \<Rightarrow> nat option \<Rightarrow> bool" where
  "oldest_of rs currt tp io \<longleftrightarrow> (case io of
     None \<Rightarrow> ticks tp = ticks currt \<and> (\<forall>r \<in> set rs. ticks currt < ticks (next_resend_time r))
   | Some i \<Rightarrow> i < length rs \<and> ticks tp = ticks (next_resend_time (rs ! i)) \<and> ticks tp \<le> ticks currt \<and>
       (\<forall>r \<in> set rs. ticks tp \<le> ticks (next_resend_time r)) \<and>
       (\<forall>j < i. ticks tp < ticks (next_resend_time (rs ! j))))"

lemma oldest_of_snoc:
  assumes "oldest_of ps currt tp io" "time_order L"
  shows "(case (case io of
          None \<Rightarrow>
            (if sa_hal_time_val_is_less_eq L (next_resend_time r) tp
             then (sa_hal_time_val_copy_from tp (next_resend_time r), Some (length ps))
             else (tp, io))
        | Some _ \<Rightarrow>
            (if sa_hal_time_val_is_less (next_resend_time r) tp
             then (sa_hal_time_val_copy_from tp (next_resend_time r), Some (length ps))
             else (tp, io))) of (tp', io') \<Rightarrow> oldest_of (ps @ [r]) currt tp' io')"
proof (cases io)
  case None
  then have "\<forall>j < length ps. ticks currt < ticks (next_resend_time (ps ! j))"
    using assms(1) by (simp add: oldest_of_def)
  then show ?thesis using assms None
    by (auto simp: oldest_of_def ticks_copy time_order_def nth_append intro: le_less_trans)
next
  case (Some i)
  then have "\<forall>j < length ps. ticks tp \<le> ticks (next_resend_time (ps ! j))"
    using assms(1) by (auto simp: oldest_of_def dest: nth_mem)
  then show ?thesis using assms Some
    by (auto simp: oldest_of_def ticks_copy is_less_ticks nth_append intro: less_le_trans)
qed

lemma oldest_loop_result:
  assumes "oldest_of ps currt tp io" "time_order L" "resends_ok L rs"
  shows "\<exists>tp' io'. oldest_loop L (length ps) rs (tp, io) = Some (tp', io') \<and> oldest_of (ps @ rs) currt tp' io'"
  using assms
proof (induction rs arbitrary: ps tp io)
  case (Cons r rs)
  obtain tp1 io1 where step: "(case io of
          None \<Rightarrow>
            (if sa_hal_time_val_is_less_eq L (next_resend_time r) tp
             then (sa_hal_time_val_copy_from tp (next_resend_time r), Some (length ps))
             else (tp, io))
        | Some _ \<Rightarrow>
            (if sa_hal_time_val_is_less (next_resend_time r) tp
             then (sa_hal_time_val_copy_from tp (next_resend_time r), Some (length ps))
             else (tp, io))) = (tp1, io1)" by fastforce
  then have "oldest_of (ps @ [r]) currt tp1 io1"
    using oldest_of_snoc [OF Cons.prems(1,2), of r] by simp
  from Cons.IH [OF this Cons.prems(2)] Cons.prems(3) show ?case
    by (simp add: step resends_ok_def resend_ok_def)
qed simp

lemma oldest_task:
  assumes "time_order L" "resends_ok L rs"
  shows "\<exists>tp io. oldest_loop L 0 rs (sa_hal_time_val_copy_from blank currt, None) = Some (tp, io) \<and> oldest_of rs currt tp io"
  using oldest_loop_result [of "[]" currt "sa_hal_time_val_copy_from blank currt" None L rs] assms
  by (simp add: oldest_of_def ticks_copy)

section \<open>Handing out a task\<close>

lemma write_instead:
  assumes "heap_inv m" "content m h = Some (rq, rsp)"
    "int (length bs) \<le> free_space m + int (length rq) + int (length rsp)"
  obtains m1 m2 where "zepto_parser_free_memory m h = Some m1" "zepto_write_block m1 h bs = Some m2"
    "grown m h ([], bs) m2"
proof -
  from free_effect [OF assms(1,2)] obtain m1 where f: "zepto_parser_free_memory m h = Some m1" and g: "grown m h ([], []) m1"
    by blast
  have "int (length bs) \<le> free_space m1" using free_space_freed [OF g assms(1,2)] assms(3) by simp
  then obtain m2 where "zepto_write_block m1 h bs = Some m2" "grown m1 h ([], bs) m2"
    using write_block_effect [OF grownD(1) [OF g], of h "[]" "[]" bs] grownD(2) [OF g] by auto
  then show thesis using that f grown_grown [OF g] by blast
qed

lemma get_resend_task_idle:
  assumes "time_order L" "resends_ok L (pending_resends s)" "pending_resends s \<noteq> []"
    and "\<forall>r \<in> set (pending_resends s). ticks currt < ticks (next_resend_time r)"
  shows "siot_mesh_at_root_get_resend_task L blank s m h currt t =
    Some (SIOT_MESH_AT_ROOT_RET_RESEND_TASK_NOT_NOW, None, remaining_times L currt (pending_resends s) t, s, m)"
proof -
  obtain tp io where o: "oldest_loop L 0 (pending_resends s) (sa_hal_time_val_copy_from blank currt, None) = Some (tp, io)"
    and "oldest_of (pending_resends s) currt tp io" using oldest_task [OF assms(1,2)] by blast
  then have "io = None" using assms(4) nth_mem [of _ "pending_resends s"]
    by (cases io) (fastforce simp: oldest_of_def)+
  then show ?thesis using o assms(3) by (simp add: siot_mesh_at_root_get_resend_task_def)
qed

lemma get_resend_task_due:
  assumes heap: "heap_inv m" "content m h = Some (rq, rsp)"
    and L: "time_order L" "resends_ok L (pending_resends s)"
    and due: "r \<in> set (pending_resends s)" "ticks (next_resend_time r) \<le> ticks currt"
    and room: "\<forall>r \<in> set (pending_resends s).
      int (length (packet_data r)) \<le> free_space m + int (length rq) + int (length rsp)"
  obtains i m' where "i < length (pending_resends s)"
    "oldest_of (pending_resends s) currt (next_resend_time (pending_resends s ! i)) (Some i)"
    "grown m h ([], packet_data (pending_resends s ! i)) m'"
    "siot_mesh_at_root_get_resend_task L blank s m h currt t =
      (let it = pending_resends s ! i; rs = after_send L currt (pending_resends s) i
       in Some (send_code it, Some (resend_target_id it, resend_bus_id it, resend_next_hop_id it),
            remaining_times L currt rs t, s\<lparr>pending_resends := rs\<rparr>, m'))"
proof -
  obtain tp io where o: "oldest_loop L 0 (pending_resends s) (sa_hal_time_val_copy_from blank currt, None) = Some (tp, io)"
    and spec: "oldest_of (pending_resends s) currt tp io" using oldest_task [OF L] by blast
  from spec due obtain i where io: "io = Some i" by (cases io) (auto simp: oldest_of_def)
  let ?it = "pending_resends s ! i"
  have i: "i < length (pending_resends s)" and spec': "oldest_of (pending_resends s) currt (next_resend_time ?it) (Some i)"
    using spec io by (auto simp: oldest_of_def)
  have ok: "resend_ok L ?it" and in_set: "?it \<in> set (pending_resends s)"
    using L(2) i by (simp_all add: resends_ok_def)
  obtain m1 m2 where w: "zepto_parser_free_memory m h = Some m1" "zepto_write_block m1 h (packet_data ?it) = Some m2"
    "grown m h ([], packet_data ?it) m2"
    using write_instead [OF heap] room in_set by blast
  have "siot_mesh_at_root_get_resend_task L blank s m h currt t =
      (let it = ?it; rs = after_send L currt (pending_resends s) i
       in Some (send_code it, Some (resend_target_id it, resend_bus_id it, resend_next_hop_id it),
            remaining_times L currt rs t, s\<lparr>pending_resends := rs\<rparr>, m2))"
    using i ok w(1,2) due(1)
    by (cases "resend_type ?it"; auto simp: siot_mesh_at_root_get_resend_task_def o io item_def resend_ok_def Let_def
        after_send_def is_last_def send_code_def postponed_def)
  then show thesis using that i spec' w(3) by blast
qed

lemma oldest_mem: "oldest_of rs currt tp (Some i) \<Longrightarrow> i < length rs"
  by (simp add: oldest_of_def)

section \<open>Adding a task\<close>

lemma response_read_back:
  assumes "heap_inv m" "content m h = Some (rq, rsp)"
  obtains m1 po1 po2 po3 m2 po4 po5 where "memory_object_get_response_size m h = Some (int (length rsp))"
    "zepto_response_to_request m h = Some m1"
    "zepto_parser_init m1 h = Some po1"
    "zepto_parse_read_block m1 po1 (int (length rsp)) = Some (Some rsp, po2)"
    "zepto_parse_skip_block m1 po1 (int (length rsp)) = Some (True, po3)"
    "zepto_convert_part_of_request_to_response m1 h po1 po3 = Some (m2, po4, po5)"
    "grown m h ([], rsp) m2"
proof -
  from response_to_request_view [OF assms] obtain m1 where m1: "zepto_response_to_request m h = Some m1"
    and g: "grown m h (rsp, []) m1" by blast
  have v: "content m1 h = Some (rsp, [])" using grownD(2) [OF g] by simp
  note inv1 = grownD(1) [OF g]
  from view_object [OF inv1 v] obtain xs ob ys where live: "live_at m1 xs ob ys" "rq_size ob = int (length rsp)" by metis
  have len: "length rsp < 65536" using live_at_order [of m1 xs ob ys] live by simp
  let ?po = "\<lparr>mem_handle = Some h, offset = 0, res_valid = True\<rparr>"
  let ?po3 = "?po\<lparr>offset := int (length rsp)\<rparr>"
  have po: "zepto_parser_init m1 h = Some ?po" using valid_handle [OF inv1 v] by (simp add: zepto_parser_init_def)
  have rd: "zepto_parse_read_block m1 ?po (int (length rsp)) = Some (Some rsp, ?po3)"
    using parse_read_block_effect [OF inv1 v, of ?po 0 "length rsp"] len by simp
  have sk: "zepto_parse_skip_block m1 ?po (int (length rsp)) = Some (True, ?po3)"
    using parser_handle_ok [OF inv1 v, of ?po] sizes_of_view [OF inv1 v] len by (simp add: zepto_parse_skip_block_def)
  obtain m2 where cv: "zepto_convert_part_of_request_to_response m1 h ?po ?po3 = Some (m2, ?po\<lparr>mem_handle := None\<rparr>, ?po3\<lparr>mem_handle := None\<rparr>)"
    "grown m1 h ([], rsp) m2"
    using convert_part_of_request [OF inv1 v, of 0 "int (length rsp)" ?po ?po3] by auto
  show thesis
    by (rule that [OF sizes_of_view(2) [OF assms] m1 po rd sk cv(1) grown_grown [OF g cv(2)]])
qed

definition new_resend ::
  "mesh_lib \<Rightarrow> sa_time_val \<Rightarrow> u8 list \<Rightarrow> sa_time_val \<Rightarrow> u16 \<Rightarrow> u16 \<Rightarrow> u16 \<Rightarrow> u16 \<Rightarrow> MESH_PENDING_RESENDS" where
  "new_resend L blank dat currt checksum target bus hop =
     \<lparr>resend_type = MESH_PENDING_RESEND_TYPE_SELF_REPEATED, packet_data = dat,
       resend_cnt = SIOT_MESH_SUBJECT_FOR_MESH_RESEND L,
       next_resend_time = time_after blank currt (MESH_RESEND_PERIOD_tval L),
       resend_checksum = checksum, resend_target_id = target, resend_bus_id = bus, resend_next_hop_id = hop\<rparr>"

lemma add_resend_task_effect:
  assumes "heap_inv m" "content m h = Some (rq, rsp)" "rsp \<noteq> []"
  obtains m' t' where "siot_mesh_at_root_add_resend_task L blank s m h currt checksum target bus hop t =
      Some (t', s\<lparr>pending_resends := pending_resends s @ [new_resend L blank rsp currt checksum target bus hop]\<rparr>, m')"
    "grown m h ([], rsp) m'"
proof -
  from response_read_back [OF assms(1,2)] obtain m1 po1 po2 po3 m2 po4 po5 where
    "memory_object_get_response_size m h = Some (int (length rsp))"
    "zepto_response_to_request m h = Some m1" "zepto_parser_init m1 h = Some po1"
    "zepto_parse_read_block m1 po1 (int (length rsp)) = Some (Some rsp, po2)"
    "zepto_parse_skip_block m1 po1 (int (length rsp)) = Some (True, po3)"
    "zepto_convert_part_of_request_to_response m1 h po1 po3 = Some (m2, po4, po5)" "grown m h ([], rsp) m2" .
  then show thesis using that assms(3) by (simp add: siot_mesh_at_root_add_resend_task_def new_resend_def Let_def)
qed

section \<open>Repetition\<close>

text \<open>One call for each of the times \<open>ts\<close>: the codes returned, and the state and heap at the end.\<close>

fun resend_rounds :: "mesh_lib \<Rightarrow> sa_time_val \<Rightarrow> mesh \<Rightarrow> mem \<Rightarrow> nat \<Rightarrow> sa_time_val list \<Rightarrow> (mesh_ret list \<times> mesh \<times> mem) option" where
  "resend_rounds L t s m h [] = Some ([], s, m)"
| "resend_rounds L t s m h (currt # ts) = do {
     (ret, _, _, s, m) \<leftarrow> siot_mesh_at_root_get_resend_task L currt s m h currt t;
     (rets, s, m) \<leftarrow> resend_rounds L t s m h ts;
     Some (ret # rets, s, m)
   }"

text \<open>Each call comes when the repetition is due.\<close>

fun timely :: "mesh_lib \<Rightarrow> sa_time_val \<Rightarrow> sa_time_val list \<Rightarrow> bool" where
  "timely L due [] \<longleftrightarrow> True"
| "timely L due (currt # ts) \<longleftrightarrow> ticks due \<le> ticks currt \<and>
     timely L (time_after due currt (MESH_RESEND_PERIOD_tval L)) ts"

lemma resend_rounds_count:
  assumes "heap_inv m" "content m h = Some (rq, rsp)" "time_order L" "pending_resends s = [r]"
    and "resend_type r = MESH_PENDING_RESEND_TYPE_SELF_REPEATED" "resend_ok L r"
    and "int (length (packet_data r)) \<le> free_space m + int (length rq) + int (length rsp)"
    and "length ts = unat (resend_cnt r)" "timely L (next_resend_time r) ts"
  shows "\<exists>m'. resend_rounds L t s m h ts =
      Some (replicate (unat (resend_cnt r) - 1) SIOT_MESH_AT_ROOT_RET_RESEND_TASK_INTERM @ [SIOT_MESH_AT_ROOT_RET_RESEND_TASK_FINAL],
        s\<lparr>pending_resends := []\<rparr>, m') \<and> grown m h ([], packet_data r) m'"
  using assms
proof (induction ts arbitrary: m rq rsp s r)
  case Nil
  then have "unat (resend_cnt r) = 0" by simp
  then have "resend_cnt r = 0" by (simp add: unat_eq_zero)
  then show ?case using Nil.prems(6) by (simp add: resend_ok_def)
next
  case (Cons currt ts)
  obtain i m1 where i: "i < length (pending_resends s)" and g: "grown m h ([], packet_data (pending_resends s ! i)) m1"
    and res: "siot_mesh_at_root_get_resend_task L currt s m h currt t =
      (let it = pending_resends s ! i; rs = after_send L currt (pending_resends s) i
       in Some (send_code it, Some (resend_target_id it, resend_bus_id it, resend_next_hop_id it),
            remaining_times L currt rs t, s\<lparr>pending_resends := rs\<rparr>, m1))"
    by (rule get_resend_task_due [OF Cons.prems(1-3), of s r currt currt t])
      (use Cons.prems(4,6,7,9) in \<open>simp_all add: resends_ok_def\<close>)
  have i0: "i = 0" and it: "pending_resends s ! i = r" using i Cons.prems(4) by simp_all
  note g = g [unfolded it] and inv1 = grownD(1) [OF g [unfolded it]]
  have v1: "content m1 h = Some ([], packet_data r)" using grownD(2) [OF g] by simp
  show ?case
  proof (cases "resend_cnt r = 1")
    case True
    then have "ts = []" "unat (resend_cnt r) = 1" using Cons.prems(8) by simp_all
    then show ?thesis using g res True Cons.prems(4,5) i0
      by (simp add: it Let_def send_code_def after_send_def is_last_def drop_item_def)
  next
    case False
    let ?r = "postponed L currt r"
    let ?s = "s\<lparr>pending_resends := [?r]\<rparr>"
    have pos: "0 < unat (resend_cnt r)" using Cons.prems(8) by simp
    then have cnt: "unat (resend_cnt ?r) = unat (resend_cnt r) - 1"
      by (simp add: postponed_def unat_minus_one unat_gt_0)
    have rs: "after_send L currt (pending_resends s) i = [?r]"
      using False Cons.prems(4,5) i0 by (simp add: after_send_def is_last_def)
    have ok: "resend_ok L ?r"
      using resends_ok_after_send [of L "[r]" 0 currt] rs Cons.prems(4,6) i0 by (simp add: resends_ok_def)
    have ren: "int (length (packet_data ?r)) \<le> free_space m1 + int (length ([] :: u8 list)) + int (length (packet_data r))"
      using free_space_nonneg [OF inv1] by (simp add: postponed_def)
    have "timely L (next_resend_time ?r) ts" "length ts = unat (resend_cnt ?r)"
      using Cons.prems(8,9) cnt by (simp_all add: postponed_def time_after_def sa_hal_time_val_copy_from_def)
    then obtain m' where "resend_rounds L t ?s m1 h ts =
        Some (replicate (unat (resend_cnt ?r) - 1) SIOT_MESH_AT_ROOT_RET_RESEND_TASK_INTERM @ [SIOT_MESH_AT_ROOT_RET_RESEND_TASK_FINAL],
          ?s\<lparr>pending_resends := []\<rparr>, m')" "grown m1 h ([], packet_data ?r) m'"
      using Cons.IH [OF inv1 v1 Cons.prems(3), of ?s ?r] ok ren Cons.prems(5) by (auto simp: postponed_def)
    moreover have "replicate (unat (resend_cnt r) - 1) x = x # replicate (unat (resend_cnt r) - 1 - 1) x" for x :: mesh_ret
    proof -
      have "unat (resend_cnt r) \<noteq> 1" using False word_eq_iff_unsigned [of "resend_cnt r" 1] by (metis unsigned_1)
      then have "unat (resend_cnt r) - 1 \<noteq> 0" using pos by simp
      then show ?thesis by (cases "unat (resend_cnt r) - 1") simp_all
    qed
    ultimately show ?thesis using res rs False Cons.prems(5) cnt grown_grown [OF g]
      by (simp add: it Let_def send_code_def postponed_def)
  qed
qed

end
