(* ===== verification/Mesh_Routes.thy ===== *)
theory Mesh_Routes
  imports Mesh_Root
begin

text \<open>
  Changes of the planned tables (\<open>commstack_siot_mesh_support.cpp\<close>): a route to a device has been
  found, a link has failed, a device is removed. The tables of the root itself are changed at once,
  for every other device an update is planned.
\<close>

section \<open>Access to a device\<close>

text \<open>Callers that ignore the return code read through the iterator all the same.\<close>

definition device_at :: "mesh \<Rightarrow> u16 \<Rightarrow> (nat \<times> SIOT_MESH_DEVICE_ROUTE_AND_LINK_DATA) option" where
  "device_at s dev_id = do {
     let (_, i) = siot_mesh_at_root_get_device_data s dev_id;
     d \<leftarrow> item (mesh_routing_data s) i;
     Some (i, d)
   }"

definition put_device :: "mesh \<Rightarrow> nat \<Rightarrow> SIOT_MESH_DEVICE_ROUTE_AND_LINK_DATA \<Rightarrow> mesh" where
  "put_device s i d = s\<lparr>mesh_routing_data := (mesh_routing_data s)[i := d]\<rparr>"

section \<open>A route is found\<close>

text \<open>
  One round of the loop from the root towards \<open>id_prev\<close>: the state, and the next device or nothing if
  the function returns. The next hop is read from the link at the index of the route, which need
  not be the link that was looked for.
\<close>

definition route_to :: "SIOT_MESH_DEVICE_ROUTE_AND_LINK_DATA \<Rightarrow> SIOT_MESH_ROUTE \<Rightarrow> SIOT_MESH_DEVICE_ROUTE_AND_LINK_DATA" where
  "route_to rd route = (
     let rd = rd\<lparr>siot_m_route_table_planned := siot_mesh_at_root_add_or_update_route (siot_m_route_table_planned rd) route\<rparr>
     in if device_id rd = 0
        then rd\<lparr>siot_m_route_table_confirmed := siot_mesh_at_root_add_or_update_route (siot_m_route_table_confirmed rd) route\<rparr>
        else rd)"

definition next_device :: "mesh \<Rightarrow> u16 \<Rightarrow> u16 \<Rightarrow> u16 \<Rightarrow> (mesh \<times> u16 option) option" where
  "next_device s id_target id_prev dev_id = do {
     let update = siot_mesh_at_root_init_route_update_data dev_id id_target;
     (n, rd) \<leftarrow> device_at s dev_id;
     case first_index (\<lambda>r. rt_TARGET_ID r = id_prev) (siot_m_route_table_planned rd) of
       None \<Rightarrow> Some (s, None)
     | Some i \<Rightarrow> do {
         let route = \<lparr>rt_TARGET_ID = id_target, rt_LINK_ID = rt_LINK_ID (siot_m_route_table_planned rd ! i)\<rparr>;
         if \<not> list_ex (\<lambda>l. lt_LINK_ID l = rt_LINK_ID route) (siot_m_link_table_planned rd) then Some (s, None)
         else do {
           link \<leftarrow> item (siot_m_link_table_planned rd) i;
           let s = put_device s n (route_to rd route);
           s \<leftarrow> (if dev_id = 0 then Some s else siot_mesh_at_root_add_planned_route_update s update);
           assert (dev_id \<noteq> lt_NEXT_HOP link);
           Some (s, Some (lt_NEXT_HOP link))
         }
       }
   }"

text \<open>The loop: the state, and whether \<open>id_prev\<close> has been reached. It may run for ever.\<close>

partial_function (option) routes_on_the_way :: "mesh \<Rightarrow> u16 \<Rightarrow> u16 \<Rightarrow> u16 \<Rightarrow> (mesh \<times> bool) option" where
  "routes_on_the_way s id_target id_prev dev_id =
     (if dev_id = id_prev then Some (s, True)
      else do {
        (s, nxt) \<leftarrow> next_device s id_target id_prev dev_id;
        case nxt of None \<Rightarrow> Some (s, False) | Some dev_id \<Rightarrow> routes_on_the_way s id_target id_prev dev_id
      })"

text \<open>The link of the last retransmitter to the target, and its route over it.\<close>

definition link_from_prev ::
  "mesh_lib \<Rightarrow> SIOT_MESH_LINK \<Rightarrow> SIOT_MESH_DEVICE_ROUTE_AND_LINK_DATA \<Rightarrow> u16 \<Rightarrow> u16 \<Rightarrow>
   SIOT_MESH_DEVICE_ROUTE_AND_LINK_DATA option" where
  "link_from_prev L blank rd id_target bus = do {
     let link = blank\<lparr>lt_LINK_ID := SIOT_MESH_LINK_ID_UNDEFINED L, lt_NEXT_HOP := id_target, lt_BUS_ID := bus\<rparr>;
     (link, rd) \<leftarrow> (case first_index (\<lambda>l. lt_NEXT_HOP l = id_target) (siot_m_link_table_planned rd) of
         Some j \<Rightarrow> do {
           let l = (siot_m_link_table_planned rd ! j)\<lparr>lt_BUS_ID := bus\<rparr>;
           let rd = rd\<lparr>siot_m_link_table_planned := (siot_m_link_table_planned rd)[j := l]\<rparr>;
           rd \<leftarrow> (if device_id rd = 0 then do {
               c \<leftarrow> item (siot_m_link_table_confirmed rd) j;
               assert (lt_NEXT_HOP c = id_target);
               Some (rd\<lparr>siot_m_link_table_confirmed := (siot_m_link_table_confirmed rd)[j := c\<lparr>lt_BUS_ID := bus\<rparr>]\<rparr>)
             } else Some rd);
           Some (link\<lparr>lt_LINK_ID := lt_LINK_ID l\<rparr>, rd)
         }
       | None \<Rightarrow> Some (link, rd));
     let (link, rd) = (if lt_LINK_ID link = SIOT_MESH_LINK_ID_UNDEFINED L then
         let (link, t) = siot_mesh_at_root_insert_link (siot_m_link_table_planned rd) link;
             rd = rd\<lparr>siot_m_link_table_planned := t\<rparr>
         in if device_id rd = 0 then
              let (link, t) = siot_mesh_at_root_insert_link (siot_m_link_table_confirmed rd) link
              in (link, rd\<lparr>siot_m_link_table_confirmed := t\<rparr>)
            else (link, rd)
       else (link, rd));
     assert (lt_LINK_ID link \<noteq> SIOT_MESH_LINK_ID_UNDEFINED L);
     Some (route_to rd \<lparr>rt_TARGET_ID = id_target, rt_LINK_ID = lt_LINK_ID link\<rparr>)
   }"

text \<open>The tables of the target: its route to the root over link 0.\<close>

definition route_of_target ::
  "SIOT_MESH_LINK \<Rightarrow> SIOT_MESH_DEVICE_ROUTE_AND_LINK_DATA \<Rightarrow> u16 \<Rightarrow> u16 \<Rightarrow> SIOT_MESH_DEVICE_ROUTE_AND_LINK_DATA" where
  "route_of_target blank rd id_next bus = (
     let link = blank\<lparr>lt_LINK_ID := 0, lt_NEXT_HOP := id_next, lt_BUS_ID := bus\<rparr>;
         rd = rd\<lparr>siot_m_route_table_planned :=
           siot_mesh_at_root_add_or_update_route (siot_m_route_table_planned rd) \<lparr>rt_TARGET_ID = 0, rt_LINK_ID = 0\<rparr>\<rparr>
     in rd\<lparr>siot_m_link_table_planned := siot_mesh_at_root_add_or_update_link (siot_m_link_table_planned rd) link\<rparr>)"

definition siot_mesh_at_root_update_device_data_when_route_is_added ::
  "mesh_lib \<Rightarrow> SIOT_MESH_LINK \<Rightarrow> mesh \<Rightarrow> u16 \<Rightarrow> u16 \<Rightarrow> u16 \<Rightarrow> u16 \<Rightarrow> u16 \<Rightarrow> mesh option" where
  "siot_mesh_at_root_update_device_data_when_route_is_added L blank s id_target bus_to_send_from_target id_prev
       bust_to_send_from_prev id_next = do {
     root \<leftarrow> item (mesh_routing_data s) 0;
     assert (device_id root = 0);
     assert (id_target \<noteq> 0);
     (s, reached) \<leftarrow> routes_on_the_way s id_target id_prev 0;
     if \<not> reached then Some s
     else do {
       (n, rd) \<leftarrow> device_at s id_prev;
       rd \<leftarrow> link_from_prev L blank rd id_target bust_to_send_from_prev;
       let s = put_device s n rd;
       s \<leftarrow> (if device_id rd = 0 then Some s
         else siot_mesh_at_root_add_planned_route_update s (siot_mesh_at_root_init_route_update_data (device_id rd) id_target));
       (n, rd) \<leftarrow> device_at s id_target;
       let s = put_device s n (route_of_target blank rd id_next bus_to_send_from_target);
       siot_mesh_at_root_add_planned_route_update s (siot_mesh_at_root_init_route_update_data id_target id_target)
     }
   }"

definition siot_mesh_at_root_add_updates_for_device_when_route_is_added ::
  "mesh_lib \<Rightarrow> SIOT_MESH_LINK \<Rightarrow> mesh \<Rightarrow> u16 \<Rightarrow> u16 \<Rightarrow> u16 \<Rightarrow> u16 \<Rightarrow> u16 \<Rightarrow> mesh option" where
  "siot_mesh_at_root_add_updates_for_device_when_route_is_added = siot_mesh_at_root_update_device_data_when_route_is_added"

section \<open>A link has failed\<close>

text \<open>How many routes use each link.\<close>

definition used_links :: "SIOT_M_ROUTE_TABLE_TYPE \<Rightarrow> SIOT_M_LINK_TABLE_TYPE \<Rightarrow> int list" where
  "used_links rt lt = map (\<lambda>l. int (length (filter (\<lambda>r. rt_LINK_ID r = lt_LINK_ID l) rt))) lt"

text \<open>
  The loop that removes routes to unreachable devices, from index \<open>k\<close>. It goes on with \<open>k + 1\<close> also
  when the entry \<open>k\<close> has been erased. Every removed route gives back its use of a link, and the next
  hop of that link is visited next.
\<close>

definition without_route :: "SIOT_MESH_DEVICE_ROUTE_AND_LINK_DATA \<Rightarrow> u16 \<Rightarrow> SIOT_MESH_DEVICE_ROUTE_AND_LINK_DATA" where
  "without_route d target_id = (
     let d = d\<lparr>siot_m_route_table_planned := siot_mesh_at_root_remove_route (siot_m_route_table_planned d) target_id\<rparr>
     in if device_id d = 0
        then d\<lparr>siot_m_route_table_confirmed := siot_mesh_at_root_remove_route (siot_m_route_table_confirmed d) target_id\<rparr>
        else d)"

lemma without_route_shorter: "length (siot_m_route_table_planned (without_route d t)) \<le> length (siot_m_route_table_planned d)"
proof -
  have "length (siot_mesh_at_root_remove_route rt t) \<le> length rt" for rt by (induction rt) auto
  then show ?thesis by (simp add: without_route_def Let_def)
qed

definition give_back ::
  "u16 \<Rightarrow> u16 \<Rightarrow> SIOT_M_LINK_TABLE_TYPE \<Rightarrow> int list \<times> int list \<Rightarrow> int list \<times> int list" where
  "give_back failed_hop_id link_id lt c = (case c of (used, next_list) \<Rightarrow>
     case first_index (\<lambda>l. lt_LINK_ID l = link_id) lt of
       None \<Rightarrow> (used, next_list)
     | Some i \<Rightarrow>
         let next_hop_id = lt_NEXT_HOP (lt ! i);
             next_list = (if uint next_hop_id \<notin> set next_list \<and> next_hop_id \<noteq> failed_hop_id
               then next_list @ [uint next_hop_id] else next_list)
         in (used[i := used ! i - 1], next_list))"

function kill_routes ::
  "u16 \<Rightarrow> u16 list \<Rightarrow> nat \<Rightarrow> SIOT_MESH_DEVICE_ROUTE_AND_LINK_DATA \<Rightarrow> int list \<times> int list \<Rightarrow>
   SIOT_MESH_DEVICE_ROUTE_AND_LINK_DATA \<times> int list \<times> int list" where
  "kill_routes failed_hop_id lost k d c =
     (if k < length (siot_m_route_table_planned d) then
        let r = siot_m_route_table_planned d ! k
        in if rt_TARGET_ID r \<in> set lost
           then kill_routes failed_hop_id lost (Suc k) (without_route d (rt_TARGET_ID r))
             (give_back failed_hop_id (rt_LINK_ID r) (siot_m_link_table_planned d) c)
           else kill_routes failed_hop_id lost (Suc k) d c
      else (d, c))"
  by pat_completeness auto

termination
proof (relation "measure (\<lambda>(f, l, k, d, c). length (siot_m_route_table_planned d) - k)", goal_cases)
  case (2 f l k d c r)
  then show ?case using without_route_shorter [of d "rt_TARGET_ID r"] by simp
qed auto

declare kill_routes.simps [simp del]

text \<open>
  The loop that removes the links out of use: its index runs over the link table as it was, but reads
  the table as it is.
\<close>

fun drop_links :: "nat \<Rightarrow> int list \<Rightarrow> SIOT_MESH_DEVICE_ROUTE_AND_LINK_DATA \<Rightarrow> SIOT_MESH_DEVICE_ROUTE_AND_LINK_DATA option" where
  "drop_links k [] d = Some d"
| "drop_links k (u # us) d =
     (if u = 0 then do {
        l \<leftarrow> item (siot_m_link_table_planned d) k;
        let d = d\<lparr>siot_m_link_table_planned := siot_mesh_at_root_remove_link (siot_m_link_table_planned d) (lt_LINK_ID l)\<rparr>;
        let d = (if device_id d = 0
          then d\<lparr>siot_m_link_table_confirmed := siot_mesh_at_root_remove_link (siot_m_link_table_confirmed d) (lt_LINK_ID l)\<rparr>
          else d);
        drop_links (Suc k) us d
      } else drop_links (Suc k) us d)"

text \<open>One device of the list, given by its index: the state and the devices to visit next.\<close>

definition cut_device :: "u16 \<Rightarrow> u16 list \<Rightarrow> int \<Rightarrow> mesh \<times> int list \<Rightarrow> (mesh \<times> int list) option" where
  "cut_device failed_hop_id lost idx c = (case c of (s, next_list) \<Rightarrow> do {
     d \<leftarrow> item (mesh_routing_data s) (nat idx);
     let update = siot_mesh_at_root_init_route_update_data_with_many_affected_devices (device_id d) lost;
     let used = used_links (siot_m_route_table_planned d) (siot_m_link_table_planned d);
     assert (list_all (\<lambda>u. u \<noteq> 0) used);
     let (d, used, next_list) = kill_routes failed_hop_id lost 0 d (used, next_list);
     assert (list_all (\<lambda>u. 0 \<le> u) used);
     d \<leftarrow> drop_links 0 used d;
     let s = put_device s (nat idx) d;
     s \<leftarrow> (if device_id d \<noteq> 0 then siot_mesh_at_root_add_planned_route_update s update else Some s);
     Some (s, next_list)
   })"

fun cut_devices :: "u16 \<Rightarrow> u16 list \<Rightarrow> int list \<Rightarrow> mesh \<times> int list \<Rightarrow> (mesh \<times> int list) option" where
  "cut_devices failed_hop_id lost [] c = Some c"
| "cut_devices failed_hop_id lost (i # is) c = cut_device failed_hop_id lost i c \<bind> cut_devices failed_hop_id lost is"

text \<open>The ids in the list are replaced by indexes.\<close>

fun ids_to_indexes :: "mesh \<Rightarrow> int list \<Rightarrow> int list option" where
  "ids_to_indexes s [] = Some []"
| "ids_to_indexes s (i # is) = do {
     k \<leftarrow> first_index (\<lambda>d. uint (device_id d) = i) (mesh_routing_data s);
     is \<leftarrow> ids_to_indexes s is;
     Some (int k # is)
   }"

definition cut_round :: "u16 \<Rightarrow> u16 list \<Rightarrow> int list \<Rightarrow> mesh \<Rightarrow> (int list \<times> mesh) option" where
  "cut_round failed_hop_id lost prev_list s = do {
     (s, next_list) \<leftarrow> cut_devices failed_hop_id lost prev_list (s, []);
     prev_list \<leftarrow> ids_to_indexes s next_list;
     Some (prev_list, s)
   }"

text \<open>
  A round that leaves devices to visit has removed a route, so there are no more rounds than planned
  routes, and one.
\<close>

definition total_routes :: "mesh \<Rightarrow> nat" where
  "total_routes s = sum_list (map (\<lambda>d. length (siot_m_route_table_planned d)) (mesh_routing_data s))"

lemma remove_route_shorter:
  "length (siot_mesh_at_root_remove_route rt t) \<le> length rt"
  "t \<in> rt_TARGET_ID ` set rt \<Longrightarrow> length (siot_mesh_at_root_remove_route rt t) < length rt"
  by (induction rt) auto

lemma kill_routes_shorter:
  assumes "kill_routes f lost k d c = (d', c')"
  shows "length (siot_m_route_table_planned d') \<le> length (siot_m_route_table_planned d) \<and>
    (snd c' \<noteq> snd c \<longrightarrow> length (siot_m_route_table_planned d') < length (siot_m_route_table_planned d)) \<and>
    siot_m_link_table_planned d' = siot_m_link_table_planned d \<and> device_id d' = device_id d"
  using assms
proof (induction f lost k d c rule: kill_routes.induct)
  case (1 f lost k d c)
  show ?case
  proof (cases "k < length (siot_m_route_table_planned d) \<and> rt_TARGET_ID (siot_m_route_table_planned d ! k) \<in> set lost")
    case True
    let ?r = "siot_m_route_table_planned d ! k"
    let ?d = "without_route d (rt_TARGET_ID ?r)"
    have "kill_routes f lost (Suc k) ?d (give_back f (rt_LINK_ID ?r) (siot_m_link_table_planned d) c) = (d', c')"
      using "1.prems" True by (subst (asm) kill_routes.simps) (simp add: Let_def)
    moreover have "length (siot_m_route_table_planned ?d) < length (siot_m_route_table_planned d)"
      using True remove_route_shorter(2) [of "rt_TARGET_ID ?r" "siot_m_route_table_planned d"]
      by (simp add: without_route_def Let_def)
    moreover have "siot_m_link_table_planned ?d = siot_m_link_table_planned d" "device_id ?d = device_id d"
      by (simp_all add: without_route_def Let_def)
    ultimately show ?thesis using "1.IH"(1) [OF _ refl] True by fastforce
  next
    case False
    then have "(if k < length (siot_m_route_table_planned d) then kill_routes f lost (Suc k) d c else (d, c)) = (d', c')"
      using "1.prems" by (subst (asm) kill_routes.simps) (auto simp: Let_def)
    then show ?thesis using "1.IH"(2) [OF _ refl] False by (auto split: if_splits)
  qed
qed

lemma drop_links_routes:
  "drop_links k us d = Some d' \<Longrightarrow>
   siot_m_route_table_planned d' = siot_m_route_table_planned d \<and> device_id d' = device_id d"
  by (induction k us d rule: drop_links.induct) (auto simp: Let_def split: if_splits bind_splits)

lemma planned_update_tables:
  "siot_mesh_at_root_add_planned_route_update s u = Some s' \<Longrightarrow> mesh_routing_data s' = mesh_routing_data s"
  by (auto simp: siot_mesh_at_root_add_planned_route_update_def Let_def split: option.splits)

lemma total_routes_put:
  assumes "i < length (mesh_routing_data s)"
  shows "total_routes (put_device s i d) + length (siot_m_route_table_planned (mesh_routing_data s ! i)) =
    total_routes s + length (siot_m_route_table_planned d)"
proof -
  obtain xs ys where xy: "mesh_routing_data s = xs @ (mesh_routing_data s ! i) # ys" "length xs = i"
    using split_at_index [OF assms] by blast
  then have "mesh_routing_data (put_device s i d) = xs @ d # ys"
    using list_update_append_mid [of xs i "mesh_routing_data s ! i" ys d] by (simp add: put_device_def)
  moreover have "total_routes s = sum_list (map (\<lambda>d. length (siot_m_route_table_planned d)) (xs @ (mesh_routing_data s ! i) # ys))"
    using xy(1) by (simp add: total_routes_def)
  ultimately show ?thesis by (simp add: total_routes_def)
qed

lemma cut_device_shorter:
  assumes "cut_device f lost i (s, nl) = Some (s', nl')"
  shows "total_routes s' \<le> total_routes s \<and> (nl' \<noteq> nl \<longrightarrow> total_routes s' < total_routes s)"
proof -
  obtain d d1 used1 d2 where d: "item (mesh_routing_data s) (nat i) = Some d"
    and k: "kill_routes f lost 0 d (used_links (siot_m_route_table_planned d) (siot_m_link_table_planned d), nl) = (d1, used1, nl')"
    and dl: "drop_links 0 used1 d1 = Some d2"
    and s': "mesh_routing_data s' = mesh_routing_data (put_device s (nat i) d2)"
    using assms unfolding cut_device_def
    by (auto simp: Let_def split: bind_splits prod.splits if_splits dest: planned_update_tables)
  have i: "nat i < length (mesh_routing_data s)" "mesh_routing_data s ! nat i = d"
    using d by (auto simp: item_def split: if_splits)
  have "total_routes s' = total_routes (put_device s (nat i) d2)" using s' by (simp add: total_routes_def)
  then show ?thesis
    using total_routes_put [OF i(1), of d2] i(2) kill_routes_shorter [OF k] drop_links_routes [OF dl] by fastforce
qed

lemma cut_devices_shorter:
  "cut_devices f lost is (s, nl) = Some (s', nl') \<Longrightarrow>
   total_routes s' \<le> total_routes s \<and> (nl' \<noteq> nl \<longrightarrow> total_routes s' < total_routes s)"
proof (induction "is" arbitrary: s nl)
  case (Cons i "is")
  then obtain s1 nl1 where "cut_device f lost i (s, nl) = Some (s1, nl1)"
      "cut_devices f lost is (s1, nl1) = Some (s', nl')"
    by (auto split: bind_splits)
  then show ?case using cut_device_shorter Cons.IH [of s1 nl1] by (metis le_trans less_le_trans le_less_trans)
qed simp

lemma ids_to_indexes_Nil: "ids_to_indexes s is = Some [] \<longleftrightarrow> is = []"
  by (cases "is") (auto split: bind_splits)

lemma cut_round_shorter:
  assumes "cut_round f lost is s = Some (nl, s')" "nl \<noteq> []"
  shows "total_routes s' < total_routes s"
proof -
  obtain ids where "cut_devices f lost is (s, []) = Some (s', ids)" "ids_to_indexes s' ids = Some nl"
    using assms(1) by (auto simp: cut_round_def split: bind_splits)
  then show ?thesis using cut_devices_shorter assms(2) by force
qed

function cut_loop :: "u16 \<Rightarrow> u16 list \<Rightarrow> int list \<Rightarrow> mesh \<Rightarrow> mesh option" where
  "cut_loop failed_hop_id lost prev_list s =
     (case cut_round failed_hop_id lost prev_list s of
        None \<Rightarrow> None
      | Some (prev_list, s) \<Rightarrow> if prev_list \<noteq> [] then cut_loop failed_hop_id lost prev_list s else Some s)"
  by pat_completeness auto

termination
  by (relation "measure (\<lambda>(f, l, i, s). total_routes s)") (auto dest: cut_round_shorter)

declare cut_loop.simps [simp del]

text \<open>The tables of unreachable devices are cleared.\<close>

fun clear_lost :: "u16 list \<Rightarrow> mesh \<Rightarrow> mesh option" where
  "clear_lost [] s = Some s"
| "clear_lost (i # is) s = do {
     s \<leftarrow> (if i \<noteq> 0 then siot_mesh_at_root_add_planned_route_update s (siot_mesh_at_root_init_route_update_data i i)
       else Some s);
     (n, d) \<leftarrow> device_at s i;
     let d = d\<lparr>siot_m_route_table_planned := [], siot_m_link_table_planned := []\<rparr>;
     let d = (if i = 0 then d\<lparr>siot_m_route_table_confirmed := [], siot_m_link_table_confirmed := []\<rparr> else d);
     clear_lost is (put_device s n d)
   }"

definition siot_mesh_at_root_remove_link_to_target :: "mesh \<Rightarrow> u16 \<Rightarrow> bool \<Rightarrow> (mesh_ret \<times> mesh) option" where
  "siot_mesh_at_root_remove_link_to_target s failed_hop_id update_all_affected =
     (if siot_mesh_at_root_sanitize_device_id s failed_hop_id \<noteq> SIOT_MESH_AT_ROOT_RET_OK
      then Some (siot_mesh_at_root_sanitize_device_id s failed_hop_id, s)
      else do {
        root_index \<leftarrow> first_index (\<lambda>d. device_id d = 0) (mesh_routing_data s);
        (_, failed) \<leftarrow> device_at s failed_hop_id;
        let lost = failed_hop_id # filter (\<lambda>t. t \<noteq> 0) (map rt_TARGET_ID (siot_m_route_table_planned failed));
        s \<leftarrow> cut_loop failed_hop_id lost [int root_index] s;
        s \<leftarrow> (if update_all_affected then clear_lost lost s else Some s);
        dbg_siot_mesh_at_root_validate_all_device_tables (mesh_routing_data s);
        Some (SIOT_MESH_AT_ROOT_RET_OK, s)
      })"

definition siot_mesh_at_root_remove_link_to_target_route_error_reported ::
  "mesh_lib \<Rightarrow> mesh \<Rightarrow> u16 \<Rightarrow> u16 \<Rightarrow> u16 \<Rightarrow> bool \<Rightarrow> (mesh_ret \<times> mesh) option" where
  "siot_mesh_at_root_remove_link_to_target_route_error_reported L s reporting_id failed_hop_id failed_target_id from_root = do {
     dbg_siot_mesh_at_root_validate_all_device_tables (mesh_routing_data s);
     let failed_hop_id = (if from_root then
         (if failed_hop_id = SIOT_MESH_NEXT_HOP_UNDEFINED L then failed_target_id else failed_hop_id)
       else reporting_id);
     (ret, s) \<leftarrow> siot_mesh_at_root_remove_link_to_target s failed_hop_id from_root;
     dbg_siot_mesh_at_root_validate_all_device_tables (mesh_routing_data s);
     Some (ret, s)
   }"

definition siot_mesh_at_root_remove_link_to_target_no_ack_from_immediate_hop ::
  "mesh_lib \<Rightarrow> mesh \<Rightarrow> u16 \<Rightarrow> u16 \<Rightarrow> mesh option" where
  "siot_mesh_at_root_remove_link_to_target_no_ack_from_immediate_hop L s target_id next_hop_id =
     map_option snd (siot_mesh_at_root_remove_link_to_target_route_error_reported L s 0 next_hop_id target_id True)"

section \<open>A device is removed\<close>

text \<open>
  The loop over the planned updates does not advance: it does not end when the first planned update
  is for another device.
\<close>

fun erase_planned :: "u16 \<Rightarrow> SIOT_MESH_DEVICE_ROUTING_DATA_UPDATE_INITIATOR list \<Rightarrow>
    SIOT_MESH_DEVICE_ROUTING_DATA_UPDATE_INITIATOR list option" where
  "erase_planned dev_id [] = Some []"
| "erase_planned dev_id (p # ps) = (if ini_device_id p = dev_id then erase_planned dev_id ps else None)"

text \<open>The loops that erase one entry at a time and start again.\<close>

fun erase_in_progress :: "u16 \<Rightarrow> SIOT_MESH_DEVICE_ROUTING_DATA_UPDATE list \<Rightarrow> SIOT_MESH_DEVICE_ROUTING_DATA_UPDATE list" where
  "erase_in_progress dev_id [] = []"
| "erase_in_progress dev_id (u # us) =
     (if upd_device_id u = dev_id then erase_in_progress dev_id us else u # erase_in_progress dev_id us)"

fun erase_tasks :: "u16 \<Rightarrow> MESH_PENDING_RESENDS list \<Rightarrow> MESH_PENDING_RESENDS list option" where
  "erase_tasks dev_id [] = Some []"
| "erase_tasks dev_id (r # rs) =
     (if resend_target_id r = dev_id \<or> resend_next_hop_id r = dev_id then do {
        assert (resend_type r = MESH_PENDING_RESEND_TYPE_SELF_REPEATED);
        erase_tasks dev_id rs
      } else map_option ((#) r) (erase_tasks dev_id rs))"

fun erase_hops :: "u16 \<Rightarrow> DEVICE_LAST_HOPS list \<Rightarrow> DEVICE_LAST_HOPS list" where
  "erase_hops dev_id [] = []"
| "erase_hops dev_id (d # ds) = (if dlh_device_id d = dev_id then erase_hops dev_id ds else d # erase_hops dev_id ds)"

definition siot_mesh_at_root_remove_device :: "mesh \<Rightarrow> u16 \<Rightarrow> (mesh_ret \<times> mesh) option" where
  "siot_mesh_at_root_remove_device s dev_id = do {
     (_, s) \<leftarrow> siot_mesh_at_root_remove_link_to_target s dev_id True;
     planned \<leftarrow> erase_planned dev_id (planned_updates s);
     tasks \<leftarrow> erase_tasks dev_id (pending_resends s);
     let s = s\<lparr>planned_updates := planned,
       mesh_routing_data_updates_in_progress := erase_in_progress dev_id (mesh_routing_data_updates_in_progress s),
       pending_resends := tasks,
       last_hops_of_all_devices := erase_hops dev_id (last_hops_of_all_devices s)\<rparr>;
     case first_index (\<lambda>d. device_id d = dev_id) (mesh_routing_data s) of
       Some i \<Rightarrow> Some (SIOT_MESH_AT_ROOT_RET_OK, s\<lparr>mesh_routing_data := drop_item i (mesh_routing_data s)\<rparr>)
     | None \<Rightarrow> Some (SIOT_MESH_AT_ROOT_RET_NOT_FOUND, s)
   }"

end
