(* ===== verification/Mesh_Way.thy ===== *)
theory Mesh_Way
  imports Mesh_Routes
begin

text \<open>
  The devices as a map from ids, and what finding a route and losing a link do to it: the chain of
  devices from the root that learn a route, and the routes that the loop over a route table removes.
\<close>

section \<open>Devices as a map\<close>

definition device_of :: "mesh \<Rightarrow> u16 \<rightharpoonup> SIOT_MESH_DEVICE_ROUTE_AND_LINK_DATA" where
  "device_of s k = find (\<lambda>d. device_id d = k) (mesh_routing_data s)"

lemma find_first_index: "find P xs = map_option ((!) xs) (first_index P xs)"
  by (induction xs) (simp_all add: option.map_comp comp_def)

lemma device_at_of: "device_at s k = Some (n, d) \<Longrightarrow>
    device_of s k = Some d \<and> n < length (mesh_routing_data s) \<and> mesh_routing_data s ! n = d \<and>
    first_index (\<lambda>d. device_id d = k) (mesh_routing_data s) = Some n"
  by (auto simp: device_at_def siot_mesh_at_root_get_device_data_def item_def device_of_def find_first_index first_index_Some
      split: option.splits if_splits)

lemma device_of_at:
  assumes "device_of s k = Some d"
  shows "\<exists>n. device_at s k = Some (n, d)"
proof -
  obtain n where n: "first_index (\<lambda>d. device_id d = k) (mesh_routing_data s) = Some n" "d = mesh_routing_data s ! n"
    using assms by (auto simp: device_of_def find_first_index)
  then have "n < length (mesh_routing_data s)" by (simp add: first_index_Some)
  then show ?thesis using n by (simp add: device_at_def siot_mesh_at_root_get_device_data_def item_def)
qed

lemma device_of_id: "device_of s k = Some d \<Longrightarrow> device_id d = k"
  by (auto simp: device_of_def find_Some_iff)

lemma find_update:
  "first_index P xs = Some n \<Longrightarrow> P y \<Longrightarrow> find P (xs[n := y]) = Some y"
proof (induction xs arbitrary: n)
  case (Cons x xs)
  then show ?case by (cases n) (auto split: if_splits)
qed simp

lemma find_other: "\<not> P (xs ! n) \<Longrightarrow> \<not> P y \<Longrightarrow> find P (xs[n := y]) = find P xs"
proof (induction xs arbitrary: n)
  case (Cons x xs)
  then show ?case by (cases n) auto
qed simp

lemma device_of_put:
  assumes "device_at s k = Some (n, d)" "device_id d' = k"
  shows "device_of (put_device s n d') = (device_of s)(k \<mapsto> d')"
proof
  fix x
  note at = device_at_of [OF assms(1)]
  show "device_of (put_device s n d') x = ((device_of s)(k \<mapsto> d')) x"
  proof (cases "x = k")
    case True
    then show ?thesis using at assms(2)
      find_update [of "\<lambda>d. device_id d = k" "mesh_routing_data s" n d']
      by (simp add: device_of_def put_device_def)
  next
    case False
    have "device_id (mesh_routing_data s ! n) = k" using at device_of_id by blast
    then show ?thesis using False assms(2)
      find_other [of "\<lambda>d. device_id d = x" "mesh_routing_data s" n d']
      by (simp add: device_of_def put_device_def)
  qed
qed

lemma put_device_planned [simp]: "planned_updates (put_device s n d) = planned_updates s"
  by (simp add: put_device_def)

definition update_planned :: "mesh \<Rightarrow> u16 set" where
  "update_planned s = ini_device_id ` set (planned_updates s)"

lemma add_planned_update:
  assumes "enforce_full_update u = False"
  obtains s' where "siot_mesh_at_root_add_planned_route_update s u = Some s'"
    "update_planned s' = insert (ini_device_id u) (update_planned s)" "device_of s' = device_of s"
    "mesh_routing_data s' = mesh_routing_data s"
proof (cases "first_index (\<lambda>p. ini_device_id p = ini_device_id u) (planned_updates s)")
  case None
  then show thesis using assms that
    by (auto simp: siot_mesh_at_root_add_planned_route_update_def update_planned_def device_of_def fun_eq_iff)
next
  case (Some i)
  let ?it = "planned_updates s ! i"
  have i: "i < length (planned_updates s)" "ini_device_id ?it = ini_device_id u"
    using Some by (auto simp: first_index_Some)
  obtain xs ys where xy: "planned_updates s = xs @ ?it # ys" "length xs = i" using split_at_index [OF i(1)] by blast
  let ?new = "?it\<lparr>ini_affected_routes := ini_affected_routes ?it @ ini_affected_routes u\<rparr>"
  have "ini_device_id ` set ((planned_updates s)[i := ?new]) = insert (ini_device_id u) (ini_device_id ` set (planned_updates s))"
    using i(2) list_update_append_mid [OF xy(2), of ?it ys ?new]
    by (subst (1 3) xy(1)) auto
  then show thesis using assms that Some
    by (auto simp: siot_mesh_at_root_add_planned_route_update_def update_planned_def device_of_def fun_eq_iff Let_def)
qed

section \<open>The way to the last retransmitter\<close>

text \<open>
  The link and the next hop of a device towards \<open>p\<close>, where the link of the route is found at the
  index of the route.
\<close>

definition hop_to :: "SIOT_MESH_DEVICE_ROUTE_AND_LINK_DATA \<Rightarrow> u16 \<Rightarrow> (u16 \<times> u16) option" where
  "hop_to rd p = (case first_index (\<lambda>r. rt_TARGET_ID r = p) (siot_m_route_table_planned rd) of
     None \<Rightarrow> None
   | Some i \<Rightarrow> if i < length (siot_m_link_table_planned rd) \<and>
        lt_LINK_ID (siot_m_link_table_planned rd ! i) = rt_LINK_ID (siot_m_route_table_planned rd ! i)
      then Some (rt_LINK_ID (siot_m_route_table_planned rd ! i), lt_NEXT_HOP (siot_m_link_table_planned rd ! i)) else None)"

lemma route_to_simps [simp]:
  "device_id (route_to rd r) = device_id rd"
  "siot_m_link_table_planned (route_to rd r) = siot_m_link_table_planned rd"
  "siot_m_route_table_planned (route_to rd r) = siot_mesh_at_root_add_or_update_route (siot_m_route_table_planned rd) r"
  by (simp_all add: route_to_def Let_def)

lemma next_device_hop:
  assumes "device_of s d = Some rd" "hop_to rd p = Some (k, e)" "e \<noteq> d"
  shows "\<exists>s'. next_device s t p d = Some (s', Some e) \<and>
    device_of s' = (device_of s)(d \<mapsto> route_to rd \<lparr>rt_TARGET_ID = t, rt_LINK_ID = k\<rparr>) \<and>
    update_planned s' = update_planned s \<union> ({d} - {0})"
proof -
  obtain n where at: "device_at s d = Some (n, rd)" using device_of_at [OF assms(1)] by blast
  obtain i where i: "first_index (\<lambda>r. rt_TARGET_ID r = p) (siot_m_route_table_planned rd) = Some i"
    "i < length (siot_m_link_table_planned rd)"
    "lt_LINK_ID (siot_m_link_table_planned rd ! i) = rt_LINK_ID (siot_m_route_table_planned rd ! i)"
    "k = rt_LINK_ID (siot_m_route_table_planned rd ! i)" "e = lt_NEXT_HOP (siot_m_link_table_planned rd ! i)"
    using assms(2) by (auto simp: hop_to_def split: option.splits if_splits)
  have ex: "list_ex (\<lambda>l. lt_LINK_ID l = k) (siot_m_link_table_planned rd)"
    using i nth_mem [OF i(2)] by (auto simp: list_ex_iff)
  let ?rd = "route_to rd \<lparr>rt_TARGET_ID = t, rt_LINK_ID = k\<rparr>" and ?u = "siot_mesh_at_root_init_route_update_data d t"
  let ?s = "put_device s n ?rd"
  have dev: "device_of ?s = (device_of s)(d \<mapsto> ?rd)"
    by (rule device_of_put [OF at]) (simp add: device_of_id [OF assms(1)])
  show ?thesis
  proof (cases "d = 0")
    case True
    then show ?thesis using at i ex assms(3) dev
      by (auto simp: next_device_def item_def update_planned_def Let_def)
  next
    case False
    obtain s' where "siot_mesh_at_root_add_planned_route_update ?s ?u = Some s'"
      "update_planned s' = insert d (update_planned ?s)" "device_of s' = device_of ?s"
      by (rule add_planned_update [of ?u ?s]) (simp_all add: siot_mesh_at_root_init_route_update_data_def)
    then show ?thesis using False at i ex assms(3) dev
      by (auto simp: next_device_def item_def update_planned_def Let_def)
  qed
qed

text \<open>A chain of devices from \<open>d\<close> to \<open>p\<close>: \<open>ds\<close> are those behind \<open>d\<close>.\<close>

fun way_chain :: "(u16 \<rightharpoonup> SIOT_MESH_DEVICE_ROUTE_AND_LINK_DATA) \<Rightarrow> u16 \<Rightarrow> u16 \<Rightarrow> u16 list \<Rightarrow> bool" where
  "way_chain D p d [] \<longleftrightarrow> d = p"
| "way_chain D p d (e # ds) \<longleftrightarrow> d \<noteq> p \<and> (case D d of None \<Rightarrow> False
     | Some rd \<Rightarrow> map_option snd (hop_to rd p) = Some e) \<and> way_chain D p e ds"

text \<open>What the devices on the chain before its end learn.\<close>

definition learn :: "u16 \<Rightarrow> u16 \<Rightarrow> SIOT_MESH_DEVICE_ROUTE_AND_LINK_DATA \<Rightarrow> SIOT_MESH_DEVICE_ROUTE_AND_LINK_DATA" where
  "learn t p rd = route_to rd \<lparr>rt_TARGET_ID = t, rt_LINK_ID = fst (the (hop_to rd p))\<rparr>"

lemma way_chain_end: "way_chain D p d ds \<Longrightarrow> p \<in> set (d # ds)"
  by (induction ds arbitrary: d) auto

lemma way_chain_cong:
  "(\<And>x. x \<in> set (d # ds) \<Longrightarrow> x \<noteq> p \<Longrightarrow> D x = D' x) \<Longrightarrow> way_chain D p d ds = way_chain D' p d ds"
proof (induction ds arbitrary: d)
  case (Cons e ds)
  show ?case
  proof (cases "d = p")
    case False
    then have "D d = D' d" using Cons.prems by simp
    then show ?thesis using Cons.IH [of e] Cons.prems by auto
  qed simp
qed simp

lemma routes_on_the_way_chain:
  assumes "way_chain (device_of s) p d ds" "distinct (d # ds)"
  shows "\<exists>s'. routes_on_the_way s t p d = Some (s', True) \<and>
    device_of s' = (\<lambda>x. if x \<in> set (d # ds) - {p} then map_option (learn t p) (device_of s x) else device_of s x) \<and>
    update_planned s' = update_planned s \<union> (set (d # ds) - {p, 0})"
  using assms
proof (induction ds arbitrary: s d)
  case Nil
  then have "d = p" by simp
  then show ?case by (subst routes_on_the_way.simps) auto
next
  case (Cons e ds)
  then obtain rd k where rd: "d \<noteq> p" "device_of s d = Some rd" "hop_to rd p = Some (k, e)"
    by (auto split: option.splits)
  have "e \<noteq> d" using Cons.prems(2) by auto
  from next_device_hop [OF rd(2,3) this, of t] obtain s1 where s1: "next_device s t p d = Some (s1, Some e)"
    "device_of s1 = (device_of s)(d \<mapsto> route_to rd \<lparr>rt_TARGET_ID = t, rt_LINK_ID = k\<rparr>)"
    "update_planned s1 = update_planned s \<union> ({d} - {0})" by blast
  have "way_chain (device_of s1) p e ds = way_chain (device_of s) p e ds"
    by (rule way_chain_cong) (use Cons.prems(2) s1(2) in auto)
  then have "way_chain (device_of s1) p e ds" "distinct (e # ds)" using Cons.prems by (auto split: option.splits)
  from Cons.IH [OF this] obtain s2 where s2: "routes_on_the_way s1 t p e = Some (s2, True)"
    "device_of s2 = (\<lambda>x. if x \<in> set (e # ds) - {p} then map_option (learn t p) (device_of s1 x) else device_of s1 x)"
    "update_planned s2 = update_planned s1 \<union> (set (e # ds) - {p, 0})" by blast
  have "routes_on_the_way s t p d = Some (s2, True)"
    using rd(1) s1(1) s2(1) by (subst routes_on_the_way.simps) simp
  moreover have "device_of s2 = (\<lambda>x. if x \<in> set (d # e # ds) - {p} then map_option (learn t p) (device_of s x) else device_of s x)"
    using s2(2) s1(2) rd Cons.prems(2) by (auto simp: fun_eq_iff learn_def)
  moreover have "update_planned s2 = update_planned s \<union> (set (d # e # ds) - {p, 0})"
    using s2(3) s1(3) rd(1) by auto
  ultimately show ?case by blast
qed

section \<open>The ends of the route\<close>

text \<open>The link tables of the root are kept alike.\<close>

definition link_room :: "mesh_lib \<Rightarrow> SIOT_MESH_DEVICE_ROUTE_AND_LINK_DATA \<Rightarrow> bool" where
  "link_room L rd \<longleftrightarrow> ordered lt_LINK_ID (siot_m_link_table_planned rd) \<and>
     length (siot_m_link_table_planned rd) < unat (SIOT_MESH_LINK_ID_UNDEFINED L) \<and>
     (\<forall>l \<in> set (siot_m_link_table_planned rd). lt_LINK_ID l \<noteq> SIOT_MESH_LINK_ID_UNDEFINED L) \<and>
     (device_id rd = 0 \<longrightarrow> siot_m_link_table_confirmed rd = siot_m_link_table_planned rd)"

text \<open>A route to \<open>t\<close> over a link to \<open>t\<close> on the given bus.\<close>

definition direct_route :: "SIOT_MESH_DEVICE_ROUTE_AND_LINK_DATA \<Rightarrow> SIOT_MESH_DEVICE_ROUTE_AND_LINK_DATA \<Rightarrow> u16 \<Rightarrow> u16 \<Rightarrow> bool" where
  "direct_route rd rd' t bus \<longleftrightarrow> device_id rd' = device_id rd \<and>
     (\<exists>l \<in> set (siot_m_link_table_planned rd'). lt_NEXT_HOP l = t \<and> lt_BUS_ID l = bus \<and>
        table_map rt_TARGET_ID (siot_m_route_table_planned rd') =
          (table_map rt_TARGET_ID (siot_m_route_table_planned rd))(t \<mapsto> \<lparr>rt_TARGET_ID = t, rt_LINK_ID = lt_LINK_ID l\<rparr>))"

lemma ids_below:
  assumes "\<forall>j < k. j \<in> lt_LINK_ID ` set t"
  shows "unat (k :: u16) \<le> length t"
proof -
  have "of_nat ` {..<unat k} \<subseteq> lt_LINK_ID ` set t"
  proof (rule image_subsetI)
    fix n assume n: "n \<in> {..<unat k}"
    then have "unat (of_nat n :: u16) = n" using unsigned_less [of k, where ?'a = nat] by (simp add: unat_of_nat)
    then have "(of_nat n :: u16) < k" using n by (simp add: word_less_nat_alt)
    then show "of_nat n \<in> lt_LINK_ID ` set t" using assms by simp
  qed
  then have "card (of_nat ` {..<unat k} :: u16 set) \<le> card (lt_LINK_ID ` set t)" by (intro card_mono) simp_all
  moreover have "card (of_nat ` {..<unat k} :: u16 set) = unat k"
  proof (subst card_image)
    show "inj_on (of_nat :: nat \<Rightarrow> u16) {..<unat k}"
      using unsigned_less [of k, where ?'a = nat]
      by (intro inj_on_inverseI [of _ unat]) (simp add: unat_of_nat)
  qed simp
  moreover have "card (lt_LINK_ID ` set t) \<le> length t" using card_image_le card_length le_trans by blast
  ultimately show ?thesis by simp
qed

lemma insert_link_id: "siot_mesh_at_root_insert_link t (link\<lparr>lt_LINK_ID := k\<rparr>) = siot_mesh_at_root_insert_link t link"
  by (simp add: siot_mesh_at_root_insert_link_def split: option.split)

lemma direct_routeI:
  assumes "device_id rd1 = device_id rd" "siot_m_route_table_planned rd1 = siot_m_route_table_planned rd"
    "l \<in> set (siot_m_link_table_planned rd1)" "lt_NEXT_HOP l = t" "lt_BUS_ID l = bus" "lt_LINK_ID l = k"
  shows "direct_route rd (route_to rd1 \<lparr>rt_TARGET_ID = t, rt_LINK_ID = k\<rparr>) t bus"
  using assms by (auto simp: direct_route_def routes.put_map)

lemma link_from_prev_known:
  assumes room: "link_room L rd"
    and Some: "first_index (\<lambda>l. lt_NEXT_HOP l = t) (siot_m_link_table_planned rd) = Some j"
  shows "\<exists>rd'. link_from_prev L blank rd t bus = Some rd' \<and> direct_route rd rd' t bus"
proof -
  let ?lt = "siot_m_link_table_planned rd"
  let ?l = "(?lt ! j)\<lparr>lt_BUS_ID := bus\<rparr>"
  have j: "j < length ?lt" "lt_NEXT_HOP (?lt ! j) = t" using Some by (auto simp: first_index_Some)
  have k: "lt_LINK_ID (?lt ! j) \<noteq> SIOT_MESH_LINK_ID_UNDEFINED L" using room j(1) by (simp add: link_room_def)
  let ?rd = "rd\<lparr>siot_m_link_table_planned := ?lt[j := ?l]\<rparr>"
  let ?rd1 = "if device_id rd = 0 then ?rd\<lparr>siot_m_link_table_confirmed := ?lt[j := ?l]\<rparr> else ?rd"
  have "link_from_prev L blank rd t bus =
      Some (route_to ?rd1 \<lparr>rt_TARGET_ID = t, rt_LINK_ID = lt_LINK_ID (?lt ! j)\<rparr>)"
    using Some j k room by (simp add: link_from_prev_def item_def Let_def link_room_def)
  moreover have "direct_route rd (route_to ?rd1 \<lparr>rt_TARGET_ID = t, rt_LINK_ID = lt_LINK_ID (?lt ! j)\<rparr>) t bus"
    by (rule direct_routeI [of _ _ ?l]) (use j set_update_memI [OF j(1), of ?l] in simp_all)
  ultimately show ?thesis by blast
qed

lemma link_from_prev_new:
  assumes room: "link_room L rd"
    and None: "first_index (\<lambda>l. lt_NEXT_HOP l = t) (siot_m_link_table_planned rd) = None"
  shows "\<exists>rd'. link_from_prev L blank rd t bus = Some rd' \<and> direct_route rd rd' t bus"
proof -
  let ?lt = "siot_m_link_table_planned rd"
  let ?link = "blank\<lparr>lt_LINK_ID := SIOT_MESH_LINK_ID_UNDEFINED L, lt_NEXT_HOP := t, lt_BUS_ID := bus\<rparr>"
  have lt: "ordered lt_LINK_ID ?lt" "length ?lt < 65536"
    using room unsigned_less [of "SIOT_MESH_LINK_ID_UNDEFINED L", where ?'a = nat] by (simp_all add: link_room_def)
  from insert_link_effect [OF lt] obtain k where
    k: "siot_mesh_at_root_insert_link ?lt ?link = (?link\<lparr>lt_LINK_ID := k\<rparr>, siot_mesh_at_root_add_or_update_link ?lt (?link\<lparr>lt_LINK_ID := k\<rparr>))"
      "\<forall>j < k. j \<in> lt_LINK_ID ` set ?lt" by blast
  let ?l = "?link\<lparr>lt_LINK_ID := k\<rparr>"
  let ?new = "siot_mesh_at_root_add_or_update_link ?lt ?l"
  have k2: "siot_mesh_at_root_insert_link ?lt ?l = (?l, ?new)" using k(1) by (simp only: insert_link_id)
  have "unat k < unat (SIOT_MESH_LINK_ID_UNDEFINED L)" using ids_below [OF k(2)] room by (simp add: link_room_def)
  then have ne: "k \<noteq> SIOT_MESH_LINK_ID_UNDEFINED L" by auto
  let ?rd = "rd\<lparr>siot_m_link_table_planned := ?new\<rparr>"
  let ?rd1 = "if device_id rd = 0 then ?rd\<lparr>siot_m_link_table_confirmed := ?new\<rparr> else ?rd"
  have "link_from_prev L blank rd t bus = Some (route_to ?rd1 \<lparr>rt_TARGET_ID = t, rt_LINK_ID = k\<rparr>)"
    using None ne room k(1) k2 by (simp add: link_from_prev_def Let_def link_room_def split: prod.splits)
  moreover have "direct_route rd (route_to ?rd1 \<lparr>rt_TARGET_ID = t, rt_LINK_ID = k\<rparr>) t bus"
    by (rule direct_routeI [of _ _ ?l]) (use links.set_put(2) [of ?l ?lt] in simp_all)
  ultimately show ?thesis by blast
qed

lemma link_from_prev_effect:
  "link_room L rd \<Longrightarrow> \<exists>rd'. link_from_prev L blank rd t bus = Some rd' \<and> direct_route rd rd' t bus"
  using link_from_prev_known link_from_prev_new by (cases "first_index (\<lambda>l. lt_NEXT_HOP l = t) (siot_m_link_table_planned rd)") blast+

section \<open>The whole route\<close>

lemma route_is_added:
  assumes way_chain: "way_chain (device_of s) p 0 ds" "distinct (0 # ds)" and t: "t \<notin> set (0 # ds)"
    and root: "mesh_routing_data s = r # devs" "device_id r = 0"
    and p: "device_of s p = Some rdp" "link_room L rdp" and rdt: "device_of s t = Some rdt"
  shows "\<exists>s' rdp'. siot_mesh_at_root_update_device_data_when_route_is_added L blank s t bt p bp nx = Some s' \<and>
    direct_route rdp rdp' t bp \<and>
    device_of s' = (\<lambda>x. if x \<in> set (0 # ds) - {p} then map_option (learn t p) (device_of s x) else device_of s x)
      (p \<mapsto> rdp', t \<mapsto> route_of_target blank rdt nx bt) \<and>
    update_planned s' = update_planned s \<union> set ds \<union> {t}"
proof -
  have p_on: "p \<in> set (0 # ds)" by (rule way_chain_end [OF way_chain(1)])
  from routes_on_the_way_chain [OF way_chain, of t] obtain s1 where
    s1: "routes_on_the_way s t p 0 = Some (s1, True)"
      "device_of s1 = (\<lambda>x. if x \<in> set (0 # ds) - {p} then map_option (learn t p) (device_of s x) else device_of s x)"
      "update_planned s1 = update_planned s \<union> (set (0 # ds) - {p, 0})" by blast
  have "device_of s1 p = Some rdp" using s1(2) p(1) by simp
  from device_of_at [OF this] obtain n where n: "device_at s1 p = Some (n, rdp)" by blast
  from link_from_prev_effect [OF p(2)] obtain rdp' where
    rdp': "link_from_prev L blank rdp t bp = Some rdp'" "direct_route rdp rdp' t bp" by blast
  have ids: "device_id rdp = p" "device_id rdp' = p" "device_id rdt = t"
    using device_of_id p(1) rdt rdp'(2) by (auto simp: direct_route_def)
  let ?s2 = "put_device s1 n rdp'"
  have s2: "device_of ?s2 = (device_of s1)(p \<mapsto> rdp')" by (rule device_of_put [OF n ids(2)])
  obtain s3 where s3: "(if device_id rdp' = 0 then Some ?s2
         else siot_mesh_at_root_add_planned_route_update ?s2 (siot_mesh_at_root_init_route_update_data (device_id rdp') t)) = Some s3"
      "device_of s3 = device_of ?s2" "update_planned s3 = update_planned s1 \<union> ({p} - {0})"
  proof (cases "p = 0")
    case True
    then show thesis using that [of ?s2] ids by (simp add: update_planned_def)
  next
    case False
    obtain s' where "siot_mesh_at_root_add_planned_route_update ?s2 (siot_mesh_at_root_init_route_update_data p t) = Some s'"
      "update_planned s' = insert p (update_planned ?s2)" "device_of s' = device_of ?s2"
      by (rule add_planned_update [of "siot_mesh_at_root_init_route_update_data p t" ?s2])
        (simp_all add: siot_mesh_at_root_init_route_update_data_def)
    then show thesis using that [of s'] ids False by (auto simp: update_planned_def)
  qed
  have tp: "t \<noteq> p" "t \<noteq> 0" using t p_on by auto
  have "device_of s3 t = Some rdt" using s3(2) s2 s1(2) tp t rdt by auto
  from device_of_at [OF this] obtain m where m: "device_at s3 t = Some (m, rdt)" by blast
  let ?rdt = "route_of_target blank rdt nx bt"
  let ?s4 = "put_device s3 m ?rdt"
  have s4: "device_of ?s4 = (device_of s3)(t \<mapsto> ?rdt)"
    by (rule device_of_put [OF m]) (simp add: route_of_target_def ids)
  obtain s5 where s5: "siot_mesh_at_root_add_planned_route_update ?s4 (siot_mesh_at_root_init_route_update_data t t) = Some s5"
      "update_planned s5 = insert t (update_planned ?s4)" "device_of s5 = device_of ?s4"
    by (rule add_planned_update [of "siot_mesh_at_root_init_route_update_data t t" ?s4])
      (simp_all add: siot_mesh_at_root_init_route_update_data_def)
  have "siot_mesh_at_root_update_device_data_when_route_is_added L blank s t bt p bp nx = Some s5"
    using root tp s1(1) n rdp'(1) s3(1) m s5(1)
    by (simp add: siot_mesh_at_root_update_device_data_when_route_is_added_def item_def Let_def)
  moreover have "update_planned s5 = update_planned s \<union> set ds \<union> {t}"
    using s5(2) s3(3) s1(3) p_on way_chain(2) by (auto simp: update_planned_def [of ?s4] update_planned_def [of s3])
  ultimately show ?thesis using rdp'(2) s5(3) s4 s3(2) s2 s1(2) by auto
qed

section \<open>Routes over a failed link\<close>

text \<open>
  What the loop leaves of a route table: the entry behind an erased one is not looked at.
\<close>

fun skip_erase :: "('e \<Rightarrow> bool) \<Rightarrow> 'e list \<Rightarrow> 'e list" where
  "skip_erase lost [] = []"
| "skip_erase lost [r] = (if lost r then [] else [r])"
| "skip_erase lost (r # q # rs) = (if lost r then q # skip_erase lost rs else r # skip_erase lost (q # rs))"

lemma skip_erase_kept: "\<not> lost r \<Longrightarrow> skip_erase lost (r # rs) = r # skip_erase lost rs"
  by (cases rs) simp_all

lemma skip_erase_complete:
  "(\<forall>r \<in> set (skip_erase lost rs). \<not> lost r) \<longleftrightarrow> successively (\<lambda>r q. \<not> (lost r \<and> lost q)) rs"
proof (induction lost rs rule: skip_erase.induct)
  case (3 lost r q rs)
  show ?case
  proof (cases "lost r")
    case True
    then show ?thesis using 3(1) by (cases rs) auto
  next
    case False
    then show ?thesis using 3(2) by simp
  qed
qed simp_all

lemma skip_erase_keeps: "\<not> lost r \<Longrightarrow> r \<in> set rs \<Longrightarrow> r \<in> set (skip_erase lost rs)"
  by (induction lost rs rule: skip_erase.induct) auto

lemma skip_erase_subset: "set (skip_erase lost rs) \<subseteq> set rs"
  by (induction lost rs rule: skip_erase.induct) auto

lemma remove_route_here:
  assumes "ordered rt_TARGET_ID (ps @ r # rs)"
  shows "siot_mesh_at_root_remove_route (ps @ r # rs) (rt_TARGET_ID r) = ps @ rs"
proof -
  have "rt_TARGET_ID r \<notin> rt_TARGET_ID ` set ps" using assms by (auto simp del: routes.put_ordered)
  then show ?thesis using routes.del_behind [of "rt_TARGET_ID r" ps "r # rs"] by simp
qed

text \<open>The tables of the root are kept alike.\<close>

definition root_alike :: "SIOT_MESH_DEVICE_ROUTE_AND_LINK_DATA \<Rightarrow> bool" where
  "root_alike d \<longleftrightarrow> (device_id d = 0 \<longrightarrow> siot_m_route_table_confirmed d = siot_m_route_table_planned d)"

lemma kill_routes_result:
  assumes "siot_m_route_table_planned d = ps @ rs" "length ps = k" "ordered rt_TARGET_ID (ps @ rs)"
  shows "siot_m_route_table_planned (fst (kill_routes f lost k d c)) =
      ps @ skip_erase (\<lambda>r. rt_TARGET_ID r \<in> set lost) rs \<and>
    (root_alike d \<longrightarrow> root_alike (fst (kill_routes f lost k d c)))"
  using assms
proof (induction f lost k d c arbitrary: ps rs rule: kill_routes.induct)
  case (1 f lost k d c)
  show ?case
  proof (cases rs)
    case Nil
    then show ?thesis using "1.prems" by (subst (1 2) kill_routes.simps) simp
  next
    case (Cons r rs')
    have at: "siot_m_route_table_planned d ! k = r" and k: "k < length (siot_m_route_table_planned d)"
      using "1.prems" Cons by (simp_all add: nth_append)
    show ?thesis
    proof (cases "rt_TARGET_ID r \<in> set lost")
      case True
      let ?d = "without_route d (rt_TARGET_ID r)"
        and ?c = "give_back f (rt_LINK_ID r) (siot_m_link_table_planned d) c"
      have eq: "kill_routes f lost k d c = kill_routes f lost (Suc k) ?d ?c"
        using k at True by (subst kill_routes.simps) (simp add: Let_def)
      have t: "siot_m_route_table_planned ?d = ps @ rs'"
        using remove_route_here [of ps r rs'] "1.prems" Cons by (simp add: without_route_def Let_def)
      have al: "root_alike d \<longrightarrow> root_alike ?d" by (simp add: root_alike_def without_route_def Let_def)
      show ?thesis
      proof (cases rs')
        case Nil
        then show ?thesis using eq t al True Cons "1.prems"(2) by (subst (asm) (2) kill_routes.simps) simp
      next
        case (Cons q qs)
        have "siot_m_route_table_planned (fst (kill_routes f lost (Suc k) ?d ?c)) =
            (ps @ [q]) @ skip_erase (\<lambda>r. rt_TARGET_ID r \<in> set lost) qs \<and>
          (root_alike ?d \<longrightarrow> root_alike (fst (kill_routes f lost (Suc k) ?d ?c)))"
          using "1.IH"(1) [OF k refl, of "ps @ [q]" qs] at True t Cons \<open>rs = r # rs'\<close> "1.prems"(2,3) by simp
        then show ?thesis using eq al True Cons \<open>rs = r # rs'\<close> by simp
      qed
    next
      case False
      have eq: "kill_routes f lost k d c = kill_routes f lost (Suc k) d c"
        using k at False by (subst kill_routes.simps) (simp add: Let_def)
      have "siot_m_route_table_planned (fst (kill_routes f lost (Suc k) d c)) =
            (ps @ [r]) @ skip_erase (\<lambda>r. rt_TARGET_ID r \<in> set lost) rs' \<and>
          (root_alike d \<longrightarrow> root_alike (fst (kill_routes f lost (Suc k) d c)))"
        using "1.IH"(2) [OF k refl, of "ps @ [r]" rs'] at False Cons "1.prems" by simp
      then show ?thesis using eq False Cons by (simp add: skip_erase_kept)
    qed
  qed
qed

section \<open>Removing a device\<close>

text \<open>Only the tables and the planned updates change, and no device appears or goes.\<close>

definition tables_change :: "mesh \<Rightarrow> mesh \<Rightarrow> bool" where
  "tables_change s s' \<longleftrightarrow>
     s' = s\<lparr>mesh_routing_data := mesh_routing_data s', planned_updates := planned_updates s'\<rparr> \<and>
     map device_id (mesh_routing_data s') = map device_id (mesh_routing_data s)"

lemma tables_change_refl [simp]: "tables_change s s"
  by (simp add: tables_change_def)

lemma tables_change_trans: "tables_change s s1 \<Longrightarrow> tables_change s1 s2 \<Longrightarrow> tables_change s s2"
  unfolding tables_change_def by (metis (no_types, lifting) mesh.fold_congs(1) mesh.surjective mesh.update_convs(1,3))

lemma tables_change_put:
  "i < length (mesh_routing_data s) \<Longrightarrow> device_id d = device_id (mesh_routing_data s ! i) \<Longrightarrow> tables_change s (put_device s i d)"
  by (auto simp: tables_change_def put_device_def map_update intro!: list_update_same_conv [THEN iffD2])

lemma tables_change_planned:
  "siot_mesh_at_root_add_planned_route_update s u = Some s' \<Longrightarrow> tables_change s s'"
  by (auto simp: siot_mesh_at_root_add_planned_route_update_def tables_change_def Let_def split: option.splits)

lemma cut_device_tables:
  assumes "cut_device f lost i (s, nl) = Some (s', nl')"
  shows "tables_change s s'"
proof -
  obtain d d1 used1 d2 where d: "item (mesh_routing_data s) (nat i) = Some d"
    and k: "kill_routes f lost 0 d (used_links (siot_m_route_table_planned d) (siot_m_link_table_planned d), nl) = (d1, used1, nl')"
    and dl: "drop_links 0 used1 d1 = Some d2"
    and s': "s' = put_device s (nat i) d2 \<or> (\<exists>u. siot_mesh_at_root_add_planned_route_update (put_device s (nat i) d2) u = Some s')"
    using assms unfolding cut_device_def
    by (auto simp: Let_def split: bind_splits prod.splits if_splits) blast
  have i: "nat i < length (mesh_routing_data s)" "mesh_routing_data s ! nat i = d"
    using d by (auto simp: item_def split: if_splits)
  then have "tables_change s (put_device s (nat i) d2)"
    using kill_routes_shorter [OF k] drop_links_routes [OF dl] by (intro tables_change_put) simp_all
  then show ?thesis using s' tables_change_planned tables_change_trans by blast
qed

lemma cut_devices_tables: "cut_devices f lost is (s, nl) = Some (s', nl') \<Longrightarrow> tables_change s s'"
proof (induction "is" arbitrary: s nl)
  case (Cons i "is")
  then obtain s1 nl1 where "cut_device f lost i (s, nl) = Some (s1, nl1)" "cut_devices f lost is (s1, nl1) = Some (s', nl')"
    by (auto split: bind_splits)
  then show ?case using cut_device_tables Cons.IH tables_change_trans by blast
qed simp

lemma cut_loop_tables: "cut_loop f lost is s = Some s' \<Longrightarrow> tables_change s s'"
proof (induction f lost "is" s rule: cut_loop.induct)
  case (1 f lost "is" s)
  obtain nl s1 where r: "cut_round f lost is s = Some (nl, s1)"
    and rec: "(if nl \<noteq> [] then cut_loop f lost nl s1 else Some s1) = Some s'"
    using "1.prems" by (subst (asm) cut_loop.simps) (auto split: option.splits)
  then have "tables_change s s1" using cut_devices_tables by (auto simp: cut_round_def split: bind_splits)
  then show ?case using "1.IH" [OF r refl] rec tables_change_trans by (cases "nl = []") auto
qed

lemma clear_one_tables:
  assumes "tables_change s s1" "device_at s1 i = Some (n, d)" "device_id d1 = device_id d"
  shows "tables_change s (put_device s1 n d1)"
proof -
  have "tables_change s1 (put_device s1 n d1)" using device_at_of [OF assms(2)] assms(3) by (intro tables_change_put) simp_all
  then show ?thesis by (rule tables_change_trans [OF assms(1)])
qed

lemma clear_lost_tables: "clear_lost is s = Some s' \<Longrightarrow> tables_change s s'"
proof (induction "is" arbitrary: s)
  case (Cons i "is")
  obtain s1 n d where s1: "(if i \<noteq> 0 then siot_mesh_at_root_add_planned_route_update s (siot_mesh_at_root_init_route_update_data i i)
       else Some s) = Some s1" and d: "device_at s1 i = Some (n, d)"
    using Cons.prems by (simp split: bind_splits) fast+
  let ?d = "d\<lparr>siot_m_route_table_planned := [], siot_m_link_table_planned := []\<rparr>"
  let ?d1 = "if i = 0 then ?d\<lparr>siot_m_route_table_confirmed := [], siot_m_link_table_confirmed := []\<rparr> else ?d"
  have "tables_change s s1" using s1 tables_change_planned by (auto split: if_splits)
  then have "tables_change s (put_device s1 n ?d1)" by (rule clear_one_tables [OF _ d]) simp
  moreover have "clear_lost is (put_device s1 n ?d1) = Some s'" using Cons.prems s1 d by (simp add: Let_def)
  ultimately show ?case using Cons.IH tables_change_trans by blast
qed simp

lemma remove_link_tables:
  assumes "siot_mesh_at_root_remove_link_to_target s f all = Some (ret, s')"
  shows "tables_change s s'"
  using assms cut_loop_tables clear_lost_tables tables_change_trans
  unfolding siot_mesh_at_root_remove_link_to_target_def
  by (auto simp: Let_def simp del: clear_lost.simps split: bind_splits if_splits prod.splits) blast+

lemma erase_planned_iff: "erase_planned k ps = Some ps' \<longleftrightarrow> (\<forall>p \<in> set ps. ini_device_id p = k) \<and> ps' = []"
  by (induction ps) auto

lemma erase_in_progress_filter: "erase_in_progress k us = filter (\<lambda>u. upd_device_id u \<noteq> k) us"
  by (induction us) simp_all

lemma erase_hops_filter: "erase_hops k ds = filter (\<lambda>d. dlh_device_id d \<noteq> k) ds"
  by (induction ds) simp_all

lemma erase_tasks_filter:
  "erase_tasks k rs = Some rs' \<Longrightarrow> rs' = filter (\<lambda>r. resend_target_id r \<noteq> k \<and> resend_next_hop_id r \<noteq> k) rs"
  by (induction rs arbitrary: rs') (auto split: if_splits bind_splits)

lemma map_drop_item:
  "first_index (\<lambda>d. f d = k) ds = Some i \<Longrightarrow> map f (drop_item i ds) = remove1 k (map f ds)"
proof (induction ds arbitrary: i)
  case (Cons d ds)
  then show ?case by (cases i) (auto simp: drop_item_def split: if_splits)
qed simp

lemma remove_device_result:
  assumes "siot_mesh_at_root_remove_device s k = Some (ret, s')"
  shows "planned_updates s' = [] \<and>
    mesh_routing_data_updates_in_progress s' = filter (\<lambda>u. upd_device_id u \<noteq> k) (mesh_routing_data_updates_in_progress s) \<and>
    pending_resends s' = filter (\<lambda>r. resend_target_id r \<noteq> k \<and> resend_next_hop_id r \<noteq> k) (pending_resends s) \<and>
    last_hops_of_all_devices s' = filter (\<lambda>d. dlh_device_id d \<noteq> k) (last_hops_of_all_devices s) \<and>
    map device_id (mesh_routing_data s') = remove1 k (map device_id (mesh_routing_data s)) \<and>
    (ret = SIOT_MESH_AT_ROOT_RET_OK \<longleftrightarrow> k \<in> device_id ` set (mesh_routing_data s))"
proof -
  obtain r1 s1 where s1: "siot_mesh_at_root_remove_link_to_target s k True = Some (r1, s1)"
    using assms by (cases "siot_mesh_at_root_remove_link_to_target s k True") (auto simp: siot_mesh_at_root_remove_device_def)
  have "erase_planned k (planned_updates s1) \<noteq> None"
    using assms s1 by (cases "erase_planned k (planned_updates s1)") (simp_all add: siot_mesh_at_root_remove_device_def)
  then have p: "erase_planned k (planned_updates s1) = Some []" using erase_planned_iff by fastforce
  obtain tasks where t: "erase_tasks k (pending_resends s1) = Some tasks"
    using assms s1 p by (cases "erase_tasks k (pending_resends s1)") (auto simp: siot_mesh_at_root_remove_device_def)
  note fin = assms [unfolded siot_mesh_at_root_remove_device_def Let_def s1]
  have tc: "tables_change s s1" by (rule remove_link_tables [OF s1])
  then have rest: "mesh_routing_data_updates_in_progress s1 = mesh_routing_data_updates_in_progress s"
    "pending_resends s1 = pending_resends s" "last_hops_of_all_devices s1 = last_hops_of_all_devices s"
    and ids: "map device_id (mesh_routing_data s1) = map device_id (mesh_routing_data s)"
    unfolding tables_change_def by (metis mesh.select_convs mesh.update_convs(1,3) mesh.surjective)+
  have mem: "k \<in> device_id ` set (mesh_routing_data s) \<longleftrightarrow> k \<in> device_id ` set (mesh_routing_data s1)"
    using ids by (metis set_map)
  show ?thesis
  proof (cases "first_index (\<lambda>d. device_id d = k) (mesh_routing_data s1)")
    case None
    then have "k \<notin> set (map device_id (mesh_routing_data s))" using mem by (auto simp: first_index_None)
    then show ?thesis using fin p None t rest ids
      by (auto simp: erase_in_progress_filter erase_hops_filter remove1_idem dest: erase_tasks_filter)
  next
    case (Some i)
    then have "k \<in> device_id ` set (mesh_routing_data s1)" by (auto simp: first_index_Some)
    then show ?thesis using fin p Some t rest ids mem map_drop_item [OF Some]
      by (auto simp: erase_in_progress_filter erase_hops_filter dest: erase_tasks_filter)
  qed
qed

end
