(* ===== verification/Mesh_Search.thy ===== *)
theory Mesh_Search
  imports Mesh_Hops Mesh_Resend Mesh_Packet Mesh_Way
begin

text \<open>
  The search for a device: the "from santa" packet that the root builds in handles it acquires for
  the purpose, and the regular check for retransmitters without a route
  (\<open>commstack_siot_mesh_support.cpp\<close>).
\<close>

section \<open>Model\<close>

text \<open>The bus types of the target, each plus one.\<close>

fun write_bus_types :: "mem \<Rightarrow> nat \<Rightarrow> int list \<Rightarrow> mem option" where
  "write_bus_types m bus_type_h [] = zepto_write_uint8 m bus_type_h 0"
| "write_bus_types m bus_type_h (b # bs) = do {
     m \<leftarrow> zepto_write_uint8 m bus_type_h (u8_of (b + 1));
     write_bus_types m bus_type_h bs
   }"

text \<open>The retransmitters to which the root has a route that is not being changed.\<close>

fun write_known_retransmitters ::
  "mesh \<Rightarrow> mem \<Rightarrow> nat \<Rightarrow> SIOT_MESH_DEVICE_ROUTE_AND_LINK_DATA list \<Rightarrow> mem option" where
  "write_known_retransmitters s m retransmitters_h [] = zepto_parser_encode_and_append_uint16 m retransmitters_h 0"
| "write_known_retransmitters s m retransmitters_h (d # ds) =
     (if is_retransmitter d \<and> fst (siot_mesh_at_root_target_to_link_id s (device_id d)) = SIOT_MESH_RET_OK
      then do {
        m \<leftarrow> zepto_parser_encode_and_append_uint16 m retransmitters_h (0 OR push_bit 1 (device_id d + 1));
        write_known_retransmitters s m retransmitters_h ds
      } else write_known_retransmitters s m retransmitters_h ds)"

text \<open>The payload is the whole request of \<open>mem_h\<close>, where there is one.\<close>

definition append_payload :: "mem \<Rightarrow> nat option \<Rightarrow> nat \<Rightarrow> mem option" where
  "append_payload m mem_h output_h = (case mem_h of
     None \<Rightarrow> Some m
   | Some h \<Rightarrow> do {
       po \<leftarrow> zepto_parser_init m h;
       po1 \<leftarrow> zepto_parser_init m h;
       (n, po) \<leftarrow> zepto_parsing_remaining_bytes m po;
       (_, po1) \<leftarrow> zepto_parse_skip_block m po1 n;
       zepto_append_part_of_request_to_response_of_another_handle m h po po1 output_h
     })"

definition write_checksum :: "mem \<Rightarrow> nat \<Rightarrow> u16 \<Rightarrow> mem option" where
  "write_checksum m h checksum = do {
     m \<leftarrow> zepto_write_uint8 m h (ucast checksum);
     zepto_write_uint8 m h (ucast (drop_bit 8 checksum))
   }"

text \<open>
  The parts that are the same for all buses: prefix, request id, bus types of the target and
  retransmitters, in three handles.
\<close>

definition prepare_search_parts ::
  "mesh_lib \<Rightarrow> mesh \<Rightarrow> mem \<Rightarrow> u16 \<Rightarrow> (nat \<times> nat \<times> nat \<times> u16 \<times> mesh \<times> mem) option" where
  "prepare_search_parts L s m target_id = do {
     (prefix_h, m) \<leftarrow> acquire_valid_handle m;
     (retransmitters_h, m) \<leftarrow> acquire_valid_handle m;
     m \<leftarrow> zepto_parser_encode_and_append_uint16 m prefix_h (1 OR push_bit 1 (SIOT_MESH_FROM_SANTA_DATA_PACKET L) OR push_bit 5 4);
     m \<leftarrow> zepto_parser_encode_and_append_uint16 m prefix_h 0;
     let (rq_id, s) = get_next_from_santa_request_id s;
     (bus_type_h, m) \<leftarrow> acquire_valid_handle m;
     let (ret_code, i) = siot_mesh_at_root_get_device_data s target_id;
     assert (ret_code = SIOT_MESH_AT_ROOT_RET_OK);
     it_target \<leftarrow> item (mesh_routing_data s) i;
     m \<leftarrow> write_bus_types m bus_type_h (bus_type_list it_target);
     m \<leftarrow> write_known_retransmitters s m retransmitters_h (mesh_routing_data s);
     Some (prefix_h, retransmitters_h, bus_type_h, rq_id, s, m)
   }"

text \<open>The packet itself, put together in \<open>output_h\<close>.\<close>

definition write_search_header ::
  "mem \<Rightarrow> u16 \<Rightarrow> u16 \<Rightarrow> nat \<Rightarrow> nat \<Rightarrow> nat \<Rightarrow> nat \<Rightarrow> mem option" where
  "write_search_header m target_id rq_id prefix_h retransmitters_h bus_type_h output_h = do {
     m \<leftarrow> zepto_parser_free_memory m output_h;
     m \<leftarrow> zepto_copy_response_to_response_of_another_handle m prefix_h output_h;
     m \<leftarrow> zepto_parser_encode_and_append_uint16 m output_h 0;
     m \<leftarrow> zepto_parser_encode_and_append_uint16 m output_h rq_id;
     m \<leftarrow> zepto_append_response_to_response_of_another_handle m retransmitters_h output_h;
     m \<leftarrow> zepto_append_response_to_response_of_another_handle m bus_type_h output_h;
     m \<leftarrow> zepto_parser_encode_and_append_uint16 m output_h (0 OR push_bit 1 target_id);
     zepto_parser_encode_and_append_uint16 m output_h 0
   }"

definition close_search_packet :: "mesh_lib \<Rightarrow> mem \<Rightarrow> nat option \<Rightarrow> nat \<Rightarrow> mem option" where
  "close_search_packet L m mem_h output_h = do {
     rsp_sz \<leftarrow> memory_object_get_response_size m output_h;
     let checksum = zepto_parser_calculate_checksum_of_part_of_response L m output_h 0 rsp_sz 0;
     m \<leftarrow> write_checksum m output_h checksum;
     m \<leftarrow> append_payload m mem_h output_h;
     sz \<leftarrow> memory_object_get_response_size m output_h;
     let checksum = zepto_parser_calculate_checksum_of_part_of_response L m output_h (rsp_sz + 2) (sz - (rsp_sz + 2)) checksum;
     m \<leftarrow> write_checksum m output_h checksum;
     zepto_response_to_request m output_h
   }"

definition siot_mesh_form_packets_from_santa_and_add_to_task_list ::
  "mesh_lib \<Rightarrow> sa_time_val \<Rightarrow> u16 \<Rightarrow> mesh \<Rightarrow> mem \<Rightarrow> sa_time_val \<Rightarrow> nat option \<Rightarrow> u16 \<Rightarrow>
   (sa_time_val \<times> mesh \<times> mem) option" where
  "siot_mesh_form_packets_from_santa_and_add_to_task_list L blank blank_hop s m currt mem_h target_id = do {
     assert (target_id \<noteq> 0 \<and> target_id \<noteq> SIOT_MESH_TARGET_UNDEFINED L);
     (prefix_h, retransmitters_h, bus_type_h, rq_id, s, m) \<leftarrow> prepare_search_parts L s m target_id;
     (output_h, m) \<leftarrow> acquire_valid_handle m;
     m \<leftarrow> write_search_header m target_id rq_id prefix_h retransmitters_h bus_type_h output_h;
     m \<leftarrow> close_search_packet L m mem_h output_h;
     s \<leftarrow> siot_mesh_at_root_add_send_from_santa_task L blank blank_hop s m output_h currt 0;
     m \<leftarrow> release_memory_handle m output_h;
     m \<leftarrow> release_memory_handle m bus_type_h;
     m \<leftarrow> release_memory_handle m retransmitters_h;
     m \<leftarrow> release_memory_handle m prefix_h;
     Some (zero_milliseconds_tval L, s, m)
   }"

text \<open>
  The loop over the devices by index; the code reads the device again for each step, and the packet is
  built with the device already marked.
\<close>

fun search_retransmitters ::
  "mesh_lib \<Rightarrow> sa_time_val \<Rightarrow> u16 \<Rightarrow> sa_time_val \<Rightarrow> nat list \<Rightarrow> sa_time_val \<times> mesh \<times> mem \<Rightarrow> (sa_time_val \<times> mesh \<times> mem) option" where
  "search_retransmitters L blank blank_hop currt [] c = Some c"
| "search_retransmitters L blank blank_hop currt (i # is) (t, s, m) = do {
     d \<leftarrow> item (mesh_routing_data s) i;
     if \<not> is_retransmitter d then search_retransmitters L blank blank_hop currt is (t, s, m)
     else if fst (siot_mesh_at_root_target_to_link_id s (device_id d)) \<noteq> SIOT_MESH_RET_ERROR_NOT_FOUND then
       search_retransmitters L blank blank_hop currt is
         (t, s\<lparr>mesh_routing_data := (mesh_routing_data s)[i := d\<lparr>from_santa_sequence_started := False\<rparr>]\<rparr>, m)
     else if from_santa_sequence_started d \<and> sa_hal_time_val_is_less currt (time_to_sent_next_from_santa d) then
       search_retransmitters L blank blank_hop currt is (t, s, m)
     else do {
       let d = d\<lparr>from_santa_sequence_started := True,
         time_to_sent_next_from_santa := time_after (time_to_sent_next_from_santa d) currt
           (MESH_CHECK_ROUTS_TO_RETRANSMITTERS_tval L)\<rparr>;
       (t, s, m) \<leftarrow> siot_mesh_form_packets_from_santa_and_add_to_task_list L blank blank_hop
         (s\<lparr>mesh_routing_data := (mesh_routing_data s)[i := d]\<rparr>) m currt None (device_id d);
       search_retransmitters L blank blank_hop currt is (t, s, m)
     }
   }"

definition siot_mesh_at_root_check_routes_to_retransmitters ::
  "mesh_lib \<Rightarrow> sa_time_val \<Rightarrow> u16 \<Rightarrow> mesh \<Rightarrow> mem \<Rightarrow> sa_time_val \<Rightarrow> sa_time_val \<Rightarrow> (sa_time_val \<times> mesh \<times> mem) option" where
  "siot_mesh_at_root_check_routes_to_retransmitters L blank blank_hop s m currt time_to_next_event = do {
     (t, s, m) \<leftarrow> (if sa_hal_time_val_is_less_eq L (next_check_time s) currt then do {
         let (ret_code, _) = siot_mesh_at_root_get_device_data s 0;
         assert (ret_code = SIOT_MESH_AT_ROOT_RET_OK);
         (t, s, m) \<leftarrow> search_retransmitters L blank blank_hop currt [0..<length (mesh_routing_data s)] (time_to_next_event, s, m);
         Some (t, s\<lparr>next_check_time := time_after (next_check_time s) currt (MESH_CHECK_ROUTS_TO_RETRANSMITTERS_tval L)\<rparr>, m)
       } else Some (time_to_next_event, s, m));
     Some (snd (sa_hal_time_val_get_remaining_time L currt (next_check_time s) t), s, m)
   }"

section \<open>The payload\<close>

definition payload :: "messages \<Rightarrow> nat option \<Rightarrow> u8 list" where
  "payload M mem_h = (case mem_h of None \<Rightarrow> [] | Some h \<Rightarrow> fst (the (M h)))"

lemma room_payload:
  assumes "has_room m M n k" "M t = Some (trq, trsp)" "\<forall>h. mem_h = Some h \<longrightarrow> h \<noteq> t \<and> M h \<noteq> None"
    "int (length (payload M mem_h)) \<le> n"
  obtains m' where "append_payload m mem_h t = Some m'"
    "has_room m' (M(t \<mapsto> (trq, trsp @ payload M mem_h))) (n - int (length (payload M mem_h))) k"
proof (cases mem_h)
  case None
  have "M(t \<mapsto> (trq, trsp)) = M" using assms(2) by auto
  then show thesis using that [of m] assms(1) None by (simp add: append_payload_def payload_def)
next
  case (Some h)
  then obtain rq rsp where s: "M h = Some (rq, rsp)" "h \<noteq> t" using assms(3) by fastforce
  from parser_at [OF assms(1) s(1)] obtain po po1 where p: "zepto_parser_init m h = Some po"
    "zepto_parsing_remaining_bytes m po = Some (int (length rq), po)"
    "zepto_parse_skip_block m po (int (length rq)) = Some (True, po1)"
    "mem_handle po = Some h" "offset po = 0" "mem_handle po1 = Some h" "offset po1 = int (length rq)" "res_valid po" "res_valid po1" .
  note c = has_room_content [OF assms(1,2)] and v = has_room_content [OF assms(1) s(1)]
  have n: "n \<le> free_space m" using assms(1) by (simp add: has_room_def)
  have len: "int (length rq) \<le> n" using assms(4) Some s by (simp add: payload_def)
  obtain m' where m': "zepto_append_part_of_request_to_response_of_another_handle m h po po1 t = Some m'"
      "grown m t (trq, trsp @ rq) m'"
    using append_part_of_request_to_another [OF c(1,2) v(2) s(2), of 0 "int (length rq)" po po1] p n len by auto
  have "has_room m' (M(t \<mapsto> (trq, trsp @ rq))) (n - int (length rq)) k"
    by (rule has_room_grown [OF assms(1) m'(2)]) (use assms(2) len n grown_free_space [OF m'(2) c(1,2)] in simp_all)
  then show thesis using that [of m'] m'(1) p Some s by (simp add: append_payload_def payload_def)
qed

section \<open>The search packet\<close>

definition packed_u16 :: "u16 \<Rightarrow> u8 list" where
  "packed_u16 v = packed_nat (unat v)"

definition checksum_bytes :: "u16 \<Rightarrow> u8 list" where
  "checksum_bytes c = [ucast c, ucast (drop_bit 8 c)]"

definition known_retransmitters :: "mesh \<Rightarrow> u16 list" where
  "known_retransmitters s = map device_id (filter (\<lambda>d. is_retransmitter d \<and>
     fst (siot_mesh_at_root_target_to_link_id s (device_id d)) = SIOT_MESH_RET_OK) (mesh_routing_data s))"

definition retransmitter_bytes :: "mesh \<Rightarrow> u8 list" where
  "retransmitter_bytes s = concat (map (\<lambda>k. packed_u16 (push_bit 1 (k + 1))) (known_retransmitters s)) @ packed_u16 0"

definition bus_type_bytes :: "int list \<Rightarrow> u8 list" where
  "bus_type_bytes bs = map (\<lambda>b. u8_of (b + 1)) bs @ [0]"

definition search_prefix :: "mesh_lib \<Rightarrow> u8 list" where
  "search_prefix L = packed_u16 (1 OR push_bit 1 (SIOT_MESH_FROM_SANTA_DATA_PACKET L) OR push_bit 5 4) @ packed_u16 0"

text \<open>The header of the packet, and the packet with its two checksums; the second continues the first.\<close>

definition search_header :: "mesh_lib \<Rightarrow> mesh \<Rightarrow> int list \<Rightarrow> u16 \<Rightarrow> u16 \<Rightarrow> u8 list" where
  "search_header L s bs rq_id target_id =
     search_prefix L @ packed_u16 0 @ packed_u16 rq_id @ retransmitter_bytes s @ bus_type_bytes bs @
     packed_u16 (push_bit 1 target_id) @ packed_u16 0"

definition search_packet :: "(u8 list \<Rightarrow> u16 \<Rightarrow> u16) \<Rightarrow> u8 list \<Rightarrow> u8 list \<Rightarrow> u8 list" where
  "search_packet F header pl =
     (let c = F header 0 in header @ checksum_bytes c @ pl @ checksum_bytes (F pl c))"

text \<open>The checksum function of the library is one of the bytes it is pointed to.\<close>

definition part_checksum :: "mesh_lib \<Rightarrow> (u8 list \<Rightarrow> u16 \<Rightarrow> u16) \<Rightarrow> bool" where
  "part_checksum L F \<longleftrightarrow> (\<forall>m h rq a b c ini. heap_inv m \<longrightarrow> content m h = Some (rq, a @ b @ c) \<longrightarrow>
     zepto_parser_calculate_checksum_of_part_of_response L m h (int (length a)) (int (length b)) ini = F b ini)"

lemma write_bus_types_blocks:
  "as_blocks h (\<lambda>m. write_bus_types m h bs) (map (\<lambda>b. [b]) (bus_type_bytes bs))"
proof (induction bs)
  case Nil
  then show ?case using as_blocks_write(3) [of h 0] by (simp add: bus_type_bytes_def)
next
  case (Cons b bs)
  from as_blocks_seq(2) [OF this, of "u8_of (b + 1)"] show ?case by (simp add: bus_type_bytes_def)
qed

lemma write_known_retransmitters_blocks:
  "as_blocks h (\<lambda>m. write_known_retransmitters s m h ds)
     (map packed_u16 (map (\<lambda>d. push_bit 1 (device_id d + 1)) (filter (\<lambda>d. is_retransmitter d \<and>
       fst (siot_mesh_at_root_target_to_link_id s (device_id d)) = SIOT_MESH_RET_OK) ds) @ [0]))"
proof (induction ds)
  case Nil
  then show ?case using as_blocks_write(1) [of h 0] by (simp add: packed_u16_def)
next
  case (Cons d ds)
  show ?case
  proof (cases "is_retransmitter d \<and> fst (siot_mesh_at_root_target_to_link_id s (device_id d)) = SIOT_MESH_RET_OK")
    case True
    then show ?thesis using as_blocks_seq(1) [OF Cons, of "push_bit 1 (device_id d + 1)"] by (simp add: packed_u16_def)
  next
    case False
    then show ?thesis using Cons by (simp only: write_known_retransmitters.simps filter.simps if_False)
  qed
qed

lemma singletons [simp]: "concat (map (\<lambda>b. [b]) bs) = bs"
  by (induction bs) simp_all

lemma room_u16:
  assumes "has_room m M n k" "M h = Some (rq, rsp)" "int (length (packed_u16 v)) \<le> n"
  obtains m' where "zepto_parser_encode_and_append_uint16 m h v = Some m'"
    "has_room m' (M(h \<mapsto> (rq, rsp @ packed_u16 v))) (n - int (length (packed_u16 v))) k"
  using room_write [OF assms(1,2) as_blocks_write(1) [of h v]] assms(3) by (auto simp: packed_u16_def)

lemma room_checksum:
  assumes "has_room m M n k" "M h = Some (rq, rsp)" "2 \<le> n"
  obtains m' where "write_checksum m h c = Some m'" "has_room m' (M(h \<mapsto> (rq, rsp @ checksum_bytes c))) (n - 2) k"
proof -
  have "as_blocks h (\<lambda>m. write_checksum m h c) [[ucast c], [ucast (drop_bit 8 c)]]"
    unfolding write_checksum_def using as_blocks_seq(2) [OF as_blocks_write(3)] by simp
  from room_write [OF assms(1,2) this] assms(3) that show thesis by (auto simp: checksum_bytes_def)
qed

lemma room_parts:
  assumes "has_room m M n k" "M h = Some (rq, a @ b @ c)" "part_checksum L F"
  shows "zepto_parser_calculate_checksum_of_part_of_response L m h (int (length a)) (int (length b)) ini = F b ini"
  using has_room_content [OF assms(1,2)] assms(3) unfolding part_checksum_def by blast

lemma room_sizes:
  assumes "has_room m M n k" "M h = Some (rq, rsp)"
  shows "memory_object_get_response_size m h = Some (int (length rsp))"
    "memory_object_get_request_size m h = Some (int (length rq))"
  using sizes_of_view has_room_content(1,2) [OF assms] by auto

text \<open>The output handle: from the parts to the packet.\<close>

definition new_search_task :: "mesh_lib \<Rightarrow> sa_time_val \<Rightarrow> u16 \<Rightarrow> sa_time_val \<Rightarrow> u8 list \<Rightarrow> MESH_PENDING_RESENDS" where
  "new_search_task L blank blank_hop currt bytes =
     \<lparr>resend_type = MESH_PENDING_RESEND_FROM_SANTA, packet_data = bytes, resend_cnt = 1,
       next_resend_time = sa_hal_time_val_copy_from blank currt, resend_checksum = 0,
       resend_target_id = SIOT_MESH_TARGET_UNDEFINED L, resend_bus_id = 0, resend_next_hop_id = blank_hop\<rparr>"

lemma add_search_task:
  assumes "has_room m M n k" "M h = Some (rq, [])" "rq \<noteq> []"
  shows "siot_mesh_at_root_add_send_from_santa_task L blank blank_hop s m h currt 0 =
    Some (s\<lparr>pending_resends := pending_resends s @ [new_search_task L blank blank_hop currt rq]\<rparr>)"
proof -
  from parser_at [OF assms(1,2)] obtain po po1 where "zepto_parser_init m h = Some po"
    "zepto_parse_read_block m po (int (length rq)) = Some (Some rq, po1)" .
  then show ?thesis using room_sizes(2) [OF assms(1,2)] assms(3)
    by (simp add: siot_mesh_at_root_add_send_from_santa_task_def new_search_task_def Let_def)
qed

text \<open>The steps: the parts, the header, the rest of the packet.\<close>

definition parts_held :: "messages \<Rightarrow> nat \<Rightarrow> nat \<Rightarrow> nat \<Rightarrow> u8 list \<Rightarrow> u8 list \<Rightarrow> u8 list \<Rightarrow> messages" where
  "parts_held M p r b P R B = M(p \<mapsto> ([], P), r \<mapsto> ([], R), b \<mapsto> ([], B))"

lemma search_parts_ready:
  assumes room: "has_room m M n k" and k: "M k \<noteq> None" and target: "device_at s target_id = Some (i, d)"
    and n: "51 + int (length (search_prefix L)) + int (length (retransmitter_bytes s)) +
      int (length (bus_type_bytes (bus_type_list d))) \<le> n"
  obtains p r b m' where
    "prepare_search_parts L s m target_id = Some (p, r, b, from_santa_request_id s + 1,
      s\<lparr>from_santa_request_id := from_santa_request_id s + 1\<rparr>, m')"
    "distinct [p, r, b]" "M p = None" "M r = None" "M b = None" "k \<le> p" "k \<le> r" "k \<le> b"
    "has_room m' (parts_held M p r b (search_prefix L) (retransmitter_bytes s) (bus_type_bytes (bus_type_list d)))
      (n - 51 - int (length (search_prefix L)) - int (length (retransmitter_bytes s)) -
        int (length (bus_type_bytes (bus_type_list d)))) k"
proof -
  let ?s = "s\<lparr>from_santa_request_id := from_santa_request_id s + 1\<rparr>"
  let ?v = "1 OR push_bit 1 (SIOT_MESH_FROM_SANTA_DATA_PACKET L) OR push_bit 5 4"
  let ?p1 = "packed_u16 ?v"
  let ?P = "search_prefix L" and ?R = "retransmitter_bytes s" and ?B = "bus_type_bytes (bus_type_list d)"
  have lenP: "int (length ?P) = int (length ?p1) + int (length (packed_u16 0))" by (simp add: search_prefix_def)
  note lens = lenP n
  obtain p m1 where m1: "acquire_valid_handle m = Some (p, m1)" "M p = None" "k \<le> p" "has_room m1 (M(p \<mapsto> ([], []))) (n - 17) k"
    by (rule room_acquire [OF room k]) (use lens in auto)
  let ?M1 = "M(p \<mapsto> ([], []))"
  obtain r m2 where m2: "acquire_valid_handle m1 = Some (r, m2)" "?M1 r = None" "k \<le> r" "has_room m2 (?M1(r \<mapsto> ([], []))) (n - 17 - 17) k"
    by (rule room_acquire [OF m1(4)]) (use k lens in auto)
  have rp: "r \<noteq> p" "M r = None" using m2(2) by (auto split: if_splits)
  let ?M2 = "?M1(r \<mapsto> ([], []))"
  have p2: "?M2 p = Some ([], [])" using rp by simp
  have len1: "int (length ?p1) \<le> n - 17 - 17" "int (length (packed_u16 0)) \<le> n - 17 - 17 - int (length ?p1)"
    using lens by linarith+
  obtain m3 where m3: "zepto_parser_encode_and_append_uint16 m2 p ?v = Some m3"
    "has_room m3 (?M2(p \<mapsto> ([], [] @ ?p1))) (n - 17 - 17 - int (length ?p1)) k"
    by (rule room_u16 [OF m2(4) p2 len1(1)])
  let ?M3 = "?M2(p \<mapsto> ([], [] @ ?p1))"
  obtain m4 where m4: "zepto_parser_encode_and_append_uint16 m3 p 0 = Some m4"
    "has_room m4 (?M3(p \<mapsto> ([], ([] @ ?p1) @ packed_u16 0))) (n - 17 - 17 - int (length ?p1) - int (length (packed_u16 0))) k"
    by (rule room_u16 [OF m3(2) fun_upd_same len1(2)])
  let ?M4 = "M(p \<mapsto> ([], ?P), r \<mapsto> ([], []))"
  have "?M3(p \<mapsto> ([], ([] @ ?p1) @ packed_u16 0)) = ?M4" using rp by (auto simp: search_prefix_def)
  then have r4: "has_room m4 ?M4 (n - 34 - int (length ?P)) k" using m4(2) lenP by (simp add: algebra_simps)
  obtain b m5 where m5: "acquire_valid_handle m4 = Some (b, m5)" "?M4 b = None" "k \<le> b"
    "has_room m5 (?M4(b \<mapsto> ([], []))) (n - 34 - int (length ?P) - 17) k"
    by (rule room_acquire [OF r4]) (use k lens rp in auto)
  have bp: "b \<noteq> p" "b \<noteq> r" "M b = None" using m5(2) by (auto split: if_splits)
  let ?M5 = "?M4(b \<mapsto> ([], []))"
  obtain m6 where m6: "write_bus_types m5 b (bus_type_list d) = Some m6"
      "has_room m6 (?M5(b \<mapsto> ([], [] @ ?B))) (n - 34 - int (length ?P) - 17 - int (length ?B)) k"
    by (rule room_write [OF m5(4) fun_upd_same write_bus_types_blocks [of b "bus_type_list d"], unfolded singletons]) (use lens in simp)
  let ?M6 = "?M5(b \<mapsto> ([], [] @ ?B))"
  have rv: "?M6 r = Some ([], [])" using bp rp by simp
  have known: "fst (siot_mesh_at_root_target_to_link_id ?s x) = fst (siot_mesh_at_root_target_to_link_id s x)" for x
    by (simp add: siot_mesh_at_root_target_to_link_id_def siot_mesh_at_root_is_route_under_update_def split: option.split)
  have rb: "concat (map packed_u16 (map (\<lambda>d. push_bit 1 (device_id d + 1)) (filter (\<lambda>d. is_retransmitter d \<and>
       fst (siot_mesh_at_root_target_to_link_id ?s (device_id d)) = SIOT_MESH_RET_OK) (mesh_routing_data s)) @ [0])) = ?R"
    by (simp add: retransmitter_bytes_def known_retransmitters_def comp_def known)
  obtain m7 where m7: "write_known_retransmitters ?s m6 r (mesh_routing_data s) = Some m7"
      "has_room m7 (?M6(r \<mapsto> ([], [] @ ?R))) (n - 34 - int (length ?P) - 17 - int (length ?B) - int (length ?R)) k"
    by (rule room_write [OF m6(2) rv write_known_retransmitters_blocks [of r ?s "mesh_routing_data s"], unfolded rb]) (use lens in simp)
  have "?M6(r \<mapsto> ([], [] @ ?R)) = parts_held M p r b ?P ?R ?B" using rp bp by (auto simp: parts_held_def)
  then have r7: "has_room m7 (parts_held M p r b ?P ?R ?B) (n - 51 - int (length ?P) - int (length ?R) - int (length ?B)) k"
    using m7(2) by (simp add: algebra_simps)
  have dev: "siot_mesh_at_root_get_device_data ?s target_id = (SIOT_MESH_AT_ROOT_RET_OK, i)"
      "item (mesh_routing_data ?s) i = Some d"
    using target by (auto simp: device_at_def siot_mesh_at_root_get_device_data_def item_def split: option.splits if_splits)
  have "prepare_search_parts L s m target_id = Some (p, r, b, from_santa_request_id s + 1, ?s, m7)"
    using m1(1) m2(1) m3(1) m4(1) m5(1) dev m6(1) m7(1)
    by (simp add: prepare_search_parts_def get_next_from_santa_request_id_def Let_def)
  then show thesis by (rule that) (use rp bp m1 m2 m5 r7 in auto)
qed

lemma search_header_written:
  assumes room: "has_room m M n k" and out: "M out = Some ([], [])"
    and parts: "M p = Some ([], P)" "M r = Some ([], R)" "M b = Some ([], B)" "p \<noteq> out" "r \<noteq> out" "b \<noteq> out"
    and H: "H = P @ packed_u16 0 @ packed_u16 rq_id @ R @ B @ packed_u16 (push_bit 1 target_id) @ packed_u16 0"
    and n: "int (length H) \<le> n"
  obtains m' where "write_search_header m target_id rq_id p r b out = Some m'"
    "has_room m' (M(out \<mapsto> ([], H))) (n - int (length H)) k"
proof -
  let ?O = "\<lambda>bs. M(out \<mapsto> ([], bs))"
  have O: "(?O x)(out \<mapsto> ([], y)) = ?O y" "?O x out = Some ([], x)" "?O x p = Some ([], P)" "?O x r = Some ([], R)"
    "?O x b = Some ([], B)" for x y using parts by simp_all
  have lens: "int (length P) + int (length (packed_u16 0)) + int (length (packed_u16 rq_id)) + int (length R) +
      int (length B) + int (length (packed_u16 (push_bit 1 target_id))) + int (length (packed_u16 0)) \<le> n"
    using n by (simp add: H)
  obtain m9 where m9: "zepto_parser_free_memory m out = Some m9" "has_room m9 (?O []) n k"
    by (rule room_free [OF room out]) (simp only: O(1))
  obtain m10 where m10: "zepto_copy_response_to_response_of_another_handle m9 p out = Some m10"
    "has_room m10 (?O P) (n - int (length P)) k"
    by (rule room_copy_response [OF m9(2) O(2,3), unfolded O(1)]) (use parts lens in simp_all)
  obtain m11 where m11: "zepto_parser_encode_and_append_uint16 m10 out 0 = Some m11"
    "has_room m11 (?O (P @ packed_u16 0)) (n - int (length P) - int (length (packed_u16 0))) k"
    by (rule room_u16 [OF m10(2) O(2), of 0, unfolded O(1)]) (use lens in simp_all)
  obtain m12 where m12: "zepto_parser_encode_and_append_uint16 m11 out rq_id = Some m12"
    "has_room m12 (?O ((P @ packed_u16 0) @ packed_u16 rq_id)) (n - int (length P) - int (length (packed_u16 0)) - int (length (packed_u16 rq_id))) k"
    by (rule room_u16 [OF m11(2) O(2), of rq_id, unfolded O(1)]) (use lens in simp_all)
  obtain m13 where m13: "zepto_append_response_to_response_of_another_handle m12 r out = Some m13"
    "has_room m13 (?O (((P @ packed_u16 0) @ packed_u16 rq_id) @ R))
      (n - int (length P) - int (length (packed_u16 0)) - int (length (packed_u16 rq_id)) - int (length R)) k"
    by (rule room_append_response [OF m12(2) O(2,4), unfolded O(1)]) (use parts lens in simp_all)
  obtain m14 where m14: "zepto_append_response_to_response_of_another_handle m13 b out = Some m14"
    "has_room m14 (?O ((((P @ packed_u16 0) @ packed_u16 rq_id) @ R) @ B))
      (n - int (length P) - int (length (packed_u16 0)) - int (length (packed_u16 rq_id)) - int (length R) - int (length B)) k"
    by (rule room_append_response [OF m13(2) O(2,5), unfolded O(1)]) (use parts lens in simp_all)
  obtain m15 where m15: "zepto_parser_encode_and_append_uint16 m14 out (push_bit 1 target_id) = Some m15"
    "has_room m15 (?O (((((P @ packed_u16 0) @ packed_u16 rq_id) @ R) @ B) @ packed_u16 (push_bit 1 target_id)))
      (n - int (length P) - int (length (packed_u16 0)) - int (length (packed_u16 rq_id)) - int (length R) - int (length B)
        - int (length (packed_u16 (push_bit 1 target_id)))) k"
    by (rule room_u16 [OF m14(2) O(2), of "push_bit 1 target_id", unfolded O(1)]) (use lens in simp_all)
  obtain m16 where m16: "zepto_parser_encode_and_append_uint16 m15 out 0 = Some m16" "has_room m16 (?O H) (n - int (length H)) k"
    by (rule room_u16 [OF m15(2) O(2), of 0, unfolded O(1)]) (use lens in \<open>simp_all add: H algebra_simps\<close>)
  show thesis
    by (rule that [OF _ m16(2)])
      (simp add: write_search_header_def m9(1) m10(1) m11(1) m12(1) m13(1) m14(1) m15(1) [simplified] m16(1) del: push_bit_of_1)
qed

lemma search_packet_closed:
  assumes room: "has_room m M n k" and out: "M out = Some ([], H)" and F: "part_checksum L F"
    and pl: "\<forall>h. mem_h = Some h \<longrightarrow> h \<noteq> out \<and> M h \<noteq> None"
    and n: "4 + int (length (payload M mem_h)) \<le> n"
  obtains m' where "close_search_packet L m mem_h out = Some m'"
    "has_room m' (M(out \<mapsto> (search_packet F H (payload M mem_h), []))) 0 k"
proof -
  let ?pl = "payload M mem_h" and ?c = "F H 0"
  let ?O = "\<lambda>bs. M(out \<mapsto> ([], bs))"
  have O: "(?O x)(out \<mapsto> ([], y)) = ?O y" "?O x out = Some ([], x)" for x y by simp_all
  have c1: "zepto_parser_calculate_checksum_of_part_of_response L m out 0 (int (length H)) 0 = ?c"
    using room_parts [OF room _ F, of out "[]" "[]" H "[]" 0] out by simp
  obtain m17 where m17: "write_checksum m out ?c = Some m17" "has_room m17 (?O (H @ checksum_bytes ?c)) (n - 2) k"
    by (rule room_checksum [OF room out, of ?c]) (use n in simp_all)
  have pl': "payload (?O x) mem_h = ?pl" "\<forall>h. mem_h = Some h \<longrightarrow> h \<noteq> out \<and> ?O x h \<noteq> None" for x
    using pl by (auto simp: payload_def split: option.splits)
  obtain m18 where m18: "append_payload m17 mem_h out = Some m18"
    "has_room m18 (?O ((H @ checksum_bytes ?c) @ ?pl)) (n - 2 - int (length ?pl)) k"
    by (rule room_payload [OF m17(2) O(2) pl'(2), unfolded pl'(1) O(1)]) (use n in simp_all)
  have sz: "memory_object_get_response_size m18 out = Some (int (length ((H @ checksum_bytes ?c) @ ?pl)))"
    by (rule room_sizes(1) [OF m18(2) O(2)])
  have c2: "zepto_parser_calculate_checksum_of_part_of_response L m18 out (int (length H) + 2) (int (length ?pl)) ?c = F ?pl ?c"
    using room_parts [OF m18(2) _ F, of out "[]" "H @ checksum_bytes ?c" ?pl "[]" ?c] O(2) by (simp add: checksum_bytes_def add.commute)
  obtain m19 where m19: "write_checksum m18 out (F ?pl ?c) = Some m19" "has_room m19 (?O (search_packet F H ?pl)) (n - 2 - int (length ?pl) - 2) k"
    by (rule room_checksum [OF m18(2) O(2), of "F ?pl ?c", unfolded O(1)]) (use n in \<open>simp_all add: search_packet_def Let_def\<close>)
  obtain m20 where m20: "zepto_response_to_request m19 out = Some m20"
      "has_room m20 (M(out \<mapsto> (search_packet F H ?pl, []))) (n - 2 - int (length ?pl) - 2) k"
    by (rule room_hand_over [OF m19(2) O(2), unfolded fun_upd_upd])
  have "close_search_packet L m mem_h out = Some m20"
    using room_sizes(1) [OF room out] c1 m17(1) m18(1) sz c2 m19(1) m20(1)
    by (simp add: close_search_packet_def checksum_bytes_def Let_def)
  moreover have "has_room m20 (M(out \<mapsto> (search_packet F H ?pl, []))) 0 k"
    using m20(2) n by (auto simp: has_room_def)
  ultimately show thesis by (rule that)
qed

lemma parts_released:
  assumes "has_room m (M(p \<mapsto> a, r \<mapsto> c, b \<mapsto> e, out \<mapsto> f)) n k" "distinct [p, r, b, out]"
    "k \<le> p" "k \<le> r" "k \<le> b" "k \<le> out" "M p = None" "M r = None" "M b = None" "M out = None"
  obtains m1 m2 m3 m4 where "release_memory_handle m out = Some m1" "release_memory_handle m1 b = Some m2"
    "release_memory_handle m2 r = Some m3" "release_memory_handle m3 p = Some m4" "has_room m4 M 0 k"
proof -
  let ?M = "M(p \<mapsto> a, r \<mapsto> c, b \<mapsto> e, out \<mapsto> f)"
  obtain m1 where m1: "release_memory_handle m out = Some m1" "has_room m1 (?M(out := None)) 0 k"
    by (rule room_release [OF assms(1), of out]) (use assms(2-) in simp_all)
  obtain m2 where m2: "release_memory_handle m1 b = Some m2" "has_room m2 (?M(out := None, b := None)) 0 k"
    by (rule room_release [OF m1(2), of b]) (use assms(2-) in simp_all)
  obtain m3 where m3: "release_memory_handle m2 r = Some m3" "has_room m3 (?M(out := None, b := None, r := None)) 0 k"
    by (rule room_release [OF m2(2), of r]) (use assms(2-) in simp_all)
  obtain m4 where m4: "release_memory_handle m3 p = Some m4" "has_room m4 (?M(out := None, b := None, r := None, p := None)) 0 k"
    by (rule room_release [OF m3(2), of p]) (use assms(2-) in simp_all)
  have "?M(out := None, b := None, r := None, p := None) = M" using assms(7-10) by auto
  then show thesis using that m1(1) m2(1) m3(1) m4 by simp
qed

lemma search_packet_built:
  assumes room: "has_room m M n k" and k: "M k \<noteq> None"
    and target: "target_id \<noteq> 0" "target_id \<noteq> SIOT_MESH_TARGET_UNDEFINED L"
      "device_at s target_id = Some (i, d)"
    and pl: "\<forall>h. mem_h = Some h \<longrightarrow> M h \<noteq> None"
    and F: "part_checksum L F"
    and H: "H = search_header L s (bus_type_list d) (from_santa_request_id s + 1) target_id"
    and n: "72 + int (length (search_prefix L)) + int (length (retransmitter_bytes s)) +
      int (length (bus_type_bytes (bus_type_list d))) + int (length H) + int (length (payload M mem_h)) \<le> n"
  shows "\<exists>m'. siot_mesh_form_packets_from_santa_and_add_to_task_list L blank blank_hop s m currt mem_h target_id =
      Some (zero_milliseconds_tval L, s\<lparr>from_santa_request_id := from_santa_request_id s + 1,
        pending_resends := pending_resends s @ [new_search_task L blank blank_hop currt (search_packet F H (payload M mem_h))]\<rparr>, m') \<and>
    has_room m' M 0 k"
proof -
  let ?s = "s\<lparr>from_santa_request_id := from_santa_request_id s + 1\<rparr>"
  let ?P = "search_prefix L" and ?R = "retransmitter_bytes s" and ?B = "bus_type_bytes (bus_type_list d)"
  let ?n = "n - 51 - int (length ?P) - int (length ?R) - int (length ?B)"
  obtain p r b m1 where m1: "prepare_search_parts L s m target_id = Some (p, r, b, from_santa_request_id s + 1, ?s, m1)"
    and d: "distinct [p, r, b]" "M p = None" "M r = None" "M b = None" "k \<le> p" "k \<le> r" "k \<le> b"
    and r1: "has_room m1 (parts_held M p r b ?P ?R ?B) ?n k"
    by (rule search_parts_ready [OF room k target(3), where L = L]) (use n in auto)
  obtain out m2 where m2: "acquire_valid_handle m1 = Some (out, m2)" "parts_held M p r b ?P ?R ?B out = None" "k \<le> out"
    "has_room m2 ((parts_held M p r b ?P ?R ?B)(out \<mapsto> ([], []))) (?n - 17) k"
    by (rule room_acquire [OF r1]) (use k n in \<open>auto simp: parts_held_def\<close>)
  have o: "out \<noteq> p" "out \<noteq> r" "out \<noteq> b" "M out = None" using m2(2) by (auto simp: parts_held_def split: if_splits)
  let ?N = "parts_held M p r b ?P ?R ?B"
  let ?M2 = "?N(out \<mapsto> ([], []))"
  have v: "?M2 out = Some ([], [])" "?M2 p = Some ([], ?P)" "?M2 r = Some ([], ?R)" "?M2 b = Some ([], ?B)"
    using o d by (simp_all add: parts_held_def)
  have H': "H = ?P @ packed_u16 0 @ packed_u16 (from_santa_request_id s + 1) @ ?R @ ?B @
      packed_u16 (push_bit 1 target_id) @ packed_u16 0" by (simp only: H search_header_def)
  have lenH: "int (length H) \<le> ?n - 17" using n by linarith
  obtain m3 where m3: "write_search_header m2 target_id (from_santa_request_id s + 1) p r b out = Some m3"
    "has_room m3 (?N(out \<mapsto> ([], H))) (?n - 17 - int (length H)) k"
    by (rule search_header_written [OF m2(4) v o(1-3) [symmetric] H' lenH, unfolded fun_upd_upd])
  have pay: "payload (?N(out \<mapsto> ([], H))) mem_h = payload M mem_h"
      "\<forall>h. mem_h = Some h \<longrightarrow> h \<noteq> out \<and> (?N(out \<mapsto> ([], H))) h \<noteq> None"
    using pl o d by (auto simp: payload_def parts_held_def split: option.splits)
  let ?K = "search_packet F H (payload M mem_h)"
  obtain m4 where m4: "close_search_packet L m3 mem_h out = Some m4" "has_room m4 (?N(out \<mapsto> (?K, []))) 0 k"
    by (rule search_packet_closed [OF m3(2) fun_upd_same F pay(2), unfolded pay(1) fun_upd_upd]) (use n in linarith)
  have "?K \<noteq> []" by (simp add: search_packet_def checksum_bytes_def Let_def)
  then have task: "siot_mesh_at_root_add_send_from_santa_task L blank blank_hop ?s m4 out currt 0 =
      Some (?s\<lparr>pending_resends := pending_resends ?s @ [new_search_task L blank blank_hop currt ?K]\<rparr>)"
    by (intro add_search_task [OF m4(2)]) simp_all
  have "has_room m4 (M(p \<mapsto> ([], ?P), r \<mapsto> ([], ?R), b \<mapsto> ([], ?B), out \<mapsto> (?K, []))) 0 k"
    using m4(2) by (simp add: parts_held_def)
  then obtain m5 m6 m7 m8 where rel: "release_memory_handle m4 out = Some m5" "release_memory_handle m5 b = Some m6"
    "release_memory_handle m6 r = Some m7" "release_memory_handle m7 p = Some m8" "has_room m8 M 0 k"
    by (rule parts_released) (use d o m2(3) in auto)
  have "siot_mesh_form_packets_from_santa_and_add_to_task_list L blank blank_hop s m currt mem_h target_id =
      Some (zero_milliseconds_tval L, ?s\<lparr>pending_resends := pending_resends ?s @ [new_search_task L blank blank_hop currt ?K]\<rparr>, m8)"
    unfolding siot_mesh_form_packets_from_santa_and_add_to_task_list_def
    by (simp add: target(1,2) m1 m2(1) m3(1) m4(1) task rel(1-4) del: mesh.update_convs)
  then show ?thesis using rel(5) by simp
qed

end
