(* ===== verification/Route_Properties.thy ===== *)
theory Route_Properties
  imports Mesh_Properties Mesh_Search
begin

text \<open>
  The properties of the mesh that concern routes: their choice and planning, the resending of
  packets, the loss of a hop, and the search for devices.
\<close>

section \<open>The choice of a route\<close>

text \<open>
  C34: On valid tables the best route is looked for without fail, unless a device whose time is over
  can be reached in at least two ways, in which case the comparison of the ways can read a hop that
  does not exist. Otherwise a route found leads over an incoming and an outgoing hop of admissible
  quality at the same neighbour of a device whose time is over; that device is removed, and
  apart from it only devices that no such route leads to and whose time is over; if no route is
  found then there is none to such a device, and all of them are removed. The hops of a device are
  still recorded once each.
\<close>

theorem best_route_chosen:
  assumes "dbg_siot_mesh_at_root_validate_all_device_tables (mesh_routing_data s) = Some ()"
    and "\<forall>d \<in> set (last_hops_of_all_devices s). length (last_hops_in d) * length (last_hops_out d) < 65536"
  shows "case siot_mesh_at_root_find_best_route L s currt t of
      None \<Rightarrow> \<exists>d \<in> set (last_hops_of_all_devices s). all_received L currt d \<and> 2 \<le> length (ways d)
    | Some (ret, target, found, t', s') \<Rightarrow>
        s' = s\<lparr>last_hops_of_all_devices := last_hops_of_all_devices s'\<rparr> \<and>
        (hops_wf (last_hops_of_all_devices s) \<longrightarrow> hops_wf (last_hops_of_all_devices s')) \<and>
        (if last_hops_of_all_devices s = [] then ret = SIOT_MESH_AT_ROOT_RET_FAILED \<and> found = None
         else route_chosen L currt (last_hops_of_all_devices s) ret target found (last_hops_of_all_devices s'))"
proof (cases "last_hops_of_all_devices s = []")
  case True
  then show ?thesis using assms(1)
    by (simp add: siot_mesh_at_root_find_best_route_def siot_mesh_at_root_find_best_route_to_device_def)
next
  case False
  note find = siot_mesh_at_root_find_best_route_def siot_mesh_at_root_find_best_route_to_device_def
  show ?thesis
  proof (cases "best_route_loop L currt None (last_hops_of_all_devices s)")
    case None
    then show ?thesis using best_route_loop_undefined [OF None] assms(1) False by (simp add: find)
  next
    case (Some r)
    obtain ret target found ds where r: "r = (ret, target, found, ds)" by (cases r)
    show ?thesis using best_route_loop_result [OF Some [unfolded r] assms(2)] Some r assms(1) False
      by (simp add: find Let_def)
  qed
qed

definition sample_hop :: "u16 \<Rightarrow> u8 \<Rightarrow> SIOT_MESH_LAST_HOP_DATA" where
  "sample_hop k q = \<lparr>last_hop_id = k, last_hop_bus_id = 0, conn_quality = q\<rparr>"

definition sample_hops :: "SIOT_MESH_LAST_HOP_DATA list \<Rightarrow> SIOT_MESH_LAST_HOP_DATA list \<Rightarrow> mesh" where
  "sample_hops ins outs = sample_mesh\<lparr>last_hops_of_all_devices :=
     [\<lparr>dlh_device_id = 1, dlh_request_id = 4, end_of_receiving = \<lparr>low_t = 3, high_t = 0\<rparr>,
       last_hops_in = ins, last_hops_out = outs\<rparr>]\<rparr>"

theorem best_route_chosen_witness:
  "\<exists>target found t' s'. siot_mesh_at_root_find_best_route sample_lib (sample_hops [sample_hop 7 1] [sample_hop 7 2])
      \<lparr>low_t = 8, high_t = 0\<rparr> \<lparr>low_t = 8, high_t = 0\<rparr> =
    Some (SIOT_MESH_AT_ROOT_RET_OK, target, found, t', s') \<and> target = Some 1 \<and> map_option fr_id_prev found = Some 7"
proof -
  let ?s = "sample_hops [sample_hop 7 1] [sample_hop 7 2]" and ?t = "\<lparr>low_t = 8, high_t = 0\<rparr> :: sa_time_val"
  have v: "dbg_siot_mesh_at_root_validate_all_device_tables (mesh_routing_data ?s) = Some ()"
    using sample_mesh(1) by (simp add: sample_hops_def)
  have way: "way (sample_hop 7 1) (sample_hop 7 2)"
    by (simp add: way_def sample_hop_def SIOT_MESH_IS_QUALITY_OF_INCOMING_CONNECTION_ADMISSIBLE_def
        SIOT_MESH_IS_QUALITY_OF_OUTGOING_CONNECTION_ADMISSIBLE_def)
  have rec: "all_received sample_lib ?t d \<and> has_way d \<and> length (ways d) < 2 \<and> dlh_device_id d = 1 \<and> set (last_hops_in d) = {sample_hop 7 1}"
    if "d \<in> set (last_hops_of_all_devices ?s)" for d
    using that way by (simp add: sample_hops_def all_received_def has_way_def ways_def sample_lib_def ticks_def)
  have ne: "last_hops_of_all_devices ?s \<noteq> []" "\<exists>d. d \<in> set (last_hops_of_all_devices ?s)"
    by (simp_all add: sample_hops_def)
  from best_route_chosen [OF v, of sample_lib ?t ?t] rec ne show ?thesis
    by (fastforce simp: sample_hops_def route_chosen_def route_over_def sample_hop_def split: option.splits prod.splits if_splits)
qed

text \<open>
  The positions of the best way so far are recorded as those of the device and of the incoming hop.
  Of three ways over the neighbours 10, 11 and 12 with qualities 10, 5 and 7 the last is chosen.
\<close>

lemma best_way_not_chosen:
  "map_option (\<lambda>(ret, target, found, _). (target, map_option fr_id_prev found))
     (siot_mesh_at_root_find_best_route sample_lib
       (sample_hops [sample_hop 10 10, sample_hop 11 5, sample_hop 12 7] [sample_hop 10 1, sample_hop 11 1, sample_hop 12 1])
       \<lparr>low_t = 8, high_t = 0\<rparr> \<lparr>low_t = 8, high_t = 0\<rparr>) = Some (Some 1, Some 12)"
  unfolding sample_hops_def sample_hop_def sample_lib_def sample_defs by code_simp

section \<open>Resending\<close>

text \<open>
  If no task is pending or none is due, this is reported and nothing changes. Otherwise the first of
  the oldest tasks is handed out: the packet is written in place of what the handle held, the task
  is removed if it was sent for the last time or else put off by the resending period, the other tasks
  are as they were, and the code tells which case it was. The tasks stay as the assertions want them.
\<close>

lemma oldest_task_sent:
  assumes "heap_inv m" "content m h = Some (rq, rsp)" "time_order L" "resends_ok L (pending_resends s)"
    and "\<forall>r \<in> set (pending_resends s). int (length (packet_data r)) \<le> free_space m + int (length rq) + int (length rsp)"
  shows "if pending_resends s = []
    then siot_mesh_at_root_get_resend_task L blank s m h currt t = Some (SIOT_MESH_AT_ROOT_RET_RESEND_TASK_NONE_EXISTS, None, t, s, m)
    else if \<forall>r \<in> set (pending_resends s). ticks currt < ticks (next_resend_time r)
    then \<exists>t'. siot_mesh_at_root_get_resend_task L blank s m h currt t = Some (SIOT_MESH_AT_ROOT_RET_RESEND_TASK_NOT_NOW, None, t', s, m)
    else \<exists>i r t' m'. i < length (pending_resends s) \<and> r = pending_resends s ! i \<and>
      ticks (next_resend_time r) \<le> ticks currt \<and>
      (\<forall>q \<in> set (pending_resends s). ticks (next_resend_time r) \<le> ticks (next_resend_time q)) \<and>
      siot_mesh_at_root_get_resend_task L blank s m h currt t =
        Some (send_code r, Some (resend_target_id r, resend_bus_id r, resend_next_hop_id r), t',
          s\<lparr>pending_resends := after_send L currt (pending_resends s) i\<rparr>, m') \<and>
      resends_ok L (after_send L currt (pending_resends s) i) \<and>
      heap_inv m' \<and> content m' = (content m)(h \<mapsto> ([], packet_data r))"
proof (cases "pending_resends s = [] \<or> (\<forall>r \<in> set (pending_resends s). ticks currt < ticks (next_resend_time r))")
  case True
  then show ?thesis using get_resend_task_idle [OF assms(3,4), of currt blank m h t]
    by (auto simp: siot_mesh_at_root_get_resend_task_def)
next
  case False
  then obtain r where r: "r \<in> set (pending_resends s)" "ticks (next_resend_time r) \<le> ticks currt" by (auto simp: not_less)
  obtain i m' where i: "i < length (pending_resends s)"
    "oldest_of (pending_resends s) currt (next_resend_time (pending_resends s ! i)) (Some i)"
    "grown m h ([], packet_data (pending_resends s ! i)) m'"
    "siot_mesh_at_root_get_resend_task L blank s m h currt t =
      (let it = pending_resends s ! i; rs = after_send L currt (pending_resends s) i
       in Some (send_code it, Some (resend_target_id it, resend_bus_id it, resend_next_hop_id it),
            remaining_times L currt rs t, s\<lparr>pending_resends := rs\<rparr>, m'))"
    by (rule get_resend_task_due [OF assms(1-4) r assms(5)])
  then show ?thesis using False grownD [OF i(3)] resends_ok_after_send [OF assms(4) i(1)]
    by (auto simp: oldest_of_def Let_def)
qed

definition sample_resend :: "u16 \<Rightarrow> u8 list \<Rightarrow> MESH_PENDING_RESENDS" where
  "sample_resend k bs = \<lparr>resend_type = MESH_PENDING_RESEND_TYPE_SELF_REPEATED, packet_data = bs, resend_cnt = 2,
     next_resend_time = \<lparr>low_t = k, high_t = 0\<rparr>, resend_checksum = 0, resend_target_id = 1, resend_bus_id = 0, resend_next_hop_id = 1\<rparr>"

lemma sample_time_order [simp]: "time_order sample_lib"
  by (simp add: time_order_def sample_lib_def)

lemma oldest_task_sent_witness:
  "\<exists>r t' s' m'. siot_mesh_at_root_get_resend_task sample_lib \<lparr>low_t = 0, high_t = 0\<rparr>
      (sample_mesh\<lparr>pending_resends := [sample_resend 9 [1], sample_resend 5 [2, 3], sample_resend 7 [4]]\<rparr>) fresh_heap 0
      \<lparr>low_t = 8, high_t = 0\<rparr> \<lparr>low_t = 0, high_t = 0\<rparr> = Some (SIOT_MESH_AT_ROOT_RET_RESEND_TASK_INTERM, r, t', s', m') \<and>
    content m' 0 = Some ([], [2, 3])"
proof -
  have c: "content fresh_heap 0 = Some ([], [])" using fresh_heap(4) by simp
  show ?thesis
    using oldest_task_sent [OF fresh_heap(2) c sample_time_order,
        of "sample_mesh\<lparr>pending_resends := [sample_resend 9 [1], sample_resend 5 [2, 3], sample_resend 7 [4]]\<rparr>" "\<lparr>low_t = 0, high_t = 0\<rparr>" "\<lparr>low_t = 8, high_t = 0\<rparr>" "\<lparr>low_t = 0, high_t = 0\<rparr>"]
    by (force simp: resends_ok_def resend_ok_def sample_resend_def sample_lib_def fresh_heap(5) ticks_def send_code_def nth_Cons' split: if_splits)
qed

text \<open>
  C35: A packet added for resending is handed out as often as the library says, if the task is asked
  for each time it is due: with the code for a repetition to come all but the last time, and at the
  end no task is left. The packet is in the handle each time.
\<close>

theorem packet_resent_n_times:
  assumes "heap_inv m" "content m h = Some (rq, rsp)" "rsp \<noteq> []" "time_order L" "pending_resends s = []"
    and "0 < SIOT_MESH_SUBJECT_FOR_MESH_RESEND L" "target \<noteq> SIOT_MESH_TARGET_UNDEFINED L" "bus \<noteq> SIOT_MESH_BUS_UNDEFINED L"
    and "length ts = unat (SIOT_MESH_SUBJECT_FOR_MESH_RESEND L)" "timely L (time_after blank currt (MESH_RESEND_PERIOD_tval L)) ts"
  shows "\<exists>t' s1 m1 m'. siot_mesh_at_root_add_resend_task L blank s m h currt checksum target bus hop t = Some (t', s1, m1) \<and>
    resend_rounds L t s1 m1 h ts = Some (replicate (unat (SIOT_MESH_SUBJECT_FOR_MESH_RESEND L) - 1)
        SIOT_MESH_AT_ROOT_RET_RESEND_TASK_INTERM @ [SIOT_MESH_AT_ROOT_RET_RESEND_TASK_FINAL], s, m') \<and>
    heap_inv m' \<and> content m' = (content m)(h \<mapsto> ([], rsp))"
proof -
  let ?r = "new_resend L blank rsp currt checksum target bus hop"
  obtain m1 t' where add: "siot_mesh_at_root_add_resend_task L blank s m h currt checksum target bus hop t =
      Some (t', s\<lparr>pending_resends := [?r]\<rparr>, m1)" and g: "grown m h ([], rsp) m1"
    by (rule add_resend_task_effect [OF assms(1-3), of L blank s currt checksum target bus hop t]) (use assms(5) in simp)
  have v: "content m1 h = Some ([], rsp)" using grownD(2) [OF g] by simp
  have "\<exists>m'. resend_rounds L t (s\<lparr>pending_resends := [?r]\<rparr>) m1 h ts =
      Some (replicate (unat (resend_cnt ?r) - 1) SIOT_MESH_AT_ROOT_RET_RESEND_TASK_INTERM @ [SIOT_MESH_AT_ROOT_RET_RESEND_TASK_FINAL],
        (s\<lparr>pending_resends := [?r]\<rparr>)\<lparr>pending_resends := []\<rparr>, m') \<and> grown m1 h ([], packet_data ?r) m'"
    by (rule resend_rounds_count [OF grownD(1) [OF g] v assms(4)])
      (use assms(6-10) free_space_nonneg [OF grownD(1) [OF g]] in \<open>simp_all add: new_resend_def resend_ok_def\<close>)
  then obtain m' where "resend_rounds L t (s\<lparr>pending_resends := [?r]\<rparr>) m1 h ts =
      Some (replicate (unat (SIOT_MESH_SUBJECT_FOR_MESH_RESEND L) - 1) SIOT_MESH_AT_ROOT_RET_RESEND_TASK_INTERM
        @ [SIOT_MESH_AT_ROOT_RET_RESEND_TASK_FINAL], s, m')" "grown m h ([], rsp) m'"
    using assms(5) grown_grown [OF g] by (auto simp: new_resend_def)
  then show ?thesis using add grownD by blast
qed

theorem packet_resent_n_times_witness:
  "\<exists>t' s1 m1 m'. siot_mesh_at_root_add_resend_task sample_lib \<lparr>low_t = 0, high_t = 0\<rparr> sample_mesh message_heap 0
      \<lparr>low_t = 8, high_t = 0\<rparr> 0x77 1 0 1 \<lparr>low_t = 0, high_t = 0\<rparr> = Some (t', s1, m1) \<and>
    resend_rounds sample_lib \<lparr>low_t = 0, high_t = 0\<rparr> s1 m1 0
        [\<lparr>low_t = 808, high_t = 0\<rparr>, \<lparr>low_t = 1700, high_t = 0\<rparr>, \<lparr>low_t = 2500, high_t = 0\<rparr>] =
      Some ([SIOT_MESH_AT_ROOT_RET_RESEND_TASK_INTERM, SIOT_MESH_AT_ROOT_RET_RESEND_TASK_INTERM,
        SIOT_MESH_AT_ROOT_RET_RESEND_TASK_FINAL], sample_mesh, m') \<and> content m' 0 = Some ([], [1, 2, 3])"
proof -
  have c: "content message_heap 0 = Some ([], [1, 2, 3])" using message_heap(2) by simp
  have t: "timely sample_lib (time_after \<lparr>low_t = 0, high_t = 0\<rparr> \<lparr>low_t = 8, high_t = 0\<rparr> (MESH_RESEND_PERIOD_tval sample_lib))
      [\<lparr>low_t = 808, high_t = 0\<rparr>, \<lparr>low_t = 1700, high_t = 0\<rparr>, \<lparr>low_t = 2500, high_t = 0\<rparr>]"
    unfolding sample_lib_def by code_simp
  have n: "SIOT_MESH_SUBJECT_FOR_MESH_RESEND sample_lib = 3" "SIOT_MESH_TARGET_UNDEFINED sample_lib = 0xFFFF"
    "SIOT_MESH_BUS_UNDEFINED sample_lib = 0xFFFF" "pending_resends sample_mesh = []"
    by (simp_all add: sample_lib_def sample_mesh_def)
  have "unat (3 :: u8) - 1 = Suc (Suc 0)" by code_simp
  then have r: "replicate (unat (3 :: u8) - 1) x = [x, x]" for x :: mesh_ret by (simp only: replicate.simps)
  from packet_resent_n_times [OF message_heap(1) c _ sample_time_order n(4) _ _ _ _ t, of 1 0 "0x77" 1 "\<lparr>low_t = 0, high_t = 0\<rparr>"]
  show ?thesis unfolding n r by fastforce
qed

section \<open>A route is planned\<close>

text \<open>
  C36: If the hops towards the last retransmitter form a chain of devices from the root, then the new route
  is planned along it without fail: each device before the end of the chain gets a route to the target over the link
  it has towards the retransmitter, the retransmitter gets a route over a link whose next hop is
  the target, and the target its route to the root; nothing changes for other devices, and an
  update is planned for every device of the chain but the root, and for the target.
\<close>

theorem route_added:
  assumes "way_chain (device_of s) p 0 ds" "distinct (0 # ds)" "t \<notin> set (0 # ds)"
    and "mesh_routing_data s = r # devs" "device_id r = 0"
    and "device_of s p = Some rdp" "link_room L rdp" "device_of s t = Some rdt"
  shows "\<exists>s' rdp'. siot_mesh_at_root_update_device_data_when_route_is_added L blank s t bt p bp nx = Some s' \<and>
    direct_route rdp rdp' t bp \<and>
    device_of s' = (\<lambda>x. if x \<in> set (0 # ds) - {p} then map_option (learn t p) (device_of s x) else device_of s x)
      (p \<mapsto> rdp', t \<mapsto> route_of_target blank rdt nx bt) \<and>
    update_planned s' = update_planned s \<union> set ds \<union> {t}"
  by (rule route_is_added [OF assms])

text \<open>The root, with a route to device 1, and device 1; nothing is known of the way to device 2.\<close>

definition way_mesh :: mesh where
  "way_mesh = sample_mesh\<lparr>planned_updates := [], mesh_routing_data :=
     [(sample_device 0)\<lparr>siot_m_route_table_confirmed := [sample_route\<lparr>rt_TARGET_ID := 1\<rparr>],
        siot_m_link_table_confirmed := [sample_link\<lparr>lt_NEXT_HOP := 1\<rparr>],
        siot_m_route_table_planned := [sample_route\<lparr>rt_TARGET_ID := 1\<rparr>],
        siot_m_link_table_planned := [sample_link\<lparr>lt_NEXT_HOP := 1\<rparr>]\<rparr>,
      (sample_device 1)\<lparr>siot_m_route_table_confirmed := [sample_route], siot_m_link_table_confirmed := [sample_link]\<rparr>,
      (sample_device 2)\<lparr>siot_m_route_table_planned := [], siot_m_link_table_planned := []\<rparr>]\<rparr>"

lemmas way_defs = way_mesh_def sample_defs

theorem route_added_witness:
  "\<exists>s'. siot_mesh_at_root_update_device_data_when_route_is_added sample_lib sample_link way_mesh 2 5 1 3 1 = Some s' \<and>
    update_planned s' = {1, 2} \<and>
    map_option (table_map rt_TARGET_ID \<circ> siot_m_route_table_planned) (device_of s' 0) =
      Some [1 \<mapsto> \<lparr>rt_TARGET_ID = 1, rt_LINK_ID = 0\<rparr>, 2 \<mapsto> \<lparr>rt_TARGET_ID = 2, rt_LINK_ID = 0\<rparr>]"
proof -
  let ?d = "\<lambda>i. mesh_routing_data way_mesh ! i"
  have data: "mesh_routing_data way_mesh = [?d 0, ?d 1, ?d 2]" "device_id (?d 0) = 0"
    and dev: "device_of way_mesh 0 = Some (?d 0)" "device_of way_mesh 1 = Some (?d 1)" "device_of way_mesh 2 = Some (?d 2)"
    and c: "way_chain (device_of way_mesh) 1 0 [1]" and u: "update_planned way_mesh = {}"
    and l: "link_room sample_lib (?d 1)"
    by (simp_all add: way_defs device_of_def hop_to_def update_planned_def link_room_def sample_lib_def)
  have r: "table_map rt_TARGET_ID (siot_m_route_table_planned (learn 2 1 (?d 0))) =
      [1 \<mapsto> \<lparr>rt_TARGET_ID = 1, rt_LINK_ID = 0\<rparr>, 2 \<mapsto> \<lparr>rt_TARGET_ID = 2, rt_LINK_ID = 0\<rparr>]"
    by (auto simp: way_defs learn_def hop_to_def table_map_def)
  obtain s' where s': "siot_mesh_at_root_update_device_data_when_route_is_added sample_lib sample_link way_mesh 2 5 1 3 1 = Some s'"
    "device_of s' 0 = Some (learn 2 1 (?d 0))" "update_planned s' = {1, 2}"
    using route_added [OF c _ _ data dev(2) l dev(3), of sample_link 5 3 1] dev(1) u by fastforce
  then show ?thesis using r by simp
qed

section \<open>A hop is lost\<close>

text \<open>
  C37: The loop that removes the lost routes of a device removes only such routes, and leaves the one
  behind each removed route without looking at it: all lost routes are removed exactly if no two of them are
  neighbours in the table. The tables of the root stay alike.
\<close>

theorem lost_routes_removed:
  assumes "ordered rt_TARGET_ID (siot_m_route_table_planned d)"
    and "d' = fst (kill_routes failed_hop_id lost 0 d c)"
  shows "siot_m_route_table_planned d' = skip_erase (\<lambda>r. rt_TARGET_ID r \<in> set lost) (siot_m_route_table_planned d) \<and>
    {r \<in> set (siot_m_route_table_planned d). rt_TARGET_ID r \<notin> set lost} \<subseteq> set (siot_m_route_table_planned d') \<and>
    ((\<forall>r \<in> set (siot_m_route_table_planned d'). rt_TARGET_ID r \<notin> set lost) \<longleftrightarrow>
      successively (\<lambda>r q. \<not> (rt_TARGET_ID r \<in> set lost \<and> rt_TARGET_ID q \<in> set lost)) (siot_m_route_table_planned d)) \<and>
    (root_alike d \<longrightarrow> root_alike d')"
proof -
  from kill_routes_result [of d "[]" "siot_m_route_table_planned d" 0 failed_hop_id lost c] assms
  have "siot_m_route_table_planned d' = skip_erase (\<lambda>r. rt_TARGET_ID r \<in> set lost) (siot_m_route_table_planned d)"
    "root_alike d \<longrightarrow> root_alike d'" by simp_all
  then show ?thesis using skip_erase_complete [of "\<lambda>r. rt_TARGET_ID r \<in> set lost"]
    skip_erase_keeps [of "\<lambda>r. rt_TARGET_ID r \<in> set lost"] by auto
qed

theorem lost_routes_removed_witness:
  "\<lparr>rt_TARGET_ID = 5, rt_LINK_ID = 0\<rparr> \<in> set (siot_m_route_table_planned (fst (kill_routes 4 [4, 5] 0
     ((sample_device 0)\<lparr>siot_m_route_table_planned := [\<lparr>rt_TARGET_ID = 4, rt_LINK_ID = 0\<rparr>, \<lparr>rt_TARGET_ID = 5, rt_LINK_ID = 0\<rparr>]\<rparr>) ([2], []))))"
proof -
  let ?d = "(sample_device 0)\<lparr>siot_m_route_table_planned := [\<lparr>rt_TARGET_ID = 4, rt_LINK_ID = 0\<rparr>, \<lparr>rt_TARGET_ID = 5, rt_LINK_ID = 0\<rparr>]\<rparr>"
  have "ordered rt_TARGET_ID (siot_m_route_table_planned ?d)" by simp
  from lost_routes_removed [OF this refl, of 4 "[4, 5]" "([2], [])"] show ?thesis by simp
qed

text \<open>
  C38: A round of the removal that leaves devices to visit has removed a planned route, so the
  number of rounds is bounded by the number of planned routes.
\<close>

theorem removal_rounds_end:
  assumes "cut_round failed_hop_id lost visited s = Some (to_visit, s')" "to_visit \<noteq> []"
  shows "total_routes s' < total_routes s"
  by (rule cut_round_shorter [OF assms])

theorem removal_rounds_end_witness:
  "\<exists>s'. cut_round 2 [2] [0] (way_mesh\<lparr>mesh_routing_data := (mesh_routing_data way_mesh)[0 := (mesh_routing_data way_mesh ! 0)
      \<lparr>siot_m_route_table_planned := [sample_route\<lparr>rt_TARGET_ID := 1\<rparr>, sample_route\<lparr>rt_TARGET_ID := 2\<rparr>]\<rparr>]\<rparr>) = Some ([1], s') \<and>
    total_routes s' < 3"
proof -
  let ?s = "way_mesh\<lparr>mesh_routing_data := (mesh_routing_data way_mesh)[0 := (mesh_routing_data way_mesh ! 0)
      \<lparr>siot_m_route_table_planned := [sample_route\<lparr>rt_TARGET_ID := 1\<rparr>, sample_route\<lparr>rt_TARGET_ID := 2\<rparr>]\<rparr>]\<rparr>"
  have "map_option fst (cut_round 2 [2] [0] ?s) = Some [1]" "total_routes ?s = 3"
    unfolding way_defs by code_simp+
  then show ?thesis using removal_rounds_end [of 2 "[2]" "[0]" ?s "[1]"] by auto
qed



text \<open>A planned update of another device keeps the removal from returning.\<close>

lemma removal_hangs:
  "let s = way_mesh\<lparr>planned_updates := [\<lparr>ini_device_id = 2, enforce_full_update = False, ini_affected_routes = [2]\<rparr>]\<rparr>
   in siot_mesh_at_root_remove_link_to_target s 1 True \<noteq> None \<and> siot_mesh_at_root_remove_device s 1 = None"
  unfolding way_defs by code_simp

section \<open>The search for a device\<close>

text \<open>
  C40: If there is enough room, the packet that looks for a device is built and queued without fail: a header
  with the next request id, the retransmitters the root has a route to, the bus types of the
  device and its id, a checksum of the header, the payload, and a checksum of both. The task is to
  be sent once and at once, the four handles used meanwhile are released, and no message
  of another handle has changed.
\<close>

theorem search_packet_queued:
  assumes "has_room m M n k" "M k \<noteq> None"
    and "target_id \<noteq> 0" "target_id \<noteq> SIOT_MESH_TARGET_UNDEFINED L" "device_at s target_id = Some (i, d)"
    and "\<forall>h. mem_h = Some h \<longrightarrow> M h \<noteq> None" and "part_checksum L F"
    and "H = search_header L s (bus_type_list d) (from_santa_request_id s + 1) target_id"
    and "72 + int (length (search_prefix L)) + int (length (retransmitter_bytes s)) +
      int (length (bus_type_bytes (bus_type_list d))) + int (length H) + int (length (payload M mem_h)) \<le> n"
  shows "\<exists>m'. siot_mesh_form_packets_from_santa_and_add_to_task_list L blank blank_hop s m currt mem_h target_id =
      Some (zero_milliseconds_tval L, s\<lparr>from_santa_request_id := from_santa_request_id s + 1,
        pending_resends := pending_resends s @ [new_search_task L blank blank_hop currt (search_packet F H (payload M mem_h))]\<rparr>, m') \<and>
    handles_inv m' \<and> messages m' = M"
  using search_packet_built [OF assms(1-8), of blank blank_hop currt] assms(9) by (auto simp: has_room_def)

lemma sample_part_checksum: "part_checksum sample_lib (fold update_fletcher_checksum16)"
  by (simp add: part_checksum_def sample_lib_def)

theorem search_packet_queued_witness:
  "\<exists>m'. siot_mesh_form_packets_from_santa_and_add_to_task_list sample_lib \<lparr>low_t = 0, high_t = 0\<rparr> 0 way_mesh acquired_heap
      \<lparr>low_t = 8, high_t = 0\<rparr> None 2 =
    Some (\<lparr>low_t = 0, high_t = 0\<rparr>, way_mesh\<lparr>from_santa_request_id := 1, pending_resends := [new_search_task sample_lib
      \<lparr>low_t = 0, high_t = 0\<rparr> 0 \<lparr>low_t = 8, high_t = 0\<rparr> (search_packet (fold update_fletcher_checksum16) [131, 0, 0, 0, 1, 0, 0, 4, 0] [])]\<rparr>, m') \<and>
    messages m' = messages acquired_heap"
proof -
  have free: "4000 \<le> free_space acquired_heap" unfolding acquired_heap_def fresh_heap_def by code_simp
  have room: "has_room acquired_heap (messages acquired_heap) 4000 3" using acquired_heap free by (simp add: has_room_def)
  have used: "messages acquired_heap 3 \<noteq> None"
    using acquired_heap(3,4) by (simp add: messages_def MEMORY_HANDLE_ACQUIRABLE_HANDLE_STORAGE_def)
  have dev: "device_at way_mesh 2 = Some (2, mesh_routing_data way_mesh ! 2)" unfolding way_defs by code_simp
  have mesh: "bus_type_list (mesh_routing_data way_mesh ! 2) = []" "from_santa_request_id way_mesh = 0" "pending_resends way_mesh = []"
    "zero_milliseconds_tval sample_lib = \<lparr>low_t = 0, high_t = 0\<rparr>" "SIOT_MESH_TARGET_UNDEFINED sample_lib = 0xFFFF"
    by (simp_all add: way_defs sample_lib_def)
  have H: "[131, 0, 0, 0, 1, 0, 0, 4, 0] = search_header sample_lib way_mesh [] 1 2"
    and len: "search_prefix sample_lib = [131, 0, 0]" "retransmitter_bytes way_mesh = [0]" "bus_type_bytes [] = [0]"
    unfolding sample_lib_def way_defs by code_simp+
  from search_packet_queued [OF room used _ _ dev _ sample_part_checksum, where mem_h = None and H = "[131, 0, 0, 0, 1, 0, 0, 4, 0]",
      of "\<lparr>low_t = 0, high_t = 0\<rparr>" 0 "\<lparr>low_t = 8, high_t = 0\<rparr>"]
  show ?thesis by (force simp: mesh H [symmetric] len payload_def)
qed

end
