(* ===== verification/Perm_Storage.thy ===== *)
theory Perm_Storage
  imports Sync_Request Checksum Handle_Rules
begin

text \<open>
  The permanent storage of the devices (\<open>sa_eeprom.cpp\<close>): the copy of each device's data that the
  server keeps, and \<open>eeprom_write\<close> and \<open>eeprom_read\<close>, which save it at the central unit and fetch it
  from there. The sizes and the slot ids belong to the protocol library and are the parameter
  \<open>eeprom_lib\<close>.
\<close>

section \<open>Model\<close>

record eeprom_lib =
  DATA_SASP_NONCE_LW_SIZE :: nat
  DATA_SASP_NONCE_LS_SIZE :: nat
  EEPROM_CHECKSUM_SIZE :: nat
  EEPROM_SLOT_DATA_SASP_NONCE_LW_ID :: u8
  EEPROM_SLOT_DATA_SASP_NONCE_LS_ID :: u8
  PERM_STORAGE_MIN_SIZE :: nat

datatype perm_storage_ret = PERM_STORAGE_RET_OK | PERM_STORAGE_RET_ALREADY_EXISTS
  | PERM_STORAGE_RET_OUT_OF_MEM | PERM_STORAGE_RET_DOES_NOT_EXIST

text \<open>\<open>dev_data\<close> is the array that the pointer of this name leads to.\<close>

record PER_DEVICE_STORAGE_DATA =
  psd_device_id :: u16
  dev_data :: "u8 list"
  dev_data_sz :: nat

text \<open>The result of \<open>new\<close>: an array with whatever it contains, or a null pointer.\<close>

definition perm_storage_add_device ::
  "eeprom_lib \<Rightarrow> u8 list option \<Rightarrow> PER_DEVICE_STORAGE_DATA list \<Rightarrow> u16 \<Rightarrow> perm_storage_ret \<times> PER_DEVICE_STORAGE_DATA list" where
  "perm_storage_add_device K new_array ds dev_id =
     (if list_ex (\<lambda>d. psd_device_id d = dev_id) ds then (PERM_STORAGE_RET_ALREADY_EXISTS, ds)
      else case new_array of
        None \<Rightarrow> (PERM_STORAGE_RET_OUT_OF_MEM, ds)
      | Some a \<Rightarrow> (PERM_STORAGE_RET_OK,
          ds @ [\<lparr>psd_device_id = dev_id, dev_data = a, dev_data_sz = PERM_STORAGE_MIN_SIZE K\<rparr>]))"

definition perm_storage_remove_device ::
  "PER_DEVICE_STORAGE_DATA list \<Rightarrow> u16 \<Rightarrow> perm_storage_ret \<times> PER_DEVICE_STORAGE_DATA list" where
  "perm_storage_remove_device ds dev_id = (case first_index (\<lambda>d. psd_device_id d = dev_id) ds of
     None \<Rightarrow> (PERM_STORAGE_RET_DOES_NOT_EXIST, ds)
   | Some i \<Rightarrow> (PERM_STORAGE_RET_OK, take i ds @ drop (Suc i) ds))"

text \<open>The pointer into the vector is the index.\<close>

definition perm_storage_get_device_data_by_device_id :: "PER_DEVICE_STORAGE_DATA list \<Rightarrow> u32 \<Rightarrow> nat option" where
  "perm_storage_get_device_data_by_device_id ds dev_id = first_index (\<lambda>d. ucast (psd_device_id d) = dev_id) ds"

text \<open>\<open>memcpy\<close> into an array, and reading from one; beyond its end there is nothing.\<close>

definition array_store :: "u8 list \<Rightarrow> nat \<Rightarrow> u8 list \<Rightarrow> u8 list option" where
  "array_store a k bs = (if k + length bs \<le> length a then Some (take k a @ bs @ drop (k + length bs) a) else None)"

definition array_load :: "u8 list \<Rightarrow> nat \<Rightarrow> nat \<Rightarrow> u8 list option" where
  "array_load a k n = (if k + n \<le> length a then Some (take n (drop k a)) else None)"

definition slot_offset :: "eeprom_lib \<Rightarrow> u8 \<Rightarrow> nat" where
  "slot_offset K item = unat item * (DATA_SASP_NONCE_LS_SIZE K + EEPROM_CHECKSUM_SIZE K)"

text \<open>
  The assertions at the start of both functions. The data of the caller are an array of its own.
\<close>

definition slot_request_ok :: "eeprom_lib \<Rightarrow> u8 \<Rightarrow> nat \<Rightarrow> bool" where
  "slot_request_ok K item sz \<longleftrightarrow> DATA_SASP_NONCE_LW_SIZE K = DATA_SASP_NONCE_LS_SIZE K \<and>
     (item = EEPROM_SLOT_DATA_SASP_NONCE_LW_ID K \<or> item = EEPROM_SLOT_DATA_SASP_NONCE_LS_ID K) \<and>
     sz = DATA_SASP_NONCE_LW_SIZE K"

definition eeprom_write ::
  "eeprom_lib \<Rightarrow> PER_DEVICE_STORAGE_DATA list \<Rightarrow> comm \<Rightarrow> u16 \<Rightarrow> u8 \<Rightarrow> nat \<Rightarrow> u8 list \<Rightarrow>
   (PER_DEVICE_STORAGE_DATA list \<times> comm) option" where
  "eeprom_write K ds s dev_id item sz dat = do {
     i \<leftarrow> perm_storage_get_device_data_by_device_id ds (ucast dev_id);
     assert (slot_request_ok K item sz);
     bytes \<leftarrow> array_load dat 0 sz;
     checksum \<leftarrow> calculate_checksum (EEPROM_CHECKSUM_SIZE K) bytes;
     let buff = slot_offset K item;
     bytes \<leftarrow> array_load dat 0 (DATA_SASP_NONCE_LS_SIZE K);
     a \<leftarrow> array_store (dev_data (ds ! i)) buff bytes;
     a \<leftarrow> array_store a (buff + DATA_SASP_NONCE_LS_SIZE K) checksum;
     (mem_h, m) \<leftarrow> acquire_valid_handle (heap s);
     block \<leftarrow> array_load a buff (dev_data_sz (ds ! i));
     m \<leftarrow> zepto_write_block m mem_h block;
     m \<leftarrow> zepto_response_to_request m mem_h;
     s \<leftarrow> send_sync_request_to_central_unit_to_save_data (s\<lparr>heap := m\<rparr>) mem_h dev_id;
     m \<leftarrow> release_memory_handle (heap s) mem_h;
     Some (ds[i := (ds ! i)\<lparr>dev_data := a\<rparr>], s\<lparr>heap := m\<rparr>)
   }"

definition eeprom_read ::
  "eeprom_lib \<Rightarrow> PER_DEVICE_STORAGE_DATA list \<Rightarrow> comm \<Rightarrow> u16 \<Rightarrow> u8 \<Rightarrow> nat \<Rightarrow> u8 list \<Rightarrow> (u8 list \<times> comm) option" where
  "eeprom_read K ds s dev_id item sz dat = do {
     i \<leftarrow> perm_storage_get_device_data_by_device_id ds (ucast dev_id);
     assert (slot_request_ok K item sz);
     (mem_h, m) \<leftarrow> acquire_valid_handle (heap s);
     s \<leftarrow> send_sync_request_to_central_unit_to_get_data (s\<lparr>heap := m\<rparr>) mem_h dev_id;
     po \<leftarrow> zepto_parser_init (heap s) mem_h;
     (full_sz, po) \<leftarrow> zepto_parsing_remaining_bytes (heap s) po;
     assert (full_sz = int (PERM_STORAGE_MIN_SIZE K));
     assert (dev_data_sz (ds ! i) = PERM_STORAGE_MIN_SIZE K);
     (block, po) \<leftarrow> zepto_parse_read_block (heap s) po (int (PERM_STORAGE_MIN_SIZE K));
     dat \<leftarrow> (case block of None \<Rightarrow> Some dat | Some bs \<Rightarrow> array_store dat 0 bs);
     let buff = slot_offset K item;
     checksum_read \<leftarrow> array_load (dev_data (ds ! i)) (buff + DATA_SASP_NONCE_LS_SIZE K) (EEPROM_CHECKSUM_SIZE K);
     bytes \<leftarrow> array_load (dev_data (ds ! i)) buff (DATA_SASP_NONCE_LS_SIZE K);
     dat \<leftarrow> array_store dat 0 bytes;
     bytes \<leftarrow> array_load dat 0 (DATA_SASP_NONCE_LW_SIZE K);
     checksum_calculated \<leftarrow> calculate_checksum (EEPROM_CHECKSUM_SIZE K) bytes;
     assert (is_same_checksum (EEPROM_CHECKSUM_SIZE K) checksum_read checksum_calculated);
     m \<leftarrow> release_memory_handle (heap s) mem_h;
     Some (dat, s\<lparr>heap := m\<rparr>)
   }"

section \<open>The list of devices\<close>

text \<open>Seen from outside the list is a map; adding and removing are those of the map.\<close>

definition storage_of :: "PER_DEVICE_STORAGE_DATA list \<Rightarrow> u16 \<rightharpoonup> u8 list" where
  "storage_of ds k = map_option dev_data (find (\<lambda>d. psd_device_id d = k) ds)"

definition storage_distinct :: "PER_DEVICE_STORAGE_DATA list \<Rightarrow> bool" where
  "storage_distinct ds \<longleftrightarrow> distinct (map psd_device_id ds)"

lemma find_none_ids: "find (\<lambda>d. psd_device_id d = k) ds = None \<longleftrightarrow> k \<notin> psd_device_id ` set ds"
  by (auto simp: find_None_iff)

lemma find_append: "find P (xs @ ys) = (case find P xs of None \<Rightarrow> find P ys | Some x \<Rightarrow> Some x)"
  by (induction xs) simp_all

lemma add_device_storage:
  assumes "storage_distinct ds" "storage_of ds k = None"
  shows "perm_storage_add_device K (Some a) ds k = (PERM_STORAGE_RET_OK,
      ds @ [\<lparr>psd_device_id = k, dev_data = a, dev_data_sz = PERM_STORAGE_MIN_SIZE K\<rparr>]) \<and>
    storage_of (snd (perm_storage_add_device K (Some a) ds k)) = (storage_of ds)(k \<mapsto> a) \<and>
    storage_distinct (snd (perm_storage_add_device K (Some a) ds k))"
proof -
  have new: "k \<notin> psd_device_id ` set ds" using assms(2) find_none_ids [of k ds] by (simp add: storage_of_def)
  then have "\<not> list_ex (\<lambda>d. psd_device_id d = k) ds" by (auto simp: list_ex_iff)
  moreover have "find (\<lambda>d. psd_device_id d = k) ds = None" using new find_none_ids by blast
  ultimately show ?thesis using assms(1) new
    by (auto simp: perm_storage_add_device_def storage_of_def storage_distinct_def find_append fun_eq_iff split: option.splits)
qed

lemma remove_first_storage:
  assumes "storage_distinct ds" "first_index (\<lambda>d. psd_device_id d = k) ds = Some i"
  shows "storage_of (take i ds @ drop (Suc i) ds) = (storage_of ds)(k := None) \<and>
    storage_distinct (take i ds @ drop (Suc i) ds)"
proof -
  from assms(2) have i: "i < length ds" "psd_device_id (ds ! i) = k" by (auto simp: first_index_Some)
  obtain xs d ys where ds: "ds = xs @ d # ys" "length xs = i" using i(1) id_take_nth_drop [OF i(1)] by (metis length_take min.absorb4)
  then have d: "psd_device_id d = k" using i(2) by (simp add: nth_append)
  then have out: "k \<notin> psd_device_id ` set xs" "k \<notin> psd_device_id ` set ys"
    using assms(1) ds by (auto simp: storage_distinct_def)
  have "find (\<lambda>d. psd_device_id d = k) xs = None" "find (\<lambda>d. psd_device_id d = k) ys = None"
    using out find_none_ids by blast+
  then show ?thesis using assms(1) d ds(2) unfolding ds(1)
    by (auto simp: storage_of_def storage_distinct_def find_append fun_eq_iff split: option.splits)
qed

section \<open>Reading\<close>

text \<open>The data that were fetched are in the response, so there is nothing to parse.\<close>

lemma cut_leaves_no_request:
  assumes "memory_object_cut_and_make_response m h a n = Some m'"
  shows "h < length (memory_objects m') \<and> rq_size (memory_objects m' ! h) = 0"
  using assms by (auto simp: memory_object_cut_and_make_response_def MEMORY_OBJECT_PTR_def Let_def split: bind_splits if_splits)

lemma fetched_data_not_in_request:
  assumes "send_sync_request_to_central_unit_to_get_data s h dev_id = Some s'"
  shows "h < length (memory_objects (heap s')) \<and> rq_size (memory_objects (heap s') ! h) = 0"
  using assms cut_leaves_no_request
  unfolding send_sync_request_to_central_unit_to_get_data_def
  by (auto simp: parser_handle_def zepto_convert_part_of_request_to_response_def zepto_parse_skip_block_def zepto_parser_init_by_parser_def
      zepto_parsing_remaining_bytes_def zepto_parse_read_block_def zepto_parser_init_def Let_def
      split: bind_splits if_splits prod.splits)

lemma fetched_nothing_to_parse:
  assumes "send_sync_request_to_central_unit_to_get_data s h dev_id = Some s1"
    and "zepto_parser_init (heap s1) h = Some po" "zepto_parsing_remaining_bytes (heap s1) po = Some (n, po1)"
  shows "n = 0"
proof -
  have "mem_handle po = Some h" "offset po = 0" using assms(2) by (auto simp: zepto_parser_init_def split: bind_splits)
  then show ?thesis using assms(3) fetched_data_not_in_request [OF assms(1)]
    by (auto simp: zepto_parsing_remaining_bytes_def parser_handle_def memory_object_get_request_size_def
        get_object_def MEMORY_OBJECT_PTR_def split: bind_splits if_splits)
qed

lemma eeprom_read_undefined:
  assumes "PERM_STORAGE_MIN_SIZE K \<noteq> 0"
  shows "eeprom_read K ds s dev_id item sz dat = None"
proof (rule ccontr)
  assume "eeprom_read K ds s dev_id item sz dat \<noteq> None"
  then obtain h m s1 po n po1 where get: "send_sync_request_to_central_unit_to_get_data (s\<lparr>heap := m\<rparr>) h dev_id = Some s1"
    and po: "zepto_parser_init (heap s1) h = Some po" "zepto_parsing_remaining_bytes (heap s1) po = Some (n, po1)"
    and sz: "n = int (PERM_STORAGE_MIN_SIZE K)"
    unfolding eeprom_read_def by (force split: bind_splits prod.splits simp: assert_def)
  show False using fetched_nothing_to_parse [OF get po] sz assms by simp
qed

section \<open>Writing\<close>

text \<open>
  The block is read from the start of the slot, but in the size of all slots.
\<close>

lemma second_slot_undefined:
  assumes "\<forall>d \<in> set ds. dev_data_sz d = length (dev_data d)" "0 < slot_offset K item"
  shows "eeprom_write K ds s dev_id item sz dat = None"
proof (rule ccontr)
  assume "eeprom_write K ds s dev_id item sz dat \<noteq> None"
  then obtain i a1 a2 b c block where i: "perm_storage_get_device_data_by_device_id ds (ucast dev_id) = Some i"
    and a: "array_store (dev_data (ds ! i)) (slot_offset K item) b = Some a1"
      "array_store a1 (slot_offset K item + DATA_SASP_NONCE_LS_SIZE K) c = Some a2"
    and block: "array_load a2 (slot_offset K item) (dev_data_sz (ds ! i)) = Some block"
    unfolding eeprom_write_def by (force split: bind_splits prod.splits simp: Let_def)
  have "length a2 = length (dev_data (ds ! i))" using a by (auto simp: array_store_def split: if_splits)
  moreover have "dev_data_sz (ds ! i) = length (dev_data (ds ! i))"
    using assms(1) i by (simp add: perm_storage_get_device_data_by_device_id_def first_index_Some)
  ultimately show False using block assms(2) by (auto simp: array_load_def split: if_splits)
qed

text \<open>
  The block is handed over before the request is made, which takes the response for the data: what is
  sent is a request to save nothing.
\<close>

lemma eeprom_write_effect:
  assumes room: "has_room (heap s) M n k" "M k \<noteq> None"
    and dev: "perm_storage_get_device_data_by_device_id ds (ucast dev_id) = Some i"
      "dev_data_sz (ds ! i) = length (dev_data (ds ! i))" "11 \<le> length (dev_data (ds ! i))"
    and slot: "slot_request_ok K item sz" "slot_offset K item = 0" "sz \<le> length dat"
    and cs: "calculate_checksum (EEPROM_CHECKSUM_SIZE K) (take sz dat) = Some cs" "sz + length cs \<le> length (dev_data (ds ! i))"
    and n: "195 + int (length (dev_data (ds ! i))) \<le> n" and env: "reply_arrives s ms reply rest"
  defines "a \<equiv> take sz dat @ cs @ drop (sz + length cs) (dev_data (ds ! i))"
  shows "\<exists>s'. eeprom_write K ds s dev_id item sz dat = Some (ds[i := (ds ! i)\<lparr>dev_data := a\<rparr>], s') \<and>
    handles_inv (heap s') \<and> messages (heap s') = M \<and>
    sent s' = sent s @ [frame (sync_packet_id s + 1) COMMLAYER_TO_CU_STATUS_SYNC_REQUEST (save_request dev_id [])] \<and>
    map packet_of (packets s') = map packet_of (packets s) @ ms"
proof -
  let ?d = "ds ! i"
  have sz: "sz = DATA_SASP_NONCE_LS_SIZE K" using slot(1) by (simp add: slot_request_ok_def)
  have st: "array_load dat 0 sz = Some (take sz dat)"
    "array_store (dev_data ?d) 0 (take sz dat) = Some (take sz dat @ drop sz (dev_data ?d))"
    using slot(3) cs(2) by (simp_all add: array_load_def array_store_def)
  have st2: "array_store (take sz dat @ drop sz (dev_data ?d)) sz cs = Some a"
    using slot(3) cs(2) by (simp add: array_store_def a_def add.commute)
  have len: "length a = length (dev_data ?d)" using cs(2) slot(3) by (simp add: a_def)
  have ld: "array_load a 0 (dev_data_sz ?d) = Some a" using len dev(2) by (simp add: array_load_def)
  have len_n: "195 + int (length a) \<le> n" using n len by simp
  obtain h m1 where m1: "acquire_valid_handle (heap s) = Some (h, m1)" "M h = None" "k \<le> h"
    "has_room m1 (M(h \<mapsto> ([], []))) (n - 17) k" by (rule room_acquire [OF room]) (use len_n in auto)
  have blk: "as_blocks h (\<lambda>m. zepto_write_block m h a) [a]" by (simp add: as_blocks_def split: Option.bind_split)
  obtain m2 where m2: "zepto_write_block m1 h a = Some m2" "has_room m2 (M(h \<mapsto> ([], a))) (n - 17 - int (length a)) k"
    by (rule room_write [OF m1(4) fun_upd_same blk, unfolded fun_upd_upd]) (use len_n in simp_all)
  obtain m3 where m3: "zepto_response_to_request m2 h = Some m3" "has_room m3 (M(h \<mapsto> (a, []))) (n - 17 - int (length a)) k"
    by (rule room_hand_over [OF m2(2) fun_upd_same, unfolded fun_upd_upd])
  let ?s = "s\<lparr>heap := m3\<rparr>"
  have inv: "handles_inv (heap ?s)" "messages (heap ?s) = M(h \<mapsto> (a, []))" "MEMORY_HANDLE_MAX m3 = k" "178 \<le> free_space m3"
    using m3(2) len_n by (simp_all add: has_room_def)
  have v: "messages (heap ?s) h = Some (a, [])" using inv(2) by simp
  have "int (length a) + int (length ([] :: u8 list)) \<le> span m3 h"
    by (rule span_object) (use has_room_content [OF m3(2) fun_upd_same] in simp_all)
  then have front: "front_room (heap ?s) h 11 (int (length a)) (int (length ([] :: u8 list)))"
    using dev(3) len by (simp add: front_room_def)
  have env': "reply_arrives ?s ms reply rest" using env by (simp add: reply_arrives_def ready_def)
  have "room_for_request (heap ?s) h"
    using inv v room(2) m1(2) by (auto simp: room_for_request_def MEMORY_HANDLE_ACQUIRABLE_START_def view_size_def)
  from save_data [OF inv(1) v front env' this, of dev_id] obtain s1 where
    s1: "send_sync_request_to_central_unit_to_save_data ?s h dev_id = Some s1"
    and ans: "answered ?s h (save_request dev_id []) ms reply rest s1" by blast
  have r1: "has_room (heap s1) (M(h \<mapsto> ([], reply))) 0 k"
    using ans inv free_space_nonneg [of "heap s1"] by (simp add: answered_def has_room_def handles_inv_def)
  obtain m4 where m4: "release_memory_handle (heap s1) h = Some m4" "has_room m4 (M(h := None)) 0 k"
    by (rule room_release [OF r1, of h, unfolded fun_upd_upd]) (use m1(3) in simp_all)
  have "M(h := None) = M" using m1(2) by auto
  then have fin: "handles_inv m4" "messages m4 = M" using m4(2) by (simp_all add: has_room_def)
  have "eeprom_write K ds s dev_id item sz dat = Some (ds[i := ?d\<lparr>dev_data := a\<rparr>], s1\<lparr>heap := m4\<rparr>)"
    using dev(1) slot(1,2) st st2 cs(1) m1(1) ld m2(1) m3(1) s1 m4(1) sz [symmetric]
    by (simp add: eeprom_write_def Let_def)
  then show ?thesis using fin ans by (auto simp: answered_def)
qed

end
