(* ===== verification/Devices.thy ===== *)
theory Devices
  imports Perm_Storage Mesh_Root
begin

text \<open>
  The devices the server talks to (\<open>sa_client_comm_stack_helper.cpp\<close>): the list of their contexts and
  the list of control requests that wait until a device is idle. The contexts of the two protocols
  belong to the protocol library and are type parameters; its functions are the parameter
  \<open>stack_lib\<close>.
\<close>

section \<open>Model\<close>

definition MAIN_DEVICES_RET_OK :: u8 where "MAIN_DEVICES_RET_OK = 0"
definition MAIN_DEVICES_RET_ALREADY_EXISTS :: u8 where "MAIN_DEVICES_RET_ALREADY_EXISTS = 1"
definition MAIN_DEVICES_RET_DOES_NOT_EXIST :: u8 where "MAIN_DEVICES_RET_DOES_NOT_EXIST = 2"

record ('sasp, 'sagdp) DEVICE_CONTEXT =
  dc_device_id :: u16
  AES_ENCRYPTION_KEY :: "u8 list"
  sasp_data :: 'sasp
  sagdp_context_app :: 'sagdp
  sagdp_context_ctr :: 'sagdp
  MEMORY_HANDLE_SAGDP_LSM_APP :: "nat option"
  MEMORY_HANDLE_SAGDP_LSM_APP_SAOUDP_ADDR :: "nat option"
  MEMORY_HANDLE_SAGDP_LSM_CTR :: "nat option"
  MEMORY_HANDLE_SAGDP_LSM_CTR_SAOUDP_ADDR :: "nat option"

record SCHEDULED_GDP_CTR_REQUEST =
  scr_mem_h :: nat
  scr_device_id :: u16

text \<open>What the library functions reach of the server: the permanent storage and the connection.\<close>

type_synonym stored = "PER_DEVICE_STORAGE_DATA list \<times> comm"

record ('sasp, 'sagdp) stack_lib =
  sasp_init_eeprom_data_at_lifestart :: "'sasp \<Rightarrow> u16 \<Rightarrow> stored \<Rightarrow> ('sasp \<times> stored) option"
  sasp_restore_from_backup :: "'sasp \<Rightarrow> u16 \<Rightarrow> stored \<Rightarrow> ('sasp \<times> stored) option"
  handler_sasp_save_state :: "'sasp \<Rightarrow> u16 \<Rightarrow> stored \<Rightarrow> ('sasp \<times> stored) option"
  sagdp_init :: "'sagdp \<Rightarrow> 'sagdp"
  sagdp_is_idle :: "'sagdp \<Rightarrow> bool"

record ('sasp, 'sagdp) server =
  net :: comm
  storage :: "PER_DEVICE_STORAGE_DATA list"
  mesh_root :: mesh
  all_devices :: "('sasp, 'sagdp) DEVICE_CONTEXT list"
  scheduled_gdp_ctr_request :: "SCHEDULED_GDP_CTR_REQUEST list"

definition with_heap :: "mem \<Rightarrow> ('a, 'b) server \<Rightarrow> ('a, 'b) server" where
  "with_heap m s = s\<lparr>net := (net s)\<lparr>heap := m\<rparr>\<rparr>"

subsection \<open>Looking up\<close>

definition main_get_device_count :: "('a, 'b) server \<Rightarrow> nat" where
  "main_get_device_count s = length (all_devices s)"

text \<open>A pointer into the vector is the index.\<close>

definition main_get_device_data_by_device_id :: "('a, 'b) server \<Rightarrow> u32 \<Rightarrow> nat option" where
  "main_get_device_data_by_device_id s dev_id = first_index (\<lambda>d. ucast (dc_device_id d) = dev_id) (all_devices s)"

definition main_get_device_data_by_index :: "('a, 'b) server \<Rightarrow> nat \<Rightarrow> nat option" where
  "main_get_device_data_by_index s idx = (if idx \<ge> length (all_devices s) then None else Some idx)"

subsection \<open>Adding, initialising and removing\<close>

text \<open>A \<open>DEVICE_CONTEXT\<close> starts as \<open>blank\<close>; the results of acquiring are stored without a check.\<close>

definition acquire_device_handles ::
  "mem \<Rightarrow> ('a, 'b) DEVICE_CONTEXT \<Rightarrow> (('a, 'b) DEVICE_CONTEXT \<times> mem) option" where
  "acquire_device_handles m d = do {
     (h1, m) \<leftarrow> acquire_memory_handle m;
     (h2, m) \<leftarrow> acquire_memory_handle m;
     (h3, m) \<leftarrow> acquire_memory_handle m;
     (h4, m) \<leftarrow> acquire_memory_handle m;
     Some (d\<lparr>MEMORY_HANDLE_SAGDP_LSM_APP := h1, MEMORY_HANDLE_SAGDP_LSM_APP_SAOUDP_ADDR := h2,
             MEMORY_HANDLE_SAGDP_LSM_CTR := h3, MEMORY_HANDLE_SAGDP_LSM_CTR_SAOUDP_ADDR := h4\<rparr>, m)
   }"

definition init_contexts :: "('a, 'b) stack_lib \<Rightarrow> ('a, 'b) DEVICE_CONTEXT \<Rightarrow> ('a, 'b) DEVICE_CONTEXT" where
  "init_contexts L d = d\<lparr>sagdp_context_app := sagdp_init L (sagdp_context_app d),
     sagdp_context_ctr := sagdp_init L (sagdp_context_ctr d)\<rparr>"

definition sasp_call ::
  "('a \<Rightarrow> u16 \<Rightarrow> stored \<Rightarrow> ('a \<times> stored) option) \<Rightarrow> ('a, 'b) DEVICE_CONTEXT \<Rightarrow> ('a, 'b) server \<Rightarrow>
   (('a, 'b) DEVICE_CONTEXT \<times> ('a, 'b) server) option" where
  "sasp_call f d s = do {
     (x, ds, c) \<leftarrow> f (sasp_data d) (dc_device_id d) (storage s, net s);
     Some (d\<lparr>sasp_data := x\<rparr>, s\<lparr>storage := ds, net := c\<rparr>)
   }"

definition main_add_new_device ::
  "('a, 'b) stack_lib \<Rightarrow> ('a, 'b) DEVICE_CONTEXT \<Rightarrow> ('a, 'b) server \<Rightarrow> u16 \<Rightarrow> u8 list \<Rightarrow> (u8 \<times> ('a, 'b) server) option" where
  "main_add_new_device L blank s dev_id key =
     (if list_ex (\<lambda>d. dc_device_id d = dev_id) (all_devices s) then Some (MAIN_DEVICES_RET_ALREADY_EXISTS, s)
      else do {
        let d = blank\<lparr>dc_device_id := dev_id, AES_ENCRYPTION_KEY := key\<rparr>;
        (d, m) \<leftarrow> acquire_device_handles (heap (net s)) d;
        (d, s) \<leftarrow> sasp_call (sasp_init_eeprom_data_at_lifestart L) d (with_heap m s);
        Some (MAIN_DEVICES_RET_OK, s\<lparr>all_devices := all_devices s @ [init_contexts L d]\<rparr>)
      })"

text \<open>The result of adding the device to the permanent storage is not looked at.\<close>

definition main_preinit_device ::
  "eeprom_lib \<Rightarrow> u8 list option \<Rightarrow> ('a, 'b) DEVICE_CONTEXT \<Rightarrow> ('a, 'b) server \<Rightarrow> u16 \<Rightarrow> u8 list \<Rightarrow> u8 \<times> ('a, 'b) server" where
  "main_preinit_device K new_array blank s dev_id key =
     (if list_ex (\<lambda>d. dc_device_id d = dev_id) (all_devices s) then (MAIN_DEVICES_RET_ALREADY_EXISTS, s)
      else (MAIN_DEVICES_RET_OK,
        s\<lparr>storage := snd (perm_storage_add_device K new_array (storage s) dev_id),
          all_devices := all_devices s @ [blank\<lparr>dc_device_id := dev_id, AES_ENCRYPTION_KEY := key\<rparr>]\<rparr>))"

definition main_postinit_device ::
  "('a, 'b) stack_lib \<Rightarrow> ('a, 'b) server \<Rightarrow> u16 \<Rightarrow> (u8 \<times> ('a, 'b) server) option" where
  "main_postinit_device L s dev_id = (case first_index (\<lambda>d. dc_device_id d = dev_id) (all_devices s) of
     None \<Rightarrow> Some (MAIN_DEVICES_RET_DOES_NOT_EXIST, s)
   | Some i \<Rightarrow> do {
       (d, m) \<leftarrow> acquire_device_handles (heap (net s)) (all_devices s ! i);
       (d, s) \<leftarrow> sasp_call (sasp_restore_from_backup L) d (with_heap m s);
       Some (MAIN_DEVICES_RET_OK, s\<lparr>all_devices := (all_devices s)[i := init_contexts L d]\<rparr>)
     })"

definition postinit_step ::
  "eeprom_lib \<Rightarrow> ('a, 'b) stack_lib \<Rightarrow> ('a, 'b) server \<Rightarrow> nat \<Rightarrow> ('a, 'b) server option" where
  "postinit_step K L s i = do {
     (d, m) \<leftarrow> acquire_device_handles (heap (net s)) (all_devices s ! i);
     (mem_h, m) \<leftarrow> acquire_valid_handle m;
     c \<leftarrow> send_sync_request_to_central_unit_to_get_data ((net s)\<lparr>heap := m\<rparr>) mem_h (dc_device_id d);
     po \<leftarrow> zepto_parser_init (heap c) mem_h;
     (full_sz, po) \<leftarrow> zepto_parsing_remaining_bytes (heap c) po;
     let s = s\<lparr>net := c\<rparr>;
     (d, s) \<leftarrow> (if full_sz \<ge> int (PERM_STORAGE_MIN_SIZE K) then sasp_call (sasp_restore_from_backup L) d s
              else sasp_call (sasp_init_eeprom_data_at_lifestart L) d s);
     Some (s\<lparr>all_devices := (all_devices s)[i := init_contexts L d]\<rparr>)
   }"

primrec postinit_devices ::
  "eeprom_lib \<Rightarrow> ('a, 'b) stack_lib \<Rightarrow> nat list \<Rightarrow> ('a, 'b) server \<Rightarrow> ('a, 'b) server option" where
  "postinit_devices K L [] s = Some s"
| "postinit_devices K L (i # is) s = do { s \<leftarrow> postinit_step K L s i; postinit_devices K L is s }"

definition main_postinit_all_devices ::
  "eeprom_lib \<Rightarrow> ('a, 'b) stack_lib \<Rightarrow> ('a, 'b) server \<Rightarrow> (u8 \<times> ('a, 'b) server) option" where
  "main_postinit_all_devices K L s = do {
     s \<leftarrow> postinit_devices K L [0..<length (all_devices s)] s;
     Some (MAIN_DEVICES_RET_OK, s)
   }"

definition release_stored_handle :: "mem \<Rightarrow> nat option \<Rightarrow> mem option" where
  "release_stored_handle m h = do { h \<leftarrow> h; release_memory_handle m h }"

definition main_remove_device ::
  "('a, 'b) stack_lib \<Rightarrow> ('a, 'b) server \<Rightarrow> u16 \<Rightarrow> (u8 \<times> ('a, 'b) server) option" where
  "main_remove_device L s dev_id = (case first_index (\<lambda>d. dc_device_id d = dev_id) (all_devices s) of
     None \<Rightarrow> Some (MAIN_DEVICES_RET_ALREADY_EXISTS, s)
   | Some i \<Rightarrow> do {
       let d = all_devices s ! i;
       m \<leftarrow> release_stored_handle (heap (net s)) (MEMORY_HANDLE_SAGDP_LSM_APP d);
       m \<leftarrow> release_stored_handle m (MEMORY_HANDLE_SAGDP_LSM_APP_SAOUDP_ADDR d);
       m \<leftarrow> release_stored_handle m (MEMORY_HANDLE_SAGDP_LSM_CTR d);
       m \<leftarrow> release_stored_handle m (MEMORY_HANDLE_SAGDP_LSM_CTR_SAOUDP_ADDR d);
       (d, s) \<leftarrow> sasp_call (handler_sasp_save_state L) d (with_heap m s);
       Some (MAIN_DEVICES_RET_OK, s\<lparr>all_devices := take i (all_devices s) @ drop (Suc i) (all_devices s)\<rparr>)
     })"

subsection \<open>Scheduled requests\<close>

definition main_add_scheduled_gdp_ctr_request ::
  "('a, 'b) server \<Rightarrow> nat \<Rightarrow> u16 \<Rightarrow> ('a, 'b) server option" where
  "main_add_scheduled_gdp_ctr_request s mem_h dev_id = do {
     (h, m) \<leftarrow> acquire_valid_handle (heap (net s));
     m \<leftarrow> zepto_copy_request_to_response_of_another_handle m mem_h h;
     m \<leftarrow> zepto_response_to_request m h;
     let rs = scheduled_gdp_ctr_request s @ [\<lparr>scr_mem_h = h, scr_device_id = dev_id\<rparr>];
     m \<leftarrow> zepto_parser_free_memory m mem_h;
     Some ((with_heap m s)\<lparr>scheduled_gdp_ctr_request := rs\<rparr>)
   }"

fun scheduled_loop ::
  "('a, 'b) stack_lib \<Rightarrow> ('a, 'b) server \<Rightarrow> nat \<Rightarrow> SCHEDULED_GDP_CTR_REQUEST list \<Rightarrow> SCHEDULED_GDP_CTR_REQUEST list \<Rightarrow>
   (nat option \<times> ('a, 'b) server) option" where
  "scheduled_loop L s mem_h seen [] = Some (None, s)"
| "scheduled_loop L s mem_h seen (it # rest) =
     (case main_get_device_data_by_device_id s (ucast (scr_device_id it)) of
        Some i \<Rightarrow>
          if sagdp_is_idle L (sagdp_context_ctr (all_devices s ! i)) then do {
            m \<leftarrow> zepto_parser_free_memory (heap (net s)) mem_h;
            m \<leftarrow> zepto_copy_request_to_response_of_another_handle m (scr_mem_h it) mem_h;
            m \<leftarrow> release_memory_handle m (scr_mem_h it);
            Some (Some i, (with_heap m s)\<lparr>scheduled_gdp_ctr_request := seen @ rest\<rparr>)
          }
          else scheduled_loop L s mem_h (seen @ [it]) rest
      | None \<Rightarrow> do {
          m \<leftarrow> release_memory_handle (heap (net s)) (scr_mem_h it);
          Some (None, (with_heap m s)\<lparr>scheduled_gdp_ctr_request := seen @ rest\<rparr>)
        })"

definition main_get_scheduled_gdp_ctr_request ::
  "('a, 'b) stack_lib \<Rightarrow> ('a, 'b) server \<Rightarrow> nat \<Rightarrow> (nat option \<times> ('a, 'b) server) option" where
  "main_get_scheduled_gdp_ctr_request L s mem_h = scheduled_loop L s mem_h [] (scheduled_gdp_ctr_request s)"

section \<open>Handles of the devices\<close>

definition device_handles :: "('a, 'b) DEVICE_CONTEXT \<Rightarrow> nat list" where
  "device_handles d = List.map_filter (\<lambda>h. h) [MEMORY_HANDLE_SAGDP_LSM_APP d, MEMORY_HANDLE_SAGDP_LSM_APP_SAOUDP_ADDR d,
     MEMORY_HANDLE_SAGDP_LSM_CTR d, MEMORY_HANDLE_SAGDP_LSM_CTR_SAOUDP_ADDR d]"

lemma device_handles_unchanged [simp]:
  "device_handles (d\<lparr>sasp_data := x\<rparr>) = device_handles d"
  "device_handles (d\<lparr>dc_device_id := k, AES_ENCRYPTION_KEY := key\<rparr>) = device_handles d"
  "device_handles (init_contexts L d) = device_handles d"
  by (simp_all add: device_handles_def init_contexts_def)

lemma init_contexts_id [simp]:
  "dc_device_id (init_contexts L d) = dc_device_id d" "AES_ENCRYPTION_KEY (init_contexts L d) = AES_ENCRYPTION_KEY d"
  by (simp_all add: init_contexts_def)

lemma with_heap_simps [simp]:
  "net (with_heap m s) = (net s)\<lparr>heap := m\<rparr>" "storage (with_heap m s) = storage s"
  "all_devices (with_heap m s) = all_devices s" "scheduled_gdp_ctr_request (with_heap m s) = scheduled_gdp_ctr_request s"
  "with_heap m' (with_heap m s) = with_heap m' s" "with_heap (heap (net s)) s = s"
  by (simp_all add: with_heap_def)

definition owned_handles :: "('a, 'b) server \<Rightarrow> nat list" where
  "owned_handles s = concat (map device_handles (all_devices s)) @ map scr_mem_h (scheduled_gdp_ctr_request s)"

text \<open>
  No two devices have the same id, and each handle that a device or a waiting request refers to is
  acquired and referred to nowhere else.
\<close>

definition server_ok :: "('a, 'b) server \<Rightarrow> bool" where
  "server_ok s \<longleftrightarrow> handles_inv (heap (net s)) \<and> distinct (map dc_device_id (all_devices s)) \<and> distinct (owned_handles s) \<and>
     (\<forall>h \<in> set (owned_handles s). MEMORY_HANDLE_MAX (heap (net s)) \<le> h \<and> messages (heap (net s)) h \<noteq> None)"

text \<open>What is relied on: a call of the library leaves the messages of all handles as they are.\<close>

definition keeps_messages :: "('a \<Rightarrow> u16 \<Rightarrow> stored \<Rightarrow> ('a \<times> stored) option) \<Rightarrow> bool" where
  "keeps_messages f \<longleftrightarrow> (\<forall>x k ds c x' ds' c'. handles_inv (heap c) \<longrightarrow> f x k (ds, c) = Some (x', ds', c') \<longrightarrow>
     handles_inv (heap c') \<and> messages (heap c') = messages (heap c) \<and> MEMORY_HANDLE_MAX (heap c') = MEMORY_HANDLE_MAX (heap c))"

lemma sasp_call_effect:
  assumes "keeps_messages f" "sasp_call f d s = Some (d', s')" "handles_inv (heap (net s))"
  obtains x where "d' = d\<lparr>sasp_data := x\<rparr>" "handles_inv (heap (net s'))" "messages (heap (net s')) = messages (heap (net s))"
    "MEMORY_HANDLE_MAX (heap (net s')) = MEMORY_HANDLE_MAX (heap (net s))" "all_devices s' = all_devices s"
    "scheduled_gdp_ctr_request s' = scheduled_gdp_ctr_request s"
proof -
  from assms(2) obtain x ds c where f: "f (sasp_data d) (dc_device_id d) (storage s, net s) = Some (x, ds, c)"
    and e: "d' = d\<lparr>sasp_data := x\<rparr>" "s' = s\<lparr>storage := ds, net := c\<rparr>"
    by (auto simp: sasp_call_def split: bind_splits)
  have "handles_inv (heap c) \<and> messages (heap c) = messages (heap (net s)) \<and> MEMORY_HANDLE_MAX (heap c) = MEMORY_HANDLE_MAX (heap (net s))"
    using assms(1,3) f unfolding keeps_messages_def by blast
  then show thesis using that e by simp
qed

lemma acquire_device_handles_effect:
  assumes "handles_inv m" "acquire_device_handles m d = Some (d', m')"
  obtains h1 h2 h3 h4 where "distinct [h1, h2, h3, h4]"
    "d' = d\<lparr>MEMORY_HANDLE_SAGDP_LSM_APP := Some h1, MEMORY_HANDLE_SAGDP_LSM_APP_SAOUDP_ADDR := Some h2,
       MEMORY_HANDLE_SAGDP_LSM_CTR := Some h3, MEMORY_HANDLE_SAGDP_LSM_CTR_SAOUDP_ADDR := Some h4\<rparr>"
    "handles_inv m'" "MEMORY_HANDLE_MAX m' = MEMORY_HANDLE_MAX m"
    "\<forall>h \<in> {h1, h2, h3, h4}. MEMORY_HANDLE_MAX m \<le> h \<and> messages m h = None"
    "messages m' = (messages m)(h1 \<mapsto> ([], []), h2 \<mapsto> ([], []), h3 \<mapsto> ([], []), h4 \<mapsto> ([], []))"
proof -
  from assms(2) obtain r1 m1 r2 m2 r3 m3 r4 where
    a: "acquire_memory_handle m = Some (r1, m1)" "acquire_memory_handle m1 = Some (r2, m2)"
      "acquire_memory_handle m2 = Some (r3, m3)" "acquire_memory_handle m3 = Some (r4, m')"
    and d: "d' = d\<lparr>MEMORY_HANDLE_SAGDP_LSM_APP := r1, MEMORY_HANDLE_SAGDP_LSM_APP_SAOUDP_ADDR := r2,
       MEMORY_HANDLE_SAGDP_LSM_CTR := r3, MEMORY_HANDLE_SAGDP_LSM_CTR_SAOUDP_ADDR := r4\<rparr>"
    by (auto simp: acquire_device_handles_def split: bind_splits)
  obtain h1 where 1: "r1 = Some h1" "handles_inv m1" "MEMORY_HANDLE_MAX m1 = MEMORY_HANDLE_MAX m" "MEMORY_HANDLE_MAX m \<le> h1"
    "messages m h1 = None" "messages m1 = (messages m)(h1 \<mapsto> ([], []))" by (rule acquire_messages [OF assms(1) a(1)])
  obtain h2 where 2: "r2 = Some h2" "handles_inv m2" "MEMORY_HANDLE_MAX m2 = MEMORY_HANDLE_MAX m1" "MEMORY_HANDLE_MAX m1 \<le> h2"
    "messages m1 h2 = None" "messages m2 = (messages m1)(h2 \<mapsto> ([], []))" by (rule acquire_messages [OF 1(2) a(2)])
  obtain h3 where 3: "r3 = Some h3" "handles_inv m3" "MEMORY_HANDLE_MAX m3 = MEMORY_HANDLE_MAX m2" "MEMORY_HANDLE_MAX m2 \<le> h3"
    "messages m2 h3 = None" "messages m3 = (messages m2)(h3 \<mapsto> ([], []))" by (rule acquire_messages [OF 2(2) a(3)])
  obtain h4 where 4: "r4 = Some h4" "handles_inv m'" "MEMORY_HANDLE_MAX m' = MEMORY_HANDLE_MAX m3" "MEMORY_HANDLE_MAX m3 \<le> h4"
    "messages m3 h4 = None" "messages m' = (messages m3)(h4 \<mapsto> ([], []))" by (rule acquire_messages [OF 3(2) a(4)])
  show thesis
    by (rule that [of h1 h2 h3 h4])
      (use 1 2 3 4 d in \<open>auto split: if_splits\<close>)
qed

lemma acquired_device_handles:
  assumes "handles_inv m" "acquire_device_handles m d = Some (d', m')"
  obtains "handles_inv m'" "MEMORY_HANDLE_MAX m' = MEMORY_HANDLE_MAX m" "dc_device_id d' = dc_device_id d"
    "distinct (device_handles d')" "\<forall>h \<in> set (device_handles d'). MEMORY_HANDLE_MAX m \<le> h \<and> messages m h = None"
    "messages m' = (\<lambda>h. if h \<in> set (device_handles d') then Some ([], []) else messages m h)"
  by (rule acquire_device_handles_effect [OF assms])
    (auto simp: device_handles_def List.map_filter_def fun_eq_iff)

lemma server_ok_grown:
  assumes ok: "server_ok s" and d: "dc_device_id d \<notin> dc_device_id ` set (all_devices s)"
    and new: "distinct (device_handles d)" "\<forall>h \<in> set (device_handles d). MEMORY_HANDLE_MAX (heap (net s)) \<le> h \<and> messages (heap (net s)) h = None"
    and s': "handles_inv (heap (net s'))" "MEMORY_HANDLE_MAX (heap (net s')) = MEMORY_HANDLE_MAX (heap (net s))"
      "messages (heap (net s')) = (\<lambda>h. if h \<in> set (device_handles d) then Some ([], []) else messages (heap (net s)) h)"
      "all_devices s' = all_devices s @ [d]" "scheduled_gdp_ctr_request s' = scheduled_gdp_ctr_request s"
  shows "server_ok s'"
proof -
  have "set (device_handles d) \<inter> set (owned_handles s) = {}" using ok new(2) by (auto simp: server_ok_def)
  then have "distinct (owned_handles s')" "set (owned_handles s') = set (device_handles d) \<union> set (owned_handles s)"
    using ok new(1) s'(4,5) by (auto simp: server_ok_def owned_handles_def)
  then show ?thesis using ok d new(2) s' by (auto simp: server_ok_def)
qed

lemma add_new_device_ok:
  assumes ok: "server_ok s" and lib: "keeps_messages (sasp_init_eeprom_data_at_lifestart L)"
    and run: "main_add_new_device L blank s k key = Some (r, s')"
  shows "server_ok s'"
proof (cases "list_ex (\<lambda>d. dc_device_id d = k) (all_devices s)")
  case True
  then show ?thesis using ok run by (simp add: main_add_new_device_def)
next
  case False
  then obtain d m d1 s1 where d: "acquire_device_handles (heap (net s)) (blank\<lparr>dc_device_id := k, AES_ENCRYPTION_KEY := key\<rparr>) = Some (d, m)"
    and call: "sasp_call (sasp_init_eeprom_data_at_lifestart L) d (with_heap m s) = Some (d1, s1)"
    and s': "s' = s1\<lparr>all_devices := all_devices s1 @ [init_contexts L d1]\<rparr>"
    using run by (auto simp: main_add_new_device_def Let_def split: bind_splits)
  have inv: "handles_inv (heap (net s))" using ok by (simp add: server_ok_def)
  obtain acq: "handles_inv m" "MEMORY_HANDLE_MAX m = MEMORY_HANDLE_MAX (heap (net s))" "dc_device_id d = k"
    "distinct (device_handles d)" "\<forall>h \<in> set (device_handles d). MEMORY_HANDLE_MAX (heap (net s)) \<le> h \<and> messages (heap (net s)) h = None"
    "messages m = (\<lambda>h. if h \<in> set (device_handles d) then Some ([], []) else messages (heap (net s)) h)"
    by (rule acquired_device_handles [OF inv d]) simp
  obtain x where x: "d1 = d\<lparr>sasp_data := x\<rparr>" "handles_inv (heap (net s1))" "messages (heap (net s1)) = messages m"
    "MEMORY_HANDLE_MAX (heap (net s1)) = MEMORY_HANDLE_MAX m" "all_devices s1 = all_devices s"
    "scheduled_gdp_ctr_request s1 = scheduled_gdp_ctr_request s"
    by (rule sasp_call_effect [OF lib call]) (use acq(1) in simp_all)
  show ?thesis
    by (rule server_ok_grown [OF ok, of "init_contexts L d1"]) (use False acq x s' in \<open>auto simp: list_ex_iff\<close>)
qed

lemma first_index_split:
  assumes "first_index P xs = Some i"
  obtains ys x zs where "xs = ys @ x # zs" "length ys = i" "P x" "xs ! i = x" "take i xs @ drop (Suc i) xs = ys @ zs"
    "\<And>y. xs[i := y] = ys @ y # zs"
proof -
  from assms have i: "i < length xs" "P (xs ! i)" by (auto simp: first_index_Some)
  then have "xs = take i xs @ xs ! i # drop (Suc i) xs" by (simp add: id_take_nth_drop [symmetric])
  then show thesis using that [of "take i xs" "xs ! i" "drop (Suc i) xs"] i by (simp add: upd_conv_take_nth_drop)
qed

lemma release_stored_messages:
  assumes "handles_inv m" "release_stored_handle m h = Some m'"
    "\<And>h'. h = Some h' \<Longrightarrow> MEMORY_HANDLE_MAX m \<le> h' \<and> messages m h' \<noteq> None"
  obtains h' where "h = Some h'" "handles_inv m'" "MEMORY_HANDLE_MAX m' = MEMORY_HANDLE_MAX m" "messages m' = (messages m)(h' := None)"
proof -
  obtain h' where h': "h = Some h'" using assms(2) by (cases h) (simp_all add: release_stored_handle_def)
  obtain m1 where "release_memory_handle m h' = Some m1" "handles_inv m1" "MEMORY_HANDLE_MAX m1 = MEMORY_HANDLE_MAX m"
    "messages m1 = (messages m)(h' := None)" by (rule release_messages [OF assms(1), of h']) (use assms(3) h' in auto)
  then show thesis using that h' assms(2) by (simp add: release_stored_handle_def)
qed

text \<open>The four handles of a device that has been initialised are released, and no others.\<close>

definition release_device_handles :: "mem \<Rightarrow> ('a, 'b) DEVICE_CONTEXT \<Rightarrow> mem option" where
  "release_device_handles m d = do {
     m \<leftarrow> release_stored_handle m (MEMORY_HANDLE_SAGDP_LSM_APP d);
     m \<leftarrow> release_stored_handle m (MEMORY_HANDLE_SAGDP_LSM_APP_SAOUDP_ADDR d);
     m \<leftarrow> release_stored_handle m (MEMORY_HANDLE_SAGDP_LSM_CTR d);
     release_stored_handle m (MEMORY_HANDLE_SAGDP_LSM_CTR_SAOUDP_ADDR d)
   }"

lemma remove_device_unfold:
  "main_remove_device L s k = (case first_index (\<lambda>d. dc_device_id d = k) (all_devices s) of
     None \<Rightarrow> Some (MAIN_DEVICES_RET_ALREADY_EXISTS, s)
   | Some i \<Rightarrow> do {
       m \<leftarrow> release_device_handles (heap (net s)) (all_devices s ! i);
       (d, s) \<leftarrow> sasp_call (handler_sasp_save_state L) (all_devices s ! i) (with_heap m s);
       Some (MAIN_DEVICES_RET_OK, s\<lparr>all_devices := take i (all_devices s) @ drop (Suc i) (all_devices s)\<rparr>)
     })"
  by (simp add: main_remove_device_def release_device_handles_def Let_def split: option.split)

lemma release_device_messages:
  assumes "handles_inv m" "length (device_handles d) = 4" "distinct (device_handles d)"
    "\<forall>h \<in> set (device_handles d). MEMORY_HANDLE_MAX m \<le> h \<and> messages m h \<noteq> None"
  obtains m' where "release_device_handles m d = Some m'" "handles_inv m'" "MEMORY_HANDLE_MAX m' = MEMORY_HANDLE_MAX m"
    "messages m' = (\<lambda>h. if h \<in> set (device_handles d) then None else messages m h)" "free_space m \<le> free_space m'"
proof -
  obtain h1 h2 h3 h4 where h: "MEMORY_HANDLE_SAGDP_LSM_APP d = Some h1" "MEMORY_HANDLE_SAGDP_LSM_APP_SAOUDP_ADDR d = Some h2"
    "MEMORY_HANDLE_SAGDP_LSM_CTR d = Some h3" "MEMORY_HANDLE_SAGDP_LSM_CTR_SAOUDP_ADDR d = Some h4"
    using assms(2) by (auto simp: device_handles_def List.map_filter_def split: if_splits option.splits)
  have hs: "device_handles d = [h1, h2, h3, h4]" by (simp add: device_handles_def h List.map_filter_def)
  note all = assms(3,4)[unfolded hs]
  obtain m1 where 1: "release_memory_handle m h1 = Some m1" "handles_inv m1" "MEMORY_HANDLE_MAX m1 = MEMORY_HANDLE_MAX m"
    "messages m1 = (messages m)(h1 := None)" "free_space m \<le> free_space m1" by (rule release_messages [OF assms(1), of h1]) (use all in simp_all)
  obtain m2 where 2: "release_memory_handle m1 h2 = Some m2" "handles_inv m2" "MEMORY_HANDLE_MAX m2 = MEMORY_HANDLE_MAX m1"
    "messages m2 = (messages m1)(h2 := None)" "free_space m1 \<le> free_space m2" by (rule release_messages [OF 1(2), of h2]) (use all 1 in simp_all)
  obtain m3 where 3: "release_memory_handle m2 h3 = Some m3" "handles_inv m3" "MEMORY_HANDLE_MAX m3 = MEMORY_HANDLE_MAX m2"
    "messages m3 = (messages m2)(h3 := None)" "free_space m2 \<le> free_space m3" by (rule release_messages [OF 2(2), of h3]) (use all 1 2 in simp_all)
  obtain m4 where 4: "release_memory_handle m3 h4 = Some m4" "handles_inv m4" "MEMORY_HANDLE_MAX m4 = MEMORY_HANDLE_MAX m3"
    "messages m4 = (messages m3)(h4 := None)" "free_space m3 \<le> free_space m4" by (rule release_messages [OF 3(2), of h4]) (use all 1 2 3 in simp_all)
  show thesis
    by (rule that [of m4]) (use 1 2 3 4 h hs in \<open>simp_all add: release_device_handles_def release_stored_handle_def fun_eq_iff\<close>)
qed

lemma device_handles_four: "release_device_handles m d = Some m' \<Longrightarrow> length (device_handles d) = 4"
  by (auto simp: release_device_handles_def release_stored_handle_def device_handles_def List.map_filter_def split: bind_splits)

lemma owned_handles_split:
  assumes "all_devices s = xs @ d # ys" "all_devices s' = xs @ ds @ ys" "scheduled_gdp_ctr_request s' = scheduled_gdp_ctr_request s"
    "distinct (owned_handles s)" "distinct (concat (map device_handles ds))"
    "set (concat (map device_handles ds)) \<inter> set (owned_handles s) = {}"
  shows "distinct (owned_handles s')"
    "set (owned_handles s') = set (concat (map device_handles ds)) \<union> (set (owned_handles s) - set (device_handles d))"
    "set (device_handles d) \<subseteq> set (owned_handles s)" "distinct (device_handles d)"
proof -
  let ?rest = "concat (map device_handles xs) @ concat (map device_handles ys) @ map scr_mem_h (scheduled_gdp_ctr_request s)"
  have s: "set (owned_handles s) = set (device_handles d) \<union> set ?rest"
    and dist: "distinct (device_handles d)" "distinct ?rest" "set (device_handles d) \<inter> set ?rest = {}"
    using assms(1,4) by (auto simp: owned_handles_def)
  have s': "set (owned_handles s') = set (concat (map device_handles ds)) \<union> set ?rest"
    using assms(2,3) by (auto simp: owned_handles_def)
  show "distinct (device_handles d)" "set (device_handles d) \<subseteq> set (owned_handles s)" using s dist by simp_all
  show "set (owned_handles s') = set (concat (map device_handles ds)) \<union> (set (owned_handles s) - set (device_handles d))"
    unfolding s s' using dist(3) by blast
  have "set (concat (map device_handles ds)) \<inter> set ?rest = {}" using assms(6) s by blast
  then show "distinct (owned_handles s')" using assms(2,3,5) dist(2) by (auto simp: owned_handles_def)
qed

lemma removed_device:
  assumes ok: "server_ok s" and lib: "keeps_messages (handler_sasp_save_state L)"
    and i: "first_index (\<lambda>d. dc_device_id d = k) (all_devices s) = Some i"
    and run: "main_remove_device L s k = Some (r, s')"
  shows "r = MAIN_DEVICES_RET_OK \<and> server_ok s' \<and> all_devices s' = take i (all_devices s) @ drop (Suc i) (all_devices s) \<and>
    scheduled_gdp_ctr_request s' = scheduled_gdp_ctr_request s \<and>
    messages (heap (net s')) = (\<lambda>h. if h \<in> set (device_handles (all_devices s ! i)) then None else messages (heap (net s)) h)"
proof -
  obtain xs d ys where ds: "all_devices s = xs @ d # ys" "all_devices s ! i = d" "take i (all_devices s) @ drop (Suc i) (all_devices s) = xs @ ys"
    using first_index_split [OF i] by metis
  have dist: "distinct (owned_handles s)" and inv: "handles_inv (heap (net s))" using ok by (simp_all add: server_ok_def)
  note own = owned_handles_split [OF ds(1), of _ "[]", simplified, OF _ _ dist]
  have mine: "set (device_handles d) \<subseteq> set (owned_handles s)" "distinct (device_handles d)"
    using own(3,4) [of "s\<lparr>all_devices := xs @ ys\<rparr>"] by simp_all
  have four: "length (device_handles d) = 4" using run i ds(2) device_handles_four by (auto simp: remove_device_unfold split: bind_splits)
  obtain m where m: "release_device_handles (heap (net s)) d = Some m" "handles_inv m"
    "MEMORY_HANDLE_MAX m = MEMORY_HANDLE_MAX (heap (net s))"
    "messages m = (\<lambda>h. if h \<in> set (device_handles d) then None else messages (heap (net s)) h)"
    by (rule release_device_messages [OF inv, of d]) (use mine four ds(2) ok in \<open>auto simp: server_ok_def\<close>)
  obtain d1 s1 where call: "sasp_call (handler_sasp_save_state L) d (with_heap m s) = Some (d1, s1)"
    and s': "s' = s1\<lparr>all_devices := take i (all_devices s1) @ drop (Suc i) (all_devices s1)\<rparr>" "r = MAIN_DEVICES_RET_OK"
    using run m(1) i ds(2) by (auto simp: remove_device_unfold split: bind_splits)
  obtain x where x: "handles_inv (heap (net s1))" "messages (heap (net s1)) = messages m"
    "MEMORY_HANDLE_MAX (heap (net s1)) = MEMORY_HANDLE_MAX m" "all_devices s1 = all_devices s"
    "scheduled_gdp_ctr_request s1 = scheduled_gdp_ctr_request s"
    by (rule sasp_call_effect [OF lib call]) (use m(2) in simp_all)
  have dev: "all_devices s' = xs @ ys" "scheduled_gdp_ctr_request s' = scheduled_gdp_ctr_request s" using s' x ds(3) by simp_all
  have "distinct (map dc_device_id (all_devices s'))" using ok ds(1) dev by (simp add: server_ok_def)
  then have "server_ok s'" using own(1,2) [OF dev] x m s' ok by (simp add: server_ok_def)
  then show ?thesis using x m s' dev ds by simp
qed

lemma preinit_device_ok:
  assumes "server_ok s" "device_handles blank = []"
  shows "server_ok (snd (main_preinit_device K a blank s k key))"
  using assms by (auto simp: main_preinit_device_def server_ok_def owned_handles_def list_ex_iff)

lemma postinit_device_ok:
  assumes ok: "server_ok s" and lib: "keeps_messages (sasp_restore_from_backup L)"
    and run: "main_postinit_device L s k = Some (r, s')"
  shows "server_ok s'"
proof (cases "first_index (\<lambda>d. dc_device_id d = k) (all_devices s)")
  case None
  then show ?thesis using ok run by (simp add: main_postinit_device_def)
next
  case (Some i)
  obtain xs d0 ys where ds: "all_devices s = xs @ d0 # ys" "all_devices s ! i = d0" "\<And>y. (all_devices s)[i := y] = xs @ y # ys"
    by (rule first_index_split [OF Some]) (rule that, assumption+)
  obtain d m d1 s1 where d: "acquire_device_handles (heap (net s)) d0 = Some (d, m)"
    and call: "sasp_call (sasp_restore_from_backup L) d (with_heap m s) = Some (d1, s1)"
    and s': "s' = s1\<lparr>all_devices := (all_devices s1)[i := init_contexts L d1]\<rparr>"
    using run Some ds(2) by (auto simp: main_postinit_device_def split: bind_splits)
  have inv: "handles_inv (heap (net s))" and dist: "distinct (owned_handles s)" using ok by (simp_all add: server_ok_def)
  obtain acq: "handles_inv m" "MEMORY_HANDLE_MAX m = MEMORY_HANDLE_MAX (heap (net s))" "dc_device_id d = dc_device_id d0"
    "distinct (device_handles d)" "\<forall>h \<in> set (device_handles d). MEMORY_HANDLE_MAX (heap (net s)) \<le> h \<and> messages (heap (net s)) h = None"
    "messages m = (\<lambda>h. if h \<in> set (device_handles d) then Some ([], []) else messages (heap (net s)) h)"
    by (rule acquired_device_handles [OF inv d]) simp
  obtain x where x: "d1 = d\<lparr>sasp_data := x\<rparr>" "handles_inv (heap (net s1))" "messages (heap (net s1)) = messages m"
    "MEMORY_HANDLE_MAX (heap (net s1)) = MEMORY_HANDLE_MAX m" "all_devices s1 = all_devices s"
    "scheduled_gdp_ctr_request s1 = scheduled_gdp_ctr_request s"
    by (rule sasp_call_effect [OF lib call]) (use acq(1) in simp_all)
  have dev: "all_devices s' = xs @ [init_contexts L d1] @ ys" "scheduled_gdp_ctr_request s' = scheduled_gdp_ctr_request s"
    using s' x ds(3) by simp_all
  have h: "device_handles d1 = device_handles d" using x(1) by simp
  have new: "set (device_handles d) \<inter> set (owned_handles s) = {}" using ok acq(5) by (auto simp: server_ok_def)
  note own = owned_handles_split [OF ds(1) dev dist, simplified h device_handles_unchanged list.map concat.simps append_Nil2, OF acq(4) new]
  have "map dc_device_id (all_devices s') = map dc_device_id (all_devices s)" using ds(1) dev acq(3) x(1) by simp
  then show ?thesis using own(1,2) x acq s' ok by (auto simp: server_ok_def)
qed

section \<open>Scheduled requests\<close>

lemma scheduled_request:
  assumes room: "has_room (heap (net s)) M n k" "M k \<noteq> None" and view: "M h = Some (rq, rsp)" and n: "17 + int (length rq) \<le> n"
  obtains h' s' where "main_add_scheduled_gdp_ctr_request s h dev_id = Some s'" "M h' = None" "k \<le> h'"
    "has_room (heap (net s')) (M(h \<mapsto> ([], []), h' \<mapsto> (rq, []))) (n - 17 - int (length rq)) k"
    "s' = (with_heap (heap (net s')) s)\<lparr>scheduled_gdp_ctr_request := scheduled_gdp_ctr_request s @ [\<lparr>scr_mem_h = h', scr_device_id = dev_id\<rparr>]\<rparr>"
proof -
  obtain h' m1 where 1: "acquire_valid_handle (heap (net s)) = Some (h', m1)" "M h' = None" "k \<le> h'"
    "has_room m1 (M(h' \<mapsto> ([], []))) (n - 17) k" by (rule room_acquire [OF room]) (use n in auto)
  have ne: "h \<noteq> h'" using view 1(2) by auto
  have v: "(M(h' \<mapsto> ([], []))) h = Some (rq, rsp)" using ne view by simp
  obtain m2 where 2: "zepto_copy_request_to_response_of_another_handle m1 h h' = Some m2"
    "has_room m2 (M(h' \<mapsto> ([], rq))) (n - 17 - int (length rq)) k"
    by (rule room_copy_request [OF 1(4) fun_upd_same v ne, unfolded fun_upd_upd]) (use n in simp_all)
  obtain m3 where 3: "zepto_response_to_request m2 h' = Some m3" "has_room m3 (M(h' \<mapsto> (rq, []))) (n - 17 - int (length rq)) k"
    by (rule room_hand_over [OF 2(2) fun_upd_same, unfolded fun_upd_upd])
  have v3: "(M(h' \<mapsto> (rq, []))) h = Some (rq, rsp)" using ne view by simp
  obtain m4 where 4: "zepto_parser_free_memory m3 h = Some m4"
    "has_room m4 (M(h' \<mapsto> (rq, []), h \<mapsto> ([], []))) (n - 17 - int (length rq)) k" by (rule room_free [OF 3(2) v3])
  have "M(h' \<mapsto> (rq, []), h \<mapsto> ([], [])) = M(h \<mapsto> ([], []), h' \<mapsto> (rq, []))" using ne by (rule fun_upd_twist [symmetric])
  then show thesis
    using that [of "(with_heap m4 s)\<lparr>scheduled_gdp_ctr_request := scheduled_gdp_ctr_request s @ [\<lparr>scr_mem_h = h', scr_device_id = dev_id\<rparr>]\<rparr>" h']
      1 2 3 4 by (simp add: main_add_scheduled_gdp_ctr_request_def with_heap_def)
qed

text \<open>A request is decided when its device is idle or gone; those before it stay.\<close>

definition device_idle :: "('a, 'b) stack_lib \<Rightarrow> ('a, 'b) server \<Rightarrow> SCHEDULED_GDP_CTR_REQUEST \<Rightarrow> bool option" where
  "device_idle L s r = map_option (\<lambda>i. sagdp_is_idle L (sagdp_context_ctr (all_devices s ! i)))
     (main_get_device_data_by_device_id s (ucast (scr_device_id r)))"

lemma scheduled_loop_busy:
  assumes "\<forall>r \<in> set rs. device_idle L s r = Some False"
  shows "scheduled_loop L s h seen (rs @ rest) = scheduled_loop L s h (seen @ rs) rest"
  using assms by (induction rs arbitrary: seen) (auto simp: device_idle_def split: option.splits)

lemma get_scheduled_none:
  assumes "\<forall>r \<in> set (scheduled_gdp_ctr_request s). device_idle L s r = Some False"
  shows "main_get_scheduled_gdp_ctr_request L s h = Some (None, s)"
  using scheduled_loop_busy [OF assms, of h "[]" "[]"] by (simp add: main_get_scheduled_gdp_ctr_request_def)

lemma get_scheduled_idle:
  assumes rs: "scheduled_gdp_ctr_request s = rs @ r # rest" "\<forall>r \<in> set rs. device_idle L s r = Some False"
    and r: "main_get_device_data_by_device_id s (ucast (scr_device_id r)) = Some i" "device_idle L s r = Some True"
    and room: "has_room (heap (net s)) M n k" and view: "M h = Some c" and stored: "M (scr_mem_h r) = Some (rq, rsp)" "k \<le> scr_mem_h r"
    and ne: "scr_mem_h r \<noteq> h" and n: "int (length rq) \<le> n"
  shows "\<exists>m. main_get_scheduled_gdp_ctr_request L s h = Some (Some i, (with_heap m s)\<lparr>scheduled_gdp_ctr_request := rs @ rest\<rparr>) \<and>
    has_room m (M(h \<mapsto> ([], rq), scr_mem_h r := None)) 0 k"
proof -
  obtain m1 where 1: "zepto_parser_free_memory (heap (net s)) h = Some m1" "has_room m1 (M(h \<mapsto> ([], []))) n k"
    by (rule room_free [OF room view])
  have v: "(M(h \<mapsto> ([], []))) (scr_mem_h r) = Some (rq, rsp)" using ne stored by simp
  obtain m2 where 2: "zepto_copy_request_to_response_of_another_handle m1 (scr_mem_h r) h = Some m2"
    "has_room m2 (M(h \<mapsto> ([], rq))) (n - int (length rq)) k"
    by (rule room_copy_request [OF 1(2) fun_upd_same v ne, unfolded fun_upd_upd]) (use n in simp_all)
  obtain m3 where 3: "release_memory_handle m2 (scr_mem_h r) = Some m3" "has_room m3 (M(h \<mapsto> ([], rq), scr_mem_h r := None)) 0 k"
    by (rule room_release [OF 2(2), of "scr_mem_h r"]) (use ne stored in simp_all)
  have "sagdp_is_idle L (sagdp_context_ctr (all_devices s ! i))" using r by (simp add: device_idle_def)
  then show ?thesis
    using scheduled_loop_busy [OF rs(2), of h "[]" "r # rest"] rs(1) r(1) 1(1) 2(1) 3
    by (auto simp: main_get_scheduled_gdp_ctr_request_def)
qed

lemma get_scheduled_orphan:
  assumes rs: "scheduled_gdp_ctr_request s = rs @ r # rest" "\<forall>r \<in> set rs. device_idle L s r = Some False"
    and r: "device_idle L s r = None"
    and room: "has_room (heap (net s)) M n k" and stored: "M (scr_mem_h r) \<noteq> None" "k \<le> scr_mem_h r"
  shows "\<exists>m. main_get_scheduled_gdp_ctr_request L s h = Some (None, (with_heap m s)\<lparr>scheduled_gdp_ctr_request := rs @ rest\<rparr>) \<and>
    has_room m (M(scr_mem_h r := None)) 0 k"
proof -
  obtain m1 where 1: "release_memory_handle (heap (net s)) (scr_mem_h r) = Some m1" "has_room m1 (M(scr_mem_h r := None)) 0 k"
    by (rule room_release [OF room stored])
  have "main_get_device_data_by_device_id s (ucast (scr_device_id r)) = None" using r by (simp add: device_idle_def)
  then show ?thesis
    using scheduled_loop_busy [OF rs(2), of h "[]" "r # rest"] rs(1) 1 by (auto simp: main_get_scheduled_gdp_ctr_request_def)
qed

text \<open>The handle that is worked with is none of those that are acquired.\<close>

lemma working_handle_not_owned: "server_ok s \<Longrightarrow> h < MEMORY_HANDLE_MAX (heap (net s)) \<Longrightarrow> h \<notin> set (owned_handles s)"
  by (auto simp: server_ok_def)

lemma has_room_now:
  assumes "handles_inv m"
  shows "has_room m (messages m) (free_space m) (MEMORY_HANDLE_MAX m)"
  using assms free_space_nonneg [of m] by (simp add: has_room_def handles_inv_def)

lemma add_scheduled_ok:
  assumes ok: "server_ok s" and h: "h < MEMORY_HANDLE_MAX (heap (net s))" "messages (heap (net s)) h = Some (rq, rsp)"
    and room: "17 + int (length rq) \<le> free_space (heap (net s))" "messages (heap (net s)) (MEMORY_HANDLE_MAX (heap (net s))) \<noteq> None"
    and run: "main_add_scheduled_gdp_ctr_request s h k = Some s'"
  shows "server_ok s'"
proof -
  have inv: "handles_inv (heap (net s))" using ok by (simp add: server_ok_def)
  obtain h' s1 where s1: "main_add_scheduled_gdp_ctr_request s h k = Some s1" and h': "messages (heap (net s)) h' = None" "MEMORY_HANDLE_MAX (heap (net s)) \<le> h'"
    "has_room (heap (net s1)) ((messages (heap (net s)))(h \<mapsto> ([], []), h' \<mapsto> (rq, []))) (free_space (heap (net s)) - 17 - int (length rq)) (MEMORY_HANDLE_MAX (heap (net s)))"
    and e: "s1 = (with_heap (heap (net s1)) s)\<lparr>scheduled_gdp_ctr_request := scheduled_gdp_ctr_request s @ [\<lparr>scr_mem_h = h', scr_device_id = k\<rparr>]\<rparr>"
    by (rule scheduled_request [OF has_room_now [OF inv] room(2) h(2) room(1)])
  have dev: "all_devices s1 = all_devices s" "scheduled_gdp_ctr_request s1 = scheduled_gdp_ctr_request s @ [\<lparr>scr_mem_h = h', scr_device_id = k\<rparr>]"
    using arg_cong [OF e, of all_devices] arg_cong [OF e, of scheduled_gdp_ctr_request] by simp_all
  have own: "owned_handles s1 = owned_handles s @ [h']" by (simp add: owned_handles_def dev)
  have new: "h' \<notin> set (owned_handles s)" using ok h'(1) by (auto simp: server_ok_def)
  have "server_ok s1" using ok h'(2,3) own new dev by (auto simp: server_ok_def has_room_def)
  then show ?thesis using run s1 by simp
qed

lemma removed_request_ok:
  assumes ok: "server_ok s" and rs: "scheduled_gdp_ctr_request s = rs @ r # rest"
    and s': "all_devices s' = all_devices s" "scheduled_gdp_ctr_request s' = rs @ rest" "handles_inv (heap (net s'))"
      "MEMORY_HANDLE_MAX (heap (net s')) = MEMORY_HANDLE_MAX (heap (net s))"
      "\<And>h. h \<in> set (owned_handles s) \<Longrightarrow> h \<noteq> scr_mem_h r \<Longrightarrow> messages (heap (net s')) h = messages (heap (net s)) h"
  shows "server_ok s'"
proof -
  have dist: "distinct (owned_handles s)" using ok by (simp add: server_ok_def)
  then have own: "distinct (owned_handles s')" "set (owned_handles s') \<subseteq> set (owned_handles s) - {scr_mem_h r}"
    using rs s'(1,2) by (auto simp: owned_handles_def)
  have "messages (heap (net s')) h \<noteq> None \<and> MEMORY_HANDLE_MAX (heap (net s')) \<le> h" if "h \<in> set (owned_handles s')" for h
  proof -
    have "h \<in> set (owned_handles s)" "h \<noteq> scr_mem_h r" using own(2) that by auto
    then show ?thesis using s'(5) [of h] s'(4) ok by (simp add: server_ok_def)
  qed
  then show ?thesis using ok own(1) s'(1,3) by (simp add: server_ok_def)
qed

lemma scheduled_split:
  assumes "\<not> (\<forall>r \<in> set rs0. device_idle L s r = Some False)"
  obtains rs r rest where "rs0 = rs @ r # rest" "\<forall>r \<in> set rs. device_idle L s r = Some False" "device_idle L s r \<noteq> Some False"
  using split_list_first_prop [of rs0 "\<lambda>r. device_idle L s r \<noteq> Some False"] assms by blast

lemma get_scheduled_ok:
  assumes ok: "server_ok s" and h: "h < MEMORY_HANDLE_MAX (heap (net s))" "messages (heap (net s)) h \<noteq> None"
    and room: "\<forall>r \<in> set (scheduled_gdp_ctr_request s). \<forall>rq rsp. messages (heap (net s)) (scr_mem_h r) = Some (rq, rsp) \<longrightarrow>
      int (length rq) \<le> free_space (heap (net s))"
    and run: "main_get_scheduled_gdp_ctr_request L s h = Some (d, s')"
  shows "server_ok s'"
proof (cases "\<forall>r \<in> set (scheduled_gdp_ctr_request s). device_idle L s r = Some False")
  case True
  then show ?thesis using get_scheduled_none [OF True, of h] run ok by simp
next
  case False
  then obtain rs r rest where rs: "scheduled_gdp_ctr_request s = rs @ r # rest" "\<forall>r \<in> set rs. device_idle L s r = Some False"
    "device_idle L s r \<noteq> Some False" by (rule scheduled_split)
  let ?m = "heap (net s)"
  have inv: "handles_inv ?m" using ok by (simp add: server_ok_def)
  have r: "scr_mem_h r \<in> set (owned_handles s)" using rs(1) by (simp add: owned_handles_def)
  then obtain rq rsp where stored: "messages ?m (scr_mem_h r) = Some (rq, rsp)" "MEMORY_HANDLE_MAX ?m \<le> scr_mem_h r"
    using ok by (fastforce simp: server_ok_def)
  have ne: "scr_mem_h r \<noteq> h" using working_handle_not_owned [OF ok h(1)] r by auto
  have "\<exists>i m. main_get_scheduled_gdp_ctr_request L s h = Some (i, (with_heap m s)\<lparr>scheduled_gdp_ctr_request := rs @ rest\<rparr>) \<and>
    handles_inv m \<and> MEMORY_HANDLE_MAX m = MEMORY_HANDLE_MAX ?m \<and>
    (\<forall>h'. h' \<in> set (owned_handles s) \<longrightarrow> h' \<noteq> scr_mem_h r \<longrightarrow> messages m h' = messages ?m h')"
  proof (cases "device_idle L s r")
    case None
    obtain m where "main_get_scheduled_gdp_ctr_request L s h = Some (None, (with_heap m s)\<lparr>scheduled_gdp_ctr_request := rs @ rest\<rparr>)"
      "has_room m ((messages ?m)(scr_mem_h r := None)) 0 (MEMORY_HANDLE_MAX ?m)"
      using get_scheduled_orphan [OF rs(1,2) None has_room_now [OF inv]] stored by auto
    then show ?thesis by (auto simp: has_room_def)
  next
    case (Some idle)
    then obtain i where i: "main_get_device_data_by_device_id s (ucast (scr_device_id r)) = Some i" and idle: "device_idle L s r = Some True"
      using rs(3) by (cases idle) (auto simp: device_idle_def)
    have fit: "int (length rq) \<le> free_space ?m" using room stored(1) rs(1) by simp
    obtain c where c: "messages ?m h = Some c" using h(2) by auto
    obtain m where "main_get_scheduled_gdp_ctr_request L s h = Some (Some i, (with_heap m s)\<lparr>scheduled_gdp_ctr_request := rs @ rest\<rparr>)"
      "has_room m ((messages ?m)(h \<mapsto> ([], rq), scr_mem_h r := None)) 0 (MEMORY_HANDLE_MAX ?m)"
      using get_scheduled_idle [OF rs(1,2) i idle has_room_now [OF inv] c stored ne fit] by auto
    then show ?thesis using working_handle_not_owned [OF ok h(1)] by (auto simp: has_room_def)
  qed
  then obtain m where "s' = (with_heap m s)\<lparr>scheduled_gdp_ctr_request := rs @ rest\<rparr>" "handles_inv m" "MEMORY_HANDLE_MAX m = MEMORY_HANDLE_MAX ?m"
    "\<And>h'. h' \<in> set (owned_handles s) \<Longrightarrow> h' \<noteq> scr_mem_h r \<Longrightarrow> messages m h' = messages ?m h'" using run by auto
  then show ?thesis by (intro removed_request_ok [OF ok rs(1)]) simp_all
qed

section \<open>Initialisation after a start\<close>

text \<open>
  The data that are fetched for a device are left in the response, and the request is measured: the
  data of a device are never taken over.
\<close>

lemma postinit_step_never_restores:
  assumes "PERM_STORAGE_MIN_SIZE K \<noteq> 0"
  shows "postinit_step K (L\<lparr>sasp_restore_from_backup := f\<rparr>) s i = postinit_step K L s i"
proof -
  have no: "\<not> int (PERM_STORAGE_MIN_SIZE K) \<le> n"
    if "send_sync_request_to_central_unit_to_get_data c h k = Some c'" "zepto_parser_init (heap c') h = Some po"
      "zepto_parsing_remaining_bytes (heap c') po = Some (n, po')" for c h k c' po n po'
    using fetched_nothing_to_parse [OF that] assms by simp
  show ?thesis unfolding postinit_step_def
    by (auto simp: Let_def init_contexts_def intro!: Option.bind_cong refl dest: no)
qed

lemma postinit_never_restores:
  assumes "PERM_STORAGE_MIN_SIZE K \<noteq> 0"
  shows "postinit_devices K (L\<lparr>sasp_restore_from_backup := f\<rparr>) is s = postinit_devices K L is s"
  by (induction "is" arbitrary: s) (simp_all add: postinit_step_never_restores [OF assms] cong: Option.bind_cong)

section \<open>Adding\<close>

text \<open>What is relied on when a call of the library has to return.\<close>

definition returns :: "('a \<Rightarrow> u16 \<Rightarrow> stored \<Rightarrow> ('a \<times> stored) option) \<Rightarrow> bool" where
  "returns f \<longleftrightarrow> (\<forall>x k ds c. handles_inv (heap c) \<longrightarrow> f x k (ds, c) \<noteq> None)"

lemma acquire_device_handles_fit:
  assumes "has_room m M n k" "M k \<noteq> None" "68 \<le> n"
  obtains d' m' where "acquire_device_handles m d = Some (d', m')" "length (device_handles d') = 4" "n - 68 \<le> free_space m'"
proof -
  have valid: "acquire_memory_handle m = Some (Some h, m')" if "acquire_valid_handle m = Some (h, m')" for m h m'
    using that by (auto simp: acquire_valid_handle_def split: bind_splits)
  obtain h1 m1 where 1: "acquire_valid_handle m = Some (h1, m1)" "has_room m1 (M(h1 \<mapsto> ([], []))) (n - 17) k"
    by (rule room_acquire [OF assms(1,2)]) (use assms(3) in auto)
  obtain h2 m2 where 2: "acquire_valid_handle m1 = Some (h2, m2)" "has_room m2 (M(h1 \<mapsto> ([], []), h2 \<mapsto> ([], []))) (n - 17 - 17) k"
    by (rule room_acquire [OF 1(2)]) (use assms(2,3) in auto)
  obtain h3 m3 where 3: "acquire_valid_handle m2 = Some (h3, m3)"
    "has_room m3 (M(h1 \<mapsto> ([], []), h2 \<mapsto> ([], []), h3 \<mapsto> ([], []))) (n - 17 - 17 - 17) k"
    by (rule room_acquire [OF 2(2)]) (use assms(2,3) in auto)
  obtain h4 m4 where 4: "acquire_valid_handle m3 = Some (h4, m4)"
    "has_room m4 (M(h1 \<mapsto> ([], []), h2 \<mapsto> ([], []), h3 \<mapsto> ([], []), h4 \<mapsto> ([], []))) (n - 17 - 17 - 17 - 17) k"
    by (rule room_acquire [OF 3(2)]) (use assms(2,3) in auto)
  show thesis using that [of "d\<lparr>MEMORY_HANDLE_SAGDP_LSM_APP := Some h1, MEMORY_HANDLE_SAGDP_LSM_APP_SAOUDP_ADDR := Some h2,
       MEMORY_HANDLE_SAGDP_LSM_CTR := Some h3, MEMORY_HANDLE_SAGDP_LSM_CTR_SAOUDP_ADDR := Some h4\<rparr>" m4]
    using valid [OF 1(1)] valid [OF 2(1)] valid [OF 3(1)] valid [OF 4(1)] 4(2)
    by (simp add: acquire_device_handles_def device_handles_def List.map_filter_def has_room_def)
qed

lemma add_new_device_effect:
  assumes ok: "server_ok s" and new: "k \<notin> dc_device_id ` set (all_devices s)"
    and room: "68 \<le> free_space (heap (net s))" "messages (heap (net s)) (MEMORY_HANDLE_MAX (heap (net s))) \<noteq> None"
    and lib: "returns (sasp_init_eeprom_data_at_lifestart L)" "keeps_messages (sasp_init_eeprom_data_at_lifestart L)"
  obtains d s' where "main_add_new_device L blank s k key = Some (MAIN_DEVICES_RET_OK, s')" "server_ok s'"
    "all_devices s' = all_devices s @ [d]" "dc_device_id d = k" "AES_ENCRYPTION_KEY d = key" "length (device_handles d) = 4"
    "scheduled_gdp_ctr_request s' = scheduled_gdp_ctr_request s"
    "\<forall>h \<in> set (device_handles d). messages (heap (net s)) h = None"
    "messages (heap (net s')) = (\<lambda>h. if h \<in> set (device_handles d) then Some ([], []) else messages (heap (net s)) h)"
proof -
  let ?d = "blank\<lparr>dc_device_id := k, AES_ENCRYPTION_KEY := key\<rparr>"
  have inv: "handles_inv (heap (net s))" using ok by (simp add: server_ok_def)
  have hr: "has_room (heap (net s)) (messages (heap (net s))) (free_space (heap (net s))) (MEMORY_HANDLE_MAX (heap (net s)))"
    using inv room(1) by (simp add: has_room_def)
  obtain d m where d: "acquire_device_handles (heap (net s)) ?d = Some (d, m)" and four: "length (device_handles d) = 4"
    by (rule acquire_device_handles_fit [OF hr room(2,1)])
  obtain acq: "handles_inv m" "MEMORY_HANDLE_MAX m = MEMORY_HANDLE_MAX (heap (net s))" "dc_device_id d = k"
    "\<forall>h \<in> set (device_handles d). MEMORY_HANDLE_MAX (heap (net s)) \<le> h \<and> messages (heap (net s)) h = None"
    "messages m = (\<lambda>h. if h \<in> set (device_handles d) then Some ([], []) else messages (heap (net s)) h)"
    by (rule acquired_device_handles [OF inv d]) simp
  have key: "AES_ENCRYPTION_KEY d = key" by (rule acquire_device_handles_effect [OF inv d]) simp
  obtain d1 s1 where call: "sasp_call (sasp_init_eeprom_data_at_lifestart L) d (with_heap m s) = Some (d1, s1)"
    using lib(1) acq(1) by (fastforce simp: returns_def sasp_call_def split: Option.bind_split)
  obtain x where x: "d1 = d\<lparr>sasp_data := x\<rparr>" "handles_inv (heap (net s1))" "messages (heap (net s1)) = messages m"
    "MEMORY_HANDLE_MAX (heap (net s1)) = MEMORY_HANDLE_MAX m" "all_devices s1 = all_devices s"
    "scheduled_gdp_ctr_request s1 = scheduled_gdp_ctr_request s"
    by (rule sasp_call_effect [OF lib(2) call]) (use acq(1) in simp_all)
  let ?s' = "s1\<lparr>all_devices := all_devices s1 @ [init_contexts L d1]\<rparr>"
  have run: "main_add_new_device L blank s k key = Some (MAIN_DEVICES_RET_OK, ?s')"
    using new d call by (auto simp: main_add_new_device_def Let_def list_ex_iff)
  show thesis
    by (rule that [OF run add_new_device_ok [OF ok lib(2) run], of "init_contexts L d1"])
      (use x acq four key in simp_all)
qed

lemma remove_device_returns:
  assumes ok: "server_ok s" and i: "first_index (\<lambda>d. dc_device_id d = k) (all_devices s) = Some i"
    and four: "length (device_handles (all_devices s ! i)) = 4" and lib: "returns (handler_sasp_save_state L)"
  obtains s' where "main_remove_device L s k = Some (MAIN_DEVICES_RET_OK, s')"
proof -
  obtain xs d ys where ds: "all_devices s = xs @ d # ys" "all_devices s ! i = d" using first_index_split [OF i] by metis
  have inv: "handles_inv (heap (net s))" and dist: "distinct (owned_handles s)" using ok by (simp_all add: server_ok_def)
  have mine: "set (device_handles d) \<subseteq> set (owned_handles s)" "distinct (device_handles d)"
    using owned_handles_split(3,4) [OF ds(1), of "s\<lparr>all_devices := xs @ ys\<rparr>" "[]"] dist by simp_all
  obtain m where m: "release_device_handles (heap (net s)) d = Some m" "handles_inv m"
    by (rule release_device_messages [OF inv, of d]) (use mine four ds(2) ok in \<open>auto simp: server_ok_def\<close>)
  obtain d1 s1 where "sasp_call (handler_sasp_save_state L) d (with_heap m s) = Some (d1, s1)"
    using lib m(2) by (fastforce simp: returns_def sasp_call_def split: Option.bind_split)
  then show thesis using that m(1) i ds(2) by (simp add: remove_device_unfold)
qed

end
