(* ===== verification/Main_State.thy ===== *)
theory Main_State
  imports Devices Mesh_Routes
begin

text \<open>
  What \<open>main_loop\<close> (\<open>sa_client_comm_stack.c\<close>) works on: its local variables, the codes and handlers
  of the protocol library, and the calls of a handler on the context of a device. The handlers are
  parameters; each takes and returns what it can reach through its pointers.
\<close>

section \<open>Codes\<close>

datatype sasp_ret = SASP_RET_NONCE | SASP_RET_TO_LOWER_REGULAR | SASP_RET_TO_LOWER_ERROR | SASP_RET_TO_HIGHER_NEW
  | SASP_RET_TO_HIGHER_LAST_SEND_FAILED | SASP_RET_IGNORE_PACKET_BROKEN | SASP_RET_IGNORE_PACKET_LAST_REPEATED
  | SASP_RET_IGNORE_PACKET_NONCE_LS_NOT_APPLIED | SASP_RET_OTHER

datatype sagdp_ret = SAGDP_RET_OK | SAGDP_RET_NEED_NONCE | SAGDP_RET_SYS_CORRUPTED | SAGDP_RET_TO_HIGHER
  | SAGDP_RET_TO_LOWER_NEW | SAGDP_RET_TO_LOWER_REPEATED | SAGDP_RET_TO_LOWER_NONE | SAGDP_RET_OTHER

datatype saoudp_ret = SAOUDP_RET_OK | SAOUDP_RET_OTHER

definition COMMLAYER_FROM_CU_STATUS_FOR_SLAVE :: u8 where "COMMLAYER_FROM_CU_STATUS_FOR_SLAVE = 38"
definition COMMLAYER_FROM_CU_STATUS_FROM_SLAVE :: u8 where "COMMLAYER_FROM_CU_STATUS_FROM_SLAVE = 40"
definition COMMLAYER_FROM_CU_STATUS_INITIALIZER :: u8 where "COMMLAYER_FROM_CU_STATUS_INITIALIZER = 50"
definition COMMLAYER_FROM_CU_STATUS_INITIALIZER_LAST :: u8 where "COMMLAYER_FROM_CU_STATUS_INITIALIZER_LAST = 51"
definition COMMLAYER_FROM_CU_STATUS_ADD_DEVICE :: u8 where "COMMLAYER_FROM_CU_STATUS_ADD_DEVICE = 55"
definition COMMLAYER_FROM_CU_STATUS_REMOVE_DEVICE :: u8 where "COMMLAYER_FROM_CU_STATUS_REMOVE_DEVICE = 60"
definition COMMLAYER_FROM_CU_STATUS_GET_DEV_PERF_COUNTERS_REQUEST :: u8 where
  "COMMLAYER_FROM_CU_STATUS_GET_DEV_PERF_COUNTERS_REQUEST = 70"
definition COMMLAYER_TO_CU_STATUS_OK :: u8 where "COMMLAYER_TO_CU_STATUS_OK = 0"
definition COMMLAYER_TO_CU_STATUS_FAILED_EXISTS :: u8 where "COMMLAYER_TO_CU_STATUS_FAILED_EXISTS = 1"
definition COMMLAYER_TO_CU_STATUS_FAILED_INCOMPLETE_OR_CORRUPTED_DATA :: u8 where
  "COMMLAYER_TO_CU_STATUS_FAILED_INCOMPLETE_OR_CORRUPTED_DATA = 2"
definition COMMLAYER_TO_CU_STATUS_FAILED_UNKNOWN_REASON :: u8 where "COMMLAYER_TO_CU_STATUS_FAILED_UNKNOWN_REASON = 3"
definition COMMLAYER_TO_CU_STATUS_FAILED_UNEXPECTED_PACKET :: u8 where
  "COMMLAYER_TO_CU_STATUS_FAILED_UNEXPECTED_PACKET = 4"

section \<open>State\<close>

text \<open>
  The handle constants of \<open>working_handle\<close> are fields of the library record, as are the values that
  memory has before it is initialised and the results of \<open>new\<close>. \<open>nonce\<close> and \<open>pid\<close> are the bytes of
  these variables; \<open>clock\<close> holds what the next calls of \<open>HAL_GET_TIME\<close> find.
\<close>

record ('a, 'b) main_state =
  srv :: "('a, 'b) server"
  currt :: sa_time_val
  wait_for :: waiting_for
  working_resend_cnt :: u8
  pid :: "u8 list"
  nonce :: "u8 list"
  device :: "nat option"
  dev_in_use :: u16
  bus_id :: u16
  target_device_id :: u16
  for_ctr :: bool
  param :: u16
  clock :: "sa_time_val list"

text \<open>The arguments and results of a handler of the guaranteed delivery protocol besides its return code.\<close>

record 'b gdp_world =
  gdp_currt :: sa_time_val
  gdp_wait_for :: waiting_for
  gdp_context :: 'b
  gdp_resend_cnt :: u8
  gdp_heap :: mem

type_synonym 'b gdp_handler =
  "u8 list option \<Rightarrow> nat \<Rightarrow> nat \<Rightarrow> nat option \<Rightarrow> nat option \<Rightarrow> 'b gdp_world \<Rightarrow> (sagdp_ret \<times> 'b gdp_world) option"

record mesh_world =
  mw_currt :: sa_time_val
  mw_wait_for :: waiting_for
  mw_mesh :: mesh
  mw_heap :: mem

record ('a, 'b) main_lib =
  stack :: "('a, 'b) stack_lib"
  eeprom :: eeprom_lib
  mesh_consts :: mesh_lib
  MEMORY_HANDLE_MAIN_LOOP_1 :: nat
  MEMORY_HANDLE_MAIN_LOOP_1_SAOUDP_ADDR :: nat
  MEMORY_HANDLE_MAIN_LOOP_2_SAOUDP_ADDR :: nat
  MEMORY_HANDLE_MESH_ACK :: nat
  uninitialised_device :: "('a, 'b) DEVICE_CONTEXT"
  uninitialised_time :: sa_time_val
  new_storage :: "u8 list option"
  SACCP_PHY_AND_ROUTING_DATA :: u8
  SACCP_STATS_REQUEST :: u8
  SACCP_STATS_RESPONSE :: u8
  handler_sasp_get_packet_id :: "'a \<Rightarrow> u16 \<Rightarrow> stored \<Rightarrow> (sasp_ret \<times> u8 list \<times> 'a \<times> stored) option"
  handler_sasp_send :: "u8 list \<Rightarrow> u8 list \<Rightarrow> nat \<Rightarrow> 'a \<Rightarrow> stored \<Rightarrow> (sasp_ret \<times> 'a \<times> stored) option"
  handler_sasp_receive :: "u8 list \<Rightarrow> u8 list \<Rightarrow> nat \<Rightarrow> 'a \<Rightarrow> u16 \<Rightarrow> stored \<Rightarrow> (sasp_ret \<times> u8 list \<times> 'a \<times> stored) option"
  handler_saoudp_send :: "nat \<Rightarrow> nat \<Rightarrow> mem \<Rightarrow> (saoudp_ret \<times> mem) option"
  handler_saoudp_receive :: "nat \<Rightarrow> nat \<Rightarrow> mem \<Rightarrow> (saoudp_ret \<times> mem) option"
  handler_sagdp_timer :: "'b gdp_handler"
  handler_sagdp_receive_hlp :: "'b gdp_handler"
  handler_sagdp_receive_request_resend_lsp :: "'b gdp_handler"
  handler_sagdp_receive_up :: "u8 list \<Rightarrow> 'b gdp_handler"
  handler_sagdp_is_up_packet_ctr :: "nat \<Rightarrow> mem \<Rightarrow> bool option"
  handler_siot_mesh_timer :: "nat \<Rightarrow> u16 \<Rightarrow> u16 \<Rightarrow> mesh_world \<Rightarrow> (mesh_ret \<times> u16 \<times> u16 \<times> mesh_world) option"
  handler_siot_mesh_receive_packet :: "nat \<Rightarrow> nat \<Rightarrow> u16 \<Rightarrow> u16 \<Rightarrow> u8 \<Rightarrow> u8 \<Rightarrow> mesh_world \<Rightarrow>
    (mesh_ret \<times> u16 \<times> u16 \<times> mesh_world) option"
  handler_siot_mesh_send_packet :: "bool \<Rightarrow> u16 \<Rightarrow> nat \<Rightarrow> u8 \<Rightarrow> u16 \<Rightarrow> mesh_world \<Rightarrow> (mesh_ret \<times> u16 \<times> mesh_world) option"
  handler_siot_mesh_process_route_update_response :: "u16 \<Rightarrow> nat \<Rightarrow> mesh_world \<Rightarrow> mesh_world option"

section \<open>Access to the parts\<close>

abbreviation main_heap :: "('a, 'b) main_state \<Rightarrow> mem" where
  "main_heap s \<equiv> heap (net (srv s))"

definition set_heap :: "mem \<Rightarrow> ('a, 'b) main_state \<Rightarrow> ('a, 'b) main_state" where
  "set_heap m s = s\<lparr>srv := with_heap m (srv s)\<rparr>"

definition set_net :: "comm \<Rightarrow> ('a, 'b) main_state \<Rightarrow> ('a, 'b) main_state" where
  "set_net c s = s\<lparr>srv := (srv s)\<lparr>net := c\<rparr>\<rparr>"

definition set_stored :: "stored \<Rightarrow> ('a, 'b) main_state \<Rightarrow> ('a, 'b) main_state" where
  "set_stored st s = s\<lparr>srv := (srv s)\<lparr>storage := fst st, net := snd st\<rparr>\<rparr>"

definition get_stored :: "('a, 'b) main_state \<Rightarrow> stored" where
  "get_stored s = (storage (srv s), net (srv s))"

definition set_device :: "nat \<Rightarrow> ('a, 'b) DEVICE_CONTEXT \<Rightarrow> ('a, 'b) main_state \<Rightarrow> ('a, 'b) main_state" where
  "set_device i d s = s\<lparr>srv := (srv s)\<lparr>all_devices := (all_devices (srv s))[i := d]\<rparr>\<rparr>"

text \<open>The device a pointer leads to; a null pointer cannot be followed.\<close>

definition the_device :: "('a, 'b) main_state \<Rightarrow> (nat \<times> ('a, 'b) DEVICE_CONTEXT) option" where
  "the_device s = do { i \<leftarrow> device s; d \<leftarrow> item (all_devices (srv s)) i; Some (i, d) }"

definition get_world :: "('a, 'b) main_state \<Rightarrow> mesh_world" where
  "get_world s = \<lparr>mw_currt = currt s, mw_wait_for = wait_for s, mw_mesh = mesh_root (srv s), mw_heap = main_heap s\<rparr>"

definition set_world :: "mesh_world \<Rightarrow> ('a, 'b) main_state \<Rightarrow> ('a, 'b) main_state" where
  "set_world w s = s\<lparr>currt := mw_currt w, wait_for := mw_wait_for w,
     srv := (with_heap (mw_heap w) (srv s))\<lparr>mesh_root := mw_mesh w\<rparr>\<rparr>"

definition HAL_GET_TIME :: "('a, 'b) main_state \<Rightarrow> ('a, 'b) main_state option" where
  "HAL_GET_TIME s = (case clock s of [] \<Rightarrow> None | t # ts \<Rightarrow> Some (s\<lparr>currt := t, clock := ts\<rparr>))"

definition set_infinite_wait :: "('a, 'b) main_state \<Rightarrow> ('a, 'b) main_state" where
  "set_infinite_wait s = s\<lparr>wait_for := (wait_for s)\<lparr>wait_time_high_t := 0xFFFF, wait_time_low_t := 0xFFFF\<rparr>\<rparr>"

text \<open>Frequent calls: handing over the message of a handle, sending the one of a handle.\<close>

definition hand_over :: "nat \<Rightarrow> ('a, 'b) main_state \<Rightarrow> ('a, 'b) main_state option" where
  "hand_over h s = do { m \<leftarrow> zepto_response_to_request (main_heap s) h; Some (set_heap m s) }"

definition write_byte :: "nat \<Rightarrow> u8 \<Rightarrow> ('a, 'b) main_state \<Rightarrow> ('a, 'b) main_state option" where
  "write_byte h b s = do { m \<leftarrow> zepto_write_uint8 (main_heap s) h b; Some (set_heap m s) }"

definition sending :: "(comm \<Rightarrow> (u8 \<times> comm) option) \<Rightarrow> ('a, 'b) main_state \<Rightarrow> (u8 \<times> ('a, 'b) main_state) option" where
  "sending f s = do { (ret, c) \<leftarrow> f (net (srv s)); Some (ret, set_net c s) }"

text \<open>A packet from the central unit; \<open>param\<close> is written only if a header has been read.\<close>

definition receive_from_central_unit ::
  "('a, 'b) main_lib \<Rightarrow> ('a, 'b) main_state \<Rightarrow> (u8 \<times> ('a, 'b) main_state) option" where
  "receive_from_central_unit L s = do {
     (ret, p, c) \<leftarrow> try_get_message_within_master (net (srv s)) (MEMORY_HANDLE_MAIN_LOOP_1 L);
     let s = set_net c s;
     Some (ret, case p of None \<Rightarrow> s | Some v \<Rightarrow> s\<lparr>param := v\<rparr>)
   }"

definition wait_event :: "('a, 'b) main_state \<Rightarrow> (u8 \<times> ('a, 'b) main_state) option" where
  "wait_event s = do {
     (ret, c) \<leftarrow> wait_for_communication_event (net (srv s)) (wait_for s);
     Some (ret, set_infinite_wait (set_net c s))
   }"

end
