(* ===== verification/Init_Loop.thy ===== *)
theory Init_Loop
  imports Main_State
begin

text \<open>
  The initialisation of the server (\<open>main_loop\<close> of \<open>sa_client_comm_stack.c\<close>, up to its main loop):
  the central unit sends one packet for each device and a last one with their number, and the server
  answers when it has all of them.
\<close>

section \<open>The packet of a device\<close>

text \<open>
  The fields of a packet that describes a device, as both loops parse it: the packet can be too
  short for the device id, or malformed otherwise. The array for the bus types has 16 bytes.
\<close>

record device_fields =
  df_key :: "u8 list"
  df_is_retransmitter :: u8
  df_bus_id_max :: u8
  df_bus_type_cnt :: u8

definition parse_dev_id :: "mem \<Rightarrow> parser_obj \<Rightarrow> (u16 \<times> parser_obj) option" where
  "parse_dev_id m po = do {
     (tmp, po) \<leftarrow> zepto_parse_uint8 m po;
     (hi, po) \<leftarrow> zepto_parse_uint8 m po;
     let dev_id = (ucast hi :: u16);
     let dev_id = push_bit 8 dev_id;
     let dev_id = dev_id + ucast tmp;
     Some (dev_id, po)
   }"

definition parse_device_fields :: "mem \<Rightarrow> parser_obj \<Rightarrow> (device_fields \<times> parser_obj) option" where
  "parse_device_fields m po = do {
     (key, po) \<leftarrow> zepto_parse_read_block m po 16;
     key \<leftarrow> key;
     (is_retransmitter, po) \<leftarrow> zepto_parse_uint8 m po;
     (bus_id_max, po) \<leftarrow> zepto_parse_uint8 m po;
     (bus_type_cnt, po) \<leftarrow> zepto_parse_uint8 m po;
     Some (\<lparr>df_key = key, df_is_retransmitter = is_retransmitter, df_bus_id_max = bus_id_max, df_bus_type_cnt = bus_type_cnt\<rparr>, po)
   }"

definition parse_bus_types :: "mem \<Rightarrow> parser_obj \<Rightarrow> u8 \<Rightarrow> u8 list option" where
  "parse_bus_types m po cnt = do {
     (bus_types, po) \<leftarrow> zepto_parse_read_block m po (uint cnt);
     bus_types \<leftarrow> bus_types;
     assert (length bus_types \<le> 16);
     Some bus_types
   }"

definition add_to_mesh ::
  "('a, 'b) main_lib \<Rightarrow> ('a, 'b) main_state \<Rightarrow> u16 \<Rightarrow> device_fields \<Rightarrow> u8 list \<Rightarrow> ('a, 'b) main_state option" where
  "add_to_mesh L s dev_id f bus_types = do {
     let (ret2, mesh) = siot_mesh_at_root_add_device (uninitialised_time L) (mesh_root (srv s)) dev_id
       (df_is_retransmitter f) (ucast (df_bus_id_max f)) bus_types;
     assert (ret2 = SIOT_MESH_AT_ROOT_RET_OK);
     Some (s\<lparr>srv := (srv s)\<lparr>mesh_root := mesh\<rparr>\<rparr>)
   }"

section \<open>The loop\<close>

datatype init_result = Init_go_on | Init_loop_done | Init_returned

text \<open>A reply with the code \<open>b\<close> that ends the program, with the code of the completion of adding.\<close>

definition init_failed ::
  "nat \<Rightarrow> u8 \<Rightarrow> ('a, 'b) main_state \<Rightarrow> (init_result \<times> ('a, 'b) main_state) option" where
  "init_failed init_reply_h b s = do {
     s \<leftarrow> write_byte init_reply_h b s;
     s \<leftarrow> hand_over init_reply_h s;
     (_, s) \<leftarrow> sending (\<lambda>c. send_device_add_completion_to_central_unit c init_reply_h (param s)) s;
     Some (Init_returned, s)
   }"

definition init_unexpected ::
  "nat \<Rightarrow> ('a, 'b) main_state \<Rightarrow> (init_result \<times> ('a, 'b) main_state) option" where
  "init_unexpected init_reply_h s = do {
     s \<leftarrow> write_byte init_reply_h COMMLAYER_TO_CU_STATUS_FAILED_UNEXPECTED_PACKET s;
     (_, s) \<leftarrow> sending (\<lambda>c. send_device_initialization_completion_to_central_unit c (param s) init_reply_h) s;
     Some (Init_returned, s)
   }"

definition init_device_packet ::
  "('a, 'b) main_lib \<Rightarrow> nat \<Rightarrow> u16 \<Rightarrow> ('a, 'b) main_state \<Rightarrow> (init_result \<times> u16 \<times> ('a, 'b) main_state) option" where
  "init_device_packet L init_reply_h ini_cnt s = do {
     let h = MEMORY_HANDLE_MAIN_LOOP_1 L;
     let failed = (\<lambda>b s. do { (r, s) \<leftarrow> init_failed init_reply_h b s; Some (r, ini_cnt, s) });
     s \<leftarrow> hand_over h s;
     po \<leftarrow> zepto_parser_init (main_heap s) h;
     (packet_sz, po) \<leftarrow> zepto_parsing_remaining_bytes (main_heap s) po;
     if packet_sz < 2 then failed COMMLAYER_TO_CU_STATUS_FAILED_INCOMPLETE_OR_CORRUPTED_DATA s
     else do {
       (dev_id, po) \<leftarrow> parse_dev_id (main_heap s) po;
       s \<leftarrow> write_byte h (ucast dev_id) s;
       s \<leftarrow> write_byte h (ucast (drop_bit 8 dev_id)) s;
       if packet_sz < 22 then failed COMMLAYER_TO_CU_STATUS_FAILED_INCOMPLETE_OR_CORRUPTED_DATA s
       else do {
         (f, po) \<leftarrow> parse_device_fields (main_heap s) po;
         if df_bus_type_cnt f = 0 \<or> packet_sz \<noteq> 21 + uint (df_bus_type_cnt f)
         then failed COMMLAYER_TO_CU_STATUS_FAILED_INCOMPLETE_OR_CORRUPTED_DATA s
         else do {
           let (ret1, sv) = main_preinit_device (eeprom L) (new_storage L) (uninitialised_device L) (srv s) dev_id (df_key f);
           let s = s\<lparr>srv := sv\<rparr>;
           if ret1 = MAIN_DEVICES_RET_OK then do {
             s \<leftarrow> write_byte h COMMLAYER_TO_CU_STATUS_OK s;
             bus_types \<leftarrow> parse_bus_types (main_heap s) po (df_bus_type_cnt f);
             s \<leftarrow> add_to_mesh L s dev_id f bus_types;
             Some (Init_go_on, ini_cnt + 1, s)
           } else failed (if ret1 = MAIN_DEVICES_RET_ALREADY_EXISTS then COMMLAYER_TO_CU_STATUS_FAILED_EXISTS
                          else COMMLAYER_TO_CU_STATUS_FAILED_UNKNOWN_REASON) s
         }
       }
     }
   }"

definition init_packet ::
  "('a, 'b) main_lib \<Rightarrow> nat \<Rightarrow> u16 \<Rightarrow> ('a, 'b) main_state \<Rightarrow> (init_result \<times> u16 \<times> ('a, 'b) main_state) option" where
  "init_packet L init_reply_h ini_cnt s = do {
     (ret_code1, s) \<leftarrow> receive_from_central_unit L s;
     if ret_code1 = COMMLAYER_RET_FAILED then Some (Init_returned, ini_cnt, s)
     else if ret_code1 = COMMLAYER_FROM_CU_STATUS_INITIALIZER then init_device_packet L init_reply_h ini_cnt s
     else if ret_code1 = COMMLAYER_FROM_CU_STATUS_INITIALIZER_LAST then Some (Init_loop_done, ini_cnt, s)
     else if ret_code1 = COMMLAYER_FROM_CU_STATUS_FROM_SLAVE then Some (Init_go_on, ini_cnt, s)
     else do { (r, s) \<leftarrow> init_unexpected init_reply_h s; Some (r, ini_cnt, s) }
   }"

definition init_body ::
  "('a, 'b) main_lib \<Rightarrow> nat \<Rightarrow> u16 \<Rightarrow> ('a, 'b) main_state \<Rightarrow> (init_result \<times> u16 \<times> ('a, 'b) main_state) option" where
  "init_body L init_reply_h ini_cnt s = do {
     (ret_code, s) \<leftarrow> wait_event s;
     if ret_code = COMMLAYER_RET_FROM_CENTRAL_UNIT then init_packet L init_reply_h ini_cnt s
     else if ret_code = COMMLAYER_RET_TIMEOUT then Some (Init_go_on, ini_cnt, s)
     else if ret_code = COMMLAYER_RET_FAILED then Some (Init_returned, ini_cnt, s)
     else None
   }"

partial_function (option) init_loop ::
  "('a, 'b) main_lib \<Rightarrow> nat \<Rightarrow> u16 \<Rightarrow> ('a, 'b) main_state \<Rightarrow> (init_result \<times> u16 \<times> ('a, 'b) main_state) option" where
  "init_loop L init_reply_h ini_cnt s = do {
     (r, ini_cnt, s) \<leftarrow> init_body L init_reply_h ini_cnt s;
     if r = Init_go_on then init_loop L init_reply_h ini_cnt s else Some (r, ini_cnt, s)
   }"

section \<open>Before and behind the loop\<close>

text \<open>The result is whether the server goes on; otherwise \<open>main_loop\<close> returns 0.\<close>

definition init_completion ::
  "('a, 'b) main_lib \<Rightarrow> nat \<Rightarrow> u16 \<Rightarrow> ('a, 'b) main_state \<Rightarrow> (bool \<times> ('a, 'b) main_state) option" where
  "init_completion L init_reply_h ini_cnt s = do {
     s \<leftarrow> write_byte init_reply_h (if ini_cnt = param s then COMMLAYER_TO_CU_STATUS_OK
       else COMMLAYER_TO_CU_STATUS_FAILED_UNKNOWN_REASON) s;
     s \<leftarrow> hand_over init_reply_h s;
     (_, s) \<leftarrow> sending (\<lambda>c. send_device_initialization_completion_to_central_unit c ini_cnt init_reply_h) s;
     if ini_cnt = param s then do {
       m \<leftarrow> release_memory_handle (main_heap s) init_reply_h;
       Some (True, set_heap m s)
     } else Some (False, s)
   }"

definition initialise_server ::
  "('a, 'b) main_lib \<Rightarrow> ('a, 'b) main_state \<Rightarrow> (bool \<times> ('a, 'b) main_state) option" where
  "initialise_server L s = do {
     s \<leftarrow> write_byte (MEMORY_HANDLE_MAIN_LOOP_1_SAOUDP_ADDR L) 0 s;
     s \<leftarrow> hand_over (MEMORY_HANDLE_MAIN_LOOP_1_SAOUDP_ADDR L) s;
     s \<leftarrow> write_byte (MEMORY_HANDLE_MAIN_LOOP_2_SAOUDP_ADDR L) 0 s;
     s \<leftarrow> hand_over (MEMORY_HANDLE_MAIN_LOOP_2_SAOUDP_ADDR L) s;
     let s = s\<lparr>wait_for := \<lparr>wait_time_high_t = 0xFFFF, wait_time_low_t = 0xFFFF, wait_packet = 1\<rparr>,
       working_resend_cnt := 0, for_ctr := False, bus_id := 0xFFFF\<rparr>;
     s \<leftarrow> HAL_GET_TIME s;
     let s = s\<lparr>srv := (srv s)\<lparr>mesh_root := siot_mesh_at_root_init (mesh_consts L) (uninitialised_time L) (currt s) (mesh_root (srv s))\<rparr>\<rparr>;
     (init_reply_h, m) \<leftarrow> acquire_valid_handle (main_heap s);
     (r, ini_cnt, s) \<leftarrow> init_loop L init_reply_h 0 (set_heap m s);
     if r = Init_returned then Some (False, s)
     else do {
       (ok, s) \<leftarrow> init_completion L init_reply_h ini_cnt s;
       if ok then do {
         (_, sv) \<leftarrow> main_postinit_all_devices (eeprom L) (stack L) (srv s);
         Some (True, s\<lparr>srv := sv\<rparr>)
       } else Some (False, s)
     }
   }"

end
