(* ===== verification/Main_Loop.thy ===== *)
theory Main_Loop
  imports Init_Loop
begin

text \<open>
  The main loop of the server (\<open>main_loop\<close> of \<open>sa_client_comm_stack.c\<close>): the code behind each of its
  labels as a function on the state, from the last one backwards. The result of a part is \<open>None\<close>
  inside the pair when the loop goes on at \<open>wait_for_comm_event\<close>, and the value that \<open>main_loop\<close>
  returns otherwise.
\<close>

type_synonym ('a, 'b) part = "('a, 'b) main_state \<Rightarrow> (int option \<times> ('a, 'b) main_state) option"

section \<open>Calls on the context of a device\<close>

text \<open>Both contexts of guaranteed delivery, for control packets and for those of the application.\<close>

definition context_of :: "bool \<Rightarrow> ('a, 'b) DEVICE_CONTEXT \<Rightarrow> 'b" where
  "context_of ctr d = (if ctr then sagdp_context_ctr d else sagdp_context_app d)"

definition set_context :: "bool \<Rightarrow> 'b \<Rightarrow> ('a, 'b) DEVICE_CONTEXT \<Rightarrow> ('a, 'b) DEVICE_CONTEXT" where
  "set_context ctr x d = (if ctr then d\<lparr>sagdp_context_ctr := x\<rparr> else d\<lparr>sagdp_context_app := x\<rparr>)"

definition lsm_handle :: "bool \<Rightarrow> ('a, 'b) DEVICE_CONTEXT \<Rightarrow> nat option" where
  "lsm_handle ctr d = (if ctr then MEMORY_HANDLE_SAGDP_LSM_CTR d else MEMORY_HANDLE_SAGDP_LSM_APP d)"

definition lsm_addr_handle :: "bool \<Rightarrow> ('a, 'b) DEVICE_CONTEXT \<Rightarrow> nat option" where
  "lsm_addr_handle ctr d = (if ctr then MEMORY_HANDLE_SAGDP_LSM_CTR_SAOUDP_ADDR d else MEMORY_HANDLE_SAGDP_LSM_APP_SAOUDP_ADDR d)"

definition call_gdp ::
  "('a, 'b) main_lib \<Rightarrow> 'b gdp_handler \<Rightarrow> bool \<Rightarrow> u8 list option \<Rightarrow> ('a, 'b) main_state \<Rightarrow> (sagdp_ret \<times> ('a, 'b) main_state) option" where
  "call_gdp L f ctr nonce_arg s = do {
     (i, d) \<leftarrow> the_device s;
     (ret, w) \<leftarrow> f nonce_arg (MEMORY_HANDLE_MAIN_LOOP_1 L) (MEMORY_HANDLE_MAIN_LOOP_1_SAOUDP_ADDR L)
       (lsm_handle ctr d) (lsm_addr_handle ctr d)
       \<lparr>gdp_currt = currt s, gdp_wait_for = wait_for s, gdp_context = context_of ctr d,
        gdp_resend_cnt = working_resend_cnt s, gdp_heap = main_heap s\<rparr>;
     let s = set_device i (set_context ctr (gdp_context w) d) (set_heap (gdp_heap w) s);
     Some (ret, s\<lparr>currt := gdp_currt w, wait_for := gdp_wait_for w, working_resend_cnt := gdp_resend_cnt w\<rparr>)
   }"

text \<open>A new packet id is asked of the security protocol and kept in \<open>nonce\<close>.\<close>

definition get_packet_id :: "('a, 'b) main_lib \<Rightarrow> ('a, 'b) main_state \<Rightarrow> ('a, 'b) main_state option" where
  "get_packet_id L s = do {
     (i, d) \<leftarrow> the_device s;
     (ret, n, x, st) \<leftarrow> handler_sasp_get_packet_id L (sasp_data d) (dc_device_id d) (get_stored s);
     assert (ret = SASP_RET_NONCE);
     Some ((set_device i (d\<lparr>sasp_data := x\<rparr>) (set_stored st s))\<lparr>nonce := n\<rparr>)
   }"

text \<open>The call without a packet id, repeated with one if the handler needs it.\<close>

definition gdp_call ::
  "('a, 'b) main_lib \<Rightarrow> 'b gdp_handler \<Rightarrow> bool \<Rightarrow> ('a, 'b) main_state \<Rightarrow> (sagdp_ret \<times> ('a, 'b) main_state) option" where
  "gdp_call L f ctr s = do {
     (ret_code, s) \<leftarrow> call_gdp L f ctr None s;
     if ret_code = SAGDP_RET_NEED_NONCE then do {
       s \<leftarrow> get_packet_id L s;
       (ret_code, s) \<leftarrow> call_gdp L f ctr (Some (nonce s)) s;
       assert (ret_code \<noteq> SAGDP_RET_NEED_NONCE);
       Some (ret_code, s)
     } else Some (ret_code, s)
   }"

definition reinit_context :: "('a, 'b) main_lib \<Rightarrow> bool \<Rightarrow> ('a, 'b) main_state \<Rightarrow> ('a, 'b) main_state option" where
  "reinit_context L ctr s = do {
     (i, d) \<leftarrow> the_device s;
     Some (set_device i (set_context ctr (sagdp_init (stack L) (context_of ctr d)) d) s)
   }"

section \<open>Down to the devices\<close>

text \<open>Label \<open>hal_send\<close>.\<close>

definition hal_send :: "('a, 'b) main_lib \<Rightarrow> ('a, 'b) part" where
  "hal_send L s = do {
     assert (bus_id s \<noteq> 0xFFFF);
     (ret_code, s) \<leftarrow> sending (\<lambda>c. send_message c (MEMORY_HANDLE_MAIN_LOOP_1 L) (bus_id s)) s;
     m \<leftarrow> zepto_parser_free_memory (main_heap s) (MEMORY_HANDLE_MAIN_LOOP_1 L);
     let s = set_heap m s;
     if ret_code \<noteq> COMMLAYER_RET_OK then Some (Some (-1), s) else Some (None, s)
   }"

text \<open>Label \<open>saoudp_send\<close>.\<close>

definition saoudp_send :: "('a, 'b) main_lib \<Rightarrow> ('a, 'b) part" where
  "saoudp_send L s = do {
     let h = MEMORY_HANDLE_MAIN_LOOP_1 L;
     (ret_code, m) \<leftarrow> handler_saoudp_send L h (MEMORY_HANDLE_MAIN_LOOP_2_SAOUDP_ADDR L) (main_heap s);
     s \<leftarrow> hand_over h (set_heap m s);
     assert (ret_code = SAOUDP_RET_OK);
     (i, d) \<leftarrow> the_device s;
     (ret_code, b, w) \<leftarrow> handler_siot_mesh_send_packet L (for_ctr s) (dc_device_id d) h (working_resend_cnt s) (bus_id s) (get_world s);
     s \<leftarrow> hand_over h ((set_world w s)\<lparr>bus_id := b\<rparr>);
     if ret_code = SIOT_MESH_RET_PASS_TO_SEND then do { assert (bus_id s \<noteq> 0xFFFF); hal_send L s }
     else if ret_code = SIOT_MESH_RET_OK then Some (None, s)
     else None
   }"

text \<open>Label \<open>saspsend\<close>.\<close>

definition saspsend :: "('a, 'b) main_lib \<Rightarrow> ('a, 'b) part" where
  "saspsend L s = do {
     (i, d) \<leftarrow> the_device s;
     (ret_code, x, st) \<leftarrow> handler_sasp_send L (AES_ENCRYPTION_KEY d) (nonce s) (MEMORY_HANDLE_MAIN_LOOP_1 L) (sasp_data d) (get_stored s);
     let s = set_device i (d\<lparr>sasp_data := x\<rparr>) (set_stored st s);
     s \<leftarrow> hand_over (MEMORY_HANDLE_MAIN_LOOP_1 L) s;
     assert (ret_code = SASP_RET_TO_LOWER_REGULAR);
     saoudp_send L s
   }"

text \<open>Label \<open>client_received\<close>: a message of the central unit for a device.\<close>

definition client_received :: "('a, 'b) main_lib \<Rightarrow> ('a, 'b) part" where
  "client_received L s = do {
     s \<leftarrow> HAL_GET_TIME s;
     (ret_code, s) \<leftarrow> gdp_call L (handler_sagdp_receive_hlp L) False s;
     s \<leftarrow> hand_over (MEMORY_HANDLE_MAIN_LOOP_1 L) s;
     if ret_code = SAGDP_RET_SYS_CORRUPTED then do {
       (i, d) \<leftarrow> the_device s;
       (_, s) \<leftarrow> sending (\<lambda>c. send_error_to_central_unit c (MEMORY_HANDLE_MAIN_LOOP_1 L) (dc_device_id d)) s;
       s \<leftarrow> reinit_context L False s;
       Some (None, s)
     }
     else if ret_code = SAGDP_RET_TO_LOWER_NEW then saspsend L s
     else None
   }"

text \<open>A control message for a device whose control context is idle: the same code at three places.\<close>

definition send_control :: "('a, 'b) main_lib \<Rightarrow> ('a, 'b) part" where
  "send_control L s = do {
     (ret_code, s) \<leftarrow> gdp_call L (handler_sagdp_receive_hlp L) True (s\<lparr>for_ctr := True\<rparr>);
     s \<leftarrow> hand_over (MEMORY_HANDLE_MAIN_LOOP_1 L) s;
     if ret_code = SAGDP_RET_SYS_CORRUPTED then do { s \<leftarrow> reinit_context L True s; Some (None, s) }
     else if ret_code = SAGDP_RET_TO_LOWER_NEW then saspsend L s
     else None
   }"

text \<open>The request as it is becomes the body of a control message of the given type.\<close>

definition add_ccp_header :: "('a, 'b) main_lib \<Rightarrow> u8 \<Rightarrow> ('a, 'b) main_state \<Rightarrow> ('a, 'b) main_state option" where
  "add_ccp_header L kind s = do {
     let h = MEMORY_HANDLE_MAIN_LOOP_1 L;
     m \<leftarrow> zepto_parser_free_memory (main_heap s) (MEMORY_HANDLE_MAIN_LOOP_1_SAOUDP_ADDR L);
     po_start \<leftarrow> zepto_parser_init m h;
     po_end \<leftarrow> zepto_parser_init m h;
     (n, po_start) \<leftarrow> zepto_parsing_remaining_bytes m po_start;
     (_, po_end) \<leftarrow> zepto_parse_skip_block m po_end n;
     (m, _, _) \<leftarrow> zepto_convert_part_of_request_to_response m h po_start po_end;
     m \<leftarrow> zepto_write_prepend_byte m h kind;
     m \<leftarrow> zepto_write_prepend_byte m h 0x5;
     hand_over h (set_heap m s)
   }"

definition control_or_wait :: "('a, 'b) main_lib \<Rightarrow> u16 \<Rightarrow> ('a, 'b) part" where
  "control_or_wait L dev_id s = do {
     (i, d) \<leftarrow> the_device s;
     if sagdp_is_idle (stack L) (sagdp_context_ctr d) then send_control L s
     else do {
       sv \<leftarrow> main_add_scheduled_gdp_ctr_request (srv s) (MEMORY_HANDLE_MAIN_LOOP_1 L) dev_id;
       Some (None, s\<lparr>srv := sv\<rparr>)
     }
   }"

section \<open>Up from the devices\<close>

text \<open>The rest of the request behind the parser position becomes the request.\<close>

definition keep_rest :: "('a, 'b) main_lib \<Rightarrow> parser_obj \<Rightarrow> ('a, 'b) main_state \<Rightarrow> ('a, 'b) main_state option" where
  "keep_rest L po s = do {
     po1 \<leftarrow> zepto_parser_init_by_parser (main_heap s) po;
     (n, po) \<leftarrow> zepto_parsing_remaining_bytes (main_heap s) po;
     (_, po1) \<leftarrow> zepto_parse_skip_block (main_heap s) po1 n;
     (m, _, _) \<leftarrow> zepto_convert_part_of_request_to_response (main_heap s) (MEMORY_HANDLE_MAIN_LOOP_1 L) po po1;
     hand_over (MEMORY_HANDLE_MAIN_LOOP_1 L) (set_heap m s)
   }"

definition control_message :: "('a, 'b) main_lib \<Rightarrow> ('a, 'b) part" where
  "control_message L s = do {
     let h = MEMORY_HANDLE_MAIN_LOOP_1 L;
     po \<leftarrow> zepto_parser_init (main_heap s) h;
     (first_byte, po) \<leftarrow> zepto_parse_uint8 (main_heap s) po;
     (packet_head, po) \<leftarrow> zepto_parse_encoded_uint16 (main_heap s) po;
     let packet_type = (ucast (packet_head AND 7) :: u8);
     (i, d) \<leftarrow> the_device s;
     if packet_type = SACCP_PHY_AND_ROUTING_DATA L then do {
       assert (drop_bit 3 packet_head AND 7 = 0);
       s \<leftarrow> keep_rest L po s;
       w \<leftarrow> handler_siot_mesh_process_route_update_response L (dc_device_id d) h (get_world s);
       Some (None, set_world w s)
     }
     else if packet_type = SACCP_STATS_RESPONSE L then do {
       s \<leftarrow> keep_rest L po s;
       (_, s) \<leftarrow> sending (\<lambda>c. send_stats_to_central_unit c h (dc_device_id d)) s;
       m \<leftarrow> zepto_parser_free_memory (main_heap s) h;
       Some (None, set_heap m s)
     }
     else None
   }"

definition control_packet :: "('a, 'b) main_lib \<Rightarrow> ('a, 'b) part" where
  "control_packet L s = do {
     (ret_code, s) \<leftarrow> gdp_call L (handler_sagdp_receive_up L (pid s)) True s;
     s \<leftarrow> hand_over (MEMORY_HANDLE_MAIN_LOOP_1 L) s;
     if ret_code = SAGDP_RET_SYS_CORRUPTED then do { s \<leftarrow> reinit_context L True s; Some (None, s) }
     else if ret_code = SAGDP_RET_TO_HIGHER then control_message L s
     else if ret_code = SAGDP_RET_TO_LOWER_REPEATED then saspsend L s
     else if ret_code = SAGDP_RET_OK then Some (None, s)
     else None
   }"

definition application_packet :: "('a, 'b) main_lib \<Rightarrow> ('a, 'b) part" where
  "application_packet L s = do {
     let h = MEMORY_HANDLE_MAIN_LOOP_1 L;
     (ret_code, s) \<leftarrow> gdp_call L (handler_sagdp_receive_up L (pid s)) False s;
     s \<leftarrow> hand_over h s;
     (i, d) \<leftarrow> the_device s;
     if ret_code = SAGDP_RET_OK then Some (None, s)
     else if ret_code = SAGDP_RET_TO_HIGHER then do {
       (_, s) \<leftarrow> sending (\<lambda>c. send_to_central_unit c h (dc_device_id d)) s;
       Some (None, s)
     }
     else if ret_code = SAGDP_RET_SYS_CORRUPTED then do {
       (_, s) \<leftarrow> sending (\<lambda>c. send_error_to_central_unit c h (dc_device_id d)) s;
       s \<leftarrow> reinit_context L False s;
       Some (None, s)
     }
     else if ret_code = SAGDP_RET_TO_LOWER_REPEATED then saspsend L s
     else None
   }"

text \<open>The device has not received the last message: it is sent again, the control message first.\<close>

definition last_send_failed :: "('a, 'b) main_lib \<Rightarrow> ('a, 'b) part" where
  "last_send_failed L s = do {
     let h = MEMORY_HANDLE_MAIN_LOOP_1 L;
     let addr_h = MEMORY_HANDLE_MAIN_LOOP_1_SAOUDP_ADDR L;
     let f = handler_sagdp_receive_request_resend_lsp L;
     s \<leftarrow> HAL_GET_TIME s;
     (ret_code, s) \<leftarrow> call_gdp L f True None s;
     let use_ctr = (ret_code \<noteq> SAGDP_RET_TO_LOWER_NONE);
     (ret_code, s) \<leftarrow> (if use_ctr then Some (ret_code, s)
       else do { s \<leftarrow> hand_over h s; s \<leftarrow> hand_over addr_h s; call_gdp L f False None s });
     if ret_code = SAGDP_RET_TO_LOWER_NONE then do {
       s \<leftarrow> hand_over h s;
       s \<leftarrow> hand_over addr_h s;
       Some (None, s)
     }
     else do {
       s \<leftarrow> (if ret_code = SAGDP_RET_NEED_NONCE then do {
           s \<leftarrow> get_packet_id L s;
           (ret_code, s) \<leftarrow> call_gdp L f use_ctr (Some (nonce s)) s;
           assert (ret_code \<noteq> SAGDP_RET_NEED_NONCE \<and> ret_code \<noteq> SAGDP_RET_TO_LOWER_NONE);
           Some s
         } else Some s);
       s \<leftarrow> hand_over h s;
       s \<leftarrow> hand_over addr_h s;
       saspsend L s
     }
   }"

definition sasp_in :: "('a, 'b) main_lib \<Rightarrow> ('a, 'b) part" where
  "sasp_in L s = do {
     (i, d) \<leftarrow> the_device s;
     (ret_code, p, x, st) \<leftarrow> handler_sasp_receive L (AES_ENCRYPTION_KEY d) (pid s) (MEMORY_HANDLE_MAIN_LOOP_1 L) (sasp_data d)
       (dc_device_id d) (get_stored s);
     let s = (set_device i (d\<lparr>sasp_data := x\<rparr>) (set_stored st s))\<lparr>pid := p\<rparr>;
     s \<leftarrow> hand_over (MEMORY_HANDLE_MAIN_LOOP_1 L) s;
     if ret_code = SASP_RET_IGNORE_PACKET_BROKEN \<or> ret_code = SASP_RET_IGNORE_PACKET_LAST_REPEATED \<or>
        ret_code = SASP_RET_IGNORE_PACKET_NONCE_LS_NOT_APPLIED then Some (None, s)
     else if ret_code = SASP_RET_TO_LOWER_ERROR then saoudp_send L s
     else if ret_code = SASP_RET_TO_HIGHER_NEW then do {
       s \<leftarrow> HAL_GET_TIME s;
       ctr \<leftarrow> handler_sagdp_is_up_packet_ctr L (MEMORY_HANDLE_MAIN_LOOP_1 L) (main_heap s);
       let s = s\<lparr>for_ctr := ctr\<rparr>;
       if for_ctr s then control_packet L s else application_packet L s
     }
     else if ret_code = SASP_RET_TO_HIGHER_LAST_SEND_FAILED then last_send_failed L s
     else None
   }"

definition saoudp_in :: "('a, 'b) main_lib \<Rightarrow> ('a, 'b) part" where
  "saoudp_in L s = do {
     (ret_code, m) \<leftarrow> handler_saoudp_receive L (MEMORY_HANDLE_MAIN_LOOP_1 L) (MEMORY_HANDLE_MAIN_LOOP_1_SAOUDP_ADDR L) (main_heap s);
     s \<leftarrow> hand_over (MEMORY_HANDLE_MAIN_LOOP_1 L) (set_heap m s);
     assert (ret_code = SAOUDP_RET_OK);
     sasp_in L s
   }"

text \<open>The device that \<open>dev_in_use\<close> names; the assertions say that it exists.\<close>

definition find_device :: "('a, 'b) main_state \<Rightarrow> u16 \<Rightarrow> ('a, 'b) main_state option" where
  "find_device s dev_id = do {
     let s = s\<lparr>device := main_get_device_data_by_device_id (srv s) (ucast dev_id)\<rparr>;
     assert (device s \<noteq> None);
     Some s
   }"

text \<open>Label \<open>siotmp_rec\<close>.\<close>

definition siotmp_rec :: "('a, 'b) main_lib \<Rightarrow> ('a, 'b) part" where
  "siotmp_rec L s = do {
     let h = MEMORY_HANDLE_MAIN_LOOP_1 L;
     assert (bus_id s \<noteq> SIOT_MESH_BUS_UNDEFINED (mesh_consts L));
     (ret_code, dev, b, w) \<leftarrow> handler_siot_mesh_receive_packet L h (MEMORY_HANDLE_MESH_ACK L) (dev_in_use s) (bus_id s) 0 0 (get_world s);
     s \<leftarrow> hand_over h ((set_world w s)\<lparr>dev_in_use := dev, bus_id := b\<rparr>);
     if ret_code = SIOT_MESH_RET_SEND_ACK_AND_PASS_TO_PROCESS then do {
       s \<leftarrow> find_device s (dev_in_use s);
       assert (bus_id s \<noteq> 0xFFFF);
       s \<leftarrow> hand_over (MEMORY_HANDLE_MESH_ACK L) s;
       (_, s) \<leftarrow> sending (\<lambda>c. send_message c (MEMORY_HANDLE_MESH_ACK L) (bus_id s)) s;
       m \<leftarrow> zepto_parser_free_memory (main_heap s) (MEMORY_HANDLE_MESH_ACK L);
       saoudp_in L (set_heap m s)
     }
     else if ret_code = SIOT_MESH_RET_PASS_TO_PROCESS then do {
       s \<leftarrow> find_device s (dev_in_use s);
       saoudp_in L s
     }
     else if ret_code = SIOT_MESH_RET_PASS_TO_SEND then do {
       s \<leftarrow> find_device s (dev_in_use s);
       assert (bus_id s \<noteq> 0xFFFF);
       hal_send L s
     }
     else if ret_code = SIOT_MESH_RET_GARBAGE_RECEIVED \<or> ret_code = SIOT_MESH_RET_NOT_FOR_THIS_DEV_RECEIVED \<or>
       ret_code = SIOT_MESH_RET_OK then Some (None, s)
     else None
   }"

section \<open>Requests of the central unit\<close>

text \<open>The reply to a request that has no other effect: device id, code, completion.\<close>

definition reply_with ::
  "('a, 'b) main_lib \<Rightarrow> (comm \<Rightarrow> nat \<Rightarrow> u16 \<Rightarrow> (u8 \<times> comm) option) \<Rightarrow> u8 \<Rightarrow> ('a, 'b) main_state \<Rightarrow> ('a, 'b) main_state option" where
  "reply_with L send b s = do {
     s \<leftarrow> write_byte (MEMORY_HANDLE_MAIN_LOOP_1 L) b s;
     s \<leftarrow> hand_over (MEMORY_HANDLE_MAIN_LOOP_1 L) s;
     (_, s) \<leftarrow> sending (\<lambda>c. send c (MEMORY_HANDLE_MAIN_LOOP_1 L) (param s)) s;
     Some s
   }"

definition write_dev_id :: "('a, 'b) main_lib \<Rightarrow> u16 \<Rightarrow> ('a, 'b) main_state \<Rightarrow> ('a, 'b) main_state option" where
  "write_dev_id L dev_id s = do {
     s \<leftarrow> write_byte (MEMORY_HANDLE_MAIN_LOOP_1 L) (ucast dev_id) s;
     write_byte (MEMORY_HANDLE_MAIN_LOOP_1 L) (ucast (drop_bit 8 dev_id)) s
   }"

definition add_device_request :: "('a, 'b) main_lib \<Rightarrow> ('a, 'b) part" where
  "add_device_request L s = do {
     let h = MEMORY_HANDLE_MAIN_LOOP_1 L;
     let reply = (\<lambda>b s. do { s \<leftarrow> reply_with L send_device_add_completion_to_central_unit b s; Some (None, s) });
     s \<leftarrow> hand_over h s;
     po \<leftarrow> zepto_parser_init (main_heap s) h;
     (packet_sz, po) \<leftarrow> zepto_parsing_remaining_bytes (main_heap s) po;
     if packet_sz < 2 then do {
       s \<leftarrow> write_byte h 0xFF s;
       s \<leftarrow> write_byte h 0xFF s;
       reply COMMLAYER_TO_CU_STATUS_FAILED_INCOMPLETE_OR_CORRUPTED_DATA s
     }
     else do {
       (dev_id, po) \<leftarrow> parse_dev_id (main_heap s) po;
       s \<leftarrow> write_dev_id L dev_id s;
       if packet_sz < 22 then reply COMMLAYER_TO_CU_STATUS_FAILED_INCOMPLETE_OR_CORRUPTED_DATA s
       else do {
         (f, po) \<leftarrow> parse_device_fields (main_heap s) po;
         if df_bus_type_cnt f = 0 \<or> packet_sz \<noteq> 21 + uint (df_bus_type_cnt f)
         then reply COMMLAYER_TO_CU_STATUS_FAILED_INCOMPLETE_OR_CORRUPTED_DATA s
         else do {
           (ret1, sv) \<leftarrow> main_add_new_device (stack L) (uninitialised_device L) (srv s) dev_id (df_key f);
           let s = s\<lparr>srv := sv\<rparr>;
           if ret1 = MAIN_DEVICES_RET_OK then do {
             s \<leftarrow> write_byte h COMMLAYER_TO_CU_STATUS_OK s;
             bus_types \<leftarrow> parse_bus_types (main_heap s) po (df_bus_type_cnt f);
             s \<leftarrow> add_to_mesh L s dev_id f bus_types;
             s \<leftarrow> hand_over h s;
             (_, s) \<leftarrow> sending (\<lambda>c. send_device_add_completion_to_central_unit c h (param s)) s;
             Some (None, s)
           }
           else reply (if ret1 = MAIN_DEVICES_RET_ALREADY_EXISTS then COMMLAYER_TO_CU_STATUS_FAILED_EXISTS
                       else COMMLAYER_TO_CU_STATUS_FAILED_UNKNOWN_REASON) s
         }
       }
     }
   }"

text \<open>
  Removing a device. After the reply to a malformed request the code goes on with the reply to a
  request that was carried out, for a device id that has not been set (\<open>blank_id\<close>).
\<close>

definition remove_device_request :: "('a, 'b) main_lib \<Rightarrow> u16 \<Rightarrow> ('a, 'b) part" where
  "remove_device_request L blank_id s = do {
     let h = MEMORY_HANDLE_MAIN_LOOP_1 L;
     s \<leftarrow> hand_over h s;
     po \<leftarrow> zepto_parser_init (main_heap s) h;
     (packet_sz, po) \<leftarrow> zepto_parsing_remaining_bytes (main_heap s) po;
     (ok, dev_id, s) \<leftarrow> (if packet_sz = 2 then do {
         (dev_id, po) \<leftarrow> parse_dev_id (main_heap s) po;
         (ret1, sv) \<leftarrow> main_remove_device (stack L) (srv s) dev_id;
         (ret2, mesh) \<leftarrow> siot_mesh_at_root_remove_device (mesh_root sv) dev_id;
         Some (ret1 = MAIN_DEVICES_RET_OK \<and> ret2 = SIOT_MESH_AT_ROOT_RET_OK, dev_id, s\<lparr>srv := sv\<lparr>mesh_root := mesh\<rparr>\<rparr>)
       } else do {
         s \<leftarrow> write_byte h 0xFF s;
         s \<leftarrow> write_byte h 0xFF s;
         s \<leftarrow> reply_with L send_device_remove_completion_to_central_unit COMMLAYER_TO_CU_STATUS_FAILED_INCOMPLETE_OR_CORRUPTED_DATA s;
         Some (False, blank_id, s)
       });
     s \<leftarrow> write_dev_id L dev_id s;
     s \<leftarrow> reply_with L send_device_remove_completion_to_central_unit
       (if ok then COMMLAYER_TO_CU_STATUS_OK else COMMLAYER_TO_CU_STATUS_FAILED_UNKNOWN_REASON) s;
     Some (None, s)
   }"

definition perf_counters_request :: "('a, 'b) main_lib \<Rightarrow> ('a, 'b) part" where
  "perf_counters_request L s = do {
     let h = MEMORY_HANDLE_MAIN_LOOP_1 L;
     s \<leftarrow> hand_over h s;
     let s = s\<lparr>device := main_get_device_data_by_device_id (srv s) (ucast (param s))\<rparr>;
     if device s = None then Some (None, s)
     else do {
       s \<leftarrow> hand_over h s;
       s \<leftarrow> add_ccp_header L (SACCP_STATS_REQUEST L) s;
       control_or_wait L (param s) s
     }
   }"

definition central_unit_packet :: "('a, 'b) main_lib \<Rightarrow> u16 \<Rightarrow> ('a, 'b) part" where
  "central_unit_packet L blank_id s = do {
     (ret_code, s) \<leftarrow> receive_from_central_unit L s;
     if ret_code = COMMLAYER_RET_FAILED then Some (Some 0, s)
     else if ret_code = COMMLAYER_FROM_CU_STATUS_FOR_SLAVE then do {
       s \<leftarrow> hand_over (MEMORY_HANDLE_MAIN_LOOP_1 L) s;
       s \<leftarrow> find_device (s\<lparr>dev_in_use := param s\<rparr>) (param s);
       client_received L s
     }
     else if ret_code = COMMLAYER_FROM_CU_STATUS_FROM_SLAVE then do {
       let s = s\<lparr>bus_id := param s\<rparr>;
       assert (bus_id s \<noteq> SIOT_MESH_BUS_UNDEFINED (mesh_consts L));
       s \<leftarrow> hand_over (MEMORY_HANDLE_MAIN_LOOP_1 L) s;
       siotmp_rec L s
     }
     else if ret_code = COMMLAYER_FROM_CU_STATUS_ADD_DEVICE then add_device_request L s
     else if ret_code = COMMLAYER_FROM_CU_STATUS_REMOVE_DEVICE then remove_device_request L blank_id s
     else if ret_code = COMMLAYER_FROM_CU_STATUS_GET_DEV_PERF_COUNTERS_REQUEST then perf_counters_request L s
     else None
   }"

section \<open>What waits\<close>

text \<open>Each device is asked in turn, the control context first; the first one with a packet ends the round.\<close>

definition timer_of :: "('a, 'b) main_lib \<Rightarrow> bool \<Rightarrow> ('a, 'b) main_state \<Rightarrow> (bool \<times> ('a, 'b) main_state) option" where
  "timer_of L ctr s = do {
     (ret_code, s) \<leftarrow> call_gdp L (handler_sagdp_timer L) ctr None s;
     if ret_code = SAGDP_RET_NEED_NONCE then do {
       s \<leftarrow> get_packet_id L s;
       (ret_code, s) \<leftarrow> call_gdp L (handler_sagdp_timer L) ctr (Some (nonce s)) s;
       assert (ret_code \<noteq> SAGDP_RET_NEED_NONCE \<and> ret_code \<noteq> SAGDP_RET_OK);
       s \<leftarrow> hand_over (MEMORY_HANDLE_MAIN_LOOP_1 L) s;
       s \<leftarrow> hand_over (MEMORY_HANDLE_MAIN_LOOP_1_SAOUDP_ADDR L) s;
       Some (True, s\<lparr>for_ctr := ctr\<rparr>)
     } else Some (False, s)
   }"

fun device_timers :: "('a, 'b) main_lib \<Rightarrow> nat list \<Rightarrow> ('a, 'b) main_state \<Rightarrow> (bool \<times> ('a, 'b) main_state) option" where
  "device_timers L [] s = Some (False, s)"
| "device_timers L (i # is) s = do {
     let s = s\<lparr>dev_in_use := of_nat i, device := main_get_device_data_by_index (srv s) i\<rparr>;
     assert (device s \<noteq> None);
     (found, s) \<leftarrow> timer_of L True s;
     if found then Some (True, s)
     else do {
       (found, s) \<leftarrow> timer_of L False s;
       if found then Some (True, s) else device_timers L is s
     }
   }"

definition mesh_timer :: "('a, 'b) main_lib \<Rightarrow> ('a, 'b) main_state \<Rightarrow> (bool \<times> int option \<times> ('a, 'b) main_state) option" where
  "mesh_timer L s = do {
     let h = MEMORY_HANDLE_MAIN_LOOP_1 L;
     (ret_code, target, b, w) \<leftarrow> handler_siot_mesh_timer L h (target_device_id s) (bus_id s) (get_world s);
     let s = (set_world w s)\<lparr>target_device_id := target, bus_id := b\<rparr>;
     if ret_code = SIOT_MESH_RET_PASS_TO_SEND then do {
       assert (bus_id s \<noteq> 0xFFFF);
       s \<leftarrow> hand_over h s;
       (r, s) \<leftarrow> hal_send L s;
       Some (True, r, s)
     }
     else if ret_code = SIOT_MESH_RET_PASS_TO_CCP then do {
       s \<leftarrow> find_device s (target_device_id s);
       s \<leftarrow> hand_over h s;
       s \<leftarrow> add_ccp_header L (SACCP_PHY_AND_ROUTING_DATA L) s;
       (i, d) \<leftarrow> the_device s;
       (r, t) \<leftarrow> control_or_wait L (dc_device_id d) s;
       Some (sagdp_is_idle (stack L) (sagdp_context_ctr d), r, t)
     }
     else Some (False, None, s)
   }"

section \<open>The loop\<close>

text \<open>One round, from \<open>wait_for_comm_event\<close> to the next jump there.\<close>

definition wait_for_packet :: "('a, 'b) main_lib \<Rightarrow> u16 \<Rightarrow> ('a, 'b) part" where
  "wait_for_packet L blank_id s = do {
     (ret_code, s) \<leftarrow> wait_event s;
     if ret_code = COMMLAYER_RET_FAILED then Some (Some 0, s)
     else if ret_code = COMMLAYER_RET_FROM_CENTRAL_UNIT then central_unit_packet L blank_id s
     else if ret_code = COMMLAYER_RET_TIMEOUT then Some (None, s)
     else None
   }"

definition main_round :: "('a, 'b) main_lib \<Rightarrow> u16 \<Rightarrow> ('a, 'b) part" where
  "main_round L blank_id s = do {
     (dev, sv) \<leftarrow> main_get_scheduled_gdp_ctr_request (stack L) (srv s) (MEMORY_HANDLE_MAIN_LOOP_1 L);
     let s = s\<lparr>srv := sv, device := dev\<rparr>;
     if device s \<noteq> None then do {
       s \<leftarrow> hand_over (MEMORY_HANDLE_MAIN_LOOP_1 L) s;
       send_control L s
     }
     else do {
       s \<leftarrow> HAL_GET_TIME s;
       (found, s) \<leftarrow> device_timers L [0..<main_get_device_count (srv s)] s;
       if found then saspsend L s
       else do {
         (jumped, r, s) \<leftarrow> mesh_timer L s;
         if jumped then Some (r, s) else wait_for_packet L blank_id s
       }
     }
   }"

partial_function (option) main_rounds :: "('a, 'b) main_lib \<Rightarrow> u16 \<Rightarrow> ('a, 'b) main_state \<Rightarrow> (int \<times> ('a, 'b) main_state) option" where
  "main_rounds L blank_id s = do {
     (r, s) \<leftarrow> main_round L blank_id s;
     case r of None \<Rightarrow> main_rounds L blank_id s | Some c \<Rightarrow> Some (c, s)
   }"

definition main_loop :: "('a, 'b) main_lib \<Rightarrow> u16 \<Rightarrow> ('a, 'b) main_state \<Rightarrow> (int \<times> ('a, 'b) main_state) option" where
  "main_loop L blank_id s = do {
     (ok, s) \<leftarrow> initialise_server L s;
     if ok then main_rounds L blank_id s else Some (0, s)
   }"

end
