(* ===== verification/Main_Rules.thy ===== *)
theory Main_Rules
  imports Main_Loop Sync_Request
begin

text \<open>
  Rules for the calls of the main loop, in terms of the messages of the handles and the room left,
  and the requests of the central unit to add and remove devices.
\<close>

section \<open>Single calls\<close>

lemma set_heap_simps [simp]:
  "main_heap (set_heap m s) = m" "set_heap m (set_heap m' s) = set_heap m s" "param (set_heap m s) = param s"
  "mesh_root (srv (set_heap m s)) = mesh_root (srv s)" "all_devices (srv (set_heap m s)) = all_devices (srv s)"
  "send_results (net (srv (set_heap m s))) = send_results (net (srv s))" "sent (net (srv (set_heap m s))) = sent (net (srv s))"
  "srv (set_heap m s) = with_heap m (srv s)" "mesh_root (with_heap m sv) = mesh_root sv"
  by (simp_all add: set_heap_def with_heap_def)

lemma set_heap_same [simp]: "set_heap (main_heap s) s = s" "(set_heap m s)\<lparr>srv := with_heap m (srv s)\<rparr> = set_heap m s"
  by (simp_all add: set_heap_def with_heap_def)

lemma main_write:
  assumes "has_room (main_heap s) M n k" "M h = Some (rq, rsp)" "1 \<le> n"
  obtains m where "write_byte h b s = Some (set_heap m s)" "has_room m (M(h \<mapsto> (rq, rsp @ [b]))) (n - 1) k"
proof -
  obtain m where "zepto_write_uint8 (main_heap s) h b = Some m" "has_room m (M(h \<mapsto> (rq, rsp @ [b]))) (n - 1) k"
    by (rule room_write [OF assms(1,2) as_blocks_write(3) [of h b]]) (use assms(3) in simp_all)
  then show thesis using that by (simp add: write_byte_def)
qed

lemma main_hand_over:
  assumes "has_room (main_heap s) M n k" "M h = Some (rq, rsp)"
  obtains m where "hand_over h s = Some (set_heap m s)" "has_room m (M(h \<mapsto> (rsp, []))) n k"
  by (rule room_hand_over [OF assms]) (use that in \<open>simp add: hand_over_def\<close>)

text \<open>A frame that the system has taken.\<close>

definition frame_sent :: "u8 list \<Rightarrow> mem \<Rightarrow> ('a, 'b) main_state \<Rightarrow> ('a, 'b) main_state" where
  "frame_sent f m s = set_net ((net (srv s))\<lparr>heap := m, sent := sent (net (srv s)) @ [f]\<rparr>) s"

lemma frame_sent_simps [simp]:
  "frame_sent f m (set_heap m' s) = frame_sent f m s" "main_heap (frame_sent f m s) = m"
  "set_heap m (frame_sent f m' s) = frame_sent f m s" "sent (net (srv (frame_sent f m s))) = sent (net (srv s)) @ [f]"
  "send_results (net (srv (frame_sent f m s))) = send_results (net (srv s))" "param (frame_sent f m s) = param s"
  "all_devices (srv (frame_sent f m s)) = all_devices (srv s)" "mesh_root (srv (frame_sent f m s)) = mesh_root (srv s)"
  by (simp_all add: frame_sent_def set_net_def set_heap_def with_heap_def)

text \<open>Nothing but the connection, with the heap, has changed.\<close>

lemma frame_sent_net:
  "srv s = sv\<lparr>net := c\<rparr> \<Longrightarrow> srv (frame_sent f m s) = sv\<lparr>net := net (srv (frame_sent f m s))\<rparr>"
  by (simp add: frame_sent_def set_net_def)

lemma only_net:
  "sv' = sv\<lparr>net := c\<rparr> \<Longrightarrow> all_devices sv' = all_devices sv" "sv' = sv\<lparr>net := c\<rparr> \<Longrightarrow> mesh_root sv' = mesh_root sv"
  by simp_all

lemma main_send:
  assumes "has_room (main_heap s) M n k" "M h = Some (rq, rsp)" "h < k" "5 \<le> n" "send_results (net (srv s)) = []"
  obtains m where "sending (\<lambda>c. send_within_master c h v kind) s = Some (COMMLAYER_RET_OK, frame_sent (frame v kind rq) m s)"
    "has_room m (M(h \<mapsto> ([], []))) n k"
proof -
  note c = has_room_content [OF assms(1,2)]
  have n: "n \<le> free_space (main_heap s)" "MEMORY_HANDLE_MAX (main_heap s) = k" using assms(1) by (simp_all add: has_room_def)
  have front: "front_room (main_heap s) h 5 (int (length rsp)) (int (length rq))" using n assms(3,4) by (simp add: front_room_def)
  obtain m where m: "send_within_master (net (srv s)) h v kind =
      Some (if fst (sendto (net (srv s)) (frame v kind rq)) < 0 then COMMLAYER_RET_FAILED else COMMLAYER_RET_OK,
        (snd (sendto (net (srv s)) (frame v kind rq)))\<lparr>heap := m\<rparr>)" "grown (main_heap s) h ([], []) m"
    using send_frame [OF c(1,2) front] by blast
  have room: "has_room m (M(h \<mapsto> ([], []))) n k"
    by (rule has_room_grown [OF assms(1) m(2)]) (use assms(2,4) n grown_free_space [OF m(2) c(1,2)] in simp_all)
  show thesis
    by (rule that [OF _ room]) (use m(1) assms(5) in \<open>simp add: sending_def sendto_def frame_sent_def set_net_def\<close>)
qed

lemma sends_within_master:
  "send_device_add_completion_to_central_unit c h v = send_within_master c h v COMMLAYER_TO_CU_STATUS_DEVICE_ADDED"
  "send_device_remove_completion_to_central_unit c h v = send_within_master c h v COMMLAYER_TO_CU_STATUS_DEVICE_REMOVED"
  by (simp_all add: send_device_add_completion_to_central_unit_def send_device_remove_completion_to_central_unit_def)

text \<open>A reply: the response so far with one more byte.\<close>

lemma main_reply:
  assumes "has_room (main_heap s) M n k" "M (MEMORY_HANDLE_MAIN_LOOP_1 L) = Some (rq, rsp)" "MEMORY_HANDLE_MAIN_LOOP_1 L < k"
    "6 \<le> n" "send_results (net (srv s)) = []" "\<And>c h v. send c h v = send_within_master c h v kind"
  obtains m where "reply_with L send b s = Some (frame_sent (frame (param s) kind (rsp @ [b])) m s)"
    "has_room m (M(MEMORY_HANDLE_MAIN_LOOP_1 L \<mapsto> ([], []))) (n - 1) k"
proof -
  let ?h = "MEMORY_HANDLE_MAIN_LOOP_1 L"
  have n1: "1 \<le> n" and n5: "5 \<le> n - 1" using assms(4) by simp_all
  obtain m1 where 1: "write_byte ?h b s = Some (set_heap m1 s)" "has_room m1 (M(?h \<mapsto> (rq, rsp @ [b]))) (n - 1) k"
    by (rule main_write [OF assms(1,2) n1])
  have r1: "has_room (main_heap (set_heap m1 s)) (M(?h \<mapsto> (rq, rsp @ [b]))) (n - 1) k" using 1(2) by simp
  obtain m2 where 2: "hand_over ?h (set_heap m1 s) = Some (set_heap m2 s)" "has_room m2 (M(?h \<mapsto> (rsp @ [b], []))) (n - 1) k"
    by (rule main_hand_over [OF r1 fun_upd_same, unfolded fun_upd_upd set_heap_simps])
  have r2: "has_room (main_heap (set_heap m2 s)) (M(?h \<mapsto> (rsp @ [b], []))) (n - 1) k" using 2(2) by simp
  have sr: "send_results (net (srv (set_heap m2 s))) = []" using assms(5) by simp
  obtain m3 where 3: "sending (\<lambda>c. send_within_master c ?h (param s) kind) (set_heap m2 s) =
      Some (COMMLAYER_RET_OK, frame_sent (frame (param s) kind (rsp @ [b])) m3 s)" "has_room m3 (M(?h \<mapsto> ([], []))) (n - 1) k"
    by (rule main_send [OF r2 fun_upd_same assms(3) n5 sr, unfolded fun_upd_upd frame_sent_simps])
  show thesis by (rule that [OF _ 3(2)]) (use 1(1) 2(1) 3(1) assms(6) in \<open>simp add: reply_with_def\<close>)
qed

section \<open>Parsing a device packet\<close>

definition packet_dev_id :: "u8 list \<Rightarrow> u16" where
  "packet_dev_id p = push_bit 8 (ucast (p ! 1)) + ucast (p ! 0)"

lemma packet_dev_id_bytes: "ucast (packet_dev_id p) = p ! 0" "ucast (drop_bit 8 (packet_dev_id p)) = p ! 1"
proof -
  have "packet_dev_id p = push_bit 8 (ucast (p ! 1)) OR ucast (p ! 0)"
    unfolding packet_dev_id_def by (rule disjunctive_add) (auto simp: bit_simps dest: bit_imp_le_length)
  moreover have "\<not> bit (p ! 0) (8 + n)" for n using bit_imp_le_length [of "p ! 0" "8 + n"] by auto
  ultimately show "ucast (packet_dev_id p) = p ! 0" "ucast (drop_bit 8 (packet_dev_id p)) = p ! 1"
    by (auto intro!: bit_word_eqI simp: bit_simps dest: bit_imp_le_length)
qed

definition device_packet_ok :: "u8 list \<Rightarrow> bool" where
  "device_packet_ok p \<longleftrightarrow> 22 \<le> length p \<and> p ! 20 \<noteq> 0 \<and> length p = 21 + unat (p ! 20)"

text \<open>A parser at a position of the request of \<open>h\<close>.\<close>

definition at :: "nat \<Rightarrow> nat \<Rightarrow> parser_obj" where
  "at h k = \<lparr>mem_handle = Some h, offset = int k, res_valid = True\<rparr>"

lemma request_size_limit:
  assumes "has_room m M n k" "M h = Some (rq, rsp)"
  shows "length rq < 4096"
proof -
  note c = has_room_content [OF assms]
  from view_object [OF c(1,2)] obtain xs ob ys where live: "live_at m xs ob ys" "rq_size ob = int (length rq)" by metis
  then show ?thesis using live_at_order [of m xs ob ys] by simp
qed

lemma parse_byte_at:
  assumes "has_room m M n k" "M h = Some (rq, rsp)" "i < length rq"
  shows "zepto_parse_uint8 m (at h i) = Some (rq ! i, at h (Suc i))"
  using parse_uint8_effect [OF has_room_content(1,2) [OF assms(1,2)], of "at h i" i] request_size_limit [OF assms(1,2)] assms(3)
  by (simp add: at_def)

lemma read_block_at:
  assumes "has_room m M n k" "M h = Some (rq, rsp)" "i + j \<le> length rq"
  shows "zepto_parse_read_block m (at h i) (int j) = Some (Some (take j (drop i rq)), at h (i + j))"
  using parse_read_block_effect [OF has_room_content(1,2) [OF assms(1,2)], of "at h i" i j] request_size_limit [OF assms(1,2)] assms(3)
  by (simp add: at_def)

lemma parser_at_start:
  assumes "has_room m M n k" "M h = Some (rq, rsp)"
  shows "zepto_parser_init m h = Some (at h 0)" "zepto_parsing_remaining_bytes m (at h 0) = Some (int (length rq), at h 0)"
proof -
  note c = has_room_content [OF assms]
  show "zepto_parser_init m h = Some (at h 0)" using valid_handle [OF c(1,2)] by (simp add: zepto_parser_init_def at_def)
  show "zepto_parsing_remaining_bytes m (at h 0) = Some (int (length rq), at h 0)"
    using parser_handle_ok [OF c(1,2), of "at h 0"] sizes_of_view [OF c(1,2)] by (simp add: zepto_parsing_remaining_bytes_def at_def)
qed

lemma parse_dev_id_at:
  assumes "has_room m M n k" "M h = Some (rq, rsp)" "2 \<le> length rq"
  shows "parse_dev_id m (at h 0) = Some (packet_dev_id rq, at h 2)"
proof -
  have len: "0 < length rq" "1 < length rq" using assms(3) by linarith+
  have "zepto_parse_uint8 m (at h 0) = Some (rq ! 0, at h 1)" "zepto_parse_uint8 m (at h 1) = Some (rq ! 1, at h 2)"
    using parse_byte_at [OF assms(1,2) len(1)] parse_byte_at [OF assms(1,2) len(2)] by (simp_all only: One_nat_def numeral_2_eq_2)
  then show ?thesis by (simp add: parse_dev_id_def packet_dev_id_def Let_def)
qed

lemma parse_device_fields_at:
  assumes "has_room m M n k" "M h = Some (rq, rsp)" "21 \<le> length rq"
  shows "parse_device_fields m (at h 2) = Some (\<lparr>df_key = take 16 (drop 2 rq), df_is_retransmitter = rq ! 18,
      df_bus_id_max = rq ! 19, df_bus_type_cnt = rq ! 20\<rparr>, at h 21)"
proof -
  have "zepto_parse_read_block m (at h 2) 16 = Some (Some (take 16 (drop 2 rq)), at h 18)"
    using read_block_at [OF assms(1,2), of 2 16] assms(3) by simp
  then show ?thesis
    using parse_byte_at [OF assms(1,2), of 18] parse_byte_at [OF assms(1,2), of 19] parse_byte_at [OF assms(1,2), of 20] assms(3)
    by (simp add: parse_device_fields_def)
qed

lemma parse_bus_types_at:
  assumes "has_room m M n k" "M h = Some (rq, rsp)" "device_packet_ok rq" "length rq \<le> 37"
  shows "parse_bus_types m (at h 21) (rq ! 20) = Some (drop 21 rq)"
proof -
  have n: "length rq = 21 + unat (rq ! 20)" using assms(3) by (simp add: device_packet_ok_def)
  have "zepto_parse_read_block m (at h 21) (uint (rq ! 20)) = Some (Some (drop 21 rq), at h (length rq))"
    using read_block_at [OF assms(1,2), of 21 "unat (rq ! 20)"] n by simp
  then show ?thesis using assms(4) n by (simp add: parse_bus_types_def)
qed

section \<open>Requests to add a device\<close>

text \<open>The situation in which a request is handled: the packet is the response of the working handle.\<close>

definition request_arrived :: "('a, 'b) main_lib \<Rightarrow> ('a, 'b) main_state \<Rightarrow> u8 list \<Rightarrow> bool" where
  "request_arrived L s p \<longleftrightarrow> handles_inv (main_heap s) \<and> MEMORY_HANDLE_MAIN_LOOP_1 L < MEMORY_HANDLE_MAX (main_heap s) \<and>
     (\<exists>rq. messages (main_heap s) (MEMORY_HANDLE_MAIN_LOOP_1 L) = Some (rq, p)) \<and> send_results (net (srv s)) = []"

lemma request_start:
  assumes "request_arrived L s p"
  defines "h \<equiv> MEMORY_HANDLE_MAIN_LOOP_1 L" and "k \<equiv> MEMORY_HANDLE_MAX (main_heap s)" and "M \<equiv> messages (main_heap s)"
  obtains m where "hand_over h s = Some (set_heap m s)" "zepto_parser_init m h = Some (at h 0)"
    "zepto_parsing_remaining_bytes m (at h 0) = Some (int (length p), at h 0)" "h < k"
    "has_room m (M(h \<mapsto> (p, []))) (free_space (main_heap s)) k"
proof -
  obtain rq where r: "has_room (main_heap s) M (free_space (main_heap s)) k" "M h = Some (rq, p)" "h < k"
    using assms(1) has_room_now by (auto simp: request_arrived_def h_def k_def M_def)
  obtain m where m: "hand_over h s = Some (set_heap m s)" "has_room m (M(h \<mapsto> (p, []))) (free_space (main_heap s)) k"
    by (rule main_hand_over [OF r(1,2)])
  show thesis by (rule that [OF m(1) parser_at_start [OF m(2) fun_upd_same] r(3) m(2)])
qed

text \<open>The two bytes of the device id, and then a reply.\<close>

lemma dev_id_then_reply:
  assumes "has_room m (M(h \<mapsto> (p, []))) n k" "h = MEMORY_HANDLE_MAIN_LOOP_1 L" "h < k" "8 \<le> n" "send_results (net (srv s)) = []"
    "\<And>c h v. send c h v = send_within_master c h v kind"
  obtains m1 m2 m3 where "write_byte h a (set_heap m s) = Some (set_heap m1 s)" "has_room m1 (M(h \<mapsto> (p, [a]))) (n - 1) k"
    "write_byte h b (set_heap m1 s) = Some (set_heap m2 s)" "has_room m2 (M(h \<mapsto> (p, [a, b]))) (n - 2) k"
    "reply_with L send c (set_heap m2 s) = Some (frame_sent (frame (param s) kind [a, b, c]) m3 s)"
      "has_room m3 (M(h \<mapsto> ([], []))) (n - 3) k"
proof -
  have n: "1 \<le> n" "1 \<le> n - 1" "6 \<le> n - 1 - 1" using assms(4) by simp_all
  have r0: "has_room (main_heap (set_heap m s)) (M(h \<mapsto> (p, []))) n k" using assms(1) by simp
  obtain m1 where 1: "write_byte h a (set_heap m s) = Some (set_heap m1 s)" "has_room m1 (M(h \<mapsto> (p, [a]))) (n - 1) k"
    by (rule main_write [OF r0 fun_upd_same n(1), where b = a, unfolded fun_upd_upd set_heap_simps append_Nil])
  have r1: "has_room (main_heap (set_heap m1 s)) (M(h \<mapsto> (p, [a]))) (n - 1) k" using 1(2) by simp
  obtain m2 where 2: "write_byte h b (set_heap m1 s) = Some (set_heap m2 s)" "has_room m2 (M(h \<mapsto> (p, [a] @ [b]))) (n - 1 - 1) k"
    by (rule main_write [OF r1 fun_upd_same n(2), where b = b, unfolded fun_upd_upd set_heap_simps])
  have r2: "has_room (main_heap (set_heap m2 s)) (M(h \<mapsto> (p, [a] @ [b]))) (n - 1 - 1) k" using 2(2) by simp
  have v: "(M(h \<mapsto> (p, [a] @ [b]))) (MEMORY_HANDLE_MAIN_LOOP_1 L) = Some (p, [a] @ [b])" "MEMORY_HANDLE_MAIN_LOOP_1 L < k"
    using assms(2,3) by simp_all
  obtain m3 where 3: "reply_with L send c (set_heap m2 s) = Some (frame_sent (frame (param (set_heap m2 s)) kind (([a] @ [b]) @ [c])) m3 (set_heap m2 s))"
    "has_room m3 (M(h \<mapsto> (p, [a] @ [b]), MEMORY_HANDLE_MAIN_LOOP_1 L \<mapsto> ([], []))) (n - 1 - 1 - 1) k"
    by (rule main_reply [OF r2 v n(3) _ assms(6)]) (use assms(5) in simp)
  show thesis by (rule that [OF 1, of m2 m3]) (use 2 3 assms(2) in simp_all)
qed

text \<open>What the reply to a request that is turned down says.\<close>

definition refusal :: "('a, 'b) server \<Rightarrow> u8 list \<Rightarrow> u8 list option" where
  "refusal sv p = (if length p < 2 then Some [0xFF, 0xFF, COMMLAYER_TO_CU_STATUS_FAILED_INCOMPLETE_OR_CORRUPTED_DATA]
     else if \<not> device_packet_ok p then Some [p ! 0, p ! 1, COMMLAYER_TO_CU_STATUS_FAILED_INCOMPLETE_OR_CORRUPTED_DATA]
     else if packet_dev_id p \<in> dc_device_id ` set (all_devices sv) then Some [p ! 0, p ! 1, COMMLAYER_TO_CU_STATUS_FAILED_EXISTS]
     else None)"

lemma add_request_refused:
  assumes arrived: "request_arrived L s p" and room: "8 \<le> free_space (main_heap s)" and no: "refusal (srv s) p = Some r"
  obtains m where "add_device_request L s = Some (None, frame_sent (frame (param s) COMMLAYER_TO_CU_STATUS_DEVICE_ADDED r) m s)"
    "handles_inv m" "messages m = (messages (main_heap s))(MEMORY_HANDLE_MAIN_LOOP_1 L \<mapsto> ([], []))"
proof -
  let ?h = "MEMORY_HANDLE_MAIN_LOOP_1 L" and ?M = "messages (main_heap s)" and ?k = "MEMORY_HANDLE_MAX (main_heap s)"
    and ?n = "free_space (main_heap s)" and ?bad = COMMLAYER_TO_CU_STATUS_FAILED_INCOMPLETE_OR_CORRUPTED_DATA
  have sr: "send_results (net (srv s)) = []" using arrived by (simp add: request_arrived_def)
  obtain m where m: "hand_over ?h s = Some (set_heap m s)" "zepto_parser_init m ?h = Some (at ?h 0)"
    "zepto_parsing_remaining_bytes m (at ?h 0) = Some (int (length p), at ?h 0)" "?h < ?k" "has_room m (?M(?h \<mapsto> (p, []))) ?n ?k"
    by (rule request_start [OF arrived])
  note start = m(1-3)
  show thesis
  proof (cases "length p < 2")
    case True
    obtain m1 m2 m3 where w: "write_byte ?h 0xFF (set_heap m s) = Some (set_heap m1 s)" "write_byte ?h 0xFF (set_heap m1 s) = Some (set_heap m2 s)"
      "reply_with L send_device_add_completion_to_central_unit ?bad (set_heap m2 s) =
        Some (frame_sent (frame (param s) COMMLAYER_TO_CU_STATUS_DEVICE_ADDED [0xFF, 0xFF, ?bad]) m3 s)"
      "has_room m3 (?M(?h \<mapsto> ([], []))) (?n - 3) ?k"
      by (rule dev_id_then_reply [OF m(5) refl m(4) room sr sends_within_master(1)])
    show thesis
      by (rule that [of m3]) (use start w True no in \<open>simp_all add: add_device_request_def refusal_def has_room_def\<close>)
  next
    case False
    then have len: "2 \<le> length p" by simp
    let ?c = "if device_packet_ok p then COMMLAYER_TO_CU_STATUS_FAILED_EXISTS else ?bad"
    have r: "r = [p ! 0, p ! 1, ?c]" and known: "device_packet_ok p \<Longrightarrow> packet_dev_id p \<in> dc_device_id ` set (all_devices (srv s))"
      using no False by (auto simp: refusal_def split: if_splits)
    obtain m1 m2 m3 where w: "write_byte ?h (p ! 0) (set_heap m s) = Some (set_heap m1 s)" "write_byte ?h (p ! 1) (set_heap m1 s) = Some (set_heap m2 s)"
      "has_room m2 (?M(?h \<mapsto> (p, [p ! 0, p ! 1]))) (?n - 2) ?k"
      "reply_with L send_device_add_completion_to_central_unit ?c (set_heap m2 s) =
        Some (frame_sent (frame (param s) COMMLAYER_TO_CU_STATUS_DEVICE_ADDED r) m3 s)"
      "has_room m3 (?M(?h \<mapsto> ([], []))) (?n - 3) ?k"
      by (rule dev_id_then_reply [OF m(5) refl m(4) room sr sends_within_master(1), of "p ! 0" "p ! 1" ?c]) (auto simp: r)
    have id: "parse_dev_id m (at ?h 0) = Some (packet_dev_id p, at ?h 2)" by (rule parse_dev_id_at [OF m(5) fun_upd_same len])
    have wid: "write_dev_id L (packet_dev_id p) (set_heap m s) = Some (set_heap m2 s)"
      using w(1,2) by (simp add: write_dev_id_def packet_dev_id_bytes)
    have "add_device_request L s = Some (None, frame_sent (frame (param s) COMMLAYER_TO_CU_STATUS_DEVICE_ADDED r) m3 s)"
    proof (cases "length p < 22")
      case True
      then have "?c = ?bad" by (simp add: device_packet_ok_def)
      then show ?thesis using start id wid w(4) True False by (simp add: add_device_request_def)
    next
      case long: False
      have f: "parse_device_fields m2 (at ?h 2) = Some (\<lparr>df_key = take 16 (drop 2 p), df_is_retransmitter = p ! 18,
          df_bus_id_max = p ! 19, df_bus_type_cnt = p ! 20\<rparr>, at ?h 21)"
        by (rule parse_device_fields_at [OF w(3) fun_upd_same]) (use long in simp)
      have size: "(int (length p) \<noteq> 21 + uint (p ! 20)) = (length p \<noteq> 21 + unat (p ! 20))" 
        using uint_nat [of "p ! 20"] by linarith
      show ?thesis
      proof (cases "device_packet_ok p")
        case True
        have "main_add_new_device (stack L) (uninitialised_device L) (srv (set_heap m2 s)) (packet_dev_id p) (take 16 (drop 2 p)) =
            Some (MAIN_DEVICES_RET_ALREADY_EXISTS, srv (set_heap m2 s))"
          using known [OF True] by (auto simp: main_add_new_device_def list_ex_iff)
        moreover have "\<not> int (length p) < 2" "\<not> int (length p) < 22" "\<not> (p ! 20 = 0 \<or> int (length p) \<noteq> 21 + uint (p ! 20))"
          using long size True by (linarith, linarith, simp add: device_packet_ok_def)
        ultimately show ?thesis using start id wid w(4) f True
          by (simp add: add_device_request_def MAIN_DEVICES_RET_OK_def MAIN_DEVICES_RET_ALREADY_EXISTS_def)
      next
        case bad: False
        then have "p ! 20 = 0 \<or> int (length p) \<noteq> 21 + uint (p ! 20)" using long size by (simp add: device_packet_ok_def)
        then show ?thesis using start id wid w(4) f long False bad by (simp add: add_device_request_def)
      qed
    qed
    then show thesis using that w(5) by (simp add: has_room_def)
  qed
qed

text \<open>
  What a request that is carried out relies on: the library call returns and takes no memory, and the
  system still accepts what is sent.
\<close>

definition tidy :: "('a \<Rightarrow> u16 \<Rightarrow> stored \<Rightarrow> ('a \<times> stored) option) \<Rightarrow> bool" where
  "tidy f \<longleftrightarrow> returns f \<and> keeps_messages f \<and> (\<forall>x k ds c x' ds' c'. f x k (ds, c) = Some (x', ds', c') \<longrightarrow>
     free_space (heap c) \<le> free_space (heap c') \<and> send_results c' = send_results c)"

lemma add_new_device_tidy:
  assumes ok: "server_ok s" and new: "k \<notin> dc_device_id ` set (all_devices s)"
    and room: "68 \<le> free_space (heap (net s))" "messages (heap (net s)) (MEMORY_HANDLE_MAX (heap (net s))) \<noteq> None"
    and lib: "tidy (sasp_init_eeprom_data_at_lifestart L)"
  obtains d s' M where "main_add_new_device L blank s k key = Some (MAIN_DEVICES_RET_OK, s')" "server_ok s'"
    "all_devices s' = all_devices s @ [d]" "dc_device_id d = k" "AES_ENCRYPTION_KEY d = key"
    "has_room (heap (net s')) M (free_space (heap (net s)) - 68) (MEMORY_HANDLE_MAX (heap (net s)))"
    "\<And>h. messages (heap (net s)) h \<noteq> None \<Longrightarrow> M h = messages (heap (net s)) h"
    "mesh_root s' = mesh_root s" "send_results (net s') = send_results (net s)"
proof -
  let ?m = "heap (net s)"
  have l: "returns (sasp_init_eeprom_data_at_lifestart L)" "keeps_messages (sasp_init_eeprom_data_at_lifestart L)"
    using lib by (simp_all add: tidy_def)
  obtain d s' where s': "main_add_new_device L blank s k key = Some (MAIN_DEVICES_RET_OK, s')" "server_ok s'"
    "all_devices s' = all_devices s @ [d]" "dc_device_id d = k" "AES_ENCRYPTION_KEY d = key"
    "\<forall>h \<in> set (device_handles d). messages ?m h = None"
    "messages (heap (net s')) = (\<lambda>h. if h \<in> set (device_handles d) then Some ([], []) else messages ?m h)"
    by (rule add_new_device_effect [OF ok new room l])
  have inv: "handles_inv ?m" using ok by (simp add: server_ok_def)
  obtain d0 m where d0: "acquire_device_handles ?m (blank\<lparr>dc_device_id := k, AES_ENCRYPTION_KEY := key\<rparr>) = Some (d0, m)"
    "free_space ?m - 68 \<le> free_space m"
    by (rule acquire_device_handles_fit [OF has_room_now [OF inv] room(2,1)])
  have m: "MEMORY_HANDLE_MAX m = MEMORY_HANDLE_MAX ?m" "handles_inv m" by (rule acquired_device_handles [OF inv d0(1)], simp)+
  have fresh: "\<not> list_ex (\<lambda>d. dc_device_id d = k) (all_devices s)" using new by (auto simp: list_ex_iff)
  obtain d1 s1 where call: "sasp_call (sasp_init_eeprom_data_at_lifestart L) d0 (with_heap m s) = Some (d1, s1)"
    and e: "s' = s1\<lparr>all_devices := all_devices s1 @ [init_contexts L d1]\<rparr>"
    using s'(1) d0(1) fresh by (auto simp: main_add_new_device_def Let_def split: bind_splits)
  obtain x ds c where f: "sasp_init_eeprom_data_at_lifestart L (sasp_data d0) (dc_device_id d0) (storage s, (net s)\<lparr>heap := m\<rparr>) = Some (x, ds, c)"
    and s1: "s1 = (with_heap m s)\<lparr>storage := ds, net := c\<rparr>"
    using call by (auto simp: sasp_call_def split: bind_splits)
  have "free_space (heap ((net s)\<lparr>heap := m\<rparr>)) \<le> free_space (heap c) \<and> send_results c = send_results ((net s)\<lparr>heap := m\<rparr>)"
    using lib f unfolding tidy_def by blast
  moreover have "MEMORY_HANDLE_MAX (heap (net s1)) = MEMORY_HANDLE_MAX m" by (rule sasp_call_effect [OF l(2) call]) (use m(2) in simp_all)
  ultimately have c: "free_space m \<le> free_space (heap c)" "send_results c = send_results (net s)"
    "MEMORY_HANDLE_MAX (heap c) = MEMORY_HANDLE_MAX m" by (simp_all add: s1)
  show thesis
    by (rule that [OF s'(1-5), of "messages (heap (net s'))"])
      (use s'(2,6,7) e s1 c m d0(2) room(1) in \<open>auto simp: has_room_def server_ok_def with_heap_def\<close>)
qed

lemma server_ok_working:
  assumes "server_ok sv" "has_room m (M(h \<mapsto> c)) n (MEMORY_HANDLE_MAX (heap (net sv)))" "h < MEMORY_HANDLE_MAX (heap (net sv))"
    "\<And>h. messages (heap (net sv)) h \<noteq> None \<Longrightarrow> M h = messages (heap (net sv)) h"
  shows "server_ok (with_heap m sv)"
  using assms unfolding server_ok_def owned_handles_def by (auto simp: has_room_def)

definition new_mesh_device :: "sa_time_val \<Rightarrow> u8 list \<Rightarrow> SIOT_MESH_DEVICE_ROUTE_AND_LINK_DATA" where
  "new_mesh_device blank p = \<lparr>device_id = packet_dev_id p, is_retransmitter = (p ! 18 \<noteq> 0), bus_id_max = ucast (p ! 19),
     last_from_santa_request_id = 0, time_to_sent_next_from_santa = blank, from_santa_sequence_started = False,
     siot_m_route_table_confirmed = [], siot_m_link_table_confirmed = [], siot_m_route_table_planned = [],
     siot_m_link_table_planned = [], bus_type_list = map uint (drop 21 p)\<rparr>"

lemma add_to_mesh_effect:
  assumes "packet_dev_id p \<notin> device_id ` set (mesh_routing_data (mesh_root (srv s)))"
  shows "add_to_mesh L s (packet_dev_id p) \<lparr>df_key = key, df_is_retransmitter = p ! 18, df_bus_id_max = p ! 19, df_bus_type_cnt = c\<rparr> (drop 21 p) =
    Some (s\<lparr>srv := (srv s)\<lparr>mesh_root := (mesh_root (srv s))\<lparr>mesh_routing_data :=
      mesh_routing_data (mesh_root (srv s)) @ [new_mesh_device (uninitialised_time L) p]\<rparr>\<rparr>\<rparr>)"
proof -
  have "\<not> list_ex (\<lambda>d. device_id d = packet_dev_id p) (mesh_routing_data (mesh_root (srv s)))"
    unfolding list_ex_iff using assms by (metis imageI)
  then show ?thesis by (simp add: add_to_mesh_def siot_mesh_at_root_add_device_def new_mesh_device_def)
qed

lemma add_request_accepted:
  assumes arrived: "request_arrived L s p" and ok: "server_ok (srv s)" and no: "refusal (srv s) p = None" and size: "length p \<le> 37"
    and mesh: "packet_dev_id p \<notin> device_id ` set (mesh_routing_data (mesh_root (srv s)))"
    and room: "78 \<le> free_space (main_heap s)" "messages (main_heap s) (MEMORY_HANDLE_MAX (main_heap s)) \<noteq> None"
    and lib: "tidy (sasp_init_eeprom_data_at_lifestart (stack L))"
  obtains d s' before where "add_device_request L s = Some (None, s')" "server_ok (srv s')"
    "all_devices (srv s') = all_devices (srv s) @ [d]" "dc_device_id d = packet_dev_id p" "AES_ENCRYPTION_KEY d = take 16 (drop 2 p)"
    "mesh_routing_data (mesh_root (srv s')) = mesh_routing_data (mesh_root (srv s)) @ [new_mesh_device (uninitialised_time L) p]"
    "sent (net (srv s')) = before @ [frame (param s) COMMLAYER_TO_CU_STATUS_DEVICE_ADDED [p ! 0, p ! 1, COMMLAYER_TO_CU_STATUS_OK]]"
proof -
  let ?h = "MEMORY_HANDLE_MAIN_LOOP_1 L" and ?M = "messages (main_heap s)" and ?k = "MEMORY_HANDLE_MAX (main_heap s)"
    and ?n = "free_space (main_heap s)"
  have sr: "send_results (net (srv s)) = []" using arrived by (simp add: request_arrived_def)
  have p: "device_packet_ok p" "packet_dev_id p \<notin> dc_device_id ` set (all_devices (srv s))"
    using no by (auto simp: refusal_def split: if_splits)
  have len: "22 \<le> length p" using p(1) by (simp add: device_packet_ok_def)
  then have len2: "2 \<le> length p" "21 \<le> length p" by simp_all
  obtain m where m: "hand_over ?h s = Some (set_heap m s)" "zepto_parser_init m ?h = Some (at ?h 0)"
    "zepto_parsing_remaining_bytes m (at ?h 0) = Some (int (length p), at ?h 0)" "?h < ?k" "has_room m (?M(?h \<mapsto> (p, []))) ?n ?k"
    by (rule request_start [OF arrived])
  have n: "8 \<le> ?n" using room(1) by simp
  obtain m1 m2 m3 where w: "write_byte ?h (p ! 0) (set_heap m s) = Some (set_heap m1 s)" "write_byte ?h (p ! 1) (set_heap m1 s) = Some (set_heap m2 s)"
    "has_room m2 (?M(?h \<mapsto> (p, [p ! 0, p ! 1]))) (?n - 2) ?k"
    by (rule dev_id_then_reply [OF m(5) refl m(4) n sr sends_within_master(1), of "p ! 0" "p ! 1" 0]) auto
  let ?sv = "with_heap m2 (srv s)"
  have k2: "MEMORY_HANDLE_MAX m2 = ?k" "messages m2 = ?M(?h \<mapsto> (p, [p ! 0, p ! 1]))" "?n - 2 \<le> free_space m2" using w(3) by (simp_all add: has_room_def)
  have ok2: "server_ok ?sv" by (rule server_ok_working [OF ok w(3) m(4)]) simp
  have pre: "packet_dev_id p \<notin> dc_device_id ` set (all_devices ?sv)" "68 \<le> free_space (heap (net ?sv))"
    "messages (heap (net ?sv)) (MEMORY_HANDLE_MAX (heap (net ?sv))) \<noteq> None"
    using p(2) room k2 by auto
  obtain d sv M where sv: "main_add_new_device (stack L) (uninitialised_device L) ?sv (packet_dev_id p) (take 16 (drop 2 p)) = Some (MAIN_DEVICES_RET_OK, sv)"
    "server_ok sv" "all_devices sv = all_devices ?sv @ [d]" "dc_device_id d = packet_dev_id p" "AES_ENCRYPTION_KEY d = take 16 (drop 2 p)"
    "has_room (heap (net sv)) M (free_space (heap (net ?sv)) - 68) (MEMORY_HANDLE_MAX (heap (net ?sv)))"
    "\<And>h. messages (heap (net ?sv)) h \<noteq> None \<Longrightarrow> M h = messages (heap (net ?sv)) h"
    "mesh_root sv = mesh_root ?sv" "send_results (net sv) = send_results (net ?sv)"
    by (rule add_new_device_tidy [OF ok2 pre lib, of "uninitialised_device L" "take 16 (drop 2 p)"]) (rule that, assumption+)
  let ?s1 = "(set_heap m2 s)\<lparr>srv := sv\<rparr>"
  have v: "M ?h = Some (p, [p ! 0, p ! 1])" and r1: "has_room (main_heap ?s1) M (free_space m2 - 68) ?k"
    using sv(6,7) k2 by simp_all
  have n2: "1 \<le> free_space m2 - 68" "5 \<le> free_space m2 - 68 - 1" using k2(3) room(1) by simp_all
  obtain m4 where 4: "write_byte ?h COMMLAYER_TO_CU_STATUS_OK ?s1 = Some (set_heap m4 ?s1)"
    "has_room m4 (M(?h \<mapsto> (p, [p ! 0, p ! 1] @ [COMMLAYER_TO_CU_STATUS_OK]))) (free_space m2 - 68 - 1) ?k"
    by (rule main_write [OF r1 v n2(1)])
  let ?s2 = "set_heap m4 ?s1"
  have r2: "has_room (main_heap ?s2) (M(?h \<mapsto> (p, [p ! 0, p ! 1] @ [COMMLAYER_TO_CU_STATUS_OK]))) (free_space m2 - 68 - 1) ?k" using 4(2) by simp
  have bus: "parse_bus_types (main_heap ?s2) (at ?h 21) (p ! 20) = Some (drop 21 p)" by (rule parse_bus_types_at [OF r2 fun_upd_same p(1) size])
  let ?data = "mesh_routing_data (mesh_root (srv s)) @ [new_mesh_device (uninitialised_time L) p]"
  have root: "mesh_root (srv ?s2) = mesh_root (srv s)" using sv(8) by simp
  let ?s3 = "?s2\<lparr>srv := (srv ?s2)\<lparr>mesh_root := (mesh_root (srv s))\<lparr>mesh_routing_data := ?data\<rparr>\<rparr>\<rparr>"
  have add: "add_to_mesh L ?s2 (packet_dev_id p) \<lparr>df_key = take 16 (drop 2 p), df_is_retransmitter = p ! 18, df_bus_id_max = p ! 19,
      df_bus_type_cnt = p ! 20\<rparr> (drop 21 p) = Some ?s3"
    using add_to_mesh_effect [of p ?s2 L] mesh root by simp
  have r3: "has_room (main_heap ?s3) (M(?h \<mapsto> (p, [p ! 0, p ! 1] @ [COMMLAYER_TO_CU_STATUS_OK]))) (free_space m2 - 68 - 1) ?k" using 4(2) by simp
  obtain m5 where 5: "hand_over ?h ?s3 = Some (set_heap m5 ?s3)"
    "has_room m5 (M(?h \<mapsto> ([p ! 0, p ! 1] @ [COMMLAYER_TO_CU_STATUS_OK], []))) (free_space m2 - 68 - 1) ?k"
    by (rule main_hand_over [OF r3 fun_upd_same, unfolded fun_upd_upd])
  have r5: "has_room (main_heap (set_heap m5 ?s3)) (M(?h \<mapsto> ([p ! 0, p ! 1] @ [COMMLAYER_TO_CU_STATUS_OK], []))) (free_space m2 - 68 - 1) ?k"
    using 5(2) by simp
  have sr5: "send_results (net (srv (set_heap m5 ?s3))) = []" using sv(9) sr by simp
  let ?f = "frame (param s) COMMLAYER_TO_CU_STATUS_DEVICE_ADDED ([p ! 0, p ! 1] @ [COMMLAYER_TO_CU_STATUS_OK])"
  obtain m6 where 6: "sending (\<lambda>c. send_within_master c ?h (param s) COMMLAYER_TO_CU_STATUS_DEVICE_ADDED) (set_heap m5 ?s3) =
      Some (COMMLAYER_RET_OK, frame_sent ?f m6 (set_heap m5 ?s3))" "has_room m6 (M(?h \<mapsto> ([], []))) (free_space m2 - 68 - 1) ?k"
    by (rule main_send [OF r5 fun_upd_same m(4) n2(2) sr5, unfolded fun_upd_upd])
  have id: "parse_dev_id m (at ?h 0) = Some (packet_dev_id p, at ?h 2)" by (rule parse_dev_id_at [OF m(5) fun_upd_same len2(1)])
  have wid: "write_dev_id L (packet_dev_id p) (set_heap m s) = Some (set_heap m2 s)"
    using w(1,2) by (simp add: write_dev_id_def packet_dev_id_bytes)
  have f: "parse_device_fields m2 (at ?h 2) = Some (\<lparr>df_key = take 16 (drop 2 p), df_is_retransmitter = p ! 18,
      df_bus_id_max = p ! 19, df_bus_type_cnt = p ! 20\<rparr>, at ?h 21)"
    by (rule parse_device_fields_at [OF w(3) fun_upd_same len2(2)])
  have nums: "\<not> int (length p) < 2" "\<not> int (length p) < 22" "\<not> (p ! 20 = 0 \<or> int (length p) \<noteq> 21 + uint (p ! 20))"
    using len p(1) uint_nat [of "p ! 20"] by (linarith, linarith, auto simp: device_packet_ok_def)
  have run: "add_device_request L s = Some (None, frame_sent ?f m6 (set_heap m5 ?s3))"
    using m(1-3) id wid f nums sv(1) 4(1) bus add 5(1) 6(1) by (simp add: add_device_request_def sends_within_master)
  show thesis
  proof (rule that [OF run])
    have "srv (frame_sent ?f m6 (set_heap m5 ?s3)) = (with_heap m6 sv)
      \<lparr>net := (net sv)\<lparr>heap := m6, sent := sent (net sv) @ [?f]\<rparr>, mesh_root := (mesh_root (srv s))\<lparr>mesh_routing_data := ?data\<rparr>\<rparr>"
      by (simp add: frame_sent_def set_net_def set_heap_def with_heap_def)
    moreover have "server_ok (with_heap m6 sv)"
      by (rule server_ok_working [OF sv(2), of m6 M ?h "([], [])" "free_space m2 - 68 - 1"]) (use 6(2) sv(6) m(4) k2(1) in \<open>auto simp: has_room_def\<close>)
    ultimately show "server_ok (srv (frame_sent ?f m6 (set_heap m5 ?s3)))" by (simp add: server_ok_def owned_handles_def with_heap_def)
  qed (use sv(3-5) in simp_all)
qed

section \<open>Requests to remove a device\<close>

text \<open>A request that is carried out.\<close>

lemma remove_device_tidy:
  assumes ok: "server_ok s" and i: "first_index (\<lambda>d. dc_device_id d = k) (all_devices s) = Some i"
    and four: "length (device_handles (all_devices s ! i)) = 4" and lib: "tidy (handler_sasp_save_state L)"
  obtains s' where "main_remove_device L s k = Some (MAIN_DEVICES_RET_OK, s')" "free_space (heap (net s)) \<le> free_space (heap (net s'))"
    "MEMORY_HANDLE_MAX (heap (net s')) = MEMORY_HANDLE_MAX (heap (net s))" "send_results (net s') = send_results (net s)" "mesh_root s' = mesh_root s"
proof -
  have f: "returns (handler_sasp_save_state L)" "keeps_messages (handler_sasp_save_state L)" using lib by (simp_all add: tidy_def)
  obtain xs d ys where ds: "all_devices s = xs @ d # ys" "all_devices s ! i = d" using first_index_split [OF i] by metis
  have inv: "handles_inv (heap (net s))" and dist: "distinct (owned_handles s)" using ok by (simp_all add: server_ok_def)
  have mine: "set (device_handles d) \<subseteq> set (owned_handles s)" "distinct (device_handles d)"
    using owned_handles_split(3,4) [OF ds(1), of "s\<lparr>all_devices := xs @ ys\<rparr>" "[]"] dist by simp_all
  obtain m where m: "release_device_handles (heap (net s)) d = Some m" "handles_inv m"
    "MEMORY_HANDLE_MAX m = MEMORY_HANDLE_MAX (heap (net s))" "free_space (heap (net s)) \<le> free_space m"
    by (rule release_device_messages [OF inv, of d]) (use mine four ds(2) ok in \<open>auto simp: server_ok_def\<close>)
  obtain s' where run: "main_remove_device L s k = Some (MAIN_DEVICES_RET_OK, s')" by (rule remove_device_returns [OF ok i four f(1)])
  then obtain d1 s1 where call: "sasp_call (handler_sasp_save_state L) d (with_heap m s) = Some (d1, s1)"
    and e: "s' = s1\<lparr>all_devices := take i (all_devices s1) @ drop (Suc i) (all_devices s1)\<rparr>"
    using m(1) i ds(2) by (auto simp: remove_device_unfold split: bind_splits)
  obtain x st c where c: "handler_sasp_save_state L (sasp_data d) (dc_device_id d) (storage s, (net s)\<lparr>heap := m\<rparr>) = Some (x, st, c)"
    and s1: "s1 = (with_heap m s)\<lparr>storage := st, net := c\<rparr>" using call by (auto simp: sasp_call_def split: bind_splits)
  have "free_space (heap ((net s)\<lparr>heap := m\<rparr>)) \<le> free_space (heap c) \<and> send_results c = send_results ((net s)\<lparr>heap := m\<rparr>)"
    using lib c unfolding tidy_def by blast
  moreover have "handles_inv (heap ((net s)\<lparr>heap := m\<rparr>))" using m(2) by simp
  then have "MEMORY_HANDLE_MAX (heap c) = MEMORY_HANDLE_MAX (heap ((net s)\<lparr>heap := m\<rparr>))"
    using f(2) c unfolding keeps_messages_def by blast
  ultimately show thesis by (intro that [OF run]) (use e s1 m(3,4) in \<open>simp_all add: with_heap_def\<close>)
qed

lemma remove_request_done:
  assumes arrived: "request_arrived L s [a, b]" and ok: "server_ok (srv s)" and room: "8 \<le> free_space (main_heap s)"
    and i: "first_index (\<lambda>d. dc_device_id d = packet_dev_id [a, b]) (all_devices (srv s)) = Some i"
    and four: "length (device_handles (all_devices (srv s) ! i)) = 4" and lib: "tidy (handler_sasp_save_state (stack L))"
    and mesh: "siot_mesh_at_root_remove_device (mesh_root (srv s)) (packet_dev_id [a, b]) = Some (ret2, mesh')"
  obtains s' before where "remove_device_request L blank_id s = Some (None, s')" "server_ok (srv s')" "mesh_root (srv s') = mesh'"
    "all_devices (srv s') = take i (all_devices (srv s)) @ drop (Suc i) (all_devices (srv s))"
    "sent (net (srv s')) = before @ [frame (param s) COMMLAYER_TO_CU_STATUS_DEVICE_REMOVED
      [a, b, if ret2 = SIOT_MESH_AT_ROOT_RET_OK then COMMLAYER_TO_CU_STATUS_OK else COMMLAYER_TO_CU_STATUS_FAILED_UNKNOWN_REASON]]"
proof -
  let ?h = "MEMORY_HANDLE_MAIN_LOOP_1 L" and ?M = "messages (main_heap s)" and ?k = "MEMORY_HANDLE_MAX (main_heap s)"
    and ?n = "free_space (main_heap s)" and ?id = "packet_dev_id [a, b]"
  let ?c = "if ret2 = SIOT_MESH_AT_ROOT_RET_OK then COMMLAYER_TO_CU_STATUS_OK else COMMLAYER_TO_CU_STATUS_FAILED_UNKNOWN_REASON"
  have sr: "send_results (net (srv s)) = []" and h: "messages (main_heap s) ?h \<noteq> None" using arrived by (auto simp: request_arrived_def)
  obtain m where m: "hand_over ?h s = Some (set_heap m s)" "zepto_parser_init m ?h = Some (at ?h 0)"
    "zepto_parsing_remaining_bytes m (at ?h 0) = Some (int (length [a, b]), at ?h 0)" "?h < ?k" "has_room m (?M(?h \<mapsto> ([a, b], []))) ?n ?k"
    by (rule request_start [OF arrived])
  let ?sv = "with_heap m (srv s)"
  have own: "MEMORY_HANDLE_MAX (main_heap s) \<le> g" if "g \<in> set (owned_handles (srv s))" for g using ok that by (simp add: server_ok_def)
  have ok1: "server_ok ?sv"
    using ok m(4,5) own unfolding server_ok_def owned_handles_def by (force simp: has_room_def with_heap_def)
  have i1: "first_index (\<lambda>d. dc_device_id d = ?id) (all_devices ?sv) = Some i" "length (device_handles (all_devices ?sv ! i)) = 4"
    using i four by (simp_all add: with_heap_def)
  obtain sv where sv: "main_remove_device (stack L) ?sv ?id = Some (MAIN_DEVICES_RET_OK, sv)" "free_space (heap (net ?sv)) \<le> free_space (heap (net sv))"
    "MEMORY_HANDLE_MAX (heap (net sv)) = MEMORY_HANDLE_MAX (heap (net ?sv))" "send_results (net sv) = send_results (net ?sv)" "mesh_root sv = mesh_root ?sv"
    by (rule remove_device_tidy [OF ok1 i1 lib])
  have km: "keeps_messages (handler_sasp_save_state (stack L))" using lib by (simp add: tidy_def)
  note rem = removed_device [OF ok1 km i1(1) sv(1)]
  let ?dh = "set (device_handles (all_devices (srv s) ! i))"
  have mine: "?h \<notin> ?dh"
  proof
    assume "?h \<in> ?dh"
    then have "?h \<in> set (owned_handles (srv s))"
      using i by (force simp: owned_handles_def first_index_Some)
    then show False using own m(4) by fastforce
  qed
  let ?s1 = "s\<lparr>srv := sv\<lparr>mesh_root := mesh'\<rparr>\<rparr>" and ?M1 = "messages (heap (net sv))"
  have m1: "has_room (heap (net sv)) ?M1 ?n ?k" "?M1 ?h = Some ([a, b], [])"
    using rem sv(2,3) m(5) mine by (auto simp: server_ok_def has_room_def with_heap_def)
  then have r: "has_room (heap (net sv)) (?M1(?h \<mapsto> ([a, b], []))) ?n ?k" by (simp add: fun_upd_idem)
  have sr1: "send_results (net (srv ?s1)) = []" using sv(4) sr by (simp add: with_heap_def)
  obtain m2 m3 m4 where w: "write_byte ?h a (set_heap (heap (net sv)) ?s1) = Some (set_heap m2 ?s1)"
    "write_byte ?h b (set_heap m2 ?s1) = Some (set_heap m3 ?s1)"
    "reply_with L send_device_remove_completion_to_central_unit ?c (set_heap m3 ?s1) =
      Some (frame_sent (frame (param ?s1) COMMLAYER_TO_CU_STATUS_DEVICE_REMOVED [a, b, ?c]) m4 ?s1)" "has_room m4 (?M1(?h \<mapsto> ([], []))) (?n - 3) ?k"
    by (rule dev_id_then_reply [OF r refl m(4) room sr1 sends_within_master(2)])
  let ?s' = "frame_sent (frame (param s) COMMLAYER_TO_CU_STATUS_DEVICE_REMOVED [a, b, ?c]) m4 ?s1"
  have same: "set_heap (heap (net sv)) ?s1 = ?s1" by (simp add: set_heap_def with_heap_def)
  have wid: "write_dev_id L ?id ?s1 = Some (set_heap m3 ?s1)"
    using w(1,2) packet_dev_id_bytes [of "[a, b]"] by (simp add: write_dev_id_def same)
  have len2: "2 \<le> length [a, b]" by simp
  have id: "parse_dev_id m (at ?h 0) = Some (?id, at ?h 2)" by (rule parse_dev_id_at [OF m(5) fun_upd_same len2])
  have mesh1: "siot_mesh_at_root_remove_device (mesh_root sv) ?id = Some (ret2, mesh')" using mesh sv(5) by (simp add: with_heap_def)
  have over: "(set_heap m s)\<lparr>srv := x\<rparr> = s\<lparr>srv := x\<rparr>" for x by (simp add: set_heap_def)
  have run: "remove_device_request L blank_id s = Some (None, ?s')"
    using m(1-3) id sv(1) mesh1 wid w(3) over unfolding remove_device_request_def by (simp add: Let_def)
  show thesis
  proof (rule that [OF run])
    have "server_ok (with_heap m4 sv)"
      by (rule server_ok_working [of sv m4 ?M1 ?h "([], [])" "?n - 3"])
        (use rem w(4) m(4,5) sv(3) in \<open>simp_all add: has_room_def with_heap_def\<close>)
    then show "server_ok (srv ?s')" by (simp add: frame_sent_def set_net_def server_ok_def owned_handles_def with_heap_def)
    show "all_devices (srv ?s') = take i (all_devices (srv s)) @ drop (Suc i) (all_devices (srv s))"
      using rem by (simp add: with_heap_def)
  qed simp_all
qed

lemma remove_request_malformed:
  assumes arrived: "request_arrived L s p" and room: "14 \<le> free_space (main_heap s)" and len: "length p \<noteq> 2"
  obtains m m' where "remove_device_request L blank_id s = Some (None,
      frame_sent (frame (param s) COMMLAYER_TO_CU_STATUS_DEVICE_REMOVED [ucast blank_id, ucast (drop_bit 8 blank_id), COMMLAYER_TO_CU_STATUS_FAILED_UNKNOWN_REASON]) m'
        (frame_sent (frame (param s) COMMLAYER_TO_CU_STATUS_DEVICE_REMOVED [0xFF, 0xFF, COMMLAYER_TO_CU_STATUS_FAILED_INCOMPLETE_OR_CORRUPTED_DATA]) m s))"
proof -
  let ?h = "MEMORY_HANDLE_MAIN_LOOP_1 L" and ?M = "messages (main_heap s)" and ?k = "MEMORY_HANDLE_MAX (main_heap s)"
    and ?n = "free_space (main_heap s)" and ?bad = COMMLAYER_TO_CU_STATUS_FAILED_INCOMPLETE_OR_CORRUPTED_DATA
    and ?kind = COMMLAYER_TO_CU_STATUS_DEVICE_REMOVED and ?c = COMMLAYER_TO_CU_STATUS_FAILED_UNKNOWN_REASON
  have sr: "send_results (net (srv s)) = []" using arrived by (simp add: request_arrived_def)
  have n: "8 \<le> ?n" "8 \<le> ?n - 3" using room by simp_all
  obtain m where m: "hand_over ?h s = Some (set_heap m s)" "zepto_parser_init m ?h = Some (at ?h 0)"
    "zepto_parsing_remaining_bytes m (at ?h 0) = Some (int (length p), at ?h 0)" "?h < ?k" "has_room m (?M(?h \<mapsto> (p, []))) ?n ?k"
    by (rule request_start [OF arrived])
  obtain m1 m2 m3 where w: "write_byte ?h 0xFF (set_heap m s) = Some (set_heap m1 s)" "write_byte ?h 0xFF (set_heap m1 s) = Some (set_heap m2 s)"
    "reply_with L send_device_remove_completion_to_central_unit ?bad (set_heap m2 s) = Some (frame_sent (frame (param s) ?kind [0xFF, 0xFF, ?bad]) m3 s)"
    "has_room m3 (?M(?h \<mapsto> ([], []))) (?n - 3) ?k"
    by (rule dev_id_then_reply [OF m(5) refl m(4) n(1) sr sends_within_master(2)])
  let ?t = "frame_sent (frame (param s) ?kind [0xFF, 0xFF, ?bad]) m3 s"
  have sr3: "send_results (net (srv ?t)) = []" and t: "set_heap m3 ?t = ?t" "param ?t = param s" using sr by simp_all
  obtain m4 m5 m6 where v: "write_byte ?h (ucast blank_id) (set_heap m3 ?t) = Some (set_heap m4 ?t)"
    "write_byte ?h (ucast (drop_bit 8 blank_id)) (set_heap m4 ?t) = Some (set_heap m5 ?t)"
    "reply_with L send_device_remove_completion_to_central_unit ?c (set_heap m5 ?t) =
      Some (frame_sent (frame (param ?t) ?kind [ucast blank_id, ucast (drop_bit 8 blank_id), ?c]) m6 ?t)"
    by (rule dev_id_then_reply [OF w(4) refl m(4) n(2) sr3 sends_within_master(2)])
  have wid: "write_dev_id L blank_id ?t = Some (set_heap m5 ?t)" using v(1,2) t by (simp add: write_dev_id_def)
  have "int (length p) \<noteq> 2" using len by simp
  then have "remove_device_request L blank_id s =
      Some (None, frame_sent (frame (param s) ?kind [ucast blank_id, ucast (drop_bit 8 blank_id), ?c]) m6 ?t)"
    using m(1-3) w(1-3) wid v(3) t(2) unfolding remove_device_request_def by (simp add: Let_def)
  then show thesis using that by blast
qed

section \<open>Receiving while the server is initialised\<close>

lemma no_packet_queued: "(cscl_is_queued_packet [] = COMMLAYER_SYNC_STATUS_OK) = False"
  by (simp add: cscl_is_queued_packet_def COMMLAYER_SYNC_STATUS_OK_def COMMLAYER_SYNC_STATUS_NO_MORE_PACKETS_def)

definition loop_ready :: "('a, 'b) main_state \<Rightarrow> messages \<Rightarrow> int \<Rightarrow> nat \<Rightarrow> u8 list \<Rightarrow> nat \<Rightarrow> bool" where
  "loop_ready s M n k stream c \<longleftrightarrow> has_room (main_heap s) M n k \<and> packets (net (srv s)) = [] \<and>
     quiet (incoming (net (srv s))) \<and> stream_of (incoming (net (srv s))) = stream \<and> ready c (net (srv s))"

lemma loop_ready_heap:
  assumes "loop_ready s M n k stream c" "has_room m M' n' k"
  shows "loop_ready (set_heap m s) M' n' k stream c"
  using assms by (simp add: loop_ready_def ready_def)

lemma loop_ready_srv:
  assumes "loop_ready s M n k stream c" "net sv = net (srv s)"
  shows "loop_ready (s\<lparr>srv := sv\<rparr>) M n k stream c"
  using assms by (simp add: loop_ready_def)

lemma loop_receive:
  assumes ready: "loop_ready s M n k (frame b kind p @ rest) (Suc c)" and view: "M (MEMORY_HANDLE_MAIN_LOOP_1 L) = Some (rq, rsp)"
    and room: "80 \<le> n + int (length rq) + int (length rsp)" and size: "length p \<le> 80" "p \<noteq> [] \<or> rest \<noteq> []"
  obtains s1 s2 where "wait_event s = Some (COMMLAYER_RET_FROM_CENTRAL_UNIT, s1)" "receive_from_central_unit L s1 = Some (kind, s2)"
    "param s2 = b" "srv s2 = (srv s)\<lparr>net := net (srv s2)\<rparr>" "sent (net (srv s2)) = sent (net (srv s))"
    "send_results (net (srv s2)) = send_results (net (srv s))"
    "loop_ready s2 (M(MEMORY_HANDLE_MAIN_LOOP_1 L \<mapsto> ([], p))) (n + int (length rq) + int (length rsp) - int (length p)) k rest c"
proof -
  let ?c = "net (srv s)" and ?h = "MEMORY_HANDLE_MAIN_LOOP_1 L"
  have hr: "has_room (main_heap s) M n k" and q: "packets ?c = []" "quiet (incoming ?c)" "stream_of (incoming ?c) = frame b kind p @ rest"
    "ready (Suc c) ?c" using ready by (simp_all add: loop_ready_def)
  obtain c1 where c1: "internal_wait_for_communication_event ?c (wait_for s) = Some (COMMLAYER_RET_FROM_CENTRAL_UNIT, c1)" "ready c c1"
    "c1 = ?c\<lparr>select_results := select_results c1, select_timeouts := select_timeouts c1\<rparr>"
    using wait_ready [OF q(4)] by blast
  have f1: "heap c1 = main_heap s" "incoming c1 = incoming ?c" "packets c1 = []" by (subst c1(3), simp add: q(1))+
  let ?s1 = "set_infinite_wait (set_net c1 s)"
  have w: "wait_event s = Some (COMMLAYER_RET_FROM_CENTRAL_UNIT, ?s1)"
    using c1(1) q(1) by (simp add: wait_event_def wait_for_communication_event_def no_packet_queued)
  note v = has_room_content [OF hr view]
  have n: "n \<le> free_space (main_heap s)" using hr by (simp add: has_room_def)
  obtain c2 where c2: "internal_try_get_message_within_master c1 ?h = Some (kind, Some b, c2)" "received c1 ?h p rest c2"
    using receive_frame [of c1 ?h rq rsp b kind p rest] v n room q size f1 by auto
  have g: "grown (main_heap s) ?h ([], p) (heap c2)" using c2(2) f1 by (simp add: received_def)
  obtain j where e2: "c2 = c1\<lparr>heap := heap c2, incoming := incoming c2, buffer_in_with_cl_pos := j\<rparr>" using c2(2) by (auto simp: received_def)
  have f2: "packets c2 = []" "select_results c2 = select_results c1" by (subst e2, simp add: f1)+
  have out: "sent c2 = sent ?c" "send_results c2 = send_results ?c" by (subst e2, subst c1(3), simp)+
  let ?s2 = "(set_net c2 ?s1)\<lparr>param := b\<rparr>"
  have r: "receive_from_central_unit L ?s1 = Some (kind, ?s2)"
    using c2(1) f1(3) by (simp add: receive_from_central_unit_def try_get_message_within_master_def no_packet_queued set_net_def set_infinite_wait_def)
  have "has_room (heap c2) (M(?h \<mapsto> ([], p))) (n + int (length rq) + int (length rsp) - int (length p)) k"
    by (rule has_room_grown [OF hr g]) (use view n room size grown_free_space [OF g v(1,2)] in simp_all)
  then have "loop_ready ?s2 (M(?h \<mapsto> ([], p))) (n + int (length rq) + int (length rsp) - int (length p)) k rest c"
    using c2(2) f2 c1(2) by (simp add: loop_ready_def set_net_def received_def ready_def)
  then show thesis by (intro that [OF w r]) (simp_all add: set_net_def set_infinite_wait_def out)
qed

text \<open>
  A request of the central unit comes while the server waits for a packet: the frame is the first of
  the stream, and there is memory for it and for the reply.
\<close>

definition request_comes :: "('a, 'b) main_lib \<Rightarrow> ('a, 'b) main_state \<Rightarrow> u8 \<Rightarrow> u16 \<Rightarrow> u8 list \<Rightarrow> u8 list \<Rightarrow> bool" where
  "request_comes L s kind v p rest \<longleftrightarrow> handles_inv (main_heap s) \<and> MEMORY_HANDLE_MAIN_LOOP_1 L < MEMORY_HANDLE_MAX (main_heap s) \<and>
     messages (main_heap s) (MEMORY_HANDLE_MAIN_LOOP_1 L) = Some ([], []) \<and> 100 \<le> free_space (main_heap s) \<and>
     packets (net (srv s)) = [] \<and> quiet (incoming (net (srv s))) \<and> stream_of (incoming (net (srv s))) = frame v kind p @ rest \<and>
     ready 1 (net (srv s)) \<and> send_results (net (srv s)) = [] \<and> length p \<le> 80 \<and> (p \<noteq> [] \<or> rest \<noteq> [])"

lemma request_received:
  assumes "request_comes L s kind v p rest"
  obtains s1 s2 where "wait_event s = Some (COMMLAYER_RET_FROM_CENTRAL_UNIT, s1)" "receive_from_central_unit L s1 = Some (kind, s2)"
    "param s2 = v" "srv s2 = (srv s)\<lparr>net := net (srv s2)\<rparr>" "sent (net (srv s2)) = sent (net (srv s))" "request_arrived L s2 p"
    "messages (main_heap s2) = (messages (main_heap s))(MEMORY_HANDLE_MAIN_LOOP_1 L \<mapsto> ([], p))"
    "free_space (main_heap s) - int (length p) \<le> free_space (main_heap s2)" "MEMORY_HANDLE_MAX (main_heap s2) = MEMORY_HANDLE_MAX (main_heap s)"
    "stream_of (incoming (net (srv s2))) = rest"
proof -
  have l: "loop_ready s (messages (main_heap s)) (free_space (main_heap s)) (MEMORY_HANDLE_MAX (main_heap s)) (frame v kind p @ rest) (Suc 0)"
    using assms has_room_now by (simp add: request_comes_def loop_ready_def)
  have h: "messages (main_heap s) (MEMORY_HANDLE_MAIN_LOOP_1 L) = Some ([], [])" "length p \<le> 80" "p \<noteq> [] \<or> rest \<noteq> []"
    "80 \<le> free_space (main_heap s) + int (length ([] :: u8 list)) + int (length ([] :: u8 list))"
    "MEMORY_HANDLE_MAIN_LOOP_1 L < MEMORY_HANDLE_MAX (main_heap s)" "send_results (net (srv s)) = []"
    using assms by (simp_all add: request_comes_def)
  obtain s1 s2 where r: "wait_event s = Some (COMMLAYER_RET_FROM_CENTRAL_UNIT, s1)" "receive_from_central_unit L s1 = Some (kind, s2)"
    "param s2 = v" "srv s2 = (srv s)\<lparr>net := net (srv s2)\<rparr>" "sent (net (srv s2)) = sent (net (srv s))"
    "send_results (net (srv s2)) = send_results (net (srv s))" "loop_ready s2 ((messages (main_heap s))(MEMORY_HANDLE_MAIN_LOOP_1 L \<mapsto> ([], p)))
      (free_space (main_heap s) + int (length ([] :: u8 list)) + int (length ([] :: u8 list)) - int (length p)) (MEMORY_HANDLE_MAX (main_heap s)) rest 0"
    by (rule loop_receive [OF l h(1,4,2,3)])
  show thesis by (rule that [OF r(1-5)]) (use r(6,7) h(5,6) in \<open>simp_all add: loop_ready_def has_room_def request_arrived_def\<close>)
qed

text \<open>The devices keep their handles.\<close>

lemma request_received_ok:
  assumes "request_comes L s kind v p rest" "server_ok (srv s)"
  obtains s1 s2 where "wait_event s = Some (COMMLAYER_RET_FROM_CENTRAL_UNIT, s1)" "receive_from_central_unit L s1 = Some (kind, s2)"
    "param s2 = v" "srv s2 = (srv s)\<lparr>net := net (srv s2)\<rparr>" "request_arrived L s2 p" "server_ok (srv s2)"
    "free_space (main_heap s) - int (length p) \<le> free_space (main_heap s2)"
    "messages (main_heap s2) (MEMORY_HANDLE_MAX (main_heap s2)) = messages (main_heap s) (MEMORY_HANDLE_MAX (main_heap s))"
proof -
  obtain s1 s2 where r: "wait_event s = Some (COMMLAYER_RET_FROM_CENTRAL_UNIT, s1)" "receive_from_central_unit L s1 = Some (kind, s2)"
    "param s2 = v" "srv s2 = (srv s)\<lparr>net := net (srv s2)\<rparr>" "request_arrived L s2 p"
    "messages (main_heap s2) = (messages (main_heap s))(MEMORY_HANDLE_MAIN_LOOP_1 L \<mapsto> ([], p))"
    "free_space (main_heap s) - int (length p) \<le> free_space (main_heap s2)" "MEMORY_HANDLE_MAX (main_heap s2) = MEMORY_HANDLE_MAX (main_heap s)"
    by (rule request_received [OF assms(1)])
  have h: "MEMORY_HANDLE_MAIN_LOOP_1 L < MEMORY_HANDLE_MAX (main_heap s)" "handles_inv (main_heap s2)"
    using assms(1) r(5) by (simp_all add: request_comes_def request_arrived_def)
  have e: "all_devices (srv s2) = all_devices (srv s)" "owned_handles (srv s2) = owned_handles (srv s)" by (subst r(4), simp add: owned_handles_def)+
  have "server_ok (srv s2)" using assms(2) r(6,8) h e by (auto simp: server_ok_def)
  then show thesis by (intro that [OF r(1-5)]) (use r(6-8) h in simp_all)
qed

lemma event_codes: "COMMLAYER_RET_FROM_CENTRAL_UNIT \<noteq> COMMLAYER_RET_FAILED"
  by (simp add: COMMLAYER_RET_FROM_CENTRAL_UNIT_def COMMLAYER_RET_FAILED_def)

lemma request_codes:
  "COMMLAYER_FROM_CU_STATUS_ADD_DEVICE \<noteq> COMMLAYER_RET_FAILED" "COMMLAYER_FROM_CU_STATUS_REMOVE_DEVICE \<noteq> COMMLAYER_RET_FAILED"
  "COMMLAYER_FROM_CU_STATUS_ADD_DEVICE \<noteq> COMMLAYER_FROM_CU_STATUS_FOR_SLAVE" "COMMLAYER_FROM_CU_STATUS_REMOVE_DEVICE \<noteq> COMMLAYER_FROM_CU_STATUS_FOR_SLAVE"
  "COMMLAYER_FROM_CU_STATUS_ADD_DEVICE \<noteq> COMMLAYER_FROM_CU_STATUS_FROM_SLAVE" "COMMLAYER_FROM_CU_STATUS_REMOVE_DEVICE \<noteq> COMMLAYER_FROM_CU_STATUS_FROM_SLAVE"
  "COMMLAYER_FROM_CU_STATUS_REMOVE_DEVICE \<noteq> COMMLAYER_FROM_CU_STATUS_ADD_DEVICE"
  by (simp_all add: COMMLAYER_FROM_CU_STATUS_ADD_DEVICE_def COMMLAYER_FROM_CU_STATUS_REMOVE_DEVICE_def COMMLAYER_RET_FAILED_def
      COMMLAYER_FROM_CU_STATUS_FOR_SLAVE_def COMMLAYER_FROM_CU_STATUS_FROM_SLAVE_def)

end
