(* ===== verification/Main_Path.thy ===== *)
theory Main_Path
  imports Main_Rules
begin

text \<open>
  The way of a message through the layers of the protocol library, down to a device and up from it:
  what the main loop relies on of each handler, and what it makes of them.
\<close>

section \<open>The message in the working handle\<close>

definition message_at :: "nat \<Rightarrow> mem \<Rightarrow> u8 list \<times> u8 list \<Rightarrow> int \<Rightarrow> nat \<Rightarrow> bool" where
  "message_at h m c n k \<longleftrightarrow> has_room m (messages m) n k \<and> messages m h = Some c"

text \<open>The loop works on a device with this id and key, and the working handle holds the message.\<close>

definition carries ::
  "('a, 'b) main_lib \<Rightarrow> ('a, 'b) main_state \<Rightarrow> nat \<Rightarrow> u16 \<Rightarrow> u8 list \<Rightarrow> u8 list \<times> u8 list \<Rightarrow> int \<Rightarrow> nat \<Rightarrow> bool" where
  "carries L s i dv key c n k \<longleftrightarrow> device s = Some i \<and>
     (\<exists>d. item (all_devices (srv s)) i = Some d \<and> dc_device_id d = dv \<and> AES_ENCRYPTION_KEY d = key) \<and>
     message_at (MEMORY_HANDLE_MAIN_LOOP_1 L) (main_heap s) c n k \<and> send_results (net (srv s)) = []"

lemma message_at_has_room: "has_room m M n k \<Longrightarrow> M h = Some c \<Longrightarrow> message_at h m c n k"
  by (simp add: message_at_def has_room_def)

lemma carries_device:
  assumes "carries L s i dv key c n k"
  obtains d where "the_device s = Some (i, d)" "dc_device_id d = dv" "AES_ENCRYPTION_KEY d = key"
  using assms by (auto simp: carries_def the_device_def)

lemma carries_heap:
  "carries L s i dv key c n k \<Longrightarrow> message_at (MEMORY_HANDLE_MAIN_LOOP_1 L) (main_heap s) c n k"
  "carries L s i dv key c n k \<Longrightarrow> send_results (net (srv s)) = []"
  by (simp_all add: carries_def)

lemma carries_set_heap:
  "carries L s i dv key c n k \<Longrightarrow> message_at (MEMORY_HANDLE_MAIN_LOOP_1 L) m c' n' k' \<Longrightarrow> carries L (set_heap m s) i dv key c' n' k'"
  by (simp add: carries_def set_heap_def with_heap_def)

lemma carries_set_device:
  "carries L s i dv key c n k \<Longrightarrow> dc_device_id d = dv \<Longrightarrow> AES_ENCRYPTION_KEY d = key \<Longrightarrow> carries L (set_device i d s) i dv key c n k"
  by (auto simp: carries_def set_device_def item_def split: if_splits)

lemma carries_set_stored:
  "carries L s i dv key c n k \<Longrightarrow> message_at (MEMORY_HANDLE_MAIN_LOOP_1 L) (heap (snd st)) c' n' k' \<Longrightarrow>
    send_results (snd st) = [] \<Longrightarrow> carries L (set_stored st s) i dv key c' n' k'"
  by (simp add: carries_def set_stored_def)

lemma carries_set_world:
  "carries L s i dv key c n k \<Longrightarrow> message_at (MEMORY_HANDLE_MAIN_LOOP_1 L) (mw_heap w) c' n' k' \<Longrightarrow>
    carries L (set_world w s) i dv key c' n' k'"
  by (simp add: carries_def set_world_def with_heap_def)

lemma carries_fields [simp]:
  "carries L (s\<lparr>currt := t\<rparr>) = carries L s" "carries L (s\<lparr>wait_for := f\<rparr>) = carries L s" "carries L (s\<lparr>working_resend_cnt := r\<rparr>) = carries L s"
  "carries L (s\<lparr>nonce := nc\<rparr>) = carries L s" "carries L (s\<lparr>pid := nc\<rparr>) = carries L s" "carries L (s\<lparr>bus_id := b\<rparr>) = carries L s"
  "carries L (s\<lparr>for_ctr := ctr\<rparr>) = carries L s" "carries L (s\<lparr>clock := ts\<rparr>) = carries L s" "carries L (s\<lparr>dev_in_use := v\<rparr>) = carries L s"
  by (simp_all add: carries_def fun_eq_iff)

lemma set_context_simps [simp]:
  "dc_device_id (set_context ctr x d) = dc_device_id d" "AES_ENCRYPTION_KEY (set_context ctr x d) = AES_ENCRYPTION_KEY d"
  by (simp_all add: set_context_def)

lemma carries_hand_over:
  assumes "carries L s i dv key (rq, rsp) n k"
  obtains m where "hand_over (MEMORY_HANDLE_MAIN_LOOP_1 L) s = Some (set_heap m s)" "carries L (set_heap m s) i dv key (rsp, []) n k"
proof -
  have "has_room (main_heap s) (messages (main_heap s)) n k" "messages (main_heap s) (MEMORY_HANDLE_MAIN_LOOP_1 L) = Some (rq, rsp)"
    using carries_heap(1) [OF assms] by (simp_all add: message_at_def)
  then obtain m where m: "hand_over (MEMORY_HANDLE_MAIN_LOOP_1 L) s = Some (set_heap m s)"
    "has_room m ((messages (main_heap s))(MEMORY_HANDLE_MAIN_LOOP_1 L \<mapsto> (rsp, []))) n k" by (rule main_hand_over)
  show thesis by (rule that [OF m(1) carries_set_heap [OF assms message_at_has_room [OF m(2) fun_upd_same]]])
qed

text \<open>The device that a packet names, among devices with different ids.\<close>

definition has_device :: "('a, 'b) main_state \<Rightarrow> u16 \<Rightarrow> u8 list \<Rightarrow> bool" where
  "has_device s dv key \<longleftrightarrow> distinct (map dc_device_id (all_devices (srv s))) \<and>
     (\<exists>d \<in> set (all_devices (srv s)). dc_device_id d = dv \<and> AES_ENCRYPTION_KEY d = key)"

lemma find_device_carries:
  assumes "has_device s dv key" "message_at (MEMORY_HANDLE_MAIN_LOOP_1 L) (main_heap s) c n k" "send_results (net (srv s)) = []"
  obtains i where "find_device s dv = Some (s\<lparr>device := Some i\<rparr>)" "carries L (s\<lparr>device := Some i\<rparr>) i dv key c n k"
proof -
  obtain d where d: "d \<in> set (all_devices (srv s))" "dc_device_id d = dv" "AES_ENCRYPTION_KEY d = key" using assms(1) by (auto simp: has_device_def)
  obtain i where i: "i < length (all_devices (srv s))" "all_devices (srv s) ! i = d" using d(1) by (auto simp: in_set_conv_nth)
  have inj: "(ucast a = (ucast b :: u32)) = (a = b)" for a b :: u16 by transfer simp
  have "\<forall>j < i. dc_device_id (all_devices (srv s) ! j) \<noteq> dv"
    using assms(1) i d(2) by (force simp: has_device_def distinct_conv_nth)
  then have "main_get_device_data_by_device_id (srv s) (ucast dv) = Some i"
    using i d(2) by (simp add: main_get_device_data_by_device_id_def first_index_Some inj)
  then have "find_device s dv = Some (s\<lparr>device := Some i\<rparr>)" by (simp add: find_device_def)
  moreover have "carries L (s\<lparr>device := Some i\<rparr>) i dv key c n k"
    using assms(2,3) i d(2,3) by (simp add: carries_def item_def)
  ultimately show thesis by (rule that)
qed

lemma has_device_heap [simp]:
  "has_device (set_heap m s) = has_device s" "has_device (set_world w s) = has_device s" "has_device (s\<lparr>dev_in_use := v\<rparr>) = has_device s"
  "has_device (s\<lparr>bus_id := v\<rparr>) = has_device s" "has_device (s\<lparr>device := i\<rparr>) = has_device s"
  by (simp_all add: has_device_def set_heap_def set_world_def with_heap_def fun_eq_iff)

section \<open>Down to a device\<close>

text \<open>
  What the handlers are relied on to do on the way down. Each takes the request of the working handle
  and leaves what it makes of it as the response; a layer adds at most \<open>c\<close> bytes and keeps at most
  \<open>c\<close> bytes more than the message for itself. Guaranteed delivery asks for a packet id first.
\<close>

definition layer_result :: "nat \<Rightarrow> mem \<Rightarrow> u8 list \<Rightarrow> u8 list \<Rightarrow> int \<Rightarrow> int \<Rightarrow> nat \<Rightarrow> bool" where
  "layer_result h m p q n c k \<longleftrightarrow> message_at h m (p, q) (n - int (length p) - c) k \<and> int (length q) \<le> int (length p) + c"

definition gdp_sends :: "('a, 'b) main_lib \<Rightarrow> int \<Rightarrow> (u8 list \<Rightarrow> u8 list \<Rightarrow> u8 list) \<Rightarrow> bool" where
  "gdp_sends L c gdp \<longleftrightarrow> (\<forall>a lsm la w p n k. message_at (MEMORY_HANDLE_MAIN_LOOP_1 L) (gdp_heap w) (p, []) n k \<longrightarrow>
     handler_sagdp_receive_hlp L None (MEMORY_HANDLE_MAIN_LOOP_1 L) a lsm la w = Some (SAGDP_RET_NEED_NONCE, w) \<and>
     (int (length p) + c \<le> n \<longrightarrow> (\<forall>nc. \<exists>w'. handler_sagdp_receive_hlp L (Some nc) (MEMORY_HANDLE_MAIN_LOOP_1 L) a lsm la w =
       Some (SAGDP_RET_TO_LOWER_NEW, w') \<and> layer_result (MEMORY_HANDLE_MAIN_LOOP_1 L) (gdp_heap w') p (gdp nc p) n c k)))"

definition gives_ids :: "('a, 'b) main_lib \<Rightarrow> bool" where
  "gives_ids L \<longleftrightarrow> (\<forall>x dv st p n k. message_at (MEMORY_HANDLE_MAIN_LOOP_1 L) (heap (snd st)) (p, []) n k \<longrightarrow> send_results (snd st) = [] \<longrightarrow>
     (\<exists>nc x' st'. handler_sasp_get_packet_id L x dv st = Some (SASP_RET_NONCE, nc, x', st') \<and>
       message_at (MEMORY_HANDLE_MAIN_LOOP_1 L) (heap (snd st')) (p, []) n k \<and> send_results (snd st') = []))"

definition sasp_sends :: "('a, 'b) main_lib \<Rightarrow> int \<Rightarrow> (u8 list \<Rightarrow> u8 list \<Rightarrow> u8 list \<Rightarrow> u8 list) \<Rightarrow> bool" where
  "sasp_sends L c sasp \<longleftrightarrow> (\<forall>key nc x st p n k. message_at (MEMORY_HANDLE_MAIN_LOOP_1 L) (heap (snd st)) (p, []) n k \<longrightarrow>
     send_results (snd st) = [] \<longrightarrow> int (length p) + c \<le> n \<longrightarrow>
     (\<exists>x' st'. handler_sasp_send L key nc (MEMORY_HANDLE_MAIN_LOOP_1 L) x st = Some (SASP_RET_TO_LOWER_REGULAR, x', st') \<and>
       layer_result (MEMORY_HANDLE_MAIN_LOOP_1 L) (heap (snd st')) p (sasp key nc p) n c k \<and> send_results (snd st') = []))"

definition udp_sends :: "('a, 'b) main_lib \<Rightarrow> int \<Rightarrow> (u8 list \<Rightarrow> u8 list) \<Rightarrow> bool" where
  "udp_sends L c udp \<longleftrightarrow> (\<forall>a m p n k. message_at (MEMORY_HANDLE_MAIN_LOOP_1 L) m (p, []) n k \<longrightarrow> int (length p) + c \<le> n \<longrightarrow>
     (\<exists>m'. handler_saoudp_send L (MEMORY_HANDLE_MAIN_LOOP_1 L) a m = Some (SAOUDP_RET_OK, m') \<and>
       layer_result (MEMORY_HANDLE_MAIN_LOOP_1 L) m' p (udp p) n c k))"

definition mesh_sends :: "('a, 'b) main_lib \<Rightarrow> int \<Rightarrow> (u16 \<Rightarrow> u8 list \<Rightarrow> u8 list) \<Rightarrow> (u16 \<Rightarrow> u16) \<Rightarrow> bool" where
  "mesh_sends L c siot bus \<longleftrightarrow> (\<forall>ctr dv r b w p n k. message_at (MEMORY_HANDLE_MAIN_LOOP_1 L) (mw_heap w) (p, []) n k \<longrightarrow>
     int (length p) + c \<le> n \<longrightarrow>
     (\<exists>w'. handler_siot_mesh_send_packet L ctr dv (MEMORY_HANDLE_MAIN_LOOP_1 L) r b w = Some (SIOT_MESH_RET_PASS_TO_SEND, bus dv, w') \<and>
       layer_result (MEMORY_HANDLE_MAIN_LOOP_1 L) (mw_heap w') p (siot dv p) n c k))"

text \<open>One call after the other, each with the handing over that follows it.\<close>

lemma call_gdp_step:
  assumes c: "carries L s i dv key (p, []) n k" and f: "\<And>a lsm la w. message_at (MEMORY_HANDLE_MAIN_LOOP_1 L) (gdp_heap w) (p, []) n k \<Longrightarrow>
    \<exists>w'. f nc (MEMORY_HANDLE_MAIN_LOOP_1 L) a lsm la w = Some (r, w') \<and> message_at (MEMORY_HANDLE_MAIN_LOOP_1 L) (gdp_heap w') c' n' k"
  obtains s' where "call_gdp L f ctr nc s = Some (r, s')" "carries L s' i dv key c' n' k" "nonce s' = nonce s" "pid s' = pid s"
proof -
  obtain d where d: "the_device s = Some (i, d)" "dc_device_id d = dv" "AES_ENCRYPTION_KEY d = key" by (rule carries_device [OF c])
  let ?w = "\<lparr>gdp_currt = currt s, gdp_wait_for = wait_for s, gdp_context = context_of ctr d, gdp_resend_cnt = working_resend_cnt s, gdp_heap = main_heap s\<rparr>"
  have "message_at (MEMORY_HANDLE_MAIN_LOOP_1 L) (gdp_heap ?w) (p, []) n k" using carries_heap(1) [OF c] by simp
  from f [OF this] obtain w where w: "f nc (MEMORY_HANDLE_MAIN_LOOP_1 L) (MEMORY_HANDLE_MAIN_LOOP_1_SAOUDP_ADDR L) (lsm_handle ctr d) (lsm_addr_handle ctr d) ?w =
      Some (r, w)" "message_at (MEMORY_HANDLE_MAIN_LOOP_1 L) (gdp_heap w) c' n' k" by blast
  have "carries L (set_device i (set_context ctr (gdp_context w) d) (set_heap (gdp_heap w) s)) i dv key c' n' k"
    by (rule carries_set_device [OF carries_set_heap [OF c w(2)]]) (simp_all add: d(2,3))
  then show thesis
    by (intro that [of "(set_device i (set_context ctr (gdp_context w) d) (set_heap (gdp_heap w) s))
      \<lparr>currt := gdp_currt w, wait_for := gdp_wait_for w, working_resend_cnt := gdp_resend_cnt w\<rparr>"])
      (simp_all add: call_gdp_def d(1) w(1) set_device_def set_heap_def)
qed

lemma gdp_goes_down:
  assumes "carries L s i dv key (p, []) n k" "gdp_sends L c gdp" "gives_ids L" "int (length p) + c \<le> n"
  obtains s' nc where "gdp_call L (handler_sagdp_receive_hlp L) ctr s = Some (SAGDP_RET_TO_LOWER_NEW, s')" "nonce s' = nc"
    "carries L s' i dv key (p, gdp nc p) (n - int (length p) - c) k" "int (length (gdp nc p)) \<le> int (length p) + c"
proof -
  let ?h = "MEMORY_HANDLE_MAIN_LOOP_1 L" and ?f = "handler_sagdp_receive_hlp L"
  obtain s1 where 1: "call_gdp L ?f ctr None s = Some (SAGDP_RET_NEED_NONCE, s1)" "carries L s1 i dv key (p, []) n k"
    by (rule call_gdp_step [OF assms(1), of ?f None SAGDP_RET_NEED_NONCE]) (use assms(2) in \<open>auto simp: gdp_sends_def\<close>)
  obtain d where d: "the_device s1 = Some (i, d)" "dc_device_id d = dv" "AES_ENCRYPTION_KEY d = key" by (rule carries_device [OF 1(2)])
  have "message_at ?h (heap (snd (get_stored s1))) (p, []) n k" "send_results (snd (get_stored s1)) = []"
    using carries_heap [OF 1(2)] by (simp_all add: get_stored_def)
  then obtain nc x st where id: "handler_sasp_get_packet_id L (sasp_data d) (dc_device_id d) (get_stored s1) = Some (SASP_RET_NONCE, nc, x, st)"
    "message_at ?h (heap (snd st)) (p, []) n k" "send_results (snd st) = []" using assms(3) unfolding gives_ids_def by blast
  let ?s2 = "(set_device i (d\<lparr>sasp_data := x\<rparr>) (set_stored st s1))\<lparr>nonce := nc\<rparr>"
  have 2: "get_packet_id L s1 = Some ?s2" using d(1) id(1) by (simp add: get_packet_id_def)
  have c2: "carries L ?s2 i dv key (p, []) n k"
    unfolding carries_fields by (rule carries_set_device [OF carries_set_stored [OF 1(2) id(2,3)]]) (simp_all add: d(2,3))
  have f: "\<exists>w'. ?f (Some nc) ?h a lsm la w = Some (SAGDP_RET_TO_LOWER_NEW, w') \<and> message_at ?h (gdp_heap w') (p, gdp nc p) (n - int (length p) - c) k"
    if "message_at ?h (gdp_heap w) (p, []) n k" for a lsm la w
    using assms(2,4) that unfolding gdp_sends_def layer_result_def by blast
  obtain s3 where 3: "call_gdp L ?f ctr (Some nc) ?s2 = Some (SAGDP_RET_TO_LOWER_NEW, s3)"
    "carries L s3 i dv key (p, gdp nc p) (n - int (length p) - c) k" "nonce s3 = nonce ?s2"
    by (rule call_gdp_step [OF c2, of ?f "Some nc" SAGDP_RET_TO_LOWER_NEW "(p, gdp nc p)" "n - int (length p) - c", OF f])
  have q: "int (length (gdp nc p)) \<le> int (length p) + c"
  proof -
    let ?w = "\<lparr>gdp_currt = currt s, gdp_wait_for = wait_for s, gdp_context = context_of ctr d, gdp_resend_cnt = 0, gdp_heap = main_heap s\<rparr>"
    have "message_at ?h (gdp_heap ?w) (p, []) n k" using carries_heap(1) [OF assms(1)] by simp
    then show ?thesis using assms(2,4) unfolding gdp_sends_def layer_result_def by blast
  qed
  have "gdp_call L ?f ctr s = Some (SAGDP_RET_TO_LOWER_NEW, s3)" using 1(1) 2 3(1) by (simp add: gdp_call_def)
  then show thesis by (rule that [OF _ _ 3(2) q]) (simp add: 3(3))
qed

lemma hal_goes_down:
  assumes c: "carries L s i dv key (p, []) n k" and b: "bus_id s \<noteq> 0xFFFF" and room: "5 \<le> n" "MEMORY_HANDLE_MAIN_LOOP_1 L < k"
  obtains s' where "hal_send L s = Some (None, s')" "carries L s' i dv key ([], []) n k"
    "sent (net (srv s')) = sent (net (srv s)) @ [frame (bus_id s) COMMLAYER_TO_CU_STATUS_FOR_SLAVE p]"
proof -
  let ?h = "MEMORY_HANDLE_MAIN_LOOP_1 L"
  have r: "has_room (main_heap s) (messages (main_heap s)) n k" "messages (main_heap s) ?h = Some (p, [])" "send_results (net (srv s)) = []"
    using carries_heap [OF c] by (simp_all add: message_at_def)
  let ?f = "frame (bus_id s) COMMLAYER_TO_CU_STATUS_FOR_SLAVE p"
  obtain m where m: "sending (\<lambda>c. send_within_master c ?h (bus_id s) COMMLAYER_TO_CU_STATUS_FOR_SLAVE) s = Some (COMMLAYER_RET_OK, frame_sent ?f m s)"
    "has_room m ((messages (main_heap s))(?h \<mapsto> ([], []))) n k"
    by (rule main_send [OF r(1,2) room(2,1) r(3)])
  obtain m' where m': "zepto_parser_free_memory m ?h = Some m'" "has_room m' ((messages (main_heap s))(?h \<mapsto> ([], []))) n k"
    by (rule room_free [OF m(2) fun_upd_same, unfolded fun_upd_upd])
  have run: "hal_send L s = Some (None, frame_sent ?f m' s)"
    using b m(1) m'(1) by (simp add: hal_send_def send_message_def)
  have "carries L (frame_sent ?f m' s) i dv key ([], []) n k"
    using c message_at_has_room [OF m'(2) fun_upd_same] by (simp add: carries_def frame_sent_def set_net_def)
  then show thesis by (rule that [OF run]) simp
qed

text \<open>From the labels on: what comes out is a frame for the bus that the mesh has chosen.\<close>

lemma saoudp_goes_down:
  assumes c: "carries L s i dv key (p, []) n k" and lib: "udp_sends L c udp" "mesh_sends L c siot bus" "bus dv \<noteq> 0xFFFF" "0 \<le> c"
    and room: "2 * int (length p) + 3 * c + 5 \<le> n" "MEMORY_HANDLE_MAIN_LOOP_1 L < k"
  obtains s' where "saoudp_send L s = Some (None, s')" "carries L s' i dv key ([], []) (n - 2 * int (length p) - 3 * c) k"
    "sent (net (srv s')) = sent (net (srv s)) @ [frame (bus dv) COMMLAYER_TO_CU_STATUS_FOR_SLAVE (siot dv (udp p))]"
proof -
  let ?h = "MEMORY_HANDLE_MAIN_LOOP_1 L" and ?q = "udp p"
  have fit: "int (length p) + c \<le> n" using room(1) lib(4) by linarith
  obtain m where m: "handler_saoudp_send L ?h (MEMORY_HANDLE_MAIN_LOOP_2_SAOUDP_ADDR L) (main_heap s) = Some (SAOUDP_RET_OK, m)"
    "layer_result ?h m p ?q n c k" using lib(1) carries_heap(1) [OF c] fit unfolding udp_sends_def by blast
  have c1: "carries L (set_heap m s) i dv key (p, ?q) (n - int (length p) - c) k" and q: "int (length ?q) \<le> int (length p) + c"
    using m(2) carries_set_heap [OF c] by (simp_all add: layer_result_def)
  obtain m1 where m1: "hand_over ?h (set_heap m s) = Some (set_heap m1 s)" "carries L (set_heap m1 s) i dv key (?q, []) (n - int (length p) - c) k"
    by (rule carries_hand_over [OF c1, unfolded set_heap_simps])
  let ?s1 = "set_heap m1 s"
  obtain d where d: "the_device ?s1 = Some (i, d)" "dc_device_id d = dv" by (rule carries_device [OF m1(2)])
  have fit1: "int (length ?q) + c \<le> n - int (length p) - c" using room(1) q lib(4) by linarith
  have "message_at ?h (mw_heap (get_world ?s1)) (?q, []) (n - int (length p) - c) k"
    using carries_heap(1) [OF m1(2)] by (simp add: get_world_def)
  then obtain w where w: "handler_siot_mesh_send_packet L (for_ctr ?s1) dv ?h (working_resend_cnt ?s1) (bus_id ?s1) (get_world ?s1) =
      Some (SIOT_MESH_RET_PASS_TO_SEND, bus dv, w)" "layer_result ?h (mw_heap w) ?q (siot dv ?q) (n - int (length p) - c) c k"
    using lib(2) fit1 unfolding mesh_sends_def by blast
  let ?s2 = "(set_world w ?s1)\<lparr>bus_id := bus dv\<rparr>" and ?n = "n - int (length p) - c - int (length ?q) - c"
  have c2: "carries L ?s2 i dv key (?q, siot dv ?q) ?n k"
    using w(2) carries_set_world [OF m1(2)] by (simp add: layer_result_def)
  obtain m2 where m2: "hand_over ?h ?s2 = Some (set_heap m2 ?s2)" "carries L (set_heap m2 ?s2) i dv key (siot dv ?q, []) ?n k"
    by (rule carries_hand_over [OF c2])
  have b: "bus_id (set_heap m2 ?s2) = bus dv" by (simp add: set_heap_def)
  have fit2: "5 \<le> ?n" using room(1) q by linarith
  obtain s' where s': "hal_send L (set_heap m2 ?s2) = Some (None, s')" "carries L s' i dv key ([], []) ?n k"
    "sent (net (srv s')) = sent (net (srv (set_heap m2 ?s2))) @ [frame (bus dv) COMMLAYER_TO_CU_STATUS_FOR_SLAVE (siot dv ?q)]"
    by (rule hal_goes_down [OF m2(2) _ fit2 room(2), unfolded b]) (use lib(3) in auto)
  have run: "saoudp_send L s = Some (None, s')"
    using m(1) m1(1) d w(1) m2(1) s'(1) b lib(3) unfolding saoudp_send_def by (simp add: Let_def)
  have "carries L s' i dv key ([], []) (n - 2 * int (length p) - 3 * c) k"
    using s'(2) q room(1) lib(4) by (auto simp: carries_def message_at_def has_room_def)
  then show thesis by (rule that [OF run]) (use s'(3) in \<open>simp add: set_world_def with_heap_def set_heap_def\<close>)
qed

lemma sasp_goes_down:
  assumes c: "carries L s i dv key (p, []) n k" and lib: "sasp_sends L c sasp" "udp_sends L c udp" "mesh_sends L c siot bus"
    "bus dv \<noteq> 0xFFFF" "0 \<le> c"
    and room: "3 * int (length p) + 6 * c + 5 \<le> n" "MEMORY_HANDLE_MAIN_LOOP_1 L < k"
  obtains s' before where "saspsend L s = Some (None, s')" "carries L s' i dv key ([], []) (n - 3 * int (length p) - 6 * c) k"
    "sent (net (srv s')) = before @ [frame (bus dv) COMMLAYER_TO_CU_STATUS_FOR_SLAVE (siot dv (udp (sasp key (nonce s) p)))]"
proof -
  let ?h = "MEMORY_HANDLE_MAIN_LOOP_1 L" and ?q = "sasp key (nonce s) p"
  have fit: "int (length p) + c \<le> n" using room(1) lib(5) by linarith
  obtain d where d: "the_device s = Some (i, d)" "dc_device_id d = dv" "AES_ENCRYPTION_KEY d = key" by (rule carries_device [OF c])
  have "message_at ?h (heap (snd (get_stored s))) (p, []) n k" "send_results (snd (get_stored s)) = []"
    using carries_heap [OF c] by (simp_all add: get_stored_def)
  then obtain x st where st: "handler_sasp_send L key (nonce s) ?h (sasp_data d) (get_stored s) = Some (SASP_RET_TO_LOWER_REGULAR, x, st)"
    "layer_result ?h (heap (snd st)) p ?q n c k" "send_results (snd st) = []" using lib(1) fit unfolding sasp_sends_def by blast
  let ?s1 = "set_device i (d\<lparr>sasp_data := x\<rparr>) (set_stored st s)"
  have "carries L ?s1 i dv key (p, ?q) (n - int (length p) - c) k"
    by (rule carries_set_device [OF carries_set_stored [OF c]]) (use st(2,3) d(2,3) in \<open>simp_all add: layer_result_def\<close>)
  from carries_hand_over [OF this] obtain m where m: "hand_over ?h ?s1 = Some (set_heap m ?s1)"
    "carries L (set_heap m ?s1) i dv key (?q, []) (n - int (length p) - c) k" by blast
  have q: "int (length ?q) \<le> int (length p) + c" using st(2) by (simp add: layer_result_def)
  have fit1: "2 * int (length ?q) + 3 * c + 5 \<le> n - int (length p) - c" using room(1) q by linarith
  obtain s' where s': "saoudp_send L (set_heap m ?s1) = Some (None, s')"
    "carries L s' i dv key ([], []) (n - int (length p) - c - 2 * int (length ?q) - 3 * c) k"
    "sent (net (srv s')) = sent (net (srv (set_heap m ?s1))) @ [frame (bus dv) COMMLAYER_TO_CU_STATUS_FOR_SLAVE (siot dv (udp ?q))]"
    by (rule saoudp_goes_down [OF m(2) lib(2-5) fit1 room(2)])
  have run: "saspsend L s = Some (None, s')"
    using d(1,3) st(1) m(1) s'(1) by (simp add: saspsend_def)
  have "carries L s' i dv key ([], []) (n - 3 * int (length p) - 6 * c) k"
    using s'(2) q room(1) lib(5) by (auto simp: carries_def message_at_def has_room_def)
  then show thesis by (rule that [OF run _ s'(3)])
qed

text \<open>From the message of the central unit on.\<close>

lemma client_goes_down:
  assumes c: "carries L s i dv key (p, []) n k" and lib: "gdp_sends L c gdp" "gives_ids L" "sasp_sends L c sasp" "udp_sends L c udp"
    "mesh_sends L c siot bus" "bus dv \<noteq> 0xFFFF" "0 \<le> c"
    and room: "4 * int (length p) + 10 * c + 5 \<le> n" "MEMORY_HANDLE_MAIN_LOOP_1 L < k" and time: "clock s \<noteq> []"
  obtains s' before nc where "client_received L s = Some (None, s')" "carries L s' i dv key ([], []) (n - 4 * int (length p) - 10 * c) k"
    "sent (net (srv s')) = before @ [frame (bus dv) COMMLAYER_TO_CU_STATUS_FOR_SLAVE (siot dv (udp (sasp key nc (gdp nc p))))]"
proof -
  let ?h = "MEMORY_HANDLE_MAIN_LOOP_1 L"
  obtain t ts where "clock s = t # ts" using time by (cases "clock s") auto
  then have get: "HAL_GET_TIME s = Some (s\<lparr>currt := t, clock := ts\<rparr>)" by (simp add: HAL_GET_TIME_def)
  have c1: "carries L (s\<lparr>currt := t, clock := ts\<rparr>) i dv key (p, []) n k" using c by simp
  have fit: "int (length p) + c \<le> n" using room(1) lib(7) by linarith
  obtain s2 nc where s2: "gdp_call L (handler_sagdp_receive_hlp L) False (s\<lparr>currt := t, clock := ts\<rparr>) = Some (SAGDP_RET_TO_LOWER_NEW, s2)"
    "nonce s2 = nc" "carries L s2 i dv key (p, gdp nc p) (n - int (length p) - c) k" "int (length (gdp nc p)) \<le> int (length p) + c"
    by (rule gdp_goes_down [OF c1 lib(1,2) fit])
  obtain m where m: "hand_over ?h s2 = Some (set_heap m s2)" "carries L (set_heap m s2) i dv key (gdp nc p, []) (n - int (length p) - c) k"
    by (rule carries_hand_over [OF s2(3)])
  have nc: "nonce (set_heap m s2) = nc" using s2(2) by (simp add: set_heap_def)
  have fit2: "3 * int (length (gdp nc p)) + 6 * c + 5 \<le> n - int (length p) - c" using room(1) s2(4) by linarith
  obtain s' before where s': "saspsend L (set_heap m s2) = Some (None, s')"
    "carries L s' i dv key ([], []) (n - int (length p) - c - 3 * int (length (gdp nc p)) - 6 * c) k"
    "sent (net (srv s')) = before @ [frame (bus dv) COMMLAYER_TO_CU_STATUS_FOR_SLAVE (siot dv (udp (sasp key nc (gdp nc p))))]"
    by (rule sasp_goes_down [OF m(2) lib(3-7) fit2 room(2), unfolded nc])
  have run: "client_received L s = Some (None, s')" using get s2(1) m(1) s'(1) by (simp add: client_received_def)
  have "carries L s' i dv key ([], []) (n - 4 * int (length p) - 10 * c) k"
    using s'(2) s2(4) room(1) lib(7) by (auto simp: carries_def message_at_def has_room_def)
  then show thesis by (rule that [OF run _ s'(3)])
qed

section \<open>Up from a device\<close>

text \<open>
  The same for one packet on its way up: each layer hands the packet to the next one without its own
  part, and it is a packet for the application.
\<close>

definition mesh_receives :: "('a, 'b) main_lib \<Rightarrow> int \<Rightarrow> u16 \<Rightarrow> u8 list \<Rightarrow> u16 \<Rightarrow> u8 list \<Rightarrow> bool" where
  "mesh_receives L c v p dv q \<longleftrightarrow> (\<forall>u w n k. message_at (MEMORY_HANDLE_MAIN_LOOP_1 L) (mw_heap w) (p, []) n k \<longrightarrow> int (length p) + c \<le> n \<longrightarrow>
     (\<exists>b w'. handler_siot_mesh_receive_packet L (MEMORY_HANDLE_MAIN_LOOP_1 L) (MEMORY_HANDLE_MESH_ACK L) u v 0 0 w =
       Some (SIOT_MESH_RET_PASS_TO_PROCESS, dv, b, w') \<and> layer_result (MEMORY_HANDLE_MAIN_LOOP_1 L) (mw_heap w') p q n c k))"

definition udp_receives :: "('a, 'b) main_lib \<Rightarrow> int \<Rightarrow> u8 list \<Rightarrow> u8 list \<Rightarrow> bool" where
  "udp_receives L c p q \<longleftrightarrow> (\<forall>a m n k. message_at (MEMORY_HANDLE_MAIN_LOOP_1 L) m (p, []) n k \<longrightarrow> int (length p) + c \<le> n \<longrightarrow>
     (\<exists>m'. handler_saoudp_receive L (MEMORY_HANDLE_MAIN_LOOP_1 L) a m = Some (SAOUDP_RET_OK, m') \<and>
       layer_result (MEMORY_HANDLE_MAIN_LOOP_1 L) m' p q n c k))"

definition sasp_receives :: "('a, 'b) main_lib \<Rightarrow> int \<Rightarrow> u8 list \<Rightarrow> u16 \<Rightarrow> u8 list \<Rightarrow> u8 list \<Rightarrow> u8 list \<Rightarrow> bool" where
  "sasp_receives L c key dv p pkt q \<longleftrightarrow> (\<forall>i x st n k. message_at (MEMORY_HANDLE_MAIN_LOOP_1 L) (heap (snd st)) (p, []) n k \<longrightarrow>
     send_results (snd st) = [] \<longrightarrow> int (length p) + c \<le> n \<longrightarrow>
     (\<exists>x' st'. handler_sasp_receive L key i (MEMORY_HANDLE_MAIN_LOOP_1 L) x dv st = Some (SASP_RET_TO_HIGHER_NEW, pkt, x', st') \<and>
       layer_result (MEMORY_HANDLE_MAIN_LOOP_1 L) (heap (snd st')) p q n c k \<and> send_results (snd st') = []))"

definition gdp_receives :: "('a, 'b) main_lib \<Rightarrow> int \<Rightarrow> u8 list \<Rightarrow> u8 list \<Rightarrow> u8 list \<Rightarrow> bool" where
  "gdp_receives L c pkt p q \<longleftrightarrow>
     (\<forall>m n k. message_at (MEMORY_HANDLE_MAIN_LOOP_1 L) m (p, []) n k \<longrightarrow>
       handler_sagdp_is_up_packet_ctr L (MEMORY_HANDLE_MAIN_LOOP_1 L) m = Some False) \<and>
     (\<forall>a lsm la w n k. message_at (MEMORY_HANDLE_MAIN_LOOP_1 L) (gdp_heap w) (p, []) n k \<longrightarrow> int (length p) + c \<le> n \<longrightarrow>
       (\<exists>w'. handler_sagdp_receive_up L pkt None (MEMORY_HANDLE_MAIN_LOOP_1 L) a lsm la w = Some (SAGDP_RET_TO_HIGHER, w') \<and>
         layer_result (MEMORY_HANDLE_MAIN_LOOP_1 L) (gdp_heap w') p q n c k))"

text \<open>The last layer: the packet goes to the central unit under the id of the device.\<close>

lemma application_goes_up:
  assumes c: "carries L s i dv key (p, []) n k" and lib: "gdp_receives L c (pid s) p q" and room: "int (length p) + c + 5 \<le> n"
    "MEMORY_HANDLE_MAIN_LOOP_1 L < k"
  obtains s' where "application_packet L s = Some (None, s')" "carries L s' i dv key ([], []) (n - int (length p) - c) k"
    "sent (net (srv s')) = sent (net (srv s)) @ [frame dv COMMLAYER_TO_CU_STATUS_FROM_SLAVE q]"
proof -
  let ?h = "MEMORY_HANDLE_MAIN_LOOP_1 L" and ?n = "n - int (length p) - c" and ?f = "handler_sagdp_receive_up L (pid s)"
  have fit: "int (length p) + c \<le> n" "5 \<le> ?n" using room(1) by linarith+
  have f: "\<exists>w'. ?f None ?h a lsm la w = Some (SAGDP_RET_TO_HIGHER, w') \<and> message_at ?h (gdp_heap w') (p, q) ?n k"
    if "message_at ?h (gdp_heap w) (p, []) n k" for a lsm la w
    using lib fit(1) that unfolding gdp_receives_def layer_result_def by blast
  obtain s1 where s1: "call_gdp L ?f False None s = Some (SAGDP_RET_TO_HIGHER, s1)" "carries L s1 i dv key (p, q) ?n k"
    by (rule call_gdp_step [OF c, of ?f None SAGDP_RET_TO_HIGHER "(p, q)" ?n, OF f])
  obtain m where m: "hand_over ?h s1 = Some (set_heap m s1)" "carries L (set_heap m s1) i dv key (q, []) ?n k"
    by (rule carries_hand_over [OF s1(2)])
  obtain d where d: "the_device (set_heap m s1) = Some (i, d)" "dc_device_id d = dv" by (rule carries_device [OF m(2)])
  have r: "has_room (main_heap (set_heap m s1)) (messages (main_heap (set_heap m s1))) ?n k"
    "messages (main_heap (set_heap m s1)) ?h = Some (q, [])" "send_results (net (srv (set_heap m s1))) = []"
    using carries_heap [OF m(2)] by (simp_all add: message_at_def)
  obtain m' where m': "sending (\<lambda>c. send_within_master c ?h dv COMMLAYER_TO_CU_STATUS_FROM_SLAVE) (set_heap m s1) =
      Some (COMMLAYER_RET_OK, frame_sent (frame dv COMMLAYER_TO_CU_STATUS_FROM_SLAVE q) m' (set_heap m s1))"
    "has_room m' ((messages (main_heap (set_heap m s1)))(?h \<mapsto> ([], []))) ?n k"
    by (rule main_send [OF r(1,2) room(2) fit(2) r(3)])
  let ?s = "frame_sent (frame dv COMMLAYER_TO_CU_STATUS_FROM_SLAVE q) m' (set_heap m s1)"
  have run: "application_packet L s = Some (None, ?s)"
    using s1(1) m(1) d m'(1) by (simp add: application_packet_def gdp_call_def send_to_central_unit_def)
  have "carries L ?s i dv key ([], []) ?n k"
    using m(2) message_at_has_room [OF m'(2) fun_upd_same] by (simp add: carries_def frame_sent_def set_net_def)
  moreover have "sent (net (srv s1)) = sent (net (srv s))"
    using s1(1) by (auto simp: call_gdp_def set_device_def set_heap_def with_heap_def split: bind_splits)
  ultimately show thesis by (intro that [OF run]) simp_all
qed

lemma sasp_goes_up:
  assumes c: "carries L s i dv key (p, []) n k" and lib: "sasp_receives L c key dv p pkt q" "gdp_receives L c pkt q r" "0 \<le> c"
    and room: "2 * int (length p) + 3 * c + 5 \<le> n" "MEMORY_HANDLE_MAIN_LOOP_1 L < k" and time: "clock s \<noteq> []"
  obtains s' before where "sasp_in L s = Some (None, s')" "carries L s' i dv key ([], []) (n - 2 * int (length p) - 3 * c) k"
    "sent (net (srv s')) = before @ [frame dv COMMLAYER_TO_CU_STATUS_FROM_SLAVE r]"
proof -
  let ?h = "MEMORY_HANDLE_MAIN_LOOP_1 L" and ?n = "n - int (length p) - c"
  have fit: "int (length p) + c \<le> n" using room(1) lib(3) by linarith
  obtain d where d: "the_device s = Some (i, d)" "dc_device_id d = dv" "AES_ENCRYPTION_KEY d = key" by (rule carries_device [OF c])
  have "message_at ?h (heap (snd (get_stored s))) (p, []) n k" "send_results (snd (get_stored s)) = []"
    using carries_heap [OF c] by (simp_all add: get_stored_def)
  then obtain x st where st: "handler_sasp_receive L key (pid s) ?h (sasp_data d) dv (get_stored s) = Some (SASP_RET_TO_HIGHER_NEW, pkt, x, st)"
    "layer_result ?h (heap (snd st)) p q n c k" "send_results (snd st) = []" using lib(1) fit unfolding sasp_receives_def by blast
  let ?s1 = "(set_device i (d\<lparr>sasp_data := x\<rparr>) (set_stored st s))\<lparr>pid := pkt\<rparr>"
  have "carries L ?s1 i dv key (p, q) ?n k"
    unfolding carries_fields by (rule carries_set_device [OF carries_set_stored [OF c]]) (use st(2,3) d(2,3) in \<open>simp_all add: layer_result_def\<close>)
  from carries_hand_over [OF this] obtain m where m: "hand_over ?h ?s1 = Some (set_heap m ?s1)"
    "carries L (set_heap m ?s1) i dv key (q, []) ?n k" by blast
  let ?s2 = "set_heap m ?s1"
  have q: "int (length q) \<le> int (length p) + c" using st(2) by (simp add: layer_result_def)
  obtain t ts where ts: "clock s = t # ts" using time by (cases "clock s") auto
  have get: "HAL_GET_TIME ?s2 = Some (?s2\<lparr>currt := t, clock := ts\<rparr>)"
    using ts by (simp add: HAL_GET_TIME_def set_heap_def set_device_def set_stored_def)
  have ctr: "handler_sagdp_is_up_packet_ctr L ?h (main_heap ?s2) = Some False"
    using lib(2) carries_heap(1) [OF m(2)] unfolding gdp_receives_def by blast
  let ?s3 = "?s2\<lparr>currt := t, clock := ts, for_ctr := False\<rparr>"
  have c3: "carries L ?s3 i dv key (q, []) ?n k" using m(2) by simp
  have pd: "pid ?s3 = pkt" by (simp add: set_heap_def)
  have fit3: "int (length q) + c + 5 \<le> ?n" using room(1) q by linarith
  obtain s' where s': "application_packet L ?s3 = Some (None, s')" "carries L s' i dv key ([], []) (?n - int (length q) - c) k"
    "sent (net (srv s')) = sent (net (srv ?s3)) @ [frame dv COMMLAYER_TO_CU_STATUS_FROM_SLAVE r]"
    by (rule application_goes_up [OF c3 _ fit3 room(2), unfolded pd, OF lib(2)])
  have run: "sasp_in L s = Some (None, s')"
    using d st(1) m(1) get ctr s'(1) unfolding sasp_in_def by (simp add: Let_def)
  have "carries L s' i dv key ([], []) (n - 2 * int (length p) - 3 * c) k"
    using s'(2) q room(1) lib(3) by (auto simp: carries_def message_at_def has_room_def)
  then show thesis by (rule that [OF run _ s'(3)])
qed

lemma siotmp_goes_up:
  assumes d: "has_device s dv key" and start: "message_at (MEMORY_HANDLE_MAIN_LOOP_1 L) (main_heap s) (p, []) n k" "send_results (net (srv s)) = []"
    and lib: "mesh_receives L c (bus_id s) p dv p1" "udp_receives L c p1 p2" "sasp_receives L c key dv p2 pkt p3" "gdp_receives L c pkt p3 p4" "0 \<le> c"
    and room: "4 * int (length p) + 10 * c + 5 \<le> n" "MEMORY_HANDLE_MAIN_LOOP_1 L < k" and time: "clock s \<noteq> []"
    and bus: "bus_id s \<noteq> SIOT_MESH_BUS_UNDEFINED (mesh_consts L)"
  obtains s' before where "siotmp_rec L s = Some (None, s')" "message_at (MEMORY_HANDLE_MAIN_LOOP_1 L) (main_heap s') ([], []) (n - 4 * int (length p) - 10 * c) k"
    "sent (net (srv s')) = before @ [frame dv COMMLAYER_TO_CU_STATUS_FROM_SLAVE p4]"
proof -
  let ?h = "MEMORY_HANDLE_MAIN_LOOP_1 L" and ?n = "n - int (length p) - c"
  have fit: "int (length p) + c \<le> n" using room(1) lib(5) by linarith
  have "message_at ?h (mw_heap (get_world s)) (p, []) n k" using start(1) by (simp add: get_world_def)
  then obtain b w where w: "handler_siot_mesh_receive_packet L ?h (MEMORY_HANDLE_MESH_ACK L) (dev_in_use s) (bus_id s) 0 0 (get_world s) =
      Some (SIOT_MESH_RET_PASS_TO_PROCESS, dv, b, w)" "layer_result ?h (mw_heap w) p p1 n c k"
    using lib(1) fit unfolding mesh_receives_def by blast
  let ?s1 = "(set_world w s)\<lparr>dev_in_use := dv, bus_id := b\<rparr>"
  have at1: "has_room (main_heap ?s1) (messages (main_heap ?s1)) ?n k" "messages (main_heap ?s1) ?h = Some (p, p1)"
    and q1: "int (length p1) \<le> int (length p) + c" and sr1: "send_results (net (srv ?s1)) = []"
    using w(2) start(2) by (simp_all add: layer_result_def message_at_def set_world_def with_heap_def)
  obtain m1 where m1: "hand_over ?h ?s1 = Some (set_heap m1 ?s1)" "has_room m1 ((messages (main_heap ?s1))(?h \<mapsto> (p1, []))) ?n k"
    by (rule main_hand_over [OF at1])
  let ?s2 = "set_heap m1 ?s1"
  have pre: "has_device ?s2 dv key" "message_at ?h (main_heap ?s2) (p1, []) ?n k" "send_results (net (srv ?s2)) = []"
    using d message_at_has_room [OF m1(2) fun_upd_same] sr1 by simp_all
  obtain i where i: "find_device ?s2 dv = Some (?s2\<lparr>device := Some i\<rparr>)" "carries L (?s2\<lparr>device := Some i\<rparr>) i dv key (p1, []) ?n k"
    by (rule find_device_carries [OF pre])
  let ?s3 = "?s2\<lparr>device := Some i\<rparr>" and ?n3 = "n - int (length p) - c - int (length p1) - c"
  have fit3: "int (length p1) + c \<le> ?n" using room(1) q1 lib(5) by linarith
  obtain m where m: "handler_saoudp_receive L ?h (MEMORY_HANDLE_MAIN_LOOP_1_SAOUDP_ADDR L) (main_heap ?s3) = Some (SAOUDP_RET_OK, m)"
    "layer_result ?h m p1 p2 ?n c k" using lib(2) carries_heap(1) [OF i(2)] fit3 unfolding udp_receives_def by blast
  have q2: "int (length p2) \<le> int (length p1) + c" and c4: "carries L (set_heap m ?s3) i dv key (p1, p2) ?n3 k"
    using m(2) carries_set_heap [OF i(2)] by (simp_all add: layer_result_def)
  obtain m' where m': "hand_over ?h (set_heap m ?s3) = Some (set_heap m' ?s3)" "carries L (set_heap m' ?s3) i dv key (p2, []) ?n3 k"
    by (rule carries_hand_over [OF c4, unfolded set_heap_simps])
  have ck: "clock (set_heap m' ?s3) \<noteq> []" using time by (simp add: set_heap_def set_world_def)
  have fit4: "2 * int (length p2) + 3 * c + 5 \<le> ?n3" using room(1) q1 q2 by linarith
  obtain s' before where s': "sasp_in L (set_heap m' ?s3) = Some (None, s')" "carries L s' i dv key ([], []) (?n3 - 2 * int (length p2) - 3 * c) k"
    "sent (net (srv s')) = before @ [frame dv COMMLAYER_TO_CU_STATUS_FROM_SLAVE p4]"
    by (rule sasp_goes_up [OF m'(2) lib(3-5) fit4 room(2) ck])
  have u: "dev_in_use ?s2 = dv" by (simp add: set_heap_def)
  have "siotmp_rec L s = saoudp_in L ?s3" using w(1) m1(1) i(1) u bus unfolding siotmp_rec_def by (simp add: Let_def)
  also have "\<dots> = Some (None, s')" using m(1) m'(1) s'(1) by (simp add: saoudp_in_def)
  finally have run: "siotmp_rec L s = Some (None, s')" .
  have "message_at ?h (main_heap s') ([], []) (n - 4 * int (length p) - 10 * c) k"
    using carries_heap(1) [OF s'(2)] q1 q2 room(1) lib(5) by (auto simp: message_at_def has_room_def)
  then show thesis by (rule that [OF run _ s'(3)])
qed

section \<open>From the stream\<close>

lemma request_received_clock:
  assumes "wait_event s = Some (r, s1)" "receive_from_central_unit L s1 = Some (kind, s2)"
  shows "clock s2 = clock s"
  using assms by (auto simp: wait_event_def receive_from_central_unit_def set_infinite_wait_def set_net_def Let_def split: bind_splits option.splits)

lemma packet_received:
  assumes "request_comes L s kind v p rest" "has_device s dv key" "405 + 10 * c \<le> free_space (main_heap s)" "clock s \<noteq> []"
  obtains s1 s2 m n where "wait_event s = Some (COMMLAYER_RET_FROM_CENTRAL_UNIT, s1)" "receive_from_central_unit L s1 = Some (kind, s2)"
    "param s2 = v" "hand_over (MEMORY_HANDLE_MAIN_LOOP_1 L) s2 = Some (set_heap m s2)"
    "message_at (MEMORY_HANDLE_MAIN_LOOP_1 L) m (p, []) n (MEMORY_HANDLE_MAX (main_heap s))" "4 * int (length p) + 10 * c + 5 \<le> n"
    "has_device s2 dv key" "clock s2 \<noteq> []" "send_results (net (srv s2)) = []"
proof -
  obtain s1 s2 where r: "wait_event s = Some (COMMLAYER_RET_FROM_CENTRAL_UNIT, s1)" "receive_from_central_unit L s1 = Some (kind, s2)"
    "param s2 = v" "srv s2 = (srv s)\<lparr>net := net (srv s2)\<rparr>" "request_arrived L s2 p"
    "messages (main_heap s2) = (messages (main_heap s))(MEMORY_HANDLE_MAIN_LOOP_1 L \<mapsto> ([], p))"
    "free_space (main_heap s) - int (length p) \<le> free_space (main_heap s2)" "MEMORY_HANDLE_MAX (main_heap s2) = MEMORY_HANDLE_MAX (main_heap s)"
    by (rule request_received [OF assms(1)])
  have inv: "handles_inv (main_heap s2)" "send_results (net (srv s2)) = []" using r(5) by (simp_all add: request_arrived_def)
  have h: "messages (main_heap s2) (MEMORY_HANDLE_MAIN_LOOP_1 L) = Some ([], p)" using r(6) by simp
  obtain m where m: "hand_over (MEMORY_HANDLE_MAIN_LOOP_1 L) s2 = Some (set_heap m s2)"
    "has_room m ((messages (main_heap s2))(MEMORY_HANDLE_MAIN_LOOP_1 L \<mapsto> (p, []))) (free_space (main_heap s2)) (MEMORY_HANDLE_MAX (main_heap s2))"
    by (rule main_hand_over [OF has_room_now [OF inv(1)] h])
  have "length p \<le> 80" using assms(1) by (simp add: request_comes_def)
  then have "4 * int (length p) + 10 * c + 5 \<le> free_space (main_heap s2)" using assms(3) r(7) by linarith
  moreover have "has_device s2 dv key" using assms(2) only_net(1) [OF r(4)] by (simp add: has_device_def)
  moreover have "clock s2 \<noteq> []" using request_received_clock [OF r(1,2)] assms(4) by simp
  ultimately show thesis using that [OF r(1-3) m(1) message_at_has_room [OF m(2) fun_upd_same, unfolded r(8)]] inv(2) by blast
qed

lemma slave_codes:
  "COMMLAYER_FROM_CU_STATUS_FOR_SLAVE \<noteq> COMMLAYER_RET_FAILED" "COMMLAYER_FROM_CU_STATUS_FROM_SLAVE \<noteq> COMMLAYER_RET_FAILED"
  "COMMLAYER_FROM_CU_STATUS_FROM_SLAVE \<noteq> COMMLAYER_FROM_CU_STATUS_FOR_SLAVE"
  by (simp_all add: COMMLAYER_FROM_CU_STATUS_FOR_SLAVE_def COMMLAYER_FROM_CU_STATUS_FROM_SLAVE_def COMMLAYER_RET_FAILED_def)

end
