(* ===== verification/Init_Rules.thy ===== *)
theory Init_Rules
  imports Main_Rules
begin

text \<open>
  The initialisation of the server, when the central unit sends well-formed packets: what each of
  them adds, and the loop over all of them.
\<close>

section \<open>One packet\<close>

definition known_device :: "('a, 'b) main_lib \<Rightarrow> u8 list \<Rightarrow> ('a, 'b) DEVICE_CONTEXT" where
  "known_device L p = (uninitialised_device L)\<lparr>dc_device_id := packet_dev_id p, AES_ENCRYPTION_KEY := take 16 (drop 2 p)\<rparr>"

definition stored_device :: "('a, 'b) main_lib \<Rightarrow> u8 list \<Rightarrow> u8 list \<Rightarrow> PER_DEVICE_STORAGE_DATA" where
  "stored_device L a p = \<lparr>psd_device_id = packet_dev_id p, dev_data = a, dev_data_sz = PERM_STORAGE_MIN_SIZE (eeprom L)\<rparr>"

text \<open>The server with the devices of the packets.\<close>

definition with_devices :: "('a, 'b) main_lib \<Rightarrow> u8 list \<Rightarrow> ('a, 'b) server \<Rightarrow> u8 list list \<Rightarrow> ('a, 'b) server" where
  "with_devices L a sv ps = sv\<lparr>storage := storage sv @ map (stored_device L a) ps,
     all_devices := all_devices sv @ map (known_device L) ps,
     mesh_root := (mesh_root sv)\<lparr>mesh_routing_data :=
       mesh_routing_data (mesh_root sv) @ map (new_mesh_device (uninitialised_time L)) ps\<rparr>\<rparr>"

text \<open>A device that none of the three lists of the server has.\<close>

definition unknown :: "('a, 'b) server \<Rightarrow> u16 \<Rightarrow> bool" where
  "unknown sv k \<longleftrightarrow> k \<notin> dc_device_id ` set (all_devices sv) \<and> k \<notin> device_id ` set (mesh_routing_data (mesh_root sv)) \<and>
     k \<notin> psd_device_id ` set (storage sv)"

lemma unknown_after:
  "unknown (with_devices L a sv [p]) k \<longleftrightarrow> unknown sv k \<and> k \<noteq> packet_dev_id p" "unknown (sv\<lparr>net := c\<rparr>) k \<longleftrightarrow> unknown sv k"
  by (auto simp: unknown_def with_devices_def known_device_def stored_device_def new_mesh_device_def)

lemma with_devices_append:
  "with_devices L a ((with_devices L a sv ps)\<lparr>net := c\<rparr>) ps' = (with_devices L a sv (ps @ ps'))\<lparr>net := c\<rparr>"
  by (simp add: with_devices_def)

lemma preinit_unknown:
  assumes "unknown sv (packet_dev_id p)"
  shows "main_preinit_device (eeprom L) (Some a) (uninitialised_device L) sv (packet_dev_id p) (take 16 (drop 2 p)) =
    (MAIN_DEVICES_RET_OK, sv\<lparr>storage := storage sv @ [stored_device L a p], all_devices := all_devices sv @ [known_device L p]\<rparr>)"
proof -
  have "\<not> list_ex (\<lambda>d. dc_device_id d = packet_dev_id p) (all_devices sv)" "\<not> list_ex (\<lambda>d. psd_device_id d = packet_dev_id p) (storage sv)"
    unfolding list_ex_iff using assms by (metis imageI unknown_def)+
  then show ?thesis by (simp add: main_preinit_device_def perm_storage_add_device_def stored_device_def known_device_def)
qed

lemma device_packet_step:
  assumes ready: "loop_ready s (M(MEMORY_HANDLE_MAIN_LOOP_1 L \<mapsto> ([], p))) n k st c" and p: "device_packet_ok p" "length p \<le> 37"
    and new: "unknown (srv s) (packet_dev_id p)" "new_storage L = Some a" and room: "3 \<le> n"
  obtains s' where "init_device_packet L init_reply_h cnt s = Some (Init_go_on, cnt + 1, s')"
    "loop_ready s' (M(MEMORY_HANDLE_MAIN_LOOP_1 L \<mapsto> (p, [p ! 0, p ! 1, COMMLAYER_TO_CU_STATUS_OK]))) (n - 3) k st c"
    "srv s' = (with_devices L a (srv s) [p])\<lparr>net := net (srv s')\<rparr>"
proof -
  let ?h = "MEMORY_HANDLE_MAIN_LOOP_1 L"
  have n: "1 \<le> n" "1 \<le> n - 1" "1 \<le> n - 1 - 1" using room by simp_all
  have len: "22 \<le> length p" using p(1) by (simp add: device_packet_ok_def)
  then have len2: "2 \<le> length p" "21 \<le> length p" by simp_all
  have r: "has_room (main_heap s) (M(?h \<mapsto> ([], p))) n k" using ready by (simp add: loop_ready_def)
  obtain m0 where 0: "hand_over ?h s = Some (set_heap m0 s)" "has_room m0 (M(?h \<mapsto> (p, []))) n k"
    by (rule main_hand_over [OF r fun_upd_same, unfolded fun_upd_upd])
  have r0: "has_room (main_heap (set_heap m0 s)) (M(?h \<mapsto> (p, []))) n k" using 0(2) by simp
  obtain m1 where 1: "write_byte ?h (p ! 0) (set_heap m0 s) = Some (set_heap m1 s)" "has_room m1 (M(?h \<mapsto> (p, [] @ [p ! 0]))) (n - 1) k"
    by (rule main_write [OF r0 fun_upd_same n(1), where b = "p ! 0", unfolded fun_upd_upd set_heap_simps])
  have r1: "has_room (main_heap (set_heap m1 s)) (M(?h \<mapsto> (p, [] @ [p ! 0]))) (n - 1) k" using 1(2) by simp
  obtain m2 where 2: "write_byte ?h (p ! 1) (set_heap m1 s) = Some (set_heap m2 s)"
    "has_room m2 (M(?h \<mapsto> (p, ([] @ [p ! 0]) @ [p ! 1]))) (n - 1 - 1) k"
    by (rule main_write [OF r1 fun_upd_same n(2), where b = "p ! 1", unfolded fun_upd_upd set_heap_simps])
  have start: "zepto_parser_init m0 ?h = Some (at ?h 0)" "zepto_parsing_remaining_bytes m0 (at ?h 0) = Some (int (length p), at ?h 0)"
    using parser_at_start [OF 0(2) fun_upd_same] by simp_all
  have id: "parse_dev_id m0 (at ?h 0) = Some (packet_dev_id p, at ?h 2)" by (rule parse_dev_id_at [OF 0(2) fun_upd_same len2(1)])
  have f: "parse_device_fields m2 (at ?h 2) = Some (\<lparr>df_key = take 16 (drop 2 p), df_is_retransmitter = p ! 18,
      df_bus_id_max = p ! 19, df_bus_type_cnt = p ! 20\<rparr>, at ?h 21)"
    by (rule parse_device_fields_at [OF 2(2) fun_upd_same len2(2)])
  have nums: "\<not> int (length p) < 2" "\<not> int (length p) < 22" "\<not> (p ! 20 = 0 \<or> int (length p) \<noteq> 21 + uint (p ! 20))"
    using len p(1) uint_nat [of "p ! 20"] by (linarith, linarith, auto simp: device_packet_ok_def)
  let ?sv = "(with_heap m2 (srv s))\<lparr>storage := storage (srv s) @ [stored_device L a p], all_devices := all_devices (srv s) @ [known_device L p]\<rparr>"
  have "unknown (srv (set_heap m2 s)) (packet_dev_id p)" using new(1) by (simp add: unknown_def)
  from preinit_unknown [OF this, of L a]
  have pre: "main_preinit_device (eeprom L) (new_storage L) (uninitialised_device L) (with_heap m2 (srv s)) (packet_dev_id p) (take 16 (drop 2 p)) =
      (MAIN_DEVICES_RET_OK, ?sv)" by (simp add: new(2))
  let ?s1 = "(set_heap m2 s)\<lparr>srv := ?sv\<rparr>"
  have l1: "loop_ready ?s1 (M(?h \<mapsto> (p, ([] @ [p ! 0]) @ [p ! 1]))) (n - 1 - 1) k st c"
    by (rule loop_ready_srv [OF loop_ready_heap [OF ready 2(2)]]) simp
  then have r2: "has_room (main_heap ?s1) (M(?h \<mapsto> (p, ([] @ [p ! 0]) @ [p ! 1]))) (n - 1 - 1) k" by (simp only: loop_ready_def)
  obtain m3 where 3: "write_byte ?h COMMLAYER_TO_CU_STATUS_OK ?s1 = Some (set_heap m3 ?s1)"
    "has_room m3 (M(?h \<mapsto> (p, (([] @ [p ! 0]) @ [p ! 1]) @ [COMMLAYER_TO_CU_STATUS_OK]))) (n - 1 - 1 - 1) k"
    by (rule main_write [OF r2 fun_upd_same n(3), where b = COMMLAYER_TO_CU_STATUS_OK, unfolded fun_upd_upd])
  let ?s2 = "set_heap m3 ?s1"
  have l2: "loop_ready ?s2 (M(?h \<mapsto> (p, (([] @ [p ! 0]) @ [p ! 1]) @ [COMMLAYER_TO_CU_STATUS_OK]))) (n - 1 - 1 - 1) k st c"
    by (rule loop_ready_heap [OF l1 3(2)])
  have bus: "parse_bus_types m3 (at ?h 21) (p ! 20) = Some (drop 21 p)" by (rule parse_bus_types_at [OF 3(2) fun_upd_same p])
  let ?s3 = "?s2\<lparr>srv := (srv ?s2)\<lparr>mesh_root := (mesh_root (srv ?s2))\<lparr>mesh_routing_data :=
      mesh_routing_data (mesh_root (srv ?s2)) @ [new_mesh_device (uninitialised_time L) p]\<rparr>\<rparr>\<rparr>"
  have "packet_dev_id p \<notin> device_id ` set (mesh_routing_data (mesh_root (srv ?s2)))" using new(1) by (simp add: unknown_def)
  from add_to_mesh_effect [OF this] have add: "add_to_mesh L ?s2 (packet_dev_id p) \<lparr>df_key = take 16 (drop 2 p),
      df_is_retransmitter = p ! 18, df_bus_id_max = p ! 19, df_bus_type_cnt = p ! 20\<rparr> (drop 21 p) = Some ?s3" by blast
  have "init_device_packet L init_reply_h cnt s = Some (Init_go_on, cnt + 1, ?s3)"
    using 0(1) start id 1(1) 2(1) f nums pre 3(1) bus add by (simp add: init_device_packet_def packet_dev_id_bytes)
  moreover have "loop_ready ?s3 (M(?h \<mapsto> (p, [p ! 0, p ! 1, COMMLAYER_TO_CU_STATUS_OK]))) (n - 3) k st c"
    using loop_ready_srv [OF l2, of "srv ?s3"] by simp
  moreover have "srv ?s3 = (with_devices L a (srv s) [p])\<lparr>net := net (srv ?s3)\<rparr>" by (simp add: with_devices_def with_heap_def)
  ultimately show thesis using that by blast
qed

section \<open>All packets\<close>

text \<open>The stream of the packets of the devices, each with the value of its header and its contents.\<close>

definition device_frames :: "(u16 \<times> u8 list) list \<Rightarrow> u8 list" where
  "device_frames bps = concat (map (\<lambda>(b, p). frame b COMMLAYER_FROM_CU_STATUS_INITIALIZER p) bps)"

lemma init_codes:
  "COMMLAYER_FROM_CU_STATUS_INITIALIZER \<noteq> COMMLAYER_RET_FAILED" "COMMLAYER_FROM_CU_STATUS_INITIALIZER_LAST \<noteq> COMMLAYER_RET_FAILED"
  "COMMLAYER_FROM_CU_STATUS_INITIALIZER_LAST \<noteq> COMMLAYER_FROM_CU_STATUS_INITIALIZER"
  by (simp_all add: COMMLAYER_FROM_CU_STATUS_INITIALIZER_def COMMLAYER_FROM_CU_STATUS_INITIALIZER_LAST_def COMMLAYER_RET_FAILED_def)

lemma init_body_device:
  assumes ready: "loop_ready s M n k (frame b COMMLAYER_FROM_CU_STATUS_INITIALIZER p @ rest) (Suc c)"
    and view: "M (MEMORY_HANDLE_MAIN_LOOP_1 L) = Some (rq, rsp)" and room: "120 \<le> n + int (length rq) + int (length rsp)"
    and p: "device_packet_ok p" "length p \<le> 37" and new: "unknown (srv s) (packet_dev_id p)" "new_storage L = Some a"
  obtains s' rq' rsp' n' where "init_body L init_reply_h cnt s = Some (Init_go_on, cnt + 1, s')"
    "loop_ready s' (M(MEMORY_HANDLE_MAIN_LOOP_1 L \<mapsto> (rq', rsp'))) n' k rest c" "120 \<le> n' + int (length rq') + int (length rsp')"
    "srv s' = (with_devices L a (srv s) [p])\<lparr>net := net (srv s')\<rparr>"
proof -
  let ?h = "MEMORY_HANDLE_MAIN_LOOP_1 L" and ?n = "n + int (length rq) + int (length rsp) - int (length p)"
  have "p \<noteq> []" using p(1) by (auto simp: device_packet_ok_def)
  moreover have "length p \<le> 80" "80 \<le> n + int (length rq) + int (length rsp)" "3 \<le> ?n" using p(2) room by linarith+
  ultimately have size: "p \<noteq> []" "length p \<le> 80" "80 \<le> n + int (length rq) + int (length rsp)" "3 \<le> ?n" by blast+
  have ne: "p \<noteq> [] \<or> rest \<noteq> []" using size(1) by blast
  obtain s1 s2 where r: "wait_event s = Some (COMMLAYER_RET_FROM_CENTRAL_UNIT, s1)"
    "receive_from_central_unit L s1 = Some (COMMLAYER_FROM_CU_STATUS_INITIALIZER, s2)"
    "srv s2 = (srv s)\<lparr>net := net (srv s2)\<rparr>" "loop_ready s2 (M(?h \<mapsto> ([], p))) ?n k rest c"
    using loop_receive [OF ready view size(3,2) ne] by blast
  have u: "unknown (srv s2) (packet_dev_id p)" by (subst r(3), simp only: unknown_after new(1))
  obtain s' where s': "init_device_packet L init_reply_h cnt s2 = Some (Init_go_on, cnt + 1, s')"
    "loop_ready s' (M(?h \<mapsto> (p, [p ! 0, p ! 1, COMMLAYER_TO_CU_STATUS_OK]))) (?n - 3) k rest c"
    "srv s' = (with_devices L a (srv s2) [p])\<lparr>net := net (srv s')\<rparr>"
    by (rule device_packet_step [OF r(4) p u new(2) size(4)])
  have "init_body L init_reply_h cnt s = Some (Init_go_on, cnt + 1, s')"
    using r(1,2) s'(1) init_codes by (simp add: init_body_def init_packet_def)
  moreover have "120 \<le> ?n - 3 + int (length p) + int (length [p ! 0, p ! 1, COMMLAYER_TO_CU_STATUS_OK])" using room by simp
  moreover have "srv s' = (with_devices L a (srv s) [p])\<lparr>net := net (srv s')\<rparr>"
    by (subst s'(3), subst r(3), simp add: with_devices_def)
  ultimately show thesis using that s'(2) by blast
qed

lemma init_body_last:
  assumes ready: "loop_ready s M n k (frame v COMMLAYER_FROM_CU_STATUS_INITIALIZER_LAST q @ rest) (Suc c)"
    and view: "M (MEMORY_HANDLE_MAIN_LOOP_1 L) = Some (rq, rsp)" and room: "120 \<le> n + int (length rq) + int (length rsp)"
    and q: "length q \<le> 80" "q \<noteq> [] \<or> rest \<noteq> []"
  obtains s' where "init_body L init_reply_h cnt s = Some (Init_loop_done, cnt, s')" "param s' = v"
    "loop_ready s' (M(MEMORY_HANDLE_MAIN_LOOP_1 L \<mapsto> ([], q))) (n + int (length rq) + int (length rsp) - int (length q)) k rest c"
    "srv s' = (srv s)\<lparr>net := net (srv s')\<rparr>"
proof -
  have "80 \<le> n + int (length rq) + int (length rsp)" using room by simp
  from loop_receive [OF ready view this q] obtain s1 s2 where r: "wait_event s = Some (COMMLAYER_RET_FROM_CENTRAL_UNIT, s1)"
    "receive_from_central_unit L s1 = Some (COMMLAYER_FROM_CU_STATUS_INITIALIZER_LAST, s2)" "param s2 = v" "srv s2 = (srv s)\<lparr>net := net (srv s2)\<rparr>"
    "loop_ready s2 (M(MEMORY_HANDLE_MAIN_LOOP_1 L \<mapsto> ([], q))) (n + int (length rq) + int (length rsp) - int (length q)) k rest c"
    by blast
  have "init_body L init_reply_h cnt s = Some (Init_loop_done, cnt, s2)"
    using r(1,2) init_codes by (simp add: init_body_def init_packet_def)
  then show thesis using that r(3-5) by blast
qed

lemma init_loop_devices:
  assumes "loop_ready s M n k (device_frames bps @ frame v COMMLAYER_FROM_CU_STATUS_INITIALIZER_LAST q @ rest) (Suc (length bps))"
    and "M (MEMORY_HANDLE_MAIN_LOOP_1 L) = Some (rq, rsp)" "120 \<le> n + int (length rq) + int (length rsp)"
    and "\<forall>p \<in> snd ` set bps. device_packet_ok p \<and> length p \<le> 37 \<and> unknown (srv s) (packet_dev_id p)"
    and "distinct (map (packet_dev_id \<circ> snd) bps)" "new_storage L = Some a" "length q \<le> 80" "q \<noteq> [] \<or> rest \<noteq> []"
  shows "\<exists>s' n'. init_loop L init_reply_h cnt s = Some (Init_loop_done, cnt + of_nat (length bps), s') \<and> param s' = v \<and>
    loop_ready s' (M(MEMORY_HANDLE_MAIN_LOOP_1 L \<mapsto> ([], q))) n' k rest 0 \<and>
    srv s' = (with_devices L a (srv s) (map snd bps))\<lparr>net := net (srv s')\<rparr>"
  using assms
proof (induction bps arbitrary: s M n rq rsp cnt)
  case Nil
  have "loop_ready s M n k (frame v COMMLAYER_FROM_CU_STATUS_INITIALIZER_LAST q @ rest) (Suc 0)"
    using Nil.prems(1) by (simp add: device_frames_def)
  from init_body_last [OF this Nil.prems(2,3,7,8)] obtain s' where s': "init_body L init_reply_h cnt s = Some (Init_loop_done, cnt, s')"
    "param s' = v" "loop_ready s' (M(MEMORY_HANDLE_MAIN_LOOP_1 L \<mapsto> ([], q))) (n + int (length rq) + int (length rsp) - int (length q)) k rest 0"
    "srv s' = (srv s)\<lparr>net := net (srv s')\<rparr>" by blast
  have "srv s' = (with_devices L a (srv s) (map snd []))\<lparr>net := net (srv s')\<rparr>" by (subst s'(4), simp add: with_devices_def)
  moreover have "init_loop L init_reply_h cnt s = Some (Init_loop_done, cnt + of_nat (length []), s')"
    using s'(1) by (subst init_loop.simps) simp
  ultimately show ?case using s'(2,3) by (intro exI conjI) assumption+
next
  case (Cons bp bps)
  obtain b p where bp: "bp = (b, p)" by force
  let ?rest = "device_frames bps @ frame v COMMLAYER_FROM_CU_STATUS_INITIALIZER_LAST q @ rest"
  have "loop_ready s M n k (frame b COMMLAYER_FROM_CU_STATUS_INITIALIZER p @ ?rest) (Suc (Suc (length bps)))"
    "device_packet_ok p" "length p \<le> 37" "unknown (srv s) (packet_dev_id p)"
    using Cons.prems(1,4) by (simp_all add: device_frames_def bp)
  from init_body_device [OF this(1) Cons.prems(2,3) this(2-4) Cons.prems(6)]
  obtain s1 rq' rsp' n' where s1: "init_body L init_reply_h cnt s = Some (Init_go_on, cnt + 1, s1)"
    "loop_ready s1 (M(MEMORY_HANDLE_MAIN_LOOP_1 L \<mapsto> (rq', rsp'))) n' k ?rest (Suc (length bps))"
    "120 \<le> n' + int (length rq') + int (length rsp')" "srv s1 = (with_devices L a (srv s) [p])\<lparr>net := net (srv s1)\<rparr>"
    by blast
  have "\<forall>p' \<in> snd ` set bps. device_packet_ok p' \<and> length p' \<le> 37 \<and> unknown (srv s1) (packet_dev_id p')"
  proof
    fix p' assume p': "p' \<in> snd ` set bps"
    moreover have "packet_dev_id p' \<noteq> packet_dev_id p" using p' Cons.prems(5) by (force simp: bp)
    ultimately show "device_packet_ok p' \<and> length p' \<le> 37 \<and> unknown (srv s1) (packet_dev_id p')"
      using bspec [OF Cons.prems(4), of p'] by (subst s1(4)) (simp add: unknown_after)
  qed
  moreover have "distinct (map (packet_dev_id \<circ> snd) bps)" using Cons.prems(5) by (simp add: comp_def)
  ultimately have rest: "\<forall>p' \<in> snd ` set bps. device_packet_ok p' \<and> length p' \<le> 37 \<and> unknown (srv s1) (packet_dev_id p')"
    "distinct (map (packet_dev_id \<circ> snd) bps)" .
  from Cons.IH [OF s1(2) fun_upd_same s1(3) rest Cons.prems(6-8), of "cnt + 1", unfolded fun_upd_upd]
  obtain s' n'' where s': "init_loop L init_reply_h (cnt + 1) s1 = Some (Init_loop_done, cnt + 1 + of_nat (length bps), s')" "param s' = v"
    "loop_ready s' (M(MEMORY_HANDLE_MAIN_LOOP_1 L \<mapsto> ([], q))) n'' k rest 0"
    "srv s' = (with_devices L a (srv s1) (map snd bps))\<lparr>net := net (srv s')\<rparr>" by blast
  have "init_loop L init_reply_h cnt s = Some (Init_loop_done, cnt + of_nat (length (bp # bps)), s')"
    using s1(1) s'(1) by (subst init_loop.simps) (simp add: add.assoc)
  moreover have "srv s' = (with_devices L a (srv s) (map snd (bp # bps)))\<lparr>net := net (srv s')\<rparr>"
    by (subst s'(4), subst s1(4)) (simp add: with_devices_append bp)
  ultimately show ?case using s'(2,3) by blast
qed

end
