(* ===== verification/Device_Properties.thy ===== *)
theory Device_Properties
  imports Devices Comm_Properties
begin

text \<open>
  Properties of the devices and of their permanent storage, with the steps that a running server
  makes on its devices.
\<close>

section \<open>Samples\<close>

text \<open>A server without devices, and a library that only marks the data it is given.\<close>

definition start_server :: "comm \<Rightarrow> (nat, bool) server" where
  "start_server c = \<lparr>net = c, storage = [], mesh_root = \<lparr>mesh_routing_data = [], next_check_time = \<lparr>low_t = 0, high_t = 0\<rparr>,
     planned_updates = [], mesh_routing_data_updates_in_progress = [], last_hops_of_all_devices = [], from_santa_request_id = 0,
     pending_resends = []\<rparr>, all_devices = [], scheduled_gdp_ctr_request = []\<rparr>"

definition marking_lib :: "(nat, bool) stack_lib" where
  "marking_lib = \<lparr>sasp_init_eeprom_data_at_lifestart = (\<lambda>x k st. Some (1, st)), sasp_restore_from_backup = (\<lambda>x k st. Some (2, st)),
     handler_sasp_save_state = (\<lambda>x k st. Some (x, st)), sagdp_init = (\<lambda>_. True), sagdp_is_idle = (\<lambda>x. x)\<rparr>"

definition empty_context :: "(nat, bool) DEVICE_CONTEXT" where
  "empty_context = \<lparr>dc_device_id = 0, AES_ENCRYPTION_KEY = [], sasp_data = 0, sagdp_context_app = False, sagdp_context_ctr = False,
     MEMORY_HANDLE_SAGDP_LSM_APP = None, MEMORY_HANDLE_SAGDP_LSM_APP_SAOUDP_ADDR = None,
     MEMORY_HANDLE_SAGDP_LSM_CTR = None, MEMORY_HANDLE_SAGDP_LSM_CTR_SAOUDP_ADDR = None\<rparr>"

definition sample_eeprom :: eeprom_lib where
  "sample_eeprom = \<lparr>DATA_SASP_NONCE_LW_SIZE = 6, DATA_SASP_NONCE_LS_SIZE = 6, EEPROM_CHECKSUM_SIZE = 4,
     EEPROM_SLOT_DATA_SASP_NONCE_LW_ID = 0, EEPROM_SLOT_DATA_SASP_NONCE_LS_ID = 1, PERM_STORAGE_MIN_SIZE = 20\<rparr>"

lemma marking_lib:
  "keeps_messages (sasp_init_eeprom_data_at_lifestart marking_lib)" "returns (sasp_init_eeprom_data_at_lifestart marking_lib)"
  "keeps_messages (sasp_restore_from_backup marking_lib)"
  "keeps_messages (handler_sasp_save_state marking_lib)" "returns (handler_sasp_save_state marking_lib)"
  by (simp_all add: marking_lib_def keeps_messages_def returns_def)

lemma start_server:
  "server_ok (start_server (answering r))" "all_devices (start_server c) = []" "scheduled_gdp_ctr_request (start_server c) = []"
  "net (start_server c) = c"
  using acquired_heap(2) by (simp_all add: start_server_def server_ok_def owned_handles_def answering_def connection_def)

section \<open>Steps\<close>

text \<open>
  What happens to the devices while the server runs. \<open>h\<close> is the handle it works with; the last rule
  is for everything else that is done through the memory manager. The steps that copy a request are
  taken when there is room for it.
\<close>

inductive server_step :: "eeprom_lib \<Rightarrow> ('a, 'b) stack_lib \<Rightarrow> nat \<Rightarrow> ('a, 'b) server \<Rightarrow> ('a, 'b) server \<Rightarrow> bool"
  for K :: eeprom_lib and L :: "('a, 'b) stack_lib" and h :: nat where
  add: "main_add_new_device L blank s k key = Some (r, s') \<Longrightarrow> server_step K L h s s'"
| preinit: "main_preinit_device K arr blank s k key = (r, s') \<Longrightarrow> device_handles blank = [] \<Longrightarrow> server_step K L h s s'"
| postinit: "main_postinit_device L s k = Some (r, s') \<Longrightarrow> server_step K L h s s'"
| remove: "main_remove_device L s k = Some (r, s') \<Longrightarrow> server_step K L h s s'"
| schedule: "main_add_scheduled_gdp_ctr_request s h k = Some s' \<Longrightarrow> h < MEMORY_HANDLE_MAX (heap (net s)) \<Longrightarrow>
    messages (heap (net s)) h = Some (rq, rsp) \<Longrightarrow> 17 + int (length rq) \<le> free_space (heap (net s)) \<Longrightarrow>
    messages (heap (net s)) (MEMORY_HANDLE_MAX (heap (net s))) \<noteq> None \<Longrightarrow> server_step K L h s s'"
| get: "main_get_scheduled_gdp_ctr_request L s h = Some (d, s') \<Longrightarrow> h < MEMORY_HANDLE_MAX (heap (net s)) \<Longrightarrow>
    messages (heap (net s)) h \<noteq> None \<Longrightarrow>
    \<forall>r \<in> set (scheduled_gdp_ctr_request s). \<forall>rq rsp. messages (heap (net s)) (scr_mem_h r) = Some (rq, rsp) \<longrightarrow>
      int (length rq) \<le> free_space (heap (net s)) \<Longrightarrow> server_step K L h s s'"
| work: "all_devices s' = all_devices s \<Longrightarrow> scheduled_gdp_ctr_request s' = scheduled_gdp_ctr_request s \<Longrightarrow>
    handles_inv (heap (net s')) \<Longrightarrow> MEMORY_HANDLE_MAX (heap (net s')) = MEMORY_HANDLE_MAX (heap (net s)) \<Longrightarrow>
    \<forall>h \<in> set (owned_handles s). messages (heap (net s')) h \<noteq> None \<Longrightarrow> server_step K L h s s'"

lemma server_step_ok:
  assumes "server_step K L h s s'" "server_ok s" "keeps_messages (sasp_init_eeprom_data_at_lifestart L)"
    "keeps_messages (sasp_restore_from_backup L)" "keeps_messages (handler_sasp_save_state L)"
  shows "server_ok s'"
  using assms(1,2)
proof (cases rule: server_step.cases)
  case (add blank k key r)
  then show ?thesis using add_new_device_ok [OF assms(2,3)] by blast
next
  case (preinit arr blank k key r)
  then show ?thesis using preinit_device_ok [OF assms(2), of blank K arr k key] by simp
next
  case (postinit k r)
  then show ?thesis using postinit_device_ok [OF assms(2,4)] by blast
next
  case (remove k r)
  show ?thesis
  proof (cases "first_index (\<lambda>d. dc_device_id d = k) (all_devices s)")
    case None
    then show ?thesis using remove assms(2) by (simp add: main_remove_device_def)
  next
    case (Some i)
    then show ?thesis using removed_device [OF assms(2,5) Some remove] by blast
  qed
next
  case (schedule k rq rsp)
  then show ?thesis using add_scheduled_ok [OF assms(2)] by blast
next
  case (get d)
  then show ?thesis using get_scheduled_ok [OF assms(2)] by blast
next
  case work
  then have "owned_handles s' = owned_handles s" by (simp add: owned_handles_def)
  then show ?thesis using work assms(2) by (simp add: server_ok_def)
qed



section \<open>Adding and removing a device\<close>



section \<open>Control requests that wait\<close>


definition idle_device_server :: "mem \<Rightarrow> (nat, bool) server" where
  "idle_device_server m = (start_server (connection m []))
     \<lparr>all_devices := [empty_context\<lparr>dc_device_id := 7, sagdp_context_ctr := True\<rparr>]\<rparr>"


section \<open>Permanent storage\<close>

text \<open>
  Writing to the permanent storage changes the copy the server keeps, the data followed by their
  checksum, but what goes out to the central unit is a request to save no data at all; the reply and
  the packets before it are handled as for any request, and all other messages are kept.
\<close>

lemma eeprom_write_saves_nothing:
  assumes "handles_inv (heap s)" "messages (heap s) (MEMORY_HANDLE_MAX (heap s)) \<noteq> None"
    and "perm_storage_get_device_data_by_device_id ds (ucast dev_id) = Some i"
      "dev_data_sz (ds ! i) = length (dev_data (ds ! i))" "11 \<le> length (dev_data (ds ! i))"
    and "slot_request_ok K slot sz" "slot_offset K slot = 0" "sz \<le> length dat"
    and "calculate_checksum (EEPROM_CHECKSUM_SIZE K) (take sz dat) = Some cs" "sz + length cs \<le> length (dev_data (ds ! i))"
    and "195 + int (length (dev_data (ds ! i))) \<le> free_space (heap s)" "reply_arrives s ms reply rest"
  shows "\<exists>s'. eeprom_write K ds s dev_id slot sz dat =
      Some (ds[i := (ds ! i)\<lparr>dev_data := take sz dat @ cs @ drop (sz + length cs) (dev_data (ds ! i))\<rparr>], s') \<and>
    sent s' = sent s @ [frame (sync_packet_id s + 1) COMMLAYER_TO_CU_STATUS_SYNC_REQUEST
      [REQUEST_TO_CU_WRITE_DATA, ucast dev_id, ucast (drop_bit 8 dev_id), 0, 0, 0]] \<and>
    handles_inv (heap s') \<and> messages (heap s') = messages (heap s) \<and>
    map packet_of (packets s') = map packet_of (packets s) @ ms"
  using eeprom_write_effect [OF has_room_now [OF assms(1)] assms(2-12)]
  by (simp add: save_request_def u16_of_def) blast

lemma eeprom_write_saves_nothing_witness:
  "\<exists>ds s. eeprom_write sample_eeprom [\<lparr>psd_device_id = 5, dev_data = replicate 20 0, dev_data_sz = 20\<rparr>] (answering [1]) 5 0 6
      [1, 2, 3, 4, 5, 6] = Some (ds, s) \<and> dev_data (ds ! 0) = [1, 2, 3, 4, 5, 6, 9, 12, 14, 20] @ replicate 10 0 \<and>
    sent s = [[6, 0, 7, 0, 56, 0, 5, 0, 0, 0, 0]]"
proof -
  let ?ds = "[\<lparr>psd_device_id = 5, dev_data = replicate 20 (0 :: u8), dev_data_sz = 20\<rparr>]" and ?K = sample_eeprom
  let ?dat = "[1, 2, 3, 4, 5, 6] :: u8 list"
  have dev: "perm_storage_get_device_data_by_device_id ?ds (ucast (5 :: u16)) = Some 0" "slot_request_ok ?K 0 6" "slot_offset ?K 0 = 0"
    "calculate_checksum (EEPROM_CHECKSUM_SIZE ?K) (take 6 ?dat) = Some [9, 12, 14, 20]" by code_simp+
  have fr: "frame 7 COMMLAYER_TO_CU_STATUS_SYNC_REQUEST [REQUEST_TO_CU_WRITE_DATA, ucast (5 :: u16), ucast (drop_bit 8 (5 :: u16)), 0, 0, 0]
      = [6, 0, 7, 0, 56, 0, 5, 0, 0, 0, 0]" by code_simp
  note r = answering_ready [of "[1]", simplified]
  have heap: "messages (heap (answering [1])) (MEMORY_HANDLE_MAX (heap (answering [1]))) \<noteq> None"
    "195 + int (length (dev_data (?ds ! 0))) \<le> free_space (heap (answering [1]))"
    using acquired_messages(2,3) acquired_heap(4) by (simp_all add: answering_def connection_def)
  have len: "dev_data_sz (?ds ! 0) = length (dev_data (?ds ! 0))" "11 \<le> length (dev_data (?ds ! 0))" "6 \<le> length ?dat"
    "6 + length [9, 12, 14, 20 :: u8] \<le> length (dev_data (?ds ! 0))" by simp_all
  show ?thesis
    using eeprom_write_saves_nothing [OF r(2) heap(1) dev(1) len(1,2) dev(2,3) len(3) dev(4) len(4) heap(2) r(1)] r(8,9) fr
    by auto
qed

text \<open>
  C25: Reading from the permanent storage never returns: the data that the central unit sends are left
  in the response of the handle, and the assertion on their size looks at its request.
\<close>

theorem eeprom_read_fails:
  assumes "PERM_STORAGE_MIN_SIZE K \<noteq> 0"
  shows "eeprom_read K ds s dev_id slot sz dat = None"
  by (rule eeprom_read_undefined [OF assms])

theorem eeprom_read_fails_witness:
  "eeprom_read sample_eeprom [\<lparr>psd_device_id = 5, dev_data = replicate 20 0, dev_data_sz = 20\<rparr>]
     (answering (data_reply [0, 0, 0, 0] (replicate 20 0))) 5 0 6 [0, 0, 0, 0, 0, 0] = None"
  by (rule eeprom_read_fails) (simp add: sample_eeprom_def)



end
