(* ===== verification/Server_Properties.thy ===== *)
theory Server_Properties
  imports Init_Rules Device_Properties Route_Properties
begin

text \<open>
  Properties of the server as a whole: what it does with the packets of the central unit, from the
  stream they arrive in to the frames that go out.
\<close>

section \<open>Samples\<close>

text \<open>A library whose handlers are not called, and a server that waits for a packet of the stream.\<close>

definition sample_mesh_lib :: mesh_lib where
  "sample_mesh_lib = \<lparr>ADD_OR_MODIFY_ROUTE_ENTRY = 0, DELETE_ROUTE_ENTRY = 1, ADD_OR_MODIFY_LINK_ENTRY = 0, DELETE_LINK_ENTRY = 1,
     SIOT_MESH_TARGET_UNDEFINED = 0xFFFF, SIOT_MESH_BUS_UNDEFINED = 0xFFFF, SIOT_MESH_LINK_ID_UNDEFINED = 0x7FFF,
     SIOT_MESH_NEXT_HOP_UNDEFINED = 0xFFFF, SIOT_MESH_SUBJECT_FOR_MESH_RESEND = 1, SIOT_MESH_FROM_SANTA_DATA_PACKET = 0,
     zero_milliseconds_tval = \<lparr>low_t = 0, high_t = 0\<rparr>, MESH_CHECK_ROUTS_TO_RETRANSMITTERS_tval = \<lparr>low_t = 5000, high_t = 0\<rparr>,
     MESH_RECEIVING_HOPS_PERIOD_tval = \<lparr>low_t = 500, high_t = 0\<rparr>, MESH_RESEND_PERIOD_tval = \<lparr>low_t = 500, high_t = 0\<rparr>,
     sa_hal_time_val_is_less_eq = (\<lambda>_ _. True), sa_hal_time_val_get_remaining_time = (\<lambda>_ _ t. (False, t)),
     sa_hal_time_val_copy_from_if_src_less = (\<lambda>a _. a), zepto_parser_calculate_checksum_of_part_of_response = (\<lambda>_ _ _ _ _. 0)\<rparr>"

definition server_lib :: "(nat, bool) main_lib" where
  "server_lib = \<lparr>stack = marking_lib, eeprom = sample_eeprom, mesh_consts = sample_mesh_lib, MEMORY_HANDLE_MAIN_LOOP_1 = 0,
     MEMORY_HANDLE_MAIN_LOOP_1_SAOUDP_ADDR = 1, MEMORY_HANDLE_MAIN_LOOP_2_SAOUDP_ADDR = 2, MEMORY_HANDLE_MESH_ACK = 2,
     uninitialised_device = empty_context, uninitialised_time = \<lparr>low_t = 0, high_t = 0\<rparr>, new_storage = Some (replicate 20 0),
     SACCP_PHY_AND_ROUTING_DATA = 1, SACCP_STATS_REQUEST = 2, SACCP_STATS_RESPONSE = 3,
     handler_sasp_get_packet_id = (\<lambda>_ _ _. None), handler_sasp_send = (\<lambda>_ _ _ _ _. None), handler_sasp_receive = (\<lambda>_ _ _ _ _ _. None),
     handler_saoudp_send = (\<lambda>_ _ _. None), handler_saoudp_receive = (\<lambda>_ _ _. None), handler_sagdp_timer = (\<lambda>_ _ _ _ _ _. None),
     handler_sagdp_receive_hlp = (\<lambda>_ _ _ _ _ _. None), handler_sagdp_receive_request_resend_lsp = (\<lambda>_ _ _ _ _ _. None),
     handler_sagdp_receive_up = (\<lambda>_ _ _ _ _ _ _. None), handler_sagdp_is_up_packet_ctr = (\<lambda>_ _. None),
     handler_siot_mesh_timer = (\<lambda>_ _ _ _. None), handler_siot_mesh_receive_packet = (\<lambda>_ _ _ _ _ _ _. None),
     handler_siot_mesh_send_packet = (\<lambda>_ _ _ _ _ _. None), handler_siot_mesh_process_route_update_response = (\<lambda>_ _ _. None)\<rparr>"

definition waiting_server :: "u8 list \<Rightarrow> (nat, bool) main_state" where
  "waiting_server bs = \<lparr>srv = start_server (connection acquired_heap [Arrived bs]), currt = \<lparr>low_t = 0, high_t = 0\<rparr>,
     wait_for = \<lparr>wait_time_high_t = 0xFFFF, wait_time_low_t = 0xFFFF, wait_packet = 1\<rparr>, working_resend_cnt = 0, pid = [], nonce = [],
     device = None, dev_in_use = 0, bus_id = 0xFFFF, target_device_id = 0, for_ctr = False, param = 0, clock = []\<rparr>"

text \<open>A packet for the device 7, with one bus.\<close>

definition device_seven :: "u8 list" where
  "device_seven = [7, 0] @ replicate 16 42 @ [1, 2, 1, 3]"

lemma device_seven:
  "device_packet_ok device_seven" "length device_seven = 22" "packet_dev_id device_seven = 7" "device_seven ! 0 = 7" "device_seven ! 1 = 0"
  unfolding device_packet_ok_def packet_dev_id_def device_seven_def by code_simp+

lemma waiting_server:
  "all_devices (srv (waiting_server bs)) = []" "mesh_routing_data (mesh_root (srv (waiting_server bs))) = []"
  "storage (srv (waiting_server bs)) = []" "server_ok (srv (waiting_server bs))" "sent (net (srv (waiting_server bs))) = []"
  "main_heap (waiting_server bs) = acquired_heap" "packets (net (srv (waiting_server bs))) = []"
  "stream_of (incoming (net (srv (waiting_server bs)))) = bs" "send_results (net (srv (waiting_server bs))) = []"
  "bs \<noteq> [] \<Longrightarrow> quiet (incoming (net (srv (waiting_server bs))))" "ready 2 (net (srv (waiting_server bs)))"
  "ready 1 (net (srv (waiting_server bs)))"
  using acquired_heap(2)
  by (simp_all add: waiting_server_def start_server_def connection_def server_ok_def owned_handles_def ready_def)

lemma waiting_request:
  assumes "length p \<le> 80" "p \<noteq> []"
  shows "request_comes server_lib (waiting_server (frame v kind p)) kind v p []"
  using assms acquired_heap(2,4) acquired_messages(1,3) waiting_server [of "frame v kind p"]
  by (simp add: request_comes_def server_lib_def)

section \<open>Initialisation\<close>



section \<open>Requests of the central unit\<close>

text \<open>
  C8: A request to add a device that the server turns down, because it is too short, malformed or for a
  device that exists, is answered with exactly one frame, which has the packet id of the request, the
  device id as far as it was sent and the reason; nothing else of the server changes, the message of
  the working handle is empty again, and the loop goes on with what follows in the stream.
\<close>

theorem add_device_refused:
  assumes "request_comes L s COMMLAYER_FROM_CU_STATUS_ADD_DEVICE v p rest" "refusal (srv s) p = Some r"
  shows "\<exists>s'. wait_for_packet L blank_id s = Some (None, s') \<and> srv s' = (srv s)\<lparr>net := net (srv s')\<rparr> \<and>
    sent (net (srv s')) = sent (net (srv s)) @ [frame v COMMLAYER_TO_CU_STATUS_DEVICE_ADDED r] \<and>
    handles_inv (main_heap s') \<and> messages (main_heap s') = messages (main_heap s) \<and> stream_of (incoming (net (srv s'))) = rest"
proof -
  obtain s1 s2 where r: "wait_event s = Some (COMMLAYER_RET_FROM_CENTRAL_UNIT, s1)"
    "receive_from_central_unit L s1 = Some (COMMLAYER_FROM_CU_STATUS_ADD_DEVICE, s2)" "param s2 = v" "srv s2 = (srv s)\<lparr>net := net (srv s2)\<rparr>"
    "sent (net (srv s2)) = sent (net (srv s))" "request_arrived L s2 p"
    "messages (main_heap s2) = (messages (main_heap s))(MEMORY_HANDLE_MAIN_LOOP_1 L \<mapsto> ([], p))"
    "free_space (main_heap s) - int (length p) \<le> free_space (main_heap s2)" "stream_of (incoming (net (srv s2))) = rest"
    by (rule request_received [OF assms(1)])
  have room: "8 \<le> free_space (main_heap s2)" and view: "messages (main_heap s) (MEMORY_HANDLE_MAIN_LOOP_1 L) = Some ([], [])"
    using r(8) assms(1) by (auto simp: request_comes_def)
  have "refusal (srv s2) p = refusal (srv s) p" by (subst r(4), simp add: refusal_def)
  then obtain m where m: "add_device_request L s2 = Some (None, frame_sent (frame (param s2) COMMLAYER_TO_CU_STATUS_DEVICE_ADDED r) m s2)"
    "handles_inv m" "messages m = (messages (main_heap s2))(MEMORY_HANDLE_MAIN_LOOP_1 L \<mapsto> ([], []))"
    using add_request_refused [OF r(6) room] assms(2) by metis
  let ?s = "frame_sent (frame v COMMLAYER_TO_CU_STATUS_DEVICE_ADDED r) m s2"
  have "wait_for_packet L blank_id s = Some (None, ?s)"
    using r(1-3) m(1) request_codes by (simp add: wait_for_packet_def central_unit_packet_def event_codes)
  moreover have "srv ?s = (srv s)\<lparr>net := net (srv ?s)\<rparr>" by (rule frame_sent_net [OF r(4)])
  moreover have "messages m = messages (main_heap s)" using m(3) r(7) view by (simp add: fun_upd_idem)
  ultimately show ?thesis using m(2) r(5,9) by (auto simp: frame_sent_def set_net_def)
qed

theorem add_device_refused_witness:
  "\<exists>s'. wait_for_packet server_lib 0 (waiting_server (frame 9 COMMLAYER_FROM_CU_STATUS_ADD_DEVICE [7, 0, 1])) = Some (None, s') \<and>
    all_devices (srv s') = [] \<and> sent (net (srv s')) = [frame 9 COMMLAYER_TO_CU_STATUS_DEVICE_ADDED [7, 0, 2]]"
proof -
  have "refusal (srv (waiting_server (frame 9 COMMLAYER_FROM_CU_STATUS_ADD_DEVICE [7, 0, 1]))) [7, 0, 1] = Some [7, 0, 2]"
    by (simp add: refusal_def device_packet_ok_def COMMLAYER_TO_CU_STATUS_FAILED_INCOMPLETE_OR_CORRUPTED_DATA_def)
  from add_device_refused [OF waiting_request this, of 0] obtain s' where
    "wait_for_packet server_lib 0 (waiting_server (frame 9 COMMLAYER_FROM_CU_STATUS_ADD_DEVICE [7, 0, 1])) = Some (None, s')"
    "srv s' = (srv (waiting_server (frame 9 COMMLAYER_FROM_CU_STATUS_ADD_DEVICE [7, 0, 1])))\<lparr>net := net (srv s')\<rparr>"
    "sent (net (srv s')) = [frame 9 COMMLAYER_TO_CU_STATUS_DEVICE_ADDED [7, 0, 2]]" by (auto simp: waiting_server(5))
  then show ?thesis using only_net(1) waiting_server(1) by metis
qed



text \<open>
  C9: A request to remove a device that is malformed is answered twice: with the code for malformed
  data, and then, because the handler does not end there, with the code for an unknown reason and the
  device id of a variable that has not been set.
\<close>

theorem malformed_removal_answered_twice:
  assumes "request_comes L s COMMLAYER_FROM_CU_STATUS_REMOVE_DEVICE v p rest" "length p \<noteq> 2"
  shows "\<exists>s'. wait_for_packet L blank_id s = Some (None, s') \<and> sent (net (srv s')) = sent (net (srv s)) @
    [frame v COMMLAYER_TO_CU_STATUS_DEVICE_REMOVED [0xFF, 0xFF, COMMLAYER_TO_CU_STATUS_FAILED_INCOMPLETE_OR_CORRUPTED_DATA],
     frame v COMMLAYER_TO_CU_STATUS_DEVICE_REMOVED
       [ucast blank_id, ucast (drop_bit 8 blank_id), COMMLAYER_TO_CU_STATUS_FAILED_UNKNOWN_REASON]] \<and>
    srv s' = (srv s)\<lparr>net := net (srv s')\<rparr>"
proof -
  obtain s1 s2 where r: "wait_event s = Some (COMMLAYER_RET_FROM_CENTRAL_UNIT, s1)"
    "receive_from_central_unit L s1 = Some (COMMLAYER_FROM_CU_STATUS_REMOVE_DEVICE, s2)" "param s2 = v" "srv s2 = (srv s)\<lparr>net := net (srv s2)\<rparr>"
    "sent (net (srv s2)) = sent (net (srv s))" "request_arrived L s2 p" "free_space (main_heap s) - int (length p) \<le> free_space (main_heap s2)"
    by (rule request_received [OF assms(1)])
  have "14 \<le> free_space (main_heap s2)" using r(7) assms(1) by (auto simp: request_comes_def)
  from remove_request_malformed [OF r(6) this assms(2), of blank_id, unfolded r(3)]
  obtain m m' where run: "remove_device_request L blank_id s2 = Some (None,
      frame_sent (frame v COMMLAYER_TO_CU_STATUS_DEVICE_REMOVED [ucast blank_id, ucast (drop_bit 8 blank_id), COMMLAYER_TO_CU_STATUS_FAILED_UNKNOWN_REASON]) m'
        (frame_sent (frame v COMMLAYER_TO_CU_STATUS_DEVICE_REMOVED [0xFF, 0xFF, COMMLAYER_TO_CU_STATUS_FAILED_INCOMPLETE_OR_CORRUPTED_DATA]) m s2))" by blast
  have "wait_for_packet L blank_id s = remove_device_request L blank_id s2"
    using r(1,2) request_codes by (simp add: wait_for_packet_def central_unit_packet_def event_codes)
  then show ?thesis using run r(5) frame_sent_net [OF frame_sent_net [OF r(4)]] by auto
qed

theorem malformed_removal_answered_twice_witness:
  "\<exists>s'. wait_for_packet server_lib 261 (waiting_server (frame 9 COMMLAYER_FROM_CU_STATUS_REMOVE_DEVICE [7])) = Some (None, s') \<and>
    sent (net (srv s')) = [frame 9 COMMLAYER_TO_CU_STATUS_DEVICE_REMOVED [255, 255, 2], frame 9 COMMLAYER_TO_CU_STATUS_DEVICE_REMOVED [5, 1, 3]]"
proof -
  have b: "(261 :: u8) = 5" "ucast (drop_bit 8 (261 :: u16)) = (1 :: u8)" by code_simp+
  have c: "request_comes server_lib (waiting_server (frame 9 COMMLAYER_FROM_CU_STATUS_REMOVE_DEVICE [7])) COMMLAYER_FROM_CU_STATUS_REMOVE_DEVICE 9 [7] []"
    by (rule waiting_request) simp_all
  show ?thesis using malformed_removal_answered_twice [OF c, of 261]
    by (auto simp: waiting_server(5) b COMMLAYER_TO_CU_STATUS_FAILED_INCOMPLETE_OR_CORRUPTED_DATA_def COMMLAYER_TO_CU_STATUS_FAILED_UNKNOWN_REASON_def)
qed


text \<open>A server with the device 1, in the list and in the mesh.\<close>

definition device_one :: "(nat, bool) DEVICE_CONTEXT \<times> mem" where
  "device_one = the (acquire_device_handles acquired_heap (empty_context\<lparr>dc_device_id := 1\<rparr>))"

definition server_one :: "u8 list \<Rightarrow> (nat, bool) main_state" where
  "server_one bs = (waiting_server bs)\<lparr>srv := (start_server (connection (snd device_one) [Arrived bs]))\<lparr>all_devices := [fst device_one],
     mesh_root := way_mesh\<rparr>\<rparr>"

lemma device_one:
  "dc_device_id (fst device_one) = 1" "length (device_handles (fst device_one)) = 4" "4007 \<le> free_space (snd device_one)"
  "handles_inv (snd device_one)" "MEMORY_HANDLE_MAX (snd device_one) = 3" "distinct (device_handles (fst device_one))"
  "\<forall>h \<in> set (device_handles (fst device_one)). 3 \<le> h \<and> messages (snd device_one) h \<noteq> None" "messages (snd device_one) 0 = Some ([], [])"
proof -
  let ?d = "empty_context\<lparr>dc_device_id := 1\<rparr>"
  have room: "has_room acquired_heap (messages acquired_heap) (free_space acquired_heap) 3"
    using has_room_now [OF acquired_heap(2)] acquired_heap(4) by simp
  obtain d m where d: "acquire_device_handles acquired_heap ?d = Some (d, m)" "length (device_handles d) = 4" "free_space acquired_heap - 68 \<le> free_space m"
    by (rule acquire_device_handles_fit [OF room]) (use acquired_messages in auto)
  have one: "device_one = (d, m)" using d(1) by (simp add: device_one_def)
  note e = acquired_device_handles [OF acquired_heap(2) d(1)]
  have "handles_inv m \<and> MEMORY_HANDLE_MAX m = 3 \<and> dc_device_id d = 1 \<and> distinct (device_handles d) \<and>
      (\<forall>h \<in> set (device_handles d). 3 \<le> h \<and> messages m h \<noteq> None) \<and> messages m 0 = Some ([], [])"
    by (rule e) (use acquired_heap(4) acquired_messages(1) in auto)
  then show "dc_device_id (fst device_one) = 1" "length (device_handles (fst device_one)) = 4" "4007 \<le> free_space (snd device_one)"
    "handles_inv (snd device_one)" "MEMORY_HANDLE_MAX (snd device_one) = 3" "distinct (device_handles (fst device_one))"
    "\<forall>h \<in> set (device_handles (fst device_one)). 3 \<le> h \<and> messages (snd device_one) h \<noteq> None" "messages (snd device_one) 0 = Some ([], [])"
    using d(2,3) acquired_messages(3) by (simp_all add: one)
qed


end
