(* ===== verification/Path_Properties.thy ===== *)
theory Path_Properties
  imports Main_Path Server_Properties
begin

text \<open>
  Properties of the way of a message through the server, from frame to frame, and a library of layers
  that each put one byte in front of a message or take it away.
\<close>

section \<open>A library of layers\<close>

definition put_tag :: "u8 \<Rightarrow> nat \<Rightarrow> mem \<Rightarrow> mem option" where
  "put_tag t h m = (case messages m h of Some (rq, _) \<Rightarrow> zepto_write_block m h (t # rq) | None \<Rightarrow> None)"

definition take_tag :: "nat \<Rightarrow> mem \<Rightarrow> mem option" where
  "take_tag h m = (case messages m h of Some (rq, _) \<Rightarrow> zepto_write_block m h (tl rq) | None \<Rightarrow> None)"

lemma tag_result:
  assumes "message_at h m (p, []) n k" "int (length p) + 1 \<le> n"
  shows "\<exists>m'. put_tag t h m = Some m' \<and> layer_result h m' p (t # p) n 1 k" "\<exists>m'. take_tag h m = Some m' \<and> layer_result h m' p (tl p) n 1 k"
proof -
  have r: "has_room m (messages m) n k" "messages m h = Some (p, [])" using assms(1) by (simp_all add: message_at_def)
  have block: "\<exists>m'. zepto_write_block m h q = Some m' \<and> layer_result h m' p q n 1 k" if "int (length q) \<le> int (length p) + 1" for q
  proof -
    have blk: "as_blocks h (\<lambda>m. zepto_write_block m h q) [q]" by (simp add: as_blocks_def split: Option.bind_split)
    have fit: "int (length (concat [q])) \<le> n" using that assms(2) by simp
    obtain m' where m': "zepto_write_block m h q = Some m'" "has_room m' ((messages m)(h \<mapsto> (p, [] @ concat [q]))) (n - int (length (concat [q]))) k"
      by (rule room_write [OF r blk fit])
    then have "message_at h m' (p, q) (n - int (length p) - 1) k"
      using that assms(2) by (auto simp: message_at_def has_room_def)
    then show ?thesis using m'(1) that by (simp add: layer_result_def)
  qed
  show "\<exists>m'. put_tag t h m = Some m' \<and> layer_result h m' p (t # p) n 1 k" "\<exists>m'. take_tag h m = Some m' \<and> layer_result h m' p (tl p) n 1 k"
    using block [of "t # p"] block [of "tl p"] r(2) by (simp_all add: put_tag_def take_tag_def)
qed

definition tag_lib :: "(nat, bool) main_lib" where
  "tag_lib = server_lib\<lparr>
     handler_sagdp_receive_hlp := (\<lambda>nc h a lsm la w. if nc = None then Some (SAGDP_RET_NEED_NONCE, w)
       else do { m \<leftarrow> put_tag 1 h (gdp_heap w); Some (SAGDP_RET_TO_LOWER_NEW, w\<lparr>gdp_heap := m\<rparr>) }),
     handler_sasp_get_packet_id := (\<lambda>x dv st. Some (SASP_RET_NONCE, [9], x, st)),
     handler_sasp_send := (\<lambda>key nc h x st. do { m \<leftarrow> put_tag 2 h (heap (snd st));
       Some (SASP_RET_TO_LOWER_REGULAR, x, fst st, (snd st)\<lparr>heap := m\<rparr>) }),
     handler_saoudp_send := (\<lambda>h a m. do { m \<leftarrow> put_tag 3 h m; Some (SAOUDP_RET_OK, m) }),
     handler_siot_mesh_send_packet := (\<lambda>ctr dv h r b w. do { m \<leftarrow> put_tag 4 h (mw_heap w);
       Some (SIOT_MESH_RET_PASS_TO_SEND, 5, w\<lparr>mw_heap := m\<rparr>) }),
     handler_siot_mesh_receive_packet := (\<lambda>h ack u v x y w. do { m \<leftarrow> take_tag h (mw_heap w);
       Some (SIOT_MESH_RET_PASS_TO_PROCESS, 7, v, w\<lparr>mw_heap := m\<rparr>) }),
     handler_saoudp_receive := (\<lambda>h a m. do { m \<leftarrow> take_tag h m; Some (SAOUDP_RET_OK, m) }),
     handler_sasp_receive := (\<lambda>key i h x dv st. do { m \<leftarrow> take_tag h (heap (snd st));
       Some (SASP_RET_TO_HIGHER_NEW, [9], x, fst st, (snd st)\<lparr>heap := m\<rparr>) }),
     handler_sagdp_is_up_packet_ctr := (\<lambda>h m. Some False),
     handler_sagdp_receive_up := (\<lambda>pkt nc h a lsm la w. do { m \<leftarrow> take_tag h (gdp_heap w); Some (SAGDP_RET_TO_HIGHER, w\<lparr>gdp_heap := m\<rparr>) })\<rparr>"

lemma tag_lib_sends:
  "gdp_sends tag_lib 1 (\<lambda>nc p. 1 # p)" "gives_ids tag_lib" "sasp_sends tag_lib 1 (\<lambda>key nc p. 2 # p)"
  "udp_sends tag_lib 1 (\<lambda>p. 3 # p)" "mesh_sends tag_lib 1 (\<lambda>dv p. 4 # p) (\<lambda>dv. 5)"
proof -
  show "gdp_sends tag_lib 1 (\<lambda>nc p. 1 # p)"
    using tag_result(1) [of _ _ _ _ _ 1] by (fastforce simp: gdp_sends_def tag_lib_def)
  show "gives_ids tag_lib" by (auto simp: gives_ids_def tag_lib_def)
  show "sasp_sends tag_lib 1 (\<lambda>key nc p. 2 # p)"
    using tag_result(1) [of _ _ _ _ _ 2] by (fastforce simp: sasp_sends_def tag_lib_def)
  show "udp_sends tag_lib 1 (\<lambda>p. 3 # p)"
    using tag_result(1) [of _ _ _ _ _ 3] by (fastforce simp: udp_sends_def tag_lib_def)
  show "mesh_sends tag_lib 1 (\<lambda>dv p. 4 # p) (\<lambda>dv. 5)"
    using tag_result(1) [of _ _ _ _ _ 4] by (fastforce simp: mesh_sends_def tag_lib_def)
qed

lemma tag_lib_receives:
  "mesh_receives tag_lib 1 v p 7 (tl p)" "udp_receives tag_lib 1 p (tl p)" "sasp_receives tag_lib 1 key dv p [9] (tl p)"
  "gdp_receives tag_lib 1 pkt p (tl p)"
proof -
  show "mesh_receives tag_lib 1 v p 7 (tl p)"
    using tag_result(2) [of _ _ p] by (fastforce simp: mesh_receives_def tag_lib_def)
  show "udp_receives tag_lib 1 p (tl p)"
    using tag_result(2) [of _ _ p] by (fastforce simp: udp_receives_def tag_lib_def)
  show "sasp_receives tag_lib 1 key dv p [9] (tl p)"
    using tag_result(2) [of _ _ p] by (fastforce simp: sasp_receives_def tag_lib_def)
  show "gdp_receives tag_lib 1 pkt p (tl p)"
    using tag_result(2) [of _ _ p] by (fastforce simp: gdp_receives_def tag_lib_def)
qed

text \<open>A server with the device 7 that waits for a packet.\<close>

definition server_seven :: "u8 list \<Rightarrow> (nat, bool) main_state" where
  "server_seven bs = (waiting_server bs)\<lparr>srv := (srv (waiting_server bs))\<lparr>all_devices := [empty_context\<lparr>dc_device_id := 7\<rparr>]\<rparr>,
     clock := [\<lparr>low_t = 1, high_t = 0\<rparr>]\<rparr>"

lemma server_seven:
  "has_device (server_seven bs) 7 []" "clock (server_seven bs) \<noteq> []" "415 \<le> free_space (main_heap (server_seven bs))"
  "bs = frame v kind p \<Longrightarrow> length p \<le> 80 \<Longrightarrow> p \<noteq> [] \<Longrightarrow> request_comes tag_lib (server_seven bs) kind v p []"
  using waiting_request [of p v kind] waiting_server(6) [of bs] acquired_messages(3)
  by (simp_all add: has_device_def server_seven_def empty_context_def request_comes_def tag_lib_def)

lemma hand_over_bus:
  assumes "hand_over h s = Some (set_heap m s)"
  shows "hand_over h (s\<lparr>bus_id := v\<rparr>) = Some ((set_heap m s)\<lparr>bus_id := v\<rparr>)"
proof -
  obtain m' where m': "zepto_response_to_request (main_heap s) h = Some m'" "set_heap m' s = set_heap m s"
    using assms by (auto simp: hand_over_def split: bind_splits)
  then have "m' = m" by (metis set_heap_simps(1))
  then show ?thesis using m'(1) by (simp add: hand_over_def set_heap_def)
qed

section \<open>Down\<close>



section \<open>Up\<close>



end
