(* ===== verification/Time_Master_Link.thy ===== *)
theory Time_Master_Link
  imports Framing Connection_Setup Time_Val
begin

text \<open>
  The connection to the time master (\<open>commstack_commlayer_to_time_master.c\<close>, build with
  \<open>USE_TIME_MASTER\<close>): debug packets behind a size of two bytes. The buffers of this build are local
  arrays and not messages of the memory manager.
\<close>

section \<open>Local arrays\<close>

text \<open>A byte that has not been written cannot be read, and no access may leave the array.\<close>

type_synonym local_array = "u8 option list"

definition new_array :: "nat \<Rightarrow> local_array" where
  "new_array n = replicate n None"

definition store_at :: "local_array \<Rightarrow> nat \<Rightarrow> u8 list \<Rightarrow> local_array option" where
  "store_at a p bs =
     (if p + length bs \<le> length a then Some (take p a @ map Some bs @ drop (p + length bs) a) else None)"

definition load_at :: "local_array \<Rightarrow> nat \<Rightarrow> nat \<Rightarrow> u8 list option" where
  "load_at a p n = (if p + n \<le> length a then those (take n (drop p a)) else None)"

definition byte_at :: "local_array \<Rightarrow> nat \<Rightarrow> u8 option" where
  "byte_at a i = (if i < length a then a ! i else None)"

lemma length_new_array [simp]: "length (new_array n) = n"
  by (simp add: new_array_def)

lemma those_Some [simp]: "those (map Some bs) = Some bs"
  by (induction bs) simp_all

lemma those_map: "those xs = Some ys \<longleftrightarrow> xs = map Some ys"
proof (induction xs arbitrary: ys)
  case (Cons x xs)
  then show ?case by (cases x; cases ys) auto
qed auto

lemma load_stored [simp]: "load_at (map Some bs @ a) 0 (length bs) = Some bs"
  by (simp add: load_at_def)

lemma load_later: "p = length bs \<Longrightarrow> n = length cs \<Longrightarrow> load_at (map Some bs @ map Some cs @ a) p n = Some cs"
  by (simp add: load_at_def)

lemma store_first: "length bs \<le> length a \<Longrightarrow> store_at a 0 bs = Some (map Some bs @ drop (length bs) a)"
  by (simp add: store_at_def)

lemma store_next:
  "p = length bs \<Longrightarrow> length cs \<le> length a \<Longrightarrow>
    store_at (map Some bs @ a) p cs = Some (map Some (bs @ cs) @ drop (length cs) a)"
  by (simp add: store_at_def)

lemma byte_stored: "i < length bs \<Longrightarrow> byte_at (map Some bs @ a) i = Some (bs ! i)"
  by (simp add: byte_at_def nth_append)

section \<open>Setting up the connection\<close>

record time_master_results =
  time_master_socket_result :: int
  connect_result :: int

record debug_sockets =
  comm_layer_sockets :: sockets
  sock_with_time_master :: int

definition close_time_master :: "debug_sockets \<Rightarrow> debug_sockets" where
  "close_time_master s = s\<lparr>comm_layer_sockets := CLOSE_SOCKET (sock_with_time_master s) (comm_layer_sockets s)\<rparr>"

definition communication_preinitialize_with_time_master :: "debug_sockets \<Rightarrow> bool \<times> debug_sockets" where
  "communication_preinitialize_with_time_master s = (True, s)"

text \<open>In the code its name starts with an underscore, as that of the termination does.\<close>

definition connect_with_time_master :: "time_master_results \<Rightarrow> debug_sockets \<Rightarrow> bool \<times> debug_sockets" where
  "connect_with_time_master r s = (
     let s = s\<lparr>sock_with_time_master := time_master_socket_result r\<rparr> in
     if sock_with_time_master s = -1 then (False, s)
     else
       let c = comm_layer_sockets s;
           s = s\<lparr>comm_layer_sockets := c\<lparr>open_sockets := sock_with_time_master s # open_sockets c\<rparr>\<rparr> in
       if connect_result r = -1 then (False, close_time_master s)
       else (True, s))"

definition communication_initialize_with_time_master :: "time_master_results \<Rightarrow> debug_sockets \<Rightarrow> bool \<times> debug_sockets" where
  "communication_initialize_with_time_master r s = (case communication_preinitialize_with_time_master s of
     (ok, s) \<Rightarrow> if ok then connect_with_time_master r s else (False, s))"

definition communication_terminate_with_time_master :: "debug_sockets \<Rightarrow> debug_sockets" where
  "communication_terminate_with_time_master s = close_time_master s"

text \<open>
  A connection that is set up and closed again leaves the descriptors as they were, and so does
  one that cannot be set up.
\<close>

lemma time_master_descriptors:
  assumes "time_master_socket_result r \<notin> set (open_sockets (comm_layer_sockets s))"
  shows "case communication_initialize_with_time_master r s of
      (False, s') \<Rightarrow> comm_layer_sockets s' = comm_layer_sockets s
    | (True, s') \<Rightarrow> comm_layer_sockets (communication_terminate_with_time_master s') = comm_layer_sockets s"
  using assms
  by (auto simp: communication_initialize_with_time_master_def communication_preinitialize_with_time_master_def Let_def
      connect_with_time_master_def communication_terminate_with_time_master_def close_time_master_def CLOSE_SOCKET_def
      split: if_splits bool.splits)

section \<open>Sending\<close>

definition HAL_GET_PACKET_BYTES_FAILED :: u8 where "HAL_GET_PACKET_BYTES_FAILED = 1"
definition HAL_GET_PACKET_BYTES_DONE :: u8 where "HAL_GET_PACKET_BYTES_DONE = 2"

record debug_link =
  from_time_master :: "socket_event list"
  buffer_in_pos_time_master :: int
  time_master_send_results :: "int list"
  to_time_master :: "u8 list list"

text \<open>\<open>sendto\<close>, with the conventions of \<open>Commlayer\<close>.\<close>

definition sendto_time_master :: "debug_link \<Rightarrow> u8 list \<Rightarrow> int \<times> debug_link" where
  "sendto_time_master l buf = (case time_master_send_results l of
     [] \<Rightarrow> (int (length buf), l\<lparr>to_time_master := to_time_master l @ [buf]\<rparr>)
   | r # rs \<Rightarrow> (r, l\<lparr>time_master_send_results := rs,
       to_time_master := (if r < 0 then to_time_master l else to_time_master l @ [take (nat r) buf])\<rparr>))"

definition internal_send_debug_packet :: "debug_link \<Rightarrow> local_array \<Rightarrow> u16 \<Rightarrow> (u8 \<times> debug_link) option" where
  "internal_send_debug_packet l data_buff data_sz = do {
     let base_buff = [ucast data_sz, ucast (drop_bit 8 data_sz)];
     let (bytes_sent, l) = sendto_time_master l base_buff;
     if bytes_sent < 0 then Some (COMMLAYER_RET_FAILED, l)
     else do {
       bs \<leftarrow> load_at data_buff 0 (unat data_sz);
       let (bytes_sent, l) = sendto_time_master l bs;
       if bytes_sent < 0 then Some (COMMLAYER_RET_FAILED, l) else Some (COMMLAYER_RET_OK, l)
     }
   }"

definition send_debug_packet :: "debug_link \<Rightarrow> local_array \<Rightarrow> u16 \<Rightarrow> (u8 \<times> debug_link) option" where
  "send_debug_packet l data_buff data_sz = internal_send_debug_packet l data_buff data_sz"

section \<open>Receiving\<close>

definition try_get_packet_from_time_master ::
  "u16 \<Rightarrow> debug_link \<times> local_array \<Rightarrow> (u8 \<times> debug_link \<times> local_array) option" where
  "try_get_packet_from_time_master sz s = do {
     let (l, buff) = s;
     (r, es) \<leftarrow> recvfrom (nat (uint sz - buffer_in_pos_time_master l)) (from_time_master l);
     let l = l\<lparr>from_time_master := es\<rparr>;
     case r of
       Again \<Rightarrow> Some (COMMLAYER_RET_PENDING, l, buff)
     | Failure \<Rightarrow> Some (COMMLAYER_RET_FAILED, l, buff)
     | Bytes bs \<Rightarrow> do {
         buff \<leftarrow> store_at buff (nat (buffer_in_pos_time_master l)) bs;
         let l = l\<lparr>buffer_in_pos_time_master := to_u16 (buffer_in_pos_time_master l + int (length bs))\<rparr>;
         if buffer_in_pos_time_master l < uint sz then Some (COMMLAYER_RET_PENDING, l, buff)
         else Some (COMMLAYER_RET_OK, l, buff)
       }
   }"

definition try_get_packet_size_from_time_master ::
  "debug_link \<times> local_array \<Rightarrow> (u8 \<times> debug_link \<times> local_array) option" where
  "try_get_packet_size_from_time_master s = do {
     let (l, buff) = s;
     (r, es) \<leftarrow> recvfrom (nat (2 - buffer_in_pos_time_master l)) (from_time_master l);
     let l = l\<lparr>from_time_master := es\<rparr>;
     case r of
       Again \<Rightarrow> Some (COMMLAYER_RET_PENDING, l, buff)
     | Failure \<Rightarrow> Some (COMMLAYER_RET_FAILED, l, buff)
     | Bytes bs \<Rightarrow> do {
         buff \<leftarrow> store_at buff (nat (buffer_in_pos_time_master l)) bs;
         let l = l\<lparr>buffer_in_pos_time_master := to_u16 (buffer_in_pos_time_master l + int (length bs))\<rparr>;
         if buffer_in_pos_time_master l < 2 then Some (COMMLAYER_RET_PENDING, l, buff)
         else Some (COMMLAYER_RET_OK, l, buff)
       }
   }"

text \<open>
  Both loops wait without a pause. The size is written only when a packet has come: \<open>None\<close> stands
  for the unchanged variable.
\<close>

definition internal_get_debug_packet ::
  "debug_link \<Rightarrow> local_array \<Rightarrow> u16 \<Rightarrow> (u8 \<times> u16 option \<times> local_array \<times> debug_link) option" where
  "internal_get_debug_packet l buff packet_sz_max = do {
     let l = l\<lparr>buffer_in_pos_time_master := 0\<rparr>;
     (ret, l, buff_base) \<leftarrow> pending_loop try_get_packet_size_from_time_master (l, new_array 2);
     if ret \<noteq> COMMLAYER_RET_OK then Some (HAL_GET_PACKET_BYTES_FAILED, None, buff, l)
     else do {
       b1 \<leftarrow> byte_at buff_base 1;
       b0 \<leftarrow> byte_at buff_base 0;
       let sz = (push_bit 8 (ucast b1) + ucast b0 :: u16);
       assert (sz \<le> packet_sz_max);
       assert (5 \<le> sz);
       let l = l\<lparr>buffer_in_pos_time_master := 0\<rparr>;
       (ret, l, buff) \<leftarrow> pending_loop (try_get_packet_from_time_master sz) (l, buff);
       if ret \<noteq> COMMLAYER_RET_OK then Some (HAL_GET_PACKET_BYTES_FAILED, None, buff, l)
       else Some (if ret = COMMLAYER_RET_OK then HAL_GET_PACKET_BYTES_DONE else HAL_GET_PACKET_BYTES_FAILED,
         Some sz, buff, l)
     }
   }"

definition get_debug_packet ::
  "debug_link \<Rightarrow> local_array \<Rightarrow> u16 \<Rightarrow> (u8 \<times> u16 option \<times> local_array \<times> debug_link) option" where
  "get_debug_packet l buff packet_sz_max = internal_get_debug_packet l buff packet_sz_max"

section \<open>The loops\<close>

lemma uint_2 [simp]: "uint (2 :: u16) = 2"
  by code_simp

lemma size_loop: "try_get_packet_size_from_time_master = try_get_packet_from_time_master 2"
  by (intro ext) (simp only: try_get_packet_size_from_time_master_def try_get_packet_from_time_master_def uint_2)

text \<open>What a step of a loop preserves holds at its end, in whatever way the bytes arrive.\<close>

lemma pending_loop_invariant:
  assumes "pending_loop body s = Some y" "P s" "\<And>s r s'. P s \<Longrightarrow> body s = Some (r, s') \<Longrightarrow> Q r s' \<and> (r = COMMLAYER_RET_PENDING \<longrightarrow> P s')"
  shows "Q (fst y) (snd y) \<and> fst y \<noteq> COMMLAYER_RET_PENDING"
proof -
  have "f = body \<longrightarrow> P s \<longrightarrow> Q (fst y) (snd y) \<and> fst y \<noteq> COMMLAYER_RET_PENDING" if "pending_loop f s = Some y" for f s y
  proof (rule pending_loop.raw_induct [where P = "\<lambda>f s y. f = body \<longrightarrow> P s \<longrightarrow> Q (fst y) (snd y) \<and> fst y \<noteq> COMMLAYER_RET_PENDING", OF _ that])
    fix pl f s y
    assume IH: "\<And>f s y. pl f s = Some y \<Longrightarrow> f = body \<longrightarrow> P s \<longrightarrow> Q (fst y) (snd y) \<and> fst y \<noteq> COMMLAYER_RET_PENDING"
      and run: "do { (ret, s) \<leftarrow> f s; if ret = COMMLAYER_RET_PENDING then pl f s else Some (ret, s) } = Some y"
    show "f = body \<longrightarrow> P s \<longrightarrow> Q (fst y) (snd y) \<and> fst y \<noteq> COMMLAYER_RET_PENDING"
    proof (intro impI)
      assume f: "f = body" and "P s"
      from run obtain r s' where b: "body s = Some (r, s')" and rest: "(if r = COMMLAYER_RET_PENDING then pl f s' else Some (r, s')) = Some y"
        by (auto simp: f bind_eq_Some_conv)
      from assms(3) [OF \<open>P s\<close> b] IH [of f s' y] rest f show "Q (fst y) (snd y) \<and> fst y \<noteq> COMMLAYER_RET_PENDING"
        by (auto split: if_splits)
    qed
  qed
  with assms(1,2) show ?thesis by blast
qed

text \<open>In the middle of a packet of \<open>n\<close> bytes: those in \<open>got\<close> are in the array.\<close>

definition link_at :: "debug_link \<Rightarrow> local_array \<Rightarrow> u8 list \<Rightarrow> debug_link \<times> local_array \<Rightarrow> bool" where
  "link_at l a got s \<longleftrightarrow> snd s = map Some got @ drop (length got) a \<and> length got \<le> length a \<and>
     (\<exists>es. fst s = l\<lparr>from_time_master := es, buffer_in_pos_time_master := int (length got)\<rparr> \<and>
       stream_of (from_time_master l) = got @ stream_of es \<and> (quiet (from_time_master l) \<longrightarrow> quiet es))"

lemma link_at_start: "link_at l a [] (l\<lparr>buffer_in_pos_time_master := 0\<rparr>, a)"
  unfolding link_at_def by (auto intro!: exI [of _ "from_time_master l"])

lemma link_step:
  assumes "link_at l a got s" "length got < n" "uint sz = int n" "try_get_packet_from_time_master sz s = Some (r, s')"
  shows "(r = COMMLAYER_RET_FAILED \<and> \<not> quiet (from_time_master l) \<or> (\<exists>got'. link_at l a got' s' \<and> length got' \<le> n \<and>
      (r = COMMLAYER_RET_PENDING \<and> length got' < n \<or> r = COMMLAYER_RET_OK \<and> length got' = n)))
    \<and> to_time_master (fst s') = to_time_master l"
proof -
  from assms(1) obtain es where s: "s = (l\<lparr>from_time_master := es, buffer_in_pos_time_master := int (length got)\<rparr>, map Some got @ drop (length got) a)"
    and es: "stream_of (from_time_master l) = got @ stream_of es" "quiet (from_time_master l) \<longrightarrow> quiet es"
    and len: "length got \<le> length a" by (cases s) (auto simp: link_at_def)
  have n: "nat (int n - int (length got)) = n - length got" "n < 65536"
    using u16_range [of sz] assms(3) by simp_all
  show ?thesis
  proof (cases es)
    case Nil
    then show ?thesis using assms(4) by (simp add: s try_get_packet_from_time_master_def)
  next
    case (Cons e fs)
    show ?thesis
    proof (cases e)
      case (Arrived bs)
      let ?new = "take (n - length got) bs"
      let ?es = "if drop (n - length got) bs = [] then fs else Arrived (drop (n - length got) bs) # fs"
      let ?l = "l\<lparr>from_time_master := ?es, buffer_in_pos_time_master := int (length (got @ ?new))\<rparr>"
      have step: "try_get_packet_from_time_master sz s = do {
          buff \<leftarrow> store_at (map Some got @ drop (length got) a) (length got) ?new;
          Some (if length (got @ ?new) < n then COMMLAYER_RET_PENDING else COMMLAYER_RET_OK, ?l, buff) }"
        using n assms(2,3) by (cases "store_at (map Some got @ drop (length got) a) (length got) ?new")
          (auto simp: s Cons Arrived try_get_packet_from_time_master_def Let_def simp flip: of_nat_add)
      from assms(4) [unfolded step bind_eq_Some_conv] obtain buff where st: "store_at (map Some got @ drop (length got) a) (length got) ?new = Some buff"
        and res: "s' = (?l, buff)" "r = (if length (got @ ?new) < n then COMMLAYER_RET_PENDING else COMMLAYER_RET_OK)"
        by blast
      have fits: "length got + length ?new \<le> length a" "buff = map Some (got @ ?new) @ drop (length (got @ ?new)) a"
        using st len by (auto simp: store_at_def add.commute split: if_splits)
      have "link_at l a (got @ ?new) s'"
        using fits es Cons Arrived unfolding link_at_def res(1) by (auto intro!: exI [of _ ?es])
      moreover have "length (got @ ?new) \<le> n" using assms(2) by simp
      ultimately show ?thesis using res by (auto intro!: exI [of _ "got @ ?new"])
    next
      case Would_block
      have s': "s' = (l\<lparr>from_time_master := fs, buffer_in_pos_time_master := int (length got)\<rparr>, map Some got @ drop (length got) a)"
        "r = COMMLAYER_RET_PENDING" using assms(4) Cons Would_block by (auto simp: s try_get_packet_from_time_master_def)
      have "link_at l a got s'" using es len Cons Would_block unfolding link_at_def s'(1) by (auto intro!: exI [of _ fs])
      then show ?thesis using s' assms(2) by auto
    next
      case Socket_error
      then have "\<not> quiet (from_time_master l)" using es(2) Cons by auto
      then show ?thesis using assms(4) Cons Socket_error by (auto simp: s try_get_packet_from_time_master_def)
    next
      case Closed
      then have s': "s' = s" "r = COMMLAYER_RET_PENDING"
        using assms(2-4) Cons len n by (auto simp: s try_get_packet_from_time_master_def store_at_def)
      then show ?thesis using assms(1,2) by (auto simp: s)
    qed
  qed
qed

text \<open>When the loop ends with success, the packet is in the array and its bytes are gone from the stream.\<close>

lemma link_loop_result:
  assumes "pending_loop (try_get_packet_from_time_master sz) (l\<lparr>buffer_in_pos_time_master := 0\<rparr>, a) = Some (r, l', a')"
    "uint sz = int n" "0 < n"
  shows "to_time_master l' = to_time_master l \<and> (r = COMMLAYER_RET_OK \<longrightarrow> (\<exists>p. length p = n \<and> link_at l a p (l', a'))) \<and>
    (quiet (from_time_master l) \<longrightarrow> r = COMMLAYER_RET_OK)"
proof -
  let ?Q = "\<lambda>r s'. to_time_master (fst s') = to_time_master l \<and> (r = COMMLAYER_RET_OK \<longrightarrow> (\<exists>p. length p = n \<and> link_at l a p s')) \<and>
      (r \<noteq> COMMLAYER_RET_PENDING \<longrightarrow> quiet (from_time_master l) \<longrightarrow> r = COMMLAYER_RET_OK)"
    and ?P = "\<lambda>s. \<exists>got. link_at l a got s \<and> length got < n"
  have start: "?P (l\<lparr>buffer_in_pos_time_master := 0\<rparr>, a)" using link_at_start assms(3) by (intro exI [of _ "[]"]) simp
  have step: "?Q r s' \<and> (r = COMMLAYER_RET_PENDING \<longrightarrow> ?P s')" if "?P s" "try_get_packet_from_time_master sz s = Some (r, s')" for s r s'
  proof -
    from that(1) obtain got where got: "link_at l a got s" "length got < n" by blast
    from link_step [OF this assms(2) that(2)] show ?thesis by (auto simp: ret_defs)
  qed
  from pending_loop_invariant [where P = ?P and Q = ?Q, OF assms(1) start step] show ?thesis by simp
qed

text \<open>If the bytes are on their way and the array has room for them, the loop ends.\<close>

lemma link_loop_ends:
  assumes "quiet (from_time_master l)" "link_at l a got s" "length got < n" "uint sz = int n" "n \<le> length a"
    "n \<le> length (stream_of (from_time_master l))"
  shows "pending_loop (try_get_packet_from_time_master sz) s \<noteq> None"
  using assms(2,3)
proof (induction "event_size (from_time_master (fst s))" arbitrary: s got rule: less_induct)
  case less
  from less.prems(1) obtain es where s: "s = (l\<lparr>from_time_master := es, buffer_in_pos_time_master := int (length got)\<rparr>, map Some got @ drop (length got) a)"
    and es: "stream_of (from_time_master l) = got @ stream_of es" "quiet es"
    and len: "length got \<le> length a" using assms(1) by (cases s) (auto simp: link_at_def)
  have n: "nat (int n - int (length got)) = n - length got" "n < 65536"
    using u16_range [of sz] assms(4) by simp_all
  have "\<exists>r s'. try_get_packet_from_time_master sz s = Some (r, s') \<and>
      (r = COMMLAYER_RET_PENDING \<longrightarrow> event_size (from_time_master (fst s')) < event_size es)"
  proof (cases es)
    case Nil
    then show ?thesis using es assms(6) less.prems(2) by simp
  next
    case (Cons e fs)
    show ?thesis
    proof (cases e)
      case (Arrived bs)
      let ?new = "take (n - length got) bs"
      have "length got + length ?new \<le> length a" using assms(5) less.prems(2) by simp
      then have "store_at (map Some got @ drop (length got) a) (length got) ?new \<noteq> None" using len by (simp add: store_at_def)
      then obtain b where st: "store_at (map Some got @ drop (length got) a) (length got) ?new = Some b" by blast
      have size: "event_size (if drop (n - length got) bs = [] then fs else Arrived (drop (n - length got) bs) # fs) < event_size es"
        if "length got + length ?new < n"
        using that Cons Arrived by (auto simp: min_def split: if_splits)
      show ?thesis using st n less.prems(2) assms(4) size
        by (auto simp: s Cons Arrived try_get_packet_from_time_master_def Let_def ret_defs split: if_splits)
    next
      case Would_block
      then show ?thesis using Cons by (simp add: s try_get_packet_from_time_master_def)
    qed (use es Cons in auto)
  qed
  then obtain r s' where step: "try_get_packet_from_time_master sz s = Some (r, s')"
    and smaller: "r = COMMLAYER_RET_PENDING \<longrightarrow> event_size (from_time_master (fst s')) < event_size (from_time_master (fst s))" by (auto simp: s)
  show ?case
  proof (cases "r = COMMLAYER_RET_PENDING")
    case True
    with link_step [OF less.prems assms(4) step] obtain got' where "link_at l a got' s'" "length got' < n" by (auto simp: ret_defs)
    from less.hyps [OF _ this] smaller True show ?thesis by (subst pending_loop.simps) (simp add: step)
  next
    case False
    then show ?thesis by (subst pending_loop.simps) (simp add: step)
  qed
qed

section \<open>Packets\<close>

definition debug_frame :: "u8 list \<Rightarrow> u8 list" where
  "debug_frame p = (let sz = u16_of (int (length p)) in [ucast sz, ucast (drop_bit 8 sz)] @ p)"

lemma length_debug_frame [simp]: "length (debug_frame p) = length p + 2"
  by (simp add: debug_frame_def Let_def)

lemma uint_u16_length: "length p < 65536 \<Longrightarrow> uint (u16_of (int (length p))) = int (length p)"
  by simp

lemma unat_u16_length: "length p < 65536 \<Longrightarrow> unat (u16_of (int (length p))) = length p"
  using uint_u16_length [of p] by (metis nat_int unat_eq_nat_uint)

text \<open>What has been read when both loops have ended.\<close>

definition packet_read :: "debug_link \<Rightarrow> local_array \<Rightarrow> u16 \<Rightarrow> u8 list \<Rightarrow> local_array \<Rightarrow> debug_link \<Rightarrow> bool" where
  "packet_read l a limit p a' l' \<longleftrightarrow> 5 \<le> length p \<and> length p \<le> unat limit \<and> length p \<le> length a \<and> a' = map Some p @ drop (length p) a \<and>
     stream_of (from_time_master l) = debug_frame p @ stream_of (from_time_master l') \<and>
     (quiet (from_time_master l) \<longrightarrow> quiet (from_time_master l')) \<and>
     l' = l\<lparr>from_time_master := from_time_master l', buffer_in_pos_time_master := int (length p)\<rparr>"

lemma u16_of_bytes: "u = push_bit 8 (ucast (b1 :: u8)) + ucast (b0 :: u8) \<Longrightarrow> b0 = ucast (u :: u16) \<and> b1 = ucast (drop_bit 8 u)"
proof -
  assume "u = push_bit 8 (ucast b1) + ucast b0"
  also have "\<dots> = push_bit 8 (ucast b1) OR ucast b0"
    by (rule disjunctive_add) (auto simp: bit_simps dest: bit_imp_le_length)
  finally have "u = push_bit 8 (ucast b1) OR ucast b0" .
  moreover have "\<not> bit b0 (8 + n)" for n using bit_imp_le_length [of b0 "8 + n"] by auto
  ultimately show ?thesis by (auto intro!: bit_word_eqI simp: bit_simps dest: bit_imp_le_length)
qed

lemma two_bytes: "length xs = 2 \<Longrightarrow> xs = [xs ! 0, xs ! Suc 0]"
  by (cases xs; cases "tl xs") auto

text \<open>Whatever arrives, if a packet is returned, it is the next one on the stream.\<close>

lemma get_debug_packet_result:
  assumes "get_debug_packet l a limit = Some (HAL_GET_PACKET_BYTES_DONE, sz, a', l')"
  obtains p where "packet_read l a limit p a' l'" "sz = Some (u16_of (int (length p)))"
proof -
  let ?l = "l\<lparr>buffer_in_pos_time_master := 0\<rparr>"
  from assms obtain r0 l0 base where run0: "pending_loop (try_get_packet_from_time_master 2) (?l, new_array 2) = Some (r0, l0, base)"
    by (auto simp: get_debug_packet_def internal_get_debug_packet_def size_loop bind_eq_Some_conv)
  from assms run0 have ok0: "r0 = COMMLAYER_RET_OK"
    by (auto simp: get_debug_packet_def internal_get_debug_packet_def size_loop HAL_GET_PACKET_BYTES_DONE_def
        HAL_GET_PACKET_BYTES_FAILED_def split: if_splits)
  from link_loop_result [OF run0] ok0 obtain b where b: "length b = 2" "link_at l (new_array 2) b (l0, base)" by auto
  define v where "v = (push_bit 8 (ucast (b ! Suc 0)) + ucast (b ! 0) :: u16)"
  from b(2) obtain es0 where l0: "l0 = l\<lparr>from_time_master := es0, buffer_in_pos_time_master := 2\<rparr>"
    "stream_of (from_time_master l) = b @ stream_of es0" "quiet (from_time_master l) \<longrightarrow> quiet es0"
    and base: "base = map Some b" using b(1) by (auto simp: link_at_def)
  have at: "byte_at base (Suc 0) = Some (b ! Suc 0)" "byte_at base 0 = Some (b ! 0)" using b(1) by (simp_all add: base byte_at_def)
  let ?l0 = "l0\<lparr>buffer_in_pos_time_master := 0\<rparr>"
  from assms obtain r1 where run1: "pending_loop (try_get_packet_from_time_master v) (?l0, a) = Some (r1, l', a')"
    and v: "v \<le> limit" "5 \<le> v" and r1: "r1 = COMMLAYER_RET_OK" "sz = Some v"
    by (auto simp: get_debug_packet_def internal_get_debug_packet_def size_loop run0 ok0 at v_def [symmetric] bind_eq_Some_conv Let_def
        HAL_GET_PACKET_BYTES_DONE_def HAL_GET_PACKET_BYTES_FAILED_def split: if_splits)
  define n where "n = unat v"
  have n: "uint v = int n" "0 < n" "5 \<le> n" "n \<le> unat limit" using v by (auto simp: n_def word_le_nat_alt)
  from link_loop_result [OF run1 n(1,2)] r1(1) obtain p where p: "length p = n" "link_at l0 a p (l', a')" by auto
  have vn: "u16_of (int n) = v" by (simp add: n_def u16_of_def)
  have bb: "b = [ucast v, ucast (drop_bit 8 v)]" using u16_of_bytes [OF v_def] two_bytes [OF b(1)] by simp
  have "debug_frame p = b @ p" by (simp add: debug_frame_def p(1) vn bb)
  then have "packet_read l a limit p a' l'" using p n(3,4) l0 by (auto simp: link_at_def packet_read_def)
  then show thesis using that p(1) vn r1(2) by simp
qed

text \<open>A packet on its way is returned exactly if its size is admissible and the array holds it.\<close>

lemma get_debug_packet_exact:
  assumes "quiet (from_time_master l)" "stream_of (from_time_master l) = debug_frame p @ rest" "length p < 65536"
  shows "if 5 \<le> length p \<and> length p \<le> unat limit \<and> length p \<le> length a
    then \<exists>l'. get_debug_packet l a limit = Some (HAL_GET_PACKET_BYTES_DONE, Some (u16_of (int (length p))), map Some p @ drop (length p) a, l') \<and>
      packet_read l a limit p (map Some p @ drop (length p) a) l' \<and> stream_of (from_time_master l') = rest
    else get_debug_packet l a limit = None"
proof -
  let ?l = "l\<lparr>buffer_in_pos_time_master := 0\<rparr>" and ?sz = "u16_of (int (length p))"
  have start: "link_at l (new_array 2) [] (?l, new_array 2)" by (rule link_at_start)
  have "pending_loop (try_get_packet_from_time_master 2) (?l, new_array 2) \<noteq> None"
    by (rule link_loop_ends [OF assms(1) start, of 2]) (use assms(2) in simp_all)
  then obtain r0 l0 base where run0: "pending_loop (try_get_packet_from_time_master 2) (?l, new_array 2) = Some (r0, l0, base)" by auto
  from link_loop_result [OF run0, of 2] assms(1) obtain b where b: "r0 = COMMLAYER_RET_OK" "length b = 2" "link_at l (new_array 2) b (l0, base)" by auto
  from b(2,3) obtain es0 where l0: "l0 = l\<lparr>from_time_master := es0, buffer_in_pos_time_master := 2\<rparr>"
    "b @ stream_of es0 = debug_frame p @ rest" "quiet es0"
    and base: "base = map Some b" using assms(1,2) by (auto simp: link_at_def)
  have bp: "b = [ucast ?sz, ucast (drop_bit 8 ?sz)]" "stream_of es0 = p @ rest"
    using l0(2) b(2) by (auto simp: debug_frame_def Let_def dest: arg_cong [where f = "take 2"] arg_cong [where f = "drop 2"])
  have at: "byte_at base (Suc 0) = Some (ucast (drop_bit 8 ?sz))" "byte_at base 0 = Some (ucast ?sz)" by (simp_all add: base bp byte_at_def)
  have n: "uint ?sz = int (length p)" "unat ?sz = length p" using uint_u16_length unat_u16_length assms(3) by simp_all
  let ?l0 = "l0\<lparr>buffer_in_pos_time_master := 0\<rparr>"
  have get: "get_debug_packet l a limit = (if ?sz \<le> limit \<and> 5 \<le> ?sz then do {
      (ret, l, a) \<leftarrow> pending_loop (try_get_packet_from_time_master ?sz) (?l0, a);
      if ret \<noteq> COMMLAYER_RET_OK then Some (HAL_GET_PACKET_BYTES_FAILED, None, a, l)
      else Some (if ret = COMMLAYER_RET_OK then HAL_GET_PACKET_BYTES_DONE else HAL_GET_PACKET_BYTES_FAILED, Some ?sz, a, l) } else None)"
    by (simp add: get_debug_packet_def internal_get_debug_packet_def size_loop run0 b(1) at join_bytes_u16 assert_def Let_def cong: if_cong)
  have lim: "?sz \<le> limit \<longleftrightarrow> length p \<le> unat limit" "5 \<le> ?sz \<longleftrightarrow> 5 \<le> length p" using n(2) by (simp_all add: word_le_nat_alt)
  have q0: "quiet (from_time_master l0)" using l0 by simp
  show ?thesis
  proof (cases "5 \<le> length p \<and> length p \<le> unat limit")
    case False
    then show ?thesis by (auto simp: get lim)
  next
    case True
    then have pos: "0 < length p" by auto
    show ?thesis
    proof (cases "length p \<le> length a")
      case True
      have "pending_loop (try_get_packet_from_time_master ?sz) (?l0, a) \<noteq> None"
        by (rule link_loop_ends [OF q0 link_at_start _ n(1)]) (use True pos l0(1) bp(2) in simp_all)
      then obtain r1 l1 a1 where run1: "pending_loop (try_get_packet_from_time_master ?sz) (?l0, a) = Some (r1, l1, a1)" by auto
      from link_loop_result [OF run1 n(1) pos] q0 obtain p' where "r1 = COMMLAYER_RET_OK" "length p' = length p" "link_at l0 a p' (l1, a1)" by auto
      moreover from this have "p' = p" "stream_of (from_time_master l1) = rest" using bp(2) l0(1) by (auto simp: link_at_def)
      ultimately have "packet_read l a limit p a1 l1" "r1 = COMMLAYER_RET_OK" "stream_of (from_time_master l1) = rest"
        using \<open>5 \<le> length p \<and> length p \<le> unat limit\<close> assms(1,2) l0 by (auto simp: link_at_def packet_read_def)
      then show ?thesis using True \<open>5 \<le> length p \<and> length p \<le> unat limit\<close> run1 by (auto simp: get lim packet_read_def)
    next
      case False
      have "pending_loop (try_get_packet_from_time_master ?sz) (?l0, a) = None"
      proof (rule ccontr)
        assume "pending_loop (try_get_packet_from_time_master ?sz) (?l0, a) \<noteq> None"
        then obtain r1 l1 a1 where run1: "pending_loop (try_get_packet_from_time_master ?sz) (?l0, a) = Some (r1, l1, a1)" by auto
        from link_loop_result [OF run1 n(1) pos] q0 False show False by (auto simp: link_at_def)
      qed
      then show ?thesis using False \<open>5 \<le> length p \<and> length p \<le> unat limit\<close> by (simp add: get lim)
    qed
  qed
qed

text \<open>If everything is taken by the system, a packet is sent in two pieces.\<close>

lemma send_debug_packet_effect:
  assumes "time_master_send_results l = []" "load_at a 0 (unat sz) = Some p"
  shows "send_debug_packet l a sz = Some (COMMLAYER_RET_OK, l\<lparr>to_time_master := to_time_master l @ [[ucast sz, ucast (drop_bit 8 sz)], p]\<rparr>)"
  using assms by (simp add: send_debug_packet_def internal_send_debug_packet_def sendto_time_master_def)

end
