(* ===== verification/Event_Record.thy ===== *)
theory Event_Record
  imports Time_Master_Link Handle_Rules Sync_Request
begin

text \<open>
  Recording and replaying of events (\<open>debugging.c\<close>, build with \<open>USE_TIME_MASTER\<close>). With
  \<open>USE_TIME_MASTER_REGISTER\<close> the results of the calls of the system are reported to the time master as
  they happen, without it they are asked from it. The flag is the argument \<open>reg\<close> where both variants
  share code.
\<close>

section \<open>Debug packets\<close>

definition DEVICE_SELF_ID :: u16 where "DEVICE_SELF_ID = 0"
definition TIME_RECORD_REGISTER_OUTGOING_PACKET :: u8 where "TIME_RECORD_REGISTER_OUTGOING_PACKET = 1"
definition TIME_RECORD_REGISTER_TIME_VALUE :: u8 where "TIME_RECORD_REGISTER_TIME_VALUE = 3"
definition TIME_RECORD_REGISTER_WAIT_RET_VALUE :: u8 where "TIME_RECORD_REGISTER_WAIT_RET_VALUE = 4"
definition TIME_RECORD_REGISTER_INCOMING_PACKET_AT_COMM_STACK :: u8 where
  "TIME_RECORD_REGISTER_INCOMING_PACKET_AT_COMM_STACK = 6"
definition DEBUG_MAX_PACKET_SIZE :: nat where "DEBUG_MAX_PACKET_SIZE = 200"
definition OUTGOING_DEBUG_PACKET_HEADER_SIZE :: nat where "OUTGOING_DEBUG_PACKET_HEADER_SIZE = 5"
definition INCOMING_DEBUG_PACKET_HEADER_SIZE :: "bool \<Rightarrow> nat" where
  "INCOMING_DEBUG_PACKET_HEADER_SIZE reg = (if reg then 5 else 6)"
definition sizeof_sa_time_val :: nat where "sizeof_sa_time_val = 4"

lemmas debug_sizes = DEVICE_SELF_ID_def DEBUG_MAX_PACKET_SIZE_def OUTGOING_DEBUG_PACKET_HEADER_SIZE_def
  INCOMING_DEBUG_PACKET_HEADER_SIZE_def sizeof_sa_time_val_def
lemmas record_types = TIME_RECORD_REGISTER_OUTGOING_PACKET_def TIME_RECORD_REGISTER_TIME_VALUE_def
  TIME_RECORD_REGISTER_WAIT_RET_VALUE_def TIME_RECORD_REGISTER_INCOMING_PACKET_AT_COMM_STACK_def

text \<open>\<open>NULL\<close> is \<open>None\<close>.\<close>

definition form_debug_packet :: "local_array \<Rightarrow> u8 \<Rightarrow> local_array option \<Rightarrow> u16 \<Rightarrow> (u16 \<times> local_array) option" where
  "form_debug_packet buff type data_buff_1 data_sz_1 = do {
     let data_sz = data_sz_1;
     buff \<leftarrow> store_at buff 0
       [ucast DEVICE_SELF_ID, ucast (drop_bit 8 DEVICE_SELF_ID), type, ucast data_sz, ucast (drop_bit 8 data_sz)];
     buff \<leftarrow> (if data_sz_1 \<noteq> 0 then do {
         data_buff_1 \<leftarrow> data_buff_1;
         bs \<leftarrow> load_at data_buff_1 0 (unat data_sz_1);
         store_at buff 5 bs
       } else Some buff);
     Some (data_sz + of_nat OUTGOING_DEBUG_PACKET_HEADER_SIZE, buff)
   }"

text \<open>The size of the header and that of the data behind it.\<close>

definition preanalyze_debug_packet :: "bool \<Rightarrow> local_array \<Rightarrow> u16 \<Rightarrow> u8 \<Rightarrow> (nat \<times> u16) option" where
  "preanalyze_debug_packet reg buff buff_size expected_type = do {
     assert (INCOMING_DEBUG_PACKET_HEADER_SIZE reg \<le> unat buff_size);
     b1 \<leftarrow> byte_at buff 1;
     b0 \<leftarrow> byte_at buff 0;
     let dev_id = (push_bit 8 (ucast b1) OR ucast b0 :: u16);
     assert (dev_id = DEVICE_SELF_ID);
     b2 \<leftarrow> byte_at buff 2;
     assert (expected_type = b2);
     if reg then do {
       b4 \<leftarrow> byte_at buff 4;
       b3 \<leftarrow> byte_at buff 3;
       let packet_data_sz = (push_bit 8 (ucast b4) OR ucast b3 :: u16);
       assert (uint packet_data_sz = uint buff_size - 5);
       Some (INCOMING_DEBUG_PACKET_HEADER_SIZE reg, packet_data_sz)
     } else do {
       status \<leftarrow> byte_at buff 3;
       b5 \<leftarrow> byte_at buff 5;
       b4 \<leftarrow> byte_at buff 4;
       let packet_data_sz = (push_bit 8 (ucast b5) OR ucast b4 :: u16);
       assert (status \<noteq> 0);
       assert (uint packet_data_sz = uint buff_size - 6);
       Some (INCOMING_DEBUG_PACKET_HEADER_SIZE reg, packet_data_sz)
     }
   }"

text \<open>
  Every function below forms a packet in its buffer of \<open>n\<close> bytes, sends it, and takes the answer of
  the time master into the same buffer.
\<close>

definition debug_exchange ::
  "bool \<Rightarrow> debug_link \<Rightarrow> nat \<Rightarrow> u8 \<Rightarrow> local_array option \<Rightarrow> u16 \<Rightarrow> nat \<Rightarrow> (nat \<times> u16 \<times> local_array \<times> debug_link) option" where
  "debug_exchange reg l n type_out data data_sz max_sz = do {
     (debug_packet_sz, buff) \<leftarrow> form_debug_packet (new_array n) type_out data data_sz;
     (ret, l) \<leftarrow> send_debug_packet l buff debug_packet_sz;
     assert (ret = COMMLAYER_RET_OK);
     (ret, packet_data_sz, buff, l) \<leftarrow> get_debug_packet l buff (of_nat max_sz);
     assert (ret = HAL_GET_PACKET_BYTES_DONE);
     packet_data_sz \<leftarrow> packet_data_sz;
     (data_offset, packet_data_sz) \<leftarrow> preanalyze_debug_packet reg buff packet_data_sz type_out;
     Some (data_offset, packet_data_sz, buff, l)
   }"

section \<open>Recording\<close>

definition register_incoming_packet_at_comm_stack :: "mem \<Rightarrow> nat \<Rightarrow> u16 \<Rightarrow> u8 \<Rightarrow> debug_link \<Rightarrow> debug_link option" where
  "register_incoming_packet_at_comm_stack m mem_h bus_id ret_code l = do {
     packet_sz \<leftarrow> memory_object_get_response_size m mem_h;
     p \<leftarrow> memory_object_get_response_ptr m mem_h;
     packet \<leftarrow> mem_load BASE_MEM_BLOCK_SIZE (BASE_MEM_BLOCK m) p packet_sz;
     interm \<leftarrow> store_at (new_array (DEBUG_MAX_PACKET_SIZE + 3)) 0 [ret_code, ucast bus_id, ucast (drop_bit 8 bus_id)];
     interm \<leftarrow> store_at interm 3 packet;
     (off, packet_data_sz, buff, l) \<leftarrow> debug_exchange True l (OUTGOING_DEBUG_PACKET_HEADER_SIZE + DEBUG_MAX_PACKET_SIZE + 3)
       TIME_RECORD_REGISTER_INCOMING_PACKET_AT_COMM_STACK (Some interm) (u16_of (packet_sz + 3))
       (OUTGOING_DEBUG_PACKET_HEADER_SIZE + DEBUG_MAX_PACKET_SIZE);
     assert (packet_data_sz = 0);
     Some l
   }"

text \<open>The packet behind its addresses, as both variants send it.\<close>

definition outgoing_data :: "mem \<Rightarrow> nat \<Rightarrow> u16 \<Rightarrow> u16 \<Rightarrow> (local_array \<times> u16) option" where
  "outgoing_data m mem_h device_id bus_id = do {
     packet_sz \<leftarrow> memory_object_get_request_size m mem_h;
     p \<leftarrow> memory_object_get_request_ptr m mem_h;
     packet \<leftarrow> mem_load BASE_MEM_BLOCK_SIZE (BASE_MEM_BLOCK m) p packet_sz;
     interm \<leftarrow> store_at (new_array (DEBUG_MAX_PACKET_SIZE + 4)) 0
       [ucast device_id, ucast (drop_bit 8 device_id), ucast bus_id, ucast (drop_bit 8 bus_id)];
     interm \<leftarrow> store_at interm 4 packet;
     Some (interm, u16_of (packet_sz + 4))
   }"

definition register_outgoing_packet :: "mem \<Rightarrow> nat \<Rightarrow> u16 \<Rightarrow> u16 \<Rightarrow> debug_link \<Rightarrow> debug_link option" where
  "register_outgoing_packet m mem_h device_id bus_id l = do {
     (interm, sz) \<leftarrow> outgoing_data m mem_h device_id bus_id;
     (off, packet_data_sz, buff, l) \<leftarrow> debug_exchange True l (OUTGOING_DEBUG_PACKET_HEADER_SIZE + DEBUG_MAX_PACKET_SIZE + 4)
       TIME_RECORD_REGISTER_OUTGOING_PACKET (Some interm) sz (OUTGOING_DEBUG_PACKET_HEADER_SIZE + DEBUG_MAX_PACKET_SIZE);
     assert (packet_data_sz = 0);
     Some l
   }"

definition register_wait_request_ret_val :: "u8 \<Rightarrow> debug_link \<Rightarrow> debug_link option" where
  "register_wait_request_ret_val ret_val l = do {
     (data_offset, packet_data_sz, buff, l) \<leftarrow> debug_exchange True l (OUTGOING_DEBUG_PACKET_HEADER_SIZE + 1)
       TIME_RECORD_REGISTER_WAIT_RET_VALUE (Some [Some ret_val]) 1
       (OUTGOING_DEBUG_PACKET_HEADER_SIZE + DEBUG_MAX_PACKET_SIZE + 1);
     assert (packet_data_sz = 1);
     b \<leftarrow> byte_at buff data_offset;
     assert (b = ret_val);
     Some l
   }"

text \<open>A time value in a debug packet: four bytes behind the id of the point, low word first.\<close>

definition time_from_packet :: "local_array \<Rightarrow> nat \<Rightarrow> u8 \<Rightarrow> sa_time_val option" where
  "time_from_packet buff data_offset point_id = do {
     b0 \<leftarrow> byte_at buff data_offset;
     assert (b0 = point_id);
     b2 \<leftarrow> byte_at buff (data_offset + 2);
     b1 \<leftarrow> byte_at buff (data_offset + 1);
     b4 \<leftarrow> byte_at buff (data_offset + 4);
     b3 \<leftarrow> byte_at buff (data_offset + 3);
     Some \<lparr>low_t = push_bit 8 (ucast b2) OR ucast b1, high_t = push_bit 8 (ucast b4) OR ucast b3\<rparr>
   }"

definition time_to_packet :: "u8 \<Rightarrow> sa_time_val \<Rightarrow> u8 list" where
  "time_to_packet point_id t = [point_id, ucast (low_t t), ucast (drop_bit 8 (low_t t)), ucast (high_t t), ucast (drop_bit 8 (high_t t))]"

definition register_time_val :: "u8 \<Rightarrow> sa_time_val \<Rightarrow> debug_link \<Rightarrow> (sa_time_val \<times> debug_link) option" where
  "register_time_val point_id tin l = do {
     data_buff \<leftarrow> store_at (new_array (sizeof_sa_time_val + 1)) 0 (time_to_packet point_id tin);
     (data_offset, packet_data_sz, buff, l) \<leftarrow> debug_exchange True l (OUTGOING_DEBUG_PACKET_HEADER_SIZE + sizeof_sa_time_val + 1)
       TIME_RECORD_REGISTER_TIME_VALUE (Some data_buff) (of_nat (sizeof_sa_time_val + 1))
       (OUTGOING_DEBUG_PACKET_HEADER_SIZE + DEBUG_MAX_PACKET_SIZE + 1);
     assert (unat packet_data_sz = sizeof_sa_time_val + 1);
     out \<leftarrow> time_from_packet buff data_offset point_id;
     Some (out, l)
   }"

section \<open>Replaying\<close>

definition request_incoming_packet_at_comm_stack :: "mem \<Rightarrow> nat \<Rightarrow> debug_link \<Rightarrow> (u8 \<times> u16 \<times> mem \<times> debug_link) option" where
  "request_incoming_packet_at_comm_stack m mem_h l = do {
     (data_offset, packet_data_sz, buff, l) \<leftarrow> debug_exchange False l (INCOMING_DEBUG_PACKET_HEADER_SIZE False + DEBUG_MAX_PACKET_SIZE)
       TIME_RECORD_REGISTER_INCOMING_PACKET_AT_COMM_STACK None 0
       (OUTGOING_DEBUG_PACKET_HEADER_SIZE + DEBUG_MAX_PACKET_SIZE + 1);
     assert (0 < packet_data_sz);
     m \<leftarrow> zepto_parser_free_memory m mem_h;
     bs \<leftarrow> load_at buff (data_offset + 3) (unat (packet_data_sz - 3));
     m \<leftarrow> zepto_write_block m mem_h bs;
     b2 \<leftarrow> byte_at buff (data_offset + 2);
     b1 \<leftarrow> byte_at buff (data_offset + 1);
     b0 \<leftarrow> byte_at buff data_offset;
     Some (b0, push_bit 8 (ucast b2) + ucast b1, m, l)
   }"

definition request_outgoing_packet :: "mem \<Rightarrow> nat \<Rightarrow> u16 \<Rightarrow> u16 \<Rightarrow> debug_link \<Rightarrow> debug_link option" where
  "request_outgoing_packet m mem_h device_id bus_id l = do {
     (interm, sz) \<leftarrow> outgoing_data m mem_h device_id bus_id;
     (off, packet_data_sz, buff, l) \<leftarrow> debug_exchange False l (INCOMING_DEBUG_PACKET_HEADER_SIZE False + DEBUG_MAX_PACKET_SIZE + 4)
       TIME_RECORD_REGISTER_OUTGOING_PACKET (Some interm) sz (OUTGOING_DEBUG_PACKET_HEADER_SIZE + DEBUG_MAX_PACKET_SIZE + 1);
     assert (packet_data_sz = 1);
     Some l
   }"

definition request_wait_request_ret_val :: "debug_link \<Rightarrow> (u8 \<times> debug_link) option" where
  "request_wait_request_ret_val l = do {
     (data_offset, packet_data_sz, buff, l) \<leftarrow> debug_exchange False l (INCOMING_DEBUG_PACKET_HEADER_SIZE False + DEBUG_MAX_PACKET_SIZE)
       TIME_RECORD_REGISTER_WAIT_RET_VALUE None 0 (OUTGOING_DEBUG_PACKET_HEADER_SIZE + DEBUG_MAX_PACKET_SIZE + 1);
     assert (packet_data_sz = 1);
     b \<leftarrow> byte_at buff data_offset;
     Some (b, l)
   }"

definition request_time_val :: "u8 \<Rightarrow> debug_link \<Rightarrow> (sa_time_val \<times> debug_link) option" where
  "request_time_val point_id l = do {
     (data_offset, packet_data_sz, buff, l) \<leftarrow> debug_exchange False l (INCOMING_DEBUG_PACKET_HEADER_SIZE False + DEBUG_MAX_PACKET_SIZE)
       TIME_RECORD_REGISTER_TIME_VALUE None 0 (OUTGOING_DEBUG_PACKET_HEADER_SIZE + DEBUG_MAX_PACKET_SIZE + 1);
     assert (unat packet_data_sz = sizeof_sa_time_val + 1);
     tv \<leftarrow> time_from_packet buff data_offset point_id;
     Some (tv, l)
   }"

section \<open>The points at which the time is read\<close>

text \<open>
  For each point its first caller: the name of the file, with its terminating zero, and the line.
\<close>

definition TIME_REQUEST_POINT_MAX :: nat where "TIME_REQUEST_POINT_MAX = 5"

definition char_at :: "u8 list \<Rightarrow> nat \<Rightarrow> u8 option" where
  "char_at s i = (if i < length s then Some (s ! i) else None)"

text \<open>\<open>n\<close> rounds are left of the loop that compares the names.\<close>

fun same_name_loop :: "nat \<Rightarrow> nat \<Rightarrow> bool \<Rightarrow> u8 list \<Rightarrow> u8 list \<Rightarrow> bool option" where
  "same_name_loop 0 i same known file = Some same"
| "same_name_loop (Suc n) i same known file = do {
     c \<leftarrow> char_at known i;
     if c = 0 then do { d \<leftarrow> char_at file i; Some (d = 0) }
     else do {
       same \<leftarrow> (if same then do { d \<leftarrow> char_at file i; Some (c = d) } else Some False);
       same_name_loop n (Suc i) same known file
     }
   }"

type_synonym call_points = "(u8 list \<times> u16) option list"

definition check_get_time_call_point :: "call_points \<Rightarrow> u8 \<Rightarrow> u8 list \<Rightarrow> u16 \<Rightarrow> call_points option" where
  "check_get_time_call_point gettime_call_points call_point file line = do {
     assert (unat call_point < TIME_REQUEST_POINT_MAX);
     case gettime_call_points ! unat call_point of
       None \<Rightarrow> Some (gettime_call_points[unat call_point := Some (file, line)])
     | Some (known, known_line) \<Rightarrow> do {
         assert (known_line = line);
         same \<leftarrow> same_name_loop 255 0 True known file;
         assert same;
         Some gettime_call_points
       }
   }"

section \<open>The calls that are recorded\<close>

record debug_world =
  comm_layer :: comm
  time_master :: debug_link
  gettime_call_points :: call_points
  clock_ticks :: "u32 list"

definition debug_internal_try_get_message_within_master ::
  "bool \<Rightarrow> debug_world \<Rightarrow> nat \<Rightarrow> u16 \<Rightarrow> (u8 \<times> u16 \<times> debug_world) option" where
  "debug_internal_try_get_message_within_master reg w mem_h bus_id =
     (if reg then do {
        (ret_code, b, c) \<leftarrow> internal_try_get_message_within_master (comm_layer w) mem_h;
        let bus_id = (case b of None \<Rightarrow> bus_id | Some v \<Rightarrow> v);
        l \<leftarrow> register_incoming_packet_at_comm_stack (heap c) mem_h bus_id ret_code (time_master w);
        Some (ret_code, bus_id, w\<lparr>comm_layer := c, time_master := l\<rparr>)
      } else do {
        (ret_code, bus_id, m, l) \<leftarrow> request_incoming_packet_at_comm_stack (heap (comm_layer w)) mem_h (time_master w);
        Some (ret_code, bus_id, w\<lparr>comm_layer := (comm_layer w)\<lparr>heap := m\<rparr>, time_master := l\<rparr>)
      })"

definition debug_send_within_master :: "bool \<Rightarrow> debug_world \<Rightarrow> nat \<Rightarrow> u16 \<Rightarrow> u8 \<Rightarrow> (u8 \<times> debug_world) option" where
  "debug_send_within_master reg w mem_h bus_id destination =
     (if \<not> reg then do {
        l \<leftarrow> request_outgoing_packet (heap (comm_layer w)) mem_h bus_id (ucast destination) (time_master w);
        Some (COMMLAYER_RET_OK, w\<lparr>time_master := l\<rparr>)
      } else do {
        l \<leftarrow> register_outgoing_packet (heap (comm_layer w)) mem_h bus_id (ucast destination) (time_master w);
        (ret, c) \<leftarrow> send_within_master (comm_layer w) mem_h bus_id destination;
        Some (ret, w\<lparr>comm_layer := c, time_master := l\<rparr>)
      })"

text \<open>In the recording build the time used is the one the time master answers with.\<close>

definition debug_hal_get_time :: "bool \<Rightarrow> debug_world \<Rightarrow> u8 \<Rightarrow> u8 list \<Rightarrow> u16 \<Rightarrow> (sa_time_val \<times> debug_world) option" where
  "debug_hal_get_time reg w call_point file line = do {
     pts \<leftarrow> check_get_time_call_point (gettime_call_points w) call_point file line;
     let w = w\<lparr>gettime_call_points := pts\<rparr>;
     if reg then (case clock_ticks w of
         [] \<Rightarrow> None
       | t # ts \<Rightarrow> do {
           let tv = sa_get_time t;
           (tv, l) \<leftarrow> register_time_val call_point tv (time_master w);
           Some (tv, w\<lparr>clock_ticks := ts, time_master := l\<rparr>)
         })
     else do {
       (tv, l) \<leftarrow> request_time_val call_point (time_master w);
       Some (tv, w\<lparr>time_master := l\<rparr>)
     }
   }"

definition debug_internal_wait_for_communication_event :: "bool \<Rightarrow> debug_world \<Rightarrow> waiting_for \<Rightarrow> (u8 \<times> debug_world) option" where
  "debug_internal_wait_for_communication_event reg w wfor =
     (if reg then do {
        (ret_code, c) \<leftarrow> internal_wait_for_communication_event (comm_layer w) wfor;
        l \<leftarrow> register_wait_request_ret_val ret_code (time_master w);
        Some (ret_code, w\<lparr>comm_layer := c, time_master := l\<rparr>)
      } else do {
        (ret_code, l) \<leftarrow> request_wait_request_ret_val (time_master w);
        Some (ret_code, w\<lparr>time_master := l\<rparr>)
      })"

text \<open>
  In this build the communication layer itself uses the calls above, behind its queue; the following
  four functions, which record the calls around it once more, are called from nowhere.
\<close>

definition try_get_message_in_debug_build :: "bool \<Rightarrow> debug_world \<Rightarrow> nat \<Rightarrow> u16 \<Rightarrow> (u8 \<times> u16 \<times> debug_world) option" where
  "try_get_message_in_debug_build reg w mem_h bus_id =
     (if cscl_is_queued_packet (packets (comm_layer w)) = COMMLAYER_SYNC_STATUS_OK then do {
        (ret_code, b, c) \<leftarrow> try_get_message_within_master (comm_layer w) mem_h;
        Some (ret_code, case b of None \<Rightarrow> bus_id | Some v \<Rightarrow> v, w\<lparr>comm_layer := c\<rparr>)
      } else debug_internal_try_get_message_within_master reg w mem_h bus_id)"

definition wait_in_debug_build :: "bool \<Rightarrow> debug_world \<Rightarrow> waiting_for \<Rightarrow> (u8 \<times> debug_world) option" where
  "wait_in_debug_build reg w wfor =
     (if cscl_is_queued_packet (packets (comm_layer w)) = COMMLAYER_SYNC_STATUS_OK
      then Some (COMMLAYER_RET_FROM_CENTRAL_UNIT, w)
      else debug_internal_wait_for_communication_event reg w wfor)"

definition send_message_in_debug_build :: "bool \<Rightarrow> debug_world \<Rightarrow> nat \<Rightarrow> u16 \<Rightarrow> (u8 \<times> debug_world) option" where
  "send_message_in_debug_build reg w mem_h bus_id = do {
     assert (bus_id \<noteq> 0xFFFF);
     debug_send_within_master reg w mem_h bus_id COMMLAYER_TO_CU_STATUS_FOR_SLAVE
   }"

definition send_to_central_unit_in_debug_build :: "bool \<Rightarrow> debug_world \<Rightarrow> nat \<Rightarrow> u16 \<Rightarrow> (u8 \<times> debug_world) option" where
  "send_to_central_unit_in_debug_build reg w mem_h src_id =
     debug_send_within_master reg w mem_h src_id COMMLAYER_TO_CU_STATUS_FROM_SLAVE"

definition debug_try_get_message_within_master :: "bool \<Rightarrow> debug_world \<Rightarrow> nat \<Rightarrow> u16 \<Rightarrow> (u8 \<times> u16 \<times> debug_world) option" where
  "debug_try_get_message_within_master reg w mem_h bus_id =
     (if reg then do {
        (ret_code, bus_id, w) \<leftarrow> try_get_message_in_debug_build reg w mem_h bus_id;
        l \<leftarrow> register_incoming_packet_at_comm_stack (heap (comm_layer w)) mem_h bus_id ret_code (time_master w);
        Some (ret_code, bus_id, w\<lparr>time_master := l\<rparr>)
      } else do {
        (ret_code, bus_id, m, l) \<leftarrow> request_incoming_packet_at_comm_stack (heap (comm_layer w)) mem_h (time_master w);
        Some (ret_code, bus_id, w\<lparr>comm_layer := (comm_layer w)\<lparr>heap := m\<rparr>, time_master := l\<rparr>)
      })"

definition debug_send_message :: "bool \<Rightarrow> debug_world \<Rightarrow> nat \<Rightarrow> u16 \<Rightarrow> (u8 \<times> debug_world) option" where
  "debug_send_message reg w mem_h bus_id =
     (if \<not> reg then do {
        l \<leftarrow> request_outgoing_packet (heap (comm_layer w)) mem_h DEVICE_SELF_ID bus_id (time_master w);
        Some (COMMLAYER_RET_OK, w\<lparr>time_master := l\<rparr>)
      } else do {
        l \<leftarrow> register_outgoing_packet (heap (comm_layer w)) mem_h DEVICE_SELF_ID bus_id (time_master w);
        send_message_in_debug_build reg (w\<lparr>time_master := l\<rparr>) mem_h bus_id
      })"

definition debug_send_to_central_unit :: "bool \<Rightarrow> debug_world \<Rightarrow> nat \<Rightarrow> u16 \<Rightarrow> (u8 \<times> debug_world) option" where
  "debug_send_to_central_unit reg w mem_h device_id =
     (if \<not> reg then do {
        l \<leftarrow> request_outgoing_packet (heap (comm_layer w)) mem_h device_id 0xFFFF (time_master w);
        Some (COMMLAYER_RET_OK, w\<lparr>time_master := l\<rparr>)
      } else do {
        l \<leftarrow> register_outgoing_packet (heap (comm_layer w)) mem_h device_id 0xFFFF (time_master w);
        send_to_central_unit_in_debug_build reg (w\<lparr>time_master := l\<rparr>) mem_h device_id
      })"

definition debug_wait_for_communication_event :: "bool \<Rightarrow> debug_world \<Rightarrow> waiting_for \<Rightarrow> (u8 \<times> debug_world) option" where
  "debug_wait_for_communication_event reg w wfor =
     (if reg then do {
        (ret_code, w) \<leftarrow> wait_in_debug_build reg w wfor;
        l \<leftarrow> register_wait_request_ret_val ret_code (time_master w);
        Some (ret_code, w\<lparr>time_master := l\<rparr>)
      } else do {
        (ret_code, l) \<leftarrow> request_wait_request_ret_val (time_master w);
        Some (ret_code, w\<lparr>time_master := l\<rparr>)
      })"

definition debug_communication_initialize ::
  "bool \<Rightarrow> socket_results \<Rightarrow> time_master_results \<Rightarrow> debug_sockets \<Rightarrow> (bool \<times> debug_sockets) outcome" where
  "debug_communication_initialize reg r tr s =
     (if reg then (case communication_initialize r (comm_layer_sockets s) of
          Exits \<Rightarrow> Exits
        | Returns (ok, c) \<Rightarrow>
            let s = s\<lparr>comm_layer_sockets := c\<rparr> in
            if \<not> ok then Returns (False, s)
            else (case communication_initialize_with_time_master tr s of
                (ok, s) \<Rightarrow> if \<not> ok then Returns (False, s) else Returns (True, s)))
      else (case communication_initialize_with_time_master tr s of
          (ok, s) \<Rightarrow> if \<not> ok then Returns (False, s) else Returns (True, s)))"

end
