(* ===== verification/Record_Rules.thy ===== *)
theory Record_Rules
  imports Event_Record
begin

text \<open>
  The exchange of debug packets with the time master, and what each of the functions of
  \<open>Event_Record\<close> sends and takes.
\<close>

section \<open>Forming and analysing\<close>

text \<open>Device id 0, the kind, in an answer of the replaying time master a status, and the data behind their size.\<close>

definition debug_packet :: "u8 list \<Rightarrow> u8 \<Rightarrow> u8 list \<Rightarrow> u8 list" where
  "debug_packet status type data =
     (let sz = u16_of (int (length data)) in [0, 0, type] @ status @ [ucast sz, ucast (drop_bit 8 sz)] @ data)"

lemma length_debug_packet [simp]: "length (debug_packet status type data) = 5 + length status + length data"
  by (simp add: debug_packet_def Let_def)

text \<open>The answer of the recording time master has no status, that of the replaying one a nonzero one.\<close>

definition status_ok :: "bool \<Rightarrow> u8 list \<Rightarrow> bool" where
  "status_ok reg status \<longleftrightarrow> (if reg then status = [] else length status = 1 \<and> hd status \<noteq> 0)"

lemma status_ok_cases: "status_ok reg status \<Longrightarrow> (if reg then status = [] else \<exists>s. status = [s] \<and> s \<noteq> 0)"
  by (cases status) (auto simp: status_ok_def split: if_splits)

lemma header_size: "status_ok reg status \<Longrightarrow> INCOMING_DEBUG_PACKET_HEADER_SIZE reg = 5 + length status"
  using status_ok_cases [of reg status] by (auto simp: debug_sizes split: if_splits)

lemma unat_u16_limit: "unat (w :: u16) < 65536"
  by (rule order.strict_trans2 [OF unsigned_less]) simp

lemma join_or: "push_bit 8 (ucast (ucast (drop_bit 8 v) :: u8)) OR ucast (ucast v :: u8) = (v :: u16)"
  by (rule bit_word_eqI) (auto simp: bit_simps)

lemma bytes_of_or:
  assumes "push_bit 8 (ucast (b1 :: u8)) OR ucast (b0 :: u8) = (u :: u16)"
  shows "b0 = ucast u" "b1 = ucast (drop_bit 8 u)"
proof -
  have "\<not> bit b0 (8 + n)" for n using bit_imp_le_length [of b0 "8 + n"] by auto
  then show "b0 = ucast u" "b1 = ucast (drop_bit 8 u)"
    unfolding assms [symmetric] by (auto intro!: bit_word_eqI simp: bit_simps dest: bit_imp_le_length)
qed

lemma form_debug_packet_effect:
  assumes "length bs + 5 \<le> n" "length bs < 60000" "bs \<noteq> [] \<longrightarrow> data = Some (map Some bs @ xs)"
  shows "form_debug_packet (new_array n) type data (u16_of (int (length bs))) =
    Some (u16_of (int (length (debug_packet [] type bs))), map Some (debug_packet [] type bs) @ drop (length bs + 5) (new_array n))"
proof -
  let ?sz = "u16_of (int (length bs))" and ?hdr = "debug_packet [] type []"
  have sz: "unat ?sz = length bs" "?sz = 0 \<longleftrightarrow> bs = []"
    using unat_u16_length [of bs] assms(2) by (auto simp: unat_eq_0 [symmetric])
  have plus: "?sz + 5 = u16_of (int (length bs) + 5)" by (simp add: u16_of_def)
  have hdr: "store_at (new_array n) 0 [ucast DEVICE_SELF_ID, ucast (drop_bit 8 DEVICE_SELF_ID), type, ucast ?sz, ucast (drop_bit 8 ?sz)] =
      Some (map Some [0, 0, type, ucast ?sz, ucast (drop_bit 8 ?sz)] @ drop 5 (new_array n))"
    by (subst store_first) (use assms(1) in \<open>simp_all add: DEVICE_SELF_ID_def eval_nat_numeral\<close>)
  have body: "store_at (map Some [0, 0, type, ucast ?sz, ucast (drop_bit 8 ?sz)] @ drop 5 (new_array n)) 5 bs =
      Some (map Some (debug_packet [] type bs) @ drop (length bs + 5) (new_array n))"
    by (subst store_next) (use assms(1) in \<open>simp_all add: debug_packet_def Let_def add.commute\<close>)
  show ?thesis
  proof (cases "bs = []")
    case True
    then show ?thesis using hdr plus
      by (simp add: form_debug_packet_def Let_def sz debug_packet_def OUTGOING_DEBUG_PACKET_HEADER_SIZE_def u16_of_def)
  next
    case False
    then have "load_at (map Some bs @ xs) 0 (unat ?sz) = Some bs" by (simp add: sz)
    then show ?thesis using hdr body plus assms(3) False
      by (simp add: form_debug_packet_def Let_def sz(2) OUTGOING_DEBUG_PACKET_HEADER_SIZE_def add.commute del: list.map)
  qed
qed

lemma preanalyze_effect:
  assumes "status_ok reg status" "length ans < 60000"
  shows "preanalyze_debug_packet reg (map Some (debug_packet status type ans) @ xs)
      (u16_of (int (length (debug_packet status type ans)))) type = Some (5 + length status, u16_of (int (length ans)))"
proof -
  let ?n = "5 + length status + length ans"
  have n: "?n < 65536" "uint (u16_of (int ?n)) = int ?n" "unat (u16_of (int ?n)) = ?n"
    using assms status_ok_cases [OF assms(1)] unat_u16_length [of "replicate ?n undefined"] by (auto split: if_splits)
  from n show ?thesis
    using assms status_ok_cases [OF assms(1)]
    by (auto simp: preanalyze_debug_packet_def debug_packet_def Let_def byte_at_def debug_sizes join_or split: if_splits)
qed

lemma preanalyze_result:
  assumes "preanalyze_debug_packet reg (map Some p @ xs) (u16_of (int (length p))) type = Some (off, sz)" "5 \<le> length p" "length p < 65536"
  obtains status ans where "status_ok reg status" "p = debug_packet status type ans" "off = 5 + length status" "sz = u16_of (int (length ans))"
proof -
  note n = uint_u16_length [OF assms(3)] unat_u16_length [OF assms(3)]
  have "length p \<noteq> 0" "length (tl p) \<noteq> 0" "length (tl (tl p)) \<noteq> 0" "length (tl (tl (tl p))) \<noteq> 0" "length (tl (tl (tl (tl p)))) \<noteq> 0"
    using assms(2) by auto
  then obtain p0 p1 p2 p3 p4 q where p: "p = p0 # p1 # p2 # p3 # p4 # q"
    by (metis length_0_conv list.sel(3) neq_Nil_conv)
  show thesis
  proof (cases reg)
    case True
    from assms(1) True have b: "push_bit 8 (ucast p1) OR ucast p0 = (0 :: u16)" "p2 = type" "off = 5"
      "push_bit 8 (ucast p4) OR ucast p3 = sz" "uint sz = uint (u16_of (int (length p))) - 5"
      by (auto simp: preanalyze_debug_packet_def debug_sizes byte_at_def p Let_def bind_eq_Some_conv nth_append)
    have "uint sz = int (length q)" using b(5) n(1) by (simp add: p)
    then have sz: "sz = u16_of (int (length q))" by (simp add: u16_of_def flip: \<open>uint sz = int (length q)\<close>)
    have "p = debug_packet [] type q" using bytes_of_or [OF b(1)] bytes_of_or [OF b(4)] b(2) sz by (simp add: debug_packet_def p Let_def)
    with that [of "[]" q] True b(3) sz show thesis by (simp add: status_ok_def)
  next
    case False
    from assms(1) False have "6 \<le> length p"
      by (auto simp: preanalyze_debug_packet_def debug_sizes n(2))
    then obtain p5 q' where q: "q = p5 # q'" by (cases q) (auto simp: p)
    from assms(1) False have b: "push_bit 8 (ucast p1) OR ucast p0 = (0 :: u16)" "p2 = type" "off = 6" "p3 \<noteq> 0"
      "push_bit 8 (ucast p5) OR ucast p4 = sz" "uint sz = uint (u16_of (int (length p))) - 6"
      by (auto simp: preanalyze_debug_packet_def debug_sizes byte_at_def p q Let_def bind_eq_Some_conv nth_append)
    have "uint sz = int (length q')" using b(6) n(1) by (simp add: p q)
    then have sz: "sz = u16_of (int (length q'))" by (simp add: u16_of_def flip: \<open>uint sz = int (length q')\<close>)
    have "p = debug_packet [p3] type q'" using bytes_of_or [OF b(1)] bytes_of_or [OF b(5)] b(2) sz by (simp add: debug_packet_def p q Let_def)
    with that [of "[p3]" q'] False b(3,4) sz show thesis by (simp add: status_ok_def)
  qed
qed

section \<open>An exchange\<close>

text \<open>The two writes in which a packet goes to the time master.\<close>

definition pieces :: "u8 list \<Rightarrow> u8 list list" where
  "pieces p = [take 2 (debug_frame p), p]"

definition exchanged :: "debug_link \<Rightarrow> u8 \<Rightarrow> u8 list \<Rightarrow> u8 list \<Rightarrow> u8 list \<Rightarrow> debug_link \<Rightarrow> bool" where
  "exchanged l type question status answer l' \<longleftrightarrow>
     to_time_master l' = to_time_master l @ pieces (debug_packet [] type question) \<and>
     stream_of (from_time_master l) = debug_frame (debug_packet status type answer) @ stream_of (from_time_master l') \<and>
     (quiet (from_time_master l) \<longrightarrow> quiet (from_time_master l')) \<and> time_master_send_results l' = []"

lemma exchange_sends:
  fixes type :: u8
  assumes "length bs + 5 \<le> n" "length bs < 60000" "bs \<noteq> [] \<longrightarrow> data = Some (map Some bs @ xs)" "time_master_send_results l = []"
  defines "p \<equiv> debug_packet [] type bs"
  shows "debug_exchange reg l n type data (u16_of (int (length bs))) max_sz = do {
     let buff = map Some p @ drop (length bs + 5) (new_array n);
     (ret, packet_data_sz, buff, l) \<leftarrow> get_debug_packet (l\<lparr>to_time_master := to_time_master l @ pieces p\<rparr>) buff (of_nat max_sz);
     assert (ret = HAL_GET_PACKET_BYTES_DONE);
     packet_data_sz \<leftarrow> packet_data_sz;
     (data_offset, packet_data_sz) \<leftarrow> preanalyze_debug_packet reg buff packet_data_sz type;
     Some (data_offset, packet_data_sz, buff, l)
   }"
proof -
  let ?sz = "u16_of (int (length p))" and ?buff = "map Some p @ drop (length bs + 5) (new_array n)"
  have len: "length p < 65536" using assms(2) by (simp add: p_def)
  have "load_at ?buff 0 (unat ?sz) = Some p" using unat_u16_length [OF len] by simp
  from send_debug_packet_effect [OF assms(4) this]
  have "send_debug_packet l ?buff ?sz = Some (COMMLAYER_RET_OK, l\<lparr>to_time_master := to_time_master l @ pieces p\<rparr>)"
    by (simp add: pieces_def debug_frame_def Let_def)
  then show ?thesis using form_debug_packet_effect [OF assms(1-3)] by (simp add: debug_exchange_def p_def)
qed

lemma exchange_result:
  assumes "debug_exchange reg l n type data (u16_of (int (length bs))) max_sz = Some (off, sz, buff, l')"
    and "length bs + 5 \<le> n" "length bs < 60000" "bs \<noteq> [] \<longrightarrow> data = Some (map Some bs @ xs)" "time_master_send_results l = []"
  obtains status ans rest where "status_ok reg status" "exchanged l type bs status ans l'" "off = 5 + length status"
    "sz = u16_of (int (length ans))" "length ans < 65536" "buff = map Some (debug_packet status type ans) @ rest"
proof -
  let ?l = "l\<lparr>to_time_master := to_time_master l @ pieces (debug_packet [] type bs)\<rparr>"
    and ?a = "map Some (debug_packet [] type bs) @ drop (length bs + 5) (new_array n)"
  from assms(1) [unfolded exchange_sends [OF assms(2-5)]] obtain got where
    get: "get_debug_packet ?l ?a (of_nat max_sz) = Some (HAL_GET_PACKET_BYTES_DONE, Some got, buff, l')"
    and pre: "preanalyze_debug_packet reg buff got type = Some (off, sz)"
    by (auto simp: bind_eq_Some_conv Let_def)
  from get_debug_packet_result [OF get] obtain p where p: "packet_read ?l ?a (of_nat max_sz) p buff l'" "got = u16_of (int (length p))" by auto
  have len: "5 \<le> length p" "length p < 65536" "buff = map Some p @ drop (length p) ?a"
    using p(1) unat_u16_limit [of "of_nat max_sz"] by (auto simp: packet_read_def)
  from preanalyze_result [OF pre [unfolded p(2) len(3)] len(1,2)] obtain status ans where
    s: "status_ok reg status" "p = debug_packet status type ans" "off = 5 + length status" "sz = u16_of (int (length ans))" by blast
  have "l' = ?l\<lparr>from_time_master := from_time_master l', buffer_in_pos_time_master := int (length p)\<rparr>"
    using p(1) by (simp add: packet_read_def)
  then have "to_time_master l' = to_time_master ?l" "time_master_send_results l' = time_master_send_results ?l"
    by (metis debug_link.select_convs(3,4) debug_link.surjective debug_link.update_convs(1,2))+
  then have "exchanged l type bs status ans l'" using p(1) assms(5) by (auto simp: exchanged_def packet_read_def s(2))
  with that [OF s(1) this s(3,4) _ len(3) [unfolded s(2)]] len(2) show thesis by (simp add: s(2))
qed

lemma exchange_defined:
  assumes "length bs + 5 \<le> n" "length bs < 60000" "bs \<noteq> [] \<longrightarrow> data = Some (map Some bs @ xs)" "time_master_send_results l = []"
    and "quiet (from_time_master l)" "stream_of (from_time_master l) = debug_frame (debug_packet status type ans) @ rest"
    and "status_ok reg status" "5 + length status + length ans \<le> n" "5 + length status + length ans \<le> max_sz" "max_sz < 60000"
  obtains l' xs where "debug_exchange reg l n type data (u16_of (int (length bs))) max_sz =
      Some (5 + length status, u16_of (int (length ans)), map Some (debug_packet status type ans) @ xs, l')"
    "exchanged l type bs status ans l'" "stream_of (from_time_master l') = rest" "quiet (from_time_master l')"
proof -
  let ?l = "l\<lparr>to_time_master := to_time_master l @ pieces (debug_packet [] type bs)\<rparr>"
    and ?a = "map Some (debug_packet [] type bs) @ drop (length bs + 5) (new_array n)" and ?p = "debug_packet status type ans"
  have len: "length ?p < 65536" "length ?p \<le> length ?a" "5 \<le> length ?p" using assms(1,8-10) by simp_all
  have mx: "unat (of_nat max_sz :: u16) = max_sz" using assms(10) by (simp add: unat_of_nat)
  have "quiet (from_time_master ?l)" "stream_of (from_time_master ?l) = debug_frame ?p @ rest" using assms(5,6) by simp_all
  from get_debug_packet_exact [OF this len(1), of "of_nat max_sz" ?a] len assms(9) mx obtain l' where
    get: "get_debug_packet ?l ?a (of_nat max_sz) = Some (HAL_GET_PACKET_BYTES_DONE, Some (u16_of (int (length ?p))), map Some ?p @ drop (length ?p) ?a, l')"
    "stream_of (from_time_master l') = rest" "packet_read ?l ?a (of_nat max_sz) ?p (map Some ?p @ drop (length ?p) ?a) l'" by auto
  have ans: "length ans < 60000" using assms(9,10) by simp
  have run: "debug_exchange reg l n type data (u16_of (int (length bs))) max_sz =
      Some (5 + length status, u16_of (int (length ans)), map Some ?p @ drop (length ?p) ?a, l')"
    unfolding exchange_sends [OF assms(1-4)] Let_def get(1) using preanalyze_effect [OF assms(7) ans] by simp
  from exchange_result [OF run assms(1-4)] obtain st an where "exchanged l type bs st an l'" "debug_packet st type an = ?p"
    using get(3) by (auto simp: exchanged_def packet_read_def)
  then have "exchanged l type bs status ans l'" by (simp add: exchanged_def)
  moreover have "quiet (from_time_master l')" using get(3) assms(5) by (auto simp: packet_read_def)
  ultimately show thesis using that run get(2) by blast
qed

text \<open>Reading the data of an answer.\<close>

lemma answer_byte:
  "i < length ans \<Longrightarrow> off = 5 + length status \<Longrightarrow> byte_at (map Some (debug_packet status type ans) @ xs) (off + i) = Some (ans ! i)"
  by (subst byte_stored) (auto simp: debug_packet_def Let_def nth_append)

lemma answer_bytes:
  assumes "k \<le> length ans"
  shows "load_at (map Some (debug_packet status type ans) @ xs) (5 + length status + k) (length ans - k) = Some (drop k ans)"
proof -
  let ?sz = "u16_of (int (length ans))"
  have "debug_packet status type ans = ([0, 0, type] @ status @ [ucast ?sz, ucast (drop_bit 8 ?sz)]) @ ans"
    by (simp add: debug_packet_def Let_def)
  moreover have "length ([0, 0, type] @ status @ [ucast ?sz, ucast (drop_bit 8 ?sz)]) = 5 + length status" by simp
  ultimately have split: "drop (5 + length status + k) (debug_packet status type ans) = drop k ans"
    by (simp only: drop_append) simp
  show ?thesis using assms by (simp add: load_at_def drop_map split)
qed

end
