(* ===== verification/Record_Replay.thy ===== *)
theory Record_Replay
  imports Record_Rules Sample_Heaps
begin

text \<open>
  A program that reaches the system only through the calls of \<open>Event_Record\<close>, its recording, and its
  replay from the record.
\<close>

section \<open>Programs\<close>

text \<open>The calls, on one handle; a message is put into it before it is sent.\<close>

datatype debug_call = Receive u16 | Send "u8 list" u16 u8 | Wait waiting_for | Get_time u8 "u8 list" u16

datatype debug_result = Got u8 u16 "u8 list" | Sent u8 | Waited u8 | Time sa_time_val

definition put_message :: "mem \<Rightarrow> nat \<Rightarrow> u8 list \<Rightarrow> mem option" where
  "put_message m h bs = do {
     m \<leftarrow> zepto_parser_free_memory m h;
     m \<leftarrow> zepto_write_block m h bs;
     zepto_response_to_request m h
   }"

definition response_of :: "mem \<Rightarrow> nat \<Rightarrow> u8 list option" where
  "response_of m h = do {
     sz \<leftarrow> memory_object_get_response_size m h;
     p \<leftarrow> memory_object_get_response_ptr m h;
     mem_load BASE_MEM_BLOCK_SIZE (BASE_MEM_BLOCK m) p sz
   }"

fun do_call :: "bool \<Rightarrow> nat \<Rightarrow> debug_call \<Rightarrow> debug_world \<Rightarrow> (debug_result \<times> debug_world) option" where
  "do_call reg h (Receive bus_id) w = do {
     (ret, bus_id, w) \<leftarrow> debug_internal_try_get_message_within_master reg w h bus_id;
     bs \<leftarrow> response_of (heap (comm_layer w)) h;
     Some (Got ret bus_id bs, w)
   }"
| "do_call reg h (Send bs bus_id destination) w = do {
     m \<leftarrow> put_message (heap (comm_layer w)) h bs;
     (ret, w) \<leftarrow> debug_send_within_master reg (w\<lparr>comm_layer := (comm_layer w)\<lparr>heap := m\<rparr>\<rparr>) h bus_id destination;
     Some (Sent ret, w)
   }"
| "do_call reg h (Wait wfor) w = do {
     (ret, w) \<leftarrow> debug_internal_wait_for_communication_event reg w wfor;
     Some (Waited ret, w)
   }"
| "do_call reg h (Get_time point file line) w = do {
     (t, w) \<leftarrow> debug_hal_get_time reg w point file line;
     Some (Time t, w)
   }"

text \<open>What a program does next depends on the results so far, and on nothing else.\<close>

datatype client = Done | Call debug_call "debug_result \<Rightarrow> client"

primrec run_client :: "bool \<Rightarrow> nat \<Rightarrow> client \<Rightarrow> debug_world \<Rightarrow> ((debug_call \<times> debug_result) list \<times> debug_world) option" where
  "run_client reg h Done w = Some ([], w)"
| "run_client reg h (Call c k) w = do {
     (r, w) \<leftarrow> do_call reg h c w;
     (tr, w) \<leftarrow> run_client reg h (k r) w;
     Some ((c, r) # tr, w)
   }"

section \<open>What goes to and comes from the time master\<close>

fun call_kind :: "debug_call \<Rightarrow> u8" where
  "call_kind (Receive _) = TIME_RECORD_REGISTER_INCOMING_PACKET_AT_COMM_STACK"
| "call_kind (Send _ _ _) = TIME_RECORD_REGISTER_OUTGOING_PACKET"
| "call_kind (Wait _) = TIME_RECORD_REGISTER_WAIT_RET_VALUE"
| "call_kind (Get_time _ _ _) = TIME_RECORD_REGISTER_TIME_VALUE"

definition low_high :: "u16 \<Rightarrow> u8 list" where
  "low_high v = [ucast v, ucast (drop_bit 8 v)]"

text \<open>Recording: what is reported, and the answer it needs. The clock is read from \<open>ts\<close>.\<close>

fun report :: "u32 list \<Rightarrow> debug_call \<Rightarrow> debug_result \<Rightarrow> u8 list" where
  "report ts (Receive _) (Got ret bus_id bs) = ret # low_high bus_id @ bs"
| "report ts (Send bs bus_id destination) _ = low_high bus_id @ [destination, 0] @ bs"
| "report ts (Wait _) (Waited ret) = [ret]"
| "report ts (Get_time point _ _) _ = time_to_packet point (sa_get_time (hd ts))"
| "report ts _ _ = []"

fun acknowledgement :: "debug_call \<Rightarrow> debug_result \<Rightarrow> u8 list" where
  "acknowledgement (Wait _) (Waited ret) = [ret]"
| "acknowledgement (Get_time point _ _) (Time t) = time_to_packet point t"
| "acknowledgement _ _ = []"

text \<open>Replaying: what is asked, and the answer from the record.\<close>

fun question :: "debug_call \<Rightarrow> u8 list" where
  "question (Send bs bus_id destination) = low_high bus_id @ [destination, 0] @ bs"
| "question _ = []"

fun recorded :: "debug_call \<Rightarrow> debug_result \<Rightarrow> u8 list" where
  "recorded (Receive _) (Got ret bus_id bs) = ret # low_high bus_id @ bs"
| "recorded (Send _ _ _) (Sent ret) = [ret]"
| "recorded (Wait _) (Waited ret) = [ret]"
| "recorded (Get_time point _ _) (Time t) = time_to_packet point t"
| "recorded _ _ = []"

section \<open>Recording one call\<close>

lemma length_0_of_u16: "u16_of (int (length xs)) = 0 \<Longrightarrow> length xs < 65536 \<Longrightarrow> xs = []"
  using unat_u16_length [of xs] by simp

lemma stored_packet:
  assumes "store_at (new_array n) 0 pre = Some a" "store_at a p bs = Some b" "p = length pre"
  obtains xs where "b = map Some (pre @ bs) @ xs" "length pre + length bs \<le> n"
proof -
  from assms(1) have a: "a = map Some pre @ drop p (new_array n)" "p \<le> n"
    by (auto simp: store_at_def assms(3) split: if_splits)
  with assms(2) that show thesis by (auto simp: store_at_def assms(3) split: if_splits)
qed

lemma mem_load_length: "mem_load n B p sz = Some bs \<Longrightarrow> sz = int (length bs)"
  by (auto simp: mem_load_def in_range_def split: if_splits)

lemma register_incoming_result:
  assumes "register_incoming_packet_at_comm_stack m h bus_id ret l = Some l'" "time_master_send_results l = []"
  obtains bs where "response_of m h = Some bs"
    "exchanged l TIME_RECORD_REGISTER_INCOMING_PACKET_AT_COMM_STACK (ret # low_high bus_id @ bs) [] [] l'"
proof -
  let ?n = "OUTGOING_DEBUG_PACKET_HEADER_SIZE + DEBUG_MAX_PACKET_SIZE + 3"
  from assms(1) obtain sz p bs i1 i2 off buff where load: "memory_object_get_response_size m h = Some sz"
      "memory_object_get_response_ptr m h = Some p" "mem_load BASE_MEM_BLOCK_SIZE (BASE_MEM_BLOCK m) p sz = Some bs"
    and st: "store_at (new_array (DEBUG_MAX_PACKET_SIZE + 3)) 0 [ret, ucast bus_id, ucast (drop_bit 8 bus_id)] = Some i1" "store_at i1 3 bs = Some i2"
    and ex: "debug_exchange True l ?n TIME_RECORD_REGISTER_INCOMING_PACKET_AT_COMM_STACK (Some i2) (u16_of (sz + 3))
        (OUTGOING_DEBUG_PACKET_HEADER_SIZE + DEBUG_MAX_PACKET_SIZE) = Some (off, 0, buff, l')"
    by (auto simp: register_incoming_packet_at_comm_stack_def bind_eq_Some_conv)
  obtain xs where i2: "i2 = map Some ([ret, ucast bus_id, ucast (drop_bit 8 bus_id)] @ bs) @ xs" "3 + length bs \<le> DEBUG_MAX_PACKET_SIZE + 3"
    using stored_packet [OF st] by auto
  let ?bs = "[ret, ucast bus_id, ucast (drop_bit 8 bus_id)] @ bs"
  have sz: "sz + 3 = int (length ?bs)" using mem_load_length [OF load(3)] by simp
  have fits: "length ?bs + 5 \<le> ?n" "length ?bs < 60000" "?bs \<noteq> [] \<longrightarrow> Some i2 = Some (map Some ?bs @ xs)"
    using i2 by (simp_all add: debug_sizes)
  from exchange_result [OF ex [unfolded sz] fits assms(2)] obtain status ans where
    "status_ok True status" "exchanged l TIME_RECORD_REGISTER_INCOMING_PACKET_AT_COMM_STACK ?bs status ans l'"
    "0 = u16_of (int (length ans))" "length ans < 65536" by metis
  then have "exchanged l TIME_RECORD_REGISTER_INCOMING_PACKET_AT_COMM_STACK ?bs [] [] l'"
    using length_0_of_u16 [of ans] by (simp add: status_ok_def)
  then show thesis using that [of bs] load by (simp add: response_of_def low_high_def)
qed

lemma outgoing_data_effect:
  assumes "heap_inv m" "content m h = Some (rq, rsp)"
  shows "if length rq \<le> 200 then \<exists>xs. outgoing_data m h d b = Some (map Some (low_high d @ low_high b @ rq) @ xs,
      u16_of (int (length (low_high d @ low_high b @ rq)))) else outgoing_data m h d b = None"
proof -
  let ?hd = "[ucast d, ucast (drop_bit 8 d), ucast b, ucast (drop_bit 8 b)]"
  obtain p where load: "memory_object_get_request_ptr m h = Some p"
    "mem_load BASE_MEM_BLOCK_SIZE (BASE_MEM_BLOCK m) p (int (length rq)) = Some rq"
    using load_whole_request [OF assms] by metis
  have "store_at (new_array 204) 0 ?hd = Some (map Some ?hd @ drop 4 (new_array 204))"
    by (simp add: store_at_def eval_nat_numeral)
  moreover have "store_at (map Some ?hd @ drop 4 (new_array 204)) 4 rq =
      (if length rq \<le> 200 then Some (map Some (?hd @ rq) @ drop (length rq) (drop 4 (new_array 204))) else None)"
    using store_next [of 4 ?hd rq "drop 4 (new_array 204)"] by (cases "length rq \<le> 200") (simp_all add: store_at_def)
  ultimately show ?thesis
    using load sizes_of_view(1) [OF assms] by (auto simp: outgoing_data_def debug_sizes low_high_def add.commute)
qed

lemma register_outgoing_result:
  assumes "register_outgoing_packet m h d b l = Some l'" "time_master_send_results l = []" "heap_inv m" "content m h = Some (rq, rsp)"
  shows "exchanged l TIME_RECORD_REGISTER_OUTGOING_PACKET (low_high d @ low_high b @ rq) [] [] l'" "length rq \<le> 200"
proof -
  let ?n = "OUTGOING_DEBUG_PACKET_HEADER_SIZE + DEBUG_MAX_PACKET_SIZE + 4" and ?bs = "low_high d @ low_high b @ rq"
  note out = outgoing_data_effect [OF assms(3,4), of d b]
  show len: "length rq \<le> 200" using assms(1) out by (auto simp: register_outgoing_packet_def split: if_splits)
  with out obtain xs where o: "outgoing_data m h d b = Some (map Some ?bs @ xs, u16_of (int (length ?bs)))" by auto
  from assms(1) obtain off buff where ex: "debug_exchange True l ?n TIME_RECORD_REGISTER_OUTGOING_PACKET (Some (map Some ?bs @ xs))
      (u16_of (int (length ?bs))) (OUTGOING_DEBUG_PACKET_HEADER_SIZE + DEBUG_MAX_PACKET_SIZE) = Some (off, 0, buff, l')"
    unfolding register_outgoing_packet_def o by (auto simp: bind_eq_Some_conv)
  have fits: "length ?bs + 5 \<le> ?n" "length ?bs < 60000" "?bs \<noteq> [] \<longrightarrow> Some (map Some ?bs @ xs) = Some (map Some ?bs @ xs)"
    using len by (simp_all add: debug_sizes low_high_def)
  from exchange_result [OF ex fits assms(2)] obtain status ans where
    "status_ok True status" "exchanged l TIME_RECORD_REGISTER_OUTGOING_PACKET ?bs status ans l'"
    "0 = u16_of (int (length ans))" "length ans < 65536" by metis
  then show "exchanged l TIME_RECORD_REGISTER_OUTGOING_PACKET ?bs [] [] l'"
    using length_0_of_u16 [of ans] by (simp add: status_ok_def)
qed

lemma register_wait_result:
  assumes "register_wait_request_ret_val ret l = Some l'" "time_master_send_results l = []"
  shows "exchanged l TIME_RECORD_REGISTER_WAIT_RET_VALUE [ret] [] [ret] l'"
proof -
  let ?n = "OUTGOING_DEBUG_PACKET_HEADER_SIZE + 1"
  from assms(1) obtain off buff where ex: "debug_exchange True l ?n TIME_RECORD_REGISTER_WAIT_RET_VALUE (Some [Some ret])
      1 (OUTGOING_DEBUG_PACKET_HEADER_SIZE + DEBUG_MAX_PACKET_SIZE + 1) = Some (off, 1, buff, l')"
    and b: "byte_at buff off = Some ret" by (auto simp: register_wait_request_ret_val_def bind_eq_Some_conv)
  have one: "(1 :: u16) = u16_of (int (length [ret]))" by (simp add: u16_of_def)
  from exchange_result [OF ex [unfolded one], of "[]"] assms(2) obtain status ans rest where
    a: "status_ok True status" "exchanged l TIME_RECORD_REGISTER_WAIT_RET_VALUE [ret] status ans l'" "off = 5 + length status"
    "u16_of (int (length [ret])) = u16_of (int (length ans))" "length ans < 65536" "buff = map Some (debug_packet status TIME_RECORD_REGISTER_WAIT_RET_VALUE ans) @ rest"
    by (auto simp: debug_sizes simp del: of_nat_Suc)
  have "length ans = 1" using a(4,5) unat_u16_length [of ans] unat_u16_length [of "[ret]"] by simp
  moreover from this have "byte_at buff (off + 0) = Some (ans ! 0)" using answer_byte [of 0 ans off status] a(3,6) by simp
  ultimately have "ans = [ret]" using b by (cases ans) auto
  then show ?thesis using a(1,2) by (simp add: status_ok_def)
qed

lemma or_bytes_iff: "push_bit 8 (ucast (b1 :: u8)) OR ucast (b0 :: u8) = (u :: u16) \<longleftrightarrow> b0 = ucast u \<and> b1 = ucast (drop_bit 8 u)"
  using bytes_of_or [of b1 b0 u] join_or [of u] by auto

lemma time_in_answer:
  assumes "length ans = 5"
  shows "time_from_packet (map Some (debug_packet status type ans) @ xs) (5 + length status) point = Some tv \<longleftrightarrow>
    ans = time_to_packet point tv"
proof -
  obtain a0 a1 a2 a3 a4 where ans: "ans = [a0, a1, a2, a3, a4]"
    using assms by (auto simp: eval_nat_numeral length_Suc_conv)
  have byte: "byte_at (map Some (debug_packet status type ans) @ xs) (5 + length status + i) = Some (ans ! i)" if "i < 5" for i
    using answer_byte that assms by metis
  have "time_from_packet (map Some (debug_packet status type ans) @ xs) (5 + length status) point = (if a0 = point then
      Some \<lparr>low_t = push_bit 8 (ucast a2) OR ucast a1, high_t = push_bit 8 (ucast a4) OR ucast a3\<rparr> else None)"
    using byte [of 0] byte [of 1] byte [of 2] byte [of 3] byte [of 4]
    by (simp add: time_from_packet_def ans assert_def add.assoc)
  moreover have "\<lparr>low_t = push_bit 8 (ucast a2) OR ucast a1, high_t = push_bit 8 (ucast a4) OR ucast a3\<rparr> = tv \<longleftrightarrow>
      a1 = ucast (low_t tv) \<and> a2 = ucast (drop_bit 8 (low_t tv)) \<and> a3 = ucast (high_t tv) \<and> a4 = ucast (drop_bit 8 (high_t tv))"
    by (cases tv) (auto simp: or_bytes_iff)
  ultimately show ?thesis by (auto simp: ans time_to_packet_def)
qed

lemma length_time_to_packet [simp]: "length (time_to_packet point t) = 5"
  by (simp add: time_to_packet_def)

lemma register_time_result:
  assumes "register_time_val point t l = Some (tv, l')" "time_master_send_results l = []"
  shows "exchanged l TIME_RECORD_REGISTER_TIME_VALUE (time_to_packet point t) [] (time_to_packet point tv) l'"
proof -
  let ?n = "OUTGOING_DEBUG_PACKET_HEADER_SIZE + sizeof_sa_time_val + 1" and ?bs = "time_to_packet point t"
  have st: "store_at (new_array (sizeof_sa_time_val + 1)) 0 ?bs = Some (map Some ?bs @ [])"
    by (simp add: store_at_def debug_sizes)
  have len: "(of_nat (sizeof_sa_time_val + 1) :: u16) = u16_of (int (length ?bs))" by (simp add: u16_of_def debug_sizes)
  from assms(1) obtain off sz buff where ex: "debug_exchange True l ?n TIME_RECORD_REGISTER_TIME_VALUE (Some (map Some ?bs @ []))
      (u16_of (int (length ?bs))) (OUTGOING_DEBUG_PACKET_HEADER_SIZE + DEBUG_MAX_PACKET_SIZE + 1) = Some (off, sz, buff, l')"
    and sz: "unat sz = 5" and tv: "time_from_packet buff off point = Some tv"
    unfolding register_time_val_def st len by (auto simp: bind_eq_Some_conv sizeof_sa_time_val_def)
  from exchange_result [OF ex, of "[]"] assms(2) obtain status ans rest where
    a: "status_ok True status" "exchanged l TIME_RECORD_REGISTER_TIME_VALUE ?bs status ans l'" "off = 5 + length status"
    "sz = u16_of (int (length ans))" "length ans < 65536" "buff = map Some (debug_packet status TIME_RECORD_REGISTER_TIME_VALUE ans) @ rest"
    by (auto simp: debug_sizes)
  have "length ans = 5" using a(4,5) sz unat_u16_length [of ans] by simp
  from tv time_in_answer [OF this] have "ans = time_to_packet point tv" by (simp add: a(3,6))
  then show ?thesis using a(1,2) by (simp add: status_ok_def)
qed

lemma put_message_effect:
  assumes "heap_inv m" "content m h = Some (rq, rsp)"
  shows "if int (length bs) \<le> free_space m + int (length rq) + int (length rsp)
    then \<exists>m'. put_message m h bs = Some m' \<and> grown m h (bs, []) m' else put_message m h bs = None"
proof -
  from free_effect [OF assms] obtain m1 where m1: "zepto_parser_free_memory m h = Some m1" "grown m h ([], []) m1" by blast
  note v1 = grownD [OF m1(2)] and r1 = room_after [OF m1(2) assms]
  have c1: "content m1 h = Some ([], [])" using v1(2) by simp
  show ?thesis
  proof (cases "int (length bs) \<le> free_space m1")
    case True
    with write_block_effect [OF v1(1) c1, of bs] obtain m2 where m2: "zepto_write_block m1 h bs = Some m2" "grown m1 h ([], bs) m2" by auto
    have "content m2 h = Some ([], bs)" using grownD(2) [OF m2(2)] by simp
    from response_to_request_view [OF grownD(1) [OF m2(2)] this] obtain m3 where
      m3: "zepto_response_to_request m2 h = Some m3" "grown m2 h (bs, []) m3" by blast
    have "grown m h (bs, []) m3" using grown_grown [OF grown_grown [OF m1(2) m2(2)] m3(2)] .
    then show ?thesis using True r1 m1(1) m2(1) m3(1) by (simp add: put_message_def)
  next
    case False
    then have "zepto_write_block m1 h bs = None" using write_block_effect [OF v1(1) c1, of bs] by simp
    then show ?thesis using False r1 m1(1) by (simp add: put_message_def)
  qed
qed

lemma ucast_destination: "low_high (ucast (d :: u8)) = [d, 0]"
proof -
  have "\<not> bit d (8 + n)" for n using bit_imp_le_length [of d "8 + n"] by auto
  then show ?thesis by (auto simp: low_high_def intro!: bit_word_eqI simp: bit_simps)
qed

lemma record_call:
  assumes "do_call True h c w = Some (r, w')" "time_master_send_results (time_master w) = []"
    and "heap_inv (heap (comm_layer w))" "content (heap (comm_layer w)) h \<noteq> None"
  shows "exchanged (time_master w) (call_kind c) (report (clock_ticks w) c r) [] (acknowledgement c r) (time_master w')"
proof (cases c)
  case (Receive b)
  with assms(1) obtain ret b0 cl where "internal_try_get_message_within_master (comm_layer w) h = Some (ret, b0, cl)"
    by (auto simp: debug_internal_try_get_message_within_master_def bind_eq_Some_conv)
  moreover define bus where "bus = (case b0 of None \<Rightarrow> b | Some v \<Rightarrow> v)"
  ultimately obtain l bs where g: "register_incoming_packet_at_comm_stack (heap cl) h bus ret (time_master w) = Some l"
    "response_of (heap cl) h = Some bs" "r = Got ret bus bs" "time_master w' = l"
    using assms(1) Receive by (auto simp: debug_internal_try_get_message_within_master_def bind_eq_Some_conv Let_def)
  from register_incoming_result [OF g(1) assms(2)] g(2) show ?thesis by (auto simp: Receive g(3,4))
next
  case (Send bs bus d)
  obtain rq rsp where view: "content (heap (comm_layer w)) h = Some (rq, rsp)" using assms(4) by auto
  from assms(1) obtain m l where put: "put_message (heap (comm_layer w)) h bs = Some m"
    and reg: "register_outgoing_packet m h bus (ucast d) (time_master w) = Some l" and w': "time_master w' = l"
    by (auto simp: Send debug_send_within_master_def bind_eq_Some_conv)
  from put_message_effect [OF assms(3) view, of bs] put have "grown (heap (comm_layer w)) h (bs, []) m" by (auto split: if_splits)
  from grownD [OF this] have "heap_inv m" "content m h = Some (bs, [])" by simp_all
  from register_outgoing_result(1) [OF reg assms(2) this] show ?thesis by (simp add: Send w' ucast_destination)
next
  case (Wait wfor)
  then show ?thesis using assms(1,2) register_wait_result
    by (auto simp: debug_internal_wait_for_communication_event_def bind_eq_Some_conv)
next
  case (Get_time point name line)
  then show ?thesis using assms(1,2) register_time_result
    by (cases "clock_ticks w") (auto simp: debug_hal_get_time_def bind_eq_Some_conv Let_def)
qed

section \<open>Replaying one call\<close>

text \<open>
  The state of the replaying build: the handle has room for 200 bytes, the link to the time master
  works, and what comes from it is answers.
\<close>

definition replaying :: "nat \<Rightarrow> debug_world \<Rightarrow> bool" where
  "replaying h v \<longleftrightarrow> heap_inv (heap (comm_layer v)) \<and>
     (\<exists>rq rsp. content (heap (comm_layer v)) h = Some (rq, rsp) \<and>
       200 \<le> free_space (heap (comm_layer v)) + int (length rq) + int (length rsp)) \<and>
     time_master_send_results (time_master v) = [] \<and> quiet (from_time_master (time_master v))"

text \<open>An exchange that is still to come: the answer is the next packet of the time master.\<close>

definition answer_comes :: "debug_link \<Rightarrow> u8 \<Rightarrow> u8 list \<Rightarrow> u8 list \<Rightarrow> u8 list \<Rightarrow> bool" where
  "answer_comes l type status ans rest \<longleftrightarrow> time_master_send_results l = [] \<and> quiet (from_time_master l) \<and>
     status_ok False status \<and> stream_of (from_time_master l) = debug_frame (debug_packet status type ans) @ rest"

definition answer_taken :: "debug_link \<Rightarrow> u8 \<Rightarrow> u8 list \<Rightarrow> u8 list \<Rightarrow> debug_link \<Rightarrow> bool" where
  "answer_taken l type asked rest l' \<longleftrightarrow> to_time_master l' = to_time_master l @ pieces (debug_packet [] type asked) \<and>
     time_master_send_results l' = [] \<and> quiet (from_time_master l') \<and> stream_of (from_time_master l') = rest"

lemma replay_exchange:
  assumes "answer_comes l type status ans rest" "length bs + 5 \<le> n" "length bs < 60000"
    "bs \<noteq> [] \<longrightarrow> data = Some (map Some bs @ xs)" "6 + length ans \<le> n" "6 + length ans \<le> 206"
  obtains l' ys where "debug_exchange False l n type data (u16_of (int (length bs))) 206 =
      Some (5 + length status, u16_of (int (length ans)), map Some (debug_packet status type ans) @ ys, l')"
    "answer_taken l type bs rest l'"
proof -
  have st: "time_master_send_results l = []" "quiet (from_time_master l)" "status_ok False status"
    "stream_of (from_time_master l) = debug_frame (debug_packet status type ans) @ rest" "length status = 1"
    using assms(1) by (auto simp: answer_comes_def status_ok_def)
  obtain l' ys where "debug_exchange False l n type data (u16_of (int (length bs))) 206 =
      Some (5 + length status, u16_of (int (length ans)), map Some (debug_packet status type ans) @ ys, l')"
    "exchanged l type bs status ans l'" "stream_of (from_time_master l') = rest" "quiet (from_time_master l')"
    by (rule exchange_defined [OF assms(2-4) st(1,2,4,3), of 206]) (use assms(5,6) st(5) in simp_all)
  then show thesis using that by (simp add: exchanged_def answer_taken_def)
qed

lemma replay_sizes: "OUTGOING_DEBUG_PACKET_HEADER_SIZE + DEBUG_MAX_PACKET_SIZE + 1 = 206"
  "INCOMING_DEBUG_PACKET_HEADER_SIZE False + DEBUG_MAX_PACKET_SIZE = 206" "(0 :: u16) = u16_of (int (length ([] :: u8 list)))"
  by (simp_all add: debug_sizes u16_of_def)

lemma request_wait_effect:
  assumes "answer_comes l TIME_RECORD_REGISTER_WAIT_RET_VALUE status [ret] rest"
  obtains l' where "request_wait_request_ret_val l = Some (ret, l')" "answer_taken l TIME_RECORD_REGISTER_WAIT_RET_VALUE [] rest l'"
proof -
  obtain l' ys where ex: "debug_exchange False l 206 TIME_RECORD_REGISTER_WAIT_RET_VALUE None (u16_of (int (length ([] :: u8 list)))) 206 =
      Some (5 + length status, u16_of (int (length [ret])), map Some (debug_packet status TIME_RECORD_REGISTER_WAIT_RET_VALUE [ret]) @ ys, l')"
    "answer_taken l TIME_RECORD_REGISTER_WAIT_RET_VALUE [] rest l'"
    by (rule replay_exchange [OF assms, of "[]" 206]) simp_all
  have "byte_at (map Some (debug_packet status TIME_RECORD_REGISTER_WAIT_RET_VALUE [ret]) @ ys) (5 + length status) = Some ret"
    using answer_byte [of 0 "[ret]"] by simp
  moreover have "u16_of (int (length [ret])) = 1" by (simp add: u16_of_def)
  ultimately show thesis using that ex
    by (simp only: request_wait_request_ret_val_def replay_sizes) simp
qed

lemma request_time_effect:
  assumes "answer_comes l TIME_RECORD_REGISTER_TIME_VALUE status (time_to_packet point t) rest"
  obtains l' where "request_time_val point l = Some (t, l')" "answer_taken l TIME_RECORD_REGISTER_TIME_VALUE [] rest l'"
proof -
  obtain l' ys where ex: "debug_exchange False l 206 TIME_RECORD_REGISTER_TIME_VALUE None (u16_of (int (length ([] :: u8 list)))) 206 =
      Some (5 + length status, u16_of (int (length (time_to_packet point t))),
        map Some (debug_packet status TIME_RECORD_REGISTER_TIME_VALUE (time_to_packet point t)) @ ys, l')"
    "answer_taken l TIME_RECORD_REGISTER_TIME_VALUE [] rest l'"
    by (rule replay_exchange [OF assms, of "[]" 206]) simp_all
  have "time_from_packet (map Some (debug_packet status TIME_RECORD_REGISTER_TIME_VALUE (time_to_packet point t)) @ ys) (5 + length status) point = Some t"
    using time_in_answer by simp
  moreover have "unat (u16_of (int (length (time_to_packet point t)))) = sizeof_sa_time_val + 1"
    using unat_u16_length [of "time_to_packet point t"] by (simp add: sizeof_sa_time_val_def)
  ultimately show thesis using that ex
    by (simp only: request_time_val_def replay_sizes) simp
qed

lemma request_outgoing_effect:
  assumes "answer_comes l TIME_RECORD_REGISTER_OUTGOING_PACKET status [b] rest" "heap_inv m" "content m h = Some (rq, rsp)" "length rq \<le> 200"
  obtains l' where "request_outgoing_packet m h d bus l = Some l'"
    "answer_taken l TIME_RECORD_REGISTER_OUTGOING_PACKET (low_high d @ low_high bus @ rq) rest l'"
proof -
  let ?bs = "low_high d @ low_high bus @ rq"
  from outgoing_data_effect [OF assms(2,3), of d bus] assms(4) obtain xs where
    o: "outgoing_data m h d bus = Some (map Some ?bs @ xs, u16_of (int (length ?bs)))" by auto
  have len: "length ?bs + 5 \<le> 210" "length ?bs < 60000" using assms(4) by (simp_all add: low_high_def)
  obtain l' ys where ex: "debug_exchange False l 210 TIME_RECORD_REGISTER_OUTGOING_PACKET (Some (map Some ?bs @ xs)) (u16_of (int (length ?bs))) 206 =
      Some (5 + length status, u16_of (int (length [b])), map Some (debug_packet status TIME_RECORD_REGISTER_OUTGOING_PACKET [b]) @ ys, l')"
    "answer_taken l TIME_RECORD_REGISTER_OUTGOING_PACKET ?bs rest l'"
    by (rule replay_exchange [OF assms(1) len impI [OF refl]]) simp_all
  have sizes: "OUTGOING_DEBUG_PACKET_HEADER_SIZE + DEBUG_MAX_PACKET_SIZE + 1 = 206"
    "INCOMING_DEBUG_PACKET_HEADER_SIZE False + DEBUG_MAX_PACKET_SIZE + 4 = 210" by (simp_all add: debug_sizes)
  have "u16_of (int (length [b])) = 1" by (simp add: u16_of_def)
  with ex that show thesis unfolding request_outgoing_packet_def o sizes by simp
qed

lemma request_incoming_effect:
  assumes "answer_comes l TIME_RECORD_REGISTER_INCOMING_PACKET_AT_COMM_STACK status (ret # low_high bus @ bs) rest"
    and "heap_inv m" "content m h = Some (rq, rsp)" "int (length bs) \<le> free_space m + int (length rq) + int (length rsp)" "length bs \<le> 197"
  obtains l' m' where "request_incoming_packet_at_comm_stack m h l = Some (ret, bus, m', l')" "grown m h ([], bs) m'"
    "answer_taken l TIME_RECORD_REGISTER_INCOMING_PACKET_AT_COMM_STACK [] rest l'"
proof -
  let ?k = TIME_RECORD_REGISTER_INCOMING_PACKET_AT_COMM_STACK and ?ans = "ret # low_high bus @ bs"
  obtain l' ys where ex: "debug_exchange False l 206 ?k None (u16_of (int (length ([] :: u8 list)))) 206 =
      Some (5 + length status, u16_of (int (length ?ans)), map Some (debug_packet status ?k ?ans) @ ys, l')" "answer_taken l ?k [] rest l'"
    by (rule replay_exchange [OF assms(1), of "[]" 206]) (use assms(5) in \<open>simp_all add: low_high_def\<close>)
  from free_effect [OF assms(2,3)] obtain m1 where m1: "zepto_parser_free_memory m h = Some m1" "grown m h ([], []) m1" by blast
  have "content m1 h = Some ([], [])" using grownD(2) [OF m1(2)] by simp
  from write_block_effect [OF grownD(1) [OF m1(2)] this, of bs] room_after [OF m1(2) assms(2,3)] assms(4) obtain m2 where
    m2: "zepto_write_block m1 h bs = Some m2" "grown m1 h ([], bs) m2" by auto
  have len: "length ?ans = 3 + length bs" "3 + length bs < 65536" using assms(5) by (simp_all add: low_high_def)
  have "u16_of (int (3 + length bs)) - 3 = u16_of (int (length bs))" by (simp add: u16_of_def)
  then have sz: "unat (u16_of (int (length ?ans)) - 3) = length ?ans - 3" "0 < u16_of (int (length ?ans))"
    unfolding len(1) using unat_u16_length [of bs] unat_u16_length [of ?ans] len
    by (simp_all add: word_less_nat_alt)
  have byte: "byte_at (map Some (debug_packet status ?k ?ans) @ ys) (5 + length status + i) = Some (?ans ! i)" if "i < length ?ans" for i
    using that answer_byte [OF _ refl] by blast
  have load: "load_at (map Some (debug_packet status ?k ?ans) @ ys) (5 + length status + 3) (length ?ans - 3) = Some bs"
    using answer_bytes [of 3 ?ans status ?k ys] by (simp add: low_high_def)
  have parts: "?ans ! 0 = ret" "?ans ! 1 = ucast bus" "?ans ! 2 = ucast (drop_bit 8 bus)" by (simp_all add: low_high_def)
  have bytes: "byte_at (map Some (debug_packet status ?k ?ans) @ ys) (5 + length status) = Some ret"
    "byte_at (map Some (debug_packet status ?k ?ans) @ ys) (5 + length status + 1) = Some (ucast bus)"
    "byte_at (map Some (debug_packet status ?k ?ans) @ ys) (5 + length status + 2) = Some (ucast (drop_bit 8 bus))"
    using byte [of 0] byte [of 1] byte [of 2] unfolding parts by (simp_all add: low_high_def)
  have "request_incoming_packet_at_comm_stack m h l = Some (ret, bus, m2, l')"
    unfolding request_incoming_packet_at_comm_stack_def replay_sizes ex(1)
    by (simp only: bind.bind_lunit option.case prod.case assert_bind sz(1) sz(2) [unfolded replay_sizes(3)] m1(1) load m2(1) bytes join_bytes_u16)
  then show thesis using that grown_grown [OF m1(2) m2(2)] ex(2) by blast
qed

end
