(* ===== verification/Replay_Rules.thy ===== *)
theory Replay_Rules
  imports Record_Replay
begin

text \<open>
  Replaying a whole program from its record, and recording without a change of what is recorded.
\<close>

section \<open>Replaying a program\<close>

text \<open>Packets that fit the buffers of the replaying build, and no failed sending.\<close>

fun replayable :: "debug_call \<Rightarrow> debug_result \<Rightarrow> bool" where
  "replayable (Receive _) (Got _ _ bs) = (length bs \<le> 197)"
| "replayable (Send bs _ _) r = (length bs \<le> 200 \<and> r = Sent COMMLAYER_RET_OK)"
| "replayable _ _ = True"

definition questions :: "(debug_call \<times> debug_result) list \<Rightarrow> u8 list list" where
  "questions tr = concat (map (\<lambda>(c, r). pieces (debug_packet [] (call_kind c) (question c))) tr)"

definition answers :: "u8 list \<Rightarrow> (debug_call \<times> debug_result) list \<Rightarrow> u8 list" where
  "answers status tr = concat (map (\<lambda>(c, r). debug_frame (debug_packet status (call_kind c) (recorded c r))) tr)"

text \<open>Only the heap of the communication layer changes.\<close>

definition replay_step :: "nat \<Rightarrow> debug_world \<Rightarrow> u8 list \<Rightarrow> u8 list list \<Rightarrow> debug_world \<Rightarrow> bool" where
  "replay_step h v rest qs v' \<longleftrightarrow> replaying h v' \<and> stream_of (from_time_master (time_master v')) = rest \<and>
     to_time_master (time_master v') = to_time_master (time_master v) @ qs \<and>
     comm_layer v' = (comm_layer v)\<lparr>heap := heap (comm_layer v')\<rparr>"

lemma replaying_heap:
  assumes "replaying h v" "grown (heap (comm_layer v)) h c (heap (comm_layer v'))"
    "answer_taken (time_master v) type asked rest (time_master v')"
  shows "replaying h v'"
proof -
  obtain rq rsp where v: "heap_inv (heap (comm_layer v))" "content (heap (comm_layer v)) h = Some (rq, rsp)"
    "200 \<le> free_space (heap (comm_layer v)) + int (length rq) + int (length rsp)" using assms(1) by (auto simp: replaying_def)
  obtain a b where c: "c = (a, b)" by fastforce
  note g = grownD [OF assms(2)]
  show ?thesis using g v room_after [OF assms(2) [unfolded c] v(1,2)] assms(3)
    by (auto simp: replaying_def c answer_taken_def)
qed

lemma call_points_kept:
  "debug_internal_try_get_message_within_master True w h b = Some (ret, bus, w') \<Longrightarrow> gettime_call_points w' = gettime_call_points w"
  "debug_send_within_master True w h bus d = Some (ret, w') \<Longrightarrow> gettime_call_points w' = gettime_call_points w"
  "debug_internal_wait_for_communication_event True w wfor = Some (ret, w') \<Longrightarrow> gettime_call_points w' = gettime_call_points w"
  by (auto simp: debug_internal_try_get_message_within_master_def debug_send_within_master_def Let_def
      debug_internal_wait_for_communication_event_def split: Option.bind_splits)

lemma response_of_effect:
  assumes "heap_inv m" "content m h = Some (rq, rsp)"
  shows "response_of m h = Some rsp"
proof -
  obtain p where "memory_object_get_response_ptr m h = Some p" "memory_object_get_response_size m h = Some (int (length rsp))"
    "mem_load BASE_MEM_BLOCK_SIZE (BASE_MEM_BLOCK m) p (int (length rsp)) = Some rsp" by (rule load_response [OF assms])
  then show ?thesis by (simp add: response_of_def)
qed

lemma call_replayed:
  assumes "do_call True h c w = Some (r, w')" "replayable c r" "replaying h v"
    and "gettime_call_points v = gettime_call_points w" "status_ok False status"
    and "stream_of (from_time_master (time_master v)) = debug_frame (debug_packet status (call_kind c) (recorded c r)) @ rest"
  shows "\<exists>v'. do_call False h c v = Some (r, v') \<and> gettime_call_points v' = gettime_call_points w' \<and>
    replay_step h v rest (pieces (debug_packet [] (call_kind c) (question c))) v'"
proof -
  have comes: "answer_comes (time_master v) (call_kind c) status (recorded c r) rest"
    using assms(3,5,6) by (auto simp: answer_comes_def replaying_def)
  obtain rq rsp where v: "heap_inv (heap (comm_layer v))" "content (heap (comm_layer v)) h = Some (rq, rsp)"
    "200 \<le> free_space (heap (comm_layer v)) + int (length rq) + int (length rsp)" using assms(3) by (auto simp: replaying_def)
  show ?thesis
  proof (cases c)
    case (Receive b)
    obtain ret bus w1 where run: "debug_internal_try_get_message_within_master True w h b = Some (ret, bus, w1)"
      using assms(1) by (cases "debug_internal_try_get_message_within_master True w h b") (auto simp: Receive)
    obtain bs where r: "r = Got ret bus bs" and "w' = w1" using assms(1) by (auto simp: Receive run bind_eq_Some_conv)
    with call_points_kept(1) [OF run] have pts: "gettime_call_points w' = gettime_call_points w" by simp
    have len: "length bs \<le> 197" using assms(2) by (simp add: Receive r)
    have room: "int (length bs) \<le> free_space (heap (comm_layer v)) + int (length rq) + int (length rsp)" using v(3) len by linarith
    obtain l m where run: "request_incoming_packet_at_comm_stack (heap (comm_layer v)) h (time_master v) = Some (ret, bus, m, l)"
      "grown (heap (comm_layer v)) h ([], bs) m" "answer_taken (time_master v) (call_kind c) [] rest l"
      using request_incoming_effect [OF _ v(1,2) room len] comes by (simp add: Receive r) blast
    let ?v = "v\<lparr>comm_layer := (comm_layer v)\<lparr>heap := m\<rparr>, time_master := l\<rparr>"
    have "response_of m h = Some bs" using response_of_effect [of m h "[]" bs] grownD [OF run(2)] by simp
    then have "do_call False h c v = Some (r, ?v)"
      using run(1) by (simp add: Receive r debug_internal_try_get_message_within_master_def)
    moreover have "replaying h ?v" using replaying_heap [OF assms(3), of _ ?v] run(2,3) by simp
    ultimately show ?thesis using run(3) pts assms(4) by (auto simp: replay_step_def answer_taken_def Receive)
  next
    case (Send bs bus d)
    have r: "r = Sent COMMLAYER_RET_OK" "length bs \<le> 200" using assms(2) by (simp_all add: Send)
    from assms(1) obtain m0 where "debug_send_within_master True (w\<lparr>comm_layer := (comm_layer w)\<lparr>heap := m0\<rparr>\<rparr>) h bus d = Some (COMMLAYER_RET_OK, w')"
      by (auto simp: Send r bind_eq_Some_conv)
    from call_points_kept(2) [OF this] have pts: "gettime_call_points w' = gettime_call_points w" by simp
    have room: "int (length bs) \<le> free_space (heap (comm_layer v)) + int (length rq) + int (length rsp)" using v(3) r(2) by linarith
    from put_message_effect [OF v(1,2), of bs] room obtain m where
      m: "put_message (heap (comm_layer v)) h bs = Some m" "grown (heap (comm_layer v)) h (bs, []) m" by auto
    have mv: "heap_inv m" "content m h = Some (bs, [])" using grownD [OF m(2)] by simp_all
    obtain l where run: "request_outgoing_packet m h bus (ucast d) (time_master v) = Some l"
      "answer_taken (time_master v) (call_kind c) (question c) rest l"
      using request_outgoing_effect [OF _ mv r(2), of "time_master v" status COMMLAYER_RET_OK rest bus "ucast d"] comes
      by (auto simp: Send r ucast_destination)
    let ?v = "v\<lparr>comm_layer := (comm_layer v)\<lparr>heap := m\<rparr>, time_master := l\<rparr>"
    have "do_call False h c v = Some (r, ?v)" using m(1) run(1) by (simp add: Send r debug_send_within_master_def)
    moreover have "replaying h ?v" using replaying_heap [OF assms(3), of _ ?v] m(2) run(2) by simp
    ultimately show ?thesis using run(2) pts assms(4) by (auto simp: replay_step_def answer_taken_def)
  next
    case (Wait wfor)
    from assms(1) obtain ret where run: "debug_internal_wait_for_communication_event True w wfor = Some (ret, w')"
      and r: "r = Waited ret" by (auto simp: Wait bind_eq_Some_conv)
    note pts = call_points_kept(3) [OF run]
    obtain l where run: "request_wait_request_ret_val (time_master v) = Some (ret, l)" "answer_taken (time_master v) (call_kind c) [] rest l"
      using request_wait_effect comes by (simp add: Wait r) blast
    let ?v = "v\<lparr>time_master := l\<rparr>"
    have "do_call False h c v = Some (r, ?v)" using run(1) by (simp add: Wait r debug_internal_wait_for_communication_event_def)
    moreover have "replaying h ?v" using assms(3) run(2) by (auto simp: replaying_def answer_taken_def)
    ultimately show ?thesis using run(2) pts assms(4) by (auto simp: replay_step_def answer_taken_def Wait)
  next
    case (Get_time point name line)
    with assms(1) obtain t where r: "r = Time t"
      and pts: "check_get_time_call_point (gettime_call_points w) point name line = Some (gettime_call_points w')"
      by (cases "clock_ticks w") (auto simp: debug_hal_get_time_def bind_eq_Some_conv Let_def)
    obtain l where run: "request_time_val point (time_master v) = Some (t, l)" "answer_taken (time_master v) (call_kind c) [] rest l"
      using request_time_effect comes by (simp add: Get_time r) blast
    let ?v = "v\<lparr>gettime_call_points := gettime_call_points w', time_master := l\<rparr>"
    have "do_call False h c v = Some (r, ?v)" using run(1) pts assms(4) by (simp add: Get_time r debug_hal_get_time_def Let_def)
    moreover have "replaying h ?v" using assms(3) run(2) by (auto simp: replaying_def answer_taken_def)
    ultimately show ?thesis using run(2) pts assms(4) by (auto simp: replay_step_def answer_taken_def Get_time)
  qed
qed

lemma replay_step_trans:
  assumes "replay_step h v rest1 qs1 v1" "replay_step h v1 rest qs2 v2"
  shows "replay_step h v rest (qs1 @ qs2) v2"
  using assms by (auto simp: replay_step_def) (metis comm.update_convs(1) comm.surjective)

lemma run_replayed:
  assumes "run_client True h p w = Some (tr, w')" "\<forall>(c, r) \<in> set tr. replayable c r" "replaying h v"
    and "gettime_call_points v = gettime_call_points w" "status_ok False status"
    and "stream_of (from_time_master (time_master v)) = answers status tr @ rest"
  shows "\<exists>v'. run_client False h p v = Some (tr, v') \<and> replay_step h v rest (questions tr) v'"
  using assms
proof (induction p arbitrary: w tr v)
  case Done
  then show ?case by (auto simp: replay_step_def questions_def answers_def)
next
  case (Call c k)
  from Call.prems(1) obtain r w1 tr1 where one: "do_call True h c w = Some (r, w1)"
    and more: "run_client True h (k r) w1 = Some (tr1, w')" and tr: "tr = (c, r) # tr1" by (auto simp: bind_eq_Some_conv)
  have ok: "replayable c r" "\<forall>(c, r) \<in> set tr1. replayable c r" using Call.prems(2) by (auto simp: tr)
  have str: "stream_of (from_time_master (time_master v)) =
      debug_frame (debug_packet status (call_kind c) (recorded c r)) @ answers status tr1 @ rest"
    using Call.prems(6) by (simp add: tr answers_def)
  from call_replayed [OF one ok(1) Call.prems(3-5) str] obtain v1 where v1: "do_call False h c v = Some (r, v1)"
    "gettime_call_points v1 = gettime_call_points w1"
    "replay_step h v (answers status tr1 @ rest) (pieces (debug_packet [] (call_kind c) (question c))) v1" by blast
  have "replaying h v1" "stream_of (from_time_master (time_master v1)) = answers status tr1 @ rest"
    using v1(3) by (simp_all add: replay_step_def)
  from Call.IH [OF _ more ok(2) this(1) v1(2) Call.prems(5) this(2)] obtain v2 where
    "run_client False h (k r) v1 = Some (tr1, v2)" "replay_step h v1 rest (questions tr1) v2" by blast
  then show ?case using v1(1) replay_step_trans [OF v1(3)] by (auto simp: tr questions_def)
qed

section \<open>The calls without the time master\<close>

fun plain_call :: "nat \<Rightarrow> debug_call \<Rightarrow> debug_world \<Rightarrow> (debug_result \<times> comm) option" where
  "plain_call h (Receive bus_id) w = do {
     (ret, b, c) \<leftarrow> internal_try_get_message_within_master (comm_layer w) h;
     bs \<leftarrow> response_of (heap c) h;
     Some (Got ret (case b of None \<Rightarrow> bus_id | Some v \<Rightarrow> v) bs, c)
   }"
| "plain_call h (Send bs bus_id destination) w = do {
     m \<leftarrow> put_message (heap (comm_layer w)) h bs;
     (ret, c) \<leftarrow> send_within_master ((comm_layer w)\<lparr>heap := m\<rparr>) h bus_id destination;
     Some (Sent ret, c)
   }"
| "plain_call h (Wait wfor) w = do {
     (ret, c) \<leftarrow> internal_wait_for_communication_event (comm_layer w) wfor;
     Some (Waited ret, c)
   }"
| "plain_call h (Get_time point file line) w = (case clock_ticks w of
     [] \<Rightarrow> None | t # ts \<Rightarrow> Some (Time (sa_get_time t), comm_layer w))"

text \<open>What fits the buffers of the recording build; a reading of the time also has to pass the check of its place.\<close>

fun recordable :: "debug_world \<Rightarrow> debug_call \<Rightarrow> debug_result \<Rightarrow> bool" where
  "recordable w (Receive _) (Got _ _ bs) = (length bs \<le> 200)"
| "recordable w (Send bs _ _) _ = (length bs \<le> 200)"
| "recordable w (Get_time point file line) _ = (check_get_time_call_point (gettime_call_points w) point file line \<noteq> None)"
| "recordable w _ _ = True"

definition acknowledged :: "debug_link \<Rightarrow> u8 \<Rightarrow> u8 list \<Rightarrow> u8 list \<Rightarrow> bool" where
  "acknowledged l type ans rest \<longleftrightarrow> time_master_send_results l = [] \<and> quiet (from_time_master l) \<and>
     stream_of (from_time_master l) = debug_frame (debug_packet [] type ans) @ rest"

lemma record_exchange:
  assumes "acknowledged l type ans rest" "length bs + 5 \<le> n" "length bs < 60000" "bs \<noteq> [] \<longrightarrow> data = Some (map Some bs @ xs)"
    "5 + length ans \<le> n" "5 + length ans \<le> mx" "mx < 60000"
  obtains l' ys where "debug_exchange True l n type data (u16_of (int (length bs))) mx =
      Some (5, u16_of (int (length ans)), map Some (debug_packet [] type ans) @ ys, l')" "answer_taken l type bs rest l'"
proof -
  have st: "time_master_send_results l = []" "quiet (from_time_master l)" "status_ok True []"
    "stream_of (from_time_master l) = debug_frame (debug_packet [] type ans) @ rest"
    using assms(1) by (auto simp: acknowledged_def status_ok_def)
  obtain l' ys where "debug_exchange True l n type data (u16_of (int (length bs))) mx =
      Some (5 + length [], u16_of (int (length ans)), map Some (debug_packet [] type ans) @ ys, l')"
    "exchanged l type bs [] ans l'" "stream_of (from_time_master l') = rest" "quiet (from_time_master l')"
    by (rule exchange_defined [OF assms(2-4) st(1,2,4,3), of mx]) (use assms(5-7) in simp_all)
  then show thesis using that by (simp add: exchanged_def answer_taken_def)
qed

lemma register_incoming_effect:
  assumes "acknowledged l TIME_RECORD_REGISTER_INCOMING_PACKET_AT_COMM_STACK [] rest" "response_of m h = Some bs" "length bs \<le> 200"
  obtains l' where "register_incoming_packet_at_comm_stack m h bus ret l = Some l'"
    "answer_taken l TIME_RECORD_REGISTER_INCOMING_PACKET_AT_COMM_STACK (ret # low_high bus @ bs) rest l'"
proof -
  let ?k = TIME_RECORD_REGISTER_INCOMING_PACKET_AT_COMM_STACK and ?hd = "[ret, ucast bus, ucast (drop_bit 8 bus)]"
  from assms(2) obtain sz p where load: "memory_object_get_response_size m h = Some sz" "memory_object_get_response_ptr m h = Some p"
    "mem_load BASE_MEM_BLOCK_SIZE (BASE_MEM_BLOCK m) p sz = Some bs" by (auto simp: response_of_def bind_eq_Some_conv)
  have st: "store_at (new_array 203) 0 ?hd = Some (map Some ?hd @ drop 3 (new_array 203))" by (simp add: store_at_def eval_nat_numeral)
  have st2: "store_at (map Some ?hd @ drop 3 (new_array 203)) 3 bs = Some (map Some (?hd @ bs) @ drop (length bs) (drop 3 (new_array 203)))"
    by (rule store_next) (use assms(3) in simp_all)
  have sz: "sz + 3 = int (length (?hd @ bs))" using mem_load_length [OF load(3)] by simp
  have n: "length (?hd @ bs) + 5 \<le> 208" "length (?hd @ bs) < 60000" using assms(3) by simp_all
  obtain l' ys where ex: "debug_exchange True l 208 ?k (Some (map Some (?hd @ bs) @ drop (length bs) (drop 3 (new_array 203))))
      (u16_of (int (length (?hd @ bs)))) 205 = Some (5, u16_of (int (length ([] :: u8 list))), map Some (debug_packet [] ?k []) @ ys, l')"
    "answer_taken l ?k (?hd @ bs) rest l'"
    by (rule record_exchange [OF assms(1) n impI [OF refl], of 205]) simp_all
  have sizes: "DEBUG_MAX_PACKET_SIZE + 3 = 203" "OUTGOING_DEBUG_PACKET_HEADER_SIZE + DEBUG_MAX_PACKET_SIZE = 205"
    "205 + 3 = (208 :: nat)" by (simp_all add: debug_sizes)
  have "register_incoming_packet_at_comm_stack m h bus ret l = Some l'"
    unfolding register_incoming_packet_at_comm_stack_def load sizes
    by (simp only: bind.bind_lunit load st st2 sz ex(1) prod.case) (simp add: u16_of_def)
  with that ex(2) show thesis by (simp add: low_high_def)
qed

lemma register_outgoing_effect:
  assumes "acknowledged l TIME_RECORD_REGISTER_OUTGOING_PACKET [] rest" "heap_inv m" "content m h = Some (rq, rsp)" "length rq \<le> 200"
  obtains l' where "register_outgoing_packet m h d b l = Some l'"
    "answer_taken l TIME_RECORD_REGISTER_OUTGOING_PACKET (low_high d @ low_high b @ rq) rest l'"
proof -
  let ?bs = "low_high d @ low_high b @ rq"
  from outgoing_data_effect [OF assms(2,3), of d b] assms(4) obtain xs where
    o: "outgoing_data m h d b = Some (map Some ?bs @ xs, u16_of (int (length ?bs)))" by auto
  have n: "length ?bs + 5 \<le> 209" "length ?bs < 60000" using assms(4) by (simp_all add: low_high_def)
  obtain l' ys where ex: "debug_exchange True l 209 TIME_RECORD_REGISTER_OUTGOING_PACKET (Some (map Some ?bs @ xs)) (u16_of (int (length ?bs))) 205 =
      Some (5, u16_of (int (length ([] :: u8 list))), map Some (debug_packet [] TIME_RECORD_REGISTER_OUTGOING_PACKET []) @ ys, l')"
    "answer_taken l TIME_RECORD_REGISTER_OUTGOING_PACKET ?bs rest l'"
    by (rule record_exchange [OF assms(1) n impI [OF refl], of 205]) simp_all
  have sizes: "OUTGOING_DEBUG_PACKET_HEADER_SIZE + DEBUG_MAX_PACKET_SIZE = 205"
    "OUTGOING_DEBUG_PACKET_HEADER_SIZE + DEBUG_MAX_PACKET_SIZE + 4 = 209" by (simp_all add: debug_sizes)
  show thesis by (rule that [OF _ ex(2)]) (use ex(1) in \<open>simp add: register_outgoing_packet_def o sizes u16_of_def\<close>)
qed

lemma register_wait_effect:
  assumes "acknowledged l TIME_RECORD_REGISTER_WAIT_RET_VALUE [ret] rest"
  obtains l' where "register_wait_request_ret_val ret l = Some l'" "answer_taken l TIME_RECORD_REGISTER_WAIT_RET_VALUE [ret] rest l'"
proof -
  obtain l' ys where ex: "debug_exchange True l 6 TIME_RECORD_REGISTER_WAIT_RET_VALUE (Some [Some ret]) (u16_of (int (length [ret]))) 206 =
      Some (5, u16_of (int (length [ret])), map Some (debug_packet [] TIME_RECORD_REGISTER_WAIT_RET_VALUE [ret]) @ ys, l')"
    "answer_taken l TIME_RECORD_REGISTER_WAIT_RET_VALUE [ret] rest l'"
    by (rule record_exchange [OF assms, of "[ret]" 6 "Some [Some ret]" "[]" 206]) simp_all
  have one: "u16_of (int (length [ret])) = 1" by (simp add: u16_of_def)
  have "byte_at (map Some (debug_packet [] TIME_RECORD_REGISTER_WAIT_RET_VALUE [ret]) @ ys) 5 = Some ret"
    using answer_byte [of 0 "[ret]" 5 "[]"] by simp
  moreover have sizes: "OUTGOING_DEBUG_PACKET_HEADER_SIZE + DEBUG_MAX_PACKET_SIZE + 1 = 206" "OUTGOING_DEBUG_PACKET_HEADER_SIZE + 1 = 6"
    by (simp_all add: debug_sizes)
  ultimately have "register_wait_request_ret_val ret l = Some l'"
    using ex(1) unfolding one register_wait_request_ret_val_def sizes by simp
  with that ex(2) show thesis by blast
qed

lemma register_time_effect:
  assumes "acknowledged l TIME_RECORD_REGISTER_TIME_VALUE (time_to_packet point t') rest"
  obtains l' where "register_time_val point t l = Some (t', l')" "answer_taken l TIME_RECORD_REGISTER_TIME_VALUE (time_to_packet point t) rest l'"
proof -
  let ?bs = "time_to_packet point t" and ?ans = "time_to_packet point t'"
  have st: "store_at (new_array (sizeof_sa_time_val + 1)) 0 ?bs = Some (map Some ?bs @ [])" by (simp add: store_at_def debug_sizes)
  have len: "(of_nat (sizeof_sa_time_val + 1) :: u16) = u16_of (int (length ?bs))" by (simp add: u16_of_def debug_sizes)
  have n: "length ?bs + 5 \<le> 10" "length ?bs < 60000" by simp_all
  obtain l' ys where ex: "debug_exchange True l 10 TIME_RECORD_REGISTER_TIME_VALUE (Some (map Some ?bs @ [])) (u16_of (int (length ?bs))) 206 =
      Some (5, u16_of (int (length ?ans)), map Some (debug_packet [] TIME_RECORD_REGISTER_TIME_VALUE ?ans) @ ys, l')"
    "answer_taken l TIME_RECORD_REGISTER_TIME_VALUE ?bs rest l'"
    by (rule record_exchange [OF assms n, of "Some (map Some ?bs @ [])" "[]" 206]) simp_all
  have tv: "time_from_packet (map Some (debug_packet [] TIME_RECORD_REGISTER_TIME_VALUE ?ans) @ ys) 5 point = Some t'"
    using time_in_answer [of ?ans "[]" TIME_RECORD_REGISTER_TIME_VALUE ys point t'] by simp
  have sz: "unat (u16_of (int (length ?ans))) = sizeof_sa_time_val + 1"
    using unat_u16_length [of ?ans] by (simp add: sizeof_sa_time_val_def)
  have sizes: "OUTGOING_DEBUG_PACKET_HEADER_SIZE + DEBUG_MAX_PACKET_SIZE + 1 = 206" "OUTGOING_DEBUG_PACKET_HEADER_SIZE + sizeof_sa_time_val + 1 = 10"
    by (simp_all add: debug_sizes)
  have "register_time_val point t l = Some (t', l')"
    unfolding register_time_val_def sizes st len by (simp only: bind.bind_lunit ex(1) prod.case sz assert_bind tv)
  with that ex(2) show thesis by blast
qed

text \<open>The result of the recorded call is that of the call, but the time is the one the time master answers with.\<close>

fun result_of :: "debug_result \<Rightarrow> debug_call \<Rightarrow> debug_result \<Rightarrow> bool" where
  "result_of r0 (Get_time _ _ _) r = (\<exists>t. r = Time t)"
| "result_of r0 _ r = (r = r0)"

definition recorded_step :: "debug_world \<Rightarrow> comm \<Rightarrow> u8 list \<Rightarrow> u8 list list \<Rightarrow> debug_world \<Rightarrow> bool" where
  "recorded_step w c rest qs w' \<longleftrightarrow> comm_layer w' = c \<and> stream_of (from_time_master (time_master w')) = rest \<and>
     quiet (from_time_master (time_master w')) \<and> time_master_send_results (time_master w') = [] \<and>
     to_time_master (time_master w') = to_time_master (time_master w) @ qs"

lemma call_recorded_unchanged:
  assumes "plain_call h c w = Some (r0, cl)" "result_of r0 c r" "recordable w c r0"
    and "heap_inv (heap (comm_layer w))" "content (heap (comm_layer w)) h \<noteq> None"
    and "acknowledged (time_master w) (call_kind c) (acknowledgement c r) rest"
  shows "\<exists>w'. do_call True h c w = Some (r, w') \<and>
    recorded_step w cl rest (pieces (debug_packet [] (call_kind c) (report (clock_ticks w) c r))) w' \<and>
    (case c of Get_time point name line \<Rightarrow>
        check_get_time_call_point (gettime_call_points w) point name line = Some (gettime_call_points w') \<and> clock_ticks w' = tl (clock_ticks w)
      | _ \<Rightarrow> gettime_call_points w' = gettime_call_points w \<and> clock_ticks w' = clock_ticks w)"
proof (cases c)
  case (Receive b)
  obtain ret b0 where run: "internal_try_get_message_within_master (comm_layer w) h = Some (ret, b0, cl)"
    using assms(1) by (cases "internal_try_get_message_within_master (comm_layer w) h") (auto simp: Receive bind_eq_Some_conv)
  define bus where "bus = (case b0 of None \<Rightarrow> b | Some v \<Rightarrow> v)"
  obtain bs where r: "r0 = Got ret bus bs" and resp: "response_of (heap cl) h = Some bs"
    using assms(1) by (auto simp: Receive run bind_eq_Some_conv bus_def)
  have len: "length bs \<le> 200" using assms(3) by (simp add: Receive r)
  have ack: "acknowledged (time_master w) TIME_RECORD_REGISTER_INCOMING_PACKET_AT_COMM_STACK [] rest"
    using assms(2,6) by (simp add: Receive r)
  obtain l where l: "register_incoming_packet_at_comm_stack (heap cl) h bus ret (time_master w) = Some l"
    "answer_taken (time_master w) TIME_RECORD_REGISTER_INCOMING_PACKET_AT_COMM_STACK (ret # low_high bus @ bs) rest l"
    by (rule register_incoming_effect [OF ack resp len])
  have "do_call True h c w = Some (r, w\<lparr>comm_layer := cl, time_master := l\<rparr>)"
    using run l(1) resp assms(2) by (simp add: Receive r debug_internal_try_get_message_within_master_def bus_def Let_def)
  then show ?thesis using l(2) assms(2) by (auto simp: Receive r recorded_step_def answer_taken_def)
next
  case (Send bs bus d)
  obtain rq rsp where view: "content (heap (comm_layer w)) h = Some (rq, rsp)" using assms(5) by auto
  from assms(1) obtain m ret where put: "put_message (heap (comm_layer w)) h bs = Some m" and r: "r0 = Sent ret"
    and run: "send_within_master ((comm_layer w)\<lparr>heap := m\<rparr>) h bus d = Some (ret, cl)"
    by (auto simp: Send bind_eq_Some_conv)
  from put_message_effect [OF assms(4) view, of bs] put have "grown (heap (comm_layer w)) h (bs, []) m" by (auto split: if_splits)
  from grownD [OF this] have m: "heap_inv m" "content m h = Some (bs, [])" by simp_all
  have len: "length bs \<le> 200" using assms(3) by (simp add: Send)
  have ack: "acknowledged (time_master w) TIME_RECORD_REGISTER_OUTGOING_PACKET [] rest" using assms(6) by (simp add: Send)
  obtain l where l: "register_outgoing_packet m h bus (ucast d) (time_master w) = Some l"
    "answer_taken (time_master w) TIME_RECORD_REGISTER_OUTGOING_PACKET (low_high bus @ low_high (ucast d) @ bs) rest l"
    by (rule register_outgoing_effect [OF ack m len])
  have "do_call True h c w = Some (r, w\<lparr>comm_layer := cl, time_master := l\<rparr>)"
    using put run l(1) assms(2) by (simp add: Send r debug_send_within_master_def)
  then show ?thesis using l(2) by (auto simp: Send recorded_step_def answer_taken_def ucast_destination)
next
  case (Wait wfor)
  from assms(1) obtain ret where run: "internal_wait_for_communication_event (comm_layer w) wfor = Some (ret, cl)" and r: "r0 = Waited ret"
    by (auto simp: Wait bind_eq_Some_conv)
  have ack: "acknowledged (time_master w) TIME_RECORD_REGISTER_WAIT_RET_VALUE [ret] rest" using assms(2,6) by (simp add: Wait r)
  obtain l where l: "register_wait_request_ret_val ret (time_master w) = Some l"
    "answer_taken (time_master w) TIME_RECORD_REGISTER_WAIT_RET_VALUE [ret] rest l"
    by (rule register_wait_effect [OF ack])
  have "do_call True h c w = Some (r, w\<lparr>comm_layer := cl, time_master := l\<rparr>)"
    using run l(1) assms(2) by (simp add: Wait r debug_internal_wait_for_communication_event_def)
  then show ?thesis using l(2) assms(2) by (auto simp: Wait r recorded_step_def answer_taken_def)
next
  case (Get_time point name line)
  from assms(1) obtain t ts where ts: "clock_ticks w = t # ts" and cl: "cl = comm_layer w"
    by (cases "clock_ticks w") (auto simp: Get_time)
  from assms(2) obtain tv where r: "r = Time tv" by (auto simp: Get_time)
  from assms(3) obtain pts where pts: "check_get_time_call_point (gettime_call_points w) point name line = Some pts"
    by (auto simp: Get_time)
  have ack: "acknowledged (time_master w) TIME_RECORD_REGISTER_TIME_VALUE (time_to_packet point tv) rest" using assms(6) by (simp add: Get_time r)
  obtain l where l: "register_time_val point (sa_get_time t) (time_master w) = Some (tv, l)"
    "answer_taken (time_master w) TIME_RECORD_REGISTER_TIME_VALUE (time_to_packet point (sa_get_time t)) rest l"
    by (rule register_time_effect [OF ack])
  have "do_call True h c w = Some (r, w\<lparr>gettime_call_points := pts, clock_ticks := ts, time_master := l\<rparr>)"
    using pts ts l(1) by (simp add: Get_time r debug_hal_get_time_def Let_def)
  then show ?thesis using l(2) ts cl pts by (auto simp: Get_time r recorded_step_def answer_taken_def)
qed

section \<open>The places at which the time is read\<close>

lemma same_name_loop_lengths:
  assumes "i \<le> length g" "length g - i < n" "same \<longrightarrow> i \<le> length f" "0 \<notin> set f" "0 \<notin> set g"
  shows "same_name_loop n i same (g @ [0]) (f @ [0]) = (if length f < length g then None else Some (length f = length g))"
  using assms(1-3)
proof (induction n arbitrary: i same)
  case 0
  then show ?case by simp
next
  case (Suc n)
  show ?case
  proof (cases "i = length g")
    case True
    have "f ! length g \<noteq> 0" if "length g < length f" using assms(4) nth_mem [OF that] by metis
    then show ?thesis using True by (auto simp: char_at_def nth_append)
  next
    case False
    then have "i < length g" using Suc.prems(1) by simp
    with assms(5) have i: "i < length g" "g ! i \<noteq> 0" by (auto dest: nth_mem)
    define s1 where "s1 = (same \<and> i < length f \<and> g ! i = f ! i)"
    have "(if same then do { d \<leftarrow> char_at (f @ [0]) i; Some (g ! i = d) } else Some False) = Some s1"
      using Suc.prems(3) i(2) by (auto simp: char_at_def nth_append s1_def)
    moreover have "char_at (g @ [0]) i = Some (g ! i)" using i by (simp add: char_at_def nth_append)
    moreover have "same_name_loop n (Suc i) s1 (g @ [0]) (f @ [0]) = (if length f < length g then None else Some (length f = length g))"
      by (rule Suc.IH) (use i Suc.prems(2) in \<open>auto simp: s1_def\<close>)
    ultimately show ?thesis using i(2) by simp
  qed
qed

end
