(* ===== verification/Replay_Properties.thy ===== *)
theory Replay_Properties
  imports Replay_Rules
begin

text \<open>
  The properties of the build with the time master: debug packets on the link, what is recorded, the
  replay of a record, and where recording and replay differ.
\<close>

section \<open>A sample run\<close>

definition sample_wait :: waiting_for where
  "sample_wait = \<lparr>wait_time_high_t = 0, wait_time_low_t = 1000, wait_packet = 1\<rparr>"

definition sample_net :: comm where
  "sample_net = \<lparr>heap = fresh_heap, incoming = [], buffer_in_with_cl_pos = 0, send_results = [], sent = [],
     select_results = [1], select_timeouts = [], packets = [], sync_packet_id = 0, sync_status = 0\<rparr>"

definition sample_tm_link :: "u8 list \<Rightarrow> debug_link" where
  "sample_tm_link bs = \<lparr>from_time_master = [Would_block, Arrived bs], buffer_in_pos_time_master = 0,
     time_master_send_results = [], to_time_master = []\<rparr>"

definition sample_world :: "u8 list \<Rightarrow> debug_world" where
  "sample_world bs = \<lparr>comm_layer = sample_net, time_master = sample_tm_link bs,
     gettime_call_points = replicate 5 None, clock_ticks = [70000]\<rparr>"

definition sample_time :: sa_time_val where
  "sample_time = \<lparr>low_t = 300, high_t = 2\<rparr>"

definition sample_client :: client where
  "sample_client = Call (Wait sample_wait) (\<lambda>r. if r = Waited COMMLAYER_RET_FROM_CENTRAL_UNIT
     then Call (Get_time 0 [109, 0] 304) (\<lambda>t. Done) else Done)"

definition sample_trace :: "(debug_call \<times> debug_result) list" where
  "sample_trace = [(Wait sample_wait, Waited COMMLAYER_RET_FROM_CENTRAL_UNIT), (Get_time 0 [109, 0] 304, Time sample_time)]"

definition sample_acks :: "u8 list" where
  "sample_acks = debug_frame (debug_packet [] TIME_RECORD_REGISTER_WAIT_RET_VALUE [COMMLAYER_RET_FROM_CENTRAL_UNIT]) @
     debug_frame (debug_packet [] TIME_RECORD_REGISTER_TIME_VALUE (time_to_packet 0 sample_time))"

lemma debug_frame_not_empty [simp]: "debug_frame p \<noteq> []"
  by (simp add: debug_frame_def Let_def)

lemma sample_heap: "heap_inv (heap sample_net)" "content (heap sample_net) 0 = Some ([], [])" "free_space (heap sample_net) = 4092"
  using fresh_heap by (simp_all add: sample_net_def)

lemma sample_plain:
  "plain_call h (Wait sample_wait) (sample_world bs) =
    Some (Waited COMMLAYER_RET_FROM_CENTRAL_UNIT, sample_net\<lparr>select_results := [], select_timeouts := [(1, 0)]\<rparr>)"
  by (simp add: sample_world_def sample_net_def sample_wait_def internal_wait_for_communication_event_def Let_def)

lemma sample_run: "\<exists>w'. run_client True 0 sample_client (sample_world sample_acks) = Some (sample_trace, w')"
proof -
  let ?w = "sample_world sample_acks"
  have w: "comm_layer ?w = sample_net" "stream_of (from_time_master (time_master ?w)) = sample_acks"
    "quiet (from_time_master (time_master ?w))" "time_master_send_results (time_master ?w) = []"
    "gettime_call_points ?w = replicate 5 None" "clock_ticks ?w = [70000]"
    by (simp_all add: sample_world_def sample_tm_link_def sample_acks_def)
  let ?rest = "debug_frame (debug_packet [] TIME_RECORD_REGISTER_TIME_VALUE (time_to_packet 0 sample_time))"
  have "acknowledged (time_master ?w) (call_kind (Wait sample_wait))
      (acknowledgement (Wait sample_wait) (Waited COMMLAYER_RET_FROM_CENTRAL_UNIT)) ?rest"
    using w by (simp add: acknowledged_def sample_acks_def)
  from call_recorded_unchanged [OF sample_plain _ _ _ _ this] sample_heap w obtain w1 where
    1: "do_call True 0 (Wait sample_wait) ?w = Some (Waited COMMLAYER_RET_FROM_CENTRAL_UNIT, w1)"
    "recorded_step ?w (sample_net\<lparr>select_results := [], select_timeouts := [(1, 0)]\<rparr>) ?rest
       (pieces (debug_packet [] TIME_RECORD_REGISTER_WAIT_RET_VALUE [COMMLAYER_RET_FROM_CENTRAL_UNIT])) w1"
    "gettime_call_points w1 = replicate 5 None" "clock_ticks w1 = [70000]" by auto
  have "acknowledged (time_master w1) (call_kind (Get_time 0 [109, 0] 304))
      (acknowledgement (Get_time 0 [109, 0] 304) (Time sample_time)) []"
    using 1(2) by (simp add: acknowledged_def recorded_step_def)
  moreover have "plain_call 0 (Get_time 0 [109, 0] 304) w1 = Some (Time (sa_get_time 70000), comm_layer w1)" using 1(4) by simp
  moreover have "check_get_time_call_point (gettime_call_points w1) 0 [109, 0] 304 \<noteq> None"
    using 1(3) by (simp add: check_get_time_call_point_def TIME_REQUEST_POINT_MAX_def eval_nat_numeral)
  ultimately obtain w2 where "do_call True 0 (Get_time 0 [109, 0] 304) w1 = Some (Time sample_time, w2)"
    using call_recorded_unchanged [of 0 "Get_time 0 [109, 0] 304" w1 "Time (sa_get_time 70000)" "comm_layer w1" "Time sample_time" "[]"]
      sample_heap 1(2) by (auto simp: recorded_step_def)
  with 1(1) show ?thesis by (simp add: sample_client_def sample_trace_def del: do_call.simps)
qed

section \<open>Recording\<close>

text \<open>
  C11: Recording does not change what is recorded. If the time master acknowledges the report, a call
  of the recording build returns what the call returns without it, and leaves the communication layer
  in the same state; only the time is the one the time master answers with. The report, with the
  result and the message, is sent in one packet.
\<close>

theorem recording_transparent:
  assumes "plain_call h c w = Some (r0, cl)" "result_of r0 c r" "recordable w c r0"
    and "heap_inv (heap (comm_layer w))" "content (heap (comm_layer w)) h \<noteq> None"
    and "acknowledged (time_master w) (call_kind c) (acknowledgement c r) rest"
  shows "\<exists>w'. do_call True h c w = Some (r, w') \<and> comm_layer w' = cl \<and>
    to_time_master (time_master w') = to_time_master (time_master w) @
      pieces (debug_packet [] (call_kind c) (report (clock_ticks w) c r)) \<and>
    stream_of (from_time_master (time_master w')) = rest"
  using call_recorded_unchanged [OF assms] by (auto simp: recorded_step_def)

theorem recording_transparent_witness:
  "\<exists>w'. do_call True 0 (Wait sample_wait) (sample_world sample_acks) = Some (Waited COMMLAYER_RET_FROM_CENTRAL_UNIT, w') \<and>
    to_time_master (time_master w') = [[6, 0], [0, 0, 4, 1, 0, 10]]"
proof -
  let ?rest = "debug_frame (debug_packet [] TIME_RECORD_REGISTER_TIME_VALUE (time_to_packet 0 sample_time))"
  have "acknowledged (time_master (sample_world sample_acks)) (call_kind (Wait sample_wait))
      (acknowledgement (Wait sample_wait) (Waited COMMLAYER_RET_FROM_CENTRAL_UNIT)) ?rest"
    by (simp add: acknowledged_def sample_acks_def sample_world_def sample_tm_link_def)
  from recording_transparent [OF sample_plain _ _ _ _ this] sample_heap show ?thesis
    by (auto simp: sample_world_def sample_tm_link_def pieces_def debug_frame_def debug_packet_def Let_def
        record_types COMMLAYER_RET_FROM_CENTRAL_UNIT_def u16_of_def simp del: do_call.simps)
qed

text \<open>
  C12: Whatever happens on the link, if a call of the recording build returns, the time master has got
  one packet with everything the call has returned, and the next packet it has sent was the right
  acknowledgement of it, which is all that has been taken from the stream.
\<close>

theorem call_recorded:
  assumes "do_call True h c w = Some (r, w')" "time_master_send_results (time_master w) = []"
    and "heap_inv (heap (comm_layer w))" "content (heap (comm_layer w)) h \<noteq> None"
  shows "to_time_master (time_master w') = to_time_master (time_master w) @
      pieces (debug_packet [] (call_kind c) (report (clock_ticks w) c r)) \<and>
    stream_of (from_time_master (time_master w)) =
      debug_frame (debug_packet [] (call_kind c) (acknowledgement c r)) @ stream_of (from_time_master (time_master w'))"
  using record_call [OF assms] by (simp add: exchanged_def)

theorem call_recorded_witness:
  "\<exists>w'. do_call True 0 (Wait sample_wait) (sample_world sample_acks) = Some (Waited COMMLAYER_RET_FROM_CENTRAL_UNIT, w') \<and>
    sample_acks = debug_frame (debug_packet [] TIME_RECORD_REGISTER_WAIT_RET_VALUE [COMMLAYER_RET_FROM_CENTRAL_UNIT]) @
      stream_of (from_time_master (time_master w'))"
proof -
  obtain w1 where w1: "do_call True 0 (Wait sample_wait) (sample_world sample_acks) = Some (Waited COMMLAYER_RET_FROM_CENTRAL_UNIT, w1)"
    using sample_run by (auto simp: sample_client_def sample_trace_def bind_eq_Some_conv simp del: do_call.simps)
  from call_recorded [OF w1] sample_heap have
    "sample_acks = debug_frame (debug_packet [] TIME_RECORD_REGISTER_WAIT_RET_VALUE [COMMLAYER_RET_FROM_CENTRAL_UNIT]) @
      stream_of (from_time_master (time_master w1))" by (simp add: sample_world_def sample_tm_link_def del: do_call.simps)
  with w1 show ?thesis by blast
qed

section \<open>Replaying\<close>

text \<open>
  C10: A recording can be replayed. Take any program that uses the system through the recorded calls,
  and decides what to do next by their results. If the replaying build gets the answers that were
  recorded, with any nonzero status, the program runs to its end with exactly the results it had when it
  was recorded; it asks the time master in the same order, reports the same packets, takes nothing
  else from the link, and never uses the connection to the communication layer. The packets have to fit
  the buffers of the replaying build, and no sending may have failed.
\<close>

theorem recording_replayed:
  assumes "run_client True h p w = Some (tr, w')" "\<forall>(c, r) \<in> set tr. replayable c r" "replaying h v"
    and "gettime_call_points v = gettime_call_points w" "status \<noteq> 0"
    and "stream_of (from_time_master (time_master v)) = answers [status] tr @ rest"
  shows "\<exists>v'. run_client False h p v = Some (tr, v') \<and>
    to_time_master (time_master v') = to_time_master (time_master v) @ questions tr \<and>
    stream_of (from_time_master (time_master v')) = rest \<and>
    comm_layer v' = (comm_layer v)\<lparr>heap := heap (comm_layer v')\<rparr>"
  using run_replayed [OF assms(1-4) _ assms(6)] assms(5) by (auto simp: status_ok_def replay_step_def)

theorem recording_replayed_witness:
  "\<exists>v'. run_client False 0 sample_client (sample_world (answers [1] sample_trace)) = Some (sample_trace, v') \<and>
    to_time_master (time_master v') = [[5, 0], [0, 0, 4, 0, 0], [5, 0], [0, 0, 3, 0, 0]]"
proof -
  obtain w' where run: "run_client True 0 sample_client (sample_world sample_acks) = Some (sample_trace, w')" using sample_run by blast
  let ?v = "sample_world (answers [1] sample_trace)"
  have v: "replaying 0 ?v" "gettime_call_points ?v = gettime_call_points (sample_world sample_acks)"
    "stream_of (from_time_master (time_master ?v)) = answers [1] sample_trace @ []"
    using sample_heap by (auto simp: replaying_def sample_world_def sample_tm_link_def answers_def sample_trace_def)
  have "\<forall>(c, r) \<in> set sample_trace. replayable c r" by (simp add: sample_trace_def)
  from recording_replayed [OF run this v(1,2) _ v(3)] show ?thesis
    by (auto simp: sample_trace_def questions_def sample_world_def sample_tm_link_def pieces_def debug_frame_def
        debug_packet_def Let_def record_types u16_of_def simp del: run_client.simps)
qed

text \<open>
  C14: Where replay differs from what was recorded. When the system fails to send a message, the
  recording build reports failure to its caller and has dropped the message; replaying the same call
  always reports success, and leaves the message in the handle.
\<close>

theorem failed_sending_not_replayed:
  assumes "heap_inv (heap (comm_layer w))" "content (heap (comm_layer w)) h = Some (rq, rsp)" "length rq \<le> 200"
    and "front_room (heap (comm_layer w)) h 5 (int (length rsp)) (int (length rq))"
    and "send_results (comm_layer w) = x # xs" "x < 0"
    and "acknowledged (time_master w) TIME_RECORD_REGISTER_OUTGOING_PACKET [] rest"
    and "heap_inv (heap (comm_layer v))" "content (heap (comm_layer v)) h = Some (rq, rsp')"
    and "answer_comes (time_master v) TIME_RECORD_REGISTER_OUTGOING_PACKET status [b] rest'"
  shows "\<exists>w' v'. debug_send_within_master True w h bus d = Some (COMMLAYER_RET_FAILED, w') \<and>
      content (heap (comm_layer w')) h = Some ([], []) \<and>
    debug_send_within_master False v h bus d = Some (COMMLAYER_RET_OK, v') \<and>
      content (heap (comm_layer v')) h = Some (rq, rsp')"
proof -
  obtain l where l: "register_outgoing_packet (heap (comm_layer w)) h bus (ucast d) (time_master w) = Some l"
    by (rule register_outgoing_effect [OF assms(7,1,2,3)])
  obtain l' where l': "request_outgoing_packet (heap (comm_layer v)) h bus (ucast d) (time_master v) = Some l'"
    by (rule request_outgoing_effect [OF assms(10,8,9,3)])
  from send_frame [OF assms(1,2,4), of bus d] obtain m where
    m: "send_within_master (comm_layer w) h bus d = Some (if fst (sendto (comm_layer w) (frame bus d rq)) < 0
        then COMMLAYER_RET_FAILED else COMMLAYER_RET_OK, (snd (sendto (comm_layer w) (frame bus d rq)))\<lparr>heap := m\<rparr>)"
    "grown (heap (comm_layer w)) h ([], []) m" by blast
  have "fst (sendto (comm_layer w) (frame bus d rq)) < 0" using assms(5,6) by (simp add: sendto_def)
  then show ?thesis using l l' m(1) grownD [OF m(2)] assms(9) by (simp add: debug_send_within_master_def)
qed

theorem failed_sending_not_replayed_witness:
  "\<exists>w' v'. debug_send_within_master True ((sample_world (debug_frame (debug_packet [] 1 [])))\<lparr>comm_layer :=
        sample_net\<lparr>heap := request_heap, send_results := [-1]\<rparr>\<rparr>) 0 7 38 = Some (COMMLAYER_RET_FAILED, w') \<and>
    debug_send_within_master False ((sample_world (debug_frame (debug_packet [1] 1 [1])))\<lparr>comm_layer :=
        sample_net\<lparr>heap := request_heap\<rparr>\<rparr>) 0 7 38 = Some (COMMLAYER_RET_OK, v') \<and>
    content (heap (comm_layer v')) 0 = Some ([1, 2, 3], [])"
proof -
  let ?w = "(sample_world (debug_frame (debug_packet [] 1 [])))\<lparr>comm_layer := sample_net\<lparr>heap := request_heap, send_results := [-1]\<rparr>\<rparr>"
    and ?v = "(sample_world (debug_frame (debug_packet [1] 1 [1])))\<lparr>comm_layer := sample_net\<lparr>heap := request_heap\<rparr>\<rparr>"
  have h: "heap_inv request_heap" "content request_heap 0 = Some ([1, 2, 3], [])" "front_room request_heap 0 5 0 3"
    using request_heap by (simp_all add: front_room_def)
  have "acknowledged (time_master ?w) TIME_RECORD_REGISTER_OUTGOING_PACKET [] []"
    "answer_comes (time_master ?v) TIME_RECORD_REGISTER_OUTGOING_PACKET [1] [1] []"
    by (simp_all add: acknowledged_def answer_comes_def sample_world_def sample_tm_link_def status_ok_def
        TIME_RECORD_REGISTER_OUTGOING_PACKET_def)
  from failed_sending_not_replayed [of ?w 0 "[1, 2, 3]" "[]" "-1" "[]" "[]" ?v "[]" "[1]" 1 "[]" 7 38, OF _ _ _ _ _ _ this(1) _ _ this(2)] h
  show ?thesis by auto
qed

section \<open>The link\<close>

text \<open>
  C13: A debug packet that is sent comes out of the stream unchanged, however the stream splits it,
  exactly if its size lies between 5 and the limit of the reader and the buffer of the reader holds
  it. Otherwise the reader stops with an assertion, or, if the limit is larger than the buffer, writes
  beyond it: \<open>register_wait_request_ret_val\<close> and \<open>register_time_val\<close> pass a limit of 206 with buffers of 6 and
  10 bytes.
\<close>

theorem debug_packet_roundtrip:
  assumes "time_master_send_results l = []" "load_at buff 0 (unat sz) = Some p"
    and "send_debug_packet l buff sz = Some (ret, l')" "to_time_master l' = to_time_master l @ ps"
    and "quiet (from_time_master peer)" "stream_of (from_time_master peer) = concat ps @ rest"
  shows "ret = COMMLAYER_RET_OK \<and>
    (if 5 \<le> unat sz \<and> unat sz \<le> unat limit \<and> unat sz \<le> length a
     then \<exists>peer'. get_debug_packet peer a limit = Some (HAL_GET_PACKET_BYTES_DONE, Some sz, map Some p @ drop (unat sz) a, peer') \<and>
       stream_of (from_time_master peer') = rest
     else get_debug_packet peer a limit = None)"
proof -
  from send_debug_packet_effect [OF assms(1,2)] assms(3,4) have ps: "ret = COMMLAYER_RET_OK" "ps = [[ucast sz, ucast (drop_bit 8 sz)], p]"
    by auto
  have len: "length p = unat sz" using assms(2) by (auto simp: load_at_def those_map dest: arg_cong [where f = length] split: if_splits)
  have sz: "u16_of (int (length p)) = sz" by (simp add: len u16_of_def)
  have "stream_of (from_time_master peer) = debug_frame p @ rest" "length p < 65536"
    using assms(6) unat_u16_limit [of sz] by (simp_all add: ps(2) debug_frame_def sz [unfolded len] len Let_def u16_of_def)
  from get_debug_packet_exact [OF assms(5) this, of limit a] ps(1) show ?thesis by (auto simp: len u16_of_def split: if_splits)
qed

theorem debug_packet_roundtrip_witness:
  "get_debug_packet (sample_tm_link [7, 0, 0, 0, 4, 2, 0, 9, 9]) (new_array 6) 206 = None"
  using debug_packet_roundtrip [of "sample_tm_link []" "map Some [0, 0, 4, 2, 0, 9, 9]" 7 "[0, 0, 4, 2, 0, 9, 9]" COMMLAYER_RET_OK
      "(sample_tm_link [])\<lparr>to_time_master := [[7, 0], [0, 0, 4, 2, 0, 9, 9]]\<rparr>" "[[7, 0], [0, 0, 4, 2, 0, 9, 9]]"
      "sample_tm_link [7, 0, 0, 0, 4, 2, 0, 9, 9]" "[]" 206 "new_array 6"]
    send_debug_packet_effect [of "sample_tm_link []" "map Some [0, 0, 4, 2, 0, 9, 9]" 7 "[0, 0, 4, 2, 0, 9, 9]"]
  by (simp add: sample_tm_link_def load_at_def)

text \<open>
  C15: The check that a point at which the time is read is used in one place only compares the line,
  and of the names of the files no more than their lengths: a different name of the same length passes,
  a longer one fails, and a shorter one makes it read beyond the end of the name.
\<close>

theorem call_points_compare_lengths:
  assumes "unat point < 5" "pts ! unat point = Some (known @ [0], known_line)"
    and "0 \<notin> set name" "0 \<notin> set known" "length known < 255"
  shows "check_get_time_call_point pts point (name @ [0]) line =
    (if known_line = line \<and> length name = length known then Some pts else None)"
  using assms same_name_loop_lengths [of 0 known 255 True name]
  by (auto simp: check_get_time_call_point_def TIME_REQUEST_POINT_MAX_def assert_def)

theorem call_points_compare_lengths_witness:
  "check_get_time_call_point [Some ([97, 98, 0], 12), None, None, None, None] 0 [120, 121, 0] 12 =
    Some [Some ([97, 98, 0], 12), None, None, None, None]"
  using call_points_compare_lengths [of 0 "[Some ([97, 98, 0], 12), None, None, None, None]" "[97, 98]" 12 "[120, 121]" 12] by simp

end
