(* ===== verification/Program_Start.thy ===== *)
theory Program_Start
  imports Main_Loop Connection_Setup
begin

text \<open>
  The start of the program (\<open>sa_client_comm_stack.c\<close>): the port from the command line, the memory
  manager, the connection, and the main loop; and the devices of the first versions, which are no
  longer set up.
\<close>

section \<open>The command line\<close>

text \<open>
  Arguments are strings with their terminating zero. \<open>ZEPTO_MEMCMP\<close> reads as far as the first
  difference, which for a shorter argument is its end.
\<close>

fun begins_with :: "u8 list \<Rightarrow> u8 list \<Rightarrow> bool option" where
  "begins_with [] s = Some True"
| "begins_with (c # cs) [] = None"
| "begins_with (c # cs) (d # s) = (if c = d then begins_with cs s else Some False)"

definition PORT_OPTION :: "u8 list" where "PORT_OPTION = [45, 45, 112, 111, 114, 116, 61]"
definition PSP_OPTION :: "u8 list" where "PSP_OPTION = [45, 45, 112, 115, 112, 61]"

text \<open>
  The loop over the arguments, with an index of eight bits: with more than 255 arguments it does not
  end unless one of the first 256 is found.
\<close>

fun first_option :: "u8 list \<Rightarrow> u8 list list \<Rightarrow> u8 list option option" where
  "first_option opt [] = Some None"
| "first_option opt (s # args) = do {
     found \<leftarrow> begins_with opt s;
     if found then Some (Some (drop (length opt) s)) else first_option opt args
   }"

definition find_option :: "u8 list \<Rightarrow> u8 list list \<Rightarrow> u8 list option option" where
  "find_option opt argv = do {
     r \<leftarrow> first_option opt (take 256 argv);
     if r = None \<and> 255 < length argv then None else Some r
   }"

text \<open>\<open>atoi\<close>: blanks, a sign, digits; a value outside \<open>int\<close> is undefined.\<close>

definition is_digit :: "u8 \<Rightarrow> bool" where "is_digit c \<longleftrightarrow> 48 \<le> c \<and> c \<le> 57"

definition is_blank :: "u8 \<Rightarrow> bool" where "is_blank c \<longleftrightarrow> c = 32 \<or> 9 \<le> c \<and> c \<le> 13"

definition digits_value :: "u8 list \<Rightarrow> int" where
  "digits_value cs = foldl (\<lambda>v c. v * 10 + (uint c - 48)) 0 cs"

definition atoi :: "u8 list \<Rightarrow> int option" where
  "atoi s = do {
     let s = dropWhile is_blank s;
     let (neg, s) = (case s of c # t \<Rightarrow> if c = 45 then (True, t) else if c = 43 then (False, t) else (False, s) | [] \<Rightarrow> (False, s));
     let v = digits_value (takeWhile is_digit s);
     let v = (if neg then - v else v);
     if - 2147483648 \<le> v \<and> v < 2147483648 then Some v else None
   }"

definition set_port_from_command_line :: "u8 list list \<Rightarrow> u16 \<Rightarrow> u16 option" where
  "set_port_from_command_line argv self_port_num_with_cl = do {
     r \<leftarrow> find_option PORT_OPTION argv;
     case r of
       None \<Rightarrow> Some self_port_num_with_cl
     | Some s \<Rightarrow> do {
         port \<leftarrow> atoi s;
         assert (0 \<le> port \<and> port < 0x10000);
         Some (word_of_int port)
       }
   }"

definition get_persistent_storage_path_from_command_line :: "u8 list list \<Rightarrow> u8 list option option" where
  "get_persistent_storage_path_from_command_line argv = find_option PSP_OPTION argv"

section \<open>Starting\<close>

record ('a, 'b) program =
  self_port_num_with_cl :: u16
  program_sockets :: sockets
  program_state :: "('a, 'b) main_state"

text \<open>\<open>n\<close> is the number of fixed handles; the memory block has whatever contents it has.\<close>

definition main ::
  "('a, 'b) main_lib \<Rightarrow> nat \<Rightarrow> u16 \<Rightarrow> socket_results \<Rightarrow> u8 list list \<Rightarrow> ('a, 'b) program \<Rightarrow> (int \<times> ('a, 'b) program) outcome option" where
  "main L n blank_id r argv p = do {
     port \<leftarrow> set_port_from_command_line argv (self_port_num_with_cl p);
     let p = p\<lparr>self_port_num_with_cl := port\<rparr>;
     m \<leftarrow> zepto_mem_man_init_memory_management n (BASE_MEM_BLOCK (main_heap (program_state p)));
     let p = p\<lparr>program_state := set_heap m (program_state p)\<rparr>;
     case communication_initialize r (program_sockets p) of
       Exits \<Rightarrow> Some Exits
     | Returns (ok, c) \<Rightarrow> do {
         let p = p\<lparr>program_sockets := c\<rparr>;
         if \<not> ok then Some (Returns (-1, p))
         else do {
           (ret, s) \<leftarrow> main_loop L blank_id (program_state p);
           Some (Returns (ret, p\<lparr>program_state := s\<rparr>))
         }
       }
   }"

section \<open>Devices of the first versions\<close>

definition MAX_INSTANCES_SUPPORTED :: nat where "MAX_INSTANCES_SUPPORTED = 5"

definition fake_key :: "nat \<Rightarrow> u8 list" where
  "fake_key i = map (\<lambda>j. of_nat j + u8_of (int (i + 1) * 16)) [0..<16]"

definition fake_initialize_device ::
  "('a, 'b) stack_lib \<Rightarrow> ('a, 'b) DEVICE_CONTEXT \<Rightarrow> sa_time_val \<Rightarrow> nat \<Rightarrow> ('a, 'b) server \<Rightarrow> ('a, 'b) server option" where
  "fake_initialize_device L blank blank_time i s = do {
     (_, s) \<leftarrow> main_add_new_device L blank s (of_nat (i + 1)) (fake_key i);
     let (_, mesh) = (if i = 0 then siot_mesh_at_root_add_device blank_time (mesh_root s) (of_nat (i + 1)) 1 2 [0, 1]
       else siot_mesh_at_root_add_device blank_time (mesh_root s) (of_nat (i + 1)) 0 1 [1]);
     Some (s\<lparr>mesh_root := mesh\<rparr>)
   }"

fun fake_devices ::
  "('a, 'b) stack_lib \<Rightarrow> ('a, 'b) DEVICE_CONTEXT \<Rightarrow> sa_time_val \<Rightarrow> nat list \<Rightarrow> ('a, 'b) server \<Rightarrow> ('a, 'b) server option" where
  "fake_devices L blank blank_time [] s = Some s"
| "fake_devices L blank blank_time (i # is) s = do {
     s \<leftarrow> fake_initialize_device L blank blank_time i s;
     fake_devices L blank blank_time is s
   }"

definition FAKE_INITIALIZE_DEVICES ::
  "('a, 'b) stack_lib \<Rightarrow> ('a, 'b) DEVICE_CONTEXT \<Rightarrow> sa_time_val \<Rightarrow> ('a, 'b) server \<Rightarrow> ('a, 'b) server option" where
  "FAKE_INITIALIZE_DEVICES L blank blank_time s = fake_devices L blank blank_time [0..<MAX_INSTANCES_SUPPORTED] s"

section \<open>The port is the number that was given\<close>

text \<open>A number as it is written in an argument.\<close>

fun decimal :: "nat \<Rightarrow> u8 list" where
  "decimal n = (if n < 10 then [u8_of (int (48 + n))] else decimal (n div 10) @ [u8_of (int (48 + n mod 10))])"

declare decimal.simps [simp del]

lemma digit: "n < 10 \<Longrightarrow> uint (u8_of (int (48 + n))) = 48 + int n"
  by simp

lemma digit_ok: "n < 10 \<Longrightarrow> is_digit (u8_of (int (48 + n)))"
  using digit [of n] by (simp add: is_digit_def word_le_def)

lemma decimal_digits: "c \<in> set (decimal n) \<Longrightarrow> is_digit c"
proof (induction n rule: decimal.induct)
  case (1 n)
  have "set (decimal n) = (if n < 10 then {u8_of (int (48 + n))} else set (decimal (n div 10)) \<union> {u8_of (int (48 + n mod 10))})"
    by (subst decimal.simps) simp
  then show ?case using 1 digit_ok [of n] digit_ok [of "n mod 10"] by (auto split: if_splits)
qed

lemma decimal_not_empty: "decimal n \<noteq> []"
  by (subst decimal.simps) simp

lemma decimal_value: "digits_value (decimal n) = int n"
proof (induction n rule: decimal.induct)
  case (1 n)
  have "int (n div 10) * 10 + int (n mod 10) = int n" by (metis div_mult_mod_eq of_nat_add of_nat_mult of_nat_numeral)
  moreover have "digits_value (decimal n) = (if n < 10 then int n else digits_value (decimal (n div 10)) * 10 + int (n mod 10))"
    using digit [of n] digit [of "n mod 10"] by (subst decimal.simps) (simp add: digits_value_def)
  ultimately show ?case using 1 by auto
qed

lemma atoi_decimal: "n < 2147483648 \<Longrightarrow> atoi (decimal n @ [0]) = Some (int n)"
proof -
  assume n: "n < 2147483648"
  obtain c cs where c: "decimal n = c # cs" "is_digit c"
    using decimal_not_empty [of n] decimal_digits [of _ n] by (cases "decimal n") auto
  have "\<not> is_blank c" "c \<noteq> 45" "c \<noteq> 43" using c(2) by (auto simp: is_digit_def is_blank_def word_le_def)
  moreover have "takeWhile is_digit (decimal n @ [0]) = decimal n"
    using decimal_digits [of _ n] by (subst takeWhile_append2) (auto simp: is_digit_def)
  ultimately show ?thesis using n decimal_value [of n] by (simp add: atoi_def c(1) Let_def)
qed

lemma begins_with_itself: "begins_with opt (opt @ s) = Some True"
  by (induction opt) auto

lemma port_taken:
  assumes "begins_with PORT_OPTION name = Some False" "port < 65536"
  shows "set_port_from_command_line (name # (PORT_OPTION @ decimal port @ [0]) # args) old = Some (of_nat port)"
proof -
  have "first_option PORT_OPTION (take 256 (name # (PORT_OPTION @ decimal port @ [0]) # args)) = Some (Some (decimal port @ [0]))"
    using assms(1) begins_with_itself by simp
  then show ?thesis using atoi_decimal [of port] assms(2)
    by (simp add: set_port_from_command_line_def find_option_def)
qed

text \<open>
  The server starts: with a working connection the main loop is entered, with the port that was given and a
  heap in which every fixed handle is empty.
\<close>

lemma server_starts:
  assumes "begins_with PORT_OPTION name = Some False" "port < 65536" "0 < n" "n < 4096"
    and "communication_initialize r (program_sockets p) = Returns (True, c)"
  shows "\<exists>m. handles_inv m \<and> (\<forall>h. content m h = (if h < n then Some ([], []) else None)) \<and>
    main L n blank_id r (name # (PORT_OPTION @ decimal port @ [0]) # args) p = do {
      (ret, s) \<leftarrow> main_loop L blank_id (set_heap m (program_state p));
      Some (Returns (ret, p\<lparr>self_port_num_with_cl := of_nat port, program_sockets := c, program_state := s\<rparr>))
    }"
proof -
  obtain m where m: "zepto_mem_man_init_memory_management n (BASE_MEM_BLOCK (main_heap (program_state p))) = Some m"
    "handles_inv m" "\<And>h. content m h = (if h < n then Some ([], []) else None)"
    using init_effect [OF assms(3,4), of "BASE_MEM_BLOCK (main_heap (program_state p))"] by blast
  show ?thesis using m port_taken [OF assms(1,2), of args "self_port_num_with_cl p"] assms(5)
    by (intro exI [of _ m] conjI allI) (simp_all add: main_def Let_def)
qed

end
