(* ===== verification/Spec2Isabelle.thy ===== *)
theory Spec2Isabelle
  imports Heap_Machine Packed_Numbers Handle_Rules Sample_Heaps Comm_Properties Connection_Setup Checksum Time_Val Mesh_Properties Route_Properties
  Path_Properties Replay_Properties Program_Start
begin

text \<open>
  The commstack server connects a central unit (a TCP client on this host) with the devices of a
  mesh network. This development models its own code under \<open>src/server/src\<close>; the protocol library
  \<open>simpleiot\<close> is a submodule that is not part of the repository, and what the code uses of it
  is a parameter of the model.

  \<^bold>\<open>Parts.\<close> All messages of the server live in one block of memory, managed by handles
  (\<open>zepto_mem_mngmt.c\<close>). The communication layer (\<open>commstack_commlayer.c\<close>) reads frames from the
  stream into a handle, writes the message of a handle as a frame, and sends synchronous requests,
  during which other packets go to a queue (\<open>commstack_commlayer_helper.cpp\<close>). The mesh support
  (\<open>commstack_siot_mesh_support.cpp\<close>) keeps the routing tables of all devices, writes updates of
  them into a handle, looks for devices and chooses routes to them, and keeps the packets that are
  to be sent again. Time values, checksums and connection set-up are used by these. The devices
  (\<open>sa_client_comm_stack_helper.cpp\<close>) own handles, and their data are kept in the permanent storage
  (\<open>sa_eeprom.cpp\<close>) and at the central unit. The main loop (\<open>sa_client_comm_stack.c\<close>) takes the devices
  from the central unit when it starts, and then answers its requests, asks the timers and takes each
  packet up or down through the layers of the protocol library, over one working handle. A debug build
  records what the system returns with a time master (\<open>debugging.c\<close>, over the link of
  \<open>commstack_commlayer_to_time_master.c\<close>), and another replays it.

  \<^bold>\<open>How programs are modelled.\<close> C code that can fail an assertion or leave an object is a function to
  \<open>option\<close>, where \<open>None\<close> says that there is no defined continuation (see \<open>Prelude\<close>); what the
  program reports itself, return codes and null pointers, are values. State is a record that is
  passed and returned. Loops are recursive functions on what they still have to visit; a loop that
  can run for ever is a \<open>partial_function\<close>, and returning is proved where it is claimed. No fuel is
  used anywhere. Machine integers that wrap are words, sizes and pointers within the memory block
  are \<open>int\<close> with the conversion to 16 bits written out (\<open>to_u16\<close>). \<open>ZEPTO_DEBUG_ASSERT\<close> and the
  checks under \<open>SA_DEBUG\<close> are enabled. The build modelled is the server's: \<open>USED_AS_MASTER\<close>,
  \<open>MEMORY_HANDLE_ALLOW_ACQUIRE_RELEASE\<close>, \<open>MEM_MNGMT_ORDERED_HANDLES\<close>, POSIX, without
  \<open>SIOT_MESH_BTLE_MODE\<close>; the theories of the time master are about the two builds that have one, and the
  flag \<open>USE_TIME_MASTER_REGISTER\<close>, by which these differ, is an argument.

  \<^bold>\<open>Theories.\<close>
  \<^item> \<open>Prelude\<close>: checked evaluation, words, byte memories, first-index search.
  \<^item> \<open>Encoded_Size\<close>, \<open>Heap_Layout\<close>, \<open>Heap_Core\<close>: the boundary tags of gaps, the alternation of gaps and
    objects in the block, and the state \<open>mem\<close> (\<open>BASE_MEM_BLOCK\<close>, \<open>memory_objects\<close>); the invariant
    \<open>heap_inv\<close> and the abstraction \<open>content\<close>, which gives each handle its request and response bytes.
  \<^item> \<open>Heap_Ops\<close>, \<open>Heap_Compaction\<close>, \<open>Heap_Handles\<close>, \<open>Heap_Check\<close>: moving, growing, trimming, compaction,
    append and prepend; acquiring and releasing handles; the sanity check and the statistics.
  \<^item> \<open>Varint\<close>, \<open>Mem_Parser\<close>, \<open>Packed_Numbers\<close>: packed integers, writing to a response, parsing a request.
  \<^item> \<open>Message_Store\<close>: the locales \<open>message_store\<close> and \<open>message_exchange\<close>, the interface all
    other parts use, interpreted on the memory manager.
  \<^item> \<open>Heap_Machine\<close>: the abstract machine of messages and the simulation of every call of the
    memory manager by a step of it; heaps reachable from the initialisation.
  \<^item> \<open>Packet_Queue\<close>, \<open>Commlayer\<close>, \<open>Framing\<close>, \<open>Sync_Request\<close>, \<open>Connection_Setup\<close>, \<open>Comm_Properties\<close>: the
    queue (locale \<open>fifo\<close>), the communication layer over a model of the socket (what \<open>recvfrom\<close>,
    \<open>sendto\<close> and \<open>select\<close> return is an input), frames, synchronous requests, opening and closing.
  \<^item> \<open>Checksum\<close>, \<open>Time_Val\<close>: Fletcher checksums and two-word time values.
  \<^item> \<open>Mesh_Tables\<close>, \<open>Mesh_Update\<close>, \<open>Mesh_Root\<close>, \<open>Mesh_Life\<close>, \<open>Mesh_Packet\<close>, \<open>Mesh_Properties\<close>: sorted route and
    link tables (locale \<open>sorted_table\<close>), updates between two states of them (locale \<open>table_diff\<close>), the
    routing state of the root, the life of an update, and the packet it is sent in.
  \<^item> \<open>Mesh_Hops\<close>, \<open>Mesh_Resend\<close>, \<open>Mesh_Routes\<close>, \<open>Mesh_Way\<close>, \<open>Mesh_Search\<close>, \<open>Route_Properties\<close>: the hops over which
    a device can be reached and the choice between them, the tasks of sending a packet again, the
    tables planned when a route is found or a hop is lost, the removal of a device, and the packet
    that looks for a device. \<open>Mesh_Way\<close> sees the device list as a map.
  \<^item> \<open>Handle_Rules\<close>: the rules for handles and room (\<open>has_room\<close>) by which the callers of the memory
    manager are verified.
  \<^item> \<open>Perm_Storage\<close>, \<open>Devices\<close>, \<open>Device_Properties\<close>: the permanent storage of the devices
    (\<open>sa_eeprom.cpp\<close>), the list of their contexts and of the control requests that wait for them
    (\<open>sa_client_comm_stack_helper.cpp\<close>), and the steps of a running server on them (\<open>server_step\<close>).
  \<^item> \<open>Main_State\<close>, \<open>Init_Loop\<close>, \<open>Main_Loop\<close>: the local variables of \<open>main_loop\<close> (\<open>main_state\<close>), the handlers of the
    library it calls (\<open>main_lib\<close>), the initialisation and the main loop; each label of the code that is
    jumped to is a function (\<open>siotmp_rec\<close>, \<open>client_received\<close>, \<open>saspsend\<close>, \<open>saoudp_send\<close>, \<open>hal_send\<close>), which
    returns where the code jumps to \<open>wait_for_comm_event\<close> or leaves \<open>main_loop\<close>.
  \<^item> \<open>Program_Start\<close>: the command line, and \<open>main\<close> up to the main loop, which starts on an empty heap with the port
    that was given.
  \<^item> \<open>Main_Rules\<close>, \<open>Init_Rules\<close>, \<open>Server_Properties\<close>: the calls of the main loop on handles and frames as rules,
    the requests of the central unit, and the loop over the packets of the initialisation.
  \<^item> \<open>Main_Path\<close>, \<open>Path_Properties\<close>: a message on its way down to a device and a packet on its way up, with what is
    relied on of each layer (\<open>gdp_sends\<close>, \<open>sasp_sends\<close>, ...); \<open>tag_lib\<close> is a library for which all of it holds.
  \<^item> \<open>Time_Master_Link\<close>, \<open>Event_Record\<close>, \<open>Record_Rules\<close>: packets on the link to the time master, over local arrays that
    know which bytes have been written; the functions that report events (\<open>register_time_val\<close> and others) or ask for them
    (\<open>request_time_val\<close> and others), and the exchange of packets they share.
  \<^item> \<open>Record_Replay\<close>, \<open>Replay_Rules\<close>, \<open>Replay_Properties\<close>: programs that reach the system through the recorded calls
    (\<open>client\<close>: what they do next is a function of the results), their recording and their replay.
  \<^item> \<open>Sample_Heaps\<close>: concrete heaps for the instances of the properties.

  \<^bold>\<open>What is shown.\<close> Every heap reached by valid calls is well formed and passes the program's own check;
  each call succeeds exactly if its bytes fit and changes one message only. Messages, numbers
  and frames survive their round trips, the last one over a stream split up in any way. Requests to the
  central unit end with the reply and lose or reorder no other packet. The checksums are the Fletcher
  sums. The tables of the mesh are maps, the computed difference of two tables is right, so the
  program's check of it cannot fail, and a confirmed update makes the tables what was planned. A route
  found is planned along the whole way to the device; a packet is sent again as often as it should be;
  the search packet leaves all other messages alone. Every handle a device refers to belongs to it
  alone, and a device leaves none behind; a waiting control request is delivered unchanged. The
  initialisation ends with the devices that were sent, and a request to add or remove a device is
  followed from the frame it arrives in to the frame of the reply. A message for a device goes through
  every layer once and out to it, and a packet of a device to the central unit.
  Recording changes nothing but the time, and every program is replayed from its record with the same results,
  as long as no sending fails. Where the code is wrong, the theorems say what it does instead.

  \<^bold>\<open>Not modelled.\<close> Printing is output. Code under \<open>#if 0\<close> and the BTLE mode are not compiled.
  The handlers of the
  protocol library are parameters of the main loop: they get and return what they can reach through
  their pointers, and the properties of the main loop are about the paths that do not call them or say
  what they rely on (\<open>tidy\<close>, \<open>keeps_messages\<close>, \<open>returns\<close>).
\<close>

section \<open>The memory manager\<close>

text \<open>
  C1: In every heap that is reached from the initialisation by writing, prepending, handing over,
  freeing, stripping, copying, acquiring and releasing on valid handles, the handle table and the
  layout are well formed, and \<open>zepto_mem_man_check_sanity\<close> runs through without a failed assertion
  and only raises the recorded peak.
\<close>

theorem reachable_heap_sane:
  assumes "reachable n m" "0 < n" "n < 4096"
  shows "handles_inv m \<and> (\<exists>e. zepto_mem_man_check_sanity m ever = Some e \<and> ever \<le> e)"
  using reachable_inv [OF assms] sanity_holds [of m ever] update_ever_reached_defined [of m ever] by simp

theorem reachable_heap_sane_witness:
  "reachable 3 acquired_heap \<and> (\<exists>e. zepto_mem_man_check_sanity acquired_heap 7 = Some e \<and> 7 \<le> e)"
proof -
  have "reachable 3 acquired_heap"
    by (rule reachable.call [OF reachable.start [OF fresh_run], of Acquire])
      (simp_all add: call_valid_def acquired_heap(1))
  from this reachable_heap_sane [OF this, of 7] show ?thesis by simp
qed

text \<open>
  C2: Every valid call is a step of the abstract machine whose state is only the map from handles
  to requests and responses: the call succeeds exactly if the bytes it needs fit into the free
  space, wherever the free bytes lie in the block, and then changes one entry of the map and
  nothing else.
\<close>

theorem heap_call_refines:
  assumes "handles_inv m" "call_ok m c" "spec_update c (messages m) = Some (h, v)"
  shows "(case run_call c m of
      Some m' \<Rightarrow> needs c (messages m) \<le> free_space m \<and> handles_inv m' \<and>
        spec_step (MEMORY_HANDLE_ACQUIRABLE_START m) c (messages m) (messages m')
    | None \<Rightarrow> free_space m < needs c (messages m))"
  using call_simulated [OF assms] call_without_room [OF assms]
  by (cases "needs c (messages m) \<le> free_space m") (auto simp: simulates_def)

theorem heap_call_refines_witness:
  "case run_call (Write 3 [7, 9]) acquired_heap of
      Some m' \<Rightarrow> handles_inv m' \<and> spec_step 3 (Write 3 [7, 9]) (messages acquired_heap) (messages m')
    | None \<Rightarrow> free_space acquired_heap < 2"
proof -
  have "spec_update (Write 3 [7, 9]) (messages acquired_heap) = Some (3, Some ([], [7, 9]))"
    using acquired_heap by (simp add: messages_def MEMORY_HANDLE_ACQUIRABLE_HANDLE_STORAGE_def)
  from heap_call_refines [OF acquired_heap(2) _ this] acquired_heap(4) show ?thesis
    by (simp add: MEMORY_HANDLE_ACQUIRABLE_START_def split: option.splits)
qed

text \<open>
  Acquiring a handle. If it succeeds it returns the smallest acquirable handle that is not in
  use, with an empty message, and leaves every other client handle as it was. It can only fail when
  no more than the size of one slot is free or when the first acquirable handle is not in use.
\<close>

lemma acquire_handle:
  assumes "handles_inv m"
  shows "(case memory_object_acquire m of
      Some (r, m') \<Rightarrow> (\<exists>h. r = Some h \<and> handles_inv m' \<and>
        MEMORY_HANDLE_ACQUIRABLE_START m \<le> h \<and> content m h = None \<and>
        (\<forall>k. MEMORY_HANDLE_ACQUIRABLE_START m \<le> k \<and> k < h \<longrightarrow> content m k \<noteq> None) \<and>
        messages m' = (messages m)(h \<mapsto> ([], [])))
    | None \<Rightarrow> free_space m \<le> 16 \<or> content m (MEMORY_HANDLE_ACQUIRABLE_START m) = None)"
proof (cases "memory_object_acquire m")
  case None
  then show ?thesis using acquire_effect [OF assms] by (simp add: sizeof_request_reply_mem_obj_def)
next
  case (Some rm)
  then obtain h m' where rm: "rm = (Some h, m')" and a: "acquired m h m'" using acquire_effect [OF assms] by auto
  have "MEMORY_HANDLE_ACQUIRABLE_HANDLE_STORAGE m \<noteq> h"
    using a assms by (auto simp: acquired_def MEMORY_HANDLE_ACQUIRABLE_START_def
        MEMORY_HANDLE_ACQUIRABLE_HANDLE_STORAGE_def handles_inv_def heap_inv_def)
  then have "messages m' = (messages m)(h \<mapsto> ([], []))"
    using a by (auto simp: messages_def acquired_def MEMORY_HANDLE_ACQUIRABLE_HANDLE_STORAGE_def fun_eq_iff)
  with a Some show ?thesis by (simp add: rm acquired_def)
qed

lemma acquire_handle_witness:
  "case memory_object_acquire acquired_heap of
      Some (r, m') \<Rightarrow> (\<exists>h. r = Some h \<and> handles_inv m' \<and> 3 \<le> h \<and> content acquired_heap h = None)
    | None \<Rightarrow> free_space acquired_heap \<le> 16"
  using acquire_handle [OF acquired_heap(2)] acquired_heap(3,4)
  by (auto simp: MEMORY_HANDLE_ACQUIRABLE_START_def split: option.splits)

text \<open>
  Initialisation establishes the invariant for any number of handles that fits the block, from
  any contents of the memory: every handle holds an empty message, and all bytes that are not the
  one-byte gaps between the handles can be allocated.
\<close>

lemma init_establishes:
  assumes "0 < n" "n < 4096"
  shows "\<exists>m. zepto_mem_man_init_memory_management n B = Some m \<and> handles_inv m \<and>
    (\<forall>h. content m h = (if h < n then Some ([], []) else None)) \<and> free_space m = 4095 - int n"
  using init_effect [OF assms, of B] by blast

lemma init_establishes_witness:
  "\<exists>m. zepto_mem_man_init_memory_management 12 (\<lambda>_. 255) = Some m \<and> handles_inv m \<and> free_space m = 4083"
  using init_establishes [of 12 "\<lambda>_. 255"] by auto

text \<open>
  A message written block by block and handed over with \<open>zepto_response_to_request\<close> is read as
  the concatenation of the blocks, if the blocks fit together; otherwise the writing is stopped by an
  assertion, at whichever block the space runs out. No other handle is touched.
\<close>

lemma message_written_in_blocks:
  assumes "heap_inv m" "content m h = Some (rq, [])"
  shows "if int (length (concat bss)) \<le> free_space m
    then \<exists>m1 m2. write_each zepto_write_block m h bss = Some m1 \<and> zepto_response_to_request m1 h = Some m2 \<and>
      heap_inv m2 \<and> content m2 = (content m)(h \<mapsto> (concat bss, [])) \<and>
      free_space m2 = free_space m + int (length rq) - int (length (concat bss))
    else write_each zepto_write_block m h bss = None"
  using heap_exchange.message_exchanged [OF assms, of bss] heap.blocks_full [OF assms, of bss] by auto

lemma message_written_in_blocks_witness:
  "\<exists>m1 m2. write_each zepto_write_block request_heap 0 [[5], [], [6, 7]] = Some m1 \<and>
     zepto_response_to_request m1 0 = Some m2 \<and> content m2 0 = Some ([5, 6, 7], [])"
  using message_written_in_blocks [OF request_heap(1), of 0 "[1, 2, 3]" "[[5], [], [6, 7]]"] request_heap
  by fastforce

text \<open>
  The tag of a free range of the block, written at its first bytes by the forward writer and at
  its last bytes by the backward writer, is read back by both parsers, for every size that fits the
  block (one, two or three bytes), in either order of writing; nothing outside the range changes.
\<close>

lemma gap_tag_roundtrip:
  assumes "0 \<le> a" "a < b" "b \<le> 4096"
  shows "\<exists>B1 B2. (do { B \<leftarrow> write_fwd B a (u16_of (b - a)); write_bwd B (b - 1) (u16_of (b - a)) }) = Some B1 \<and>
    (do { B \<leftarrow> write_bwd B (b - 1) (u16_of (b - a)); write_fwd B a (u16_of (b - a)) }) = Some B2 \<and>
    (\<forall>B' \<in> {B1, B2}. parse_fwd B' a = Some (u16_of (b - a)) \<and> parse_bwd B' (b - 1) = Some (u16_of (b - a)) \<and>
      (\<forall>i. i < a \<or> b \<le> i \<longrightarrow> B' i = B i))"
proof -
  have "gap (put_gap B a b) a b" "gap (put_gap_bwd B a b) a b"
    using assms by (auto intro!: gap_put_gap gap_put_gap_bwd simp: block_size_value)
  moreover have "(do { B \<leftarrow> write_fwd B a (u16_of (b - a)); write_bwd B (b - 1) (u16_of (b - a)) }) = Some (put_gap B a b)"
    "(do { B \<leftarrow> write_bwd B (b - 1) (u16_of (b - a)); write_fwd B a (u16_of (b - a)) }) = Some (put_gap_bwd B a b)"
    using write_gap [of a "b - 1" "b - a" B Some] write_gap_bwd [of a "b - 1" "b - a" B Some] assms
    by (simp_all add: block_size_value)
  ultimately show ?thesis
    using assms(2) by (auto simp: put_gap_other put_gap_bwd_other)
qed

lemma gap_tag_roundtrip_witness:
  "\<exists>B1. (do { B \<leftarrow> write_fwd (\<lambda>_. 0) 96 (u16_of 4000); write_bwd B 4095 (u16_of 4000) }) = Some B1 \<and>
    parse_bwd B1 4095 = Some (u16_of 4000)"
  using gap_tag_roundtrip [of 96 4096 "\<lambda>_. 0"] by auto

section \<open>Reading and writing messages\<close>

text \<open>
  C16: Every 16-bit number appended in packed form to an empty response and handed over is read back
  unchanged, and the parser stops exactly behind it.
\<close>

theorem packed_uint16_roundtrip:
  assumes "heap_inv m" "content m h = Some (rq, [])" "int (length (packed_nat (unat v))) \<le> free_space m"
  shows "(do { m \<leftarrow> zepto_parser_encode_and_append_uint16 m h v;
      m \<leftarrow> zepto_response_to_request m h;
      po \<leftarrow> zepto_parser_init m h;
      zepto_parse_encoded_uint16 m po }) =
    Some (v, \<lparr>mem_handle = Some h, offset = int (length (packed_nat (unat v))), res_valid = True\<rparr>)"
proof -
  from number_message [OF assms] obtain m1 m2 where run: "zepto_write_block m h (packed_nat (unat v)) = Some m1"
    "zepto_response_to_request m1 h = Some m2" and m2: "heap_inv m2" "content m2 h = Some (packed_nat (unat v), [])" .
  from append_packed(2) [OF assms(1), of h v] assms(2) run read_back_u16 [OF m2] show ?thesis by simp
qed

theorem packed_uint16_roundtrip_witness:
  "(do { m \<leftarrow> zepto_parser_encode_and_append_uint16 fresh_heap 1 0xFFFF;
      m \<leftarrow> zepto_response_to_request m 1;
      po \<leftarrow> zepto_parser_init m 1;
      zepto_parse_encoded_uint16 m po }) =
    Some (0xFFFF, \<lparr>mem_handle = Some 1, offset = 3, res_valid = True\<rparr>)"
proof -
  have len: "length (packed_nat (unat (0xFFFF :: u16))) = 3" by (simp add: packed_nat.simps)
  have "content fresh_heap 1 = Some ([], [])" "int (length (packed_nat (unat (0xFFFF :: u16)))) \<le> free_space fresh_heap"
    unfolding len using fresh_heap(4) [of 1] fresh_heap(5) by simp_all
  from packed_uint16_roundtrip [OF fresh_heap(2) this] show ?thesis unfolding len by simp
qed

text \<open>
  For 32-bit numbers the reader is not the inverse of the writer. The value read has the low
  sixteen bits in place, the third byte in the place of the fourth, and lacks the fourth byte; it is
  the number written for all numbers below 65536, and the parser position is always right.
\<close>

lemma packed_uint32_read:
  assumes "heap_inv m" "content m h = Some (rq, [])" "int (length (packed_nat (unat v))) \<le> free_space m"
  shows "(do { m \<leftarrow> zepto_parser_encode_and_append_uint32 m h v;
      m \<leftarrow> zepto_response_to_request m h;
      po \<leftarrow> zepto_parser_init m h;
      zepto_parse_encoded_uint32 m po }) =
    Some (push_bit 24 (drop_bit 16 v) OR take_bit 16 v,
      \<lparr>mem_handle = Some h, offset = int (length (packed_nat (unat v))), res_valid = True\<rparr>)"
proof -
  from number_message [OF assms] obtain m1 m2 where run: "zepto_write_block m h (packed_nat (unat v)) = Some m1"
    "zepto_response_to_request m1 h = Some m2" and m2: "heap_inv m2" "content m2 h = Some (packed_nat (unat v), [])" .
  from append_packed(3) [OF assms(1), of h v] assms(2) run read_back_u32 [OF m2] show ?thesis by simp
qed

lemma packed_uint32_read_witness:
  "map_option fst (do { m \<leftarrow> zepto_parser_encode_and_append_uint32 fresh_heap 1 0x00010000;
      m \<leftarrow> zepto_response_to_request m 1;
      po \<leftarrow> zepto_parser_init m 1;
      zepto_parse_encoded_uint32 m po }) = Some 0x01000000"
proof -
  have len: "length (packed_nat (unat (0x00010000 :: u32))) = 3" by (simp add: packed_nat.simps)
  have "content fresh_heap 1 = Some ([], [])" "int (length (packed_nat (unat (0x00010000 :: u32)))) \<le> free_space fresh_heap"
    unfolding len using fresh_heap(4) [of 1] fresh_heap(5) by simp_all
  from packed_uint32_read [OF fresh_heap(2) this] show ?thesis unfolding len by simp
qed

text \<open>
  C17: Reading a block of a request. If the block lies within the request, exactly its bytes are
  returned and the parser advances behind it; otherwise nothing is read, the parser does not move
  and its result is marked invalid. The bounds check cannot be passed by a block that leaves the
  request.
\<close>

theorem read_block_of_request:
  assumes "heap_inv m" "content m h = Some (rq, rsp)" "mem_handle po = Some h" "offset po = int k" "k + n < 65536"
  shows "zepto_parse_read_block m po (int n) =
    Some (if k + n \<le> length rq then (Some (take n (drop k rq)), po\<lparr>offset := int (k + n)\<rparr>)
          else (None, po\<lparr>res_valid := False\<rparr>))"
  by (rule parse_read_block_effect [OF assms])

theorem read_block_of_request_witness:
  "zepto_parse_read_block request_heap \<lparr>mem_handle = Some 0, offset = 1, res_valid = True\<rparr> 2 =
     Some (Some [2, 3], \<lparr>mem_handle = Some 0, offset = 3, res_valid = True\<rparr>)"
  using read_block_of_request [OF request_heap(1), of 0 "[1, 2, 3]" "[]" "\<lparr>mem_handle = Some 0, offset = 1, res_valid = True\<rparr>" 1 2]
    request_heap by simp

section \<open>Checksums\<close>

text \<open>
  C27: The checksums computed with end-around carries on machine words are the Fletcher sums: the
  two halves are the sum of the data and the sum of the running sums, modulo 255 over the bytes for
  two bytes of checksum, and modulo 65535 over the little-endian words for four.
\<close>

theorem checksum_is_fletcher:
  "(\<exists>w. calculate_checksum 2 buff = Some (u16_bytes w) \<and>
      unat (ucast w :: u8) = sum_list (map unat buff) mod 255 \<and>
      unat (ucast (drop_bit 8 w) :: u8) = weighted_sum (map unat buff) mod 255) \<and>
   (\<exists>v w. calculate_checksum 4 buff = Some (u16_bytes v @ u16_bytes w) \<and>
      unat v = sum_list (map unat (words_of buff)) mod 65535 \<and>
      unat w = weighted_sum (map unat (words_of buff)) mod 65535)"
proof -
  let ?w = "fold update_fletcher_checksum16 buff 0"
  obtain v w where vw: "fold update_fletcher_checksum_32 (words_of buff) (0, 0) = (v, w)" by fastforce
  have "calculate_checksum 2 buff = Some (u16_bytes ?w)" "calculate_checksum 4 buff = Some (u16_bytes v @ u16_bytes w)"
    by (simp_all add: calculate_checksum_def vw)
  with fletcher_16 [of buff] fletcher_32 [of "words_of buff"] vw show ?thesis
    unfolding halves_def by (metis map_prod_simp prod.inject)
qed

section \<open>Time values\<close>

text \<open>
  C28: Comparison, addition and doubling of time values are those of the tick counts, modulo the 32
  bits they have, and a time value read from the clock is its tick.
\<close>

theorem time_arithmetic:
  "(sa_hal_time_val_is_less x y \<longleftrightarrow> ticks x < ticks y) \<and>
   ticks (SA_TIME_INCREMENT_BY_TICKS x y) = (ticks x + ticks y) mod 2 ^ 32 \<and>
   ticks (SA_TIME_MUL_TICKS_BY_2 x) = 2 * ticks x mod 2 ^ 32 \<and>
   ticks (sa_get_time t) = uint t \<and> ticks (SA_TIME_LOAD_TICKS_FOR_1_SEC x) = 1000"
  using increment_ticks [of x y] mul_by_2_ticks [of x]
  by (simp add: is_less_ticks sa_get_time_ticks SA_TIME_LOAD_TICKS_FOR_1_SEC_def ticks_def [of "x\<lparr>low_t := _, high_t := _\<rparr>"])

text \<open>
  Subtraction saturates at zero, and is right exactly where the borrow that is tested after the
  subtraction of the low words is the borrow that is needed; elsewhere it is off by 65536 ticks.
\<close>

lemma time_subtraction:
  "ticks (SA_TIME_SUBTRACT_TICKS_OR_ZERO x y) =
    (if ticks x < ticks y then 0
     else (ticks x - ticks y + 65536 * (of_bool (borrow_needed x y) - of_bool (borrow_tested x y))) mod 2 ^ 32)"
  using subtract_ticks [of x y] by simp

end
